(* ===== verification/Prelude.thy ===== *)
theory Prelude
  imports Main "HOL-Library.Char_ord" "HOL-Library.List_Lexorder"
begin

text \<open>
  Shared ground of the development: the character classes and regular expressions the Python
  sources use, exceptions as values, the list of guarded checks that a chain of
  \<^verbatim>\<open>require(...)\<close> calls is, and the lemma collections the component theories
  simplify with.
\<close>

section \<open>Lemma collections\<close>

named_theorems py_simps \<open>evaluation of Python values: fields, types, equality\<close>
named_theorems check_simps \<open>unfolding of guarded checks\<close>

section \<open>Character classes and regular expressions\<close>

definition lower_hex :: "char \<Rightarrow> bool" where
  "lower_hex c \<longleftrightarrow> (CHR ''0'' \<le> c \<and> c \<le> CHR ''9'') \<or> (CHR ''a'' \<le> c \<and> c \<le> CHR ''f'')"

definition digit :: "char \<Rightarrow> bool" where
  "digit c \<longleftrightarrow> CHR ''0'' \<le> c \<and> c \<le> CHR ''9''"

definition lower :: "char \<Rightarrow> bool" where
  "lower c \<longleftrightarrow> CHR ''a'' \<le> c \<and> c \<le> CHR ''z''"

definition alnum :: "char \<Rightarrow> bool" where
  "alnum c \<longleftrightarrow> digit c \<or> lower c \<or> (CHR ''A'' \<le> c \<and> c \<le> CHR ''Z'')"

text \<open>\<^verbatim>\<open>[A-Za-z0-9_.-]\<close>\<close>

definition name_char :: "char \<Rightarrow> bool" where
  "name_char c \<longleftrightarrow> alnum c \<or> c \<in> {CHR ''_'', CHR ''.'', CHR ''-''}"

text \<open>A regular expression of classes with fixed repetition counts.\<close>

fun fits :: "(nat \<times> (char \<Rightarrow> bool)) list \<Rightarrow> string \<Rightarrow> bool" where
  "fits [] s \<longleftrightarrow> s = []"
| "fits ((n, p) # rs) s \<longleftrightarrow> n \<le> length s \<and> list_all p (take n s) \<and> fits rs (drop n s)"

text \<open>\<^verbatim>\<open>[0-9a-f]{n}\<close>\<close>

definition hexn :: "nat \<Rightarrow> string \<Rightarrow> bool" where
  "hexn n s \<longleftrightarrow> length s = n \<and> list_all lower_hex s"

text \<open>\<^verbatim>\<open>first[rest]{lo,hi}\<close>, the bound \<open>None\<close> for \<^verbatim>\<open>*\<close>\<close>

definition head_tail :: "(char \<Rightarrow> bool) \<Rightarrow> (char \<Rightarrow> bool) \<Rightarrow> nat option \<Rightarrow> string \<Rightarrow> bool" where
  "head_tail p q bound s \<longleftrightarrow>
     (case s of [] \<Rightarrow> False
      | c # cs \<Rightarrow> p c \<and> list_all q cs \<and> (case bound of None \<Rightarrow> True | Some n \<Rightarrow> length cs \<le> n))"

text \<open>\<^verbatim>\<open>[0-9a-f]{8}(?:-[0-9a-f]{4}){3}-[0-9a-f]{12}\<close>\<close>

definition dash :: "char \<Rightarrow> bool" where "dash c \<longleftrightarrow> c = CHR ''-''"

definition boot_id_re :: "string \<Rightarrow> bool" where
  "boot_id_re =
     fits [(8, lower_hex), (1, dash), (4, lower_hex), (1, dash), (4, lower_hex), (1, dash),
           (4, lower_hex), (1, dash), (12, lower_hex)]"

text \<open>
  \<^verbatim>\<open>[0-9a-f]{8}-[0-9a-f]{4}-[1-5][0-9a-f]{3}-[89ab][0-9a-f]{3}-[0-9a-f]{12}\<close>
\<close>

definition uuid_re :: "string \<Rightarrow> bool" where
  "uuid_re =
     fits [(8, lower_hex), (1, dash), (4, lower_hex), (1, dash),
           (1, \<lambda>c. CHR ''1'' \<le> c \<and> c \<le> CHR ''5''), (3, lower_hex), (1, dash),
           (1, \<lambda>c. c \<in> set ''89ab''), (3, lower_hex), (1, dash), (12, lower_hex)]"

text \<open>The LVM UUID \<^verbatim>\<open>[A-Za-z0-9]{6}(?:-[A-Za-z0-9]{4}){5}-[A-Za-z0-9]{6}\<close>\<close>

definition lvm_uuid_re :: "string \<Rightarrow> bool" where
  "lvm_uuid_re =
     fits [(6, alnum), (1, dash), (4, alnum), (1, dash), (4, alnum), (1, dash), (4, alnum), (1, dash),
           (4, alnum), (1, dash), (4, alnum), (1, dash), (6, alnum)]"

lemma hexn_length: "hexn n s \<Longrightarrow> length s = n"
  by (simp add: hexn_def)

lemma fits_length: "fits rs s \<Longrightarrow> length s = sum_list (map fst rs)"
  by (induction rs s rule: fits.induct) auto

lemma hexn_replicate [simp]: "hexn n (replicate n c) \<longleftrightarrow> n = 0 \<or> lower_hex c"
  by (auto simp: hexn_def list_all_iff)

lemmas regex_eval =
  hexn_def lower_hex_def digit_def lower_def alnum_def name_char_def head_tail_def dash_def
  boot_id_re_def uuid_re_def lvm_uuid_re_def

section \<open>Exceptions and guarded checks\<close>

text \<open>
  What a Python call can end with instead of a value. \<open>Refusal\<close> is the refusal class each
  module declares, the others are the built-in exceptions the modelled code can raise;
  \<open>Foreign\<close> is any other exception a dependency raises, and \<open>Exiting\<close> one of the
  exceptions \<^verbatim>\<open>except Exception\<close> lets pass (\<^verbatim>\<open>KeyboardInterrupt\<close>,
  \<^verbatim>\<open>SystemExit\<close>, \<^verbatim>\<open>GeneratorExit\<close>).
\<close>

datatype exc =
    Refusal string
  | KeyError string
  | TypeError string
  | ValueError string
  | AttributeError string
  | OverflowError string
  | Foreign string
  | Exiting string

text \<open>\<^verbatim>\<open>isinstance(exc, Exception)\<close>: what \<^verbatim>\<open>except Exception\<close> catches\<close>

fun is_exception :: "exc \<Rightarrow> bool" where
  "is_exception (Exiting _) \<longleftrightarrow> False"
| "is_exception _ \<longleftrightarrow> True"

type_synonym 'a res = "exc + 'a"

definition rbind :: "'a res \<Rightarrow> ('a \<Rightarrow> 'b res) \<Rightarrow> 'b res" where
  "rbind m f = (case m of Inl e \<Rightarrow> Inl e | Inr a \<Rightarrow> f a)"

lemma rbind_simps [simp]:
  "rbind (Inl e) f = Inl e"
  "rbind (Inr a) f = f a"
  by (simp_all add: rbind_def)

lemma rbindE: "rbind m f = Inr b \<Longrightarrow> (\<And>a. m = Inr a \<Longrightarrow> f a = Inr b \<Longrightarrow> thesis) \<Longrightarrow> thesis"
  by (cases m) simp_all

lemma rbind_Inr [check_simps]: "rbind m f = Inr b \<longleftrightarrow> (\<exists>a. m = Inr a \<and> f a = Inr b)"
  by (cases m) simp_all

text \<open>
  A sequence of \<^verbatim>\<open>require(condition, message)\<close> statements: the first condition that
  fails raises. \<open>need\<close> pairs a condition with the module's refusal.
\<close>

definition need :: "bool \<Rightarrow> string \<Rightarrow> bool \<times> exc" where
  "need b msg = (b, Refusal msg)"

fun checks :: "(bool \<times> exc) list \<Rightarrow> unit res" where
  "checks [] = Inr ()"
| "checks ((b, e) # cs) = (if b then checks cs else Inl e)"

lemma checks_ok [check_simps]: "checks cs = Inr u \<longleftrightarrow> list_all fst cs"
  by (induction cs rule: checks.induct) auto

lemma checks_append [simp]: "checks (cs @ ds) = rbind (checks cs) (\<lambda>_. checks ds)"
  by (induction cs rule: checks.induct) auto

declare checks.simps [simp del]

lemma checks_Inl_mem: "checks cs = Inl e \<Longrightarrow> (False, e) \<in> set cs"
  by (induction cs rule: checks.induct) (auto simp: checks.simps split: if_splits)

lemma fst_need [simp, check_simps]: "fst (need b msg) = b"
  by (simp add: need_def)

lemma checks_need: "checks (need b msg # cs) = (if b then checks cs else Inl (Refusal msg))"
  by (simp add: need_def checks.simps)

text \<open>A \<^verbatim>\<open>for\<close> loop whose body only checks.\<close>

fun check_each :: "('a \<Rightarrow> unit res) \<Rightarrow> 'a list \<Rightarrow> unit res" where
  "check_each f [] = Inr ()"
| "check_each f (x # xs) = rbind (f x) (\<lambda>_. check_each f xs)"

lemma check_each_ok [check_simps]: "check_each f xs = Inr u \<longleftrightarrow> (\<forall>x \<in> set xs. f x = Inr ())"
  by (induction xs) (auto simp: check_simps)

declare check_each.simps [simp del]

lemma check_each_cong [fundef_cong]:
  assumes "xs = ys" and "\<And>x. x \<in> set ys \<Longrightarrow> f x = g x"
  shows "check_each f xs = check_each g ys"
proof -
  have "check_each f zs = check_each g zs" if "set zs \<subseteq> set ys" for zs
    using that assms(2) by (induction zs) (auto simp: check_each.simps)
  then show ?thesis using assms(1) by simp
qed

section \<open>Lists\<close>

text \<open>\<^verbatim>\<open>names == sorted(set(names))\<close>: strictly increasing.\<close>

lemma sorted_set_iff:
  fixes xs :: "'a::linorder list"
  shows "xs = sorted_list_of_set (set xs) \<longleftrightarrow> sorted_wrt (<) xs"
  by (metis List.finite_set sorted_list_of_set.sorted_key_list_of_set_unique strict_sorted_list_of_set
      sorted_list_of_set.idem_if_sorted_distinct strict_sorted_iff)

lemma sorted_snoc_last:
  fixes xs :: "'a::linorder list"
  shows "xs \<noteq> [] \<Longrightarrow> sorted (xs @ [y]) \<longleftrightarrow> sorted xs \<and> last xs \<le> y"
proof (induction xs)
  case Nil
  then show ?case by simp
next
  case (Cons a xs)
  show ?case
  proof (cases "xs = []")
    case False
    with Cons.IH show ?thesis by (auto intro: order_trans last_in_set)
  qed simp
qed

lemma sorted_snoc_iff:
  fixes xs :: "'a::linorder list"
  shows "sorted (x # xs @ [y]) \<longleftrightarrow> sorted (x # xs) \<and> last (x # xs) \<le> y"
  using sorted_snoc_last [of "x # xs" y] by simp

lemma strict_sorted_distinct:
  fixes xs :: "'a::linorder list"
  shows "sorted_wrt (<) xs \<Longrightarrow> distinct xs"
  by (simp add: strict_sorted_iff)

lemma upt_split: "[a..<b] = ys @ i # zs \<Longrightarrow> i = a + length ys \<and> i < b"
proof -
  assume eq: "[a..<b] = ys @ i # zs"
  then have "b - a = length ys + Suc (length zs)"
    by (metis length_Cons length_append length_upt)
  then have len: "length ys < b - a" by simp
  then have "[a..<b] ! length ys = a + length ys" by simp
  with eq len show ?thesis by auto
qed

section \<open>Lists of fallible tests\<close>

text \<open>\<^verbatim>\<open>[x for x in xs if f(x)]\<close>, \<^verbatim>\<open>all(f(x) for x in xs)\<close> and \<^verbatim>\<open>any(...)\<close>, where \<open>f\<close> can raise\<close>

fun rfilter :: "('a \<Rightarrow> bool res) \<Rightarrow> 'a list \<Rightarrow> 'a list res" where
  "rfilter f [] = Inr []"
| "rfilter f (x # xs) =
     rbind (f x) (\<lambda>b. rbind (rfilter f xs) (\<lambda>ys. Inr (if b then x # ys else ys)))"

fun rall :: "('a \<Rightarrow> bool res) \<Rightarrow> 'a list \<Rightarrow> bool res" where
  "rall f [] = Inr True"
| "rall f (x # xs) = rbind (f x) (\<lambda>b. if b then rall f xs else Inr False)"

fun rany :: "('a \<Rightarrow> bool res) \<Rightarrow> 'a list \<Rightarrow> bool res" where
  "rany f [] = Inr False"
| "rany f (x # xs) = rbind (f x) (\<lambda>b. if b then Inr True else rany f xs)"

text \<open>\<^verbatim>\<open>a and b\<close>, \<^verbatim>\<open>a or b\<close> on fallible operands\<close>

definition rand :: "bool res \<Rightarrow> bool res \<Rightarrow> bool res" where
  "rand m n = rbind m (\<lambda>b. if b then n else Inr False)"

definition ror :: "bool res \<Rightarrow> bool res \<Rightarrow> bool res" where
  "ror m n = rbind m (\<lambda>b. if b then Inr True else n)"

definition rnot :: "bool res \<Rightarrow> bool res" where
  "rnot m = rbind m (\<lambda>b. Inr (\<not> b))"

text \<open>\<^verbatim>\<open>[f(x) for x in xs]\<close>, where \<open>f\<close> can raise\<close>

fun rmap :: "('a \<Rightarrow> 'b res) \<Rightarrow> 'a list \<Rightarrow> 'b list res" where
  "rmap f [] = Inr []"
| "rmap f (x # xs) = rbind (f x) (\<lambda>y. rbind (rmap f xs) (\<lambda>ys. Inr (y # ys)))"

lemma not_isl_Inr: "\<not> isl r \<Longrightarrow> \<exists>a. r = Inr a"
  by (cases r) simp_all

lemma rmap_Inr: "rmap f xs = Inr ys \<longleftrightarrow> list_all2 (\<lambda>x y. f x = Inr y) xs ys"
  by (induction xs arbitrary: ys) (auto simp: rbind_Inr list_all2_Cons1)

lemma rfilter_Inr: "rfilter f xs = Inr ys \<Longrightarrow> ys = filter (\<lambda>x. f x = Inr True) xs \<and> (\<forall>x \<in> set xs. \<not> isl (f x))"
  by (induction xs arbitrary: ys) (auto simp: rbind_Inr)

lemma rall_True [simp]: "rall f xs = Inr True \<longleftrightarrow> (\<forall>x \<in> set xs. f x = Inr True)"
  by (induction xs) (auto simp: rbind_Inr split: if_splits)

lemma rany_True: "rany f xs = Inr True \<Longrightarrow> \<exists>x \<in> set xs. f x = Inr True"
  by (induction xs) (auto simp: rbind_Inr split: if_splits)

lemma rany_False: "rany f xs = Inr False \<longleftrightarrow> (\<forall>x \<in> set xs. f x = Inr False)"
  by (induction xs) (auto simp: rbind_Inr split: if_splits)

lemma rand_True [simp]: "rand m n = Inr True \<longleftrightarrow> m = Inr True \<and> n = Inr True"
  by (auto simp: rand_def rbind_Inr split: if_splits)

lemma rand_Inr_True [simp]: "rand (Inr True) n = n" "rand (Inr False) n = Inr False"
  by (simp_all add: rand_def)

lemma rand_Inr [simp]: "rand (Inr a) (Inr b) = Inr (a \<and> b)"
  by (simp add: rand_def)

lemma ror_False [simp]: "ror m n = Inr False \<longleftrightarrow> m = Inr False \<and> n = Inr False"
  by (auto simp: ror_def rbind_Inr split: if_splits)

lemma ror_Inr [simp]: "ror (Inr True) n = Inr True" "ror (Inr False) n = n"
  by (simp_all add: ror_def)

lemma rnot_eq [simp]: "rnot m = Inr b \<longleftrightarrow> m = Inr (\<not> b)" "rnot (Inr b) = Inr (\<not> b)"
  by (auto simp: rnot_def rbind_Inr)

end
