(* ===== verification/PyValue.thy ===== *)
theory PyValue
  imports Prelude "HOL-Library.Multiset"
begin

text \<open>
  Python values, as far as the modelled modules inspect them: the built-in types of a JSON
  document, byte strings, and any other object, which the type tests of the code reject.
  A tuple is never compared for order by the modelled code, so no order is defined on it.
  A dict keeps its items in insertion order, so its keys are distinct in every Python value.
\<close>

section \<open>The values\<close>

datatype pyval =
    PNone
  | PBool bool
  | PInt int
  | PStr string
  | PBytes string
  | PList "pyval list"
  | PTuple "pyval list"
  | PDict "(string \<times> pyval) list"
  | PObj nat

text \<open>
  Python equality identifies \<^verbatim>\<open>True\<close> with \<^verbatim>\<open>1\<close> and ignores the order of dict
  items: two values are equal when they have the same normal form.
\<close>

fun pynorm :: "pyval \<Rightarrow> pyval" where
  "pynorm PNone = PNone"
| "pynorm (PBool b) = PInt (if b then 1 else 0)"
| "pynorm (PInt n) = PInt n"
| "pynorm (PStr s) = PStr s"
| "pynorm (PBytes s) = PBytes s"
| "pynorm (PList vs) = PList (map pynorm vs)"
| "pynorm (PTuple vs) = PTuple (map pynorm vs)"
| "pynorm (PDict d) = PDict (sort_key fst (map (\<lambda>(k, v). (k, pynorm v)) d))"
| "pynorm (PObj n) = PObj n"

definition pyeq :: "pyval \<Rightarrow> pyval \<Rightarrow> bool" where
  "pyeq v w \<longleftrightarrow> pynorm v = pynorm w"

lemma pyeq_refl [simp]: "pyeq v v"
  by (simp add: pyeq_def)

lemma pyeq_sym: "pyeq v w \<longleftrightarrow> pyeq w v"
  by (auto simp: pyeq_def)

lemma pyeq_trans: "pyeq u v \<Longrightarrow> pyeq v w \<Longrightarrow> pyeq u w"
  by (simp add: pyeq_def)

lemma pynorm_PStr [simp]: "pynorm v = PStr s \<longleftrightarrow> v = PStr s"
  by (cases v) auto

lemma pynorm_PBytes [simp]: "pynorm v = PBytes s \<longleftrightarrow> v = PBytes s"
  by (cases v) auto

lemma pynorm_PNone [simp]: "pynorm v = PNone \<longleftrightarrow> v = PNone"
  by (cases v) auto

lemma pynorm_PInt: "pynorm v = PInt n \<longleftrightarrow> v = PInt n \<or> (\<exists>b. v = PBool b \<and> n = (if b then 1 else 0))"
  by (cases v) auto

lemma pynorm_PList: "pynorm v = PList ws \<longleftrightarrow> (\<exists>vs. v = PList vs \<and> map pynorm vs = ws)"
  by (cases v) auto

lemma pynorm_PDict:
  "pynorm v = PDict ws \<longleftrightarrow>
     (\<exists>d. v = PDict d \<and> sort_key fst (map (\<lambda>(k, v). (k, pynorm v)) d) = ws)"
  by (cases v) auto

lemma pyeq_PStr [simp, py_simps]: "pyeq v (PStr s) \<longleftrightarrow> v = PStr s" "pyeq (PStr s) v \<longleftrightarrow> v = PStr s"
  by (auto simp: pyeq_def eq_commute [of "PStr s"])

lemma pyeq_PBytes [simp, py_simps]: "pyeq v (PBytes s) \<longleftrightarrow> v = PBytes s" "pyeq (PBytes s) v \<longleftrightarrow> v = PBytes s"
  by (auto simp: pyeq_def eq_commute [of "PBytes s"])

lemma pyeq_PNone [simp, py_simps]: "pyeq v PNone \<longleftrightarrow> v = PNone" "pyeq PNone v \<longleftrightarrow> v = PNone"
  by (auto simp: pyeq_def eq_commute [of "PNone"])

lemma pyeq_ints [simp, py_simps]: "pyeq (PInt m) (PInt n) \<longleftrightarrow> m = n"
  by (simp add: pyeq_def)

lemma pyeq_lists [simp, py_simps]: "pyeq (PList vs) (PList ws) \<longleftrightarrow> list_all2 pyeq vs ws"
  by (simp add: pyeq_def list_all2_conv_all_nth list_eq_iff_nth_eq)
     (metis nth_map)

lemma pyeq_list_cases: "pyeq v (PList ws) \<longleftrightarrow> (\<exists>vs. v = PList vs \<and> list_all2 pyeq vs ws)"
proof (cases v)
  case (PList vs)
  then show ?thesis by simp
qed (simp_all add: pyeq_def)

lemma list_all2_pyeq_strs:
  "list_all2 pyeq vs (map PStr ss) \<longleftrightarrow> vs = map PStr ss"
  by (induction ss arbitrary: vs) (auto simp: list_all2_Cons2)

lemma pyeq_str_list [simp]: "pyeq v (PList (map PStr ss)) \<longleftrightarrow> v = PList (map PStr ss)"
  by (auto simp: pyeq_list_cases list_all2_pyeq_strs)

lemma pyeq_tuple_cases: "pyeq v (PTuple ws) \<longleftrightarrow> (\<exists>vs. v = PTuple vs \<and> list_all2 pyeq vs ws)"
proof (cases v)
  case (PTuple vs)
  then have "pyeq v (PTuple ws) \<longleftrightarrow> pyeq (PList vs) (PList ws)" by (simp add: pyeq_def)
  with PTuple show ?thesis by simp
qed (simp_all add: pyeq_def)

lemma pyeq_str_tuple [simp]: "pyeq v (PTuple (map PStr ss)) \<longleftrightarrow> v = PTuple (map PStr ss)"
  by (auto simp: pyeq_tuple_cases list_all2_pyeq_strs)

section \<open>Types, fields and truth\<close>

definition is_dict :: "pyval \<Rightarrow> bool" where "is_dict v \<longleftrightarrow> (case v of PDict _ \<Rightarrow> True | _ \<Rightarrow> False)"
definition is_list :: "pyval \<Rightarrow> bool" where "is_list v \<longleftrightarrow> (case v of PList _ \<Rightarrow> True | _ \<Rightarrow> False)"
definition is_str :: "pyval \<Rightarrow> bool" where "is_str v \<longleftrightarrow> (case v of PStr _ \<Rightarrow> True | _ \<Rightarrow> False)"
definition is_bytes :: "pyval \<Rightarrow> bool" where "is_bytes v \<longleftrightarrow> (case v of PBytes _ \<Rightarrow> True | _ \<Rightarrow> False)"
definition is_bool :: "pyval \<Rightarrow> bool" where "is_bool v \<longleftrightarrow> (case v of PBool _ \<Rightarrow> True | _ \<Rightarrow> False)"

text \<open>\<^verbatim>\<open>type(v) is int\<close>: a bool is an instance of int, but not of this type.\<close>

definition is_int :: "pyval \<Rightarrow> bool" where "is_int v \<longleftrightarrow> (case v of PInt _ \<Rightarrow> True | _ \<Rightarrow> False)"

lemma type_tests [simp, py_simps]:
  "is_dict (PDict d)" "\<not> is_dict PNone" "\<not> is_dict (PBool b)" "\<not> is_dict (PInt n)"
  "\<not> is_dict (PStr s)" "\<not> is_dict (PBytes s)" "\<not> is_dict (PList vs)" "\<not> is_dict (PObj m)"
  "is_list (PList vs)" "\<not> is_list PNone" "\<not> is_list (PBool b)" "\<not> is_list (PInt n)"
  "\<not> is_list (PStr s)" "\<not> is_list (PBytes s)" "\<not> is_list (PDict d)" "\<not> is_list (PObj m)"
  "is_str (PStr s)" "\<not> is_str PNone" "\<not> is_str (PBool b)" "\<not> is_str (PInt n)"
  "\<not> is_str (PList vs)" "\<not> is_str (PBytes s)" "\<not> is_str (PDict d)" "\<not> is_str (PObj m)"
  "is_int (PInt n)" "\<not> is_int PNone" "\<not> is_int (PBool b)" "\<not> is_int (PStr s)"
  "\<not> is_int (PList vs)" "\<not> is_int (PBytes s)" "\<not> is_int (PDict d)" "\<not> is_int (PObj m)"
  "is_bool (PBool b)" "\<not> is_bool PNone" "\<not> is_bool (PInt n)" "\<not> is_bool (PStr s)"
  "\<not> is_bool (PList vs)" "\<not> is_bool (PBytes s)" "\<not> is_bool (PDict d)" "\<not> is_bool (PObj m)"
  "is_bytes (PBytes s)" "\<not> is_bytes PNone" "\<not> is_bytes (PInt n)" "\<not> is_bytes (PStr s)"
  "\<not> is_bytes (PList vs)" "\<not> is_bytes (PBool b)" "\<not> is_bytes (PDict d)" "\<not> is_bytes (PObj m)"
  "\<not> is_dict (PTuple vs)" "\<not> is_list (PTuple vs)" "\<not> is_str (PTuple vs)" "\<not> is_int (PTuple vs)"
  "\<not> is_bool (PTuple vs)" "\<not> is_bytes (PTuple vs)"
  by (simp_all add: is_dict_def is_list_def is_str_def is_int_def is_bool_def is_bytes_def)

lemma is_str_iff: "is_str v \<longleftrightarrow> (\<exists>s. v = PStr s)" by (cases v) auto
lemma is_int_iff: "is_int v \<longleftrightarrow> (\<exists>n. v = PInt n)" by (cases v) auto
lemma is_list_iff: "is_list v \<longleftrightarrow> (\<exists>vs. v = PList vs)" by (cases v) auto
lemma is_dict_iff: "is_dict v \<longleftrightarrow> (\<exists>d. v = PDict d)" by (cases v) auto
lemma is_bool_iff: "is_bool v \<longleftrightarrow> (\<exists>b. v = PBool b)" by (cases v) auto
lemma is_bytes_iff: "is_bytes v \<longleftrightarrow> (\<exists>s. v = PBytes s)" by (cases v) auto

lemmas py_type_iff = is_str_iff is_int_iff is_list_iff is_dict_iff is_bool_iff is_bytes_iff

text \<open>
  \<open>fld v k\<close> is \<^verbatim>\<open>v.get(k)\<close>, and \<^verbatim>\<open>v[k]\<close> where the code has made sure of the key.
\<close>

fun items :: "pyval \<Rightarrow> (string \<times> pyval) list" where
  "items (PDict d) = d"
| "items _ = []"

definition keys :: "pyval \<Rightarrow> string list" where
  "keys v = map fst (items v)"

definition has_key :: "pyval \<Rightarrow> string \<Rightarrow> bool" where
  "has_key v k \<longleftrightarrow> k \<in> set (keys v)"

definition fld :: "pyval \<Rightarrow> string \<Rightarrow> pyval" where
  "fld v k = (case map_of (items v) k of None \<Rightarrow> PNone | Some w \<Rightarrow> w)"

lemma fld_PDict [simp, py_simps]:
  "fld (PDict []) k = PNone"
  "fld (PDict ((k', v) # d)) k = (if k = k' then v else fld (PDict d) k)"
  by (simp_all add: fld_def)

lemma fld_other [simp, py_simps]:
  "fld PNone k = PNone" "fld (PBool b) k = PNone" "fld (PInt n) k = PNone"
  "fld (PStr s) k = PNone" "fld (PBytes s) k = PNone" "fld (PList vs) k = PNone"
  "fld (PObj m) k = PNone" "fld (PTuple vs) k = PNone"
  by (simp_all add: fld_def)

text \<open>\<^verbatim>\<open>type(value) is dict and set(value) == set(fields)\<close>\<close>

definition exact :: "pyval \<Rightarrow> string list \<Rightarrow> bool" where
  "exact v ks \<longleftrightarrow> is_dict v \<and> set (keys v) = set ks"

lemma exact_PDict [simp, py_simps]: "exact (PDict d) ks \<longleftrightarrow> set (map fst d) = set ks"
  by (simp add: exact_def keys_def)

lemma exact_is_dict: "exact v ks \<Longrightarrow> is_dict v"
  by (simp add: exact_def)

text \<open>The scalars inside a value, with a default for the other types.\<close>

fun int_of :: "pyval \<Rightarrow> int" where
  "int_of (PInt n) = n"
| "int_of (PBool b) = (if b then 1 else 0)"
| "int_of _ = 0"

fun str_of :: "pyval \<Rightarrow> string" where
  "str_of (PStr s) = s"
| "str_of _ = []"

fun list_of :: "pyval \<Rightarrow> pyval list" where
  "list_of (PList vs) = vs"
| "list_of (PTuple vs) = vs"
| "list_of _ = []"

text \<open>\<^verbatim>\<open>value is True\<close> and \<^verbatim>\<open>value is False\<close>\<close>

abbreviation is_true :: "pyval \<Rightarrow> bool" where "is_true v \<equiv> v = PBool True"
abbreviation is_false :: "pyval \<Rightarrow> bool" where "is_false v \<equiv> v = PBool False"

text \<open>\<^verbatim>\<open>bool(value)\<close>\<close>

fun truthy :: "pyval \<Rightarrow> bool" where
  "truthy PNone = False"
| "truthy (PBool b) = b"
| "truthy (PInt n) = (n \<noteq> 0)"
| "truthy (PStr s) = (s \<noteq> [])"
| "truthy (PBytes s) = (s \<noteq> [])"
| "truthy (PList vs) = (vs \<noteq> [])"
| "truthy (PTuple vs) = (vs \<noteq> [])"
| "truthy (PDict d) = (d \<noteq> [])"
| "truthy (PObj m) = True"

text \<open>\<^verbatim>\<open>type(v) is str and RE.fullmatch(v)\<close>\<close>

definition matches :: "(string \<Rightarrow> bool) \<Rightarrow> pyval \<Rightarrow> bool" where
  "matches re v \<longleftrightarrow> (case v of PStr s \<Rightarrow> re s | _ \<Rightarrow> False)"

lemma matches_simps [simp, py_simps]:
  "matches re (PStr s) = re s" "\<not> matches re PNone" "\<not> matches re (PBool b)" "\<not> matches re (PInt n)"
  "\<not> matches re (PList vs)" "\<not> matches re (PBytes s)" "\<not> matches re (PDict d)" "\<not> matches re (PObj m)"
  "\<not> matches re (PTuple vs)"
  by (simp_all add: matches_def)

lemma matches_iff: "matches re v \<longleftrightarrow> (\<exists>s. v = PStr s \<and> re s)"
  by (cases v) auto

text \<open>\<^verbatim>\<open>type(value) is int and value >= minimum\<close>\<close>

definition integer :: "pyval \<Rightarrow> int \<Rightarrow> bool" where
  "integer v lo \<longleftrightarrow> is_int v \<and> lo \<le> int_of v"

lemma integer_simps [simp, py_simps]:
  "integer (PInt n) lo \<longleftrightarrow> lo \<le> n" "\<not> integer PNone lo" "\<not> integer (PBool b) lo"
  "\<not> integer (PStr s) lo" "\<not> integer (PList vs) lo" "\<not> integer (PBytes s) lo"
  "\<not> integer (PDict d) lo" "\<not> integer (PObj m) lo" "\<not> integer (PTuple vs) lo"
  by (simp_all add: integer_def)

lemma integer_iff: "integer v lo \<longleftrightarrow> (\<exists>n. v = PInt n \<and> lo \<le> n)"
  by (cases v) auto

text \<open>A list of strings, sorted and without duplicates: \<^verbatim>\<open>xs == sorted(set(xs))\<close>.\<close>

definition sorted_strs :: "pyval list \<Rightarrow> bool" where
  "sorted_strs vs \<longleftrightarrow> list_all is_str vs \<and> sorted_wrt (<) (map str_of vs)"

text \<open>
  \<^verbatim>\<open>set(a) == set(b)\<close>, \<^verbatim>\<open>a <= b\<close> and the like on lists of strings are set relations of
  these.
\<close>

definition str_set :: "pyval \<Rightarrow> string set" where
  "str_set v = str_of ` set (list_of v)"

lemma str_set_strs [simp]: "str_set (PList (map PStr ss)) = set ss"
  by (force simp: str_set_def)

lemma str_set_simps [simp]:
  "str_set (PList []) = {}"
  "str_set (PList (PStr s # vs)) = insert s (str_set (PList vs))"
  by (simp_all add: str_set_def)

lemma map_str_of_PStr [simp]: "map (str_of \<circ> PStr) ss = ss" "map (\<lambda>x. str_of (PStr x)) ss = ss"
  by (simp_all add: comp_def)

lemma list_all_is_str: "list_all is_str vs \<longleftrightarrow> (\<exists>ss. vs = map PStr ss)"
  by (induction vs) (auto simp: is_str_iff Cons_eq_map_conv)

section \<open>Equality of dicts\<close>

lemma pyeq_dict_fld:
  assumes "pyeq v (PDict e)" and "distinct (map fst e)"
  shows "is_dict v" "set (keys v) = set (map fst e)" "pyeq (fld v k) (fld (PDict e) k)"
proof -
  let ?f = "\<lambda>(k, v). (k, pynorm v)"
  from assms(1) obtain d where v: "v = PDict d" and eq: "sort_key fst (map ?f d) = sort_key fst (map ?f e)"
    by (auto simp: pyeq_def pynorm_PDict)
  have m: "mset (map ?f d) = mset (map ?f e)" using arg_cong [OF eq, of mset] by simp
  have fst_f: "map fst (map ?f xs) = map fst xs" for xs :: "(string \<times> pyval) list"
    by (induction xs) auto
  have km: "mset (map fst d) = mset (map fst e)"
    using arg_cong [OF m, of "image_mset fst"] by (metis fst_f mset_map)
  then have dist: "distinct (map fst d)" using assms(2) by (metis mset_eq_imp_distinct_iff)
  show "is_dict v" using v by simp
  show "set (keys v) = set (map fst e)" using km v by (metis items.simps(1) keys_def mset_eq_setD)
  have "map_of (map ?f d) = map_of (map ?f e)"
  proof (rule map_of_inject_set [THEN iffD2])
    show "distinct (map fst (map ?f d))" "distinct (map fst (map ?f e))"
      using dist assms(2) by (simp_all only: fst_f)
    show "set (map ?f d) = set (map ?f e)" using m by (rule mset_eq_setD)
  qed
  then have "map_option pynorm (map_of d k) = map_option pynorm (map_of e k)"
    by (simp only: map_of_map) (metis comp_apply)
  then show "pyeq (fld v k) (fld (PDict e) k)"
    using v by (cases "map_of d k"; cases "map_of e k") (simp_all add: fld_def pyeq_def)+
qed

section \<open>\<^verbatim>\<open>xs == sorted(set(xs))\<close>\<close>

fun hashable :: "pyval \<Rightarrow> bool" where
  "hashable (PList vs) = False"
| "hashable (PDict d) = False"
| "hashable (PTuple vs) = list_all hashable vs"
| "hashable v = True"

lemma hashable_iff:
  "hashable v \<longleftrightarrow> \<not> is_list v \<and> \<not> is_dict v \<and> (\<forall>vs. v = PTuple vs \<longrightarrow> list_all hashable vs)"
  by (cases v) simp_all

fun comparable :: "pyval \<Rightarrow> pyval \<Rightarrow> bool" where
  "comparable (PStr _) (PStr _) = True"
| "comparable (PBytes _) (PBytes _) = True"
| "comparable (PInt _) w = (is_int w \<or> is_bool w)"
| "comparable (PBool _) w = (is_int w \<or> is_bool w)"
| "comparable _ _ = False"

definition py_less :: "pyval \<Rightarrow> pyval \<Rightarrow> bool" where
  "py_less v w \<longleftrightarrow>
     (case (v, w) of (PStr s, PStr t) \<Rightarrow> s < t | (PBytes s, PBytes t) \<Rightarrow> s < t
      | _ \<Rightarrow> comparable v w \<and> int_of v < int_of w)"

text \<open>
  A list or dict among the elements is unhashable; two distinct elements of types without a
  common order make \<^verbatim>\<open>sorted\<close> raise.
\<close>

definition is_sorted_set :: "pyval list \<Rightarrow> bool res" where
  "is_sorted_set vs =
     (if \<not> list_all hashable vs then Inl (TypeError ''unhashable type'')
      else if list_ex (\<lambda>v. list_ex (\<lambda>w. \<not> pyeq v w \<and> \<not> comparable v w) vs) vs
        then Inl (TypeError ''comparison not supported'')
      else Inr (sorted_wrt py_less vs))"

lemma py_less_strs [simp]: "py_less (PStr s) (PStr t) \<longleftrightarrow> s < t"
  by (simp add: py_less_def)

lemma is_sorted_set_strs [simp]:
  "is_sorted_set (map PStr ss) = Inr (sorted_wrt (<) ss)"
  by (auto simp: is_sorted_set_def list_all_iff list_ex_iff sorted_wrt_map)

section \<open>Unchecked access\<close>

text \<open>\<^verbatim>\<open>v.get(k, d)\<close>, \<^verbatim>\<open>v[k]\<close>, \<^verbatim>\<open>x in v\<close>, iteration, and membership in a set of strings, on values
  of any type\<close>

definition pyget :: "pyval \<Rightarrow> string \<Rightarrow> pyval \<Rightarrow> pyval res" where
  "pyget v k d =
     (if is_dict v then Inr (case map_of (items v) k of None \<Rightarrow> d | Some w \<Rightarrow> w)
      else Inl (AttributeError ''get''))"

definition pysub :: "pyval \<Rightarrow> string \<Rightarrow> pyval res" where
  "pysub v k =
     (if is_dict v then (case map_of (items v) k of None \<Rightarrow> Inl (KeyError k) | Some w \<Rightarrow> Inr w)
      else Inl (TypeError ''not subscriptable by a string''))"

definition pyiter :: "pyval \<Rightarrow> pyval list res" where
  "pyiter v =
     (case v of PList vs \<Rightarrow> Inr vs
      | PTuple vs \<Rightarrow> Inr vs
      | PDict d \<Rightarrow> Inr (map (\<lambda>kv. PStr (fst kv)) d)
      | PStr s \<Rightarrow> Inr (map (\<lambda>c. PStr [c]) s)
      | PBytes s \<Rightarrow> Inr (map (\<lambda>c. PInt (int (of_char c))) s)
      | _ \<Rightarrow> Inl (TypeError ''not iterable''))"

definition substring :: "string \<Rightarrow> string \<Rightarrow> bool" where
  "substring s t \<longleftrightarrow> list_ex (\<lambda>i. take (length s) (drop i t) = s) [0..<Suc (length t)]"

definition contains :: "pyval \<Rightarrow> pyval \<Rightarrow> bool res" where
  "contains x v =
     (case v of
        PList vs \<Rightarrow> Inr (list_ex (pyeq x) vs)
      | PTuple vs \<Rightarrow> Inr (list_ex (pyeq x) vs)
      | PDict d \<Rightarrow> if hashable x then Inr (list_ex (\<lambda>kv. x = PStr (fst kv)) d)
                   else Inl (TypeError ''unhashable type'')
      | PStr t \<Rightarrow> (case x of PStr s \<Rightarrow> Inr (substring s t) | _ \<Rightarrow> Inl (TypeError ''requires string''))
      | PBytes t \<Rightarrow> (case x of PBytes s \<Rightarrow> Inr (substring s t)
                    | PInt n \<Rightarrow> if 0 \<le> n \<and> n < 256 then Inr (list_ex (\<lambda>c. int (of_char c) = n) t)
                               else Inl (ValueError ''byte must be in range(0, 256)'')
                    | _ \<Rightarrow> Inl (TypeError ''a bytes-like object is required''))
      | _ \<Rightarrow> Inl (TypeError ''not a container''))"

definition in_strs :: "pyval \<Rightarrow> string list \<Rightarrow> bool res" where
  "in_strs v ss = (if hashable v then Inr (list_ex (\<lambda>s. v = PStr s) ss) else Inl (TypeError ''unhashable type''))"

text \<open>\<^verbatim>\<open>d[k] = v\<close>\<close>

fun dict_set :: "string \<Rightarrow> pyval \<Rightarrow> (string \<times> pyval) list \<Rightarrow> (string \<times> pyval) list" where
  "dict_set k v [] = [(k, v)]"
| "dict_set k v ((k', w) # d) = (if k' = k then (k, v) # d else (k', w) # dict_set k v d)"

lemma map_of_dict_set [simp]: "map_of (dict_set k v d) = (map_of d)(k \<mapsto> v)"
  by (induction d) (auto simp: fun_eq_iff)

lemma in_strs_True [simp]: "in_strs v ss = Inr True \<longleftrightarrow> v \<in> PStr ` set ss"
  by (auto simp: in_strs_def list_ex_iff)

lemma pyget_dict: "is_dict v \<Longrightarrow> pyget v k PNone = Inr (fld v k)"
  by (simp add: pyget_def fld_def)

lemma pyget_None [simp]: "pyget v k PNone = Inr w \<longleftrightarrow> is_dict v \<and> w = fld v k"
  by (auto simp: pyget_def fld_def)

lemma pysub_fld: "pysub v k = Inr w \<Longrightarrow> is_dict v \<and> w = fld v k"
  by (auto simp: pysub_def fld_def split: if_splits option.splits)

text \<open>\<^verbatim>\<open>sorted(set(xs))\<close>\<close>

fun py_insert :: "pyval \<Rightarrow> pyval list \<Rightarrow> pyval list" where
  "py_insert x [] = [x]"
| "py_insert x (y # ys) =
     (if pyeq x y then y # ys else if py_less x y then x # y # ys else y # py_insert x ys)"

definition py_sorted_set :: "pyval list \<Rightarrow> pyval list res" where
  "py_sorted_set vs =
     (if \<not> list_all hashable vs then Inl (TypeError ''unhashable type'')
      else if list_ex (\<lambda>v. list_ex (\<lambda>w. \<not> pyeq v w \<and> \<not> comparable v w) vs) vs
        then Inl (TypeError ''comparison not supported'')
      else Inr (fold py_insert vs []))"

text \<open>Equal values have equal fields: sorting the items is stable.\<close>

lemma map_of_filter_first:
  "map_of d k = (case filter (\<lambda>kv. fst kv = k) d of [] \<Rightarrow> None | kv # _ \<Rightarrow> Some (snd kv))"
  by (induction d) auto

lemma map_of_sort_key: "map_of (sort_key fst d) k = map_of d k"
  by (simp add: map_of_filter_first sort_key_stable)

lemma fld_pynorm: "pynorm (fld v k) = fld (pynorm v) k"
proof (cases v)
  case (PDict d)
  have "map_of (map (\<lambda>(k, v). (k, pynorm v)) d) k = map_option pynorm (map_of d k)"
    by (simp add: map_of_map)
  then show ?thesis using PDict by (simp add: fld_def map_of_sort_key split: option.splits)
qed auto

lemma pyeq_fld: "pyeq v w \<Longrightarrow> pyeq (fld v k) (fld w k)"
  by (simp add: pyeq_def fld_pynorm)

text \<open>\<^verbatim>\<open>{**v, k: w}\<close>\<close>

definition pyset :: "string \<Rightarrow> pyval \<Rightarrow> pyval \<Rightarrow> pyval" where
  "pyset k w v = PDict (dict_set k w (items v))"

lemma keys_dict_set: "set (map fst (dict_set k w d)) = insert k (set (map fst d))"
  by (simp add: dom_map_of_conv_image_fst [symmetric])

lemma pyset_simps [simp]:
  "is_dict (pyset k w v)"
  "fld (pyset k w v) k' = (if k' = k then w else fld (PDict (items v)) k')"
  "set (keys (pyset k w v)) = insert k (set (keys v))"
  "items (pyset k w v) = dict_set k w (items v)"
  by (simp_all add: pyset_def fld_def keys_def keys_dict_set [simplified])

lemma fld_items [simp]: "fld (PDict (items v)) k = fld v k"
  by (cases v) (simp_all add: fld_def)

lemma fld_dict_set [simp]: "fld (PDict (dict_set k w d)) k' = (if k' = k then w else fld (PDict d) k')"
  by (simp add: fld_def)

text \<open>\<^verbatim>\<open>RE.fullmatch(v)\<close> on a value that need not be a string\<close>

definition fullmatch :: "(string \<Rightarrow> bool) \<Rightarrow> pyval \<Rightarrow> bool res" where
  "fullmatch re v = (if is_str v then Inr (re (str_of v)) else Inl (TypeError ''expected string or bytes-like object''))"

lemma fullmatch_True [simp]: "fullmatch re v = Inr True \<longleftrightarrow> matches re v"
  by (cases v) (simp_all add: fullmatch_def)

lemma fullmatch_PStr [simp]: "fullmatch re (PStr s) = Inr (re s)"
  by (simp add: fullmatch_def)

text \<open>\<^verbatim>\<open>RE.fullmatch(v or "")\<close>, and \<^verbatim>\<open>require\<close> with a condition that can raise\<close>

definition fullmatch_or :: "(string \<Rightarrow> bool) \<Rightarrow> pyval \<Rightarrow> bool res" where
  "fullmatch_or re v = (if truthy v then fullmatch re v else Inr (re []))"

definition rneed :: "bool res \<Rightarrow> string \<Rightarrow> unit res" where
  "rneed m msg = rbind m (\<lambda>b. if b then Inr () else Inl (Refusal msg))"

lemma fullmatch_or_True: "\<not> re [] \<Longrightarrow> fullmatch_or re v = Inr True \<longleftrightarrow> matches re v"
  by (cases v) (auto simp: fullmatch_or_def fullmatch_def)

lemma fullmatch_or_PStr [simp]: "fullmatch_or re (PStr s) = Inr (re s)"
  by (simp add: fullmatch_or_def)

lemma rneed_Inr [simp, check_simps]: "rneed m msg = Inr u \<longleftrightarrow> m = Inr True"
  by (auto simp: rneed_def rbind_Inr split: if_splits)

end
