(* ===== verification/Sha256.thy ===== *)
theory Sha256
  imports Prelude "HOL-Library.Word"
begin

text \<open>
  The part of \<^verbatim>\<open>hashlib\<close> the sources use: \<^verbatim>\<open>hashlib.sha256(raw).hexdigest()\<close>, written out
  after FIPS 180-4 on 32-bit words. The properties of the development never unfold it: they use
  that a digest is 64 lower-case hexadecimal characters and that it is a function of its input.
\<close>

unbundle bit_operations_syntax

type_synonym u32 = "32 word"

definition sha_ch :: "u32 \<Rightarrow> u32 \<Rightarrow> u32 \<Rightarrow> u32" where
  "sha_ch x y z = (x AND y) XOR (NOT x AND z)"

definition sha_maj :: "u32 \<Rightarrow> u32 \<Rightarrow> u32 \<Rightarrow> u32" where
  "sha_maj x y z = (x AND y) XOR (x AND z) XOR (y AND z)"

text \<open>Rotation to the right by \<open>n < 32\<close>.\<close>

definition rotr :: "nat \<Rightarrow> u32 \<Rightarrow> u32" where
  "rotr n w = drop_bit n w OR push_bit (32 - n) w"

definition big_sigma0 :: "u32 \<Rightarrow> u32" where "big_sigma0 x = rotr 2 x XOR rotr 13 x XOR rotr 22 x"
definition big_sigma1 :: "u32 \<Rightarrow> u32" where "big_sigma1 x = rotr 6 x XOR rotr 11 x XOR rotr 25 x"
definition small_sigma0 :: "u32 \<Rightarrow> u32" where "small_sigma0 x = rotr 7 x XOR rotr 18 x XOR drop_bit 3 x"
definition small_sigma1 :: "u32 \<Rightarrow> u32" where "small_sigma1 x = rotr 17 x XOR rotr 19 x XOR drop_bit 10 x"

text \<open>
  The constants are not written out but computed, as the standard defines them: the first 32 bits
  of the fractional parts of the cube roots of the first 64 primes, and for the initial state of the
  square roots of the first eight. \<open>root_bits n k r x\<close> adds to \<open>r\<close> the lower \<open>k\<close> bits of the integer
  \<open>n\<close>-th root of \<open>x\<close>.
\<close>

fun root_bits :: "nat \<Rightarrow> nat \<Rightarrow> nat \<Rightarrow> nat \<Rightarrow> nat" where
  "root_bits n 0 r x = r"
| "root_bits n (Suc k) r x = root_bits n k (if (r + 2 ^ k) ^ n \<le> x then r + 2 ^ k else r) x"

definition fraction_bits :: "nat \<Rightarrow> nat \<Rightarrow> u32" where
  "fraction_bits n p = word_of_nat (root_bits n 40 0 (p * 2 ^ (32 * n)))"

definition small_primes :: "nat list" where
  "small_primes = filter (\<lambda>p. list_all (\<lambda>d. p mod d \<noteq> 0) [2..<p]) [2..<312]"

definition sha_k :: "u32 list" where
  "sha_k = map (fraction_bits 3) small_primes"

definition sha_init :: "u32 list" where
  "sha_init = map (fraction_bits 2) [2, 3, 5, 7, 11, 13, 17, 19]"

text \<open>The message schedule; the list holds the words so far, the latest first.\<close>

fun sha_schedule :: "nat \<Rightarrow> u32 list \<Rightarrow> u32 list" where
  "sha_schedule 0 ws = ws"
| "sha_schedule (Suc n) ws =
     sha_schedule n
       ((small_sigma1 (ws ! 1) + ws ! 6 + small_sigma0 (ws ! 14) + ws ! 15) # ws)"

fun sha_round :: "u32 \<times> u32 \<Rightarrow> u32 list \<Rightarrow> u32 list" where
  "sha_round (k, w) [a, b, c, d, e, f, g, h] =
     (let t1 = h + big_sigma1 e + sha_ch e f g + k + w; t2 = big_sigma0 a + sha_maj a b c
      in [t1 + t2, a, b, c, d + t1, e, f, g])"
| "sha_round kw hs = hs"

definition sha_compress :: "u32 list \<Rightarrow> u32 list \<Rightarrow> u32 list" where
  "sha_compress hs block =
     map2 (+) hs (fold sha_round (zip sha_k (rev (sha_schedule 48 (rev block)))) hs)"

text \<open>Padding, in bytes, and cutting into blocks of sixteen words.\<close>

definition be_bytes :: "nat \<Rightarrow> nat \<Rightarrow> nat list" where
  "be_bytes n x = map (\<lambda>i. x div 256 ^ (n - 1 - i) mod 256) [0..<n]"

definition sha_pad :: "nat list \<Rightarrow> nat list" where
  "sha_pad bs =
     (let n = length bs in bs @ [128] @ replicate ((119 - n mod 64) mod 64) 0 @ be_bytes 8 (8 * n))"

fun words_of :: "nat list \<Rightarrow> u32 list" where
  "words_of (a # b # c # d # bs) = word_of_nat (((a * 256 + b) * 256 + c) * 256 + d) # words_of bs"
| "words_of _ = []"

function sha_blocks :: "u32 list \<Rightarrow> u32 list list" where
  "sha_blocks ws = (if length ws < 16 then [] else take 16 ws # sha_blocks (drop 16 ws))"
  by pat_completeness auto
termination
  by (relation "measure length") auto

declare sha_blocks.simps [simp del]

definition hex_digit :: "nat \<Rightarrow> char" where
  "hex_digit n = ''0123456789abcdef'' ! (n mod 16)"

definition hex_word :: "u32 \<Rightarrow> string" where
  "hex_word w = map (\<lambda>i. hex_digit (unat w div 16 ^ (7 - i))) [0..<8]"

definition sha_state :: "nat list \<Rightarrow> u32 list" where
  "sha_state bs = fold (\<lambda>b hs. sha_compress hs b) (sha_blocks (words_of (sha_pad bs))) sha_init"

text \<open>\<^verbatim>\<open>hashlib.sha256(raw).hexdigest()\<close>, the input a string of bytes.\<close>

definition sha256 :: "string \<Rightarrow> string" where
  "sha256 s = concat (map hex_word (sha_state (map of_char s)))"

section \<open>The shape of a digest\<close>

lemma length_sha_round: "length (sha_round kw hs) = length hs"
  by (induction kw hs rule: sha_round.induct) (simp_all add: Let_def)

lemma length_fold_rounds: "length (fold sha_round kws hs) = length hs"
  by (induction kws arbitrary: hs) (simp_all add: length_sha_round)

lemma length_sha_compress: "length (sha_compress hs b) = length hs"
  by (simp add: sha_compress_def length_fold_rounds)

lemma length_sha_state: "length (sha_state bs) = 8"
proof -
  have "length (fold (\<lambda>b hs. sha_compress hs b) bss hs) = length hs" for bss hs
    by (induction bss arbitrary: hs) (simp_all add: length_sha_compress)
  then show ?thesis by (simp add: sha_state_def sha_init_def)
qed

lemma lower_hex_digit: "lower_hex (hex_digit n)"
proof -
  have "\<forall>c \<in> set ''0123456789abcdef''. lower_hex c" by (simp add: lower_hex_def)
  moreover have "hex_digit n \<in> set ''0123456789abcdef''"
    unfolding hex_digit_def by (rule nth_mem) simp
  ultimately show ?thesis by blast
qed

lemma hexn_sha256 [simp, py_simps]: "hexn 64 (sha256 s)"
proof -
  have "length (concat (map hex_word ws)) = 8 * length ws" for ws
    by (induction ws) (simp_all add: hex_word_def)
  then show ?thesis
    by (simp add: hexn_def sha256_def length_sha_state list_all_iff hex_word_def) (auto simp: lower_hex_digit)
qed

end
