(* ===== verification/Json.thy ===== *)
theory Json
  imports PyValue Sha256
begin

text \<open>
  \<^verbatim>\<open>json.dumps(value, sort_keys=True, separators=(",", ":"), ensure_ascii=True)\<close>, the canonical
  encoding every module hashes, and the digests built on it. A byte string or a foreign object
  makes the library raise a \<^verbatim>\<open>TypeError\<close>: the modules encode only values whose types they have
  checked, so the encoding is a total function here and \<open>json_ok\<close> says where it is the library's.
\<close>

section \<open>Numbers and strings\<close>

fun nat_digits :: "nat \<Rightarrow> string" where
  "nat_digits n = (if n < 10 then [] else nat_digits (n div 10)) @ [hex_digit (n mod 10)]"

declare nat_digits.simps [simp del]

definition int_digits :: "int \<Rightarrow> string" where
  "int_digits n = (if n < 0 then CHR ''-'' # nat_digits (nat (- n)) else nat_digits (nat n))"

definition hex2 :: "nat \<Rightarrow> string" where
  "hex2 n = [hex_digit (n div 16), hex_digit n]"

text \<open>The escapes of the ASCII encoder; characters are the code points below 256.\<close>

definition esc_char :: "char \<Rightarrow> string" where
  "esc_char c =
     (if c = CHR 0x22 then [CHR 0x5C, CHR 0x22]
      else if c = CHR 0x5C then [CHR 0x5C, CHR 0x5C]
      else if c = CHR 0x0A then [CHR 0x5C, CHR ''n'']
      else if c = CHR 0x0D then [CHR 0x5C, CHR ''r'']
      else if c = CHR 0x09 then [CHR 0x5C, CHR ''t'']
      else if c = CHR 0x0C then [CHR 0x5C, CHR ''f'']
      else if c = CHR 0x08 then [CHR 0x5C, CHR ''b'']
      else if CHR 0x20 \<le> c \<and> c \<le> CHR 0x7E then [c]
      else CHR 0x5C # ''u00'' @ hex2 (of_char c))"

definition quote :: "string \<Rightarrow> string" where
  "quote s = CHR 0x22 # concat (map esc_char s) @ [CHR 0x22]"

fun commas :: "string list \<Rightarrow> string" where
  "commas [] = []"
| "commas [s] = s"
| "commas (s # t # ss) = s @ CHR '','' # commas (t # ss)"

section \<open>Documents\<close>

fun dumps :: "pyval \<Rightarrow> string" where
  "dumps PNone = ''null''"
| "dumps (PBool b) = (if b then ''true'' else ''false'')"
| "dumps (PInt n) = int_digits n"
| "dumps (PStr s) = quote s"
| "dumps (PList vs) = CHR ''['' # commas (map dumps vs) @ '']''"
| "dumps (PTuple vs) = CHR ''['' # commas (map dumps vs) @ '']''"
| "dumps (PDict d) =
     CHR ''{'' # commas (map (\<lambda>(k, s). quote k @ CHR '':'' # s)
       (sort_key fst (map (\<lambda>(k, v). (k, dumps v)) d))) @ ''}''"
| "dumps (PBytes _) = []"
| "dumps (PObj _) = []"

fun json_ok :: "pyval \<Rightarrow> bool" where
  "json_ok (PList vs) = list_all json_ok vs"
| "json_ok (PTuple vs) = list_all json_ok vs"
| "json_ok (PDict d) = list_all (\<lambda>kv. json_ok (snd kv)) d"
| "json_ok (PBytes _) = False"
| "json_ok (PObj _) = False"
| "json_ok _ = True"

text \<open>
  \<open>digest\<close>: the hash of the encoding. \<open>digest_nl\<close>: the variant of the modules that append a
  newline before hashing.
\<close>

definition digest :: "pyval \<Rightarrow> string" where
  "digest v = sha256 (dumps v)"

definition digest_nl :: "pyval \<Rightarrow> string" where
  "digest_nl v = sha256 (dumps v @ [CHR 0x0A])"

lemma hexn_digest [simp, py_simps]: "hexn 64 (digest v)" "hexn 64 (digest_nl v)"
  by (simp_all add: digest_def digest_nl_def)

end
