(* ===== verification/Machine.thy ===== *)
theory Machine
  imports Prelude
begin

text \<open>
  The contract the event-driven components share: a guarded step that accepts an event or
  refuses it, run over a list of events and stopping at the first refusal. The invariants are
  indexed by the events accepted so far, so they can say what a state owes to its history.
\<close>

fun run_steps :: "('e \<Rightarrow> 's \<Rightarrow> 's res) \<Rightarrow> 'e list \<Rightarrow> 's \<Rightarrow> 's res" where
  "run_steps step [] s = Inr s"
| "run_steps step (e # es) s = rbind (step e s) (run_steps step es)"

lemma run_steps_append:
  "run_steps step (ds @ es) s = rbind (run_steps step ds s) (run_steps step es)"
  by (induction ds arbitrary: s) (auto simp: rbind_def split: sum.splits)

lemma run_steps_snoc:
  "run_steps step (es @ [e]) s = Inr u \<longleftrightarrow> (\<exists>t. run_steps step es s = Inr t \<and> step e t = Inr u)"
  by (auto simp: run_steps_append rbind_Inr)

lemma run_steps_prefix:
  assumes "run_steps step (ds @ es) s = Inr u"
  shows "\<exists>t. run_steps step ds s = Inr t \<and> run_steps step es t = Inr u"
  using assms by (auto simp: run_steps_append rbind_Inr)

locale guarded_machine =
  fixes step :: "'e \<Rightarrow> 's \<Rightarrow> 's res"
    and inv :: "'e list \<Rightarrow> 's \<Rightarrow> bool"
  assumes step_inv: "inv es s \<Longrightarrow> step e s = Inr t \<Longrightarrow> inv (es @ [e]) t"
begin

lemma run_inv: "inv ds s \<Longrightarrow> run_steps step es s = Inr t \<Longrightarrow> inv (ds @ es) t"
proof (induction es arbitrary: ds s)
  case Nil
  then show ?case by simp
next
  case (Cons e es)
  then obtain u where "step e s = Inr u" and rest: "run_steps step es u = Inr t"
    by (auto simp: rbind_Inr)
  with Cons.prems(1) have "inv (ds @ [e]) u" by (blast intro: step_inv)
  from Cons.IH [OF this rest] show ?case by simp
qed

lemma run_inv_Nil: "inv [] s \<Longrightarrow> run_steps step es s = Inr t \<Longrightarrow> inv es t"
  using run_inv [of "[]"] by simp

text \<open>The invariant holds at every point of an accepted run.\<close>

lemma run_inv_at:
  assumes "inv [] s" and "run_steps step es s = Inr t" and "i \<le> length es"
  obtains u where "run_steps step (take i es) s = Inr u" and "inv (take i es) u"
    and "run_steps step (drop i es) u = Inr t"
proof -
  have "run_steps step (take i es @ drop i es) s = Inr t" using assms(2) by simp
  then obtain u where u: "run_steps step (take i es) s = Inr u" "run_steps step (drop i es) u = Inr t"
    by (blast dest: run_steps_prefix)
  moreover have "inv (take i es) u" using assms(1) u(1) by (rule run_inv_Nil)
  ultimately show thesis using that by blast
qed

text \<open>An accepted event was accepted by the step, in a state the invariant describes.\<close>

lemma run_step_at:
  assumes "inv [] s" and "run_steps step es s = Inr t" and "i < length es"
  obtains u v where "inv (take i es) u" and "step (es ! i) u = Inr v" and "inv (take (Suc i) es) v"
    and "run_steps step (drop (Suc i) es) v = Inr t"
proof -
  obtain u where u: "inv (take i es) u" "run_steps step (drop i es) u = Inr t"
    using run_inv_at [OF assms(1,2), of i] assms(3) by (metis less_imp_le_nat)
  have "drop i es = es ! i # drop (Suc i) es" using assms(3) by (simp add: Cons_nth_drop_Suc)
  with u(2) obtain v where v: "step (es ! i) u = Inr v" "run_steps step (drop (Suc i) es) v = Inr t"
    by (auto simp: rbind_Inr)
  moreover have "inv (take (Suc i) es) v"
    using step_inv [OF u(1) v(1)] assms(3) by (simp add: take_Suc_conv_app_nth)
  ultimately show thesis using u(1) that by blast
qed

end

text \<open>A machine with states no accepted event leaves.\<close>

locale absorbing_machine = guarded_machine +
  fixes dead :: "'b \<Rightarrow> bool"
  assumes dead_step: "dead s \<Longrightarrow> step e s = Inr t \<Longrightarrow> dead t"
begin

lemma dead_run: "dead s \<Longrightarrow> run_steps step es s = Inr t \<Longrightarrow> dead t"
  by (induction es arbitrary: s) (auto simp: rbind_Inr dest: dead_step)

end

end
