(* ===== verification/ConfigCas.thy ===== *)
theory ConfigCas
  imports Json Machine
begin

text \<open>
  \<^verbatim>\<open>experiments/thick-generations/layout-migration-config-cas-model.py\<close>: the closed-trace
  evaluator of one compare-and-swap of the storage configuration. A request is validated once;
  a trace of events is then inspected from the first to the last, and the evaluator classifies
  what the trace proves. The loop of \<^verbatim>\<open>evaluate\<close> is the run of \<open>cas_step\<close>.
\<close>

section \<open>The request\<close>

definition max_bytes :: nat where "max_bytes = 1024 * 1024"
definition max_events :: nat where "max_events = 16"
definition max_int :: int where "max_int = 2 ^ 63 - 1"

text \<open>
  \<^verbatim>\<open>_builtin\<close>. Values here are trees, so the test for cyclic containers has no counterpart; any
  object of another type is \<open>PObj\<close>.
\<close>

fun builtin :: "nat \<Rightarrow> pyval \<Rightarrow> unit res" where
  "builtin depth v =
     (if depth > 16 then Inl (Refusal ''input nesting exceeds bound'')
      else case v of
        PObj _ \<Rightarrow> Inl (Refusal ''input contains a non-builtin value'')
      | PTuple _ \<Rightarrow> Inl (Refusal ''input contains a non-builtin value'')
      | PStr s \<Rightarrow> checks [need (length s \<le> max_bytes) ''input scalar exceeds bound'']
      | PBytes s \<Rightarrow> checks [need (length s \<le> max_bytes) ''input scalar exceeds bound'']
      | PInt n \<Rightarrow> checks [need (0 \<le> n \<and> n \<le> max_int) ''integer outside model range'']
      | PList vs \<Rightarrow>
          if length vs \<le> 64 then check_each (\<lambda>w. builtin (Suc depth) w) vs
          else Inl (Refusal ''input container exceeds bound'')
      | PDict d \<Rightarrow>
          if length d \<le> 64 then
            check_each (\<lambda>(k, w). if length k \<le> 128 then builtin (Suc depth) w
                                else Inl (Refusal ''namespace key exceeds bound'')) d
          else Inl (Refusal ''input container exceeds bound'')
      | _ \<Rightarrow> Inr ())"

declare builtin.simps [simp del]

lemma builtin_eval:
  "builtin n PNone = (if n > 16 then Inl (Refusal ''input nesting exceeds bound'') else Inr ())"
  "builtin n (PBool b) = (if n > 16 then Inl (Refusal ''input nesting exceeds bound'') else Inr ())"
  "builtin n (PInt i) = (if n > 16 then Inl (Refusal ''input nesting exceeds bound'')
     else checks [need (0 \<le> i \<and> i \<le> max_int) ''integer outside model range''])"
  "builtin n (PStr s) = (if n > 16 then Inl (Refusal ''input nesting exceeds bound'')
     else checks [need (length s \<le> max_bytes) ''input scalar exceeds bound''])"
  "builtin n (PBytes s) = (if n > 16 then Inl (Refusal ''input nesting exceeds bound'')
     else checks [need (length s \<le> max_bytes) ''input scalar exceeds bound''])"
  "builtin n (PList vs) = (if n > 16 then Inl (Refusal ''input nesting exceeds bound'')
     else if length vs \<le> 64 then check_each (\<lambda>w. builtin (Suc n) w) vs
     else Inl (Refusal ''input container exceeds bound''))"
  "builtin n (PDict d) = (if n > 16 then Inl (Refusal ''input nesting exceeds bound'')
     else if length d \<le> 64 then
       check_each (\<lambda>(k, w). if length k \<le> 128 then builtin (Suc n) w
                           else Inl (Refusal ''namespace key exceeds bound'')) d
     else Inl (Refusal ''input container exceeds bound''))"
  by (subst builtin.simps, simp)+

definition cas_exact :: "pyval \<Rightarrow> string list \<Rightarrow> string \<Rightarrow> bool \<times> exc" where
  "cas_exact v fields label = need (exact v fields) (label @ '' fields invalid'')"

definition cas_text :: "pyval \<Rightarrow> (string \<Rightarrow> bool) \<Rightarrow> string \<Rightarrow> bool \<times> exc" where
  "cas_text v re label = need (matches re v) (label @ '' invalid'')"

definition cas_number :: "pyval \<Rightarrow> string \<Rightarrow> bool \<times> exc" where
  "cas_number v label = need (is_int v \<and> 0 \<le> int_of v \<and> int_of v \<le> max_int) (label @ '' invalid'')"

lemma fst_cas_checks [simp, check_simps]:
  "fst (cas_exact v fields label) = exact v fields"
  "fst (cas_text v re label) = matches re v"
  "fst (cas_number v label) = (is_int v \<and> 0 \<le> int_of v \<and> int_of v \<le> max_int)"
  by (simp_all add: cas_exact_def cas_text_def cas_number_def)

definition config_name :: "string \<Rightarrow> bool" where
  "config_name = head_tail alnum name_char (Some 63)"

text \<open>\<^verbatim>\<open>_canonical\<close> and \<^verbatim>\<open>_digest\<close>: byte strings get a tag of their own.\<close>

definition hex_bytes :: "string \<Rightarrow> string" where
  "hex_bytes s = concat (map (\<lambda>c. hex2 (of_char c)) s)"

fun canonical :: "pyval \<Rightarrow> pyval" where
  "canonical (PBytes s) = PDict [(''$bytes'', PStr (hex_bytes s))]"
| "canonical (PDict d) = PDict (map (\<lambda>(k, v). (k, canonical v)) d)"
| "canonical (PList vs) = PList (map canonical vs)"
| "canonical v = v"

definition cas_digest :: "pyval \<Rightarrow> string" where
  "cas_digest v = digest (canonical v)"

definition cas_request_fields :: "string list" where
  "cas_request_fields =
     [''schema'', ''tx'', ''generation'', ''attempt_id'', ''context_sha256'', ''candidate_sha256'',
      ''serializer_sha256'', ''executor'', ''nodes'', ''preinst_sha256'', ''payload_sha256'',
      ''baseline'', ''target'', ''baseline_native_digest'', ''authorization'']"

definition cas_node_check :: "pyval \<Rightarrow> unit res" where
  "cas_node_check node =
     checks
      [cas_exact node [''node'', ''boot_id'', ''role''] ''node'',
       cas_text (fld node ''node'') config_name ''node name'',
       cas_text (fld node ''boot_id'') uuid_re ''boot ID'',
       need (matches (\<lambda>r. r \<in> {''SAN_PARTICIPANT'', ''CONTROL_ONLY''}) (fld node ''role''))
         ''node role invalid'']"

definition cas_names :: "pyval \<Rightarrow> string list" where
  "cas_names req = map (\<lambda>n. str_of (fld n ''node'')) (list_of (fld req ''nodes''))"

definition cas_san :: "pyval \<Rightarrow> string list" where
  "cas_san req =
     map (\<lambda>n. str_of (fld n ''node''))
       (filter (\<lambda>n. fld n ''role'' = PStr ''SAN_PARTICIPANT'') (list_of (fld req ''nodes'')))"

text \<open>\<^verbatim>\<open>boots[name]\<close>\<close>

definition cas_boot :: "pyval \<Rightarrow> string \<Rightarrow> pyval" where
  "cas_boot req name =
     (case filter (\<lambda>n. fld n ''node'' = PStr name) (list_of (fld req ''nodes'')) of
        [] \<Rightarrow> PNone | n # _ \<Rightarrow> fld n ''boot_id'')"

definition cas_identity_checks :: "pyval \<Rightarrow> (bool \<times> exc) list" where
  "cas_identity_checks req =
     [cas_exact req cas_request_fields ''request'',
      need (pyeq (fld req ''schema'') (PStr ''slt-config-cas-model/v1'')) ''request schema invalid'',
      cas_text (fld req ''tx'') (hexn 32) ''tx'',
      cas_text (fld req ''attempt_id'') (hexn 32) ''attempt_id'',
      cas_number (fld req ''generation'') ''generation'',
      need (0 < int_of (fld req ''generation'')) ''generation must be positive'',
      cas_text (fld req ''context_sha256'') (hexn 64) ''context_sha256'',
      cas_text (fld req ''candidate_sha256'') (hexn 64) ''candidate_sha256'',
      cas_text (fld req ''serializer_sha256'') (hexn 64) ''serializer_sha256'',
      need (case fld req ''baseline'' of PBytes b \<Rightarrow> 0 < length b \<and> length b \<le> max_bytes | _ \<Rightarrow> False)
        ''baseline must be nonempty exact bytes'',
      need (case fld req ''target'' of PBytes b \<Rightarrow> 0 < length b \<and> length b \<le> max_bytes | _ \<Rightarrow> False)
        ''target must be nonempty exact bytes'',
      need (\<not> pyeq (fld req ''baseline'') (fld req ''target'')) ''baseline and target are identical'',
      cas_text (fld req ''baseline_native_digest'') (hexn 40) ''native digest'',
      need (is_list (fld req ''nodes'') \<and> length (list_of (fld req ''nodes'')) = 4)
        ''exactly four nodes required'']"

definition cas_topology_checks :: "pyval \<Rightarrow> (bool \<times> exc) list" where
  "cas_topology_checks req =
     (let executor = fld req ''executor''; san = cas_san req; names = cas_names req in
      [need (sorted_wrt (<) names \<and> length san = 3) ''node topology invalid'',
       cas_exact executor [''node'', ''boot_id''] ''executor'',
       need (is_str (fld executor ''node'') \<and> str_of (fld executor ''node'') \<in> set san
             \<and> is_str (fld executor ''boot_id'')
             \<and> pyeq (fld executor ''boot_id'') (cas_boot req (str_of (fld executor ''node''))))
         ''executor identity invalid'',
       cas_exact (fld req ''preinst_sha256'') san ''preinst_sha256'',
       need (\<forall>kv \<in> set (items (fld req ''preinst_sha256'')). matches (hexn 64) (snd kv))
         ''preinst_sha256 invalid'',
       cas_exact (fld req ''payload_sha256'') names ''payload_sha256'',
       need (\<forall>kv \<in> set (items (fld req ''payload_sha256'')). matches (hexn 64) (snd kv))
         ''payload_sha256 invalid''])"

definition cas_authorization_checks :: "pyval \<Rightarrow> (bool \<times> exc) list" where
  "cas_authorization_checks req =
     (let auth = fld req ''authorization'';
          budget = int_of (fld auth ''expires_wall_ns'') - int_of (fld auth ''issued_wall_ns'') in
      [cas_exact auth [''action'', ''issued_wall_ns'', ''expires_wall_ns'', ''start_monotonic_ns'']
         ''authorization'',
       need (pyeq (fld auth ''action'') (PStr ''MODEL_ONE_CAS_ONLY'')) ''authorization action invalid'',
       cas_number (fld auth ''issued_wall_ns'') ''issued_wall_ns'',
       cas_number (fld auth ''expires_wall_ns'') ''expires_wall_ns'',
       cas_number (fld auth ''start_monotonic_ns'') ''start_monotonic_ns'',
       need (0 < budget \<and> budget \<le> 1800 * 10 ^ 9
             \<and> int_of (fld auth ''start_monotonic_ns'') + budget \<le> max_int)
         ''authorization budget invalid''])"

definition validate_request :: "pyval \<Rightarrow> string res" where
  "validate_request req =
     rbind (builtin 0 req) (\<lambda>_.
     rbind (checks (cas_identity_checks req)) (\<lambda>_.
     rbind (check_each cas_node_check (list_of (fld req ''nodes''))) (\<lambda>_.
     rbind (checks (cas_topology_checks req)) (\<lambda>_.
     rbind (checks (cas_authorization_checks req)) (\<lambda>_.
     Inr (cas_digest req))))))"

section \<open>The trace\<close>

datatype cas_phase =
    NEW | INTENT_PENDING | INTENT_DURABLE | CAS_DISPATCHED | SETTLEMENT_PENDING
  | SETTLEMENT_ADMITTED | OBSERVED | TERMINAL

text \<open>The local variables of \<^verbatim>\<open>evaluate\<close>; \<open>cs_index\<close> counts the events taken.\<close>

record cas_state =
  cs_index :: nat
  cs_wall :: int
  cs_mono :: int
  cs_phase :: cas_phase
  cs_dispatches :: nat
  cs_outcome :: pyval
  cs_detail :: pyval
  cs_observed :: "string option"
  cs_observed_raw :: pyval
  cs_intent_durable :: bool
  cs_receipt_durable :: bool
  cs_crashed :: bool
  cs_poison :: "string list"
  cs_observed_phase :: bool

definition event_fields :: "(string \<times> string list) list" where
  "event_fields =
     [(''RESERVE'', []), (''INTENT_ACK'', [''durability'']), (''CAS_DISPATCH'', []),
      (''CAS_RETURN'', [''outcome'', ''detail'']), (''CRASH'', []),
      (''QUIESCENCE'', [''executor_terminated'', ''config_lock_held'', ''barrier_current'']),
      (''OBSERVE'', [''result'', ''raw'']), (''RECEIPT_ACK'', [''durability''])]"

definition envelope :: "string list" where
  "envelope = [''sequence'', ''kind'', ''attempt_id'', ''request_sha256'', ''wall_ns'', ''monotonic_ns'']"

definition kind_of :: "pyval \<Rightarrow> string" where
  "kind_of e = str_of (fld e ''kind'')"

definition expires_wall :: "pyval \<Rightarrow> int" where
  "expires_wall req = int_of (fld (fld req ''authorization'') ''expires_wall_ns'')"

definition cas_deadline :: "pyval \<Rightarrow> int" where
  "cas_deadline req =
     (let auth = fld req ''authorization'' in
      int_of (fld auth ''start_monotonic_ns'') + int_of (fld auth ''expires_wall_ns'')
        - int_of (fld auth ''issued_wall_ns''))"

definition cas_init :: "pyval \<Rightarrow> cas_state" where
  "cas_init req =
     \<lparr>cs_index = 0,
      cs_wall = int_of (fld (fld req ''authorization'') ''issued_wall_ns''),
      cs_mono = int_of (fld (fld req ''authorization'') ''start_monotonic_ns''),
      cs_phase = NEW, cs_dispatches = 0, cs_outcome = PNone, cs_detail = PNone,
      cs_observed = None, cs_observed_raw = PNone, cs_intent_durable = False,
      cs_receipt_durable = False, cs_crashed = False, cs_poison = [], cs_observed_phase = False\<rparr>"

definition add_once :: "string \<Rightarrow> string list \<Rightarrow> string list" where
  "add_once r ps = (if r \<in> set ps then ps else ps @ [r])"

text \<open>The part of the loop body before the case distinction.\<close>

definition cas_envelope_checks :: "pyval \<Rightarrow> string \<Rightarrow> pyval \<Rightarrow> cas_state \<Rightarrow> (bool \<times> exc) list" where
  "cas_envelope_checks req sha e s =
     [need (is_dict e \<and> matches (\<lambda>k. k \<in> fst ` set event_fields) (fld e ''kind'')) ''event kind invalid'',
      cas_exact e (envelope @ the (map_of event_fields (kind_of e))) ''event'',
      cas_number (fld e ''sequence'') ''sequence'',
      need (pyeq (fld e ''sequence'') (PInt (int (Suc (cs_index s))))
            \<and> is_str (fld e ''attempt_id'') \<and> pyeq (fld e ''attempt_id'') (fld req ''attempt_id'')
            \<and> is_str (fld e ''request_sha256'') \<and> pyeq (fld e ''request_sha256'') (PStr sha))
        ''event binding invalid'',
      cas_number (fld e ''wall_ns'') ''wall_ns'',
      cas_number (fld e ''monotonic_ns'') ''monotonic_ns'',
      need (cs_mono s \<le> int_of (fld e ''monotonic_ns'')) ''monotonic clock regressed'',
      need (cs_phase s \<noteq> TERMINAL) ''terminal attempt cannot continue'']"

definition cas_clock :: "pyval \<Rightarrow> pyval \<Rightarrow> cas_state \<Rightarrow> cas_state" where
  "cas_clock req e s =
     (let w = int_of (fld e ''wall_ns''); m = int_of (fld e ''monotonic_ns'');
          p1 = (if w < cs_wall s then add_once ''WALL_CLOCK_ROLLBACK'' (cs_poison s) else cs_poison s);
          p2 = (if expires_wall req < w \<or> cas_deadline req < m then add_once ''EXPIRED'' p1 else p1)
      in s\<lparr>cs_index := Suc (cs_index s), cs_wall := w, cs_mono := m, cs_poison := p2\<rparr>)"

definition durabilities :: "string set" where
  "durabilities = {''DURABLE'', ''FAILED'', ''UNKNOWN''}"

definition on_reserve :: "cas_state \<Rightarrow> cas_state res" where
  "on_reserve s =
     (if cs_phase s = NEW \<and> cs_poison s = [] then Inr (s\<lparr>cs_phase := INTENT_PENDING\<rparr>)
      else Inl (Refusal ''reservation not admissible''))"

definition on_intent_ack :: "pyval \<Rightarrow> cas_state \<Rightarrow> cas_state res" where
  "on_intent_ack e s =
     (if cs_phase s \<noteq> INTENT_PENDING then Inl (Refusal ''intent acknowledgement out of order'')
      else if \<not> matches (\<lambda>d. d \<in> durabilities) (fld e ''durability'')
        then Inl (Refusal ''intent durability invalid'')
      else if fld e ''durability'' = PStr ''DURABLE''
        then Inr (s\<lparr>cs_intent_durable := True, cs_phase := INTENT_DURABLE\<rparr>)
      else Inr (s\<lparr>cs_intent_durable := False, cs_phase := TERMINAL,
                  cs_poison := cs_poison s @ [''INTENT_DURABILITY_UNPROVEN'']\<rparr>))"

definition on_dispatch :: "cas_state \<Rightarrow> cas_state res" where
  "on_dispatch s =
     (if cs_phase s = INTENT_DURABLE \<and> cs_intent_durable s \<and> \<not> cs_crashed s \<and> cs_poison s = []
         \<and> cs_dispatches s = 0
      then Inr (s\<lparr>cs_dispatches := 1, cs_phase := CAS_DISPATCHED\<rparr>)
      else Inl (Refusal ''CAS dispatch not admissible''))"

definition on_return :: "pyval \<Rightarrow> cas_state \<Rightarrow> cas_state res" where
  "on_return e s =
     (if cs_phase s \<noteq> CAS_DISPATCHED then Inl (Refusal ''CAS return out of order'')
      else if \<not> matches (\<lambda>x. x \<in> {''SUCCESS'', ''ERROR'', ''UNKNOWN''}) (fld e ''outcome'')
        then Inl (Refusal ''CAS outcome invalid'')
      else if \<not> matches (\<lambda>x. length x \<le> 4096) (fld e ''detail'') then Inl (Refusal ''CAS detail invalid'')
      else Inr (s\<lparr>cs_outcome := fld e ''outcome'', cs_detail := fld e ''detail'',
                  cs_phase := SETTLEMENT_PENDING\<rparr>))"

definition on_crash :: "cas_state \<Rightarrow> cas_state res" where
  "on_crash s =
     (if cs_phase s \<noteq> NEW \<and> \<not> cs_crashed s
      then if cs_observed_phase s
        then Inr (s\<lparr>cs_crashed := True, cs_phase := TERMINAL,
                    cs_poison := cs_poison s @ [''SETTLEMENT_PUBLICATION_INTERRUPTED'']\<rparr>)
        else Inr (s\<lparr>cs_crashed := True, cs_phase := SETTLEMENT_PENDING\<rparr>)
      else Inl (Refusal ''crash out of order''))"

definition on_quiescence :: "pyval \<Rightarrow> cas_state \<Rightarrow> cas_state res" where
  "on_quiescence e s =
     (if cs_phase s \<noteq> SETTLEMENT_PENDING then Inl (Refusal ''quiescence out of order'')
      else if is_true (fld e ''executor_terminated'') \<and> is_true (fld e ''config_lock_held'')
              \<and> is_true (fld e ''barrier_current'')
        then Inr (s\<lparr>cs_phase := SETTLEMENT_ADMITTED\<rparr>)
      else Inl (Refusal ''settlement requires quiescence, serialization and barrier''))"

definition observed_class :: "pyval \<Rightarrow> pyval \<Rightarrow> string" where
  "observed_class req raw =
     (if pyeq raw (fld req ''target'') then ''TARGET''
      else if pyeq raw (fld req ''baseline'') then ''BASELINE'' else ''FOREIGN'')"

definition on_observe :: "pyval \<Rightarrow> pyval \<Rightarrow> cas_state \<Rightarrow> cas_state res" where
  "on_observe req e s =
     (if cs_phase s \<noteq> SETTLEMENT_ADMITTED then Inl (Refusal ''observation out of order'')
      else if \<not> matches (\<lambda>x. x \<in> {''OK'', ''ERROR''}) (fld e ''result'')
        then Inl (Refusal ''observation result invalid'')
      else if fld e ''result'' = PStr ''ERROR'' \<and> fld e ''raw'' \<noteq> PNone
        then Inl (Refusal ''failed observation must not claim bytes'')
      else if fld e ''result'' \<noteq> PStr ''ERROR'' \<and>
              \<not> (case fld e ''raw'' of PBytes b \<Rightarrow> length b \<le> max_bytes | _ \<Rightarrow> False)
        then Inl (Refusal ''observation bytes invalid'')
      else
        let obs = (if fld e ''result'' = PStr ''ERROR'' then ''UNKNOWN'' else observed_class req (fld e ''raw''));
            raw = (if fld e ''result'' = PStr ''ERROR'' then cs_observed_raw s else fld e ''raw'');
            p = (if cs_outcome s = PStr ''SUCCESS'' \<and> obs \<noteq> ''TARGET''
                 then cs_poison s @ [''SUCCESS_OBSERVATION_CONTRADICTION''] else cs_poison s)
        in Inr (s\<lparr>cs_observed := Some obs, cs_observed_raw := raw, cs_poison := p,
                  cs_observed_phase := True, cs_phase := OBSERVED\<rparr>))"

definition on_receipt :: "pyval \<Rightarrow> cas_state \<Rightarrow> cas_state res" where
  "on_receipt e s =
     (if cs_phase s \<noteq> OBSERVED then Inl (Refusal ''receipt acknowledgement out of order'')
      else if \<not> matches (\<lambda>d. d \<in> durabilities) (fld e ''durability'')
        then Inl (Refusal ''receipt durability invalid'')
      else if fld e ''durability'' = PStr ''DURABLE''
        then Inr (s\<lparr>cs_receipt_durable := True, cs_phase := TERMINAL\<rparr>)
      else Inr (s\<lparr>cs_receipt_durable := False, cs_phase := TERMINAL,
                  cs_poison := cs_poison s @ [''SETTLEMENT_DURABILITY_UNPROVEN'']\<rparr>))"

definition cas_kind_step :: "pyval \<Rightarrow> pyval \<Rightarrow> cas_state \<Rightarrow> cas_state res" where
  "cas_kind_step req e s =
     (if kind_of e = ''RESERVE'' then on_reserve s
      else if kind_of e = ''INTENT_ACK'' then on_intent_ack e s
      else if kind_of e = ''CAS_DISPATCH'' then on_dispatch s
      else if kind_of e = ''CAS_RETURN'' then on_return e s
      else if kind_of e = ''CRASH'' then on_crash s
      else if kind_of e = ''QUIESCENCE'' then on_quiescence e s
      else if kind_of e = ''OBSERVE'' then on_observe req e s
      else if kind_of e = ''RECEIPT_ACK'' then on_receipt e s
      else Inr s)"

definition cas_step :: "pyval \<Rightarrow> string \<Rightarrow> pyval \<Rightarrow> cas_state \<Rightarrow> cas_state res" where
  "cas_step req sha e s =
     rbind (checks (cas_envelope_checks req sha e s)) (\<lambda>_. cas_kind_step req e (cas_clock req e s))"

definition classification :: "cas_state \<Rightarrow> string" where
  "classification s =
     (if cs_receipt_durable s \<and> cs_poison s = [] then
        (case cs_observed s of
           Some o' \<Rightarrow> if o' = ''TARGET'' then ''TARGET_OBSERVED_NONQUALIFIED''
                     else if o' = ''BASELINE'' then ''BASELINE_OBSERVED_NONQUALIFIED''
                     else if o' = ''FOREIGN'' then ''FOREIGN_OBSERVED_RETAIN'' else ''UNKNOWN_RETAIN''
         | None \<Rightarrow> ''UNKNOWN_RETAIN'')
      else if cs_phase s = NEW then ''NEW_NO_EFFECT'' else ''UNKNOWN_RETAIN'')"

text \<open>The report: what the dict of \<^verbatim>\<open>evaluate\<close> says.\<close>

record cas_report =
  rp_request_sha256 :: string
  rp_trace_sha256 :: string
  rp_attempt_id :: pyval
  rp_classification :: string
  rp_final :: cas_state
  rp_authorization :: string
  rp_inspection_only :: bool
  rp_retry_authorized :: bool
  rp_hold_transition_authorized :: bool
  rp_configure_authorized :: bool
  rp_release_authorized :: bool
  rp_mutation_performed :: bool

definition evaluate :: "pyval \<Rightarrow> pyval \<Rightarrow> cas_report res" where
  "evaluate req events =
     rbind (validate_request req) (\<lambda>sha.
     rbind (builtin 0 events) (\<lambda>_.
     rbind (checks [need (is_list events \<and> length (list_of events) \<le> max_events) ''event list invalid'']) (\<lambda>_.
     rbind (run_steps (cas_step req sha) (list_of events) (cas_init req)) (\<lambda>s.
     Inr \<lparr>rp_request_sha256 = sha, rp_trace_sha256 = cas_digest events,
          rp_attempt_id = fld req ''attempt_id'', rp_classification = classification s, rp_final = s,
          rp_authorization = ''NONE'', rp_inspection_only = True, rp_retry_authorized = False,
          rp_hold_transition_authorized = False, rp_configure_authorized = False,
          rp_release_authorized = False, rp_mutation_performed = False\<rparr>))))"

section \<open>What an accepted event does\<close>

definition wall_of :: "pyval \<Rightarrow> int" where "wall_of e = int_of (fld e ''wall_ns'')"
definition mono_of :: "pyval \<Rightarrow> int" where "mono_of e = int_of (fld e ''monotonic_ns'')"

definition durable :: "pyval \<Rightarrow> bool" where
  "durable e \<longleftrightarrow> fld e ''durability'' = PStr ''DURABLE''"

definition quiesced :: "pyval \<Rightarrow> bool" where
  "quiesced e \<longleftrightarrow> kind_of e = ''QUIESCENCE'' \<and> is_true (fld e ''executor_terminated'')
     \<and> is_true (fld e ''config_lock_held'') \<and> is_true (fld e ''barrier_current'')"

text \<open>What an observation says about the bytes on disk.\<close>

definition observation_of :: "pyval \<Rightarrow> pyval \<Rightarrow> string" where
  "observation_of req e =
     (if fld e ''result'' = PStr ''ERROR'' then ''UNKNOWN'' else observed_class req (fld e ''raw''))"

text \<open>Every clock reading of the trace lies in the authorized window and the wall clock never
  goes back.\<close>

definition in_window :: "pyval \<Rightarrow> pyval list \<Rightarrow> bool" where
  "in_window req es \<longleftrightarrow>
     sorted (int_of (fld (fld req ''authorization'') ''issued_wall_ns'') # map wall_of es)
     \<and> (\<forall>e \<in> set es. wall_of e \<le> expires_wall req \<and> mono_of e \<le> cas_deadline req)"

lemma kind_in_fields:
  "fst (cas_envelope_checks req sha e s ! 0) \<Longrightarrow> kind_of e \<in> fst ` set event_fields"
  by (force simp: cas_envelope_checks_def matches_iff kind_of_def)

lemma cas_clock_fields [simp]:
  "cs_index (cas_clock req e s) = Suc (cs_index s)" "cs_wall (cas_clock req e s) = wall_of e"
  "cs_mono (cas_clock req e s) = mono_of e" "cs_phase (cas_clock req e s) = cs_phase s"
  "cs_dispatches (cas_clock req e s) = cs_dispatches s" "cs_outcome (cas_clock req e s) = cs_outcome s"
  "cs_detail (cas_clock req e s) = cs_detail s" "cs_observed (cas_clock req e s) = cs_observed s"
  "cs_observed_raw (cas_clock req e s) = cs_observed_raw s"
  "cs_intent_durable (cas_clock req e s) = cs_intent_durable s"
  "cs_receipt_durable (cas_clock req e s) = cs_receipt_durable s"
  "cs_crashed (cas_clock req e s) = cs_crashed s"
  "cs_observed_phase (cas_clock req e s) = cs_observed_phase s"
  by (simp_all add: cas_clock_def Let_def wall_of_def mono_of_def)

lemma add_once_not_Nil [simp]: "add_once r ps \<noteq> []"
  by (auto simp: add_once_def)

lemma cas_clock_poison:
  "cs_poison (cas_clock req e s) = [] \<longleftrightarrow>
     cs_poison s = [] \<and> cs_wall s \<le> wall_of e \<and> wall_of e \<le> expires_wall req \<and> mono_of e \<le> cas_deadline req"
  by (auto simp: cas_clock_def Let_def wall_of_def mono_of_def not_less)

text \<open>The eight kinds, each with the guard under which its event is accepted.\<close>

lemma cas_step_E:
  assumes "cas_step req sha e s = Inr t"
  obtains
    (reserve) "kind_of e = ''RESERVE''" "cs_phase s = NEW" "cs_poison (cas_clock req e s) = []"
      "t = (cas_clock req e s)\<lparr>cs_phase := INTENT_PENDING\<rparr>"
  | (intent) "kind_of e = ''INTENT_ACK''" "cs_phase s = INTENT_PENDING" "durable e"
      "t = (cas_clock req e s)\<lparr>cs_intent_durable := True, cs_phase := INTENT_DURABLE\<rparr>"
  | (no_intent) "kind_of e = ''INTENT_ACK''" "cs_phase s = INTENT_PENDING" "\<not> durable e"
      "t = (cas_clock req e s)\<lparr>cs_intent_durable := False, cs_phase := TERMINAL,
             cs_poison := cs_poison (cas_clock req e s) @ [''INTENT_DURABILITY_UNPROVEN'']\<rparr>"
  | (dispatch) "kind_of e = ''CAS_DISPATCH''" "cs_phase s = INTENT_DURABLE"
      "cs_poison (cas_clock req e s) = []" "cs_dispatches s = 0" "cs_intent_durable s"
      "t = (cas_clock req e s)\<lparr>cs_dispatches := 1, cs_phase := CAS_DISPATCHED\<rparr>"
  | (returned) "kind_of e = ''CAS_RETURN''" "cs_phase s = CAS_DISPATCHED"
      "t = (cas_clock req e s)\<lparr>cs_outcome := fld e ''outcome'', cs_detail := fld e ''detail'',
             cs_phase := SETTLEMENT_PENDING\<rparr>"
  | (crash) "kind_of e = ''CRASH''" "cs_phase s \<noteq> NEW" "cs_phase s \<noteq> TERMINAL" "\<not> cs_crashed s"
      "\<not> cs_observed_phase s"
      "t = (cas_clock req e s)\<lparr>cs_crashed := True, cs_phase := SETTLEMENT_PENDING\<rparr>"
  | (late_crash) "kind_of e = ''CRASH''" "cs_phase s \<noteq> NEW" "cs_phase s \<noteq> TERMINAL" "\<not> cs_crashed s"
      "cs_observed_phase s"
      "t = (cas_clock req e s)\<lparr>cs_crashed := True, cs_phase := TERMINAL,
             cs_poison := cs_poison (cas_clock req e s) @ [''SETTLEMENT_PUBLICATION_INTERRUPTED'']\<rparr>"
  | (quiescence) "quiesced e" "cs_phase s = SETTLEMENT_PENDING"
      "t = (cas_clock req e s)\<lparr>cs_phase := SETTLEMENT_ADMITTED\<rparr>"
  | (observe) "kind_of e = ''OBSERVE''" "cs_phase s = SETTLEMENT_ADMITTED"
      "cs_phase t = OBSERVED" "cs_observed t = Some (observation_of req e)" "cs_observed_phase t"
      "cs_poison t = (if cs_outcome s = PStr ''SUCCESS'' \<and> observation_of req e \<noteq> ''TARGET''
         then cs_poison (cas_clock req e s) @ [''SUCCESS_OBSERVATION_CONTRADICTION'']
         else cs_poison (cas_clock req e s))"
      "cs_index t = Suc (cs_index s)" "cs_wall t = wall_of e" "cs_dispatches t = cs_dispatches s"
      "cs_outcome t = cs_outcome s" "cs_intent_durable t = cs_intent_durable s"
      "cs_receipt_durable t = cs_receipt_durable s" "cs_crashed t = cs_crashed s"
  | (receipt) "kind_of e = ''RECEIPT_ACK''" "cs_phase s = OBSERVED" "durable e"
      "t = (cas_clock req e s)\<lparr>cs_receipt_durable := True, cs_phase := TERMINAL\<rparr>"
  | (no_receipt) "kind_of e = ''RECEIPT_ACK''" "cs_phase s = OBSERVED" "\<not> durable e"
      "t = (cas_clock req e s)\<lparr>cs_receipt_durable := False, cs_phase := TERMINAL,
             cs_poison := cs_poison (cas_clock req e s) @ [''SETTLEMENT_DURABILITY_UNPROVEN'']\<rparr>"
proof -
  let ?c = "cas_clock req e s"
  from assms have env: "checks (cas_envelope_checks req sha e s) = Inr ()"
    and st: "cas_kind_step req e ?c = Inr t"
    by (auto simp: cas_step_def rbind_Inr)
  from env have kind: "kind_of e \<in> fst ` set event_fields" and live: "cs_phase s \<noteq> TERMINAL"
    by (force simp: cas_envelope_checks_def matches_iff kind_of_def check_simps)+
  from kind consider
      "kind_of e = ''RESERVE''" | "kind_of e = ''INTENT_ACK''" | "kind_of e = ''CAS_DISPATCH''"
    | "kind_of e = ''CAS_RETURN''" | "kind_of e = ''CRASH''" | "kind_of e = ''QUIESCENCE''"
    | "kind_of e = ''OBSERVE''" | "kind_of e = ''RECEIPT_ACK''"
    by (auto simp: event_fields_def)
  then show thesis
  proof cases
    case 1 with st show thesis
      by (intro reserve) (auto simp: cas_kind_step_def on_reserve_def split: if_splits)
  next
    case 2
    with st have "on_intent_ack e ?c = Inr t" by (simp add: cas_kind_step_def)
    then show thesis using 2 intent no_intent
      by (auto simp: on_intent_ack_def durable_def split: if_splits)
  next
    case 3 with st show thesis
      by (intro dispatch) (auto simp: cas_kind_step_def on_dispatch_def split: if_splits)
  next
    case 4 with st show thesis
      by (intro returned) (auto simp: cas_kind_step_def on_return_def split: if_splits)
  next
    case 5
    with st have "on_crash ?c = Inr t" by (simp add: cas_kind_step_def)
    then show thesis using 5 crash late_crash live
      by (auto simp: on_crash_def split: if_splits)
  next
    case 6
    with st have "on_quiescence e ?c = Inr t" by (simp add: cas_kind_step_def)
    then show thesis using 6 quiescence
      by (auto simp: on_quiescence_def quiesced_def split: if_splits)
  next
    case 7
    with st have "on_observe req e ?c = Inr t" by (simp add: cas_kind_step_def)
    then show thesis using 7
      by (intro observe) (auto simp: on_observe_def observation_of_def Let_def split: if_splits)
  next
    case 8
    with st have "on_receipt e ?c = Inr t" by (simp add: cas_kind_step_def)
    then show thesis using 8 receipt no_receipt
      by (auto simp: on_receipt_def durable_def split: if_splits)
  qed
qed

section \<open>The invariant of an accepted trace\<close>

definition first_wall :: "pyval \<Rightarrow> int" where
  "first_wall req = int_of (fld (fld req ''authorization'') ''issued_wall_ns'')"

lemma in_window_snoc:
  "in_window req (es @ [e]) \<longleftrightarrow>
     in_window req es \<and> last (first_wall req # map wall_of es) \<le> wall_of e
     \<and> wall_of e \<le> expires_wall req \<and> mono_of e \<le> cas_deadline req"
  unfolding in_window_def first_wall_def map_append list.map sorted_snoc_iff by auto

text \<open>The phase tells what the trace looks like.\<close>

definition phase_trace :: "pyval \<Rightarrow> pyval list \<Rightarrow> cas_state \<Rightarrow> bool" where
  "phase_trace req es s \<longleftrightarrow>
     (case cs_phase s of
        NEW \<Rightarrow> es = []
      | INTENT_PENDING \<Rightarrow> map kind_of es = [''RESERVE'']
      | INTENT_DURABLE \<Rightarrow> map kind_of es = [''RESERVE'', ''INTENT_ACK''] \<and> durable (es ! 1)
      | CAS_DISPATCHED \<Rightarrow> map kind_of es = [''RESERVE'', ''INTENT_ACK'', ''CAS_DISPATCH'']
      | SETTLEMENT_PENDING \<Rightarrow> es \<noteq> []
      | SETTLEMENT_ADMITTED \<Rightarrow> (\<exists>pre q. es = pre @ [q] \<and> quiesced q)
      | OBSERVED \<Rightarrow> (\<exists>pre q ob. es = pre @ [q, ob] \<and> quiesced q \<and> kind_of ob = ''OBSERVE''
                       \<and> cs_observed s = Some (observation_of req ob))
      | TERMINAL \<Rightarrow> es \<noteq> [] \<and> (cs_receipt_durable s \<longrightarrow>
          (\<exists>pre q ob ack. es = pre @ [q, ob, ack] \<and> quiesced q \<and> kind_of ob = ''OBSERVE''
             \<and> cs_observed s = Some (observation_of req ob) \<and> kind_of ack = ''RECEIPT_ACK''
             \<and> durable ack)))
     \<and> (cs_receipt_durable s \<longrightarrow> cs_phase s = TERMINAL)
     \<and> (cs_observed_phase s \<longrightarrow> cs_phase s = OBSERVED \<or> cs_phase s = TERMINAL)
     \<and> (cs_observed s \<noteq> None \<longrightarrow> cs_observed_phase s)"

text \<open>Dispatches: counted, at most one, and only after a durable intent inside the window.\<close>

definition dispatch_trace :: "pyval \<Rightarrow> pyval list \<Rightarrow> cas_state \<Rightarrow> bool" where
  "dispatch_trace req es s \<longleftrightarrow>
     cs_dispatches s = count_list (map kind_of es) ''CAS_DISPATCH'' \<and> cs_dispatches s \<le> 1
     \<and> (cs_phase s \<in> {NEW, INTENT_PENDING, INTENT_DURABLE} \<longrightarrow> cs_dispatches s = 0)
     \<and> (\<forall>i < length es. kind_of (es ! i) = ''CAS_DISPATCH'' \<longrightarrow>
          i = 2 \<and> map kind_of (take 2 es) = [''RESERVE'', ''INTENT_ACK''] \<and> durable (es ! 1)
          \<and> in_window req (take 3 es))"

definition clock_trace :: "pyval \<Rightarrow> pyval list \<Rightarrow> cas_state \<Rightarrow> bool" where
  "clock_trace req es s \<longleftrightarrow>
     cs_index s = length es \<and> cs_wall s = last (first_wall req # map wall_of es)
     \<and> (cs_poison s = [] \<longrightarrow> in_window req es)"

definition claims_success :: "pyval \<Rightarrow> bool" where
  "claims_success e \<longleftrightarrow> kind_of e = ''CAS_RETURN'' \<and> fld e ''outcome'' = PStr ''SUCCESS''"

definition outcome_trace :: "pyval \<Rightarrow> pyval list \<Rightarrow> cas_state \<Rightarrow> bool" where
  "outcome_trace req es s \<longleftrightarrow>
     ((\<exists>e \<in> set es. claims_success e) \<longleftrightarrow> cs_outcome s = PStr ''SUCCESS'')
     \<and> (cs_outcome s = PStr ''SUCCESS'' \<and> cs_observed s \<noteq> None \<and> cs_observed s \<noteq> Some ''TARGET''
          \<longrightarrow> cs_poison s \<noteq> [])"

definition cas_inv :: "pyval \<Rightarrow> pyval list \<Rightarrow> cas_state \<Rightarrow> bool" where
  "cas_inv req es s \<longleftrightarrow>
     phase_trace req es s \<and> dispatch_trace req es s \<and> clock_trace req es s \<and> outcome_trace req es s"

lemma cas_inv_init: "cas_inv req [] (cas_init req)"
  by (simp add: cas_inv_def phase_trace_def dispatch_trace_def clock_trace_def outcome_trace_def
      cas_init_def first_wall_def in_window_def)

lemma clock_trace_step:
  assumes "clock_trace req es s" "cas_step req sha e s = Inr t"
  shows "clock_trace req (es @ [e]) t"
  using assms(2)
  by (cases rule: cas_step_E)
     (use assms(1) in \<open>auto simp: clock_trace_def in_window_snoc cas_clock_poison split: if_splits\<close>)

lemma phase_trace_step:
  assumes "phase_trace req es s" "cas_step req sha e s = Inr t"
  shows "phase_trace req (es @ [e]) t"
  using assms(2)
  by (cases rule: cas_step_E)
     (use assms(1) in \<open>auto simp: phase_trace_def nth_append split: cas_phase.splits\<close>)

lemma outcome_trace_step:
  assumes "phase_trace req es s" "outcome_trace req es s" "cas_step req sha e s = Inr t"
  shows "outcome_trace req (es @ [e]) t"
  using assms(3)
proof (cases rule: cas_step_E)
  case returned
  have "\<not> claims_success d" if "d \<in> set es" for d
  proof -
    have "kind_of d \<in> set (map kind_of es)" using that by simp
    then show ?thesis using assms(1) returned(2) by (auto simp: phase_trace_def claims_success_def)
  qed
  then show ?thesis using assms(1,2) returned
    by (auto simp: outcome_trace_def phase_trace_def claims_success_def)
qed (use assms(1,2) in \<open>auto simp: outcome_trace_def claims_success_def quiesced_def cas_clock_poison
       phase_trace_def split: if_splits\<close>)

lemma dispatch_count_step:
  assumes "dispatch_trace req es s" and step: "cas_step req sha e s = Inr t"
  shows "cs_dispatches t = count_list (map kind_of (es @ [e])) ''CAS_DISPATCH'' \<and> cs_dispatches t \<le> 1
     \<and> (cs_phase t \<in> {NEW, INTENT_PENDING, INTENT_DURABLE} \<longrightarrow> cs_dispatches t = 0)"
  using step
  by (cases rule: cas_step_E) (use assms(1) in \<open>auto simp: dispatch_trace_def quiesced_def\<close>)

lemma dispatch_third:
  assumes "phase_trace req es s" "clock_trace req es s" and step: "cas_step req sha e s = Inr t"
    and "kind_of e = ''CAS_DISPATCH''"
  shows "map kind_of es = [''RESERVE'', ''INTENT_ACK''] \<and> durable (es ! 1) \<and> in_window req (es @ [e])"
  using step
proof (cases rule: cas_step_E)
  case dispatch
  then have "in_window req (es @ [e])"
    using clock_trace_step [OF assms(2) step] by (simp add: clock_trace_def)
  with dispatch assms(1) show ?thesis by (simp add: phase_trace_def)
qed (use assms(4) in \<open>auto simp: quiesced_def\<close>)

lemma dispatch_trace_step:
  assumes "phase_trace req es s" "clock_trace req es s" "dispatch_trace req es s"
    and step: "cas_step req sha e s = Inr t"
  shows "dispatch_trace req (es @ [e]) t"
  unfolding dispatch_trace_def
proof (intro conjI allI impI)
  fix i
  assume i: "i < length (es @ [e])" and k: "kind_of ((es @ [e]) ! i) = ''CAS_DISPATCH''"
  have "i = 2 \<and> map kind_of (take 2 (es @ [e])) = [''RESERVE'', ''INTENT_ACK'']
      \<and> durable ((es @ [e]) ! 1) \<and> in_window req (take 3 (es @ [e]))"
  proof (cases "i < length es")
    case True
    then have "kind_of (es ! i) = ''CAS_DISPATCH''" using k by (simp add: nth_append)
    with True assms(3) show ?thesis by (auto simp: dispatch_trace_def nth_append)
  next
    case False
    with i have last: "i = length es" by simp
    then have "kind_of e = ''CAS_DISPATCH''" using k by simp
    from dispatch_third [OF assms(1,2) step this]
    have es: "map kind_of es = [''RESERVE'', ''INTENT_ACK'']" "durable (es ! 1)" "in_window req (es @ [e])"
      by auto
    moreover have "length es = 2" using arg_cong [OF es(1), of length] by simp
    ultimately show ?thesis using last by (simp add: nth_append)
  qed
  then show "i = 2" "map kind_of (take 2 (es @ [e])) = [''RESERVE'', ''INTENT_ACK'']"
    "durable ((es @ [e]) ! 1)" "in_window req (take 3 (es @ [e]))"
    by auto
qed (use dispatch_count_step [OF assms(3) step] in auto)

interpretation cas: guarded_machine "cas_step req sha" "cas_inv req" for req sha
  by unfold_locales
     (auto simp: cas_inv_def intro: phase_trace_step clock_trace_step outcome_trace_step dispatch_trace_step)

lemma evaluateE:
  assumes "evaluate req evs = Inr rp"
  obtains sha where "validate_request req = Inr sha" "builtin 0 evs = Inr ()" "is_list evs"
    "run_steps (cas_step req sha) (list_of evs) (cas_init req) = Inr (rp_final rp)"
    "rp_classification rp = classification (rp_final rp)" "cas_inv req (list_of evs) (rp_final rp)"
proof -
  from assms obtain sha where sha: "validate_request req = Inr sha" "builtin 0 evs = Inr ()" "is_list evs"
    "run_steps (cas_step req sha) (list_of evs) (cas_init req) = Inr (rp_final rp)"
    "rp_classification rp = classification (rp_final rp)"
    by (auto simp: evaluate_def rbind_Inr check_simps)
  from cas.run_inv_Nil [OF cas_inv_init sha(4)] show thesis by (rule that [OF sha])
qed

lemma target_is_bytes: "validate_request req = Inr sha \<Longrightarrow> is_bytes (fld req ''target'')"
  by (auto simp: validate_request_def rbind_Inr check_simps cas_identity_checks_def is_bytes_iff
      split: pyval.splits)

section \<open>A concrete attempt\<close>

text \<open>One request and its complete, successful trace, to evaluate the definitions on.\<close>

definition demo_sha :: pyval where "demo_sha = PStr (replicate 64 CHR ''a'')"
definition demo_hex32 :: pyval where "demo_hex32 = PStr (replicate 32 CHR ''b'')"
definition demo_boot :: pyval where "demo_boot = PStr ''12345678-1234-4234-8234-123456789abc''"

definition demo_node :: "string \<Rightarrow> string \<Rightarrow> pyval" where
  "demo_node n r = PDict [(''node'', PStr n), (''boot_id'', demo_boot), (''role'', PStr r)]"

definition demo_request :: pyval where
  "demo_request = PDict
     [(''schema'', PStr ''slt-config-cas-model/v1''), (''tx'', demo_hex32), (''generation'', PInt 1),
      (''attempt_id'', demo_hex32), (''context_sha256'', demo_sha), (''candidate_sha256'', demo_sha),
      (''serializer_sha256'', demo_sha),
      (''executor'', PDict [(''node'', PStr ''n1''), (''boot_id'', demo_boot)]),
      (''nodes'', PList [demo_node ''n1'' ''SAN_PARTICIPANT'', demo_node ''n2'' ''SAN_PARTICIPANT'',
                        demo_node ''n3'' ''SAN_PARTICIPANT'', demo_node ''n4'' ''CONTROL_ONLY'']),
      (''preinst_sha256'', PDict [(''n1'', demo_sha), (''n2'', demo_sha), (''n3'', demo_sha)]),
      (''payload_sha256'', PDict [(''n1'', demo_sha), (''n2'', demo_sha), (''n3'', demo_sha), (''n4'', demo_sha)]),
      (''baseline'', PBytes ''old''), (''target'', PBytes ''new''),
      (''baseline_native_digest'', PStr (replicate 40 CHR ''c'')),
      (''authorization'', PDict [(''action'', PStr ''MODEL_ONE_CAS_ONLY''), (''issued_wall_ns'', PInt 100),
         (''expires_wall_ns'', PInt 200), (''start_monotonic_ns'', PInt 10)])]"

definition demo_event :: "int \<Rightarrow> string \<Rightarrow> (string \<times> pyval) list \<Rightarrow> pyval" where
  "demo_event n k extra = PDict
     ([(''sequence'', PInt n), (''kind'', PStr k), (''attempt_id'', demo_hex32),
       (''request_sha256'', PStr (cas_digest demo_request)), (''wall_ns'', PInt (100 + n)),
       (''monotonic_ns'', PInt (10 + n))] @ extra)"

definition demo_events :: "pyval list" where
  "demo_events =
     [demo_event 1 ''RESERVE'' [], demo_event 2 ''INTENT_ACK'' [(''durability'', PStr ''DURABLE'')],
      demo_event 3 ''CAS_DISPATCH'' [],
      demo_event 4 ''CAS_RETURN'' [(''outcome'', PStr ''SUCCESS''), (''detail'', PStr ''done'')],
      demo_event 5 ''QUIESCENCE'' [(''executor_terminated'', PBool True), (''config_lock_held'', PBool True),
                                  (''barrier_current'', PBool True)],
      demo_event 6 ''OBSERVE'' [(''result'', PStr ''OK''), (''raw'', PBytes ''new'')],
      demo_event 7 ''RECEIPT_ACK'' [(''durability'', PStr ''DURABLE'')]]"

lemma demo_request_valid: "validate_request demo_request = Inr (cas_digest demo_request)"
proof -
  have "builtin 0 demo_request = Inr ()"
    by (simp add: demo_request_def demo_node_def demo_sha_def demo_hex32_def demo_boot_def builtin_eval
        max_bytes_def max_int_def check_simps)
  moreover have "checks (cas_identity_checks demo_request) = Inr ()"
    by (simp add: checks_ok demo_request_def cas_identity_checks_def cas_request_fields_def
        demo_sha_def demo_hex32_def max_bytes_def max_int_def lower_hex_def insert_commute)
  moreover have "check_each cas_node_check (list_of (fld demo_request ''nodes'')) = Inr ()"
    by (simp add: demo_request_def demo_node_def demo_boot_def cas_node_check_def check_simps
        config_name_def regex_eval insert_commute)
  moreover have "checks (cas_topology_checks demo_request) = Inr ()"
    by (simp add: checks_ok demo_request_def demo_node_def demo_boot_def demo_sha_def cas_topology_checks_def
        cas_san_def cas_names_def cas_boot_def lower_hex_def insert_commute)
  moreover have "checks (cas_authorization_checks demo_request) = Inr ()"
    by (simp add: checks_ok demo_request_def cas_authorization_checks_def max_int_def insert_commute)
  ultimately show ?thesis by (simp add: validate_request_def)
qed

lemma demo_request_flds:
  "fld demo_request ''attempt_id'' = demo_hex32" "is_str demo_hex32"
  "fld demo_request ''target'' = PBytes ''new''"
  "fld (fld demo_request ''authorization'') ''issued_wall_ns'' = PInt 100"
  "fld (fld demo_request ''authorization'') ''expires_wall_ns'' = PInt 200"
  "fld (fld demo_request ''authorization'') ''start_monotonic_ns'' = PInt 10"
  by (simp_all add: demo_request_def demo_hex32_def)

lemma demo_run:
  "\<exists>rp. evaluate demo_request (PList demo_events) = Inr rp
     \<and> rp_classification rp = ''TARGET_OBSERVED_NONQUALIFIED''"
proof -
  have b: "length (cas_digest demo_request) \<le> max_bytes"
    using hexn_length [OF hexn_digest(1), of "canonical demo_request"] by (simp add: cas_digest_def max_bytes_def)
  have "builtin 0 (PList demo_events) = Inr ()"
    using b by (simp add: demo_events_def demo_event_def demo_hex32_def builtin_eval max_bytes_def max_int_def check_simps)
  moreover have "length demo_events \<le> max_events" by (simp add: demo_events_def max_events_def)
  moreover have "\<exists>s. run_steps (cas_step demo_request (cas_digest demo_request)) demo_events
      (cas_init demo_request) = Inr s \<and> classification s = ''TARGET_OBSERVED_NONQUALIFIED''"
    by (simp add: demo_events_def demo_event_def cas_step_def cas_envelope_checks_def envelope_def
        event_fields_def checks_need checks.simps cas_exact_def cas_number_def kind_of_def cas_kind_step_def
        demo_request_flds cas_init_def cas_clock_def Let_def max_int_def expires_wall_def cas_deadline_def
        on_reserve_def on_intent_ack_def on_dispatch_def on_return_def on_quiescence_def on_observe_def
        on_receipt_def durabilities_def observed_class_def max_bytes_def classification_def)
  ultimately show ?thesis by (auto simp: evaluate_def demo_request_valid checks_need checks.simps)
qed

section \<open>Properties of the evaluator\<close>

text \<open>
  C4: At most one compare-and-swap. In every history the evaluator accepts, the reported number
  of dispatches is the number of CAS_DISPATCH events and is at most one; a dispatch is always the
  third event, directly after RESERVE and an INTENT_ACK that reports a durable intent, with every
  clock reading up to it inside the authorized window.
\<close>

theorem cas_single_dispatch:
  assumes "evaluate req evs = Inr rp"
  shows "cs_dispatches (rp_final rp) = count_list (map kind_of (list_of evs)) ''CAS_DISPATCH''
     \<and> cs_dispatches (rp_final rp) \<le> 1
     \<and> (\<forall>i < length (list_of evs). kind_of (list_of evs ! i) = ''CAS_DISPATCH'' \<longrightarrow>
          i = 2 \<and> map kind_of (take 2 (list_of evs)) = [''RESERVE'', ''INTENT_ACK'']
          \<and> durable (list_of evs ! 1) \<and> in_window req (take 3 (list_of evs)))"
  using assms by (rule evaluateE) (unfold cas_inv_def dispatch_trace_def, blast)

theorem cas_single_dispatch_witness:
  "\<exists>rp. evaluate demo_request (PList demo_events) = Inr rp \<and> cs_dispatches (rp_final rp) \<le> 1"
  using demo_run cas_single_dispatch by blast

lemma target_of_classification:
  assumes "classification s = ''TARGET_OBSERVED_NONQUALIFIED''"
  shows "cs_receipt_durable s" "cs_poison s = []" "cs_observed s = Some ''TARGET''"
  using assms by (auto simp: classification_def split: if_splits option.splits)

lemma observation_target:
  "observation_of req ob = ''TARGET'' \<longleftrightarrow>
     fld ob ''result'' \<noteq> PStr ''ERROR'' \<and> pyeq (fld ob ''raw'') (fld req ''target'')"
  by (simp add: observation_of_def observed_class_def)

text \<open>
  C3: Soundness of the strongest classification. TARGET_OBSERVED_NONQUALIFIED is reported only
  for a history that ends with a quiescence claim (executor terminated, configuration lock held,
  barrier current), a successful read of exactly the target bytes and a durable settlement
  receipt, with every clock reading inside the authorized window and the wall clock monotone.
\<close>

theorem cas_target_sound:
  assumes "evaluate req evs = Inr rp"
    and "rp_classification rp = ''TARGET_OBSERVED_NONQUALIFIED''"
  shows "in_window req (list_of evs) \<and>
    (\<exists>pre q ob ack. list_of evs = pre @ [q, ob, ack] \<and> quiesced q
       \<and> kind_of ob = ''OBSERVE'' \<and> fld ob ''result'' \<noteq> PStr ''ERROR''
       \<and> fld ob ''raw'' = fld req ''target''
       \<and> kind_of ack = ''RECEIPT_ACK'' \<and> durable ack)"
proof -
  let ?s = "rp_final rp"
  from assms(1) obtain sha where sha: "validate_request req = Inr sha"
    and cls: "rp_classification rp = classification ?s" and inv: "cas_inv req (list_of evs) ?s"
    by (rule evaluateE)
  from target_of_classification [of ?s] assms(2) cls
  have s: "cs_receipt_durable ?s" "cs_poison ?s = []" "cs_observed ?s = Some ''TARGET''" by simp_all
  from target_is_bytes [OF sha] obtain b where b: "fld req ''target'' = PBytes b"
    by (auto simp: is_bytes_iff)
  from inv s have "in_window req (list_of evs)" by (simp add: cas_inv_def clock_trace_def)
  moreover from inv s obtain pre q ob ack where "list_of evs = pre @ [q, ob, ack]" "quiesced q"
      "kind_of ob = ''OBSERVE''" "observation_of req ob = ''TARGET''" "kind_of ack = ''RECEIPT_ACK''" "durable ack"
    by (auto simp: cas_inv_def phase_trace_def split: cas_phase.splits)
  ultimately show ?thesis using b by (auto simp: observation_target)
qed

theorem cas_target_sound_witness: "in_window demo_request demo_events"
proof -
  from demo_run obtain rp where "evaluate demo_request (PList demo_events) = Inr rp"
    "rp_classification rp = ''TARGET_OBSERVED_NONQUALIFIED''" by blast
  from cas_target_sound [OF this] show ?thesis by simp
qed

text \<open>
  A claimed success is never trusted against the bytes. When the history holds a CAS_RETURN
  that claims SUCCESS, the evaluator never classifies the storage configuration as the baseline
  or as foreign: it reports the target (when the target was read back) or UNKNOWN_RETAIN.
\<close>

theorem cas_success_needs_target:
  assumes "evaluate req evs = Inr rp" and "e \<in> set (list_of evs)" and "kind_of e = ''CAS_RETURN''"
    and "fld e ''outcome'' = PStr ''SUCCESS''"
  shows "rp_classification rp \<in> {''TARGET_OBSERVED_NONQUALIFIED'', ''UNKNOWN_RETAIN''}"
proof -
  let ?s = "rp_final rp"
  from assms(1) obtain sha where cls: "rp_classification rp = classification ?s"
    and inv: "cas_inv req (list_of evs) ?s" by (rule evaluateE)
  have "cs_outcome ?s = PStr ''SUCCESS''"
    using inv assms(2-4) by (auto simp: cas_inv_def outcome_trace_def claims_success_def)
  moreover from assms(2) have "cs_phase ?s \<noteq> NEW"
    using inv by (auto simp: cas_inv_def phase_trace_def)
  ultimately show ?thesis using inv cls
    by (auto simp: cas_inv_def outcome_trace_def classification_def split: option.splits)
qed

theorem cas_success_needs_target_witness:
  "\<exists>rp. evaluate demo_request (PList demo_events) = Inr rp
     \<and> rp_classification rp \<in> {''TARGET_OBSERVED_NONQUALIFIED'', ''UNKNOWN_RETAIN''}"
proof -
  from demo_run obtain rp where "evaluate demo_request (PList demo_events) = Inr rp" by blast
  with cas_success_needs_target [OF this, of "demo_events ! 3"] show ?thesis
    by (simp add: demo_events_def demo_event_def kind_of_def)
qed

text \<open>
  An incomplete prefix of an accepted history is itself accepted, and never gets a verdict:
  a history that does not end in a settlement receipt is NEW_NO_EFFECT when it is empty and
  UNKNOWN_RETAIN otherwise, and no report ever authorizes a retry, a configuration, a release or
  claims a mutation.
\<close>

theorem cas_prefix_undecided:
  assumes "evaluate req (PList (pre @ rest)) = Inr rp" and "builtin 0 (PList pre) = Inr ()"
  shows "\<exists>rp'. evaluate req (PList pre) = Inr rp'
     \<and> (pre = [] \<longrightarrow> rp_classification rp' = ''NEW_NO_EFFECT'')
     \<and> (pre \<noteq> [] \<and> kind_of (last pre) \<noteq> ''RECEIPT_ACK'' \<longrightarrow> rp_classification rp' = ''UNKNOWN_RETAIN'')
     \<and> \<not> rp_retry_authorized rp' \<and> \<not> rp_configure_authorized rp' \<and> \<not> rp_release_authorized rp'
     \<and> \<not> rp_mutation_performed rp'"
proof -
  from assms(1) obtain sha u where sha: "validate_request req = Inr sha"
    and len: "length (pre @ rest) \<le> max_events"
    and run: "run_steps (cas_step req sha) (pre @ rest) (cas_init req) = Inr u"
    by (auto simp: evaluate_def rbind_Inr check_simps)
  from run_steps_prefix [OF run] obtain t where
    t: "run_steps (cas_step req sha) pre (cas_init req) = Inr t" by blast
  have inv: "cas_inv req pre t" using cas.run_inv_Nil [OF cas_inv_init t] .
  have "pre = [] \<longrightarrow> classification t = ''NEW_NO_EFFECT''"
    using t by (auto simp: cas_init_def classification_def)
  moreover have "classification t = ''UNKNOWN_RETAIN''"
    if "pre \<noteq> []" "kind_of (last pre) \<noteq> ''RECEIPT_ACK''"
    using inv that by (auto simp: cas_inv_def phase_trace_def classification_def)
  ultimately show ?thesis
    using sha len assms(2) t by (simp add: evaluate_def checks_need checks.simps)
qed

theorem cas_prefix_undecided_witness:
  "\<exists>rp. evaluate demo_request (PList []) = Inr rp \<and> rp_classification rp = ''NEW_NO_EFFECT''"
proof -
  from demo_run obtain rp where "evaluate demo_request (PList ([] @ demo_events)) = Inr rp" by auto
  from cas_prefix_undecided [OF this] show ?thesis by (auto simp: builtin_eval check_simps)
qed

end
