(* ===== verification/PyEffect.thy ===== *)
theory PyEffect
  imports PyValue
begin

text \<open>
  Code that talks to a dependency it was handed: a backend, a journal, a transport. The model of
  the dependency is an arbitrary function from the calls made so far (with their results) and the
  next call to its result or exception, so a statement for all backends covers every behaviour
  the dependency can show. A program passes the object's own state and the history of its calls;
  both survive an exception, as they do in Python.
\<close>

section \<open>Programs\<close>

type_synonym pyres = "pyval res"

type_synonym 'q hist = "('q \<times> pyres) list"

type_synonym 'q backend = "'q hist \<Rightarrow> 'q \<Rightarrow> pyres"

type_synonym ('s, 'q, 'a) prog = "'s \<times> 'q hist \<Rightarrow> 'a res \<times> 's \<times> 'q hist"

definition ret :: "'a \<Rightarrow> ('s, 'q, 'a) prog" where
  "ret a \<sigma> = (Inr a, \<sigma>)"

definition raise :: "exc \<Rightarrow> ('s, 'q, 'a) prog" where
  "raise e \<sigma> = (Inl e, \<sigma>)"

definition bnd :: "('s, 'q, 'a) prog \<Rightarrow> ('a \<Rightarrow> ('s, 'q, 'b) prog) \<Rightarrow> ('s, 'q, 'b) prog" where
  "bnd m f \<sigma> = (case m \<sigma> of (Inl e, \<tau>) \<Rightarrow> (Inl e, \<tau>) | (Inr a, \<tau>) \<Rightarrow> f a \<tau>)"

definition andthen :: "('s, 'q, 'a) prog \<Rightarrow> ('s, 'q, 'b) prog \<Rightarrow> ('s, 'q, 'b) prog" where
  "andthen m n = bnd m (\<lambda>_. n)"

text \<open>Statements in sequence, then a last one.\<close>

fun block :: "('s, 'q, unit) prog list \<Rightarrow> ('s, 'q, 'a) prog \<Rightarrow> ('s, 'q, 'a) prog" where
  "block [] m = m"
| "block (c # cs) m = andthen c (block cs m)"

definition call :: "'q backend \<Rightarrow> 'q \<Rightarrow> ('s, 'q, pyval) prog" where
  "call \<beta> q \<sigma> = (case \<sigma> of (s, h) \<Rightarrow> (\<beta> h q, s, h @ [(q, \<beta> h q)]))"

definition reads :: "('s \<Rightarrow> 'a) \<Rightarrow> ('s, 'q, 'a) prog" where
  "reads f \<sigma> = (Inr (f (fst \<sigma>)), \<sigma>)"

definition writes :: "('s \<Rightarrow> 's) \<Rightarrow> ('s, 'q, unit) prog" where
  "writes f \<sigma> = (Inr (), f (fst \<sigma>), snd \<sigma>)"

definition demand :: "bool \<Rightarrow> string \<Rightarrow> ('s, 'q, unit) prog" where
  "demand b msg = (if b then ret () else raise (Refusal msg))"

definition lift :: "'a res \<Rightarrow> ('s, 'q, 'a) prog" where
  "lift r = (case r of Inl e \<Rightarrow> raise e | Inr a \<Rightarrow> ret a)"

fun foreach :: "('x \<Rightarrow> ('s, 'q, unit) prog) \<Rightarrow> 'x list \<Rightarrow> ('s, 'q, unit) prog" where
  "foreach f [] = ret ()"
| "foreach f (x # xs) = andthen (f x) (foreach f xs)"

text \<open>\<^verbatim>\<open>[f(x) for x in xs]\<close>\<close>

fun collect :: "('x \<Rightarrow> ('s, 'q, 'a) prog) \<Rightarrow> 'x list \<Rightarrow> ('s, 'q, 'a list) prog" where
  "collect f [] = ret []"
| "collect f (x # xs) = bnd (f x) (\<lambda>a. bnd (collect f xs) (\<lambda>as. ret (a # as)))"

text \<open>\<^verbatim>\<open>try: m; except: handler; raise\<close>\<close>

definition on_error :: "('s, 'q, 'a) prog \<Rightarrow> (exc \<Rightarrow> ('s, 'q, unit) prog) \<Rightarrow> ('s, 'q, 'a) prog" where
  "on_error m k \<sigma> =
     (case m \<sigma> of (Inr a, \<tau>) \<Rightarrow> (Inr a, \<tau>)
      | (Inl e, \<tau>) \<Rightarrow> (case k e \<tau> of (Inl e', \<upsilon>) \<Rightarrow> (Inl e', \<upsilon>) | (Inr _, \<upsilon>) \<Rightarrow> (Inl e, \<upsilon>)))"

text \<open>\<^verbatim>\<open>try: m; except Exception: handler; raise\<close>\<close>

definition on_exception :: "('s, 'q, 'a) prog \<Rightarrow> ('s, 'q, unit) prog \<Rightarrow> ('s, 'q, 'a) prog" where
  "on_exception m k = on_error m (\<lambda>e. if is_exception e then k else ret ())"

text \<open>\<^verbatim>\<open>try: m; finally: f\<close> for a state update that cannot fail\<close>

definition at_end :: "('s, 'q, 'a) prog \<Rightarrow> ('s \<Rightarrow> 's) \<Rightarrow> ('s, 'q, 'a) prog" where
  "at_end m f \<sigma> = (case m \<sigma> of (r, s, h) \<Rightarrow> (r, f s, h))"

text \<open>\<^verbatim>\<open>try: m; except: k\<close> where the handler supplies a value\<close>

definition catch :: "('s, 'q, 'a) prog \<Rightarrow> (exc \<Rightarrow> ('s, 'q, 'a) prog) \<Rightarrow> ('s, 'q, 'a) prog" where
  "catch m k \<sigma> = (case m \<sigma> of (Inr a, \<tau>) \<Rightarrow> (Inr a, \<tau>) | (Inl e, \<tau>) \<Rightarrow> k e \<tau>)"

lemma on_exception_writes:
  "on_exception m (writes f) \<sigma> =
     (case m \<sigma> of (Inr a, \<tau>) \<Rightarrow> (Inr a, \<tau>) | (Inl e, s, h) \<Rightarrow> (Inl e, if is_exception e then f s else s, h))"
  by (auto simp: on_exception_def on_error_def writes_def ret_def split: sum.splits prod.splits)

section \<open>Weakest preconditions\<close>

text \<open>
  \<open>wp m Q E \<sigma>\<close>: from \<open>\<sigma>\<close>, the program ends with a value and a state in \<open>Q\<close>, or with an
  exception and a state in \<open>E\<close>. Every program is total, so there is no third case.
\<close>

named_theorems wp_simps \<open>weakest preconditions of the statements\<close>

definition wp :: "('s, 'q, 'a) prog \<Rightarrow> ('a \<Rightarrow> 's \<times> 'q hist \<Rightarrow> bool) \<Rightarrow> (exc \<Rightarrow> 's \<times> 'q hist \<Rightarrow> bool)
    \<Rightarrow> 's \<times> 'q hist \<Rightarrow> bool" where
  "wp m Q E \<sigma> = (case m \<sigma> of (Inl e, \<tau>) \<Rightarrow> E e \<tau> | (Inr a, \<tau>) \<Rightarrow> Q a \<tau>)"

lemma wp_ret [wp_simps]: "wp (ret a) Q E = Q a"
  by (simp add: wp_def ret_def fun_eq_iff)

lemma wp_raise [wp_simps]: "wp (raise e) Q E = E e"
  by (simp add: wp_def raise_def fun_eq_iff)

lemma wp_bnd [wp_simps]: "wp (bnd m f) Q E = wp m (\<lambda>a. wp (f a) Q E) E"
  by (simp add: wp_def bnd_def fun_eq_iff split: prod.splits sum.splits)

lemma wp_andthen [wp_simps]: "wp (andthen m n) Q E = wp m (\<lambda>_. wp n Q E) E"
  by (simp add: andthen_def wp_simps)

lemma wp_call [wp_simps]:
  "wp (call \<beta> q) Q E =
     (\<lambda>(s, h). case \<beta> h q of Inl e \<Rightarrow> E e (s, h @ [(q, Inl e)]) | Inr v \<Rightarrow> Q v (s, h @ [(q, Inr v)]))"
  by (simp add: wp_def call_def fun_eq_iff split: sum.splits)

lemma wp_reads [wp_simps]: "wp (reads f) Q E = (\<lambda>(s, h). Q (f s) (s, h))"
  by (simp add: wp_def reads_def fun_eq_iff)

lemma wp_writes [wp_simps]: "wp (writes f) Q E = (\<lambda>(s, h). Q () (f s, h))"
  by (simp add: wp_def writes_def fun_eq_iff)

lemma wp_demand [wp_simps]: "wp (demand b msg) Q E = (if b then Q () else E (Refusal msg))"
  by (simp add: demand_def wp_simps)

lemma wp_lift [wp_simps]: "wp (lift r) Q E = (case r of Inl e \<Rightarrow> E e | Inr a \<Rightarrow> Q a)"
  by (simp add: lift_def wp_simps split: sum.splits)

lemma wp_on_error [wp_simps]:
  "wp (on_error m k) Q E = wp m Q (\<lambda>e. wp (k e) (\<lambda>_. E e) E)"
  by (simp add: wp_def on_error_def fun_eq_iff split: prod.splits sum.splits)

lemma wp_on_exception [wp_simps]:
  "wp (on_exception m k) Q E = wp m Q (\<lambda>e \<sigma>. if is_exception e then wp k (\<lambda>_. E e) E \<sigma> else E e \<sigma>)"
proof -
  have "(\<lambda>e. wp (if is_exception e then k else ret ()) (\<lambda>_. E e) E)
      = (\<lambda>e \<sigma>. if is_exception e then wp k (\<lambda>_. E e) E \<sigma> else E e \<sigma>)"
    by (simp add: fun_eq_iff wp_ret)
  then show ?thesis by (simp only: on_exception_def wp_on_error)
qed

lemma wp_at_end [wp_simps]:
  "wp (at_end m f) Q E = wp m (\<lambda>a (s, h). Q a (f s, h)) (\<lambda>e (s, h). E e (f s, h))"
  by (simp add: wp_def at_end_def fun_eq_iff split: prod.splits sum.splits)

lemma wp_catch [wp_simps]: "wp (catch m k) Q E = wp m Q (\<lambda>e. wp (k e) Q E)"
  by (simp add: wp_def catch_def fun_eq_iff split: prod.splits sum.splits)

lemma wp_if: "wp (if b then m else n) Q E \<sigma> = (if b then wp m Q E \<sigma> else wp n Q E \<sigma>)"
  by simp

lemma wp_mono:
  assumes "wp m Q E \<sigma>" "\<And>a \<tau>. Q a \<tau> \<Longrightarrow> Q' a \<tau>" "\<And>e \<tau>. E e \<tau> \<Longrightarrow> E' e \<tau>"
  shows "wp m Q' E' \<sigma>"
  using assms by (auto simp: wp_def split: prod.splits sum.splits)

lemma wp_true: "wp m (\<lambda>_ _. True) (\<lambda>_ _. True) \<sigma>"
  by (simp add: wp_def split: prod.splits sum.splits)

lemma wp_conj: "wp m Q E \<sigma> \<Longrightarrow> wp m Q' E' \<sigma> \<Longrightarrow> wp m (\<lambda>a \<tau>. Q a \<tau> \<and> Q' a \<tau>) (\<lambda>e \<tau>. E e \<tau> \<and> E' e \<tau>) \<sigma>"
  by (auto simp: wp_def split: prod.splits sum.splits)

lemma wp_value: "wp m Q E \<sigma> \<Longrightarrow> m \<sigma> = (Inr a, \<tau>) \<Longrightarrow> Q a \<tau>"
  by (simp add: wp_def)

lemma wp_valueI: "(\<And>a s h. m \<sigma> = (Inr a, s, h) \<Longrightarrow> Q a (s, h)) \<Longrightarrow> wp m Q (\<lambda>_ _. True) \<sigma>"
  by (auto simp: wp_def split: prod.splits sum.splits)

lemma wp_exc: "wp m Q E \<sigma> \<Longrightarrow> m \<sigma> = (Inl e, \<tau>) \<Longrightarrow> E e \<tau>"
  by (simp add: wp_def)

lemma wp_both: "wp m (\<lambda>_. I) (\<lambda>_. I) \<sigma> = I (snd (m \<sigma>))"
  by (simp add: wp_def split: prod.splits sum.splits)

text \<open>Loops: an invariant indexed by the elements already visited.\<close>

lemma wp_foreach:
  assumes "I [] \<sigma>"
    and "\<And>ys x zs \<tau>. xs = ys @ x # zs \<Longrightarrow> I ys \<tau> \<Longrightarrow> wp (f x) (\<lambda>_. I (ys @ [x])) E \<tau>"
  shows "wp (foreach f xs) (\<lambda>_. I xs) E \<sigma>"
  using assms
proof (induction xs arbitrary: I \<sigma>)
  case Nil
  then show ?case by (simp add: wp_simps)
next
  case (Cons x xs)
  have "wp (f x) (\<lambda>_. I ([] @ [x])) E \<sigma>" using Cons.prems by blast
  then have "wp (f x) (\<lambda>_. wp (foreach f xs) (\<lambda>_. I (x # xs)) E) E \<sigma>"
  proof (rule wp_mono)
    fix \<tau>
    assume "I ([] @ [x]) \<tau>"
    then show "wp (foreach f xs) (\<lambda>_. I (x # xs)) E \<tau>"
      using Cons.prems(2) [of "x # ys" for ys] by (intro Cons.IH [of "\<lambda>ys. I (x # ys)"]) auto
  qed
  then show ?case by (simp add: wp_simps)
qed

lemma wp_foreach_inv:
  assumes "I \<sigma>" and "\<And>x \<tau>. x \<in> set xs \<Longrightarrow> I \<tau> \<Longrightarrow> wp (f x) (\<lambda>_. I) E \<tau>"
  shows "wp (foreach f xs) (\<lambda>_. I) E \<sigma>"
  using assms by (intro wp_foreach [where I = "\<lambda>_. I"]) auto

lemma wp_collect_inv:
  assumes "I \<sigma>" and "\<And>x \<tau>. x \<in> set xs \<Longrightarrow> I \<tau> \<Longrightarrow> wp (f x) (\<lambda>_. I) E \<tau>"
  shows "wp (collect f xs) (\<lambda>_. I) E \<sigma>"
  using assms
proof (induction xs arbitrary: \<sigma>)
  case Nil
  then show ?case by (simp add: wp_simps)
next
  case (Cons x xs)
  have "wp (f x) (\<lambda>_. I) E \<sigma>" using Cons.prems by simp
  then have "wp (f x) (\<lambda>a. wp (bnd (collect f xs) (\<lambda>as. ret (a # as))) (\<lambda>_. I) E) E \<sigma>"
  proof (rule wp_mono)
    fix a \<tau>
    assume "I \<tau>"
    then have "wp (collect f xs) (\<lambda>_. I) E \<tau>" using Cons.IH Cons.prems(2) by simp
    then show "wp (bnd (collect f xs) (\<lambda>as. ret (a # as))) (\<lambda>_. I) E \<tau>" by (simp add: wp_simps)
  qed
  then show ?case by (simp add: wp_bnd)
qed

section \<open>Call disciplines\<close>

text \<open>
  A discipline says of each call whether it may be made after a given history. A history keeps
  it when every call in it was allowed at the point where it was made.
\<close>

type_synonym 'q discipline = "'q hist \<Rightarrow> 'q \<Rightarrow> bool"

definition keeps :: "'q discipline \<Rightarrow> 'q hist \<Rightarrow> bool" where
  "keeps P h \<longleftrightarrow> (\<forall>i < length h. P (take i h) (fst (h ! i)))"

lemma keeps_Nil [simp]: "keeps P []"
  by (simp add: keeps_def)

lemma keeps_snoc [simp]: "keeps P (h @ [qr]) \<longleftrightarrow> keeps P h \<and> P h (fst qr)"
  by (auto simp: keeps_def less_Suc_eq nth_append)

lemma keeps_append: "keeps P (h @ t) \<Longrightarrow> keeps P h"
  by (induction t rule: rev_induct) (simp_all flip: append_assoc)

lemma keepsD: "keeps P (h @ (q, r) # t) \<Longrightarrow> P h q"
  using keeps_append [of P "h @ [(q, r)]" t] by simp

text \<open>The calls of a history that were answered.\<close>

definition answered :: "'q hist \<Rightarrow> 'q list" where
  "answered h = map fst (filter (\<lambda>(q, r). \<not> isl r) h)"

definition asked :: "'q hist \<Rightarrow> 'q list" where
  "asked h = map fst h"

lemma answered_simps [simp]:
  "answered [] = []"
  "answered (h @ [(q, Inr v)]) = answered h @ [q]"
  "answered (h @ [(q, Inl e)]) = answered h"
  by (simp_all add: answered_def)

lemma asked_simps [simp]: "asked [] = []" "asked (h @ [(q, r)]) = asked h @ [q]"
  by (simp_all add: asked_def)

section \<open>Which calls a program can make\<close>

definition asks :: "'q set \<Rightarrow> ('s, 'q, 'a) prog \<Rightarrow> bool" where
  "asks A m \<longleftrightarrow> (\<forall>\<sigma>. \<exists>t. snd (snd (m \<sigma>)) = snd \<sigma> @ t \<and> fst ` set t \<subseteq> A)"

named_theorems asks_intros \<open>the calls of the statements\<close>

lemma asks_ret [asks_intros]: "asks A (ret a)"
  by (simp add: asks_def ret_def)

lemma asks_raise [asks_intros]: "asks A (raise e)"
  by (simp add: asks_def raise_def)

lemma asks_demand [asks_intros]: "asks A (demand b msg)"
  by (simp add: demand_def asks_intros)

lemma asks_lift [asks_intros]: "asks A (lift r)"
  by (cases r) (simp_all add: lift_def asks_intros)

lemma asks_reads [asks_intros]: "asks A (reads f)"
  by (simp add: asks_def reads_def)

lemma asks_writes [asks_intros]: "asks A (writes f)"
  by (simp add: asks_def writes_def)

lemma asks_call [asks_intros]: "q \<in> A \<Longrightarrow> asks A (call \<beta> q)"
  by (auto simp: asks_def call_def)

lemma asks_bnd_value:
  assumes "asks A m" and f: "\<And>a \<sigma> \<tau>. m \<sigma> = (Inr a, \<tau>) \<Longrightarrow> asks A (f a)"
  shows "asks A (bnd m f)"
  unfolding asks_def
proof
  fix \<sigma>
  obtain r s h where m: "m \<sigma> = (r, s, h)" by (metis prod_cases3)
  then obtain t where t: "h = snd \<sigma> @ t" "fst ` set t \<subseteq> A"
    using assms(1) by (metis asks_def snd_conv)
  show "\<exists>t. snd (snd (bnd m f \<sigma>)) = snd \<sigma> @ t \<and> fst ` set t \<subseteq> A"
  proof (cases r)
    case (Inl e)
    with m t show ?thesis by (auto simp: bnd_def)
  next
    case (Inr a)
    with m have eq: "bnd m f \<sigma> = f a (s, h)" by (simp add: bnd_def)
    from f m Inr have "asks A (f a)" by blast
    then obtain t' where "snd (snd (f a (s, h))) = h @ t'" "fst ` set t' \<subseteq> A"
      by (metis asks_def snd_conv)
    then have "snd (snd (bnd m f \<sigma>)) = snd \<sigma> @ (t @ t') \<and> fst ` set (t @ t') \<subseteq> A"
      using t eq by auto
    then show ?thesis by blast
  qed
qed

lemma asks_bnd [asks_intros]: "asks A m \<Longrightarrow> (\<And>a. asks A (f a)) \<Longrightarrow> asks A (bnd m f)"
  by (rule asks_bnd_value)

lemma asks_andthen [asks_intros]: "asks A m \<Longrightarrow> asks A n \<Longrightarrow> asks A (andthen m n)"
  by (simp add: andthen_def asks_bnd)

lemma asks_block [asks_intros]: "list_all (asks A) cs \<Longrightarrow> asks A m \<Longrightarrow> asks A (block cs m)"
  by (induction cs) (auto intro: asks_andthen)

lemma asks_foreach [asks_intros]: "(\<And>x. x \<in> set xs \<Longrightarrow> asks A (f x)) \<Longrightarrow> asks A (foreach f xs)"
  by (induction xs) (auto intro: asks_intros)

lemma asks_collect [asks_intros]: "(\<And>x. asks A (f x)) \<Longrightarrow> asks A (collect f xs)"
  by (induction xs) (auto intro!: asks_intros)

lemma asks_mono: "asks A m \<Longrightarrow> A \<subseteq> B \<Longrightarrow> asks B m"
  by (fastforce simp: asks_def)

text \<open>What a call from a set leaves true of the history, a program with only such calls does.\<close>

lemma wp_asks:
  assumes "asks A m" and "P h" and "\<And>h q r. P h \<Longrightarrow> q \<in> A \<Longrightarrow> P (h @ [(q, r)])"
  shows "wp m (\<lambda>_ \<tau>. P (snd \<tau>)) (\<lambda>_ \<tau>. P (snd \<tau>)) (s, h)"
proof -
  have ext: "P (h @ t)" if "fst ` set t \<subseteq> A" for t
    using that
  proof (induction t rule: rev_induct)
    case Nil
    then show ?case by (simp add: assms(2))
  next
    case (snoc x t)
    then show ?case using assms(3) [of "h @ t" "fst x" "snd x"] by simp
  qed
  from assms(1) obtain t where "snd (snd (m (s, h))) = h @ t" "fst ` set t \<subseteq> A"
    by (metis asks_def snd_conv)
  with ext show ?thesis by (simp add: wp_both)
qed

text \<open>Sequencing rules: a midpoint for each statement.\<close>

lemma wp_bndI:
  assumes "wp m R E \<sigma>" "\<And>a \<tau>. R a \<tau> \<Longrightarrow> wp (f a) Q E \<tau>"
  shows "wp (bnd m f) Q E \<sigma>"
  using assms by (auto simp: wp_simps intro: wp_mono)

lemma wp_andthenI:
  assumes "wp m (\<lambda>_. R) E \<sigma>" "\<And>\<tau>. R \<tau> \<Longrightarrow> wp n Q E \<tau>"
  shows "wp (andthen m n) Q E \<sigma>"
  using assms by (auto simp: wp_simps intro: wp_mono)

lemma wp_blockI:
  assumes "wp c (\<lambda>_. R) E \<sigma>" "\<And>\<tau>. R \<tau> \<Longrightarrow> wp (block cs m) Q E \<tau>"
  shows "wp (block (c # cs) m) Q E \<sigma>"
  using assms by (auto intro: wp_andthenI)

text \<open>Facts about a history that further calls do not undo.\<close>

definition lasting :: "('q hist \<Rightarrow> bool) \<Rightarrow> bool" where
  "lasting F \<longleftrightarrow> (\<forall>h t. F h \<longrightarrow> F (h @ t))"

lemma lastingD: "lasting F \<Longrightarrow> F h \<Longrightarrow> F (h @ t)"
  by (simp add: lasting_def)

lemma lasting_mem: "lasting (\<lambda>h. qr \<in> set h)"
  by (simp add: lasting_def)

lemma lasting_True: "lasting (\<lambda>h. True)"
  by (simp add: lasting_def)

lemma lasting_conj: "lasting F \<Longrightarrow> lasting G \<Longrightarrow> lasting (\<lambda>h. F h \<and> G h)"
  by (simp add: lasting_def)

section \<open>Successful runs\<close>

text \<open>What a run that returns a value went through, statement by statement\<close>

lemma bnd_value:
  assumes "bnd m f \<sigma> = (Inr b, \<tau>)"
  obtains a \<upsilon> where "m \<sigma> = (Inr a, \<upsilon>)" "f a \<upsilon> = (Inr b, \<tau>)"
  using assms by (auto simp: bnd_def split: prod.splits sum.splits)

lemma andthen_value:
  assumes "andthen m n \<sigma> = (Inr b, \<tau>)"
  obtains a \<upsilon> where "m \<sigma> = (Inr a, \<upsilon>)" "n \<upsilon> = (Inr b, \<tau>)"
  using assms unfolding andthen_def by (rule bnd_value)

lemma lift_value [simp]: "lift r \<sigma> = (Inr a, \<tau>) \<longleftrightarrow> r = Inr a \<and> \<tau> = \<sigma>"
  by (cases r) (auto simp: lift_def ret_def raise_def)

lemma ret_value [simp]: "ret a \<sigma> = (Inr b, \<tau>) \<longleftrightarrow> a = b \<and> \<tau> = \<sigma>"
  by (auto simp: ret_def)

lemma raise_value [simp]: "raise e \<sigma> \<noteq> (Inr b, \<tau>)"
  by (simp add: raise_def)

lemma demand_value [simp]: "demand b msg \<sigma> = (Inr u, \<tau>) \<longleftrightarrow> b \<and> \<tau> = \<sigma>"
  by (simp add: demand_def)

lemma call_value [simp]:
  "call \<beta> q (s, h) = (Inr v, \<tau>) \<longleftrightarrow> \<beta> h q = Inr v \<and> \<tau> = (s, h @ [(q, Inr v)])"
  by (auto simp: call_def)

text \<open>A run only appends to the history.\<close>

lemma asks_value:
  assumes "asks A m" and "m (s, h) = (r, s', h')"
  obtains t where "h' = h @ t" "fst ` set t \<subseteq> A"
  using assms by (auto simp: asks_def) (metis snd_conv)

text \<open>A loop whose rounds each append a piece to the history\<close>

lemma collect_pieces:
  assumes "collect f xs (s, h) = (Inr ys, \<tau>)"
    and "\<And>x h y \<phi>. f x (s, h) = (Inr y, \<phi>) \<Longrightarrow> \<exists>t. \<phi> = (s, h @ t) \<and> P x t y"
  shows "\<exists>pieces. \<tau> = (s, h @ concat (map fst pieces)) \<and> ys = map snd pieces \<and> list_all2 (\<lambda>x (t, y). P x t y) xs pieces"
  using assms(1)
proof (induction xs arbitrary: ys h)
  case Nil
  then show ?case by (simp add: ret_def)
next
  case (Cons x xs)
  from Cons.prems obtain y \<upsilon> zs where c: "f x (s, h) = (Inr y, \<upsilon>)" "collect f xs \<upsilon> = (Inr zs, \<tau>)" "ys = y # zs"
    unfolding collect.simps by (elim bnd_value) (auto simp: ret_def)
  from assms(2) [OF c(1)] obtain t where t: "\<upsilon> = (s, h @ t)" "P x t y" by blast
  from Cons.IH [OF c(2) [unfolded t(1)]] obtain pieces where
    "\<tau> = (s, (h @ t) @ concat (map fst pieces))" "zs = map snd pieces" "list_all2 (\<lambda>x (t, y). P x t y) xs pieces" by blast
  with t c(3) show ?case by (intro exI [of _ "(t, y) # pieces"]) simp
qed

lemma foreach_pieces:
  assumes "foreach f xs (s, h) = (Inr u, \<tau>)"
    and "\<And>x h y \<phi>. f x (s, h) = (Inr y, \<phi>) \<Longrightarrow> \<exists>t. \<phi> = (s, h @ t) \<and> P x t"
  shows "\<exists>pieces. \<tau> = (s, h @ concat pieces) \<and> list_all2 P xs pieces"
  using assms(1)
proof (induction xs arbitrary: h)
  case Nil
  then show ?case by (simp add: ret_def)
next
  case (Cons x xs)
  from Cons.prems obtain y \<upsilon> where c: "f x (s, h) = (Inr y, \<upsilon>)" "foreach f xs \<upsilon> = (Inr u, \<tau>)"
    unfolding foreach.simps by (rule andthen_value)
  from assms(2) [OF c(1)] obtain t where t: "\<upsilon> = (s, h @ t)" "P x t" by blast
  from Cons.IH [OF c(2) [unfolded t(1)]] obtain pieces where "\<tau> = (s, (h @ t) @ concat pieces)" "list_all2 P xs pieces" by blast
  with t show ?case by (intro exI [of _ "t # pieces"]) simp
qed

lemma collect_value:
  "collect f xs \<sigma> = (Inr ys, \<tau>) \<Longrightarrow> list_all2 (\<lambda>x y. \<exists>\<upsilon> \<phi>. f x \<upsilon> = (Inr y, \<phi>)) xs ys"
proof (induction xs arbitrary: ys \<sigma> \<tau>)
  case (Cons x xs)
  from Cons.prems obtain y \<upsilon> zs \<phi> where c: "f x \<sigma> = (Inr y, \<upsilon>)" "collect f xs \<upsilon> = (Inr zs, \<phi>)" "ys = y # zs"
    unfolding collect.simps by (elim bnd_value, unfold ret_value) blast
  from Cons.IH [OF c(2)] c(1,3) show ?case by (simp only: list_all2_Cons) blast
qed simp

text \<open>Running a program forwards\<close>

lemma bnd_run: "m \<sigma> = (Inr a, \<tau>) \<Longrightarrow> bnd m f \<sigma> = f a \<tau>"
  by (simp add: bnd_def)

lemma andthen_run: "m \<sigma> = (Inr a, \<tau>) \<Longrightarrow> andthen m n \<sigma> = n \<tau>"
  by (simp add: andthen_def bnd_def)

lemma lift_run: "lift (Inr a) \<sigma> = (Inr a, \<sigma>)"
  by (simp add: lift_def ret_def)

lemma lift_bnd: "bnd (lift (Inr a)) f = f a"
  by (simp add: lift_def ret_def bnd_def fun_eq_iff)

lemma foreach_run2:
  "f x \<sigma> = (Inr u, \<tau>) \<Longrightarrow> f y \<tau> = (Inr v, \<upsilon>) \<Longrightarrow> foreach f [x, y] \<sigma> = (Inr (), \<upsilon>)"
  by (simp add: andthen_def bnd_def ret_def)

text \<open>\<^verbatim>\<open>try: m; finally: f\<close> where the final statements make calls of their own\<close>

definition ensure :: "('s, 'q, 'a) prog \<Rightarrow> ('s, 'q, unit) prog \<Rightarrow> ('s, 'q, 'a) prog" where
  "ensure m f \<sigma> =
     (case m \<sigma> of (r, \<tau>) \<Rightarrow> (case f \<tau> of (Inl e, \<upsilon>) \<Rightarrow> (Inl e, \<upsilon>) | (Inr _, \<upsilon>) \<Rightarrow> (r, \<upsilon>)))"

lemma wp_ensure [wp_simps]:
  "wp (ensure m f) Q E = wp m (\<lambda>a. wp f (\<lambda>_. Q a) E) (\<lambda>e. wp f (\<lambda>_. E e) E)"
  by (simp add: wp_def ensure_def fun_eq_iff split: prod.splits sum.splits)

lemma ensure_value:
  assumes "ensure m f \<sigma> = (Inr a, \<tau>)"
  obtains \<upsilon> u where "m \<sigma> = (Inr a, \<upsilon>)" "f \<upsilon> = (Inr u, \<tau>)"
  using assms by (auto simp: ensure_def split: prod.splits sum.splits)


section \<open>Scripts\<close>

text \<open>
  \<open>emits f ks m\<close>: a run of \<open>m\<close> that returns has made, and got answers to, calls with exactly the
  labels \<open>ks\<close>; a run that raises has made an initial part of them, of which only the last call can
  be unanswered.
\<close>

definition emits :: "('q \<Rightarrow> 'k) \<Rightarrow> 'k list \<Rightarrow> ('s, 'q, 'a) prog \<Rightarrow> bool" where
  "emits f ks m \<longleftrightarrow>
     (\<forall>\<sigma>. \<exists>t. snd (snd (m \<sigma>)) = snd \<sigma> @ t \<and>
        (if isl (fst (m \<sigma>)) then (\<exists>rest. ks = map (f \<circ> fst) t @ rest) \<and> list_all (\<lambda>qr. \<not> isl (snd qr)) (butlast t)
         else map (f \<circ> fst) t = ks \<and> list_all (\<lambda>qr. \<not> isl (snd qr)) t))"

named_theorems emits_intros \<open>the scripts of the statements\<close>

lemma emits_quiet:
  assumes "\<And>\<sigma>. snd (snd (m \<sigma>)) = snd \<sigma>"
  shows "emits f [] m"
  using assms by (auto simp: emits_def)

lemma emits_statements [emits_intros]:
  "emits f [] (ret a)" "emits f [] (raise e)" "emits f [] (demand b msg)" "emits f [] (lift r)"
  "emits f [] (reads g)" "emits f [] (writes u)"
  by (rule emits_quiet; simp add: ret_def raise_def demand_def lift_def reads_def writes_def split: sum.splits)+

lemma emits_call [emits_intros]: "emits f [f q] (call \<beta> q)"
  by (auto simp: emits_def call_def)

lemma emits_bnd:
  assumes m: "emits f ks m" and n: "\<And>a. emits f ls (n a)"
  shows "emits f (ks @ ls) (bnd m n)"
  unfolding emits_def
proof
  fix \<sigma>
  obtain r \<tau> where eq: "m \<sigma> = (r, \<tau>)" by (cases "m \<sigma>")
  from m obtain t where t: "snd \<tau> = snd \<sigma> @ t"
    "if isl r then (\<exists>rest. ks = map (f \<circ> fst) t @ rest) \<and> list_all (\<lambda>qr. \<not> isl (snd qr)) (butlast t)
     else map (f \<circ> fst) t = ks \<and> list_all (\<lambda>qr. \<not> isl (snd qr)) t"
    unfolding emits_def using eq by (metis fst_conv snd_conv)
  show "\<exists>t. snd (snd (bnd m n \<sigma>)) = snd \<sigma> @ t \<and>
        (if isl (fst (bnd m n \<sigma>))
         then (\<exists>rest. ks @ ls = map (f \<circ> fst) t @ rest) \<and> list_all (\<lambda>qr. \<not> isl (snd qr)) (butlast t)
         else map (f \<circ> fst) t = ks @ ls \<and> list_all (\<lambda>qr. \<not> isl (snd qr)) t)"
  proof (cases r)
    case (Inl e)
    with t eq show ?thesis by (intro exI [of _ t]) (auto simp: bnd_def)
  next
    case (Inr a)
    from n [of a] obtain u where u: "snd (snd (n a \<tau>)) = snd \<tau> @ u"
      "if isl (fst (n a \<tau>)) then (\<exists>rest. ls = map (f \<circ> fst) u @ rest) \<and> list_all (\<lambda>qr. \<not> isl (snd qr)) (butlast u)
       else map (f \<circ> fst) u = ls \<and> list_all (\<lambda>qr. \<not> isl (snd qr)) u"
      unfolding emits_def by metis
    have "bnd m n \<sigma> = n a \<tau>" using Inr eq by (simp add: bnd_def)
    with t u Inr show ?thesis
      by (intro exI [of _ "t @ u"]) (auto simp: butlast_append list_all_iff dest: in_set_butlastD split: if_splits)
  qed
qed

lemma emits_andthen: "emits f ks m \<Longrightarrow> emits f ls n \<Longrightarrow> emits f (ks @ ls) (andthen m n)"
  by (simp add: andthen_def emits_bnd)

text \<open>Rules whose script is found from the two parts\<close>

lemma emits_bndI [emits_intros]:
  "emits f ks m \<Longrightarrow> (\<And>a. emits f ls (n a)) \<Longrightarrow> ms = ks @ ls \<Longrightarrow> emits f ms (bnd m n)"
  by (simp add: emits_bnd)

lemma emits_andthenI [emits_intros]:
  "emits f ks m \<Longrightarrow> emits f ls n \<Longrightarrow> ms = ks @ ls \<Longrightarrow> emits f ms (andthen m n)"
  by (simp add: emits_andthen)


section \<open>Invariants of a whole program\<close>

definition preserves :: "('s \<times> 'q hist \<Rightarrow> bool) \<Rightarrow> ('s, 'q, 'a) prog \<Rightarrow> bool" where
  "preserves I m \<longleftrightarrow> (\<forall>\<sigma>. I \<sigma> \<longrightarrow> wp m (\<lambda>_. I) (\<lambda>_. I) \<sigma>)"

named_theorems preserves_intros \<open>programs that keep an invariant\<close>

lemma preservesD: "preserves I m \<Longrightarrow> I \<sigma> \<Longrightarrow> wp m (\<lambda>_. I) (\<lambda>_. I) \<sigma>"
  unfolding preserves_def by blast

lemma preserves_snd: "preserves I m \<Longrightarrow> I \<sigma> \<Longrightarrow> I (snd (m \<sigma>))"
  unfolding preserves_def wp_both by blast

lemma preserves_bnd [preserves_intros]: "preserves I m \<Longrightarrow> (\<And>a. preserves I (f a)) \<Longrightarrow> preserves I (bnd m f)"
  unfolding preserves_def by (blast intro: wp_bndI)

lemma preserves_andthen [preserves_intros]: "preserves I m \<Longrightarrow> preserves I n \<Longrightarrow> preserves I (andthen m n)"
  unfolding preserves_def by (blast intro: wp_andthenI)

lemma preserves_quiet [preserves_intros]:
  "preserves I (ret a)" "preserves I (raise e)" "preserves I (demand b msg)" "preserves I (lift r)" "preserves I (reads g)"
  by (auto simp: preserves_def wp_simps split: sum.splits)

lemma preserves_writes: "(\<And>s h. I (s, h) \<Longrightarrow> I (u s, h)) \<Longrightarrow> preserves I (writes u)"
  by (auto simp: preserves_def wp_simps)

lemma preserves_call: "(\<And>s h r. I (s, h) \<Longrightarrow> I (s, h @ [(q, r)])) \<Longrightarrow> preserves I (call \<beta> q)"
  by (auto simp: preserves_def wp_simps split: sum.splits)

lemma preserves_catch [preserves_intros]: "preserves I m \<Longrightarrow> (\<And>e. preserves I (k e)) \<Longrightarrow> preserves I (catch m k)"
  unfolding preserves_def wp_catch by (blast intro: wp_mono)

lemma preserves_on_error [preserves_intros]:
  "preserves I m \<Longrightarrow> (\<And>e. preserves I (k e)) \<Longrightarrow> preserves I (on_error m k)"
  unfolding preserves_def wp_on_error by (blast intro: wp_mono)

lemma preserves_on_exception [preserves_intros]:
  "preserves I m \<Longrightarrow> preserves I k \<Longrightarrow> preserves I (on_exception m k)"
  unfolding on_exception_def by (rule preserves_on_error) (simp_all add: preserves_quiet)

lemma preserves_if [preserves_intros]: "preserves I m \<Longrightarrow> preserves I n \<Longrightarrow> preserves I (if b then m else n)"
  by simp


lemma emits_value: "emits f ks m \<Longrightarrow> m (s, []) = (Inr v, s', h) \<Longrightarrow> map (f \<circ> fst) h = ks"
  unfolding emits_def by (drule spec [of _ "(s, [])"]) simp

lemma emits_exc: "emits f ks m \<Longrightarrow> m (s, []) = (Inl e, s', h) \<Longrightarrow> \<exists>rest. ks = map (f \<circ> fst) h @ rest"
  unfolding emits_def by (drule spec [of _ "(s, [])"]) auto

text \<open>A program without handlers stops at the first call that fails: every earlier one was answered.\<close>

definition all_answered :: "'q hist \<Rightarrow> bool" where
  "all_answered h \<longleftrightarrow> list_all (\<lambda>(q, r). \<not> isl r) h"

lemma all_answered_simps [simp]:
  "all_answered []" "all_answered (h @ t) \<longleftrightarrow> all_answered h \<and> all_answered t"
  "all_answered ((q, r) # h) \<longleftrightarrow> \<not> isl r \<and> all_answered h"
  by (auto simp: all_answered_def)

lemma all_answered_butlast: "all_answered h \<Longrightarrow> all_answered (butlast h)"
  unfolding all_answered_def list_all_iff by (auto dest: in_set_butlastD)

lemma emits_answered:
  assumes "emits f ks m" "m (s, []) = (r, s', h)"
  shows "all_answered (butlast h)" "\<not> isl r \<Longrightarrow> all_answered h"
proof -
  from assms have "if isl r then list_all (\<lambda>qr. \<not> isl (snd qr)) (butlast h) else list_all (\<lambda>qr. \<not> isl (snd qr)) h"
    unfolding emits_def by (drule_tac spec [of _ "(s, [])"]) (auto split: if_splits)
  then show "all_answered (butlast h)" "\<not> isl r \<Longrightarrow> all_answered h"
    using all_answered_butlast [of h] by (auto simp: all_answered_def case_prod_unfold split: if_splits)
qed


text \<open>A loop emits the scripts of its rounds.\<close>

lemma emits_foreach [emits_intros]:
  "(\<And>x. emits f (ks x) (g x)) \<Longrightarrow> ms = concat (map ks xs) \<Longrightarrow> emits f ms (foreach g xs)"
proof (induction xs arbitrary: ms)
  case Nil
  then show ?case by (simp add: emits_statements)
next
  case (Cons x xs)
  then show ?case using emits_andthen [OF Cons.prems(1) [of x] Cons.IH [OF Cons.prems(1) refl]] by simp
qed

text \<open>A handler that makes no calls, and a branch that always raises\<close>

lemma emits_on_error:
  assumes "emits f ks m" and "\<And>e \<sigma>. snd (snd (k e \<sigma>)) = snd \<sigma>"
  shows "emits f ks (on_error m k)"
  unfolding emits_def
proof
  fix \<sigma>
  have "isl (fst (on_error m k \<sigma>)) = isl (fst (m \<sigma>))"
    by (auto simp: on_error_def split: prod.splits sum.splits)
  moreover have "snd (snd (on_error m k \<sigma>)) = snd (snd (m \<sigma>))"
    using assms(2) by (auto simp: on_error_def split: prod.splits sum.splits) (metis snd_conv)+
  ultimately show "\<exists>t. snd (snd (on_error m k \<sigma>)) = snd \<sigma> @ t \<and>
        (if isl (fst (on_error m k \<sigma>))
         then (\<exists>rest. ks = map (f \<circ> fst) t @ rest) \<and> list_all (\<lambda>qr. \<not> isl (snd qr)) (butlast t)
         else map (f \<circ> fst) t = ks \<and> list_all (\<lambda>qr. \<not> isl (snd qr)) t)"
    using assms(1) unfolding emits_def by presburger
qed

lemma emits_stop:
  assumes "\<And>\<sigma>. snd (snd (m \<sigma>)) = snd \<sigma>" "\<And>\<sigma>. isl (fst (m \<sigma>))"
  shows "emits f ks m"
  using assms by (auto simp: emits_def)

lemma emits_if: "emits f ks m \<Longrightarrow> emits f ks n \<Longrightarrow> emits f ks (if b then m else n)"
  by simp

lemma emits_blockI: "emits f ks c \<Longrightarrow> emits f ls (block cs m) \<Longrightarrow> emits f (ks @ ls) (block (c # cs) m)"
  by (simp add: emits_andthen)


text \<open>\<^verbatim>\<open>try: m; except BaseException as exc: failure = exc\<close>, with the outcome as a value\<close>

definition captured :: "('s, 'q, 'a) prog \<Rightarrow> ('s, 'q, 'a res) prog" where
  "captured m \<sigma> = (case m \<sigma> of (r, \<tau>) \<Rightarrow> (Inr r, \<tau>))"

lemma wp_captured [wp_simps]: "wp (captured m) Q E = wp m (\<lambda>a. Q (Inr a)) (\<lambda>e. Q (Inl e))"
  by (simp add: wp_def captured_def fun_eq_iff split: prod.splits sum.splits)


lemma asks_catch [asks_intros]: "asks A m \<Longrightarrow> (\<And>e. asks A (k e)) \<Longrightarrow> asks A (catch m k)"
  unfolding asks_def
proof (rule allI)
  fix \<sigma>
  assume m: "\<forall>\<sigma>. \<exists>t. snd (snd (m \<sigma>)) = snd \<sigma> @ t \<and> fst ` set t \<subseteq> A"
    and k: "\<And>e. \<forall>\<sigma>. \<exists>t. snd (snd (k e \<sigma>)) = snd \<sigma> @ t \<and> fst ` set t \<subseteq> A"
  obtain r \<tau> where eq: "m \<sigma> = (r, \<tau>)" by (cases "m \<sigma>")
  with m obtain t where t: "snd \<tau> = snd \<sigma> @ t" "fst ` set t \<subseteq> A" by (metis snd_conv)
  show "\<exists>t. snd (snd (catch m k \<sigma>)) = snd \<sigma> @ t \<and> fst ` set t \<subseteq> A"
  proof (cases r)
    case (Inl e)
    from k obtain u where u: "snd (snd (k e \<tau>)) = snd \<tau> @ u" "fst ` set u \<subseteq> A" by blast
    with t eq Inl have "snd (snd (catch m k \<sigma>)) = snd \<sigma> @ (t @ u) \<and> fst ` set (t @ u) \<subseteq> A" by (auto simp: catch_def)
    then show ?thesis by blast
  next
    case (Inr a)
    with t eq show ?thesis by (auto simp: catch_def)
  qed
qed

lemma asks_on_error [asks_intros]:
  assumes "asks A m" and "\<And>e. asks A (k e)"
  shows "asks A (on_error m k)"
proof -
  have "on_error m k = catch m (\<lambda>e. bnd (k e) (\<lambda>_. raise e))"
    by (simp add: on_error_def catch_def bnd_def raise_def fun_eq_iff split: prod.splits sum.splits)
  with assms show ?thesis by (simp add: asks_catch asks_bnd asks_raise)
qed

lemma asks_captured [asks_intros]: "asks A m \<Longrightarrow> asks A (captured m)"
  unfolding asks_def captured_def by (simp split: prod.splits) (metis snd_conv)

lemma asks_if [asks_intros]: "asks A m \<Longrightarrow> asks A n \<Longrightarrow> asks A (if b then m else n)"
  by simp

lemma asks_option [asks_intros]:
  "asks A m \<Longrightarrow> (\<And>x. asks A (n x)) \<Longrightarrow> asks A (case v of None \<Rightarrow> m | Some x \<Rightarrow> n x)"
  by (cases v) simp_all

lemma asks_prod [asks_intros]: "(\<And>x y. asks A (f x y)) \<Longrightarrow> asks A (case p of (x, y) \<Rightarrow> f x y)"
  by (cases p) simp

lemma preserves_foreach [preserves_intros]: "(\<And>x. preserves I (f x)) \<Longrightarrow> preserves I (foreach f xs)"
  by (induction xs) (auto intro: preserves_intros)

lemma preserves_collect [preserves_intros]: "(\<And>x. preserves I (f x)) \<Longrightarrow> preserves I (collect f xs)"
  by (induction xs) (auto intro!: preserves_intros)

lemma preserves_captured [preserves_intros]: "preserves I m \<Longrightarrow> preserves I (captured m)"
  by (auto simp: preserves_def wp_captured elim: wp_mono)

lemma preserves_option [preserves_intros]:
  "preserves I m \<Longrightarrow> (\<And>x. preserves I (n x)) \<Longrightarrow> preserves I (case v of None \<Rightarrow> m | Some x \<Rightarrow> n x)"
  by (cases v) simp_all

lemma preserves_prod [preserves_intros]:
  "(\<And>x y. preserves I (f x y)) \<Longrightarrow> preserves I (case p of (x, y) \<Rightarrow> f x y)"
  by (cases p) simp

text \<open>One statement at a time, where the simplifier would unfold the whole rest\<close>

lemma wp_demandI:
  "(b \<Longrightarrow> wp n Q E \<sigma>) \<Longrightarrow> (\<not> b \<Longrightarrow> E (Refusal msg) \<sigma>) \<Longrightarrow> wp (andthen (demand b msg) n) Q E \<sigma>"
  by (simp add: wp_andthen wp_demand)

lemma wp_liftI:
  "(r = Inr () \<Longrightarrow> wp n Q E \<sigma>) \<Longrightarrow> (\<And>e. r = Inl e \<Longrightarrow> E e \<sigma>) \<Longrightarrow> wp (andthen (lift r) n) Q E \<sigma>"
  by (cases r) (simp_all add: wp_andthen wp_lift)

lemma wp_on_errorI:
  assumes "wp m Q R \<sigma>" and "\<And>e \<tau>. R e \<tau> \<Longrightarrow> wp (k e) (\<lambda>_. E e) E \<tau>"
  shows "wp (on_error m k) Q E \<sigma>"
  using assms by (auto simp: wp_on_error intro: wp_mono)

lemma wp_readsI: "wp (f (g s)) Q E (s, h) \<Longrightarrow> wp (bnd (reads g) f) Q E (s, h)"
  by (simp add: wp_bnd wp_reads)

lemma wp_writesI: "wp n Q E (f s, h) \<Longrightarrow> wp (andthen (writes f) n) Q E (s, h)"
  by (simp add: wp_andthen wp_writes)

text \<open>A program that keeps an invariant and, from its states, never returns\<close>

definition aborts :: "('s \<times> 'q hist \<Rightarrow> bool) \<Rightarrow> ('s, 'q, 'a) prog \<Rightarrow> bool" where
  "aborts I m \<longleftrightarrow> (\<forall>\<sigma>. I \<sigma> \<longrightarrow> wp m (\<lambda>_ _. False) (\<lambda>_. I) \<sigma>)"

lemma abortsD: "aborts I m \<Longrightarrow> I \<sigma> \<Longrightarrow> wp m (\<lambda>_ _. False) (\<lambda>_. I) \<sigma>"
  unfolding aborts_def by blast

lemma aborts_bnd: "aborts I m \<Longrightarrow> aborts I (bnd m f)"
  unfolding aborts_def [of I "bnd m f"] wp_bnd by (blast intro: wp_mono abortsD)

lemma aborts_preserves: "aborts I m \<Longrightarrow> preserves I m"
  unfolding preserves_def by (blast intro: wp_mono abortsD)

lemma aborts_andthen: "aborts I m \<Longrightarrow> aborts I (andthen m n)"
  by (simp add: andthen_def aborts_bnd)

lemma aborts_second: "preserves I m \<Longrightarrow> (\<And>a. aborts I (f a)) \<Longrightarrow> aborts I (bnd m f)"
  unfolding aborts_def [of I "bnd m f"] wp_bnd by (blast intro: wp_mono preservesD abortsD)

lemma aborts_on_error: "aborts I m \<Longrightarrow> (\<And>e. preserves I (k e)) \<Longrightarrow> aborts I (on_error m k)"
  unfolding aborts_def [of I "on_error m k"] wp_on_error by (blast intro: wp_mono preservesD abortsD)

lemma aborts_demand: "aborts I m \<Longrightarrow> aborts I (andthen (demand b msg) m)"
  unfolding andthen_def by (rule aborts_second [OF preserves_quiet(3)])

lemma aborts_reads: "(\<And>x. aborts I (f x)) \<Longrightarrow> aborts I (bnd (reads g) f)"
  by (rule aborts_second [OF preserves_quiet(5)])

lemma aborts_raise: "aborts I (raise e)"
  by (simp add: aborts_def wp_raise)

lemma aborts_if: "aborts I m \<Longrightarrow> aborts I n \<Longrightarrow> aborts I (if b then m else n)"
  by simp

lemma preserves_aborts_bnd: "aborts I m \<Longrightarrow> preserves I (bnd m f)"
  by (rule aborts_preserves [OF aborts_bnd])

lemma preserves_aborts_andthen: "aborts I m \<Longrightarrow> preserves I (andthen m n)"
  by (simp add: andthen_def preserves_aborts_bnd)

section \<open>Facts along a run\<close>

definition afterwards :: "('q hist \<Rightarrow> bool) \<Rightarrow> 's \<times> 'q hist \<Rightarrow> bool" where
  "afterwards F \<tau> \<longleftrightarrow> F (snd \<tau>)"

lemma emits_asks: "emits f ks m \<Longrightarrow> asks UNIV m"
  unfolding emits_def asks_def by blast

lemma wp_afterwards:
  assumes "asks UNIV m" "lasting F" "afterwards F \<sigma>"
  shows "wp m (\<lambda>_. afterwards F) (\<lambda>_ _. True) \<sigma>"
proof -
  obtain t where "snd (snd (m \<sigma>)) = snd \<sigma> @ t" using assms(1) unfolding asks_def by blast
  then have "afterwards F (snd (m \<sigma>))" using lastingD [OF assms(2), of "snd \<sigma>" t] assms(3) by (simp add: afterwards_def)
  then show ?thesis by (auto simp: wp_def split: prod.splits sum.splits)
qed

lemma wp_answer:
  assumes "lasting F" "afterwards F \<sigma>"
  shows "wp (call \<beta> q) (\<lambda>v. afterwards (\<lambda>h. F h \<and> (q, Inr v) \<in> set h)) (\<lambda>_ _. True) \<sigma>"
  using lastingD [OF assms(1)] assms(2) by (cases \<sigma>) (auto simp: wp_call afterwards_def split: sum.splits)

lemma wp_lift_known: "afterwards F \<sigma> \<Longrightarrow> wp (lift r) (\<lambda>_. afterwards (\<lambda>h. F h \<and> r = Inr ())) (\<lambda>_ _. True) \<sigma>"
  by (auto simp: wp_lift afterwards_def split: sum.splits)

lemma lasting_known: "lasting F \<Longrightarrow> lasting (\<lambda>h. F h \<and> P)"
  by (simp add: lasting_def)

lemma lasting_answer: "lasting F \<Longrightarrow> lasting (\<lambda>h. F h \<and> qr \<in> set h)"
  by (simp add: lasting_def)

lemmas lasting_intros = lasting_known lasting_answer lasting_conj

text \<open>Sequencing: the fact moves along, and grows by what was answered and checked.\<close>

lemma afterwards_andthen:
  assumes "afterwards F \<sigma>" "asks UNIV m" "lasting F" "\<And>\<tau>. afterwards F \<tau> \<Longrightarrow> wp n Q (\<lambda>_ _. True) \<tau>"
  shows "wp (andthen m n) Q (\<lambda>_ _. True) \<sigma>"
  by (rule wp_andthenI [OF wp_afterwards [OF assms(2,3,1)] assms(4)])

lemma afterwards_answer:
  assumes "afterwards F \<sigma>" "lasting F"
    and "\<And>v \<tau>. afterwards (\<lambda>h. F h \<and> (q, Inr v) \<in> set h) \<tau> \<Longrightarrow> wp (n v) Q (\<lambda>_ _. True) \<tau>"
  shows "wp (bnd (call \<beta> q) n) Q (\<lambda>_ _. True) \<sigma>"
  by (rule wp_bndI [OF wp_answer [OF assms(2,1)] assms(3)])

lemma afterwards_lift:
  assumes "afterwards F \<sigma>" "\<And>\<tau>. afterwards (\<lambda>h. F h \<and> r = Inr ()) \<tau> \<Longrightarrow> wp n Q (\<lambda>_ _. True) \<tau>"
  shows "wp (andthen (lift r) n) Q (\<lambda>_ _. True) \<sigma>"
  by (rule wp_andthenI [OF wp_lift_known [OF assms(1)] assms(2)])

lemma afterwards_end:
  assumes "afterwards F \<sigma>" "asks UNIV m" "lasting F" "\<And>h. F h \<Longrightarrow> G h"
  shows "wp m (\<lambda>_. afterwards G) (\<lambda>_ _. True) \<sigma>"
  using wp_afterwards [OF assms(2,3,1)] by (rule wp_mono) (auto simp: afterwards_def intro: assms(4))

lemma afterwards_ret: "afterwards F \<sigma> \<Longrightarrow> (\<And>h. F h \<Longrightarrow> G v h) \<Longrightarrow> wp (ret v) (\<lambda>a. afterwards (G a)) (\<lambda>_ _. True) \<sigma>"
  by (simp add: wp_ret afterwards_def)

lemma afterwards_bnd:
  assumes "afterwards F \<sigma>" "asks UNIV m" "lasting F" "\<And>a \<tau>. afterwards F \<tau> \<Longrightarrow> wp (f a) Q (\<lambda>_ _. True) \<tau>"
  shows "wp (bnd m f) Q (\<lambda>_ _. True) \<sigma>"
  by (rule wp_bndI [OF wp_afterwards [OF assms(2,3,1)] assms(4)])

lemma afterwards_bnd_lift:
  assumes "afterwards F \<sigma>" "\<And>a \<tau>. afterwards (\<lambda>h. F h \<and> r = Inr a) \<tau> \<Longrightarrow> wp (f a) Q (\<lambda>_ _. True) \<tau>"
  shows "wp (bnd (lift r) f) Q (\<lambda>_ _. True) \<sigma>"
  using assms by (cases r) (simp_all add: wp_simps afterwards_def)

lemma afterwards_demand:
  assumes "afterwards F \<sigma>" "\<And>\<tau>. afterwards (\<lambda>h. F h \<and> b) \<tau> \<Longrightarrow> wp n Q (\<lambda>_ _. True) \<tau>"
  shows "wp (andthen (demand b msg) n) Q (\<lambda>_ _. True) \<sigma>"
  using assms by (simp add: wp_simps afterwards_def)

end
