(* ===== verification/BarrierModel.thy ===== *)
theory BarrierModel
  imports Json PyEffect
begin

text \<open>
  \<^verbatim>\<open>experiments/thick-generations/layout-migration-barrier-model.py\<close>: the fail-closed model
  of the four-node package-maintenance barrier. A plan is validated once; the controller then
  reads the journal, observes every node, and carries out twelve actions (block entry, drain
  services, final audit, each on the four nodes in order), journalling an intent, an attempt and
  a completion around each. The backend is an arbitrary \<open>backend\<close> answering the calls below.
\<close>

section \<open>The plan\<close>

definition entry_units :: "string list" where
  "entry_units = [''pveproxy.service'', ''spiceproxy.service'', ''pvescheduler.service'', ''pve-guests.service'']"

definition forbidden_stops :: "string list" where
  "forbidden_stops = [''pve-guests.service'', ''pve-cluster.service'', ''corosync.service'', ''multipathd.service'']"

definition required_stops :: "string list" where
  "required_stops =
     [''pveproxy.service'', ''spiceproxy.service'', ''pvescheduler.service'', ''pvedaemon.service'',
      ''pvestatd.service'', ''pve-ha-lrm.service'', ''pve-ha-crm.service'', ''qmeventd.service'']"

definition allowed_active :: "string list" where
  "allowed_active =
     [''pve-cluster.service'', ''corosync.service'', ''multipathd.service'',
      ''pve-sharedlvmthin-thin-guard.service'', ''pve-guests.service'']"

definition restartable_masks :: "string list" where
  "restartable_masks = required_stops @ entry_units"

definition terminal_ingress :: "string list" where
  "terminal_ingress = sort (filter (\<lambda>u. u \<noteq> ''pve-guests.service'') entry_units)"

definition plan_fields :: "string list" where
  "plan_fields =
     [''schema'', ''tx'', ''participants'', ''workload_snapshot_sha256'', ''storage_cfg_sha256'',
      ''candidate_sha256'', ''issued_at'', ''deadline'', ''actions'']"

definition barrier_names :: "pyval \<Rightarrow> string list" where
  "barrier_names plan = map (\<lambda>row. str_of (fld row ''node'')) (list_of (fld plan ''participants''))"

definition barrier_action :: "string \<Rightarrow> string \<Rightarrow> pyval" where
  "barrier_action step node = PDict [(''step'', PStr step), (''node'', PStr node)]"

definition barrier_expected :: "string list \<Rightarrow> pyval list" where
  "barrier_expected names =
     map (barrier_action ''ENTRY_BLOCK'') names @ map (barrier_action ''SERVICE_DRAIN'') names
       @ map (barrier_action ''FINAL_AUDIT'') names"

definition participant_check :: "pyval \<Rightarrow> unit res" where
  "participant_check row =
     checks
      [need (exact row [''node'', ''boot_id'', ''san_role'']) ''participant fields invalid'',
       need (matches (\<lambda>s. s \<noteq> []) (fld row ''node'') \<and> matches uuid_re (fld row ''boot_id'')
             \<and> is_bool (fld row ''san_role'')) ''participant invalid'']"

definition plan_head_checks :: "pyval \<Rightarrow> int \<Rightarrow> (bool \<times> exc) list" where
  "plan_head_checks plan now =
     (let issued = int_of (fld plan ''issued_at''); deadline = int_of (fld plan ''deadline'') in
      [need (exact plan plan_fields) ''plan fields invalid'',
       need (pyeq (fld plan ''schema'') (PStr ''slt-maintenance-barrier-model/v1'')
             \<and> matches (hexn 32) (fld plan ''tx'')) ''plan identity invalid'',
       need (is_int (fld plan ''issued_at'') \<and> is_int (fld plan ''deadline'')
             \<and> issued \<le> now \<and> now \<le> deadline \<and> 0 < deadline - issued \<and> deadline - issued \<le> 1800)
         ''plan timing invalid'',
       need (matches (hexn 64) (fld plan ''workload_snapshot_sha256'')) ''workload_snapshot_sha256 invalid'',
       need (matches (hexn 64) (fld plan ''storage_cfg_sha256'')) ''storage_cfg_sha256 invalid'',
       need (matches (hexn 64) (fld plan ''candidate_sha256'')) ''candidate_sha256 invalid'',
       need (is_list (fld plan ''participants'') \<and> length (list_of (fld plan ''participants'')) = 4)
         ''exactly four participants required''])"

definition plan_tail_checks :: "pyval \<Rightarrow> (bool \<times> exc) list" where
  "plan_tail_checks plan =
     [need (sorted_wrt (<) (barrier_names plan)) ''participant set is duplicated or unordered'',
      need (length (filter (\<lambda>row. fld row ''san_role'' = PBool False) (list_of (fld plan ''participants''))) = 1)
        ''topology must explicitly bind one control-plane-only node'',
      need (is_list (fld plan ''actions'')
            \<and> pyeq (fld plan ''actions'') (PList (barrier_expected (barrier_names plan))))
        ''action plan is not the exact closed four-node order'']"

definition validate_plan :: "pyval \<Rightarrow> int \<Rightarrow> pyval res" where
  "validate_plan plan now =
     rbind (checks (plan_head_checks plan now)) (\<lambda>_.
     rbind (check_each participant_check (list_of (fld plan ''participants''))) (\<lambda>_.
     rbind (checks (plan_tail_checks plan)) (\<lambda>_. Inr plan)))"

section \<open>Observations\<close>

definition observation_fields :: "string list" where
  "observation_fields =
     [''node'', ''boot_id'', ''membership'', ''storage_cfg_sha256'', ''workload_snapshot_sha256'',
      ''quorate'', ''running_guests'', ''ha_state'', ''tasks'', ''workers'', ''pending_jobs'',
      ''persistent_masks'', ''active_services'', ''stopped_services'']"

definition expected_boot :: "pyval \<Rightarrow> string \<Rightarrow> pyval" where
  "expected_boot plan node =
     (case filter (\<lambda>row. fld row ''node'' = PStr node) (list_of (fld plan ''participants'')) of
        [] \<Rightarrow> PNone | row # _ \<Rightarrow> fld row ''boot_id'')"

text \<open>\<^verbatim>\<open>set(units) <= set(value[field])\<close>, and the other set relations of the code\<close>

definition holds_units :: "string list \<Rightarrow> pyval \<Rightarrow> bool" where
  "holds_units units v \<longleftrightarrow> (\<forall>u \<in> set units. PStr u \<in> set (list_of v))"

definition within_units :: "pyval \<Rightarrow> string list \<Rightarrow> bool" where
  "within_units v units \<longleftrightarrow> (\<forall>w \<in> set (list_of v). w \<in> PStr ` set units)"

definition no_unit :: "string list \<Rightarrow> pyval \<Rightarrow> bool" where
  "no_unit units v \<longleftrightarrow> (\<forall>u \<in> set units. PStr u \<notin> set (list_of v))"

definition meets :: "pyval \<Rightarrow> pyval \<Rightarrow> bool" where
  "meets v w \<longleftrightarrow> (\<exists>x \<in> set (list_of v). \<exists>y \<in> set (list_of w). pyeq x y)"

definition empty_list :: "pyval \<Rightarrow> bool" where
  "empty_list v \<longleftrightarrow> is_list v \<and> list_of v = []"

definition identity_checks :: "pyval \<Rightarrow> pyval \<Rightarrow> string \<Rightarrow> (bool \<times> exc) list" where
  "identity_checks v plan node =
     [need (exact v observation_fields) ''observation fields invalid'',
      need (pyeq (fld v ''node'') (PStr node) \<and> pyeq (fld v ''boot_id'') (expected_boot plan node)
            \<and> pyeq (fld v ''membership'') (PList (map PStr (barrier_names plan)))
            \<and> pyeq (fld v ''storage_cfg_sha256'') (fld plan ''storage_cfg_sha256'')
            \<and> pyeq (fld v ''workload_snapshot_sha256'') (fld plan ''workload_snapshot_sha256'')
            \<and> is_true (fld v ''quorate'')) ''cluster identity drifted'',
      need (empty_list (fld v ''running_guests'')) ''running_guests is not empty'',
      need (empty_list (fld v ''tasks'')) ''tasks is not empty'',
      need (empty_list (fld v ''workers'')) ''workers is not empty'',
      need (empty_list (fld v ''pending_jobs'')) ''pending_jobs is not empty'',
      need (fld v ''ha_state'' \<in> {PStr ''EMPTY_IDLE'', PStr ''DRAINED''}) ''HA is not empty and idle'']"

definition unit_list_check :: "pyval \<Rightarrow> string \<Rightarrow> unit res" where
  "unit_list_check v field =
     (if is_list (fld v field)
      then rbind (is_sorted_set (list_of (fld v field))) (\<lambda>b. checks [need b (field @ '' invalid'')])
      else Inl (Refusal (field @ '' invalid'')))"

definition held_checks :: "pyval \<Rightarrow> (bool \<times> exc) list" where
  "held_checks v =
     [need (fld v ''ha_state'' = PStr ''DRAINED'') ''HA daemons not drained'',
      need (holds_units restartable_masks (fld v ''persistent_masks'')) ''persistent ingress masks are incomplete'',
      need (\<not> meets (fld v ''active_services'') (fld v ''stopped_services'')) ''service lifecycle is contradictory'',
      need (no_unit forbidden_stops (fld v ''stopped_services'')) ''forbidden service was stopped'',
      need (holds_units required_stops (fld v ''stopped_services'')
            \<and> within_units (fld v ''stopped_services'') required_stops)
        ''required terminal service evidence is incomplete'',
      need (within_units (fld v ''active_services'') allowed_active) ''unexpected service remains active'']"

definition validate_observation :: "pyval \<Rightarrow> pyval \<Rightarrow> string \<Rightarrow> bool \<Rightarrow> pyval res" where
  "validate_observation v plan node final =
     rbind (checks (identity_checks v plan node)) (\<lambda>_.
     rbind (check_each (unit_list_check v) [''persistent_masks'', ''active_services'', ''stopped_services'']) (\<lambda>_.
     rbind (checks (if final then held_checks v else [])) (\<lambda>_. Inr v)))"

section \<open>The controller\<close>

datatype bcall =
    BNow
  | BLoad pyval
  | BPersist pyval
  | BObserve string
  | BMask string "string list"
  | BDrain string

record bstate =
  bc_poisoned :: bool
  bc_running :: bool
  bc_last_clock :: int

type_synonym 'a bprog = "(bstate, bcall, 'a) prog"

text \<open>
  The plan and its hash are attributes that \<^verbatim>\<open>__init__\<close> sets and nothing assigns: they are
  arguments here. The backend gets values, not the objects themselves.
\<close>

definition b_init :: "int \<Rightarrow> bstate" where
  "b_init now = \<lparr>bc_poisoned = False, bc_running = False, bc_last_clock = now\<rparr>"

definition b_authority :: "pyval \<Rightarrow> string \<Rightarrow> unit bprog" where
  "b_authority plan sha =
     bnd (reads bc_poisoned) (\<lambda>p. demand (\<not> p \<and> digest plan = sha) ''plan changed after enrollment'')"

definition b_clock :: "pyval \<Rightarrow> string \<Rightarrow> bcall backend \<Rightarrow> unit bprog" where
  "b_clock plan sha \<beta> =
     bnd (reads bc_last_clock) (\<lambda>previous.
     bnd (call \<beta> BNow) (\<lambda>value.
     block
      [b_authority plan sha,
       bnd (reads bc_last_clock) (\<lambda>l. demand (l = previous) ''clock watermark changed inside backend callback''),
       demand (is_int value \<and> previous \<le> int_of value) ''clock is invalid or regressed'',
       writes (\<lambda>s. s\<lparr>bc_last_clock := int_of value\<rparr>)]
      (demand (int_of value \<le> int_of (fld plan ''deadline'')) ''absolute deadline expired'')))"

text \<open>\<^verbatim>\<open>self._authority(); self._clock()\<close>\<close>

definition b_tick :: "pyval \<Rightarrow> string \<Rightarrow> bcall backend \<Rightarrow> unit bprog" where
  "b_tick plan sha \<beta> = andthen (b_authority plan sha) (b_clock plan sha \<beta>)"

definition b_event :: "pyval \<Rightarrow> string \<Rightarrow> string \<Rightarrow> nat \<Rightarrow> pyval \<Rightarrow> pyval option \<Rightarrow> pyval" where
  "b_event plan sha kind index action receipt =
     PDict ([(''tx'', fld plan ''tx''), (''plan_sha256'', PStr sha), (''kind'', PStr kind),
             (''index'', PInt (int index)), (''step'', fld action ''step''), (''node'', fld action ''node'')]
            @ (case receipt of None \<Rightarrow> [] | Some r \<Rightarrow> [(''receipt'', r)]))"

definition b_persist :: "pyval \<Rightarrow> string \<Rightarrow> bcall backend \<Rightarrow> string \<Rightarrow> nat \<Rightarrow> pyval \<Rightarrow> pyval option \<Rightarrow> unit bprog" where
  "b_persist plan sha \<beta> kind index action receipt =
     bnd (call \<beta> (BPersist (b_event plan sha kind index action receipt))) (\<lambda>_. b_tick plan sha \<beta>)"

definition b_entry_receipt :: pyval where
  "b_entry_receipt =
     PDict [(''persistent_masks'', PList (map PStr (sort entry_units))),
            (''terminal_ingress'', PList (map PStr terminal_ingress))]"

definition b_receipt :: "pyval \<Rightarrow> pyval \<Rightarrow> pyval \<Rightarrow> bool \<Rightarrow> pyval res" where
  "b_receipt plan action value final =
     (if fld action ''step'' = PStr ''ENTRY_BLOCK''
      then rbind (checks [need (is_dict value \<and> pyeq value b_entry_receipt) ''entry-block receipt invalid''])
             (\<lambda>_. Inr value)
      else validate_observation value plan (str_of (fld action ''node'')) final)"

definition b_actions :: "pyval \<Rightarrow> pyval list" where
  "b_actions plan = list_of (fld plan ''actions'')"

definition b_final :: "pyval \<Rightarrow> bool" where
  "b_final action \<longleftrightarrow> fld action ''step'' = PStr ''FINAL_AUDIT''"

text \<open>
  The nested loops of \<^verbatim>\<open>_history\<close>: the rows due, in order, against the rows that are there.
  A return value names the first row that is missing.
\<close>

definition b_kinds :: "string list" where
  "b_kinds = [''INTENT_DURABLE'', ''ATTEMPTED'', ''OBSERVED_COMPLETE'']"

definition b_due :: "pyval \<Rightarrow> (nat \<times> string) list" where
  "b_due plan = concat (map (\<lambda>i. map (Pair i) b_kinds) [0..<length (b_actions plan)])"

definition b_row_check :: "pyval \<Rightarrow> string \<Rightarrow> nat \<Rightarrow> string \<Rightarrow> pyval \<Rightarrow> unit res" where
  "b_row_check plan sha index kind row =
     (let action = b_actions plan ! index in
      rbind (checks
        [need (exact row ([''tx'', ''plan_sha256'', ''kind'', ''index'', ''step'', ''node'']
                 @ (if kind = ''OBSERVED_COMPLETE'' then [''receipt''] else []))) ''journal event fields invalid'',
         need (pyeq (fld row ''tx'') (fld plan ''tx'') \<and> pyeq (fld row ''plan_sha256'') (PStr sha)
               \<and> pyeq (fld row ''kind'') (PStr kind) \<and> pyeq (fld row ''index'') (PInt (int index))
               \<and> pyeq (fld row ''step'') (fld action ''step'') \<and> pyeq (fld row ''node'') (fld action ''node''))
           ''journal event identity or order invalid'']) (\<lambda>_.
      if kind = ''OBSERVED_COMPLETE''
      then rbind (b_receipt plan action (fld row ''receipt'') (b_final action)) (\<lambda>_. Inr ())
      else Inr ()))"

fun b_scan :: "pyval \<Rightarrow> string \<Rightarrow> (nat \<times> string) list \<Rightarrow> pyval list \<Rightarrow> (nat \<times> string option) res" where
  "b_scan plan sha [] [] = Inr (length (b_actions plan), None)"
| "b_scan plan sha [] (row # rows) = Inl (Refusal ''journal has extra records'')"
| "b_scan plan sha ((index, kind) # due) [] = Inr (index, Some kind)"
| "b_scan plan sha ((index, kind) # due) (row # rows) =
     rbind (b_row_check plan sha index kind row) (\<lambda>_. b_scan plan sha due rows)"

definition b_history :: "pyval \<Rightarrow> string \<Rightarrow> pyval \<Rightarrow> (nat \<times> string option) res" where
  "b_history plan sha history =
     rbind (checks [need (is_list history) ''journal history invalid''])
       (\<lambda>_. b_scan plan sha (b_due plan) (list_of history))"

definition b_report :: "string \<Rightarrow> pyval" where
  "b_report state =
     PDict [(''state'', PStr state), (''runtime_authorized'', PBool False), (''rollout_authorized'', PBool False),
            (''release_authorized'', PBool False), (''mutation_performed'', PBool False)]"

text \<open>The body of the loop over participants before the first effect.\<close>

definition b_preflight :: "pyval \<Rightarrow> string \<Rightarrow> bcall backend \<Rightarrow> string \<Rightarrow> unit bprog" where
  "b_preflight plan sha \<beta> node =
     block [b_tick plan sha \<beta>,
            bnd (call \<beta> (BObserve node)) (\<lambda>v. bnd (lift (validate_observation v plan node False)) (\<lambda>_. ret ()))]
       (b_tick plan sha \<beta>)"

definition b_masked :: "pyval \<Rightarrow> bool" where
  "b_masked v \<longleftrightarrow> holds_units entry_units (fld v ''persistent_masks'')
     \<and> no_unit terminal_ingress (fld v ''active_services'')"

text \<open>The check between the last ENTRY_BLOCK and the first SERVICE_DRAIN.\<close>

definition b_entry_terminal :: "pyval \<Rightarrow> string \<Rightarrow> bcall backend \<Rightarrow> string \<Rightarrow> unit bprog" where
  "b_entry_terminal plan sha \<beta> node =
     bnd (call \<beta> (BObserve node)) (\<lambda>v.
     bnd (lift (validate_observation v plan node False)) (\<lambda>w.
     andthen (demand (b_masked w) ''entry barrier is not terminal on every node'') (b_tick plan sha \<beta>)))"

definition b_effect :: "pyval \<Rightarrow> bcall backend \<Rightarrow> pyval \<Rightarrow> pyval bprog" where
  "b_effect plan \<beta> action =
     (let node = str_of (fld action ''node'') in
      if fld action ''step'' = PStr ''ENTRY_BLOCK'' then call \<beta> (BMask node entry_units)
      else if fld action ''step'' = PStr ''SERVICE_DRAIN'' then
        bnd (call \<beta> (BDrain node)) (\<lambda>receipt.
        bnd (lift (b_receipt plan action receipt False)) (\<lambda>w.
        block
         [demand (holds_units entry_units (fld w ''persistent_masks'')) ''drain observation lost persistent masks'',
          demand (no_unit forbidden_stops (fld w ''stopped_services'')) ''drain stopped a forbidden service'']
         (ret receipt)))
      else call \<beta> (BObserve node))"

definition b_step :: "pyval \<Rightarrow> string \<Rightarrow> bcall backend \<Rightarrow> nat \<Rightarrow> unit bprog" where
  "b_step plan sha \<beta> index =
     (let action = b_actions plan ! index in
      block
       [if index = 4 then foreach (b_entry_terminal plan sha \<beta>) (barrier_names plan) else ret (),
        b_tick plan sha \<beta>,
        b_persist plan sha \<beta> ''INTENT_DURABLE'' index action None,
        b_persist plan sha \<beta> ''ATTEMPTED'' index action None,
        b_tick plan sha \<beta>]
       (bnd (b_effect plan \<beta> action) (\<lambda>receipt.
        bnd (lift (b_receipt plan action receipt (b_final action))) (\<lambda>w.
        andthen (b_tick plan sha \<beta>)
          (b_persist plan sha \<beta> ''OBSERVED_COMPLETE'' index action (Some w))))))"

definition b_effects_loop :: "pyval \<Rightarrow> string \<Rightarrow> bcall backend \<Rightarrow> nat \<Rightarrow> pyval bprog" where
  "b_effects_loop plan sha \<beta> completed =
     block
      [foreach (b_preflight plan sha \<beta>) (barrier_names plan),
       foreach (b_step plan sha \<beta>) [completed..<length (b_actions plan)],
       b_tick plan sha \<beta>,
       b_authority plan sha]
      (ret (b_report ''MODEL_HELD''))"

definition b_body :: "pyval \<Rightarrow> string \<Rightarrow> bcall backend \<Rightarrow> pyval bprog" where
  "b_body plan sha \<beta> =
     andthen (b_tick plan sha \<beta>)
      (bnd (call \<beta> (BLoad (fld plan ''tx''))) (\<lambda>history.
       andthen (b_tick plan sha \<beta>)
        (bnd (lift (b_history plan sha history)) (\<lambda>(completed, missing_kind).
         if missing_kind \<notin> {None, Some ''INTENT_DURABLE''}
         then raise (Refusal ''pending action requires recovery'')
         else if completed = length (b_actions plan) then ret (b_report ''MODEL_COMPLETED_HISTORICAL'')
         else andthen (demand (completed = 0 \<and> list_of history = [])
                ''partial completed history requires explicit recovery'')
                (b_effects_loop plan sha \<beta> completed)))))"

definition b_run :: "pyval \<Rightarrow> string \<Rightarrow> bcall backend \<Rightarrow> pyval bprog" where
  "b_run plan sha \<beta> =
     bnd (reads bc_running) (\<lambda>r.
     if r then andthen (writes (\<lambda>s. s\<lparr>bc_poisoned := True\<rparr>)) (raise (Refusal ''controller is reentered and poisoned''))
     else
       bnd (reads bc_poisoned) (\<lambda>p.
       block [demand (\<not> p) ''controller is poisoned'', writes (\<lambda>s. s\<lparr>bc_running := True\<rparr>)]
        (at_end (on_exception (b_body plan sha \<beta>) (writes (\<lambda>s. s\<lparr>bc_poisoned := True\<rparr>)))
          (\<lambda>s. s\<lparr>bc_running := False\<rparr>))))"

text \<open>\<^verbatim>\<open>Controller(plan, backend, now).run()\<close>\<close>

definition barrier_controller :: "pyval \<Rightarrow> int \<Rightarrow> bcall backend \<Rightarrow> (pyval res \<times> bstate \<times> bcall hist) res" where
  "barrier_controller plan now \<beta> =
     rbind (validate_plan plan now) (\<lambda>p. Inr (b_run p (digest p) \<beta> (b_init now, [])))"

section \<open>What a valid plan says\<close>

definition b_step_name :: "nat \<Rightarrow> string" where
  "b_step_name i = [''ENTRY_BLOCK'', ''SERVICE_DRAIN'', ''FINAL_AUDIT''] ! (i div 4)"

definition b_node :: "pyval \<Rightarrow> nat \<Rightarrow> string" where
  "b_node plan i = barrier_names plan ! (i mod 4)"

lemma barrier_expected_nth:
  assumes "length names = 4" "i < 12"
  shows "barrier_expected names ! i
    = barrier_action ([''ENTRY_BLOCK'', ''SERVICE_DRAIN'', ''FINAL_AUDIT''] ! (i div 4)) (names ! (i mod 4))"
proof -
  from assms(1) obtain a b c d where "names = [a, b, c, d]"
    by (auto simp: numeral_eq_Suc length_Suc_conv)
  moreover have "i \<in> {0, 1, 2, 3, 4, 5, 6, 7, 8, 9, 10, 11}" using assms(2) by (simp; presburger)
  ultimately show ?thesis by (auto simp: barrier_expected_def nth_append)
qed

lemma valid_plan:
  assumes "validate_plan plan now = Inr p"
  shows "p = plan" "length (barrier_names plan) = 4" "sorted_wrt (<) (barrier_names plan)"
    "length (b_actions plan) = 12"
    "\<And>i. i < 12 \<Longrightarrow> fld (b_actions plan ! i) ''step'' = PStr (b_step_name i)
       \<and> fld (b_actions plan ! i) ''node'' = PStr (b_node plan i)"
proof -
  from assms show "p = plan" "sorted_wrt (<) (barrier_names plan)"
    and four: "length (barrier_names plan) = 4"
    by (auto simp: validate_plan_def rbind_Inr plan_head_checks_def plan_tail_checks_def check_simps
        barrier_names_def Let_def)
  have "pyeq (fld plan ''actions'') (PList (barrier_expected (barrier_names plan)))"
    using assms by (auto simp: validate_plan_def rbind_Inr plan_tail_checks_def check_simps)
  then have acts: "list_all2 pyeq (b_actions plan) (barrier_expected (barrier_names plan))"
    by (auto simp: pyeq_list_cases b_actions_def)
  then show "length (b_actions plan) = 12"
    using four by (simp add: list_all2_lengthD barrier_expected_def)
  fix i :: nat
  assume i: "i < 12"
  then have "pyeq (b_actions plan ! i) (barrier_action (b_step_name i) (b_node plan i))"
    using list_all2_nthD [OF acts, of i] four \<open>length (b_actions plan) = 12\<close>
    by (simp add: barrier_expected_nth b_step_name_def b_node_def)
  from pyeq_dict_fld(3) [OF this [unfolded barrier_action_def], of "''step''"]
    pyeq_dict_fld(3) [OF this [unfolded barrier_action_def], of "''node''"]
  show "fld (b_actions plan ! i) ''step'' = PStr (b_step_name i)
       \<and> fld (b_actions plan ! i) ''node'' = PStr (b_node plan i)"
    by simp
qed

lemma b_step_name_cases:
  "i < 12 \<Longrightarrow> b_step_name i =
     (if i < 4 then ''ENTRY_BLOCK'' else if i < 8 then ''SERVICE_DRAIN'' else ''FINAL_AUDIT'')"
proof -
  assume "i < 12"
  then have "i \<in> {0, 1, 2, 3, 4, 5, 6, 7, 8, 9, 10, 11}" by (simp; presburger)
  then show ?thesis by (auto simp: b_step_name_def)
qed

section \<open>The journal and the effects of a history\<close>

fun b_effectful :: "bcall \<Rightarrow> bool" where
  "b_effectful (BMask n us) = True"
| "b_effectful (BDrain n) = True"
| "b_effectful _ = False"

text \<open>The events the backend acknowledged, and the effects that were asked for.\<close>

fun b_row_of :: "bcall \<times> pyres \<Rightarrow> pyval list" where
  "b_row_of (BPersist ev, Inr v) = [ev]"
| "b_row_of _ = []"

definition b_journal :: "bcall hist \<Rightarrow> pyval list" where
  "b_journal h = concat (map b_row_of h)"

definition b_done :: "bcall hist \<Rightarrow> bcall list" where
  "b_done h = filter b_effectful (asked h)"

lemma b_journal_simps [simp]:
  "b_journal [] = []"
  "b_journal (h @ [qr]) = b_journal h @ b_row_of qr"
  by (simp_all add: b_journal_def)

lemma b_done_simps [simp]:
  "b_done [] = []"
  "b_done (h @ [(q, r)]) = b_done h @ (if b_effectful q then [q] else [])"
  by (simp_all add: b_done_def)

text \<open>The journal after \<open>k\<close> completed actions: an intent, an attempt and a completion with a valid
  receipt for each, in order.\<close>

definition b_receipt_ok :: "pyval \<Rightarrow> nat \<Rightarrow> pyval \<Rightarrow> bool" where
  "b_receipt_ok plan i r \<longleftrightarrow> b_receipt plan (b_actions plan ! i) r (b_final (b_actions plan ! i)) = Inr r"

fun b_completed :: "pyval \<Rightarrow> string \<Rightarrow> nat \<Rightarrow> pyval list \<Rightarrow> bool" where
  "b_completed plan sha 0 js \<longleftrightarrow> js = []"
| "b_completed plan sha (Suc k) js \<longleftrightarrow>
     (\<exists>pre r. b_completed plan sha k pre \<and> b_receipt_ok plan k r
        \<and> js = pre @ [b_event plan sha ''INTENT_DURABLE'' k (b_actions plan ! k) None,
                      b_event plan sha ''ATTEMPTED'' k (b_actions plan ! k) None,
                      b_event plan sha ''OBSERVED_COMPLETE'' k (b_actions plan ! k) (Some r)])"

definition b_effect_at :: "pyval \<Rightarrow> nat \<Rightarrow> bcall" where
  "b_effect_at plan i = (if i < 4 then BMask (b_node plan i) entry_units else BDrain (b_node plan i))"

definition b_seen :: "pyval \<Rightarrow> (pyval \<Rightarrow> bool) \<Rightarrow> bcall hist \<Rightarrow> string \<Rightarrow> bool" where
  "b_seen plan p h n \<longleftrightarrow>
     (\<exists>v. (BObserve n, Inr v) \<in> set h \<and> validate_observation v plan n False = Inr v \<and> p v)"

definition b_entry_closed :: "pyval \<Rightarrow> string \<Rightarrow> bcall hist \<Rightarrow> bool" where
  "b_entry_closed plan sha h \<longleftrightarrow>
     (\<exists>h1 h2. h = h1 @ h2 \<and> b_completed plan sha 4 (b_journal h1)
        \<and> (\<forall>n \<in> set (barrier_names plan). b_seen plan b_masked h2 n))"

text \<open>When an effect may be asked for.\<close>

definition b_rule :: "pyval \<Rightarrow> string \<Rightarrow> bcall discipline" where
  "b_rule plan sha h q \<longleftrightarrow>
     (b_effectful q \<longrightarrow>
      (\<exists>k < 8. q = b_effect_at plan k \<and> b_done h = map (b_effect_at plan) [0..<k]
        \<and> (\<exists>pre. b_completed plan sha k pre
             \<and> b_journal h = pre @ [b_event plan sha ''INTENT_DURABLE'' k (b_actions plan ! k) None,
                                    b_event plan sha ''ATTEMPTED'' k (b_actions plan ! k) None])
        \<and> (BLoad (fld plan ''tx''), Inr (PList [])) \<in> set h
        \<and> (\<forall>n \<in> set (barrier_names plan). b_seen plan (\<lambda>_. True) h n)
        \<and> (4 \<le> k \<longrightarrow> b_entry_closed plan sha h)))"

lemma b_rule_quiet [simp]: "\<not> b_effectful q \<Longrightarrow> b_rule plan sha h q"
  by (simp add: b_rule_def)

lemma b_seen_append: "b_seen plan p h n \<Longrightarrow> b_seen plan p (h @ t) n"
  by (auto simp: b_seen_def)

lemma b_entry_closed_append: "b_entry_closed plan sha h \<Longrightarrow> b_entry_closed plan sha (h @ t)"
  unfolding b_entry_closed_def by (metis append.assoc b_seen_append)

section \<open>The statements keep the rule\<close>

text \<open>\<open>b_at\<close>: the rule kept so far, with this journal, these effects and lasting facts.\<close>

definition b_at :: "pyval \<Rightarrow> string \<Rightarrow> pyval list \<Rightarrow> bcall list \<Rightarrow> (bcall hist \<Rightarrow> bool) \<Rightarrow> bstate \<times> bcall hist \<Rightarrow> bool" where
  "b_at plan sha js es F \<tau> \<longleftrightarrow> keeps (b_rule plan sha) (snd \<tau>) \<and> b_journal (snd \<tau>) = js
     \<and> b_done (snd \<tau>) = es \<and> lasting F \<and> F (snd \<tau>)"

abbreviation b_kept :: "pyval \<Rightarrow> string \<Rightarrow> exc \<Rightarrow> bstate \<times> bcall hist \<Rightarrow> bool" where
  "b_kept plan sha e \<tau> \<equiv> keeps (b_rule plan sha) (snd \<tau>)"

lemma b_at_quiet:
  assumes "b_at plan sha js es F (s, h)" "\<not> b_effectful q" "b_row_of (q, r) = []"
  shows "b_at plan sha js es F (s', h @ [(q, r)])"
  using assms by (simp add: b_at_def lastingD)

lemma b_at_state: "b_at plan sha js es F (s, h) \<Longrightarrow> b_at plan sha js es F (s', h)"
  by (simp add: b_at_def)

lemma asks_tick: "asks {BNow} (b_tick plan sha \<beta>)"
  by (auto simp: b_tick_def b_authority_def b_clock_def intro!: asks_intros)

lemma wp_tick:
  assumes "b_at plan sha js es F \<tau>"
  shows "wp (b_tick plan sha \<beta>) (\<lambda>_. b_at plan sha js es F) (b_kept plan sha) \<tau>"
proof -
  obtain s h where \<tau>: "\<tau> = (s, h)" by (cases \<tau>)
  let ?P = "\<lambda>h. keeps (b_rule plan sha) h \<and> b_journal h = js \<and> b_done h = es \<and> lasting F \<and> F h"
  have "wp (b_tick plan sha \<beta>) (\<lambda>_ \<tau>. ?P (snd \<tau>)) (\<lambda>_ \<tau>. ?P (snd \<tau>)) (s, h)"
    by (rule wp_asks [OF asks_tick]) (use assms \<tau> in \<open>auto simp: b_at_def lastingD\<close>)
  then show ?thesis unfolding \<tau> by (rule wp_mono) (auto simp: b_at_def)
qed

lemma wp_authority:
  "b_at plan sha js es F \<tau> \<Longrightarrow>
     wp (b_authority plan sha) (\<lambda>_. b_at plan sha js es F) (b_kept plan sha) \<tau>"
  by (cases \<tau>) (simp add: b_authority_def wp_simps b_at_def)

lemma wp_persist:
  assumes "b_at plan sha js es F \<tau>"
  shows "wp (b_persist plan sha \<beta> kind i action r)
     (\<lambda>_. b_at plan sha (js @ [b_event plan sha kind i action r]) es F) (b_kept plan sha) \<tau>"
  unfolding b_persist_def
proof (rule wp_bndI [OF _ wp_tick])
  show "wp (call \<beta> (BPersist (b_event plan sha kind i action r)))
     (\<lambda>_. b_at plan sha (js @ [b_event plan sha kind i action r]) es F) (b_kept plan sha) \<tau>"
    using assms by (cases \<tau>) (auto simp: wp_simps b_at_def lastingD split: sum.splits)
qed

lemma wp_look:
  assumes "b_at plan sha js es F \<tau>"
  shows "wp (call \<beta> (BObserve n))
     (\<lambda>v. b_at plan sha js es (\<lambda>h. F h \<and> (BObserve n, Inr v) \<in> set h)) (b_kept plan sha) \<tau>"
  using assms by (cases \<tau>) (auto simp: wp_simps b_at_def lasting_def split: sum.splits)

lemma validate_observation_same: "validate_observation v plan n b = Inr w \<Longrightarrow> w = v"
  by (auto simp: validate_observation_def rbind_Inr)

lemma b_receipt_same: "b_receipt plan a v b = Inr w \<Longrightarrow> w = v"
  by (auto simp: b_receipt_def rbind_Inr split: if_splits dest: validate_observation_same)

lemma b_at_keeps: "b_at plan sha js es F \<tau> \<Longrightarrow> keeps (b_rule plan sha) (snd \<tau>)"
  by (simp add: b_at_def)

lemma lasting_seen: "lasting (\<lambda>h. b_seen plan p h n)"
  by (simp add: lasting_def b_seen_append)

lemma b_at_weaken:
  "b_at plan sha js es F \<tau> \<Longrightarrow> (\<And>h. F h \<Longrightarrow> G h) \<Longrightarrow> lasting G \<Longrightarrow> b_at plan sha js es G \<tau>"
  by (simp add: b_at_def)

lemma b_at_lasting: "b_at plan sha js es F \<tau> \<Longrightarrow> lasting F"
  by (simp add: b_at_def)

text \<open>A validated observation, after a call that read it.\<close>

lemma wp_validated:
  assumes "b_at plan sha js es F \<tau>"
    and "validate_observation v plan n final = Inr v \<Longrightarrow> wp (f v) Q (b_kept plan sha) \<tau>"
  shows "wp (bnd (lift (validate_observation v plan n final)) f) Q (b_kept plan sha) \<tau>"
  using assms
  by (auto simp: wp_simps split: sum.splits dest: b_at_keeps validate_observation_same)

lemma wp_preflight:
  assumes at: "b_at plan sha js es F \<tau>"
  shows "wp (b_preflight plan sha \<beta> n)
     (\<lambda>_. b_at plan sha js es (\<lambda>h. F h \<and> b_seen plan (\<lambda>_. True) h n)) (b_kept plan sha) \<tau>"
  unfolding b_preflight_def
proof (rule wp_blockI [OF wp_tick [OF at]], rule wp_blockI, rule wp_bndI [OF wp_look], assumption)
  fix v \<sigma>
  assume look: "b_at plan sha js es (\<lambda>h. F h \<and> (BObserve n, Inr v) \<in> set h) \<sigma>"
  show "wp (bnd (lift (validate_observation v plan n False)) (\<lambda>_. ret ()))
      (\<lambda>_. b_at plan sha js es (\<lambda>h. F h \<and> b_seen plan (\<lambda>_. True) h n)) (b_kept plan sha) \<sigma>"
  proof (rule wp_validated [OF look])
    assume ok: "validate_observation v plan n False = Inr v"
    have "b_at plan sha js es (\<lambda>h. F h \<and> b_seen plan (\<lambda>_. True) h n) \<sigma>"
    proof (rule b_at_weaken [OF look])
      show "lasting (\<lambda>h. F h \<and> b_seen plan (\<lambda>_. True) h n)"
        by (rule lasting_conj [OF b_at_lasting [OF at] lasting_seen])
    qed (use ok in \<open>auto simp: b_seen_def\<close>)
    then show "wp (ret ()) (\<lambda>_. b_at plan sha js es (\<lambda>h. F h \<and> b_seen plan (\<lambda>_. True) h n))
        (b_kept plan sha) \<sigma>" by (simp add: wp_simps)
  qed
next
  fix \<sigma>
  assume "b_at plan sha js es (\<lambda>h. F h \<and> b_seen plan (\<lambda>_. True) h n) \<sigma>"
  then show "wp (block [] (b_tick plan sha \<beta>))
      (\<lambda>_. b_at plan sha js es (\<lambda>h. F h \<and> b_seen plan (\<lambda>_. True) h n)) (b_kept plan sha) \<sigma>"
    by (simp add: wp_tick)
qed

text \<open>The nodes found masked after the fourth completion.\<close>

definition b_closed_for :: "pyval \<Rightarrow> string \<Rightarrow> string list \<Rightarrow> (bcall hist \<Rightarrow> bool) \<Rightarrow> bcall hist \<Rightarrow> bool" where
  "b_closed_for plan sha ns G h \<longleftrightarrow>
     (\<exists>h1 h2. h = h1 @ h2 \<and> b_completed plan sha 4 (b_journal h1)
        \<and> (\<forall>n \<in> set ns. b_seen plan b_masked h2 n) \<and> G h2)"

lemma lasting_closed_for: "lasting G \<Longrightarrow> lasting (b_closed_for plan sha ns G)"
  unfolding lasting_def b_closed_for_def by (metis append.assoc b_seen_append)

lemma b_closed_for_all:
  "b_closed_for plan sha (barrier_names plan) (\<lambda>_. True) h \<longleftrightarrow> b_entry_closed plan sha h"
  by (simp add: b_closed_for_def b_entry_closed_def)

lemma wp_closed_look:
  assumes "b_at plan sha js es (\<lambda>h. F h \<and> b_closed_for plan sha ns (\<lambda>_. True) h) \<tau>" "lasting F"
  shows "wp (call \<beta> (BObserve n))
     (\<lambda>v. b_at plan sha js es (\<lambda>h. F h \<and> b_closed_for plan sha ns (\<lambda>h. (BObserve n, Inr v) \<in> set h) h))
     (b_kept plan sha) \<tau>"
proof -
  obtain s h where \<tau>: "\<tau> = (s, h)" by (cases \<tau>)
  have "b_closed_for plan sha ns (\<lambda>h. (BObserve n, Inr v) \<in> set h) (h @ [(BObserve n, Inr v)])" for v
  proof -
    from assms(1) \<tau> obtain h1 h2 where h: "h = h1 @ h2" "b_completed plan sha 4 (b_journal h1)"
      "\<forall>n \<in> set ns. b_seen plan b_masked h2 n"
      by (auto simp: b_at_def b_closed_for_def)
    show ?thesis unfolding b_closed_for_def
      by (rule exI [of _ h1], rule exI [of _ "h2 @ [(BObserve n, Inr v)]"]) (use h in \<open>auto intro: b_seen_append\<close>)
  qed
  then show ?thesis using assms \<tau>
    by (auto simp: wp_simps b_at_def lastingD lasting_conj lasting_closed_for lasting_mem split: sum.splits)
qed

lemma wp_entry_terminal:
  assumes at: "b_at plan sha js es (\<lambda>h. F h \<and> b_closed_for plan sha ns (\<lambda>_. True) h) \<tau>" and F: "lasting F"
  shows "wp (b_entry_terminal plan sha \<beta> n)
     (\<lambda>_. b_at plan sha js es (\<lambda>h. F h \<and> b_closed_for plan sha (ns @ [n]) (\<lambda>_. True) h)) (b_kept plan sha) \<tau>"
  unfolding b_entry_terminal_def
proof (rule wp_bndI [OF wp_closed_look [OF at F]])
  fix v \<sigma>
  assume look: "b_at plan sha js es (\<lambda>h. F h \<and> b_closed_for plan sha ns (\<lambda>h. (BObserve n, Inr v) \<in> set h) h) \<sigma>"
  let ?R = "b_at plan sha js es (\<lambda>h. F h \<and> b_closed_for plan sha (ns @ [n]) (\<lambda>_. True) h)"
  show "wp (bnd (lift (validate_observation v plan n False)) (\<lambda>w.
      andthen (demand (b_masked w) ''entry barrier is not terminal on every node'') (b_tick plan sha \<beta>)))
      (\<lambda>_. ?R) (b_kept plan sha) \<sigma>"
  proof (rule wp_validated [OF look])
    assume ok: "validate_observation v plan n False = Inr v"
    have "?R \<sigma>" if "b_masked v"
    proof (rule b_at_weaken [OF look])
      fix h
      assume "F h \<and> b_closed_for plan sha ns (\<lambda>h. (BObserve n, Inr v) \<in> set h) h"
      then show "F h \<and> b_closed_for plan sha (ns @ [n]) (\<lambda>_. True) h"
        using ok that by (force simp: b_closed_for_def b_seen_def)
    qed (simp add: F lasting_conj lasting_closed_for lasting_True)
    with wp_tick [of plan sha js es _ \<sigma> \<beta>] b_at_keeps [OF look]
    show "wp (andthen (demand (b_masked v) ''entry barrier is not terminal on every node'') (b_tick plan sha \<beta>))
      (\<lambda>_. ?R) (b_kept plan sha) \<sigma>" by (simp add: wp_simps)
  qed
qed

section \<open>The loop over the actions\<close>

definition b_base :: "pyval \<Rightarrow> bcall hist \<Rightarrow> bool" where
  "b_base plan h \<longleftrightarrow> (BLoad (fld plan ''tx''), Inr (PList [])) \<in> set h
     \<and> (\<forall>n \<in> set (barrier_names plan). b_seen plan (\<lambda>_. True) h n)"

definition b_facts :: "pyval \<Rightarrow> string \<Rightarrow> bool \<Rightarrow> bcall hist \<Rightarrow> bool" where
  "b_facts plan sha c h \<longleftrightarrow> b_base plan h \<and> (c \<longrightarrow> b_entry_closed plan sha h)"

definition b_effects_at :: "pyval \<Rightarrow> nat \<Rightarrow> bcall list" where
  "b_effects_at plan k = map (b_effect_at plan) [0..<min k 8]"

definition b_core :: "pyval \<Rightarrow> string \<Rightarrow> nat \<Rightarrow> bstate \<times> bcall hist \<Rightarrow> bool" where
  "b_core plan sha k \<tau> \<longleftrightarrow>
     (\<exists>js. b_completed plan sha k js
        \<and> b_at plan sha js (b_effects_at plan k) (b_facts plan sha (4 < k)) \<tau>)"

lemma lasting_base: "lasting (b_base plan)"
  by (auto simp: lasting_def b_base_def b_seen_append)

lemma lasting_facts: "lasting (b_facts plan sha c)"
  using lasting_base by (auto simp: lasting_def b_facts_def b_entry_closed_append)

lemma b_effects_Suc:
  "b_effects_at plan (Suc k) = b_effects_at plan k @ (if k < 8 then [b_effect_at plan k] else [])"
  by (simp add: b_effects_at_def min_def)

text \<open>Before the fifth action, every node is found closed; for the others nothing changes.\<close>

lemma wp_gate:
  fixes k :: nat
  assumes at: "b_at plan sha js es (b_facts plan sha (4 < k)) \<tau>" and js: "k = 4 \<Longrightarrow> b_completed plan sha 4 js"
  shows "wp (if k = 4 then foreach (b_entry_terminal plan sha \<beta>) (barrier_names plan) else ret ())
     (\<lambda>_. b_at plan sha js es (b_facts plan sha (4 \<le> k))) (b_kept plan sha) \<tau>"
proof (cases "k = 4")
  case False
  then have "(4 \<le> k) = (4 < k)" by auto
  with False at show ?thesis by (simp add: wp_simps)
next
  case True
  let ?I = "\<lambda>ns. b_at plan sha js es (\<lambda>h. b_base plan h \<and> b_closed_for plan sha ns (\<lambda>_. True) h)"
  have "wp (foreach (b_entry_terminal plan sha \<beta>) (barrier_names plan)) (\<lambda>_. ?I (barrier_names plan))
      (b_kept plan sha) \<tau>"
  proof (rule wp_foreach)
    have "b_closed_for plan sha [] (\<lambda>_. True) (snd \<tau>)"
    proof -
      have "b_completed plan sha 4 (b_journal (snd \<tau>))" using js True at by (simp add: b_at_def)
      then show ?thesis unfolding b_closed_for_def
        by (intro exI [of _ "snd \<tau>"] exI [of _ "[]"]) simp
    qed
    with at True show "?I [] \<tau>"
      by (simp add: b_at_def b_facts_def lasting_conj lasting_base lasting_closed_for lasting_True)
  next
    fix ns n rest \<sigma>
    assume "?I ns \<sigma>"
    from wp_entry_terminal [OF this lasting_base]
    show "wp (b_entry_terminal plan sha \<beta> n) (\<lambda>_. ?I (ns @ [n])) (b_kept plan sha) \<sigma>" .
  qed
  then show ?thesis
    using True by (simp add: b_closed_for_all b_facts_def [abs_def])
qed

text \<open>The effect of an action is allowed by the rule at the point where it is asked for.\<close>

definition b_attempt :: "pyval \<Rightarrow> string \<Rightarrow> nat \<Rightarrow> pyval list" where
  "b_attempt plan sha k = [b_event plan sha ''INTENT_DURABLE'' k (b_actions plan ! k) None,
                          b_event plan sha ''ATTEMPTED'' k (b_actions plan ! k) None]"

lemma b_rule_effect:
  assumes "k < 8" "b_completed plan sha k js"
    "b_at plan sha (js @ b_attempt plan sha k) (b_effects_at plan k) (b_facts plan sha (4 \<le> k)) (s, h)"
  shows "b_rule plan sha h (b_effect_at plan k)"
  using assms by (auto simp: b_rule_def b_at_def b_attempt_def b_facts_def b_base_def b_effects_at_def min_def)

lemma b_effect_at_simps [simp]: "b_effectful (b_effect_at plan k)" "b_row_of (b_effect_at plan k, r) = []"
  by (cases r; simp add: b_effect_at_def)+

lemma wp_effect_call:
  assumes "k < 8" "b_completed plan sha k js"
    "b_at plan sha (js @ b_attempt plan sha k) (b_effects_at plan k) (b_facts plan sha (4 \<le> k)) \<tau>"
  shows "wp (call \<beta> (b_effect_at plan k))
     (\<lambda>_. b_at plan sha (js @ b_attempt plan sha k) (b_effects_at plan (Suc k)) (b_facts plan sha (4 \<le> k)))
     (b_kept plan sha) \<tau>"
  using assms b_rule_effect [OF assms(1,2)]
  by (cases \<tau>) (auto simp: wp_simps b_at_def b_effects_Suc lastingD split: sum.splits)

lemma wp_effect:
  assumes valid: "validate_plan plan now = Inr p" and k: "k < 12" and js: "b_completed plan sha k js"
    and at: "b_at plan sha (js @ b_attempt plan sha k) (b_effects_at plan k) (b_facts plan sha (4 \<le> k)) \<tau>"
  shows "wp (b_effect plan \<beta> (b_actions plan ! k))
     (\<lambda>_. b_at plan sha (js @ b_attempt plan sha k) (b_effects_at plan (Suc k)) (b_facts plan sha (4 \<le> k)))
     (b_kept plan sha) \<tau>"
proof -
  let ?a = "b_actions plan ! k"
  let ?R = "b_at plan sha (js @ b_attempt plan sha k) (b_effects_at plan (Suc k)) (b_facts plan sha (4 \<le> k))"
  have act: "fld ?a ''step'' = PStr (b_step_name k)" "fld ?a ''node'' = PStr (b_node plan k)"
    using valid_plan(5) [OF valid k] by auto
  consider "k < 4" | "4 \<le> k" "k < 8" | "8 \<le> k" by linarith
  then show ?thesis
  proof cases
    case 1
    then have "b_effect plan \<beta> ?a = call \<beta> (b_effect_at plan k)"
      using act k by (simp add: b_effect_def b_step_name_cases b_effect_at_def)
    then show ?thesis using wp_effect_call [OF _ js at] 1 by simp
  next
    case 2
    then have eff: "b_effect plan \<beta> ?a = bnd (call \<beta> (b_effect_at plan k)) (\<lambda>receipt.
        bnd (lift (b_receipt plan ?a receipt False)) (\<lambda>w. block
         [demand (holds_units entry_units (fld w ''persistent_masks'')) ''drain observation lost persistent masks'',
          demand (no_unit forbidden_stops (fld w ''stopped_services'')) ''drain stopped a forbidden service'']
         (ret receipt)))"
      using act k by (simp add: b_effect_def b_step_name_cases b_effect_at_def)
    show ?thesis unfolding eff
      by (rule wp_bndI [OF wp_effect_call [OF 2(2) js at]]) (auto simp: wp_simps b_at_keeps split: sum.splits)
  next
    case 3
    then have eff: "b_effect plan \<beta> ?a = call \<beta> (BObserve (b_node plan k))"
      using act k by (simp add: b_effect_def b_step_name_cases)
    have "b_effects_at plan (Suc k) = b_effects_at plan k" using 3 by (simp add: b_effects_Suc)
    with at show ?thesis unfolding eff
      by (cases \<tau>) (auto simp: wp_simps b_at_quiet b_at_keeps b_at_def lastingD split: sum.splits)
  qed
qed

lemma wp_step:
  assumes valid: "validate_plan plan now = Inr p" and k: "k < 12" and core: "b_core plan sha k \<tau>"
  shows "wp (b_step plan sha \<beta> k) (\<lambda>_. b_core plan sha (Suc k)) (b_kept plan sha) \<tau>"
proof -
  let ?a = "b_actions plan ! k" and ?F = "b_facts plan sha (4 \<le> k)" and ?es = "b_effects_at plan k"
  from core obtain js where js: "b_completed plan sha k js"
    and at: "b_at plan sha js ?es (b_facts plan sha (4 < k)) \<tau>" by (auto simp: b_core_def)
  let ?R = "b_at plan sha (js @ b_attempt plan sha k)"
  have tail: "wp (bnd (b_effect plan \<beta> ?a) (\<lambda>receipt.
        bnd (lift (b_receipt plan ?a receipt (b_final ?a))) (\<lambda>w.
        andthen (b_tick plan sha \<beta>) (b_persist plan sha \<beta> ''OBSERVED_COMPLETE'' k ?a (Some w)))))
      (\<lambda>_. b_core plan sha (Suc k)) (b_kept plan sha) \<upsilon>" if "?R ?es ?F \<upsilon>" for \<upsilon>
  proof (rule wp_bndI [OF wp_effect [OF valid k js that]])
    fix v \<sigma>
    assume \<sigma>: "?R (b_effects_at plan (Suc k)) ?F \<sigma>"
    show "wp (bnd (lift (b_receipt plan ?a v (b_final ?a))) (\<lambda>w. andthen (b_tick plan sha \<beta>)
        (b_persist plan sha \<beta> ''OBSERVED_COMPLETE'' k ?a (Some w))))
      (\<lambda>_. b_core plan sha (Suc k)) (b_kept plan sha) \<sigma>"
    proof (cases "b_receipt plan ?a v (b_final ?a)")
      case (Inl e)
      then show ?thesis using \<sigma> by (simp add: wp_simps b_at_keeps)
    next
      case (Inr w)
      then have w: "w = v" "b_receipt_ok plan k v" by (auto simp: b_receipt_ok_def dest: b_receipt_same)
      have "wp (andthen (b_tick plan sha \<beta>) (b_persist plan sha \<beta> ''OBSERVED_COMPLETE'' k ?a (Some v)))
        (\<lambda>_. b_at plan sha ((js @ b_attempt plan sha k)
            @ [b_event plan sha ''OBSERVED_COMPLETE'' k ?a (Some v)]) (b_effects_at plan (Suc k)) ?F)
        (b_kept plan sha) \<sigma>"
        by (rule wp_andthenI [OF wp_tick [OF \<sigma>] wp_persist])
      then have "wp (andthen (b_tick plan sha \<beta>) (b_persist plan sha \<beta> ''OBSERVED_COMPLETE'' k ?a (Some v)))
        (\<lambda>_. b_core plan sha (Suc k)) (b_kept plan sha) \<sigma>"
      proof (rule wp_mono)
        fix \<tau>
        assume *: "b_at plan sha ((js @ b_attempt plan sha k)
            @ [b_event plan sha ''OBSERVED_COMPLETE'' k ?a (Some v)]) (b_effects_at plan (Suc k)) ?F \<tau>"
        have "(4 \<le> k) = (4 < Suc k)" by auto
        with * js w show "b_core plan sha (Suc k) \<tau>"
          unfolding b_core_def by (fastforce simp: b_attempt_def)
      qed simp
      with Inr w show ?thesis by (simp add: wp_bnd wp_lift)
    qed
  qed
  show ?thesis unfolding b_step_def Let_def
    apply (rule wp_blockI [OF wp_gate [OF at]])
    using js apply simp
    apply (rule wp_blockI [OF wp_tick], assumption)
    apply (rule wp_blockI [OF wp_persist], assumption)
    apply (rule wp_blockI [OF wp_persist], assumption)
    apply (rule wp_blockI [OF wp_tick], assumption)
    apply (simp add: tail b_attempt_def)
    done
qed

section \<open>The whole run\<close>

lemma wp_effects_loop:
  assumes valid: "validate_plan plan now = Inr p"
    and at: "b_at plan sha [] [] (\<lambda>h. (BLoad (fld plan ''tx''), Inr (PList [])) \<in> set h) \<tau>"
  shows "wp (b_effects_loop plan sha \<beta> 0) (\<lambda>v \<tau>. v = b_report ''MODEL_HELD'' \<and> b_core plan sha 12 \<tau>)
     (b_kept plan sha) \<tau>"
  unfolding b_effects_loop_def valid_plan(4) [OF valid]
proof (rule wp_blockI)
  let ?I = "\<lambda>ns. b_at plan sha [] [] (\<lambda>h. (BLoad (fld plan ''tx''), Inr (PList [])) \<in> set h
      \<and> (\<forall>n \<in> set ns. b_seen plan (\<lambda>_. True) h n))"
  show "wp (foreach (b_preflight plan sha \<beta>) (barrier_names plan)) (\<lambda>_. ?I (barrier_names plan)) (b_kept plan sha) \<tau>"
  proof (rule wp_foreach)
    show "?I [] \<tau>" using at by simp
  next
    fix ns n rest \<sigma>
    assume "?I ns \<sigma>"
    from wp_preflight [OF this]
    show "wp (b_preflight plan sha \<beta> n) (\<lambda>_. ?I (ns @ [n])) (b_kept plan sha) \<sigma>"
      by (rule wp_mono) (auto simp: b_at_def lasting_def b_seen_append)
  qed
next
  fix \<sigma>
  assume "b_at plan sha [] [] (\<lambda>h. (BLoad (fld plan ''tx''), Inr (PList [])) \<in> set h
      \<and> (\<forall>n \<in> set (barrier_names plan). b_seen plan (\<lambda>_. True) h n)) \<sigma>"
  then have core: "b_core plan sha 0 \<sigma>"
    by (auto simp: b_core_def b_at_def b_effects_at_def b_facts_def b_base_def lasting_facts)
  have loop: "wp (foreach (b_step plan sha \<beta>) [0..<12]) (\<lambda>_. b_core plan sha (length [0..<12])) (b_kept plan sha) \<sigma>"
  proof (rule wp_foreach [where I = "\<lambda>ys. b_core plan sha (length ys)"])
    fix ys i zs \<upsilon>
    assume *: "[0..<12::nat] = ys @ i # zs" "b_core plan sha (length ys) \<upsilon>"
    then have "i = length ys" "i < 12" using upt_split [OF *(1)] by auto
    with wp_step [OF valid] * show "wp (b_step plan sha \<beta> i) (\<lambda>_. b_core plan sha (length (ys @ [i]))) (b_kept plan sha) \<upsilon>"
      by simp
  qed (use core in simp)
  have fin: "wp (block [b_tick plan sha \<beta>, b_authority plan sha] (ret (b_report ''MODEL_HELD'')))
      (\<lambda>v \<tau>. v = b_report ''MODEL_HELD'' \<and> b_core plan sha 12 \<tau>) (b_kept plan sha) \<upsilon>"
    if c: "b_core plan sha 12 \<upsilon>" for \<upsilon>
  proof -
    from c obtain js where js: "b_completed plan sha 12 js"
      "b_at plan sha js (b_effects_at plan 12) (b_facts plan sha (4 < (12::nat))) \<upsilon>" by (auto simp: b_core_def)
    show ?thesis
      apply (rule wp_blockI [OF wp_tick [OF js(2)]])
      apply (rule wp_blockI [OF wp_authority], assumption)
      using js(1) by (auto simp: wp_simps b_core_def)
  qed
  show "wp (block [foreach (b_step plan sha \<beta>) [0..<12], b_tick plan sha \<beta>, b_authority plan sha]
      (ret (b_report ''MODEL_HELD''))) (\<lambda>v \<tau>. v = b_report ''MODEL_HELD'' \<and> b_core plan sha 12 \<tau>)
      (b_kept plan sha) \<sigma>"
    by (rule wp_blockI [OF loop]) (simp add: fin del: block.simps upt_conv_Nil)
qed

lemma wp_body:
  assumes valid: "validate_plan plan now = Inr p"
  shows "wp (b_body plan sha \<beta>)
     (\<lambda>v \<tau>. (v = b_report ''MODEL_HELD'' \<and> b_core plan sha 12 \<tau>)
        \<or> (v = b_report ''MODEL_COMPLETED_HISTORICAL'' \<and> b_at plan sha [] [] (\<lambda>_. True) \<tau>))
     (b_kept plan sha) (s, [])"
  unfolding b_body_def
proof (rule wp_andthenI [OF wp_tick [of _ _ "[]" "[]" "\<lambda>_. True"]])
  show "b_at plan sha [] [] (\<lambda>_. True) (s, [])" by (simp add: b_at_def lasting_True)
next
  let ?R = "b_at plan sha [] [] (\<lambda>_. True)" and ?tx = "fld plan ''tx''"
  let ?L = "\<lambda>v. b_at plan sha [] [] (\<lambda>h. (BLoad ?tx, Inr v) \<in> set h)"
  let ?Q = "\<lambda>v \<tau>. (v = b_report ''MODEL_HELD'' \<and> b_core plan sha 12 \<tau>)
        \<or> (v = b_report ''MODEL_COMPLETED_HISTORICAL'' \<and> ?R \<tau>)"
  fix \<tau>
  assume \<tau>: "?R \<tau>"
  have load: "wp (call \<beta> (BLoad ?tx)) ?L (b_kept plan sha) \<tau>"
    using \<tau> by (cases \<tau>) (auto simp: wp_simps b_at_def lasting_mem split: sum.splits)
  show "wp (bnd (call \<beta> (BLoad ?tx)) (\<lambda>history. andthen (b_tick plan sha \<beta>)
        (bnd (lift (b_history plan sha history)) (\<lambda>(completed, missing_kind).
         if missing_kind \<notin> {None, Some ''INTENT_DURABLE''}
         then raise (Refusal ''pending action requires recovery'')
         else if completed = length (b_actions plan) then ret (b_report ''MODEL_COMPLETED_HISTORICAL'')
         else andthen (demand (completed = 0 \<and> list_of history = [])
                ''partial completed history requires explicit recovery'')
                (b_effects_loop plan sha \<beta> completed))))) ?Q (b_kept plan sha) \<tau>"
  proof (rule wp_bndI [OF load], rule wp_andthenI [OF wp_tick], assumption)
    fix v \<sigma>
    assume \<sigma>: "?L v \<sigma>"
    then have R: "?R \<sigma>" by (simp add: b_at_def lasting_True)
    have E: "b_kept plan sha e \<sigma>" for e using \<sigma> by (rule b_at_keeps)
    have run: "wp (b_effects_loop plan sha \<beta> 0) ?Q (b_kept plan sha) \<sigma>"
      if "list_of v = []" "is_list v"
    proof -
      from that have "v = PList []" by (cases v) auto
      with \<sigma> wp_effects_loop [OF valid, of sha \<sigma> \<beta>] show ?thesis by (auto intro: wp_mono)
    qed
    show "wp (bnd (lift (b_history plan sha v)) (\<lambda>(completed, missing_kind).
         if missing_kind \<notin> {None, Some ''INTENT_DURABLE''}
         then raise (Refusal ''pending action requires recovery'')
         else if completed = length (b_actions plan) then ret (b_report ''MODEL_COMPLETED_HISTORICAL'')
         else andthen (demand (completed = 0 \<and> list_of v = [])
                ''partial completed history requires explicit recovery'')
                (b_effects_loop plan sha \<beta> completed))) ?Q (b_kept plan sha) \<sigma>"
    proof (cases "b_history plan sha v")
      case (Inl e)
      then show ?thesis using E by (simp add: wp_simps)
    next
      case (Inr cm)
      then have "is_list v" by (auto simp: b_history_def rbind_Inr check_simps)
      then show ?thesis using Inr run R E by (cases cm) (auto simp: wp_simps)
    qed
  qed
qed

lemma body_poison: "preserves (\<lambda>\<tau>. bc_poisoned (fst \<tau>) = p) (b_body plan sha \<beta>)"
  unfolding b_body_def b_effects_loop_def b_preflight_def b_step_def b_effect_def b_entry_terminal_def
    b_persist_def b_tick_def b_authority_def b_clock_def Let_def block.simps
  by (intro preserves_intros preserves_call preserves_writes allI impI) simp_all

lemma run_flags:
  "wp (b_run plan sha \<beta>) (\<lambda>_ \<tau>. \<not> bc_running (fst \<tau>) \<and> \<not> bc_poisoned (fst \<tau>))
     (\<lambda>e \<tau>. \<not> bc_running (fst \<tau>) \<and> bc_poisoned (fst \<tau>) = is_exception e) (b_init now, [])"
  unfolding b_run_def
  apply (simp add: wp_bnd wp_reads b_init_def wp_andthen wp_demand wp_writes wp_at_end wp_on_exception case_prod_unfold)
  by (rule wp_mono [OF preservesD [OF body_poison [of False]]]) simp_all

lemma wp_run:
  assumes valid: "validate_plan plan now = Inr p"
  shows "wp (b_run plan sha \<beta>)
     (\<lambda>v \<tau>. (v = b_report ''MODEL_HELD'' \<and> b_core plan sha 12 \<tau>)
        \<or> (v = b_report ''MODEL_COMPLETED_HISTORICAL'' \<and> b_at plan sha [] [] (\<lambda>_. True) \<tau>))
     (\<lambda>e \<tau>. b_kept plan sha e \<tau> ) (b_init now, [])"
proof -
  have state: "b_core plan sha k (s\<lparr>bc_running := r\<rparr>, h) = b_core plan sha k (s, h)" for k s r h
    by (simp add: b_core_def b_at_def)
  show ?thesis
    unfolding b_run_def
    apply (simp add: wp_bnd wp_reads b_init_def wp_andthen wp_demand wp_writes wp_at_end wp_on_exception)
    apply (rule wp_mono [OF wp_body [OF valid, of sha \<beta>]])
    by (auto simp: b_at_def state)
qed

section \<open>Reading a journal back\<close>

lemma b_scan_match:
  "list_all2 (\<lambda>(i, kind) row. b_row_check plan sha i kind row = Inr ()) due rows \<Longrightarrow>
     b_scan plan sha (due @ due') (rows @ rows') = b_scan plan sha due' rows'"
  by (induction due rows rule: list_all2_induct) auto

lemma b_event_row:
  "b_row_check plan sha i ''INTENT_DURABLE'' (b_event plan sha ''INTENT_DURABLE'' i (b_actions plan ! i) None) = Inr ()"
  "b_row_check plan sha i ''ATTEMPTED'' (b_event plan sha ''ATTEMPTED'' i (b_actions plan ! i) None) = Inr ()"
  "b_receipt_ok plan i r \<Longrightarrow> b_row_check plan sha i ''OBSERVED_COMPLETE''
     (b_event plan sha ''OBSERVED_COMPLETE'' i (b_actions plan ! i) (Some r)) = Inr ()"
  by (auto simp: b_row_check_def b_event_def Let_def checks_need checks.simps b_receipt_ok_def)

lemma b_completed_match:
  "b_completed plan sha k js \<Longrightarrow>
     list_all2 (\<lambda>(i, kind) row. b_row_check plan sha i kind row = Inr ())
       (concat (map (\<lambda>i. map (Pair i) b_kinds) [0..<k])) js"
proof (induction k arbitrary: js)
  case 0
  then show ?case by simp
next
  case (Suc k)
  then obtain pre r where "b_completed plan sha k pre" "b_receipt_ok plan k r"
    "js = pre @ [b_event plan sha ''INTENT_DURABLE'' k (b_actions plan ! k) None,
                 b_event plan sha ''ATTEMPTED'' k (b_actions plan ! k) None,
                 b_event plan sha ''OBSERVED_COMPLETE'' k (b_actions plan ! k) (Some r)]" by auto
  with Suc.IH show ?case by (auto simp: b_kinds_def b_event_row intro: list_all2_appendI)
qed

lemma b_history_completed:
  assumes "b_completed plan sha (length (b_actions plan)) js"
  shows "b_history plan sha (PList js) = Inr (length (b_actions plan), None)"
  using b_scan_match [OF b_completed_match [OF assms], of "[]" "[]"]
  by (simp add: b_history_def b_due_def checks_need checks.simps)

section \<open>A cooperative backend\<close>

text \<open>
  A backend that does its part, for any course of the run. The clock may move forward by any
  amount between two readings as long as it stays before the deadline. An observation before the
  first effect only has to be valid, as a live node's is: nothing masked, nothing stopped,
  HA merely idle. Once all four entry blocks are in place the observations show them, and once all
  four drains are done they pass the final audit. A drain is answered only after the entry blocks.
\<close>

text \<open>The last acknowledged reading of the clock\<close>

fun b_reading :: "bcall \<times> pyres \<Rightarrow> int \<Rightarrow> int" where
  "b_reading (BNow, Inr v) t = int_of v"
| "b_reading _ t = t"

definition b_watermark :: "int \<Rightarrow> bcall hist \<Rightarrow> int" where
  "b_watermark now h = fold b_reading h now"

definition b_clock_within :: "pyval \<Rightarrow> int \<Rightarrow> bcall backend \<Rightarrow> bool" where
  "b_clock_within plan now \<beta> \<longleftrightarrow>
     (\<forall>h. b_watermark now h \<le> int_of (fld plan ''deadline'') \<longrightarrow>
        (\<exists>t. \<beta> h BNow = Inr (PInt t) \<and> b_watermark now h \<le> t \<and> t \<le> int_of (fld plan ''deadline'')))"

text \<open>What an observation of node \<open>n\<close> shows after \<open>k\<close> effects\<close>

definition b_view :: "pyval \<Rightarrow> nat \<Rightarrow> string \<Rightarrow> pyval \<Rightarrow> bool" where
  "b_view plan k n v \<longleftrightarrow> validate_observation v plan n False = Inr v
     \<and> (4 \<le> k \<longrightarrow> b_masked v) \<and> (8 \<le> k \<longrightarrow> validate_observation v plan n True = Inr v)"

text \<open>The receipt of a drain: valid, the entry masks still there, nothing forbidden stopped\<close>

definition b_drained :: "pyval \<Rightarrow> string \<Rightarrow> pyval \<Rightarrow> bool" where
  "b_drained plan n v \<longleftrightarrow> validate_observation v plan n False = Inr v
     \<and> holds_units entry_units (fld v ''persistent_masks'') \<and> no_unit forbidden_stops (fld v ''stopped_services'')"

definition b_cooperative :: "pyval \<Rightarrow> int \<Rightarrow> bcall backend \<Rightarrow> bool" where
  "b_cooperative plan now \<beta> \<longleftrightarrow>
     b_clock_within plan now \<beta>
     \<and> (\<forall>h. b_journal h = [] \<longrightarrow> \<beta> h (BLoad (fld plan ''tx'')) = Inr (PList []))
     \<and> (\<forall>h ev. \<exists>v. \<beta> h (BPersist ev) = Inr v)
     \<and> (\<forall>h. \<forall>n \<in> set (barrier_names plan).
          (\<exists>v. \<beta> h (BMask n entry_units) = Inr v \<and> is_dict v \<and> pyeq v b_entry_receipt)
        \<and> (\<exists>v. \<beta> h (BObserve n) = Inr v \<and> b_view plan (length (b_done h)) n v)
        \<and> (4 \<le> length (b_done h) \<longrightarrow> (\<exists>v. \<beta> h (BDrain n) = Inr v \<and> b_drained plan n v)))"

text \<open>
  The state in which no statement fails: not poisoned, the clock where the last reading left it
  and before the deadline, \<open>k\<close> effects done.
\<close>

definition b_live :: "pyval \<Rightarrow> int \<Rightarrow> nat \<Rightarrow> bstate \<times> bcall hist \<Rightarrow> bool" where
  "b_live plan now k \<tau> \<longleftrightarrow> \<not> bc_poisoned (fst \<tau>) \<and> bc_last_clock (fst \<tau>) = b_watermark now (snd \<tau>)
     \<and> b_watermark now (snd \<tau>) \<le> int_of (fld plan ''deadline'') \<and> length (b_done (snd \<tau>)) = k"

abbreviation never :: "exc \<Rightarrow> bstate \<times> bcall hist \<Rightarrow> bool" where
  "never e \<tau> \<equiv> False"

lemma b_watermark_snoc [simp]: "b_watermark now (h @ [qr]) = b_reading qr (b_watermark now h)"
  by (simp add: b_watermark_def)

lemma b_reading_other: "q \<noteq> BNow \<Longrightarrow> b_reading (q, r) t = t"
  by (cases q; cases r) simp_all

lemma live_tick:
  assumes clock: "b_clock_within plan now \<beta>" and live: "b_live plan now k \<tau>" and js: "b_journal (snd \<tau>) = js"
  shows "wp (b_tick plan (digest plan) \<beta>) (\<lambda>_ \<sigma>. b_live plan now k \<sigma> \<and> b_journal (snd \<sigma>) = js) never \<tau>"
proof (cases \<tau>)
  case (Pair s h)
  from clock live obtain t where "\<beta> h BNow = Inr (PInt t)" "b_watermark now h \<le> t" "t \<le> int_of (fld plan ''deadline'')"
    unfolding b_clock_within_def b_live_def Pair by auto
  then show ?thesis using live js Pair
    by (simp add: b_tick_def b_authority_def b_clock_def wp_simps b_live_def)
qed

lemma live_tick': "b_clock_within plan now \<beta> \<Longrightarrow> b_live plan now k \<tau> \<Longrightarrow>
    wp (b_tick plan (digest plan) \<beta>) (\<lambda>_. b_live plan now k) never \<tau>"
  by (rule wp_mono [OF live_tick [OF _ _ refl]]) (assumption, assumption, erule conjunct1, assumption)

lemma live_authority:
  "b_live plan now k \<tau> \<Longrightarrow> wp (b_authority plan (digest plan)) (\<lambda>_. b_live plan now k) never \<tau>"
  by (cases \<tau>) (simp add: b_authority_def wp_simps b_live_def)

text \<open>A call other than a reading of the clock counts as an effect or changes nothing.\<close>

lemma live_call:
  assumes "b_live plan now k \<tau>" "\<exists>v. \<beta> (snd \<tau>) q = Inr v \<and> P v" "q \<noteq> BNow"
  shows "wp (call \<beta> q) (\<lambda>v \<sigma>. P v \<and> b_live plan now (if b_effectful q then Suc k else k) \<sigma>) never \<tau>"
proof (cases \<tau>)
  case (Pair s h)
  obtain v where "\<beta> h q = Inr v" "P v" using assms(2) Pair by auto
  with assms(1,3) Pair show ?thesis by (simp add: wp_simps b_live_def b_reading_other)
qed

lemma b_node_mem:
  assumes "validate_plan plan now = Inr p"
  shows "b_node plan i \<in> set (barrier_names plan)"
  using valid_plan(2) [OF assms] by (simp add: b_node_def)

lemma coop_persist:
  assumes "b_cooperative plan now \<beta>" "b_live plan now k \<tau>"
  shows "wp (b_persist plan (digest plan) \<beta> kind i a r) (\<lambda>_. b_live plan now k) never \<tau>"
  unfolding b_persist_def
proof (rule wp_bndI)
  show "wp (call \<beta> (BPersist (b_event plan (digest plan) kind i a r))) (\<lambda>_. b_live plan now k) never \<tau>"
    using live_call [OF assms(2), of \<beta> "BPersist (b_event plan (digest plan) kind i a r)" "\<lambda>_. True"] assms(1)
    by (simp add: b_cooperative_def)
qed (use assms(1) in \<open>simp add: live_tick' b_cooperative_def\<close>)

lemma coop_clock: "b_cooperative plan now \<beta> \<Longrightarrow> b_clock_within plan now \<beta>"
  by (simp add: b_cooperative_def)

lemmas coop_tick = live_tick' [OF coop_clock]

lemma coop_look:
  assumes "b_cooperative plan now \<beta>" "b_live plan now k \<tau>" "n \<in> set (barrier_names plan)"
  shows "wp (call \<beta> (BObserve n)) (\<lambda>v \<sigma>. b_view plan k n v \<and> b_live plan now k \<sigma>) never \<tau>"
proof -
  from assms have "\<exists>v. \<beta> (snd \<tau>) (BObserve n) = Inr v \<and> b_view plan k n v"
    by (auto simp: b_cooperative_def b_live_def)
  from live_call [where \<beta> = \<beta> and P = "b_view plan k n", OF assms(2) this] show ?thesis by simp
qed

lemma coop_preflight:
  assumes coop: "b_cooperative plan now \<beta>" and "b_live plan now k \<tau>" "n \<in> set (barrier_names plan)"
  shows "wp (b_preflight plan (digest plan) \<beta> n) (\<lambda>_. b_live plan now k) never \<tau>"
  unfolding b_preflight_def
  apply (rule wp_blockI [OF coop_tick [OF coop assms(2)]])
  apply (rule wp_blockI [where R = "b_live plan now k", OF wp_bndI [OF coop_look [OF coop _ assms(3)]]], assumption)
   apply (simp add: wp_simps b_view_def)
  by (simp add: coop_tick [OF coop])

lemma coop_entry_terminal:
  assumes coop: "b_cooperative plan now \<beta>" and "b_live plan now 4 \<tau>" "n \<in> set (barrier_names plan)"
  shows "wp (b_entry_terminal plan (digest plan) \<beta> n) (\<lambda>_. b_live plan now 4) never \<tau>"
  unfolding b_entry_terminal_def
  by (rule wp_bndI [OF coop_look [OF coop assms(2,3)]])
     (simp add: wp_simps b_view_def coop_tick [OF coop])

lemma coop_effect:
  assumes coop: "b_cooperative plan now \<beta>" and valid: "validate_plan plan now' = Inr p" and i: "i < 12"
    and live: "b_live plan now (min i 8) \<tau>"
  shows "wp (b_effect plan \<beta> (b_actions plan ! i))
     (\<lambda>v \<sigma>. b_receipt_ok plan i v \<and> b_live plan now (min (Suc i) 8) \<sigma>) never \<tau>"
proof -
  let ?a = "b_actions plan ! i" and ?n = "b_node plan i"
  have act: "fld ?a ''step'' = PStr (b_step_name i)" "fld ?a ''node'' = PStr ?n"
    using valid_plan(5) [OF valid i] by auto
  note mem = b_node_mem [OF valid, of i]
  note defs = b_effect_def act b_receipt_ok_def b_receipt_def b_final_def b_step_name_cases [OF i]
  have ready: "\<exists>v. \<beta> (snd \<tau>) (BMask ?n entry_units) = Inr v \<and> is_dict v \<and> pyeq v b_entry_receipt"
    "4 \<le> i \<Longrightarrow> \<exists>v. \<beta> (snd \<tau>) (BDrain ?n) = Inr v \<and> b_drained plan ?n v"
    using coop mem live by (auto simp: b_cooperative_def b_live_def)
  consider "i < 4" | "4 \<le> i" "i < 8" | "8 \<le> i" by linarith
  then show ?thesis
  proof cases
    case 1
    with live_call [where \<beta> = \<beta> and P = "\<lambda>v. is_dict v \<and> pyeq v b_entry_receipt", OF live ready(1)] show ?thesis
      by (auto simp: defs checks_need checks.simps min_def elim!: wp_mono)
  next
    case 2
    have "wp (bnd (call \<beta> (BDrain ?n)) (\<lambda>receipt.
        bnd (lift (validate_observation receipt plan ?n False)) (\<lambda>w.
        block
         [demand (holds_units entry_units (fld w ''persistent_masks'')) ''drain observation lost persistent masks'',
          demand (no_unit forbidden_stops (fld w ''stopped_services'')) ''drain stopped a forbidden service'']
         (ret receipt)))) (\<lambda>v \<sigma>. validate_observation v plan ?n False = Inr v \<and> b_live plan now (Suc i) \<sigma>) never \<tau>"
      by (rule wp_bndI [OF live_call [where \<beta> = \<beta> and P = "b_drained plan ?n", OF live ready(2)]])
         (use 2 in \<open>auto simp: wp_simps b_drained_def min_def\<close>)
    with 2 show ?thesis by (simp add: defs min_def)
  next
    case 3
    then have k: "min i 8 = 8" "min (Suc i) 8 = 8" by auto
    from live have "b_live plan now 8 \<tau>" by (simp only: k)
    from coop_look [OF coop this mem] 3 show ?thesis
      by (auto simp: defs k b_view_def elim!: wp_mono)
  qed
qed

lemma coop_step:
  assumes coop: "b_cooperative plan now \<beta>" and valid: "validate_plan plan now' = Inr p" and i: "i < 12"
    and live: "b_live plan now (min i 8) \<tau>"
  shows "wp (b_step plan (digest plan) \<beta> i) (\<lambda>_. b_live plan now (min (Suc i) 8)) never \<tau>"
proof -
  have gate: "wp (if i = 4 then foreach (b_entry_terminal plan (digest plan) \<beta>) (barrier_names plan) else ret ())
      (\<lambda>_. b_live plan now (min i 8)) never \<tau>"
    using live by (auto simp: wp_simps intro!: wp_foreach_inv coop_entry_terminal [OF coop])
  have tail: "wp (bnd (b_effect plan \<beta> (b_actions plan ! i)) (\<lambda>receipt.
        bnd (lift (b_receipt plan (b_actions plan ! i) receipt (b_final (b_actions plan ! i)))) (\<lambda>w.
        andthen (b_tick plan (digest plan) \<beta>)
          (b_persist plan (digest plan) \<beta> ''OBSERVED_COMPLETE'' i (b_actions plan ! i) (Some w)))))
      (\<lambda>_. b_live plan now (min (Suc i) 8)) never \<sigma>" if "b_live plan now (min i 8) \<sigma>" for \<sigma>
    by (rule wp_bndI [OF coop_effect [OF coop valid i that]])
       (auto simp: wp_bnd wp_lift b_receipt_ok_def intro!: wp_andthenI [OF coop_tick [OF coop]] coop_persist [OF coop])
  show ?thesis unfolding b_step_def Let_def
    apply (rule wp_blockI [OF gate])
    apply (rule wp_blockI [OF coop_tick [OF coop]], assumption)
    apply (rule wp_blockI [OF coop_persist [OF coop]], assumption)
    apply (rule wp_blockI [OF coop_persist [OF coop]], assumption)
    apply (rule wp_blockI [OF coop_tick [OF coop]], assumption)
    by (simp only: block.simps tail)
qed

lemma coop_steps:
  assumes coop: "b_cooperative plan now \<beta>" and valid: "validate_plan plan now' = Inr p" and live: "b_live plan now 0 \<tau>"
  shows "wp (foreach (b_step plan (digest plan) \<beta>) [0..<12]) (\<lambda>_. b_live plan now 8) never \<tau>"
proof -
  let ?I = "\<lambda>ys :: nat list. b_live plan now (min (length ys) 8)"
  have "wp (foreach (b_step plan (digest plan) \<beta>) [0..<12]) (\<lambda>_. ?I [0..<12]) never \<tau>"
  proof (rule wp_foreach [of ?I])
    show "?I [] \<tau>" using live by simp
  next
    fix ys x zs \<sigma>
    assume split: "[0..<12] = ys @ x # zs" and I: "?I ys \<sigma>"
    from arg_cong [OF split, of length] have "length ys < 12" by simp
    moreover from calculation have "x = length ys"
      using arg_cong [OF split, of "\<lambda>xs. xs ! length ys"] by (simp only: nth_upt nth_append_length add_0)
    ultimately show "wp (b_step plan (digest plan) \<beta> x) (\<lambda>_. ?I (ys @ [x])) never \<sigma>"
      using coop_step [OF coop valid _ I] by simp
  qed
  then show ?thesis by simp
qed

lemma coop_loop:
  assumes coop: "b_cooperative plan now \<beta>" and valid: "validate_plan plan now' = Inr p" and live: "b_live plan now 0 \<tau>"
  shows "wp (b_effects_loop plan (digest plan) \<beta> 0) (\<lambda>v \<sigma>. v = b_report ''MODEL_HELD'') never \<tau>"
  unfolding b_effects_loop_def valid_plan(4) [OF valid]
  apply (rule wp_blockI [OF wp_foreach_inv [where I = "b_live plan now 0", OF live coop_preflight [OF coop]]], assumption, assumption)
  apply (rule wp_blockI [OF coop_steps [OF coop valid]], assumption)
  apply (rule wp_blockI [OF coop_tick [OF coop]], assumption)
  apply (rule wp_blockI [OF live_authority], assumption)
  by (simp add: wp_simps)

lemma b_history_Nil:
  assumes "validate_plan plan now = Inr p"
  shows "b_history plan sha (PList []) = Inr (0, Some ''INTENT_DURABLE'')"
  using valid_plan(4) [OF assms]
  by (simp add: b_history_def b_due_def b_kinds_def checks_need checks.simps upt_conv_Cons)

text \<open>The first reading of the clock and the load of the journal\<close>

lemma live_load:
  assumes "b_live plan now k \<tau> \<and> b_journal (snd \<tau>) = []" "\<beta> (snd \<tau>) (BLoad tx) = Inr v"
  shows "wp (call \<beta> (BLoad tx)) (\<lambda>w \<sigma>. w = v \<and> b_live plan now k \<sigma> \<and> b_journal (snd \<sigma>) = []) never \<tau>"
  using assms by (cases \<tau>) (simp add: wp_simps b_live_def)

lemma live_init: "now \<le> int_of (fld plan ''deadline'') \<Longrightarrow> b_live plan now 0 (b_init now\<lparr>bc_running := True\<rparr>, [])"
  by (simp add: b_live_def b_init_def b_watermark_def)

lemma valid_window: "validate_plan plan now = Inr p \<Longrightarrow> now \<le> int_of (fld plan ''deadline'')"
  by (auto simp: validate_plan_def rbind_Inr check_simps plan_head_checks_def Let_def)

lemma cooperative_run:
  assumes valid: "validate_plan plan now = Inr p" and coop: "b_cooperative plan now \<beta>"
  shows "fst (b_run plan (digest plan) \<beta> (b_init now, [])) = Inr (b_report ''MODEL_HELD'')"
proof -
  let ?L = "\<lambda>\<sigma>. b_live plan now 0 \<sigma> \<and> b_journal (snd \<sigma>) = []"
  note tick = live_tick [OF coop_clock [OF coop], of 0 _ "[]"]
  have load: "\<beta> h (BLoad (fld plan ''tx'')) = Inr (PList [])" if "b_journal h = []" for h
    using coop that by (simp add: b_cooperative_def)
  have "wp (b_body plan (digest plan) \<beta>) (\<lambda>v _. v = b_report ''MODEL_HELD'') never
      (b_init now\<lparr>bc_running := True\<rparr>, [])"
    unfolding b_body_def
    apply (rule wp_andthenI [OF tick [OF live_init [OF valid_window [OF valid]]]], simp)
    apply (rule wp_bndI [OF live_load], assumption)
     apply (rule load, blast)
    apply (rule wp_andthenI [OF tick], blast, blast)
    by (simp add: b_history_Nil [OF valid] wp_bnd wp_lift wp_andthen wp_demand wp_ret valid_plan(4) [OF valid]
        coop_loop [OF coop valid])
  then have "wp (b_run plan (digest plan) \<beta>) (\<lambda>v _. v = b_report ''MODEL_HELD'') never (b_init now, [])"
    unfolding b_run_def
    by (auto simp: b_init_def wp_bnd wp_reads wp_andthen wp_demand wp_writes wp_at_end wp_on_exception elim!: wp_mono)
  then show ?thesis by (simp add: wp_def split: prod.splits sum.splits)
qed

section \<open>A concrete plan and backend\<close>

definition demo_names :: "string list" where "demo_names = [''n1'', ''n2'', ''n3'', ''n4'']"
definition demo_uuid :: pyval where "demo_uuid = PStr ''12345678-1234-4234-8234-123456789abc''"
definition demo_hash :: pyval where "demo_hash = PStr (replicate 64 CHR ''a'')"

definition demo_plan :: pyval where
  "demo_plan = PDict
     [(''schema'', PStr ''slt-maintenance-barrier-model/v1''), (''tx'', PStr (replicate 32 CHR ''b'')),
      (''participants'', PList (map (\<lambda>n. PDict [(''node'', PStr n), (''boot_id'', demo_uuid),
         (''san_role'', PBool (n \<noteq> ''n4''))]) demo_names)),
      (''workload_snapshot_sha256'', demo_hash), (''storage_cfg_sha256'', demo_hash),
      (''candidate_sha256'', demo_hash), (''issued_at'', PInt 100), (''deadline'', PInt 1000),
      (''actions'', PList (barrier_expected demo_names))]"

definition demo_record :: "string \<Rightarrow> string list \<Rightarrow> string list \<Rightarrow> string list \<Rightarrow> string \<Rightarrow> pyval" where
  "demo_record ha masks active stopped n = PDict
     [(''node'', PStr n), (''boot_id'', demo_uuid), (''membership'', PList (map PStr demo_names)),
      (''storage_cfg_sha256'', demo_hash), (''workload_snapshot_sha256'', demo_hash), (''quorate'', PBool True),
      (''running_guests'', PList []), (''ha_state'', PStr ha), (''tasks'', PList []),
      (''workers'', PList []), (''pending_jobs'', PList []),
      (''persistent_masks'', PList (map PStr masks)), (''active_services'', PList (map PStr active)),
      (''stopped_services'', PList (map PStr stopped))]"

text \<open>A node before the barrier: HA idle, nothing masked, everything active\<close>

definition demo_before :: "string \<Rightarrow> pyval" where
  "demo_before = demo_record ''EMPTY_IDLE'' []
     [''corosync.service'', ''pve-ha-crm.service'', ''pve-ha-lrm.service'', ''pvedaemon.service'',
      ''pveproxy.service'', ''pvescheduler.service'', ''pvestatd.service'', ''qmeventd.service'',
      ''spiceproxy.service''] []"

text \<open>Behind the entry block: the entry units masked and down\<close>

definition demo_blocked :: "string \<Rightarrow> pyval" where
  "demo_blocked = demo_record ''EMPTY_IDLE''
     [''pve-guests.service'', ''pveproxy.service'', ''pvescheduler.service'', ''spiceproxy.service'']
     [''corosync.service'', ''pve-ha-crm.service'', ''pve-ha-lrm.service'', ''pvedaemon.service'',
      ''pvestatd.service'', ''qmeventd.service''] []"

text \<open>Drained\<close>

definition demo_observation :: "string \<Rightarrow> pyval" where
  "demo_observation = demo_record ''DRAINED''
     [''pve-guests.service'', ''pve-ha-crm.service'', ''pve-ha-lrm.service'', ''pvedaemon.service'',
      ''pveproxy.service'', ''pvescheduler.service'', ''pvestatd.service'', ''qmeventd.service'',
      ''spiceproxy.service''] [''corosync.service'']
     [''pve-ha-crm.service'', ''pve-ha-lrm.service'', ''pvedaemon.service'', ''pveproxy.service'',
      ''pvescheduler.service'', ''pvestatd.service'', ''qmeventd.service'', ''spiceproxy.service'']"

text \<open>A backend whose clock advances at every reading and whose nodes start live\<close>

fun demo_backend :: "pyval list \<Rightarrow> bcall backend" where
  "demo_backend js h BNow = Inr (PInt (min 1000 (b_watermark 100 h + 1)))"
| "demo_backend js h (BLoad tx) = Inr (PList js)"
| "demo_backend js h (BPersist ev) = Inr PNone"
| "demo_backend js h (BMask n us) = Inr b_entry_receipt"
| "demo_backend js h (BObserve n) =
     Inr (if length (b_done h) < 4 then demo_before n
          else if length (b_done h) < 8 then demo_blocked n else demo_observation n)"
| "demo_backend js h (BDrain n) = Inr (demo_observation n)"

lemma demo_barrier_names: "barrier_names demo_plan = demo_names"
  by (simp add: barrier_names_def demo_plan_def demo_names_def)

lemma demo_plan_valid: "validate_plan demo_plan 100 = Inr demo_plan"
proof -
  have "checks (plan_head_checks demo_plan 100) = Inr ()"
    by (simp add: checks_ok plan_head_checks_def demo_plan_def plan_fields_def Let_def demo_hash_def
        demo_names_def lower_hex_def insert_commute)
  moreover have "check_each participant_check (list_of (fld demo_plan ''participants'')) = Inr ()"
    by (simp add: check_simps demo_plan_def demo_names_def participant_check_def demo_uuid_def regex_eval
        insert_commute)
  moreover have "checks (plan_tail_checks demo_plan) = Inr ()"
    by (simp add: checks_ok plan_tail_checks_def demo_barrier_names)
       (simp add: demo_plan_def demo_names_def list_all2_refl)
  ultimately show ?thesis by (simp add: validate_plan_def)
qed

lemma demo_identity:
  assumes "n \<in> set demo_names" "ha \<in> {''EMPTY_IDLE'', ''DRAINED''}"
  shows "checks (identity_checks (demo_record ha masks active stopped n) demo_plan n) = Inr ()"
proof -
  from assms(1) have "n = ''n1'' \<or> n = ''n2'' \<or> n = ''n3'' \<or> n = ''n4''" by (simp add: demo_names_def)
  then have boot: "expected_boot demo_plan n = demo_uuid"
    by (auto simp: expected_boot_def demo_plan_def demo_names_def)
  have cfg: "fld demo_plan ''storage_cfg_sha256'' = demo_hash"
    "fld demo_plan ''workload_snapshot_sha256'' = demo_hash" by (simp_all add: demo_plan_def)
  show ?thesis using assms(2)
    by (auto simp: checks_ok identity_checks_def boot cfg demo_barrier_names demo_record_def
        observation_fields_def empty_list_def insert_commute)
qed

lemma demo_units:
  "check_each (unit_list_check (demo_before n)) [''persistent_masks'', ''active_services'', ''stopped_services''] = Inr ()"
  "check_each (unit_list_check (demo_blocked n)) [''persistent_masks'', ''active_services'', ''stopped_services''] = Inr ()"
  "check_each (unit_list_check (demo_observation n)) [''persistent_masks'', ''active_services'', ''stopped_services''] = Inr ()"
  by (simp_all add: check_simps unit_list_check_def demo_before_def demo_blocked_def demo_observation_def demo_record_def
      is_sorted_set_def hashable.simps)

lemma demo_held_checks: "checks (held_checks (demo_observation n)) = Inr ()"
  by (simp add: checks_ok held_checks_def demo_observation_def demo_record_def holds_units_def within_units_def no_unit_def
      meets_def restartable_masks_def required_stops_def entry_units_def forbidden_stops_def allowed_active_def)

lemma demo_masked: "b_masked (demo_blocked n)" "b_masked (demo_observation n)"
  by (simp_all add: b_masked_def demo_blocked_def demo_observation_def demo_record_def holds_units_def no_unit_def
      entry_units_def terminal_ingress_def)

lemma demo_valid:
  assumes "n \<in> set demo_names"
  shows "validate_observation (demo_before n) demo_plan n False = Inr (demo_before n)"
    "validate_observation (demo_blocked n) demo_plan n False = Inr (demo_blocked n)"
    "validate_observation (demo_observation n) demo_plan n final = Inr (demo_observation n)"
proof -
  have id: "checks (identity_checks (f n) demo_plan n) = Inr ()" if "f \<in> {demo_before, demo_blocked, demo_observation}" for f
    using that demo_identity [OF assms] by (auto simp: demo_before_def demo_blocked_def demo_observation_def)
  show "validate_observation (demo_before n) demo_plan n False = Inr (demo_before n)"
    "validate_observation (demo_blocked n) demo_plan n False = Inr (demo_blocked n)"
    "validate_observation (demo_observation n) demo_plan n final = Inr (demo_observation n)"
    using demo_units [of n] demo_held_checks [of n] by (simp_all add: validate_observation_def id checks.simps)
qed

text \<open>A live node does not pass the final audit, nor does it look masked.\<close>

lemma demo_before_live: "\<not> b_masked (demo_before n)" "validate_observation (demo_before n) demo_plan n True \<noteq> Inr v"
  by (auto simp: b_masked_def demo_before_def demo_record_def holds_units_def entry_units_def
      validate_observation_def rbind_Inr held_checks_def check_simps)

lemma demo_clock: "b_clock_within demo_plan 100 (demo_backend js)"
  by (simp add: b_clock_within_def demo_plan_def)

lemma demo_drained: "n \<in> set demo_names \<Longrightarrow> b_drained demo_plan n (demo_observation n)"
  using demo_valid(3) [of n False] demo_masked(2) [of n]
  by (simp add: b_drained_def b_masked_def)
     (simp add: demo_observation_def demo_record_def no_unit_def forbidden_stops_def)

lemma demo_cooperative: "b_cooperative demo_plan 100 (demo_backend [])"
  using demo_masked by (simp add: b_cooperative_def demo_clock demo_barrier_names demo_valid b_view_def demo_drained)
     (simp add: b_entry_receipt_def)

section \<open>Properties of the barrier\<close>

lemma controller_run:
  "barrier_controller plan now \<beta> = Inr out \<Longrightarrow>
     validate_plan plan now = Inr plan \<and> b_run plan (digest plan) \<beta> (b_init now, []) = out"
  by (auto simp: barrier_controller_def rbind_Inr dest: valid_plan(1))

text \<open>
  C2: Whatever the backend answers, every mask and drain the controller asks for comes at its
  place: the effects before it are exactly those of the earlier actions, each once; the journal
  acknowledged so far is the complete record of the earlier actions followed by this action's
  durable intent and attempt; the journal was loaded and was empty; every node was observed valid;
  and a drain comes only after every node was observed masked after the fourth entry block
  completed. When the run fails with an exception the controller is poisoned; an exit that
  \<^verbatim>\<open>except Exception\<close> lets pass (\<^verbatim>\<open>KeyboardInterrupt\<close>,
  \<^verbatim>\<open>SystemExit\<close>) leaves it unpoisoned. Both ways it is not left running.
\<close>

theorem barrier_effect_order:
  assumes "barrier_controller plan now \<beta> = Inr (r, s, h)"
  shows "keeps (b_rule plan (digest plan)) h \<and> \<not> bc_running s
     \<and> (case r of Inl e \<Rightarrow> bc_poisoned s = is_exception e | Inr v \<Rightarrow> \<not> bc_poisoned s)"
proof -
  from controller_run [OF assms] have valid: "validate_plan plan now = Inr plan"
    and run: "b_run plan (digest plan) \<beta> (b_init now, []) = (r, s, h)" by auto
  from wp_conj [OF wp_run [OF valid, of "digest plan" \<beta>] run_flags [of plan "digest plan" \<beta> now]] run
  show ?thesis by (auto simp: wp_def b_core_def b_at_def split: sum.splits)
qed

theorem barrier_effect_order_witness:
  "\<exists>r s h. barrier_controller demo_plan 100 (demo_backend []) = Inr (r, s, h)
     \<and> keeps (b_rule demo_plan (digest demo_plan)) h"
proof -
  obtain r s h where "barrier_controller demo_plan 100 (demo_backend []) = Inr (r, s, h)"
    by (simp add: barrier_controller_def demo_plan_valid) (metis prod_cases3)
  with barrier_effect_order [OF this] show ?thesis by blast
qed

text \<open>
  C15: What MODEL_HELD means. When the run returns MODEL_HELD, exactly the four masks and four
  drains were asked for, in plan order; the acknowledged journal holds the complete record of all
  twelve actions; and for every node it holds a completion whose receipt passes the strict final
  audit (quorate, HA drained, nothing running, exactly the required services stopped and masked).
\<close>

theorem barrier_held_sound:
  assumes "barrier_controller plan now \<beta> = Inr (Inr (b_report ''MODEL_HELD''), s, h)"
  shows "b_done h = map (b_effect_at plan) [0..<8] \<and> b_completed plan (digest plan) 12 (b_journal h)
     \<and> (\<forall>i < 4. \<exists>r. b_event plan (digest plan) ''OBSERVED_COMPLETE'' (8 + i) (b_actions plan ! (8 + i)) (Some r)
           \<in> set (b_journal h) \<and> validate_observation r plan (barrier_names plan ! i) True = Inr r)"
proof -
  let ?sha = "digest plan"
  from controller_run [OF assms] have valid: "validate_plan plan now = Inr plan"
    and run: "b_run plan ?sha \<beta> (b_init now, []) = (Inr (b_report ''MODEL_HELD''), s, h)" by auto
  from wp_run [OF valid, of ?sha \<beta>] run have core: "b_core plan ?sha 12 (s, h)"
    by (simp add: wp_def b_report_def)
  then have effs: "b_done h = map (b_effect_at plan) [0..<8]" and all: "b_completed plan ?sha 12 (b_journal h)"
    by (auto simp: b_core_def b_at_def b_effects_at_def min_def)
  have "\<exists>r. b_event plan ?sha ''OBSERVED_COMPLETE'' k (b_actions plan ! k) (Some r) \<in> set js \<and> b_receipt_ok plan k r"
    if "b_completed plan ?sha m js" "k < m" for k m js
    using that by (induction m arbitrary: js) (simp, fastforce simp: less_Suc_eq)
  from this [OF all] obtain r where
    r: "\<And>k. k < 12 \<Longrightarrow> b_event plan ?sha ''OBSERVED_COMPLETE'' k (b_actions plan ! k) (Some (r k)) \<in> set (b_journal h)
        \<and> b_receipt_ok plan k (r k)" by metis
  have "validate_observation (r (8 + i)) plan (barrier_names plan ! i) True = Inr (r (8 + i))" if "i < 4" for i
  proof -
    have k: "8 + i < 12" "\<not> 8 + i < 8" "(8 + i) mod 4 = i"
      using that mod_mult_self2 [of i 4 2] by (simp_all add: add.commute)
    have "fld (b_actions plan ! (8 + i)) ''step'' = PStr ''FINAL_AUDIT''"
      "fld (b_actions plan ! (8 + i)) ''node'' = PStr (barrier_names plan ! i)"
      using valid_plan(5) [OF valid k(1)] k(3) by (auto simp: b_step_name_cases [OF k(1)] b_node_def)
    with r [OF k(1)] show ?thesis by (simp add: b_receipt_ok_def b_receipt_def b_final_def)
  qed
  with effs all r show ?thesis by (intro conjI allI impI) (auto intro!: exI [of _ "r (8 + i)" for i])
qed

lemma demo_held:
  "\<exists>s h. barrier_controller demo_plan 100 (demo_backend []) = Inr (Inr (b_report ''MODEL_HELD''), s, h)"
proof -
  obtain r s h where run: "b_run demo_plan (digest demo_plan) (demo_backend []) (b_init 100, []) = (r, s, h)"
    by (metis prod_cases3)
  with cooperative_run [OF demo_plan_valid demo_cooperative] show ?thesis
    by (simp add: barrier_controller_def demo_plan_valid)
qed

theorem barrier_held_sound_witness:
  "\<exists>s h. barrier_controller demo_plan 100 (demo_backend []) = Inr (Inr (b_report ''MODEL_HELD''), s, h)
     \<and> b_done h = map (b_effect_at demo_plan) [0..<8]"
proof -
  from demo_held obtain s h where run:
    "barrier_controller demo_plan 100 (demo_backend []) = Inr (Inr (b_report ''MODEL_HELD''), s, h)" by blast
  from barrier_held_sound [OF run] run show ?thesis by blast
qed

text \<open>
  C18: Liveness. With a valid plan and a cooperative backend the run ends with MODEL_HELD. The
  backend may start from live nodes (nothing masked, nothing drained) and its clock may advance by
  any amount at every reading inside the window; observations have to show the entry masks only
  after the fourth entry block, and to pass the final audit only after the fourth drain. The
  journal is empty and accepts the records; the masks and drains give their receipts.
\<close>

theorem barrier_reaches_held:
  assumes "validate_plan plan now = Inr p" and "b_cooperative plan now \<beta>"
  shows "\<exists>s h. barrier_controller plan now \<beta> = Inr (Inr (b_report ''MODEL_HELD''), s, h)"
proof -
  obtain r s h where "b_run plan (digest plan) \<beta> (b_init now, []) = (r, s, h)" by (metis prod_cases3)
  with cooperative_run [OF assms] assms(1) valid_plan(1) [OF assms(1)] show ?thesis
    by (simp add: barrier_controller_def)
qed

theorem barrier_reaches_held_witness:
  "(\<exists>s h. barrier_controller demo_plan 100 (demo_backend []) = Inr (Inr (b_report ''MODEL_HELD''), s, h))
     \<and> demo_backend [] [] (BObserve ''n1'') = Inr (demo_before ''n1'') \<and> \<not> b_masked (demo_before ''n1'')
     \<and> validate_observation (demo_before ''n1'') demo_plan ''n1'' True \<noteq> Inr (demo_before ''n1'')
     \<and> demo_backend [] [] BNow \<noteq> demo_backend [] [(BNow, Inr (PInt 101))] BNow"
  using barrier_reaches_held [OF demo_plan_valid demo_cooperative] demo_before_live
  by (simp add: b_watermark_def)

lemma historical_run:
  assumes valid: "validate_plan plan now = Inr p" and clock: "b_clock_within plan now \<beta>"
    and load: "\<forall>h. \<beta> h (BLoad (fld plan ''tx'')) = Inr (PList js)" and js: "b_completed plan (digest plan) 12 js"
  shows "wp (b_run plan (digest plan) \<beta>) (\<lambda>v \<tau>. v = b_report ''MODEL_COMPLETED_HISTORICAL''
       \<and> b_done (snd \<tau>) = [] \<and> b_journal (snd \<tau>) = []) never (b_init now, [])"
proof -
  let ?J = "\<lambda>\<sigma>. b_done (snd \<sigma>) = [] \<and> b_journal (snd \<sigma>) = []"
  note tick = live_tick [OF clock, of 0 _ "[]"]
  have hist: "b_history plan (digest plan) (PList js) = Inr (length (b_actions plan), None)"
    using b_history_completed [of plan] js valid_plan(4) [OF valid] by simp
  have body: "wp (b_body plan (digest plan) \<beta>) (\<lambda>v \<sigma>. v = b_report ''MODEL_COMPLETED_HISTORICAL'' \<and> ?J \<sigma>) never
      (b_init now\<lparr>bc_running := True\<rparr>, [])"
    unfolding b_body_def
    apply (rule wp_andthenI [OF tick [OF live_init [OF valid_window [OF valid]]]], simp)
    apply (rule wp_bndI [OF live_load], assumption)
     apply (rule load [rule_format])
    apply (rule wp_andthenI [OF tick], blast, blast)
    by (auto simp: hist wp_bnd wp_lift wp_ret b_live_def)
  then show ?thesis unfolding b_run_def
    by (auto simp: b_init_def wp_bnd wp_reads wp_andthen wp_demand wp_writes wp_at_end wp_on_exception elim!: wp_mono)
qed

text \<open>
  A completed barrier is not run twice. When one run ended with MODEL_HELD, a later controller
  for the same plan that finds the acknowledged journal of that run, and whose clock stays inside
  the window, reports MODEL_COMPLETED_HISTORICAL without masking, draining or journalling anything.
\<close>

theorem barrier_rerun_historical:
  assumes "barrier_controller plan now \<beta> = Inr (Inr (b_report ''MODEL_HELD''), s, h)"
    and "validate_plan plan later = Inr p" and "b_clock_within plan later \<gamma>"
    and "\<forall>h'. \<gamma> h' (BLoad (fld plan ''tx'')) = Inr (PList (b_journal h))"
  shows "\<exists>s' h'. barrier_controller plan later \<gamma> = Inr (Inr (b_report ''MODEL_COMPLETED_HISTORICAL''), s', h')
     \<and> b_done h' = [] \<and> b_journal h' = []"
proof -
  let ?sha = "digest plan"
  from controller_run [OF assms(1)] have valid: "validate_plan plan now = Inr plan"
    and run: "b_run plan ?sha \<beta> (b_init now, []) = (Inr (b_report ''MODEL_HELD''), s, h)" by auto
  from wp_run [OF valid, of ?sha \<beta>] run have "b_core plan ?sha 12 (s, h)"
    by (simp add: wp_def b_report_def)
  then have "b_completed plan ?sha 12 (b_journal h)" by (auto simp: b_core_def b_at_def)
  from historical_run [OF assms(2-4) this]
  obtain s' h' where "b_run plan ?sha \<gamma> (b_init later, []) = (Inr (b_report ''MODEL_COMPLETED_HISTORICAL''), s', h')"
    "b_done h' = []" "b_journal h' = []"
    by (auto simp: wp_def split: prod.splits sum.splits)
  then show ?thesis using assms(2) valid_plan(1) [OF assms(2)] by (simp add: barrier_controller_def)
qed

theorem barrier_rerun_historical_witness:
  "\<exists>js s' h'. barrier_controller demo_plan 100 (demo_backend js)
     = Inr (Inr (b_report ''MODEL_COMPLETED_HISTORICAL''), s', h') \<and> b_done h' = []"
proof -
  from demo_held obtain s h where run:
    "barrier_controller demo_plan 100 (demo_backend []) = Inr (Inr (b_report ''MODEL_HELD''), s, h)" by blast
  from barrier_rerun_historical [OF run demo_plan_valid demo_clock] show ?thesis by auto
qed

text \<open>
  Failure is final. When a run of a controller that is not already running fails with an exception, the next
  call of run on the same controller refuses at once, without any call to the backend and without
  changing the controller.
\<close>

theorem barrier_failure_final:
  assumes "b_run plan sha \<beta> (s, h) = (Inl e, s', h')" and "\<not> bc_running s" and "is_exception e"
  shows "b_run plan sha \<gamma> (s', h') = (Inl (Refusal ''controller is poisoned''), s', h')"
proof -
  have "wp (b_run plan sha \<beta>) (\<lambda>_ _. True) (\<lambda>e \<tau>. (is_exception e \<longrightarrow> bc_poisoned (fst \<tau>)) \<and> \<not> bc_running (fst \<tau>)) (s, h)"
  proof -
    have "wp (b_body plan sha \<beta>) (\<lambda>_ _. True) (\<lambda>_ _. True) \<tau>" for \<tau> by (simp add: wp_both)
    then show ?thesis unfolding b_run_def using assms(2)
      by (auto simp: wp_bnd wp_reads wp_andthen wp_demand wp_writes wp_at_end wp_on_exception case_prod_unfold)
  qed
  from wp_exc [OF this assms(1)] assms(3) show ?thesis
    by (simp add: b_run_def bnd_def reads_def andthen_def demand_def raise_def)
qed

theorem barrier_failure_final_witness:
  "\<exists>s' h'. b_run demo_plan (digest demo_plan) (\<lambda>_ _. Inl (Foreign ''down'')) (s', h')
     = (Inl (Refusal ''controller is poisoned''), s', h')"
proof -
  let ?\<beta> = "\<lambda>_ _. Inl (Foreign ''down'')"
  obtain s' h' where "b_run demo_plan (digest demo_plan) ?\<beta> (b_init 100, []) = (Inl (Foreign ''down''), s', h')"
    by (simp add: b_run_def b_body_def b_tick_def b_clock_def b_authority_def bnd_def reads_def andthen_def
        demand_def ret_def writes_def at_end_def on_exception_def on_error_def call_def b_init_def)
  from barrier_failure_final [OF this] show ?thesis by (auto simp: b_init_def)
qed

end
