(* ===== verification/PyText.thy ===== *)
theory PyText
  imports Json
begin

text \<open>
  The string methods of the code that reads command output and configuration files, on
  characters below code point 256: splitting at a separator and into lines, stripping, digits,
  and \<^verbatim>\<open>int(text)\<close>. The two facts the components need are that joining undoes splitting and that
  decimal text reads back as the number it was written from.
\<close>

section \<open>Splitting\<close>

text \<open>\<^verbatim>\<open>s.split(c)\<close>\<close>

fun split_on :: "char \<Rightarrow> string \<Rightarrow> string list" where
  "split_on c [] = [[]]"
| "split_on c (x # xs) =
     (if x = c then [] # split_on c xs
      else case split_on c xs of [] \<Rightarrow> [[x]] | w # ws \<Rightarrow> (x # w) # ws)"

fun join_with :: "string \<Rightarrow> string list \<Rightarrow> string" where
  "join_with sep [] = []"
| "join_with sep [w] = w"
| "join_with sep (w # v # ws) = w @ sep @ join_with sep (v # ws)"

lemma split_on_nonempty [simp]: "split_on c s \<noteq> []"
  by (induction s) (auto split: list.splits)

lemma split_on_word: "c \<notin> set w \<Longrightarrow> split_on c w = [w]"
  by (induction w) auto

lemma split_on_append: "c \<notin> set w \<Longrightarrow> split_on c (w @ c # s) = w # split_on c s"
  by (induction w) (auto split: list.splits)

lemma split_join:
  assumes "ws \<noteq> []" and "\<forall>w \<in> set ws. c \<notin> set w"
  shows "split_on c (join_with [c] ws) = ws"
  using assms by (induction "[c]" ws rule: join_with.induct) (auto simp: split_on_word split_on_append)

lemma join_split: "join_with [c] (split_on c s) = s"
proof (induction s)
  case (Cons x xs)
  obtain w ws where "split_on c xs = w # ws" by (cases "split_on c xs") auto
  with Cons show ?case by (cases ws) auto
qed simp

section \<open>White space and lines\<close>

text \<open>\<^verbatim>\<open>c.isspace()\<close>\<close>

definition space :: "char \<Rightarrow> bool" where
  "space c \<longleftrightarrow> (CHR 0x09 \<le> c \<and> c \<le> CHR 0x0D) \<or> (CHR 0x1C \<le> c \<and> c \<le> CHR 0x20) \<or> c = CHR 0x85 \<or> c = CHR 0xA0"

definition strip :: "string \<Rightarrow> string" where
  "strip s = rev (dropWhile space (rev (dropWhile space s)))"

text \<open>The line boundaries of \<^verbatim>\<open>str.splitlines\<close>; a carriage return and a line feed are one.\<close>

definition line_break :: "char \<Rightarrow> bool" where
  "line_break c \<longleftrightarrow> of_char c \<in> {10, 11, 12, 13, 28, 29, 30, 133 :: nat}"

function splitlines :: "string \<Rightarrow> string list" where
  "splitlines s =
     (if s = [] then []
      else takeWhile (\<lambda>c. \<not> line_break c) s #
        (case dropWhile (\<lambda>c. \<not> line_break c) s of
           [] \<Rightarrow> []
         | c # rest \<Rightarrow>
             splitlines (if of_char c = (13 :: nat) \<and> rest \<noteq> [] \<and> of_char (hd rest) = (10 :: nat)
                         then tl rest else rest)))"
  by pat_completeness auto

lemma dropWhile_Cons_length: "dropWhile p s = c # rest \<Longrightarrow> length rest < length s"
  using length_dropWhile_le [of p s] by (metis Suc_le_eq length_Cons)

termination splitlines
  by (relation "measure length") (auto dest!: dropWhile_Cons_length simp: less_imp_diff_less)

declare splitlines.simps [simp del]

definition no_breaks :: "string \<Rightarrow> bool" where
  "no_breaks s \<longleftrightarrow> list_all (\<lambda>c. \<not> line_break c) s"

lemma splitlines_lines:
  "list_all no_breaks ls \<Longrightarrow> splitlines (concat (map (\<lambda>l. l @ [CHR 0x0A]) ls)) = ls"
proof (induction ls)
  case Nil
  then show ?case by (simp add: splitlines.simps)
next
  case (Cons l ls)
  have lf: "line_break (CHR 0x0A)" by (simp add: line_break_def)
  let ?rest = "concat (map (\<lambda>l. l @ [CHR 0x0A]) ls)"
  have "takeWhile (\<lambda>c. \<not> line_break c) (l @ CHR 0x0A # ?rest) = l"
    "dropWhile (\<lambda>c. \<not> line_break c) (l @ CHR 0x0A # ?rest) = CHR 0x0A # ?rest"
    using Cons.prems lf by (auto simp: no_breaks_def list_all_iff takeWhile_append dropWhile_append)
  with Cons show ?case by (subst splitlines.simps) simp
qed

text \<open>\<^verbatim>\<open>s.split()\<close>: the words between runs of white space\<close>

fun words_from :: "string \<Rightarrow> string \<Rightarrow> string list" where
  "words_from acc [] = (if acc = [] then [] else [rev acc])"
| "words_from acc (c # cs) =
     (if space c then (if acc = [] then words_from [] cs else rev acc # words_from [] cs)
      else words_from (c # acc) cs)"

definition words :: "string \<Rightarrow> string list" where
  "words s = words_from [] s"

section \<open>Numbers\<close>

text \<open>
  \<^verbatim>\<open>s.isdigit()\<close> also holds of the superscript digits, which \<^verbatim>\<open>int\<close> then rejects.
\<close>

definition py_digit :: "char \<Rightarrow> bool" where
  "py_digit c \<longleftrightarrow> digit c \<or> c \<in> {CHR 0xB2, CHR 0xB3, CHR 0xB9}"

definition isdigit :: "string \<Rightarrow> bool" where
  "isdigit s \<longleftrightarrow> s \<noteq> [] \<and> list_all py_digit s"

fun dec_value :: "string \<Rightarrow> nat" where
  "dec_value s = foldl (\<lambda>n c. 10 * n + (of_char c - 48)) 0 s"

declare dec_value.simps [simp del]

text \<open>Digits, single underscores between them\<close>

fun digits_ok :: "string \<Rightarrow> bool" where
  "digits_ok [] = False"
| "digits_ok [c] = digit c"
| "digits_ok (c # d # cs) =
     (digit c \<and> (if d = CHR ''_'' then digits_ok cs else digits_ok (d # cs)))"

definition py_int :: "string \<Rightarrow> int res" where
  "py_int s =
     (let t = strip s;
          neg = (t \<noteq> [] \<and> hd t = CHR ''-'');
          u = (if t \<noteq> [] \<and> hd t \<in> {CHR ''-'', CHR ''+''} then tl t else t) in
      if digits_ok u then Inr ((if neg then -1 else 1) * int (dec_value (filter digit u)))
      else Inl (ValueError ''invalid literal for int()''))"

lemma digit_code: "digit c \<longleftrightarrow> 48 \<le> (of_char c :: nat) \<and> (of_char c :: nat) \<le> 57"
  by (simp add: digit_def less_eq_char_def)

lemma digit_not_space: "digit c \<Longrightarrow> \<not> space c"
proof
  assume "digit c" "space c"
  from \<open>digit c\<close> have d: "48 \<le> (of_char c :: nat)" "(of_char c :: nat) \<le> 57" by (simp_all only: digit_code)
  from \<open>space c\<close> have "(of_char c :: nat) \<le> 32 \<or> (of_char c :: nat) \<in> {133, 160}"
    unfolding space_def less_eq_char_def by (elim disjE conjE) simp_all
  with d show False by auto
qed

lemma digit_not_sign: "digit c \<Longrightarrow> c \<noteq> CHR ''_'' \<and> c \<noteq> CHR ''-'' \<and> c \<noteq> CHR ''+''"
  unfolding digit_code by (intro conjI notI; hypsubst; simp)

lemma digits_ok_digits: "s \<noteq> [] \<Longrightarrow> list_all digit s \<Longrightarrow> digits_ok s"
proof (induction s rule: digits_ok.induct)
  case (3 c d cs)
  then show ?case by (auto dest: digit_not_sign)
qed auto

lemma strip_id: "(\<And>c. c \<in> set s \<Longrightarrow> \<not> space c) \<Longrightarrow> strip s = s"
proof -
  assume ns: "\<And>c. c \<in> set s \<Longrightarrow> \<not> space c"
  have "dropWhile space t = t" if "\<forall>c \<in> set t. \<not> space c" for t
    using that by (cases t) simp_all
  from this [of s] this [of "rev s"] ns show ?thesis by (simp add: strip_def)
qed

lemma py_int_digits:
  assumes "s \<noteq> []" and "list_all digit s"
  shows "py_int s = Inr (int (dec_value s))"
proof -
  have "strip s = s" using assms(2) by (intro strip_id) (auto simp: list_all_iff digit_not_space)
  moreover have "hd s \<notin> {CHR ''-'', CHR ''+''}"
    using assms by (cases s) (auto dest: digit_not_sign)
  moreover have "filter digit s = s" using assms(2) by (simp add: list_all_iff)
  ultimately show ?thesis using assms by (auto simp: py_int_def digits_ok_digits)
qed

lemma hex_digit_digit: "n < 10 \<Longrightarrow> digit (hex_digit n) \<and> of_char (hex_digit n) = n + (48 :: nat)"
proof -
  assume "n < 10"
  then have "n \<in> {0, 1, 2, 3, 4, 5, 6, 7, 8, 9}" by auto
  then show ?thesis unfolding digit_code hex_digit_def by (elim insertE emptyE) simp_all
qed

lemma nat_digits_ok: "nat_digits n \<noteq> [] \<and> list_all digit (nat_digits n) \<and> dec_value (nat_digits n) = n"
proof (induction n rule: nat_digits.induct)
  case (1 n)
  have d: "digit (hex_digit (n mod 10))" "of_char (hex_digit (n mod 10)) = n mod 10 + (48 :: nat)"
    using hex_digit_digit [of "n mod 10"] by simp_all
  show ?case
  proof (cases "n < 10")
    case True
    with d show ?thesis by (subst (1 2 3) nat_digits.simps) (simp add: dec_value.simps)
  next
    case False
    then have "list_all digit (nat_digits (n div 10))" "dec_value (nat_digits (n div 10)) = n div 10"
      using 1 by auto
    with False d show ?thesis
      by (subst (1 2 3) nat_digits.simps) (simp add: dec_value.simps)
  qed
qed

text \<open>Printing a natural number and reading it back\<close>

lemma py_int_nat_digits [simp]: "py_int (nat_digits n) = Inr (int n)"
  using nat_digits_ok [of n] py_int_digits [of "nat_digits n"] by simp


section \<open>\<^verbatim>\<open>posixpath.normpath\<close>\<close>

text \<open>
  Empty and \<^verbatim>\<open>.\<close> components vanish, \<^verbatim>\<open>..\<close> removes the component before it, and exactly two
  leading slashes stay two. The stack of kept components is held in reverse.
\<close>

definition norm_step :: "bool \<Rightarrow> string list \<Rightarrow> string \<Rightarrow> string list" where
  "norm_step rooted kept part =
     (if part = [] \<or> part = ''.'' then kept
      else if part \<noteq> ''..'' \<or> (\<not> rooted \<and> kept = []) \<or> (kept \<noteq> [] \<and> hd kept = ''..'') then part # kept
      else tl kept)"

definition lead_slashes :: "string \<Rightarrow> nat" where
  "lead_slashes p =
     (if take 1 p \<noteq> ''/'' then 0 else if take 2 p = ''//'' \<and> take 3 p \<noteq> ''///'' then 2 else 1)"

definition normpath :: "string \<Rightarrow> string" where
  "normpath p =
     (if p = [] then ''.''
      else let n = lead_slashes p;
               path = replicate n CHR ''/''
                 @ join_with ''/'' (List.rev (foldl (norm_step (0 < n)) [] (split_on CHR ''/'' p))) in
           if path = [] then ''.'' else path)"

text \<open>\<^verbatim>\<open>s.startswith(p)\<close>\<close>

definition starts_with :: "string \<Rightarrow> string \<Rightarrow> bool" where
  "starts_with p s \<longleftrightarrow> take (length p) s = p"


text \<open>A rooted path that is its own normal form has no \<^verbatim>\<open>.\<close> or \<^verbatim>\<open>..\<close> component.\<close>

lemma norm_step_plain:
  assumes "list_all (\<lambda>c. c \<notin> {[], ''.'', ''..''} \<and> CHR ''/'' \<notin> set c) kept" "CHR ''/'' \<notin> set part"
  shows "list_all (\<lambda>c. c \<notin> {[], ''.'', ''..''} \<and> CHR ''/'' \<notin> set c) (norm_step True kept part)"
  using assms by (cases kept) (auto simp: norm_step_def)

lemma norm_fold_plain:
  assumes "list_all (\<lambda>c. c \<notin> {[], ''.'', ''..''} \<and> CHR ''/'' \<notin> set c) kept" "list_all (\<lambda>c. CHR ''/'' \<notin> set c) parts"
  shows "list_all (\<lambda>c. c \<notin> {[], ''.'', ''..''} \<and> CHR ''/'' \<notin> set c) (foldl (norm_step True) kept parts)"
  using assms norm_step_plain by (induction parts arbitrary: kept) auto

lemma split_on_parts: "list_all (\<lambda>w. c \<notin> set w) (split_on c s)"
  by (induction c s rule: split_on.induct) (auto simp: list_all_iff split: list.splits)

lemma normal_path_parts:
  assumes "starts_with ''/'' p" and "normpath p = p"
  shows "''..'' \<notin> set (split_on CHR ''/'' p)" "''.'' \<notin> set (split_on CHR ''/'' p)"
proof -
  define parts where "parts = List.rev (foldl (norm_step True) [] (split_on CHR ''/'' p))"
  have plain: "list_all (\<lambda>c. c \<notin> {[], ''.'', ''..''} \<and> CHR ''/'' \<notin> set c) parts"
    unfolding parts_def using norm_fold_plain [of "[]" "split_on CHR ''/'' p"] split_on_parts by (simp add: list_all_iff)
  define n where "n = lead_slashes p"
  have n: "0 < n" using assms(1) by (simp add: n_def lead_slashes_def starts_with_def)
  have "p \<noteq> []" using assms(1) by (auto simp: starts_with_def)
  then have p: "replicate n CHR ''/'' @ join_with ''/'' parts = p"
    using assms(2) n unfolding normpath_def Let_def n_def [symmetric] parts_def by (simp split: if_splits)
  have lead: "set (split_on CHR ''/'' (replicate k CHR ''/'' @ s)) \<subseteq> insert [] (set (split_on CHR ''/'' s))" for k s
    by (induction k) (auto simp: split_on_append [of _ "[]", simplified])
  have "split_on CHR ''/'' (join_with ''/'' parts) = (if parts = [] then [[]] else parts)"
    using plain split_join [of parts "CHR ''/''"] by (auto simp: list_all_iff)
  then have "set (split_on CHR ''/'' p) \<subseteq> insert [] (set parts)"
    using lead [of n "join_with ''/'' parts"] unfolding p by (auto split: if_splits)
  with plain show "''..'' \<notin> set (split_on CHR ''/'' p)" "''.'' \<notin> set (split_on CHR ''/'' p)"
    by (auto simp: list_all_iff)
qed


section \<open>\<^verbatim>\<open>stat.S_ISREG\<close> and its siblings\<close>

text \<open>
  The file type is the top four of sixteen bits. The C function takes an unsigned 32-bit mode and
  raises for any other integer.
\<close>

definition file_type :: "int \<Rightarrow> int \<Rightarrow> bool res" where
  "file_type code mode =
     (if mode < 0 \<or> 2 ^ 32 \<le> mode then Inl (OverflowError ''mode out of range'')
      else Inr (mode div 4096 mod 16 = code))"

abbreviation s_isreg :: "int \<Rightarrow> bool res" where "s_isreg \<equiv> file_type 8"
abbreviation s_isfifo :: "int \<Rightarrow> bool res" where "s_isfifo \<equiv> file_type 1"
abbreviation s_isdir :: "int \<Rightarrow> bool res" where "s_isdir \<equiv> file_type 4"

end
