(* ===== verification/UpdatePolicy.thy ===== *)
theory UpdatePolicy
  imports PyText
begin

text \<open>
  \<^verbatim>\<open>usr/libexec/pve-sharedlvmthin/sharedlvmthin_update_policy.py\<close>: the policy of the APT
  transaction guard. The hook protocol is parsed into package actions; the actions, the tuple
  catalogue, the operator's policy and the running context are evaluated to a verdict.

  The codec of \<^verbatim>\<open>raw.decode\<close>, \<^verbatim>\<open>re.fullmatch\<close> on the catalogue's patterns and the version
  comparison of the caller are parameters. \<^verbatim>\<open>hash_payloads\<close> and the file access of
  \<^verbatim>\<open>strict_json\<close> are I/O and have no model.
\<close>

section \<open>Regular expressions and JSON objects\<close>

definition max_protocol_bytes :: nat where "max_protocol_bytes = 16 * 1024 * 1024"
definition max_actions :: nat where "max_actions = 4096"

definition version_char :: "char \<Rightarrow> bool" where
  "version_char c \<longleftrightarrow> alnum c \<or> c \<in> set ''.+:~_-''"

definition version_re :: "string \<Rightarrow> bool" where
  "version_re s \<longleftrightarrow> s \<noteq> [] \<and> list_all version_char s"

definition lower_digit :: "char \<Rightarrow> bool" where
  "lower_digit c \<longleftrightarrow> lower c \<or> digit c"

definition package_base_re :: "string \<Rightarrow> bool" where
  "package_base_re = head_tail lower_digit (\<lambda>c. lower_digit c \<or> c \<in> set ''+.-'') None"

definition arch_word_re :: "string \<Rightarrow> bool" where
  "arch_word_re = head_tail lower_digit (\<lambda>c. lower_digit c \<or> c = CHR ''-'') None"

text \<open>No class of \<^verbatim>\<open>PACKAGE_RE\<close> holds a colon, so the optional group starts at the first one.\<close>

definition package_re :: "string \<Rightarrow> bool" where
  "package_re s \<longleftrightarrow>
     package_base_re (takeWhile (\<lambda>c. c \<noteq> CHR '':'') s)
     \<and> (case dropWhile (\<lambda>c. c \<noteq> CHR '':'') s of [] \<Rightarrow> True | _ # arch \<Rightarrow> arch_word_re arch)"

definition arch_re :: "string \<Rightarrow> bool" where
  "arch_re s \<longleftrightarrow> s = ''-'' \<or> arch_word_re s"

definition multiarch :: "string list" where
  "multiarch = [''-'', ''same'', ''foreign'', ''allowed'', ''none'', ''no'']"

text \<open>The hook \<^verbatim>\<open>pairs\<close> of \<^verbatim>\<open>strict_json\<close>.\<close>

fun strict_pairs :: "(string \<times> pyval) list \<Rightarrow> (string \<times> pyval) list \<Rightarrow> pyval res" where
  "strict_pairs result [] = Inr (PDict result)"
| "strict_pairs result ((key, v) # rest) =
     (if key \<in> set (map fst result) then Inl (Refusal (''duplicate JSON key: '' @ key))
      else strict_pairs (result @ [(key, v)]) rest)"

definition manual_authorization_matches :: "pyval \<Rightarrow> pyval \<Rightarrow> pyval \<Rightarrow> pyval \<Rightarrow> bool res" where
  "manual_authorization_matches authorization plan_digest payloads ctx =
     rand (Inr (is_dict authorization))
    (rand (Inr (pyeq (fld authorization ''schema'') (PInt 2)))
    (rand (rbind (pyget authorization ''authorization_id'' (PStr [])) (\<lambda>v.
             if is_str v then Inr (hexn 32 (str_of v)) else Inl (TypeError ''expected string'')))
    (Inr (pyeq (fld authorization ''plan_digest'') plan_digest
          \<and> pyeq (fld authorization ''payloads'') payloads
          \<and> pyeq (fld authorization ''context'') ctx))))"

section \<open>The hook protocol\<close>

text \<open>\<^verbatim>\<open>line.split(c, n)\<close>\<close>

fun split_max :: "nat \<Rightarrow> char \<Rightarrow> string \<Rightarrow> string list" where
  "split_max 0 c s = [s]"
| "split_max (Suc n) c s =
     (if c \<in> set s then takeWhile (\<lambda>x. x \<noteq> c) s # split_max n c (tl (dropWhile (\<lambda>x. x \<noteq> c) s)) else [s])"

record apt_action =
  aa_package :: string
  aa_old_version :: string
  aa_old_arch :: string
  aa_old_multiarch :: string
  aa_direction :: string
  aa_new_version :: string
  aa_new_arch :: string
  aa_new_multiarch :: string
  aa_action :: string

definition action_checks :: "apt_action \<Rightarrow> (bool \<times> exc) list" where
  "action_checks a =
     [need (package_re (aa_package a)) ''unsafe APT package name'',
      need (aa_old_version a = ''-'' \<or> version_re (aa_old_version a)) ''unsafe old package version'',
      need (aa_new_version a = ''-'' \<or> version_re (aa_new_version a)) ''unsafe new package version'',
      need (arch_re (aa_old_arch a) \<and> arch_re (aa_new_arch a)) ''unsafe package architecture'',
      need (aa_old_multiarch a \<in> set multiarch \<and> aa_new_multiarch a \<in> set multiarch
            \<and> aa_direction a \<in> {''<'', ''>'', ''=''}) ''invalid APT package action metadata'',
      need (aa_action a \<in> {''**CONFIGURE**'', ''**REMOVE**''} \<or> take 1 (aa_action a) = ''/'')
        ''APT package payload path must be absolute'']"

fun action_of_fields :: "string list \<Rightarrow> apt_action option" where
  "action_of_fields [p, ov, oa, om, d, nv, na, nm, a] =
     Some \<lparr>aa_package = p, aa_old_version = ov, aa_old_arch = oa, aa_old_multiarch = om, aa_direction = d,
           aa_new_version = nv, aa_new_arch = na, aa_new_multiarch = nm, aa_action = a\<rparr>"
| "action_of_fields _ = None"

definition parse_action :: "string \<Rightarrow> apt_action res" where
  "parse_action line =
     (case action_of_fields (split_max 8 CHR '' '' line) of
        None \<Rightarrow> Inl (Refusal ''malformed APT package action'')
      | Some a \<Rightarrow> rbind (checks (action_checks a)) (\<lambda>_. Inr a))"

fun parse_actions :: "apt_action list \<Rightarrow> string list \<Rightarrow> apt_action list res" where
  "parse_actions acc [] = Inr acc"
| "parse_actions acc (line # lines) =
     (if line = [] then parse_actions acc lines
      else rbind (parse_action line) (\<lambda>a.
        if length (acc @ [a]) > max_actions then Inl (Refusal ''APT hook action count exceeds limit'')
        else parse_actions (acc @ [a]) lines))"

definition config_line_check :: "string \<Rightarrow> unit res" where
  "config_line_check line =
     (if CHR ''='' \<notin> set line then Inl (Refusal ''malformed APT configuration line'')
      else if hd line = CHR ''='' then Inl (Refusal ''empty APT configuration key'')
      else Inr ())"

text \<open>\<^verbatim>\<open>lines.index("", 1)\<close> splits the lines after the first at the first empty one.\<close>

definition parse_lines :: "string list \<Rightarrow> apt_action list res" where
  "parse_lines lines =
     (case lines of [] \<Rightarrow> Inl (Refusal ''APT hook protocol v3 is required'')
      | first # rest \<Rightarrow>
         if first \<noteq> ''VERSION 3'' then Inl (Refusal ''APT hook protocol v3 is required'')
         else if [] \<notin> set rest then Inl (Refusal ''APT hook protocol has no configuration terminator'')
         else rbind (check_each config_line_check (takeWhile (\<lambda>l. l \<noteq> []) rest)) (\<lambda>_.
              parse_actions [] (tl (dropWhile (\<lambda>l. l \<noteq> []) rest))))"

definition parse_protocol_v3 :: "(string \<Rightarrow> string option) \<Rightarrow> string \<Rightarrow> apt_action list res" where
  "parse_protocol_v3 decode raw =
     (if length raw > max_protocol_bytes then Inl (Refusal ''APT hook protocol exceeds size limit'')
      else case decode raw of
        None \<Rightarrow> Inl (Refusal ''APT hook protocol is not UTF-8'')
      | Some t \<Rightarrow> parse_lines (splitlines t))"

section \<open>Actions\<close>

definition base_package :: "string \<Rightarrow> string" where
  "base_package name = takeWhile (\<lambda>c. c \<noteq> CHR '':'') name"

definition watched :: "(pyval \<Rightarrow> string \<Rightarrow> bool res) \<Rightarrow> pyval \<Rightarrow> apt_action \<Rightarrow> bool res" where
  "watched re_match manifest a =
     (let name = base_package (aa_package a) in
      ror (rbind (pyget manifest ''watched_packages'' (PList [])) (contains (PStr name)))
          (rbind (pyget manifest ''watched_package_patterns'' (PList [])) (\<lambda>ps.
           rbind (pyiter ps) (rany (\<lambda>p. re_match p name)))))"

definition relevant_actions :: "(pyval \<Rightarrow> string \<Rightarrow> bool res) \<Rightarrow> pyval \<Rightarrow> apt_action list \<Rightarrow> apt_action list res" where
  "relevant_actions re_match manifest acts = rfilter (watched re_match manifest) acts"

definition identity_change :: "apt_action \<Rightarrow> pyval option" where
  "identity_change a =
     (if aa_old_arch a \<noteq> ''-'' \<and> aa_new_arch a \<noteq> ''-'' \<and> aa_old_arch a \<noteq> aa_new_arch a
      then Some (PDict [(''package'', PStr (aa_package a)), (''old_arch'', PStr (aa_old_arch a)),
                       (''new_arch'', PStr (aa_new_arch a)), (''reason'', PStr ''architecture-change'')])
      else if aa_old_multiarch a \<noteq> ''-'' \<and> aa_new_multiarch a \<noteq> ''-''
              \<and> aa_old_multiarch a \<noteq> aa_new_multiarch a
      then Some (PDict [(''package'', PStr (aa_package a)), (''old_multiarch'', PStr (aa_old_multiarch a)),
                       (''new_multiarch'', PStr (aa_new_multiarch a)), (''reason'', PStr ''multiarch-change'')])
      else None)"

definition unsupported_identity_changes :: "apt_action list \<Rightarrow> pyval list" where
  "unsupported_identity_changes acts = List.map_filter identity_change acts"

definition action_version :: "apt_action \<Rightarrow> pyval" where
  "action_version a =
     (if aa_action a = ''**REMOVE**'' \<or> aa_new_version a = ''-'' then PNone else PStr (aa_new_version a))"

text \<open>\<^verbatim>\<open>dict(installed)\<close> is asked of a dict here, not of a list of pairs, which Python accepts too; the loop then assigns one package per action.\<close>

definition resulting_versions :: "pyval \<Rightarrow> apt_action list \<Rightarrow> pyval res" where
  "resulting_versions installed acts =
     (if is_dict installed
      then Inr (PDict (fold (\<lambda>a. dict_set (base_package (aa_package a)) (action_version a)) acts (items installed)))
      else Inl (TypeError ''installed is not a dict''))"

section \<open>The catalogue\<close>

text \<open>\<^verbatim>\<open>expected and all(versions.get(name) == value for name, value in expected.items())\<close>\<close>

definition packages_match :: "pyval \<Rightarrow> pyval \<Rightarrow> bool res" where
  "packages_match versions expected =
     (if \<not> truthy expected then Inr False
      else if \<not> is_dict expected then Inl (AttributeError ''items'')
      else rall (\<lambda>(name, v). rbind (pyget versions name PNone) (\<lambda>w. Inr (pyeq w v))) (items expected))"

record runtime_query =
  rq_profile :: pyval
  rq_api :: pyval
  rq_kernel :: pyval
  rq_plugin :: pyval
  rq_scope :: pyval

definition get_list :: "pyval \<Rightarrow> string \<Rightarrow> pyval res" where
  "get_list v k = pyget v k (PList [])"

definition has_status :: "pyval \<Rightarrow> bool res" where
  "has_status item = rbind (pyget item ''status'' PNone) (\<lambda>st. in_strs st [''QUALIFIED'', ''EXACT_LAB_TESTED''])"

definition untested :: "pyval \<Rightarrow> bool res" where
  "untested item = rbind (pyget item ''required_tests'' PNone) (\<lambda>t. Inr (truthy t))"

definition exact_row :: "runtime_query \<Rightarrow> pyval \<Rightarrow> pyval \<Rightarrow> bool res" where
  "exact_row rq versions item =
     rand (has_status item)
    (rand (rnot (untested item))
    (rand (rbind (get_list item ''profiles'') (contains (rq_profile rq)))
    (rand (Inr (pyeq (fld item ''api'') (rq_api rq)))
    (rand (Inr (pyeq (fld item ''running_kernel'') (rq_kernel rq)))
    (rand (rbind (get_list item ''scopes'') (contains (rq_scope rq)))
    (rand (rbind (get_list item ''plugin_versions'') (contains (rq_plugin rq)))
          (rbind (pyget item ''packages'' (PDict [])) (packages_match versions))))))))"

definition observed_row :: "runtime_query \<Rightarrow> pyval \<Rightarrow> pyval \<Rightarrow> bool res" where
  "observed_row rq versions item =
     rand (rbind (get_list item ''profiles'') (contains (rq_profile rq)))
    (rand (Inr (pyeq (fld item ''api'') (rq_api rq)))
    (rand (Inr (pyeq (fld item ''running_kernel'') (rq_kernel rq)))
    (rand (rbind (get_list item ''plugin_versions'') (contains (rq_plugin rq)))
          (rbind (pyget item ''packages'' (PDict [])) (packages_match versions)))))"

text \<open>The common end of the three searches: more than one match is refused.\<close>

definition at_most_one :: "string \<Rightarrow> pyval list \<Rightarrow> pyval option res" where
  "at_most_one msg rows =
     (if length rows > 1 then Inl (Refusal msg)
      else Inr (case rows of [] \<Rightarrow> None | r # _ \<Rightarrow> Some r))"

definition exact_tuple :: "pyval \<Rightarrow> pyval \<Rightarrow> runtime_query \<Rightarrow> pyval option res" where
  "exact_tuple manifest versions rq =
     rbind (get_list manifest ''tuples'') (\<lambda>ts.
     rbind (pyiter ts) (\<lambda>rows.
     rbind (rfilter (exact_row rq versions) rows)
       (at_most_one ''runtime matches multiple qualified compatibility tuples'')))"

definition observed_tuple :: "pyval \<Rightarrow> pyval \<Rightarrow> runtime_query \<Rightarrow> pyval option res" where
  "observed_tuple manifest versions rq =
     rbind (get_list manifest ''tuples'') (\<lambda>ts.
     rbind (pyiter ts) (\<lambda>rows.
     rbind (rfilter (observed_row rq versions) rows)
       (at_most_one ''runtime matches multiple compatibility tuples'')))"

definition planned_tuple :: "pyval \<Rightarrow> pyval \<Rightarrow> runtime_query \<Rightarrow> pyval option res" where
  "planned_tuple manifest versions rq =
     rbind (exact_tuple manifest versions (rq\<lparr>rq_api := PInt 14\<rparr>)) (\<lambda>a.
     rbind (exact_tuple manifest versions (rq\<lparr>rq_api := PInt 15\<rparr>)) (\<lambda>b.
     rbind (exact_tuple manifest versions (rq\<lparr>rq_api := PInt 16\<rparr>)) (\<lambda>c.
       at_most_one ''candidate matches multiple qualified compatibility tuples''
         (concat (map (case_option [] (\<lambda>r. [r])) [a, b, c])))))"

section \<open>Candidate catalogues\<close>

definition str_with :: "(string \<Rightarrow> bool) \<Rightarrow> pyval \<Rightarrow> bool" where
  "str_with p v \<longleftrightarrow> is_str v \<and> p (str_of v)"

definition nonempty_list :: "pyval \<Rightarrow> bool" where
  "nonempty_list v \<longleftrightarrow> is_list v \<and> list_of v \<noteq> []"

definition catalogue_row_ok :: "pyval \<Rightarrow> bool res" where
  "catalogue_row_ok row =
     rand (Inr (is_dict row \<and> str_with (\<lambda>s. s \<noteq> []) (fld row ''id'') \<and> is_int (fld row ''api'')
            \<and> str_with (\<lambda>s. s \<noteq> []) (fld row ''running_kernel'')
            \<and> str_with (\<lambda>s. s \<noteq> []) (fld row ''status'') \<and> nonempty_list (fld row ''profiles'')))
    (rand (rall (\<lambda>p. in_strs p [''dual'', ''thick-only'']) (list_of (fld row ''profiles'')))
    (Inr (nonempty_list (fld row ''plugin_versions'')
          \<and> (\<forall>v \<in> set (list_of (fld row ''plugin_versions'')). str_with version_re v)
          \<and> is_dict (fld row ''packages'') \<and> items (fld row ''packages'') \<noteq> []
          \<and> (\<forall>kv \<in> set (items (fld row ''packages'')). package_re (fst kv) \<and> str_with version_re (snd kv)))))"

definition catalogue_head_checks :: "pyval \<Rightarrow> (bool \<times> exc) list" where
  "catalogue_head_checks manifest =
     (let names = list_of (fld manifest ''watched_packages'') in
      [need (is_dict manifest \<and> pyeq (fld manifest ''schema'') (PInt 1)
             \<and> pyeq (fld manifest ''catalogue'') (PStr ''pve-qualified-tuples-v1''))
         ''invalid candidate tuple catalogue'',
       need (nonempty_list (fld manifest ''watched_packages'')
             \<and> (\<forall>n \<in> set names. str_with (\<lambda>s. package_re s \<and> CHR '':'' \<notin> set s) n)
             \<and> distinct (map str_of names) \<and> nonempty_list (fld manifest ''tuples''))
         ''incomplete candidate tuple catalogue''])"

definition catalogue_row_check :: "pyval \<Rightarrow> pyval \<Rightarrow> unit res" where
  "catalogue_row_check manifest row =
     rbind (catalogue_row_ok row) (\<lambda>ok.
     checks [need ok ''malformed candidate tuple catalogue row'',
             need (set (keys (fld row ''packages'')) \<subseteq> str_of ` set (list_of (fld manifest ''watched_packages'')))
               ''candidate tuple requires an unwatched package''])"

definition validate_candidate_catalogue :: "pyval \<Rightarrow> unit res" where
  "validate_candidate_catalogue manifest =
     rbind (checks (catalogue_head_checks manifest)) (\<lambda>_.
     check_each (catalogue_row_check manifest) (list_of (fld manifest ''tuples'')))"

definition candidate_runtime_tuple :: "pyval \<Rightarrow> pyval \<Rightarrow> runtime_query \<Rightarrow> pyval option res" where
  "candidate_runtime_tuple manifest versions rq =
     rbind (validate_candidate_catalogue manifest) (\<lambda>_.
     rbind (observed_tuple manifest versions rq) (\<lambda>observed.
     case observed of None \<Rightarrow> Inr None
     | Some row \<Rightarrow>
         if \<not> is_dict row then Inr None
         else rbind (in_strs (fld row ''status'') [''EXACT_LAB_TESTED'', ''RETEST_REQUIRED'']) (\<lambda>ok.
              Inr (if ok then Some row else None))))"

section \<open>The verdict\<close>

type_synonym version_compare = "pyval \<Rightarrow> string \<Rightarrow> pyval \<Rightarrow> bool res"

fun first_rule :: "(pyval \<Rightarrow> bool res) \<Rightarrow> pyval list \<Rightarrow> pyval option res" where
  "first_rule p [] = Inr None"
| "first_rule p (r # rs) = rbind (p r) (\<lambda>b. if b then Inr (Some r) else first_rule p rs)"

definition known_incompatible :: "pyval \<Rightarrow> pyval \<Rightarrow> version_compare \<Rightarrow> pyval option res" where
  "known_incompatible manifest versions cmp =
     rbind (pyget versions ''libpve-storage-perl'' PNone) (\<lambda>storage.
     rbind (pyget versions ''qemu-server'' PNone) (\<lambda>qemu.
     if \<not> truthy storage \<or> \<not> truthy qemu then Inr None
     else
       rbind (get_list manifest ''known_incompatible'') (\<lambda>rs.
       rbind (pyiter rs) (first_rule (\<lambda>rule.
         rand (rbind (pysub rule ''storage_min'') (cmp storage ''ge''))
              (rbind (pysub rule ''qemu_max_exclusive'') (cmp qemu ''lt'')))))))"

definition action_dict :: "apt_action \<Rightarrow> pyval" where
  "action_dict a = PDict
     [(''package'', PStr (aa_package a)), (''old_version'', PStr (aa_old_version a)),
      (''old_arch'', PStr (aa_old_arch a)), (''old_multiarch'', PStr (aa_old_multiarch a)),
      (''direction'', PStr (aa_direction a)), (''new_version'', PStr (aa_new_version a)),
      (''new_arch'', PStr (aa_new_arch a)), (''new_multiarch'', PStr (aa_new_multiarch a)),
      (''action'', PStr (aa_action a))]"

definition verdict :: "string \<Rightarrow> (string \<times> pyval) list \<Rightarrow> apt_action list \<Rightarrow> bool \<Rightarrow> pyval" where
  "verdict name extra related gate = PDict
     ([(''verdict'', PStr name)] @ extra
      @ [(''relevant'', PList (map action_dict related)), (''post_gate_required'', PBool gate)])"

definition unrepresented_packages :: "apt_action list \<Rightarrow> pyval list \<Rightarrow> string list" where
  "unrepresented_packages related represented =
     sorted_list_of_set
       (set (filter (\<lambda>n. PStr n \<notin> set represented) (map (\<lambda>a. base_package (aa_package a)) related)))"

definition edge_matches :: "pyval \<Rightarrow> pyval \<Rightarrow> pyval \<Rightarrow> bool res" where
  "edge_matches cur_id tgt_id edge =
     rand (rbind (pyget edge ''from'' PNone) (\<lambda>v. Inr (pyeq v cur_id)))
    (rand (Inr (pyeq (fld edge ''to'') tgt_id))
    (rand (has_status edge) (rnot (untested edge))))"

definition storage_package :: string where "storage_package = ''libpve-storage-perl''"

definition storage_version :: "pyval \<Rightarrow> pyval res" where
  "storage_version row = rbind (pyget row ''packages'' (PDict [])) (\<lambda>p. pyget p storage_package PNone)"

definition next_api :: "pyval \<Rightarrow> pyval \<Rightarrow> bool res" where
  "next_api cur_api tgt_api =
     (if is_int cur_api \<or> is_bool cur_api then Inr (pyeq tgt_api (PInt (int_of cur_api + 1)))
      else Inl (TypeError ''unsupported operand''))"

definition api_transition_ok :: "pyval \<Rightarrow> pyval \<Rightarrow> pyval \<Rightarrow> apt_action list \<Rightarrow> bool res" where
  "api_transition_ok cur tgt edge related =
     rbind (pysub cur ''api'') (\<lambda>ca.
     rbind (pysub tgt ''api'') (\<lambda>ta.
     rbind (storage_version cur) (\<lambda>ov.
     rbind (storage_version tgt) (\<lambda>nv.
     (let acts = filter (\<lambda>a. base_package (aa_package a) = storage_package) related in
      rand (next_api ca ta)
        (Inr (pyeq (fld edge ''api_transition'')
                (PDict [(''from'', ca), (''to'', ta), (''package'', PStr storage_package),
                        (''old_version'', ov), (''new_version'', nv)])
              \<and> \<not> pyeq ov nv \<and> length acts = 1 \<and> take 1 (aa_action (hd acts)) = ''/''
              \<and> pyeq (PStr (aa_old_version (hd acts))) ov \<and> pyeq (PStr (aa_new_version (hd acts))) nv)))))))"

text \<open>The two tuple ids that most verdicts carry.\<close>

definition tuple_ids :: "pyval \<Rightarrow> pyval \<Rightarrow> (string \<times> pyval) list" where
  "tuple_ids ci ti = [(''current_tuple'', ci), (''target_tuple'', ti)]"

text \<open>Lines 321 to 368: the tuples differ.\<close>

definition evaluate_edge :: "pyval \<Rightarrow> pyval \<Rightarrow> pyval \<Rightarrow> pyval \<Rightarrow> pyval \<Rightarrow> apt_action list \<Rightarrow> string list \<Rightarrow> pyval res" where
  "evaluate_edge manifest cur tgt ci ti related unrep =
     rbind (get_list manifest ''rolling_edges'') (\<lambda>es.
     rbind (pyiter es) (\<lambda>edges.
     rbind (rfilter (edge_matches ci ti) edges) (\<lambda>found.
     rbind (at_most_one ''multiple qualified upgrade edges match the transaction'' found) (\<lambda>choice.
     case choice of
       None \<Rightarrow> Inr (verdict ''REFUSE_UNQUALIFIED_EDGE'' (tuple_ids ci ti) related False)
     | Some edge \<Rightarrow>
         rbind (pysub tgt ''api'') (\<lambda>ta.
         rbind (pysub cur ''api'') (\<lambda>ca.
         rbind (if pyeq ta ca then Inr True else api_transition_ok cur tgt edge related) (\<lambda>api_ok.
         if \<not> api_ok then Inr (verdict ''REFUSE_UNQUALIFIED_API_TRANSITION'' (tuple_ids ci ti) related False)
         else
           rbind (get_list edge ''allowed_package_changes'') (\<lambda>extra.
           if truthy extra then
             rbind (pyiter extra) (\<lambda>xs. rbind (py_sorted_set xs) (\<lambda>sorted_xs.
             Inr (verdict ''REFUSE_UNSAFE_EDGE_ALLOWANCE'' ([(''packages'', PList sorted_xs)] @ tuple_ids ci ti)
                    related False)))
           else if unrep \<noteq> [] then
             Inr (verdict ''REFUSE_UNQUALIFIED_PACKAGE_CHANGE''
                    ([(''packages'', PList (map PStr unrep))] @ tuple_ids ci ti) related False)
           else Inr (verdict ''ALLOW_QUALIFIED_EDGE''
                  (tuple_ids ci ti @ [(''edge'', fld edge ''id''), (''source_api'', ca), (''target_api'', ta)])
                  related True))))))))) "

text \<open>Lines 298 to 320: the current and the target tuple.\<close>

definition evaluate_tuples :: "pyval \<Rightarrow> pyval \<Rightarrow> pyval \<Rightarrow> pyval \<Rightarrow> pyval \<Rightarrow> apt_action list \<Rightarrow> pyval res" where
  "evaluate_tuples manifest policy ctx installed versions related =
     rbind (pysub ctx ''profile'') (\<lambda>profile.
     rbind (pysub ctx ''api'') (\<lambda>api.
     rbind (pysub ctx ''running_kernel'') (\<lambda>kernel.
     rbind (pysub ctx ''plugin_version'') (\<lambda>plugin.
     rbind (pyget policy ''required_scope'' (PStr ''san-dataplane'')) (\<lambda>scope.
     (let rq = \<lparr>rq_profile = profile, rq_api = api, rq_kernel = kernel, rq_plugin = plugin, rq_scope = scope\<rparr> in
      rbind (exact_tuple manifest installed rq) (\<lambda>current.
      rbind (planned_tuple manifest versions rq) (\<lambda>target.
      case (current, target) of
        (Some cur, Some tgt) \<Rightarrow>
          rbind (pyget tgt ''packages'' (PDict [])) (\<lambda>pk.
          rbind (pyiter pk) (\<lambda>represented.
          (let unrep = unrepresented_packages related represented in
           rbind (pysub cur ''id'') (\<lambda>ci.
           rbind (pysub tgt ''id'') (\<lambda>ti.
           if pyeq ci ti then
             if unrep \<noteq> [] then
               Inr (verdict ''REFUSE_UNQUALIFIED_PACKAGE_CHANGE''
                      ([(''packages'', PList (map PStr unrep))] @ tuple_ids ci ti) related False)
             else Inr (verdict ''ALLOW_QUALIFIED'' (tuple_ids ci ti) related True)
           else evaluate_edge manifest cur tgt ci ti related unrep)))))
      | _ \<Rightarrow>
          rbind (case current of None \<Rightarrow> Inr PNone | Some cur \<Rightarrow> pysub cur ''id'') (\<lambda>ci.
          rbind (case target of None \<Rightarrow> Inr PNone | Some tgt \<Rightarrow> pysub tgt ''id'') (\<lambda>ti.
          Inr (verdict ''REFUSE_UNQUALIFIED'' (tuple_ids ci ti) related False)))))))))))"

definition policy_evaluate :: "(pyval \<Rightarrow> string \<Rightarrow> bool res) \<Rightarrow> apt_action list \<Rightarrow> pyval \<Rightarrow> pyval \<Rightarrow> pyval
    \<Rightarrow> version_compare \<Rightarrow> pyval res" where
  "policy_evaluate re_match acts manifest policy ctx cmp =
     rbind (relevant_actions re_match manifest acts) (\<lambda>related.
     if related = [] then Inr (verdict ''ALLOW_UNRELATED'' [] [] False)
     else
       rbind (pyget policy ''mode'' PNone) (\<lambda>mode.
       if mode = PStr ''UNSELECTED'' then Inr (verdict ''REFUSE_POLICY_UNSELECTED'' [] related False)
       else
         rbind (in_strs mode [''WARN'', ''MANUAL_OVERRIDE'']) (\<lambda>manual.
         if manual then Inr (verdict ''REQUIRE_EXACT_MANUAL_AUTHORIZATION'' [] related False)
         else if mode \<notin> {PStr ''QUALIFIED_AUTO'', PStr ''QUALIFIED_ONLY'', PStr ''FREEZE''}
           then Inl (Refusal ''unknown update policy mode'')
         else if mode = PStr ''FREEZE'' then Inr (verdict ''REFUSE_FREEZE'' [] related False)
         else if unsupported_identity_changes related \<noteq> [] then
           Inr (verdict ''REFUSE_UNQUALIFIED_PACKAGE_IDENTITY_CHANGE''
                  [(''identity_changes'', PList (unsupported_identity_changes related))] related False)
         else
           rbind (pysub ctx ''installed'') (\<lambda>installed.
           rbind (resulting_versions installed acts) (\<lambda>versions.
           rbind (known_incompatible manifest versions cmp) (\<lambda>incompatible.
           case incompatible of
             Some rule \<Rightarrow>
               if truthy rule then
                 rbind (pysub rule ''reason'') (\<lambda>reason.
                 Inr (verdict ''REFUSE_KNOWN_INCOMPATIBLE'' [(''reason'', reason)] related False))
               else evaluate_tuples manifest policy ctx installed versions related
           | None \<Rightarrow> evaluate_tuples manifest policy ctx installed versions related))))))"

section \<open>What a catalogue row must say\<close>

text \<open>The declarative reading of a row that qualifies a runtime.\<close>

definition qualified_row :: "runtime_query \<Rightarrow> pyval \<Rightarrow> pyval \<Rightarrow> bool" where
  "qualified_row rq versions item \<longleftrightarrow>
     is_dict item \<and> fld item ''status'' \<in> {PStr ''QUALIFIED'', PStr ''EXACT_LAB_TESTED''}
     \<and> \<not> truthy (fld item ''required_tests'')
     \<and> contains (rq_profile rq) (fld item ''profiles'') = Inr True
     \<and> pyeq (fld item ''api'') (rq_api rq) \<and> pyeq (fld item ''running_kernel'') (rq_kernel rq)
     \<and> contains (rq_scope rq) (fld item ''scopes'') = Inr True
     \<and> contains (rq_plugin rq) (fld item ''plugin_versions'') = Inr True
     \<and> is_dict (fld item ''packages'') \<and> items (fld item ''packages'') \<noteq> []
     \<and> (\<forall>(name, v) \<in> set (items (fld item ''packages'')). pyeq (fld versions name) v)"

lemma contains_empty [simp]: "contains x (PList []) = Inr False"
  by (simp add: contains_def)

lemma get_list_contains:
  "rbind (get_list item k) (contains x) = Inr True \<Longrightarrow> is_dict item \<and> contains x (fld item k) = Inr True"
  by (auto simp: get_list_def pyget_def fld_def split: if_splits option.splits)

lemma packages_match_True:
  "rbind (pyget item ''packages'' (PDict [])) (packages_match versions) = Inr True \<Longrightarrow>
     is_dict (fld item ''packages'') \<and> items (fld item ''packages'') \<noteq> []
     \<and> (\<forall>(name, v) \<in> set (items (fld item ''packages'')). pyeq (fld versions name) v)"
proof -
  assume "rbind (pyget item ''packages'' (PDict [])) (packages_match versions) = Inr True"
  then obtain p where p: "pyget item ''packages'' (PDict []) = Inr p" "packages_match versions p = Inr True"
    by (auto simp: rbind_Inr)
  then have t: "truthy p" "is_dict p"
    and m: "\<And>name v. (name, v) \<in> set (items p) \<Longrightarrow> pyeq (fld versions name) v"
    by (auto simp: packages_match_def rbind_Inr split: if_splits)
  moreover have "items p \<noteq> []" using t by (cases p) auto
  moreover from p(1) t have "p = fld item ''packages''"
    by (auto simp: pyget_def fld_def split: if_splits option.splits)
  ultimately show ?thesis by auto
qed

lemma has_status_True: "has_status item = Inr True \<longleftrightarrow>
    is_dict item \<and> fld item ''status'' \<in> {PStr ''QUALIFIED'', PStr ''EXACT_LAB_TESTED''}"
  by (auto simp: has_status_def rbind_Inr)

lemma untested_False: "untested item = Inr False \<longleftrightarrow> is_dict item \<and> \<not> truthy (fld item ''required_tests'')"
  by (auto simp: untested_def rbind_Inr)

lemma exact_row_qualified: "exact_row rq versions item = Inr True \<Longrightarrow> qualified_row rq versions item"
  unfolding exact_row_def rand_True qualified_row_def
  by (auto simp: has_status_True untested_False dest!: get_list_contains packages_match_True)

lemma at_most_one_Some: "at_most_one msg rows = Inr (Some r) \<longleftrightarrow> rows = [r]"
  by (cases rows) (auto simp: at_most_one_def)

definition catalogue_rows :: "pyval \<Rightarrow> pyval list" where
  "catalogue_rows manifest = (case fld manifest ''tuples'' of PList vs \<Rightarrow> vs | PTuple vs \<Rightarrow> vs | _ \<Rightarrow> [])"

lemma exact_tuple_Some:
  assumes "exact_tuple manifest versions rq = Inr (Some item)"
  shows "\<exists>rows. rbind (get_list manifest ''tuples'') pyiter = Inr rows
     \<and> filter (\<lambda>r. exact_row rq versions r = Inr True) rows = [item]"
  using assms
  by (auto simp: exact_tuple_def rbind_Inr at_most_one_Some dest!: rfilter_Inr)

text \<open>Rows that are dicts can only come from a list of tuples.\<close>

lemma pyiter_dict: "pyiter v = Inr rows \<Longrightarrow> r \<in> set rows \<Longrightarrow> is_dict r \<Longrightarrow> v = PList rows \<or> v = PTuple rows"
  by (cases v) (auto simp: pyiter_def)

lemma get_list_rows:
  assumes "rbind (get_list manifest k) pyiter = Inr rows" "r \<in> set rows" "is_dict r"
  shows "fld manifest k = PList rows \<or> fld manifest k = PTuple rows"
proof -
  from assms obtain v where v: "get_list manifest k = Inr v" "v = PList rows \<or> v = PTuple rows"
    by (auto simp: rbind_Inr dest: pyiter_dict)
  with assms(2) show ?thesis by (auto simp: get_list_def pyget_def fld_def split: if_splits option.splits)
qed

lemma exact_tuple_row:
  assumes "exact_tuple manifest versions rq = Inr (Some item)"
  shows "item \<in> set (catalogue_rows manifest) \<and> qualified_row rq versions item"
proof -
  from exact_tuple_Some [OF assms] obtain rows where rows: "rbind (get_list manifest ''tuples'') pyiter = Inr rows"
    and f: "filter (\<lambda>r. exact_row rq versions r = Inr True) rows = [item]" by blast
  from f have "item \<in> set (filter (\<lambda>r. exact_row rq versions r = Inr True) rows)" by simp
  then have i: "item \<in> set rows" "exact_row rq versions item = Inr True" by auto
  from exact_row_qualified [OF i(2)] have q: "qualified_row rq versions item" .
  then have "is_dict item" by (simp add: qualified_row_def)
  from get_list_rows [OF rows i(1) this] i q show ?thesis by (auto simp: catalogue_rows_def)
qed

lemma planned_tuple_row:
  assumes "planned_tuple manifest versions rq = Inr (Some item)"
  shows "item \<in> set (catalogue_rows manifest)
     \<and> (\<exists>api \<in> {14, 15, 16}. qualified_row (rq\<lparr>rq_api := PInt api\<rparr>) versions item)"
proof -
  from assms obtain a b c where abc:
    "exact_tuple manifest versions (rq\<lparr>rq_api := PInt 14\<rparr>) = Inr a"
    "exact_tuple manifest versions (rq\<lparr>rq_api := PInt 15\<rparr>) = Inr b"
    "exact_tuple manifest versions (rq\<lparr>rq_api := PInt 16\<rparr>) = Inr c"
    "concat (map (case_option [] (\<lambda>r. [r])) [a, b, c]) = [item]"
    by (auto simp: planned_tuple_def rbind_Inr at_most_one_Some)
  then have "a = Some item \<or> b = Some item \<or> c = Some item" by (auto split: option.splits)
  with abc show ?thesis by (blast dest: exact_tuple_row)
qed

lemma verdict_fields [simp]:
  "fld (verdict n extra related g) ''verdict'' = PStr n"
  by (simp add: verdict_def)

lemma verdict_neq [simp]: "n \<noteq> m \<Longrightarrow> verdict n e r g \<noteq> verdict m e' r' g'"
  by (simp add: verdict_def)

lemma verdict_gate:
  "''post_gate_required'' \<notin> fst ` set extra \<Longrightarrow> fld (verdict n extra related g) ''post_gate_required'' = PBool g"
  by (induction extra) (auto simp: verdict_def fld_def map_of_append map_add_def split: option.splits)

lemma resulting_version_of:
  assumes "resulting_versions installed acts = Inr versions"
  shows "fld versions name =
     (case rev (filter (\<lambda>a. base_package (aa_package a) = name) acts) of
        [] \<Rightarrow> fld installed name | a # _ \<Rightarrow> action_version a)"
proof -
  have "map_of (fold (\<lambda>a. dict_set (base_package (aa_package a)) (action_version a)) acts d) name =
     (case rev (filter (\<lambda>a. base_package (aa_package a) = name) acts) of
        [] \<Rightarrow> map_of d name | a # _ \<Rightarrow> Some (action_version a))" for d
  proof (induction acts arbitrary: d)
    case Nil
    then show ?case by simp
  next
    case (Cons a acts)
    then show ?case by (auto split: list.splits simp: append_eq_Cons_conv)
  qed
  with assms show ?thesis
    by (auto simp: resulting_versions_def fld_def split: if_splits list.splits option.splits)
qed

section \<open>What an allowed transaction rests on\<close>

definition qualified_edge :: "pyval \<Rightarrow> pyval \<Rightarrow> pyval \<Rightarrow> pyval \<Rightarrow> bool" where
  "qualified_edge manifest ci ti edge \<longleftrightarrow>
     edge \<in> set (list_of (fld manifest ''rolling_edges''))
     \<and> is_dict edge \<and> pyeq (fld edge ''from'') ci \<and> pyeq (fld edge ''to'') ti
     \<and> fld edge ''status'' \<in> {PStr ''QUALIFIED'', PStr ''EXACT_LAB_TESTED''}
     \<and> \<not> truthy (fld edge ''required_tests'') \<and> \<not> truthy (fld edge ''allowed_package_changes'')"

lemma tuple_ids_gate [simp]: "''post_gate_required'' \<notin> fst ` set (tuple_ids ci ti)"
  by (simp add: tuple_ids_def)

lemma verdict_gate_tuple [simp]:
  "fld (verdict n (tuple_ids ci ti) rel g) ''post_gate_required'' = PBool g"
  "fld (verdict n [] rel g) ''post_gate_required'' = PBool g"
  "fld (verdict n ((''packages'', p) # tuple_ids ci ti) rel g) ''post_gate_required'' = PBool g"
  "fld (verdict n (tuple_ids ci ti @ [(''edge'', e), (''source_api'', a), (''target_api'', b)]) rel g)
     ''post_gate_required'' = PBool g"
  "fld (verdict n [(''identity_changes'', p)] rel g) ''post_gate_required'' = PBool g"
  "fld (verdict n [(''reason'', p)] rel g) ''post_gate_required'' = PBool g"
  by (subst verdict_gate; simp add: tuple_ids_def)+

lemma edge_matches_True:
  "edge_matches ci ti edge = Inr True \<longleftrightarrow>
     is_dict edge \<and> pyeq (fld edge ''from'') ci \<and> pyeq (fld edge ''to'') ti
     \<and> fld edge ''status'' \<in> {PStr ''QUALIFIED'', PStr ''EXACT_LAB_TESTED''}
     \<and> \<not> truthy (fld edge ''required_tests'')"
  by (auto simp: edge_matches_def rbind_Inr has_status_True untested_False)

lemma get_list_falsy:
  "get_list v k = Inr w \<Longrightarrow> \<not> truthy w \<Longrightarrow> \<not> truthy (fld v k)"
  by (auto simp: get_list_def pyget_def fld_def split: if_splits option.splits)

lemma evaluate_edge_allow:
  assumes "evaluate_edge manifest cur tgt ci ti related unrep = Inr r"
    and "fld r ''post_gate_required'' = PBool True"
  shows "unrep = [] \<and> fld r ''verdict'' = PStr ''ALLOW_QUALIFIED_EDGE''
     \<and> (\<exists>edge. qualified_edge manifest ci ti edge
          \<and> (pyeq (fld tgt ''api'') (fld cur ''api'') \<or> api_transition_ok cur tgt edge related = Inr True))"
proof -
  from assms(1) obtain es edges found choice where
    es: "get_list manifest ''rolling_edges'' = Inr es" "pyiter es = Inr edges"
    "rfilter (edge_matches ci ti) edges = Inr found"
    "at_most_one ''multiple qualified upgrade edges match the transaction'' found = Inr choice"
    by (auto simp: evaluate_edge_def rbind_Inr)
  from assms es obtain edge where choice: "choice = Some edge"
    by (cases choice) (auto simp: evaluate_edge_def)
  with es(4) have "found = [edge]" by (simp add: at_most_one_Some)
  with rfilter_Inr [OF es(3)] have "edge \<in> set (filter (\<lambda>e. edge_matches ci ti e = Inr True) edges)"
    by (metis list.set_intros(1))
  then have edge: "edge \<in> set edges" "edge_matches ci ti edge = Inr True" by auto
  then have d: "is_dict edge" by (simp add: edge_matches_True)
  have list: "list_of (fld manifest ''rolling_edges'') = edges"
    using get_list_rows [OF _ edge(1) d, of manifest "''rolling_edges''"] es(1,2) by auto
  from assms es choice obtain ta ca extra where
    rest: "pysub tgt ''api'' = Inr ta" "pysub cur ''api'' = Inr ca"
    "(if pyeq ta ca then Inr True else api_transition_ok cur tgt edge related) = Inr True"
    "get_list edge ''allowed_package_changes'' = Inr extra" "\<not> truthy extra" "unrep = []"
    "fld r ''verdict'' = PStr ''ALLOW_QUALIFIED_EDGE''"
    by (auto simp: evaluate_edge_def rbind_Inr split: if_splits)
  then have "pyeq (fld tgt ''api'') (fld cur ''api'') \<or> api_transition_ok cur tgt edge related = Inr True"
    by (auto dest: pysub_fld split: if_splits)
  moreover have "qualified_edge manifest ci ti edge"
    using edge list get_list_falsy [OF rest(4,5)] by (simp add: qualified_edge_def edge_matches_True)
  ultimately show ?thesis using rest by blast
qed

text \<open>The conditions of an allowed transaction, over the related actions and the two versions.\<close>

definition allowed_by :: "pyval \<Rightarrow> pyval \<Rightarrow> pyval \<Rightarrow> pyval \<Rightarrow> pyval \<Rightarrow> apt_action list \<Rightarrow> bool" where
  "allowed_by manifest policy ctx installed versions related \<longleftrightarrow>
     (\<exists>rq cur tgt.
        rq_profile rq = fld ctx ''profile'' \<and> rq_api rq = fld ctx ''api''
        \<and> rq_kernel rq = fld ctx ''running_kernel'' \<and> rq_plugin rq = fld ctx ''plugin_version''
        \<and> pyget policy ''required_scope'' (PStr ''san-dataplane'') = Inr (rq_scope rq)
        \<and> cur \<in> set (catalogue_rows manifest) \<and> qualified_row rq installed cur
        \<and> tgt \<in> set (catalogue_rows manifest)
        \<and> (\<exists>api \<in> {14, 15, 16}. qualified_row (rq\<lparr>rq_api := PInt api\<rparr>) versions tgt)
        \<and> (\<forall>a \<in> set related. base_package (aa_package a) \<in> set (keys (fld tgt ''packages'')))
        \<and> (pyeq (fld cur ''id'') (fld tgt ''id'')
           \<or> (\<exists>edge. qualified_edge manifest (fld cur ''id'') (fld tgt ''id'') edge
                \<and> (pyeq (fld tgt ''api'') (fld cur ''api'')
                   \<or> api_transition_ok cur tgt edge related = Inr True))))"

lemma unrepresented_Nil:
  "unrepresented_packages related represented = [] \<longleftrightarrow>
     (\<forall>a \<in> set related. PStr (base_package (aa_package a)) \<in> set represented)"
  by (auto simp: unrepresented_packages_def filter_empty_conv)

lemma evaluate_tuples_allow:
  assumes "evaluate_tuples manifest policy ctx installed versions related = Inr r"
    and gate: "fld r ''post_gate_required'' = PBool True"
  shows "allowed_by manifest policy ctx installed versions related
     \<and> fld r ''verdict'' \<in> {PStr ''ALLOW_QUALIFIED'', PStr ''ALLOW_QUALIFIED_EDGE''}"
proof -
  from assms(1) obtain profile api kernel plugin scope current target where
    ctx: "pysub ctx ''profile'' = Inr profile" "pysub ctx ''api'' = Inr api"
      "pysub ctx ''running_kernel'' = Inr kernel" "pysub ctx ''plugin_version'' = Inr plugin"
      "pyget policy ''required_scope'' (PStr ''san-dataplane'') = Inr scope"
    and ct: "exact_tuple manifest installed \<lparr>rq_profile = profile, rq_api = api, rq_kernel = kernel,
        rq_plugin = plugin, rq_scope = scope\<rparr> = Inr current"
      "planned_tuple manifest versions \<lparr>rq_profile = profile, rq_api = api, rq_kernel = kernel,
        rq_plugin = plugin, rq_scope = scope\<rparr> = Inr target"
    by (auto simp: evaluate_tuples_def rbind_Inr Let_def)
  let ?rq = "\<lparr>rq_profile = profile, rq_api = api, rq_kernel = kernel, rq_plugin = plugin, rq_scope = scope\<rparr>"
  from assms ctx ct obtain cur tgt where some: "current = Some cur" "target = Some tgt"
    by (cases current; cases target) (auto simp: evaluate_tuples_def rbind_Inr)
  from exact_tuple_row [OF ct(1) [unfolded some]] planned_tuple_row [OF ct(2) [unfolded some]]
  have rows: "cur \<in> set (catalogue_rows manifest)" "qualified_row ?rq installed cur"
    "tgt \<in> set (catalogue_rows manifest)"
    "\<exists>api \<in> {14, 15, 16}. qualified_row (?rq\<lparr>rq_api := PInt api\<rparr>) versions tgt" by auto
  then have pk: "is_dict (fld tgt ''packages'')" "is_dict tgt" "items (fld tgt ''packages'') \<noteq> []"
    by (auto simp: qualified_row_def)
  then have packs: "rbind (pyget tgt ''packages'' (PDict [])) pyiter
      = Inr (map (\<lambda>kv. PStr (fst kv)) (items (fld tgt ''packages'')))"
    by (auto simp: pyget_def fld_def pyiter_def split: option.splits pyval.splits)
  let ?rep = "map (\<lambda>kv. PStr (fst kv)) (items (fld tgt ''packages''))"
  from packs obtain p where p: "pyget tgt ''packages'' (PDict []) = Inr p" "pyiter p = Inr ?rep"
    by (auto simp: rbind_Inr)
  have covered: "(\<forall>a \<in> set related. base_package (aa_package a) \<in> set (keys (fld tgt ''packages'')))"
    if "unrepresented_packages related ?rep = []"
    using that by (force simp: unrepresented_Nil keys_def)
  from assms(1) ctx ct some p obtain ci ti where ids: "pysub cur ''id'' = Inr ci" "pysub tgt ''id'' = Inr ti"
    and last: "(if pyeq ci ti then
             if unrepresented_packages related ?rep \<noteq> [] then
               Inr (verdict ''REFUSE_UNQUALIFIED_PACKAGE_CHANGE''
                      ([(''packages'', PList (map PStr (unrepresented_packages related ?rep)))] @ tuple_ids ci ti) related False)
             else Inr (verdict ''ALLOW_QUALIFIED'' (tuple_ids ci ti) related True)
           else evaluate_edge manifest cur tgt ci ti related (unrepresented_packages related ?rep)) = Inr r"
    by (auto simp: evaluate_tuples_def rbind_Inr Let_def)
  have same: "ci = fld cur ''id''" "ti = fld tgt ''id''" using ids by (auto dest: pysub_fld)
  have flds: "profile = fld ctx ''profile''" "api = fld ctx ''api''" "kernel = fld ctx ''running_kernel''"
    "plugin = fld ctx ''plugin_version''" using ctx by (auto dest: pysub_fld)
  show ?thesis
  proof (cases "pyeq ci ti")
    case True
    with last gate have "unrepresented_packages related ?rep = []" "fld r ''verdict'' = PStr ''ALLOW_QUALIFIED''"
      by (auto split: if_splits)
    with True rows flds same covered ctx(5) show ?thesis
      unfolding allowed_by_def by (intro conjI exI [of _ ?rq] exI [of _ cur] exI [of _ tgt]) auto
  next
    case False
    with last have "evaluate_edge manifest cur tgt ci ti related (unrepresented_packages related ?rep) = Inr r" by simp
    from evaluate_edge_allow [OF this gate] rows flds same covered ctx(5) show ?thesis
      unfolding allowed_by_def by (intro conjI exI [of _ ?rq] exI [of _ cur] exI [of _ tgt]) auto
  qed
qed

section \<open>Parsing\<close>

definition action_ok :: "apt_action \<Rightarrow> bool" where
  "action_ok a \<longleftrightarrow> list_all fst (action_checks a)"

lemma parse_action_ok: "parse_action line = Inr a \<Longrightarrow> action_ok a"
  by (auto simp: parse_action_def rbind_Inr checks_ok action_ok_def split: option.splits)

lemma parse_actions_ok:
  "parse_actions acc lines = Inr acts \<Longrightarrow> list_all action_ok acc \<Longrightarrow> length acc \<le> max_actions \<Longrightarrow>
     list_all action_ok acts \<and> length acts \<le> max_actions \<and> take (length acc) acts = acc"
proof (induction acc lines rule: parse_actions.induct)
  case (2 acc line lines)
  show ?case
  proof (cases "line = []")
    case True
    with 2 show ?thesis by simp
  next
    case False
    with 2(3) obtain a where a: "parse_action line = Inr a" "length (acc @ [a]) \<le> max_actions"
      "parse_actions (acc @ [a]) lines = Inr acts"
      by (auto simp: rbind_Inr not_less split: if_splits)
    have "list_all action_ok (acc @ [a])" using 2(4) parse_action_ok [OF a(1)] by simp
    from 2(2) [OF False _ a(3) this a(2)] a(2) have
      "list_all action_ok acts \<and> length acts \<le> max_actions \<and> take (length (acc @ [a])) acts = acc @ [a]"
      by simp
    then show ?thesis by (metis append_eq_conv_conj length_append_singleton take_Suc_conv_app_nth
        le_refl nat_le_linear append_take_drop_id take_take min.absorb1 le_SucI length_append)
  qed
qed simp

lemma split_max_fields:
  "list_all (\<lambda>f. c \<notin> set f) fs \<Longrightarrow>
     split_max (length fs) c (concat (map (\<lambda>f. f @ [c]) fs) @ rest) = fs @ [rest]"
proof (induction fs)
  case Nil
  then show ?case by simp
next
  case (Cons f fs)
  then have "takeWhile (\<lambda>x. x \<noteq> c) (f @ c # ys) = f" "dropWhile (\<lambda>x. x \<noteq> c) (f @ c # ys) = c # ys" for ys
    by (auto simp: takeWhile_append dropWhile_append)
  with Cons show ?case by simp
qed

definition action_head :: "apt_action \<Rightarrow> string list" where
  "action_head a = [aa_package a, aa_old_version a, aa_old_arch a, aa_old_multiarch a, aa_direction a,
     aa_new_version a, aa_new_arch a, aa_new_multiarch a]"

text \<open>One line of the protocol, and the whole text with its configuration lines.\<close>

definition render_action :: "apt_action \<Rightarrow> string" where
  "render_action a = concat (map (\<lambda>f. f @ '' '') (action_head a)) @ aa_action a"

definition render_protocol :: "string list \<Rightarrow> apt_action list \<Rightarrow> string" where
  "render_protocol config acts =
     concat (map (\<lambda>l. l @ [CHR 0x0A]) (''VERSION 3'' # config @ [] # map render_action acts))"

lemma version_no: "version_re s \<Longrightarrow> c \<in> set s \<Longrightarrow> version_char c"
  by (auto simp: version_re_def list_all_iff)

lemma lower_digit_not: "\<not> lower_digit (CHR '' '')" "lower_digit c \<Longrightarrow> \<not> line_break c"
  by (auto simp: lower_digit_def lower_def digit_def line_break_def less_eq_char_def)

lemma version_char_not: "\<not> version_char (CHR '' '')" "version_char c \<Longrightarrow> \<not> line_break c"
  by (auto simp: version_char_def alnum_def lower_def digit_def line_break_def less_eq_char_def)

lemma head_tail_all: "head_tail p q b s \<Longrightarrow> c \<in> set s \<Longrightarrow> p c \<or> q c"
  by (auto simp: head_tail_def list_all_iff split: list.splits)

lemma arch_word_chars: "arch_word_re s \<Longrightarrow> c \<in> set s \<Longrightarrow> lower_digit c \<or> c = CHR ''-''"
  unfolding arch_word_re_def by (drule (1) head_tail_all) auto

lemma package_chars:
  assumes "package_re s" "c \<in> set s"
  shows "lower_digit c \<or> c \<in> set ''+.-:''"
proof -
  let ?p = "\<lambda>c. c \<noteq> CHR '':''"
  have "c \<in> set (takeWhile ?p s) \<or> c \<in> set (dropWhile ?p s)"
    using assms(2) by (metis Un_iff set_append takeWhile_dropWhile_id)
  then show ?thesis
  proof
    assume "c \<in> set (takeWhile ?p s)"
    then show ?thesis using assms(1) unfolding package_re_def package_base_re_def
      by (auto dest: head_tail_all)
  next
    assume c: "c \<in> set (dropWhile ?p s)"
    then obtain d arch where "dropWhile ?p s = d # arch" by (cases "dropWhile ?p s") auto
    moreover from this have "d = CHR '':''" using hd_dropWhile [of ?p s] by (metis list.distinct(1) list.sel(1))
    ultimately show ?thesis using assms(1) c by (auto simp: package_re_def dest: arch_word_chars)
  qed
qed

lemma head_chars:
  assumes "action_ok a" "f \<in> set (action_head a)" "c \<in> set f"
  shows "c \<noteq> CHR '' '' \<and> \<not> line_break c"
proof -
  have m: "c \<noteq> CHR '' '' \<and> \<not> line_break c" if "c \<in> set s" "s \<in> set multiarch \<union> {''<'', ''>'', ''='', ''-''}" for s
    using that by (auto simp: multiarch_def line_break_def)
  have p: "c \<noteq> CHR '' '' \<and> \<not> line_break c" if "lower_digit c \<or> c \<in> set ''+.-:''"
    using that lower_digit_not by (auto simp: line_break_def)
  have v: "c \<noteq> CHR '' '' \<and> \<not> line_break c" if "version_char c"
    using that version_char_not by auto
  from assms(1) have ok: "package_re (aa_package a)" "aa_old_version a = ''-'' \<or> version_re (aa_old_version a)"
    "aa_new_version a = ''-'' \<or> version_re (aa_new_version a)" "arch_re (aa_old_arch a)" "arch_re (aa_new_arch a)"
    "aa_old_multiarch a \<in> set multiarch" "aa_new_multiarch a \<in> set multiarch" "aa_direction a \<in> {''<'', ''>'', ''=''}"
    by (simp_all add: action_ok_def action_checks_def)
  have arch: "c \<noteq> CHR '' '' \<and> \<not> line_break c" if "arch_re s" "c \<in> set s" for s
    using that m [of s] p by (auto simp: arch_re_def dest: arch_word_chars)
  have ver: "c \<noteq> CHR '' '' \<and> \<not> line_break c" if "s = ''-'' \<or> version_re s" "c \<in> set s" for s
    using that m [of s] v by (auto dest: version_no)
  from assms(2) consider "f = aa_package a" | "f = aa_old_version a \<or> f = aa_new_version a"
    | "f = aa_old_arch a \<or> f = aa_new_arch a"
    | "f = aa_old_multiarch a \<or> f = aa_new_multiarch a \<or> f = aa_direction a"
    unfolding action_head_def by auto
  then show ?thesis
  proof cases
    case 1 then show ?thesis using p [OF package_chars] ok(1) assms(3) by simp
  next
    case 2 then show ?thesis using ver ok(2,3) assms(3) by blast
  next
    case 3 then show ?thesis using arch ok(4,5) assms(3) by blast
  next
    case 4
    then have "f \<in> set multiarch \<union> {''<'', ''>'', ''='', ''-''}" using ok(6-8) by auto
    then show ?thesis using m assms(3) by blast
  qed
qed

lemma parse_render_action:
  assumes "action_ok a"
  shows "parse_action (render_action a) = Inr a"
proof -
  have "list_all (\<lambda>f. CHR '' '' \<notin> set f) (action_head a)"
    using head_chars [OF assms] by (auto simp: list_all_iff)
  from split_max_fields [OF this, of "aa_action a"]
  have "split_max (length (action_head a)) CHR '' '' (render_action a) = action_head a @ [aa_action a]"
    by (simp only: render_action_def)
  moreover have "length (action_head a) = 8" by (simp add: action_head_def)
  ultimately have "split_max 8 CHR '' '' (render_action a) = action_head a @ [aa_action a]" by (simp only:)
  moreover have "checks (action_checks a) = Inr ()" using assms by (simp only: checks_ok action_ok_def)
  ultimately show ?thesis by (cases a) (simp add: parse_action_def action_head_def)
qed

lemma parse_rendered:
  "list_all action_ok acts \<Longrightarrow> length acc + length acts \<le> max_actions \<Longrightarrow>
     parse_actions acc (map render_action acts) = Inr (acc @ acts)"
proof (induction acts arbitrary: acc)
  case (Cons a acts)
  have "render_action a \<noteq> []" by (simp add: render_action_def action_head_def)
  with Cons show ?case by (simp add: parse_render_action)
qed simp

lemma render_no_breaks: "action_ok a \<Longrightarrow> no_breaks (aa_action a) \<Longrightarrow> no_breaks (render_action a)"
  using head_chars [of a]
  by (auto simp: no_breaks_def render_action_def list_all_iff line_break_def)

lemma edge_verdict:
  "evaluate_edge manifest cur tgt ci ti related unrep = Inr r \<Longrightarrow> fld r ''verdict'' \<noteq> PStr ''ALLOW_UNRELATED''"
  unfolding evaluate_edge_def
  by (elim rbindE) (auto elim!: rbindE simp del: rbind_simps simp: rbind_simps(2) split: if_splits option.splits)

lemma tuples_verdict:
  "evaluate_tuples manifest policy ctx installed versions related = Inr r \<Longrightarrow>
     fld r ''verdict'' \<noteq> PStr ''ALLOW_UNRELATED''"
  unfolding evaluate_tuples_def Let_def
  by (elim rbindE) (auto elim!: rbindE dest: edge_verdict split: if_splits option.splits)

lemma related_verdict:
  assumes "relevant_actions re_match manifest acts = Inr related" "related \<noteq> []"
    and "policy_evaluate re_match acts manifest policy ctx cmp = Inr r"
  shows "fld r ''verdict'' \<noteq> PStr ''ALLOW_UNRELATED''"
  using assms unfolding policy_evaluate_def
  by (elim rbindE) (auto elim!: rbindE dest!: tuples_verdict split: if_splits option.splits)

section \<open>A concrete transaction\<close>

definition up_row :: "string \<Rightarrow> string \<Rightarrow> pyval" where
  "up_row i v = PDict
     [(''id'', PStr i), (''api'', PInt 14), (''running_kernel'', PStr ''6.8''), (''status'', PStr ''EXACT_LAB_TESTED''),
      (''profiles'', PList [PStr ''dual'']), (''scopes'', PList [PStr ''san-dataplane'']),
      (''plugin_versions'', PList [PStr ''1.0'']), (''packages'', PDict [(''qemu-server'', PStr v)])]"

definition up_manifest :: pyval where
  "up_manifest = PDict
     [(''schema'', PInt 1), (''catalogue'', PStr ''pve-qualified-tuples-v1''),
      (''watched_packages'', PList [PStr ''qemu-server'']), (''tuples'', PList [up_row ''a'' ''9.0'', up_row ''b'' ''9.1'']),
      (''rolling_edges'', PList [PDict [(''id'', PStr ''e''), (''from'', PStr ''a''), (''to'', PStr ''b''),
          (''status'', PStr ''QUALIFIED'')]])]"

definition up_action :: apt_action where
  "up_action = \<lparr>aa_package = ''qemu-server:amd64'', aa_old_version = ''9.0'', aa_old_arch = ''amd64'',
     aa_old_multiarch = ''no'', aa_direction = ''<'', aa_new_version = ''9.1'', aa_new_arch = ''amd64'',
     aa_new_multiarch = ''no'', aa_action = ''/a.deb''\<rparr>"

definition up_policy :: "string \<Rightarrow> pyval" where "up_policy m = PDict [(''mode'', PStr m)]"

definition up_context :: pyval where
  "up_context = PDict
     [(''installed'', PDict [(''qemu-server'', PStr ''9.0'')]), (''profile'', PStr ''dual''), (''api'', PInt 14),
      (''running_kernel'', PStr ''6.8''), (''plugin_version'', PStr ''1.0'')]"

definition up_query :: runtime_query where
  "up_query = \<lparr>rq_profile = PStr ''dual'', rq_api = PInt 14, rq_kernel = PStr ''6.8'', rq_plugin = PStr ''1.0'',
     rq_scope = PStr ''san-dataplane''\<rparr>"

lemma up_rows [simp]:
  "exact_row \<lparr>rq_profile = PStr ''dual'', rq_api = PInt a, rq_kernel = PStr ''6.8'', rq_plugin = PStr ''1.0'',
     rq_scope = PStr ''san-dataplane''\<rparr> (PDict [(''qemu-server'', PStr v)]) (up_row i w) = Inr (a = 14 \<and> v = w)"
  by (auto simp: exact_row_def up_row_def has_status_def untested_def pyget_def in_strs_def hashable.simps
      get_list_def contains_def packages_match_def)

lemma up_relevant: "relevant_actions (\<lambda>_ _. Inr False) up_manifest [up_action] = Inr [up_action]"
  by (simp add: relevant_actions_def watched_def up_manifest_def up_action_def pyget_def contains_def
      base_package_def ror_def Let_def)

lemma up_exact:
  "exact_tuple up_manifest (PDict [(''qemu-server'', PStr ''9.0'')]) up_query = Inr (Some (up_row ''a'' ''9.0''))"
  "planned_tuple up_manifest (PDict [(''qemu-server'', PStr ''9.1'')]) up_query = Inr (Some (up_row ''b'' ''9.1''))"
  by (simp_all add: exact_tuple_def planned_tuple_def up_manifest_def up_query_def get_list_def pyget_def
      pyiter_def at_most_one_def)

lemma up_evaluate:
  "\<exists>r. policy_evaluate (\<lambda>_ _. Inr False) [up_action] up_manifest (up_policy ''QUALIFIED_ONLY'') up_context
     (\<lambda>_ _ _. Inr False) = Inr r \<and> fld r ''post_gate_required'' = PBool True"
proof -
  have pol: "pyget (up_policy ''QUALIFIED_ONLY'') ''mode'' PNone = Inr (PStr ''QUALIFIED_ONLY'')"
    "pyget (up_policy ''QUALIFIED_ONLY'') ''required_scope'' (PStr ''san-dataplane'') = Inr (PStr ''san-dataplane'')"
    by (simp_all add: up_policy_def pyget_def)
  have ctx: "pysub up_context ''installed'' = Inr (PDict [(''qemu-server'', PStr ''9.0'')])"
    "pysub up_context ''profile'' = Inr (PStr ''dual'')" "pysub up_context ''api'' = Inr (PInt 14)"
    "pysub up_context ''running_kernel'' = Inr (PStr ''6.8'')" "pysub up_context ''plugin_version'' = Inr (PStr ''1.0'')"
    by (simp_all add: up_context_def pysub_def)
  have vers: "resulting_versions (PDict [(''qemu-server'', PStr ''9.0'')]) [up_action]
      = Inr (PDict [(''qemu-server'', PStr ''9.1'')])"
    by (simp add: resulting_versions_def up_action_def base_package_def action_version_def)
  have inc: "known_incompatible up_manifest (PDict [(''qemu-server'', PStr ''9.1'')]) (\<lambda>_ _ _. Inr False) = Inr None"
    by (simp add: known_incompatible_def pyget_def)
  have idc: "unsupported_identity_changes [up_action] = []"
    by (simp add: unsupported_identity_changes_def List.map_filter_def identity_change_def up_action_def)
  have edge: "evaluate_edge up_manifest (up_row ''a'' ''9.0'') (up_row ''b'' ''9.1'') (PStr ''a'') (PStr ''b'') [up_action] []
    = Inr (verdict ''ALLOW_QUALIFIED_EDGE'' (tuple_ids (PStr ''a'') (PStr ''b'') @
        [(''edge'', PStr ''e''), (''source_api'', PInt 14), (''target_api'', PInt 14)]) [up_action] True)"
    by (simp add: evaluate_edge_def up_manifest_def get_list_def pyget_def pyiter_def edge_matches_def
        has_status_def untested_def in_strs_def hashable.simps at_most_one_def up_row_def pysub_def)
  have unrep: "unrepresented_packages [up_action] [PStr ''qemu-server''] = []"
    by (simp add: unrepresented_Nil up_action_def base_package_def)
  have tup: "evaluate_tuples up_manifest (up_policy ''QUALIFIED_ONLY'') up_context (PDict [(''qemu-server'', PStr ''9.0'')])
      (PDict [(''qemu-server'', PStr ''9.1'')]) [up_action]
    = Inr (verdict ''ALLOW_QUALIFIED_EDGE'' (tuple_ids (PStr ''a'') (PStr ''b'') @
        [(''edge'', PStr ''e''), (''source_api'', PInt 14), (''target_api'', PInt 14)]) [up_action] True)"
  proof -
    have ids: "pysub (up_row i v) ''id'' = Inr (PStr i)" for i v by (simp add: up_row_def pysub_def)
    have pks: "pyget (up_row i v) ''packages'' (PDict []) = Inr (PDict [(''qemu-server'', PStr v)])" for i v
      by (simp add: up_row_def pyget_def)
    show ?thesis
      by (simp add: evaluate_tuples_def ctx pol Let_def up_exact [unfolded up_query_def] ids pks pyiter_def unrep edge)
  qed
  show ?thesis
    by (simp add: policy_evaluate_def up_relevant pol in_strs_def hashable.simps idc ctx vers inc tup)
qed

lemma up_action_ok: "action_ok up_action" "no_breaks (aa_action up_action)"
  by (simp_all add: action_ok_def action_checks_def up_action_def package_re_def package_base_re_def arch_word_re_def
      arch_re_def version_re_def version_char_def lower_digit_def regex_eval multiarch_def no_breaks_def line_break_def)

lemma up_render_length: "length (render_protocol [''A=b''] [up_action]) \<le> max_protocol_bytes"
  by (simp add: render_protocol_def render_action_def action_head_def up_action_def max_protocol_bytes_def)

section \<open>Properties of the update policy\<close>

text \<open>
  C1: Soundness of every permission that lets a qualified transaction run (the verdicts that ask
  for the post gate). Such a verdict is given only when the policy mode is QUALIFIED_AUTO or
  QUALIFIED_ONLY, no related action changes an architecture or Multi-Arch identity, the known
  incompatible combinations were searched, the installed versions match a qualified, fully tested
  tuple of the catalogue for the running profile, API, kernel, plugin and scope, the versions that
  result from the whole plan match such a tuple too, every related package is covered by the target
  tuple, and, when the two tuples differ, a qualified edge without name-only allowances joins them
  whose API transition, if any, is the exact one.
\<close>

theorem policy_allow_sound:
  assumes "policy_evaluate re_match acts manifest policy ctx cmp = Inr r"
    and "fld r ''post_gate_required'' = PBool True"
  shows "fld r ''verdict'' \<in> {PStr ''ALLOW_QUALIFIED'', PStr ''ALLOW_QUALIFIED_EDGE''}
     \<and> fld policy ''mode'' \<in> {PStr ''QUALIFIED_AUTO'', PStr ''QUALIFIED_ONLY''}
     \<and> (\<exists>related versions rule.
          relevant_actions re_match manifest acts = Inr related
          \<and> (\<forall>a \<in> set related. identity_change a = None)
          \<and> resulting_versions (fld ctx ''installed'') acts = Inr versions
          \<and> known_incompatible manifest versions cmp = Inr rule \<and> (rule = None \<or> \<not> truthy (the rule))
          \<and> allowed_by manifest policy ctx (fld ctx ''installed'') versions related)"
proof -
  from assms(1) obtain related where rel: "relevant_actions re_match manifest acts = Inr related"
    by (auto simp: policy_evaluate_def rbind_Inr)
  with assms obtain mode where mode: "pyget policy ''mode'' PNone = Inr mode" "related \<noteq> []"
    by (auto simp: policy_evaluate_def rbind_Inr split: if_splits)
  have m: "mode \<in> {PStr ''QUALIFIED_AUTO'', PStr ''QUALIFIED_ONLY''}"
    and idc: "unsupported_identity_changes related = []"
    and rest: "rbind (pysub ctx ''installed'') (\<lambda>installed.
           rbind (resulting_versions installed acts) (\<lambda>versions.
           rbind (known_incompatible manifest versions cmp) (\<lambda>incompatible.
           case incompatible of
             Some rule \<Rightarrow>
               if truthy rule then
                 rbind (pysub rule ''reason'') (\<lambda>reason.
                 Inr (verdict ''REFUSE_KNOWN_INCOMPATIBLE'' [(''reason'', reason)] related False))
               else evaluate_tuples manifest policy ctx installed versions related
           | None \<Rightarrow> evaluate_tuples manifest policy ctx installed versions related))) = Inr r"
    using assms rel mode by (auto simp: policy_evaluate_def rbind_Inr split: if_splits)
  from rest assms(2) obtain installed versions rule where i: "pysub ctx ''installed'' = Inr installed"
    "resulting_versions installed acts = Inr versions" "known_incompatible manifest versions cmp = Inr rule"
    "rule = None \<or> \<not> truthy (the rule)" "evaluate_tuples manifest policy ctx installed versions related = Inr r"
  proof (elim rbindE)
    fix i v rule
    assume *: "pysub ctx ''installed'' = Inr i" "resulting_versions i acts = Inr v"
      "known_incompatible manifest v cmp = Inr rule"
      "(case rule of None \<Rightarrow> evaluate_tuples manifest policy ctx i v related
        | Some rule \<Rightarrow> if truthy rule then rbind (pysub rule ''reason'') (\<lambda>reason.
              Inr (verdict ''REFUSE_KNOWN_INCOMPATIBLE'' [(''reason'', reason)] related False))
            else evaluate_tuples manifest policy ctx i v related) = Inr r"
    show thesis
    proof (cases "rule = None \<or> \<not> truthy (the rule)")
      case True
      with * show thesis by (intro that [of i v rule]) (auto split: option.splits)
    next
      case False
      with * assms(2) show thesis by (auto elim!: rbindE)
    qed
  qed
  moreover have "\<forall>a \<in> set related. identity_change a = None"
    using idc by (simp add: unsupported_identity_changes_def List.map_filter_def filter_empty_conv)
  moreover have "installed = fld ctx ''installed''" "mode = fld policy ''mode''" using i(1) mode by (auto dest: pysub_fld)
  moreover from evaluate_tuples_allow [OF i(5) assms(2)]
  have "allowed_by manifest policy ctx installed versions related"
    "fld r ''verdict'' \<in> {PStr ''ALLOW_QUALIFIED'', PStr ''ALLOW_QUALIFIED_EDGE''}" by blast+
  ultimately show ?thesis using rel m i(2-4) by blast
qed

theorem policy_allow_sound_witness:
  "\<exists>r. policy_evaluate (\<lambda>_ _. Inr False) [up_action] up_manifest (up_policy ''QUALIFIED_ONLY'') up_context
     (\<lambda>_ _ _. Inr False) = Inr r \<and> fld r ''verdict'' \<in> {PStr ''ALLOW_QUALIFIED'', PStr ''ALLOW_QUALIFIED_EDGE''}"
proof -
  from up_evaluate obtain r where r: "policy_evaluate (\<lambda>_ _. Inr False) [up_action] up_manifest
      (up_policy ''QUALIFIED_ONLY'') up_context (\<lambda>_ _ _. Inr False) = Inr r"
    "fld r ''post_gate_required'' = PBool True" by blast
  from policy_allow_sound [OF r] r(1) show ?thesis by blast
qed

text \<open>
  Unrelated transactions and the two blanket modes. ALLOW_UNRELATED is given exactly when no
  action of the plan is watched; once an action is watched, an UNSELECTED policy and FREEZE refuse
  whatever the catalogue and the context say.
\<close>

theorem policy_unrelated:
  assumes "relevant_actions re_match manifest acts = Inr related"
  shows "(policy_evaluate re_match acts manifest policy ctx cmp = Inr (verdict ''ALLOW_UNRELATED'' [] [] False)
            \<longleftrightarrow> (\<forall>a \<in> set acts. watched re_match manifest a = Inr False))
     \<and> (related \<noteq> [] \<and> is_dict policy \<and> fld policy ''mode'' = PStr ''UNSELECTED'' \<longrightarrow>
          policy_evaluate re_match acts manifest policy ctx cmp
            = Inr (verdict ''REFUSE_POLICY_UNSELECTED'' [] related False))
     \<and> (related \<noteq> [] \<and> is_dict policy \<and> fld policy ''mode'' = PStr ''FREEZE'' \<longrightarrow>
          policy_evaluate re_match acts manifest policy ctx cmp = Inr (verdict ''REFUSE_FREEZE'' [] related False))"
proof (intro conjI impI)
  from rfilter_Inr [OF assms [unfolded relevant_actions_def]]
  have rel: "related = filter (\<lambda>a. watched re_match manifest a = Inr True) acts"
    and total: "\<forall>a \<in> set acts. \<not> isl (watched re_match manifest a)" by auto
  have "watched re_match manifest a \<noteq> Inr True \<longleftrightarrow> watched re_match manifest a = Inr False" if "a \<in> set acts" for a
    using total that by (cases "watched re_match manifest a") auto
  then have none: "related = [] \<longleftrightarrow> (\<forall>a \<in> set acts. watched re_match manifest a = Inr False)"
    unfolding rel filter_empty_conv by auto
  have other: "policy_evaluate re_match acts manifest policy ctx cmp \<noteq> Inr (verdict ''ALLOW_UNRELATED'' [] [] False)"
    if "related \<noteq> []"
    using related_verdict [OF assms that, of policy ctx cmp] by auto
  show "policy_evaluate re_match acts manifest policy ctx cmp = Inr (verdict ''ALLOW_UNRELATED'' [] [] False)
      \<longleftrightarrow> (\<forall>a \<in> set acts. watched re_match manifest a = Inr False)"
  proof (cases "related = []")
    case True
    then show ?thesis using none assms by (simp add: policy_evaluate_def)
  next
    case False
    then show ?thesis using none other by blast
  qed
qed (use assms in \<open>auto simp: policy_evaluate_def pyget_dict in_strs_def hashable.simps\<close>)

theorem policy_unrelated_witness:
  "policy_evaluate (\<lambda>_ _. Inr False) [up_action] up_manifest (up_policy ''FREEZE'') up_context (\<lambda>_ _ _. Inr True)
     = Inr (verdict ''REFUSE_FREEZE'' [] [up_action] False)"
  using policy_unrelated [OF up_relevant] by (simp add: up_policy_def)

text \<open>
  C17: Round trip of the APT hook protocol. Writing well-formed configuration lines and well-formed
  actions as a version 3 stream and parsing it back gives exactly these actions, in order.
\<close>

theorem protocol_roundtrip:
  assumes "list_all action_ok acts" and "list_all (\<lambda>a. no_breaks (aa_action a)) acts"
    and "length acts \<le> max_actions"
    and "list_all (\<lambda>l. no_breaks l \<and> CHR ''='' \<in> set l \<and> hd l \<noteq> CHR ''='') config"
    and "decode raw = Some (render_protocol config acts)" and "length raw \<le> max_protocol_bytes"
  shows "parse_protocol_v3 decode raw = Inr acts"
proof -
  have ne: "l \<noteq> []" if "l \<in> set config" for l using assms(4) that by (auto simp: list_all_iff)
  have "list_all no_breaks (''VERSION 3'' # config @ [] # map render_action acts)"
    using assms(1,2,4) by (auto simp: list_all_iff render_no_breaks) (auto simp: no_breaks_def line_break_def)
  from splitlines_lines [OF this] have lines: "splitlines (render_protocol config acts)
      = ''VERSION 3'' # config @ [] # map render_action acts" by (simp add: render_protocol_def)
  have tw: "takeWhile (\<lambda>l. l \<noteq> []) (config @ [] # xs) = config" "dropWhile (\<lambda>l. l \<noteq> []) (config @ [] # xs) = [] # xs" for xs
    using ne by (auto simp: takeWhile_append dropWhile_append)
  have "check_each config_line_check config = Inr ()"
    using assms(4) by (auto simp: check_each_ok config_line_check_def list_all_iff)
  then show ?thesis using parse_rendered [OF assms(1), of "[]"] assms(3,5,6)
    by (simp add: parse_protocol_v3_def parse_lines_def lines tw)
qed

theorem protocol_roundtrip_witness:
  "parse_protocol_v3 Some (render_protocol [''A=b''] [up_action]) = Inr [up_action]"
proof (rule protocol_roundtrip)
  show "list_all (\<lambda>l. no_breaks l \<and> CHR ''='' \<in> set l \<and> hd l \<noteq> CHR ''='') [''A=b'']"
    by (simp add: no_breaks_def line_break_def)
qed (simp_all add: up_action_ok up_render_length max_actions_def)

text \<open>
  Only well-formed actions leave the parser: every parsed action has a safe package name, safe
  versions and architectures, known Multi-Arch values and direction, and a CONFIGURE, REMOVE or
  absolute path as its operation, and there are at most 4096 of them.
\<close>

theorem protocol_sound:
  assumes "parse_protocol_v3 decode raw = Inr acts"
  shows "list_all action_ok acts \<and> length acts \<le> max_actions"
  using assms parse_actions_ok [of "[]" _ acts]
  by (auto simp: parse_protocol_v3_def parse_lines_def rbind_Inr max_actions_def split: if_splits option.splits list.splits)

theorem protocol_sound_witness:
  "list_all action_ok [] \<and> length ([] :: apt_action list) \<le> max_actions"
proof (rule protocol_sound)
  show "parse_protocol_v3 Some (''VERSION 3'' @ [CHR 0x0A, CHR 0x0A]) = Inr []"
    by (simp add: parse_protocol_v3_def max_protocol_bytes_def splitlines.simps line_break_def parse_lines_def
        check_each.simps)
qed

text \<open>
  The resulting version of a package is decided by the last action on it: no version when that
  action removes it or has no new version, the new version otherwise; packages without an action
  keep their installed version.
\<close>

theorem resulting_last_wins:
  assumes "is_dict installed"
  shows "\<exists>versions. resulting_versions installed acts = Inr versions
     \<and> (\<forall>name. fld versions name =
          (case rev (filter (\<lambda>a. base_package (aa_package a) = name) acts) of
             [] \<Rightarrow> fld installed name | a # _ \<Rightarrow> action_version a))"
proof -
  from assms obtain versions where v: "resulting_versions installed acts = Inr versions"
    by (simp add: resulting_versions_def)
  with resulting_version_of [OF v] show ?thesis by blast
qed

theorem resulting_last_wins_witness:
  "\<exists>versions. resulting_versions (PDict [(''qemu-server'', PStr ''9.0'')]) [up_action] = Inr versions
     \<and> fld versions ''qemu-server'' = PStr ''9.1''"
proof -
  have "is_dict (PDict [(''qemu-server'', PStr ''9.0'')])" by simp
  from resulting_last_wins [OF this, of "[up_action]"] obtain versions where
    v: "resulting_versions (PDict [(''qemu-server'', PStr ''9.0'')]) [up_action] = Inr versions"
      "\<forall>name. fld versions name = (case rev (filter (\<lambda>a. base_package (aa_package a) = name) [up_action]) of
             [] \<Rightarrow> fld (PDict [(''qemu-server'', PStr ''9.0'')]) name | a # _ \<Rightarrow> action_version a)" by blast
  then have "fld versions ''qemu-server'' = PStr ''9.1''"
    by (simp add: up_action_def base_package_def action_version_def)
  with v(1) show ?thesis by blast
qed

text \<open>
  A candidate tuple is accepted only from a catalogue in which every row is well formed and
  requires watched packages only, and then it is the single row that the runtime matches, with the
  status EXACT_LAB_TESTED or RETEST_REQUIRED.
\<close>

theorem candidate_tuple_sound:
  assumes "candidate_runtime_tuple manifest versions rq = Inr (Some row)"
  shows "(\<forall>r \<in> set (list_of (fld manifest ''tuples'')). catalogue_row_ok r = Inr True
            \<and> set (keys (fld r ''packages'')) \<subseteq> str_of ` set (list_of (fld manifest ''watched_packages'')))
     \<and> filter (\<lambda>r. observed_row rq versions r = Inr True) (list_of (fld manifest ''tuples'')) = [row]
     \<and> fld row ''status'' \<in> {PStr ''EXACT_LAB_TESTED'', PStr ''RETEST_REQUIRED''}"
proof -
  from assms have valid: "validate_candidate_catalogue manifest = Inr ()"
    and obs: "observed_tuple manifest versions rq = Inr (Some row)"
    and st: "fld row ''status'' \<in> {PStr ''EXACT_LAB_TESTED'', PStr ''RETEST_REQUIRED''}"
    by (auto simp: candidate_runtime_tuple_def rbind_Inr split: option.splits if_splits)
  from valid have d: "is_dict manifest" "nonempty_list (fld manifest ''tuples'')"
    and rows: "\<forall>r \<in> set (list_of (fld manifest ''tuples'')). catalogue_row_check manifest r = Inr ()"
    by (auto simp: validate_candidate_catalogue_def rbind_Inr check_simps catalogue_head_checks_def Let_def)
  from d have "get_list manifest ''tuples'' = Inr (fld manifest ''tuples'')"
    by (auto simp: get_list_def pyget_def fld_def nonempty_list_def split: option.splits)
  moreover from d(2) obtain vs where "fld manifest ''tuples'' = PList vs" by (auto simp: nonempty_list_def is_list_iff)
  ultimately have "filter (\<lambda>r. observed_row rq versions r = Inr True) (list_of (fld manifest ''tuples'')) = [row]"
    using obs by (auto simp: observed_tuple_def rbind_Inr pyiter_def at_most_one_Some dest!: rfilter_Inr)
  then show ?thesis using rows st by (auto simp: catalogue_row_check_def rbind_Inr check_simps)
qed

theorem candidate_tuple_sound_witness:
  "candidate_runtime_tuple up_manifest (PDict [(''qemu-server'', PStr ''9.0'')]) up_query
     = Inr (Some (up_row ''a'' ''9.0''))
   \<and> fld (up_row ''a'' ''9.0'') ''status'' \<in> {PStr ''EXACT_LAB_TESTED'', PStr ''RETEST_REQUIRED''}"
proof -
  have rows: "catalogue_row_check up_manifest (up_row i v) = Inr ()" if "version_re v" "i \<noteq> []" for i v
    using that
    by (simp add: catalogue_row_check_def catalogue_row_ok_def up_row_def up_manifest_def str_with_def nonempty_list_def
        in_strs_def hashable.simps package_re_def package_base_re_def lower_digit_def regex_eval version_re_def
        version_char_def check_simps keys_def)
  have v: "version_re ''9.0''" "version_re ''9.1''" by (simp_all add: version_re_def version_char_def regex_eval)
  have "checks (catalogue_head_checks up_manifest) = Inr ()"
    by (simp add: checks_ok catalogue_head_checks_def up_manifest_def str_with_def nonempty_list_def Let_def
        package_re_def package_base_re_def lower_digit_def regex_eval)
  then have "validate_candidate_catalogue up_manifest = Inr ()"
    using rows [OF v(1)] rows [OF v(2)]
    by (simp add: validate_candidate_catalogue_def check_each_ok up_manifest_def)
  moreover have "observed_tuple up_manifest (PDict [(''qemu-server'', PStr ''9.0'')]) up_query
      = Inr (Some (up_row ''a'' ''9.0''))"
    by (simp add: observed_tuple_def up_manifest_def up_query_def observed_row_def up_row_def get_list_def pyget_def
        pyiter_def contains_def packages_match_def at_most_one_def)
  ultimately have run: "candidate_runtime_tuple up_manifest (PDict [(''qemu-server'', PStr ''9.0'')]) up_query
     = Inr (Some (up_row ''a'' ''9.0''))"
    by (simp add: candidate_runtime_tuple_def in_strs_def hashable.simps up_row_def)
  from candidate_tuple_sound [OF this] run show ?thesis by blast
qed

end
