(* ===== verification/LazyZeroGuard.thy ===== *)
theory LazyZeroGuard
  imports Json
begin

text \<open>
  \<^verbatim>\<open>experiments/thick-generations/lazy_zero_guard_model.py\<close>: the guard and publication epochs
  of a lazily zeroed clone. A fixture describes the device graph; \<^verbatim>\<open>GuardEpochModel\<close> accepts a
  guard receipt for the current epoch, publishes, withdraws and is reconfigured into the next
  epoch. A method changes the object also when it raises, so an operation is a function from a
  state to an outcome and a state.
\<close>

section \<open>Fixtures\<close>

text \<open>\<^verbatim>\<open>(?:0|[1-9][0-9]*)\<close>\<close>

definition decimal_re :: "string \<Rightarrow> bool" where
  "decimal_re s \<longleftrightarrow> s = ''0'' \<or> (s \<noteq> [] \<and> hd s \<noteq> CHR ''0'' \<and> list_all digit s)"

definition devno_re :: "string \<Rightarrow> bool" where
  "devno_re s \<longleftrightarrow>
     decimal_re (takeWhile (\<lambda>c. c \<noteq> CHR '':'') s)
     \<and> (case dropWhile (\<lambda>c. c \<noteq> CHR '':'') s of [] \<Rightarrow> False | _ # minor \<Rightarrow> decimal_re minor)"

definition all_strs :: "pyval \<Rightarrow> bool" where
  "all_strs v \<longleftrightarrow> is_list v \<and> list_all is_str (list_of v)"

definition unique_strs :: "pyval \<Rightarrow> bool" where
  "unique_strs v \<longleftrightarrow> all_strs v \<and> distinct (list_of v)"

definition loop_fields :: "string list" where
  "loop_fields = [''kind'', ''role'', ''devno'', ''diskseq'', ''size_bytes'', ''backing_dev'', ''backing_inode'',
     ''offset'', ''sizelimit'', ''readonly'', ''holders'']"

definition validate_loop :: "string \<Rightarrow> pyval \<Rightarrow> int \<Rightarrow> (bool \<times> exc) list" where
  "validate_loop role v bytes =
     [need (exact v loop_fields) (role @ '' schema''),
      need (fld v ''kind'' = PStr ''loop'' \<and> fld v ''role'' = PStr role) (role @ '' role''),
      need (matches devno_re (fld v ''devno'') \<and> integer (fld v ''diskseq'') 1) (role @ '' identity''),
      need (fld v ''size_bytes'' = PInt bytes \<and> is_false (fld v ''readonly'')) (role @ '' geometry''),
      need (integer (fld v ''backing_dev'') 1 \<and> integer (fld v ''backing_inode'') 1) (role @ '' backing''),
      need (fld v ''offset'' = PInt 0 \<and> fld v ''sizelimit'' = PInt 0) (role @ '' mapping''),
      need (unique_strs (fld v ''holders'')) (role @ '' holders'')]"

definition dm_fields :: "string list" where
  "dm_fields = [''kind'', ''role'', ''devno'', ''diskseq'', ''size_bytes'', ''name'', ''uuid'', ''table'',
     ''readonly'', ''suspended'', ''open_count'', ''holders'', ''dependencies'']"

definition validate_dm :: "string \<Rightarrow> pyval \<Rightarrow> (bool \<times> exc) list" where
  "validate_dm role v =
     [need (exact v dm_fields) (role @ '' schema''),
      need (fld v ''kind'' = PStr ''dm'' \<and> fld v ''role'' = PStr role) (role @ '' role''),
      need (matches devno_re (fld v ''devno'') \<and> integer (fld v ''diskseq'') 1) (role @ '' identity''),
      need (fld v ''size_bytes'' = PInt 134217728) (role @ '' geometry''),
      need (is_str (fld v ''name'') \<and> is_str (fld v ''uuid'')) (role @ '' naming''),
      need (is_str (fld v ''table'') \<and> is_bool (fld v ''readonly'') \<and> is_bool (fld v ''suspended'')
            \<and> integer (fld v ''open_count'') 0) (role @ '' state''),
      need (is_list (fld v ''holders'') \<and> is_list (fld v ''dependencies'') \<and> all_strs (fld v ''dependencies'')
            \<and> unique_strs (fld v ''holders'')) (role @ '' graph'')]"

definition roles_of :: "pyval \<Rightarrow> string \<Rightarrow> pyval" where
  "roles_of v role = fld (fld v ''roles'') role"

definition fixture_head_checks :: "pyval \<Rightarrow> (bool \<times> exc) list" where
  "fixture_head_checks v =
     [need (exact v [''schema'', ''nonce'', ''boot_id'', ''purpose'', ''region_sectors'', ''roles'']) ''fixture schema'',
      need (fld v ''schema'' = PInt 1 \<and> matches (hexn 32) (fld v ''nonce'')) ''fixture identity'',
      need (matches boot_id_re (fld v ''boot_id'')) ''boot identity'',
      need (fld v ''purpose'' \<in> {PStr ''GUARDED'', PStr ''NEGATIVE_L2''}) ''fixture purpose'',
      need (fld v ''region_sectors'' = PInt 2048) ''region geometry'',
      need (exact (fld v ''roles'') [''data'', ''metadata'', ''zero'', ''clone'']) ''role set'']"

definition devno_of :: "pyval \<Rightarrow> string \<Rightarrow> string" where
  "devno_of v role = str_of (fld (roles_of v role) ''devno'')"

definition clone_table :: "pyval \<Rightarrow> string" where
  "clone_table v = ''0 262144 clone '' @ devno_of v ''metadata'' @ '' '' @ devno_of v ''data'' @ '' ''
     @ devno_of v ''zero'' @ '' 2048 2 no_hydration no_discard_passdown''"

definition fixture_graph_checks :: "pyval \<Rightarrow> (bool \<times> exc) list" where
  "fixture_graph_checks v =
     (let data = roles_of v ''data''; metadata = roles_of v ''metadata''; zero = roles_of v ''zero'';
          clone = roles_of v ''clone''; nonce = str_of (fld v ''nonce'') in
      [need (distinct (map (devno_of v) [''data'', ''metadata'', ''zero'', ''clone''])) ''role devnos alias'',
       need ((fld data ''backing_dev'', fld data ''backing_inode'')
             \<noteq> (fld metadata ''backing_dev'', fld metadata ''backing_inode'')) ''loop backing alias'',
       need (fld zero ''name'' = PStr (''slt-lazy-zero-'' @ nonce)
             \<and> fld zero ''uuid'' = PStr (''SLT-LAZY-ZERO-'' @ nonce)) ''zero naming'',
       need (fld clone ''name'' = PStr (''slt-lazy-clone-'' @ nonce)
             \<and> fld clone ''uuid'' = PStr (''SLT-LAZY-CLONE-'' @ nonce)) ''clone naming'',
       need (fld zero ''table'' = PStr ''0 262144 zero'' \<and> is_true (fld zero ''readonly'')
             \<and> is_false (fld zero ''suspended'') \<and> pyeq (fld zero ''open_count'') (PInt 0)
             \<and> pyeq (fld zero ''dependencies'') (PList [])) ''zero target semantics'',
       need (fld clone ''table'' = PStr (clone_table v) \<and> is_false (fld clone ''readonly'')
             \<and> is_false (fld clone ''suspended'') \<and> pyeq (fld clone ''open_count'') (PInt 0)) ''clone target semantics'',
       need (pyeq (fld clone ''dependencies'')
               (PList [fld data ''devno'', fld metadata ''devno'', fld zero ''devno''])) ''clone dependencies'',
       need (pyeq (fld clone ''holders'') (PList [])
             \<and> pyeq (fld data ''holders'') (PList [fld clone ''devno''])
             \<and> pyeq (fld metadata ''holders'') (PList [fld clone ''devno''])
             \<and> pyeq (fld zero ''holders'') (PList [fld clone ''devno''])) ''holder graph''])"

definition validate_fixture :: "pyval \<Rightarrow> pyval res" where
  "validate_fixture v =
     rbind (checks (fixture_head_checks v)) (\<lambda>_.
     rbind (checks (validate_loop ''data'' (roles_of v ''data'') 134217728)) (\<lambda>_.
     rbind (checks (validate_loop ''metadata'' (roles_of v ''metadata'') 33554432)) (\<lambda>_.
     rbind (checks (validate_dm ''zero'' (roles_of v ''zero''))) (\<lambda>_.
     rbind (checks (validate_dm ''clone'' (roles_of v ''clone''))) (\<lambda>_.
     rbind (checks (fixture_graph_checks v)) (\<lambda>_. Inr v))))))"

definition graph_digest :: "pyval \<Rightarrow> string" where
  "graph_digest v = digest v"

section \<open>The guard epochs\<close>

datatype lz_state = GRAPH_VERIFIED | GUARD_VERIFIED | MODEL_PUBLISHED | UNPUBLISHED | UNKNOWN

record lz_model =
  lz_fixture :: pyval
  lz_digest :: string
  lz_epoch :: nat
  lz_state :: lz_state
  lz_guard :: "pyval option"
  lz_was_withdrawn :: bool

type_synonym lz_outcome = "pyval res \<times> lz_model"

definition lz_init :: "pyval \<Rightarrow> lz_model res" where
  "lz_init fixture =
     rbind (validate_fixture fixture) (\<lambda>f.
       Inr \<lparr>lz_fixture = f, lz_digest = graph_digest f, lz_epoch = 1, lz_state = GRAPH_VERIFIED,
            lz_guard = None, lz_was_withdrawn = False\<rparr>)"

definition lz_poison :: "string \<Rightarrow> lz_model \<Rightarrow> lz_outcome" where
  "lz_poison msg s = (Inl (Refusal msg), s\<lparr>lz_state := UNKNOWN, lz_guard := None\<rparr>)"

definition lz_invalidate :: "lz_model \<Rightarrow> lz_outcome" where
  "lz_invalidate s = (Inr PNone, s\<lparr>lz_state := UNKNOWN, lz_guard := None\<rparr>)"

definition receipt_fields :: "string list" where
  "receipt_fields = [''schema'', ''fixture_nonce'', ''boot_id'', ''epoch'', ''graph_digest'', ''clone_devno'',
     ''clone_diskseq'', ''clone_table'', ''queue_devno'', ''queue_diskseq'', ''discard_max_bytes'', ''attempt_id'']"

definition receipt_valid :: "lz_model \<Rightarrow> pyval \<Rightarrow> bool" where
  "receipt_valid s r \<longleftrightarrow>
     (let clone = roles_of (lz_fixture s) ''clone'' in
      fld r ''schema'' = PInt 1
      \<and> pyeq (fld r ''fixture_nonce'') (fld (lz_fixture s) ''nonce'')
      \<and> pyeq (fld r ''boot_id'') (fld (lz_fixture s) ''boot_id'')
      \<and> fld r ''epoch'' = PInt (int (lz_epoch s))
      \<and> pyeq (fld r ''graph_digest'') (PStr (lz_digest s))
      \<and> pyeq (fld r ''clone_devno'') (fld clone ''devno'')
      \<and> is_int (fld r ''clone_diskseq'') \<and> pyeq (fld r ''clone_diskseq'') (fld clone ''diskseq'')
      \<and> pyeq (fld r ''clone_table'') (fld clone ''table'')
      \<and> pyeq (fld r ''queue_devno'') (fld clone ''devno'')
      \<and> is_int (fld r ''queue_diskseq'') \<and> pyeq (fld r ''queue_diskseq'') (fld clone ''diskseq'')
      \<and> fld r ''discard_max_bytes'' = PInt 0
      \<and> matches (hexn 32) (fld r ''attempt_id''))"

definition lz_accept_guard :: "pyval \<Rightarrow> lz_model \<Rightarrow> lz_outcome" where
  "lz_accept_guard r s =
     (if lz_state s \<noteq> GRAPH_VERIFIED then (Inl (Refusal ''guard state''), s)
      else if \<not> exact r receipt_fields then lz_poison ''guard schema'' s
      else if \<not> receipt_valid s r then lz_poison ''guard identity or epoch mismatch'' s
      else (Inr PNone, s\<lparr>lz_guard := Some r, lz_state := GUARD_VERIFIED\<rparr>))"

definition lz_published :: pyval where
  "lz_published = PDict
     [(''classification'', PStr ''MODEL_GUARD_PUBLICATION_ORDER_VALID''), (''runtime_authorized'', PBool False),
      (''production_authorized'', PBool False), (''shared_owner_qualified'', PBool False),
      (''power_loss_qualified'', PBool False), (''linear_pivot_qualified'', PBool False)]"

definition lz_publish :: "lz_model \<Rightarrow> lz_outcome" where
  "lz_publish s =
     (if lz_state s \<noteq> GUARD_VERIFIED then (Inl (Refusal ''publication state''), s)
      else if fld (lz_fixture s) ''purpose'' \<noteq> PStr ''GUARDED''
        then (Inl (Refusal ''negative fixture cannot publish''), s)
      else (Inr lz_published, s\<lparr>lz_state := MODEL_PUBLISHED\<rparr>))"

definition lz_withdraw :: "pyval \<Rightarrow> pyval \<Rightarrow> lz_model \<Rightarrow> lz_outcome" where
  "lz_withdraw terminal open_count s =
     (if lz_state s \<noteq> MODEL_PUBLISHED then (Inl (Refusal ''withdraw state''), s)
      else if \<not> (is_true terminal \<and> open_count = PInt 0) then (Inl (Refusal ''terminal zero-open proof''), s)
      else (Inr PNone, s\<lparr>lz_state := UNPUBLISHED, lz_was_withdrawn := True\<rparr>))"

text \<open>The body of the \<^verbatim>\<open>try\<close> of \<^verbatim>\<open>reconfigure\<close>.\<close>

definition lz_observe :: "pyval \<Rightarrow> pyval \<Rightarrow> lz_model \<Rightarrow> pyval res" where
  "lz_observe kind fixture s =
     rbind (validate_fixture fixture) (\<lambda>observed.
     rbind (checks
       ([need (pyeq (fld observed ''nonce'') (fld (lz_fixture s) ''nonce'')
               \<and> pyeq (fld observed ''boot_id'') (fld (lz_fixture s) ''boot_id'')
               \<and> pyeq (fld observed ''purpose'') (fld (lz_fixture s) ''purpose'')) ''fixture continuity changed'']
        @ (if kind \<in> {PStr ''RELOAD'', PStr ''RESUME''}
           then [need (pyeq observed (lz_fixture s)) ''reload/resume must preserve the exact graph''] else [])
        @ (if kind = PStr ''REOPEN''
           then [need (pyeq (roles_of observed ''data'') (roles_of (lz_fixture s) ''data''))
                   ''reopen data identity changed'',
                 need (pyeq (roles_of observed ''metadata'') (roles_of (lz_fixture s) ''metadata''))
                   ''reopen metadata identity changed'',
                 need (pyeq (roles_of observed ''zero'') (roles_of (lz_fixture s) ''zero''))
                   ''reopen zero-source identity changed'']
           else []))) (\<lambda>_. Inr observed))"

definition lz_reconfigure :: "pyval \<Rightarrow> pyval \<Rightarrow> pyval \<Rightarrow> pyval \<Rightarrow> lz_model \<Rightarrow> lz_outcome" where
  "lz_reconfigure kind fixture terminal open_count s =
     (case in_strs kind [''RELOAD'', ''RESUME'', ''REOPEN''] of
        Inl e \<Rightarrow> (Inl e, s)
      | Inr known \<Rightarrow>
        if \<not> known then (Inl (Refusal ''reconfigure kind''), s)
        else if \<not> (lz_state s = UNPUBLISHED \<and> lz_was_withdrawn s)
          then (Inl (Refusal ''reconfigure requires completed withdrawal''), s)
        else if \<not> (is_true terminal \<and> open_count = PInt 0)
          then (Inl (Refusal ''reconfigure requires terminal zero-open proof''), s)
        else
          let s' = s\<lparr>lz_epoch := lz_epoch s + 1, lz_guard := None\<rparr> in
          case lz_observe kind fixture s' of
            Inl e \<Rightarrow> (Inl e, s'\<lparr>lz_state := UNKNOWN\<rparr>)
          | Inr observed \<Rightarrow>
              (Inr PNone, s'\<lparr>lz_fixture := observed, lz_digest := graph_digest observed,
                            lz_state := GRAPH_VERIFIED, lz_was_withdrawn := False\<rparr>))"

section \<open>Sequences of operations\<close>

datatype lz_op =
    AcceptGuard pyval
  | Publish
  | Withdraw pyval pyval
  | Reconfigure pyval pyval pyval pyval
  | Invalidate

fun lz_do :: "lz_op \<Rightarrow> lz_model \<Rightarrow> lz_outcome" where
  "lz_do (AcceptGuard r) s = lz_accept_guard r s"
| "lz_do Publish s = lz_publish s"
| "lz_do (Withdraw t n) s = lz_withdraw t n s"
| "lz_do (Reconfigure k f t n) s = lz_reconfigure k f t n s"
| "lz_do Invalidate s = lz_invalidate s"

text \<open>A caller that goes on after an exception; the trace keeps each operation and its outcome.\<close>

fun lz_run :: "lz_op list \<Rightarrow> lz_model \<Rightarrow> (lz_op \<times> lz_outcome) list" where
  "lz_run [] s = []"
| "lz_run (op # ops) s = (op, lz_do op s) # lz_run ops (snd (lz_do op s))"

definition lz_last :: "(lz_op \<times> lz_outcome) list \<Rightarrow> lz_model \<Rightarrow> lz_model" where
  "lz_last tr s = (if tr = [] then s else snd (snd (last tr)))"

text \<open>The epochs in which a publication succeeded.\<close>

definition lz_epochs :: "(lz_op \<times> lz_outcome) list \<Rightarrow> nat list" where
  "lz_epochs tr = map (\<lambda>(op, r, t). lz_epoch t) (filter (\<lambda>(op, r, t). op = Publish \<and> \<not> isl r) tr)"

text \<open>States reachable from a fixture.\<close>

inductive lz_reach :: "pyval \<Rightarrow> lz_model \<Rightarrow> bool" for fixture :: pyval where
  start: "lz_init fixture = Inr s \<Longrightarrow> lz_reach fixture s"
| op: "lz_reach fixture s \<Longrightarrow> lz_reach fixture (snd (lz_do op s))"

section \<open>The invariant\<close>

text \<open>
  What the guard is worth in each state: after the receipt was accepted and until the next
  reconfiguration, it is valid for the current fixture, digest and epoch.
\<close>

definition lz_guarded :: "lz_model \<Rightarrow> bool" where
  "lz_guarded s \<longleftrightarrow> (\<exists>r. lz_guard s = Some r \<and> exact r receipt_fields \<and> receipt_valid s r)"

definition lz_inv :: "lz_model \<Rightarrow> bool" where
  "lz_inv s \<longleftrightarrow>
     validate_fixture (lz_fixture s) = Inr (lz_fixture s) \<and> lz_digest s = graph_digest (lz_fixture s)
     \<and> (case lz_state s of
          GRAPH_VERIFIED \<Rightarrow> lz_guard s = None \<and> \<not> lz_was_withdrawn s
        | GUARD_VERIFIED \<Rightarrow> lz_guarded s \<and> \<not> lz_was_withdrawn s
        | MODEL_PUBLISHED \<Rightarrow> lz_guarded s \<and> \<not> lz_was_withdrawn s \<and> fld (lz_fixture s) ''purpose'' = PStr ''GUARDED''
        | UNPUBLISHED \<Rightarrow> lz_guarded s \<and> lz_was_withdrawn s \<and> fld (lz_fixture s) ''purpose'' = PStr ''GUARDED''
        | UNKNOWN \<Rightarrow> lz_guard s = None)"

lemma validate_fixture_same: "validate_fixture v = Inr w \<Longrightarrow> w = v"
  by (auto simp: validate_fixture_def rbind_Inr)

lemma validate_fixture_idem: "validate_fixture v = Inr w \<Longrightarrow> w = v \<and> validate_fixture w = Inr w"
  using validate_fixture_same by blast

lemma lz_inv_init: "lz_init fixture = Inr s \<Longrightarrow> lz_inv s"
  unfolding lz_init_def by (erule rbindE, drule validate_fixture_idem) (auto simp: lz_inv_def)

lemma lz_observe_valid: "lz_observe kind f s = Inr v \<Longrightarrow> v = f \<and> validate_fixture v = Inr v"
  unfolding lz_observe_def by (elim rbindE, drule validate_fixture_idem) auto

lemmas lz_op_defs = lz_accept_guard_def lz_publish_def lz_withdraw_def lz_reconfigure_def lz_invalidate_def lz_poison_def

lemma receipt_valid_state [simp]:
  "receipt_valid (s\<lparr>lz_state := q\<rparr>) r = receipt_valid s r" "receipt_valid (s\<lparr>lz_guard := g\<rparr>) r = receipt_valid s r"
  "receipt_valid (s\<lparr>lz_was_withdrawn := b\<rparr>) r = receipt_valid s r"
  by (simp_all add: receipt_valid_def)

lemma lz_reconfigure_E:
  assumes "lz_reconfigure k f t n s = (r, s')"
  obtains (refused) "s' = s" "isl r"
  | (failed) "lz_state s = UNPUBLISHED"
      "s' = s\<lparr>lz_epoch := lz_epoch s + 1, lz_guard := None, lz_state := UNKNOWN\<rparr>" "isl r"
  | (opened) "lz_state s = UNPUBLISHED" "r = Inr PNone" "k \<in> PStr ` {''RELOAD'', ''RESUME'', ''REOPEN''}"
      "lz_observe k f (s\<lparr>lz_epoch := lz_epoch s + 1, lz_guard := None\<rparr>) = Inr f" "validate_fixture f = Inr f"
      "s' = s\<lparr>lz_epoch := lz_epoch s + 1, lz_guard := None, lz_fixture := f, lz_digest := graph_digest f,
             lz_state := GRAPH_VERIFIED, lz_was_withdrawn := False\<rparr>"
proof -
  let ?s = "s\<lparr>lz_epoch := lz_epoch s + 1, lz_guard := None\<rparr>"
  show thesis
  proof (cases "in_strs k [''RELOAD'', ''RESUME'', ''REOPEN''] = Inr True \<and> lz_state s = UNPUBLISHED
      \<and> lz_was_withdrawn s \<and> is_true t \<and> n = PInt 0")
    case False
    then have "s' = s \<and> isl r"
      using assms by (auto simp: lz_reconfigure_def split: sum.splits if_splits)
    with refused show thesis by blast
  next
    case True
    then have k: "k \<in> PStr ` {''RELOAD'', ''RESUME'', ''REOPEN''}" by auto
    show thesis
    proof (cases "lz_observe k f ?s")
      case (Inl e)
      with True assms have "s' = ?s\<lparr>lz_state := UNKNOWN\<rparr>" "Inl e = r"
        by (simp_all add: lz_reconfigure_def Let_def del: in_strs_True)
      then have "s' = s\<lparr>lz_epoch := lz_epoch s + 1, lz_guard := None, lz_state := UNKNOWN\<rparr>" "isl r" by auto
      with True failed show thesis by blast
    next
      case (Inr v)
      with True assms have "s' = ?s\<lparr>lz_fixture := v, lz_digest := graph_digest v, lz_state := GRAPH_VERIFIED,
            lz_was_withdrawn := False\<rparr>" "r = Inr PNone"
        by (auto simp: lz_reconfigure_def Let_def simp del: in_strs_True)
      with True Inr lz_observe_valid [OF Inr] k opened show thesis by auto
    qed
  qed
qed

lemma lz_inv_reconfigure: "lz_inv s \<Longrightarrow> lz_inv (snd (lz_reconfigure k f t n s))"
proof -
  assume inv: "lz_inv s"
  obtain r s' where run: "lz_reconfigure k f t n s = (r, s')" by (cases "lz_reconfigure k f t n s")
  then show ?thesis
  proof (cases rule: lz_reconfigure_E)
    case refused
    with run inv show ?thesis by simp
  next
    case failed
    with run inv show ?thesis by (simp add: lz_inv_def)
  next
    case opened
    with run show ?thesis by (simp add: lz_inv_def)
  qed
qed

lemma lz_inv_accept: "lz_inv s \<Longrightarrow> lz_inv (snd (lz_accept_guard r s))"
  by (cases "lz_state s = GRAPH_VERIFIED") (auto simp: lz_accept_guard_def lz_poison_def lz_inv_def lz_guarded_def)

lemma lz_inv_publish: "lz_inv s \<Longrightarrow> lz_inv (snd (lz_publish s))"
  by (cases "lz_state s = GUARD_VERIFIED") (auto simp: lz_publish_def lz_inv_def lz_guarded_def)

lemma lz_inv_withdraw: "lz_inv s \<Longrightarrow> lz_inv (snd (lz_withdraw t n s))"
  by (cases "lz_state s = MODEL_PUBLISHED") (auto simp: lz_withdraw_def lz_inv_def lz_guarded_def)

lemma lz_inv_do: "lz_inv s \<Longrightarrow> lz_inv (snd (lz_do op s))"
proof (cases op)
  case Invalidate
  moreover assume "lz_inv s"
  ultimately show ?thesis by (simp add: lz_inv_def lz_invalidate_def)
qed (simp_all add: lz_inv_accept lz_inv_publish lz_inv_withdraw lz_inv_reconfigure)

lemma lz_reach_inv: "lz_reach fixture s \<Longrightarrow> lz_inv s"
  by (induction rule: lz_reach.induct) (auto intro: lz_inv_init lz_inv_do)

text \<open>Nonce, boot, purpose and the three roles a reopening keeps.\<close>

definition same_identity :: "pyval \<Rightarrow> pyval \<Rightarrow> bool" where
  "same_identity v w \<longleftrightarrow>
     pyeq (fld v ''nonce'') (fld w ''nonce'') \<and> pyeq (fld v ''boot_id'') (fld w ''boot_id'')
     \<and> pyeq (fld v ''purpose'') (fld w ''purpose'')
     \<and> (\<forall>role \<in> {''data'', ''metadata'', ''zero''}. pyeq (roles_of v role) (roles_of w role))"

lemma same_identity_refl: "same_identity v v"
  by (simp add: same_identity_def)

lemma same_identity_trans: "same_identity u v \<Longrightarrow> same_identity v w \<Longrightarrow> same_identity u w"
  by (auto simp: same_identity_def intro: pyeq_trans)

text \<open>Nonce, boot, purpose and the three roles a reconfiguration keeps.\<close>

lemma lz_observe_identity:
  assumes "lz_observe k f s = Inr v" "k \<in> PStr ` {''RELOAD'', ''RESUME'', ''REOPEN''}"
  shows "same_identity v (lz_fixture s)"
proof -
  have "pyeq v (lz_fixture s) \<Longrightarrow> pyeq (roles_of v role) (roles_of (lz_fixture s) role)" for role
    by (simp add: roles_of_def pyeq_fld)
  with assms show ?thesis
    by (auto simp: lz_observe_def rbind_Inr check_simps same_identity_def)
qed

lemma lz_identity_do: "same_identity (lz_fixture (snd (lz_do op s))) (lz_fixture s)"
proof (cases op)
  case (Reconfigure k f t n)
  obtain r s' where run: "lz_reconfigure k f t n s = (r, s')" by (cases "lz_reconfigure k f t n s")
  then have "same_identity (lz_fixture s') (lz_fixture s)"
    by (cases rule: lz_reconfigure_E) (auto simp: same_identity_refl dest: lz_observe_identity)
  with run Reconfigure show ?thesis by simp
qed (auto simp: same_identity_refl lz_op_defs)

section \<open>A concrete fixture\<close>

definition lz_loop :: "string \<Rightarrow> string \<Rightarrow> int \<Rightarrow> int \<Rightarrow> pyval" where
  "lz_loop role dev bytes inode = PDict
     [(''kind'', PStr ''loop''), (''role'', PStr role), (''devno'', PStr dev), (''diskseq'', PInt 5),
      (''size_bytes'', PInt bytes), (''backing_dev'', PInt 1), (''backing_inode'', PInt inode), (''offset'', PInt 0),
      (''sizelimit'', PInt 0), (''readonly'', PBool False), (''holders'', PList [PStr ''253:1''])]"

definition lz_dm :: "string \<Rightarrow> string \<Rightarrow> string \<Rightarrow> string \<Rightarrow> string \<Rightarrow> bool \<Rightarrow> string list \<Rightarrow> string list \<Rightarrow> pyval" where
  "lz_dm role dev nm uu table ro holders deps = PDict
     [(''kind'', PStr ''dm''), (''role'', PStr role), (''devno'', PStr dev), (''diskseq'', PInt 6),
      (''size_bytes'', PInt 134217728), (''name'', PStr nm), (''uuid'', PStr uu), (''table'', PStr table),
      (''readonly'', PBool ro), (''suspended'', PBool False), (''open_count'', PInt 0),
      (''holders'', PList (map PStr holders)), (''dependencies'', PList (map PStr deps))]"

definition lz_nonce :: string where "lz_nonce = replicate 32 CHR ''a''"

definition lz_demo :: pyval where
  "lz_demo = PDict
     [(''schema'', PInt 1), (''nonce'', PStr lz_nonce), (''boot_id'', PStr ''12345678-1234-1234-1234-123456789abc''),
      (''purpose'', PStr ''GUARDED''), (''region_sectors'', PInt 2048),
      (''roles'', PDict
         [(''data'', lz_loop ''data'' ''7:0'' 134217728 11), (''metadata'', lz_loop ''metadata'' ''7:1'' 33554432 12),
          (''zero'', lz_dm ''zero'' ''253:0'' (''slt-lazy-zero-'' @ lz_nonce) (''SLT-LAZY-ZERO-'' @ lz_nonce)
                    ''0 262144 zero'' True [''253:1''] []),
          (''clone'', lz_dm ''clone'' ''253:1'' (''slt-lazy-clone-'' @ lz_nonce) (''SLT-LAZY-CLONE-'' @ lz_nonce)
                    ''0 262144 clone 7:1 7:0 253:0 2048 2 no_hydration no_discard_passdown'' False []
                    [''7:0'', ''7:1'', ''253:0''])])]"

lemma lz_demo_roles:
  "roles_of lz_demo ''data'' = lz_loop ''data'' ''7:0'' 134217728 11"
  "roles_of lz_demo ''metadata'' = lz_loop ''metadata'' ''7:1'' 33554432 12"
  "roles_of lz_demo ''zero'' = lz_dm ''zero'' ''253:0'' (''slt-lazy-zero-'' @ lz_nonce) (''SLT-LAZY-ZERO-'' @ lz_nonce)
                    ''0 262144 zero'' True [''253:1''] []"
  "roles_of lz_demo ''clone'' = lz_dm ''clone'' ''253:1'' (''slt-lazy-clone-'' @ lz_nonce) (''SLT-LAZY-CLONE-'' @ lz_nonce)
                    ''0 262144 clone 7:1 7:0 253:0 2048 2 no_hydration no_discard_passdown'' False []
                    [''7:0'', ''7:1'', ''253:0'']"
  "fld lz_demo ''nonce'' = PStr lz_nonce"
  by (simp_all add: roles_of_def lz_demo_def)

lemma lz_demo_valid: "validate_fixture lz_demo = Inr lz_demo"
proof -
  have nonce: "hexn 32 lz_nonce" by (simp add: lz_nonce_def lower_hex_def)
  have dev: "devno_re ''7:0''" "devno_re ''7:1''" "devno_re ''253:0''" "devno_re ''253:1''"
    by (simp_all add: devno_re_def decimal_re_def digit_def)
  have "checks (fixture_head_checks lz_demo) = Inr ()"
    using nonce by (simp add: checks_ok fixture_head_checks_def lz_demo_def boot_id_re_def dash_def lower_hex_def insert_commute)
  moreover have "checks (validate_loop ''data'' (roles_of lz_demo ''data'') 134217728) = Inr ()"
    "checks (validate_loop ''metadata'' (roles_of lz_demo ''metadata'') 33554432) = Inr ()"
    by (simp_all add: checks_ok validate_loop_def lz_demo_roles lz_loop_def loop_fields_def dev unique_strs_def
        all_strs_def insert_commute)
  moreover have "checks (validate_dm ''zero'' (roles_of lz_demo ''zero'')) = Inr ()"
    "checks (validate_dm ''clone'' (roles_of lz_demo ''clone'')) = Inr ()"
    by (simp_all add: checks_ok validate_dm_def lz_demo_roles lz_dm_def dm_fields_def dev unique_strs_def all_strs_def
        insert_commute)
  moreover have "checks (fixture_graph_checks lz_demo) = Inr ()"
    by (simp add: checks_ok fixture_graph_checks_def lz_demo_roles lz_loop_def lz_dm_def devno_of_def clone_table_def Let_def)
  ultimately show ?thesis by (simp add: validate_fixture_def)
qed

definition lz_demo_receipt :: pyval where
  "lz_demo_receipt = PDict
     [(''schema'', PInt 1), (''fixture_nonce'', PStr lz_nonce), (''boot_id'', PStr ''12345678-1234-1234-1234-123456789abc''),
      (''epoch'', PInt 1), (''graph_digest'', PStr (graph_digest lz_demo)), (''clone_devno'', PStr ''253:1''),
      (''clone_diskseq'', PInt 6),
      (''clone_table'', PStr ''0 262144 clone 7:1 7:0 253:0 2048 2 no_hydration no_discard_passdown''),
      (''queue_devno'', PStr ''253:1''), (''queue_diskseq'', PInt 6), (''discard_max_bytes'', PInt 0),
      (''attempt_id'', PStr (replicate 32 CHR ''b''))]"

definition lz_demo_start :: lz_model where
  "lz_demo_start = \<lparr>lz_fixture = lz_demo, lz_digest = graph_digest lz_demo, lz_epoch = 1, lz_state = GRAPH_VERIFIED,
     lz_guard = None, lz_was_withdrawn = False\<rparr>"

lemma lz_demo_reach: "lz_reach lz_demo lz_demo_start"
  by (rule lz_reach.start) (simp add: lz_init_def lz_demo_valid lz_demo_start_def)

lemma lz_demo_accept:
  "lz_do (AcceptGuard lz_demo_receipt) lz_demo_start
     = (Inr PNone, lz_demo_start\<lparr>lz_guard := Some lz_demo_receipt, lz_state := GUARD_VERIFIED\<rparr>)"
proof -
  have "exact lz_demo_receipt receipt_fields"
    by (simp add: lz_demo_receipt_def receipt_fields_def insert_commute)
  moreover have "receipt_valid lz_demo_start lz_demo_receipt"
    by (simp add: receipt_valid_def lz_demo_receipt_def lz_demo_start_def lz_demo_roles lz_dm_def Let_def lower_hex_def)
       (simp add: lz_demo_def)
  ultimately show ?thesis by (simp add: lz_accept_guard_def) (simp add: lz_demo_start_def)
qed

section \<open>Properties of the guard epochs\<close>

text \<open>
  C5: Publication needs a live guard. In every reachable state, the model is ready to publish, is
  published or is just withdrawn only with a stored receipt that is valid for the current epoch,
  the current fixture and its digest; the fixture is always a validated one; and a publication
  succeeds exactly from GUARD_VERIFIED with a GUARDED fixture.
\<close>

theorem lz_publication_guarded:
  assumes "lz_reach fixture s"
  shows "(lz_state s \<in> {GUARD_VERIFIED, MODEL_PUBLISHED, UNPUBLISHED} \<longrightarrow>
            (\<exists>r. lz_guard s = Some r \<and> receipt_valid s r \<and> fld r ''epoch'' = PInt (int (lz_epoch s))
               \<and> fld r ''graph_digest'' = PStr (graph_digest (lz_fixture s))))
     \<and> validate_fixture (lz_fixture s) = Inr (lz_fixture s)
     \<and> (fst (lz_publish s) = Inr lz_published \<longleftrightarrow>
          lz_state s = GUARD_VERIFIED \<and> fld (lz_fixture s) ''purpose'' = PStr ''GUARDED'')"
proof -
  have inv: "lz_inv s" using assms by (rule lz_reach_inv)
  then have "lz_guarded s" if "lz_state s \<in> {GUARD_VERIFIED, MODEL_PUBLISHED, UNPUBLISHED}"
    using that by (auto simp: lz_inv_def)
  moreover have "fld r ''epoch'' = PInt (int (lz_epoch s)) \<and> fld r ''graph_digest'' = PStr (graph_digest (lz_fixture s))"
    if "receipt_valid s r" for r
    using that inv by (auto simp: receipt_valid_def Let_def lz_inv_def)
  ultimately show ?thesis using inv
    by (auto simp: lz_guarded_def lz_publish_def lz_inv_def)
qed

theorem lz_publication_guarded_witness:
  "fst (lz_publish (lz_demo_start\<lparr>lz_guard := Some lz_demo_receipt, lz_state := GUARD_VERIFIED\<rparr>)) = Inr lz_published"
proof -
  have "lz_reach lz_demo (lz_demo_start\<lparr>lz_guard := Some lz_demo_receipt, lz_state := GUARD_VERIFIED\<rparr>)"
    using lz_reach.op [OF lz_demo_reach, of "AcceptGuard lz_demo_receipt"] by (simp add: lz_demo_accept del: lz_do.simps)
  from lz_publication_guarded [OF this] show ?thesis by (simp add: lz_demo_start_def) (simp add: lz_demo_def)
qed

lemma lz_unknown_do:
  assumes "lz_state s = UNKNOWN" "lz_guard s = None"
  shows "lz_state (snd (lz_do op s)) = UNKNOWN \<and> lz_guard (snd (lz_do op s)) = None
     \<and> (op = Publish \<longrightarrow> isl (fst (lz_do op s)))"
  using assms by (cases op) (auto simp: lz_op_defs Let_def split: sum.splits)

text \<open>
  UNKNOWN is absorbing. Once the model is poisoned or invalidated, every later sequence of
  operations leaves it UNKNOWN without a guard, and none of its publications succeeds.
\<close>

theorem lz_unknown_absorbing:
  assumes "lz_state s = UNKNOWN" and "lz_guard s = None"
  shows "\<forall>(op, r, t) \<in> set (lz_run ops s). lz_state t = UNKNOWN \<and> lz_guard t = None \<and> (op = Publish \<longrightarrow> isl r)"
  using assms
proof (induction ops arbitrary: s)
  case (Cons op ops)
  obtain r t where do: "lz_do op s = (r, t)" by (cases "lz_do op s")
  with Cons.prems lz_unknown_do [of s op] have t: "lz_state t = UNKNOWN" "lz_guard t = None" "op = Publish \<longrightarrow> isl r"
    by auto
  from Cons.IH [OF t(1,2)] t do show ?case by simp
qed simp

theorem lz_unknown_absorbing_witness:
  "list_all (\<lambda>(op, r, t). lz_state t = UNKNOWN) (lz_run [Publish, AcceptGuard PNone] (snd (lz_invalidate lz_demo_start)))"
proof -
  have "lz_state (snd (lz_invalidate lz_demo_start)) = UNKNOWN" "lz_guard (snd (lz_invalidate lz_demo_start)) = None"
    by (simp_all add: lz_invalidate_def)
  from lz_unknown_absorbing [OF this, of "[Publish, AcceptGuard PNone]"] show ?thesis
    unfolding list_all_iff by fast
qed

text \<open>The epochs published so far, and the current one.\<close>

lemma lz_do_epoch:
  "lz_epoch s \<le> lz_epoch (snd (lz_do op s))"
  "lz_state s \<notin> {GRAPH_VERIFIED, GUARD_VERIFIED} \<Longrightarrow>
     lz_state (snd (lz_do op s)) \<in> {GRAPH_VERIFIED, GUARD_VERIFIED} \<Longrightarrow> lz_epoch s < lz_epoch (snd (lz_do op s))"
proof -
  have rec: "lz_epoch s \<le> lz_epoch s' \<and> (lz_state s' \<in> {GRAPH_VERIFIED, GUARD_VERIFIED} \<longrightarrow> lz_state s \<in> {GRAPH_VERIFIED, GUARD_VERIFIED} \<or> lz_epoch s < lz_epoch s')"
    if "lz_reconfigure k f t n s = (r, s')" for k f t n r s'
    using that by (cases rule: lz_reconfigure_E) auto
  show "lz_epoch s \<le> lz_epoch (snd (lz_do op s))"
    using rec by (cases op) (auto simp: lz_op_defs(1-3,5-6) split: prod.splits, metis prod.collapse)
  assume "lz_state s \<notin> {GRAPH_VERIFIED, GUARD_VERIFIED}"
    "lz_state (snd (lz_do op s)) \<in> {GRAPH_VERIFIED, GUARD_VERIFIED}"
  then show "lz_epoch s < lz_epoch (snd (lz_do op s))"
    using rec by (cases op) (auto simp: lz_op_defs(1-3,5-6) split: prod.splits if_splits, (metis prod.collapse)+)
qed

lemma lz_publish_state:
  assumes "lz_do Publish s = (Inr v, t)"
  shows "lz_state s = GUARD_VERIFIED" "t = s\<lparr>lz_state := MODEL_PUBLISHED\<rparr>"
  using assms by (auto simp: lz_publish_def split: if_splits)

text \<open>
  Each epoch is published at most once, and epochs only grow: over any sequence of operations
  the epochs of the successful publications are strictly increasing, and all at least the epoch of
  the start (strictly greater when the start is not ready for publication).
\<close>

theorem lz_epochs_increase:
  "sorted_wrt (<) (lz_epochs (lz_run ops s))
   \<and> (\<forall>n \<in> set (lz_epochs (lz_run ops s)). lz_epoch s \<le> n
        \<and> (lz_state s \<notin> {GRAPH_VERIFIED, GUARD_VERIFIED} \<longrightarrow> lz_epoch s < n))"
proof (induction ops arbitrary: s)
  case Nil
  then show ?case by (simp add: lz_epochs_def)
next
  case (Cons op ops)
  obtain r t where do: "lz_do op s = (r, t)" by (cases "lz_do op s")
  have le: "lz_epoch s \<le> lz_epoch t" using lz_do_epoch(1) [of s op] do by simp
  have lt: "lz_epoch s < lz_epoch t" if "lz_state s \<notin> {GRAPH_VERIFIED, GUARD_VERIFIED}"
      "lz_state t \<in> {GRAPH_VERIFIED, GUARD_VERIFIED}"
    using lz_do_epoch(2) [of s op] that do by simp
  have IH: "sorted_wrt (<) (lz_epochs (lz_run ops t))"
    "\<And>n. n \<in> set (lz_epochs (lz_run ops t)) \<Longrightarrow> lz_epoch t \<le> n"
    "\<And>n. n \<in> set (lz_epochs (lz_run ops t)) \<Longrightarrow> lz_state t \<notin> {GRAPH_VERIFIED, GUARD_VERIFIED} \<Longrightarrow> lz_epoch t < n"
    using Cons.IH [of t] by auto
  show ?case
  proof (cases "op = Publish \<and> \<not> isl r")
    case False
    then have "lz_epochs (lz_run (op # ops) s) = lz_epochs (lz_run ops t)" using do by (auto simp: lz_epochs_def)
    then show ?thesis using IH le lt by (auto intro: order_trans, metis order.strict_trans1 order.strict_trans2)
  next
    case True
    then obtain v where "lz_do Publish s = (Inr v, t)" using do by (cases r) auto
    from lz_publish_state [OF this] have st: "lz_state s = GUARD_VERIFIED" "lz_state t = MODEL_PUBLISHED" "lz_epoch t = lz_epoch s"
      by auto
    have "lz_epochs (lz_run (op # ops) s) = lz_epoch t # lz_epochs (lz_run ops t)"
      using True do by (simp add: lz_epochs_def)
    then show ?thesis using IH st by (auto dest: less_imp_le)
  qed
qed

theorem lz_epochs_increase_witness:
  "sorted_wrt (<) (lz_epochs (lz_run [AcceptGuard lz_demo_receipt, Publish] lz_demo_start))
   \<and> lz_epochs (lz_run [AcceptGuard lz_demo_receipt, Publish] lz_demo_start) = [1]"
proof -
  have "lz_epochs (lz_run [AcceptGuard lz_demo_receipt, Publish] lz_demo_start) = [1]"
    by (simp add: lz_epochs_def lz_demo_accept del: lz_do.simps(1))
       (simp add: lz_publish_def lz_demo_start_def, simp add: lz_demo_def)
  with lz_epochs_increase show ?thesis by blast
qed

text \<open>
  Continuity of identity. Whatever sequence of operations is performed, successful or not, the
  fixture keeps the nonce, the boot, the purpose and the data, metadata and zero roles it was
  created with; only the clone may be reopened under a new identity.
\<close>

theorem lz_identity_kept:
  assumes "lz_reach fixture s"
  shows "same_identity (lz_fixture s) fixture"
  using assms
proof induction
  case (start s)
  then have "lz_fixture s = fixture"
    unfolding lz_init_def by (auto elim!: rbindE dest: validate_fixture_same)
  then show ?case by (simp add: same_identity_refl)
next
  case (op s o')
  then show ?case using lz_identity_do same_identity_trans by blast
qed

theorem lz_identity_kept_witness: "same_identity (lz_fixture lz_demo_start) lz_demo"
  using lz_identity_kept [OF lz_demo_reach] .

end
