(* ===== verification/ProcessLifetime.thy ===== *)
theory ProcessLifetime
  imports PyValue Machine
begin

text \<open>
  \<^verbatim>\<open>experiments/thick-generations/process-lifetime-authority-model.py\<close>: an authority that
  lives as long as one process. Its state is a dict; every operation validates the state, and
  answers with a reply that carries the next state. Only the loss of the process leaves POISONED.
\<close>

section \<open>The state\<close>

definition pl_fields :: "string list" where
  "pl_fields = [''schema'', ''state'', ''enrollment_sha256'', ''session_nonce'', ''boot_id'', ''invocation_id'',
     ''pid'', ''start_ticks'', ''ram_revision'', ''ram_ledger_sha256'', ''in_flight'']"

definition pl_refusal :: "pyval \<Rightarrow> string \<Rightarrow> pyval" where
  "pl_refusal state reason = PDict
     [(''runtime_authorized'', PInt 0), (''action'', PStr ''REFUSE''), (''reason'', PStr reason), (''state'', state)]"

definition cold_state :: "pyval \<Rightarrow> pyval res" where
  "cold_state sha =
     rbind (fullmatch (hexn 64) (if truthy sha then sha else PStr [])) (\<lambda>ok.
     if \<not> ok then Inl (ValueError ''enrollment digest is invalid'')
     else Inr (PDict
       [(''schema'', PInt 1), (''state'', PStr ''COLD''), (''enrollment_sha256'', sha), (''session_nonce'', PNone),
        (''boot_id'', PNone), (''invocation_id'', PNone), (''pid'', PNone), (''start_ticks'', PNone),
        (''ram_revision'', PNone), (''ram_ledger_sha256'', PNone), (''in_flight'', PNone)]))"

definition state_of :: "pyval \<Rightarrow> string \<Rightarrow> bool" where
  "state_of s name \<longleftrightarrow> fld s ''state'' = PStr name"

text \<open>The conditions under which each \<^verbatim>\<open>raise\<close> of \<^verbatim>\<open>validate_state\<close> is not taken.\<close>

definition pl_shape_ok :: "pyval \<Rightarrow> bool res" where
  "pl_shape_ok s =
     rand (Inr (exact s pl_fields \<and> fld s ''schema'' = PInt 1))
    (rand (in_strs (fld s ''state'') [''COLD'', ''ACTIVE'', ''POISONED''])
          (fullmatch (hexn 64) (fld s ''enrollment_sha256'')))"

definition pl_cold_ok :: "pyval \<Rightarrow> bool" where
  "pl_cold_ok s \<longleftrightarrow>
     (\<forall>k \<in> set pl_fields - {''schema'', ''state'', ''enrollment_sha256''}. fld s k = PNone)"

definition pl_session_ok :: "pyval \<Rightarrow> bool res" where
  "pl_session_ok s =
     rand (fullmatch (hexn 32) (fld s ''session_nonce''))
    (rand (fullmatch boot_id_re (fld s ''boot_id''))
    (rand (fullmatch (hexn 32) (fld s ''invocation_id''))
    (rand (Inr (integer (fld s ''pid'') 1 \<and> integer (fld s ''start_ticks'') 1 \<and> integer (fld s ''ram_revision'') 1))
          (fullmatch (hexn 64) (fld s ''ram_ledger_sha256'')))))"

definition request_fields :: "string list" where
  "request_fields = [''request_id'', ''transaction'', ''attempt'']"

definition pl_flight_ok :: "pyval \<Rightarrow> bool res" where
  "pl_flight_ok s =
     (let flight = fld s ''in_flight'' in
      rand (Inr (exact flight (request_fields @ [''pre_revision'', ''pre_ledger_sha256''])))
     (rand (rall (\<lambda>k. fullmatch (hexn 32) (fld flight k)) request_fields)
     (rand (Inr (integer (fld flight ''pre_revision'') 1))
     (rand (fullmatch (hexn 64) (fld flight ''pre_ledger_sha256''))
           (Inr (pyeq (fld flight ''pre_revision'') (fld s ''ram_revision'')
                 \<and> pyeq (fld flight ''pre_ledger_sha256'') (fld s ''ram_ledger_sha256'')))))))"

definition pl_require :: "bool res \<Rightarrow> string \<Rightarrow> unit res" where
  "pl_require m msg = rbind m (\<lambda>ok. if ok then Inr () else Inl (ValueError msg))"

definition validate_state :: "pyval \<Rightarrow> pyval res" where
  "validate_state s =
     rbind (pl_require (pl_shape_ok s) ''process-lifetime authority state is malformed'') (\<lambda>_.
     if state_of s ''COLD''
     then rbind (pl_require (Inr (pl_cold_ok s)) ''COLD authority carries live-session state'') (\<lambda>_. Inr s)
     else
       rbind (pl_require (pl_session_ok s) ''live authority session identity is malformed'') (\<lambda>_.
       rbind (if fld s ''in_flight'' = PNone then Inr ()
              else pl_require (pl_flight_ok s) ''in-flight authority mutation is malformed'') (\<lambda>_. Inr s)))"

definition session_fields :: "string list" where
  "session_fields = [''session_nonce'', ''boot_id'', ''invocation_id'', ''pid'', ''start_ticks'']"

definition active_fixture :: "pyval \<Rightarrow> pyval \<Rightarrow> pyval \<Rightarrow> pyval res" where
  "active_fixture cold session head =
     rbind (validate_state cold) (\<lambda>_.
     if \<not> (state_of cold ''COLD'' \<and> exact session session_fields
           \<and> exact head [''revision'', ''ledger_sha256''])
     then Inl (ValueError ''ACTIVE fixture assumptions are malformed'')
     else
       validate_state
        (fold (\<lambda>(k, v). pyset k v)
          (items session @ [(''state'', PStr ''ACTIVE''), (''ram_revision'', fld head ''revision''),
             (''ram_ledger_sha256'', fld head ''ledger_sha256''), (''in_flight'', PNone)]) cold))"

definition binding_fields :: "string list" where
  "binding_fields = [''enrollment_sha256'', ''session_nonce'', ''boot_id'', ''invocation_id'']"

definition client_binding :: "pyval \<Rightarrow> pyval res" where
  "client_binding s =
     rbind (validate_state s) (\<lambda>_.
     if \<not> state_of s ''ACTIVE'' then Inl (ValueError ''only ACTIVE model fixture has a client binding'')
     else Inr (PDict (map (\<lambda>k. (k, fld s k)) binding_fields)))"

definition binding_matches :: "pyval \<Rightarrow> pyval \<Rightarrow> bool" where
  "binding_matches s binding \<longleftrightarrow>
     exact binding binding_fields \<and> (\<forall>k \<in> set binding_fields. pyeq (fld binding k) (fld s k))"

section \<open>The operations\<close>

definition pl_reply :: "string \<Rightarrow> (string \<times> pyval) list \<Rightarrow> pyval \<Rightarrow> pyval" where
  "pl_reply action extra s = PDict
     ([(''runtime_authorized'', PInt 0), (''action'', PStr action), (''assumptions_matched'', PInt 1)] @ extra
      @ [(''state'', s)])"

definition poisoned :: "pyval \<Rightarrow> pyval" where
  "poisoned s = pyset ''state'' (PStr ''POISONED'') s"

definition head_ok :: "pyval \<Rightarrow> bool res" where
  "head_ok head =
     rand (Inr (exact head [''revision'', ''ledger_sha256''] \<and> is_int (fld head ''revision'')))
          (fullmatch (hexn 64) (fld head ''ledger_sha256''))"

definition observe_head :: "pyval \<Rightarrow> pyval \<Rightarrow> pyval res" where
  "observe_head s head =
     rbind (validate_state s) (\<lambda>_.
     if \<not> state_of s ''ACTIVE'' then Inr (pl_refusal s ''authority session is not ACTIVE'')
     else if fld s ''in_flight'' \<noteq> PNone
       then Inr (pl_refusal s ''standalone head observation is forbidden during in-flight mutation'')
     else
       rbind (head_ok head) (\<lambda>ok.
       if \<not> ok then Inr (pl_refusal (poisoned s) ''disk head observation is malformed or ambiguous'')
       else if \<not> (pyeq (fld head ''revision'') (fld s ''ram_revision'')
                 \<and> pyeq (fld head ''ledger_sha256'') (fld s ''ram_ledger_sha256''))
         then Inr (pl_refusal (poisoned s) ''disk head differs from process-lifetime RAM head'')
       else Inr (pl_reply ''MODEL_HEAD_MATCH_ONLY'' [] s)))"

definition begin_mutation :: "pyval \<Rightarrow> pyval \<Rightarrow> pyval \<Rightarrow> pyval \<Rightarrow> pyval res" where
  "begin_mutation s binding head request =
     rbind (validate_state s) (\<lambda>_.
     if \<not> state_of s ''ACTIVE'' then Inr (pl_refusal s ''authority session is not ACTIVE'')
     else if \<not> binding_matches s binding
       then Inr (pl_refusal s ''client is not bound to the exact live session'')
     else if fld s ''in_flight'' \<noteq> PNone then Inr (pl_refusal s ''another mutation is already in flight'')
     else
       rbind (observe_head s head) (\<lambda>observed.
       let s' = fld observed ''state'' in
       if fld observed ''action'' = PStr ''REFUSE'' then Inr observed
       else
         rbind (rand (Inr (exact request request_fields))
                  (rall (\<lambda>k. fullmatch (hexn 32) (fld request k)) (keys request))) (\<lambda>ok.
         if \<not> ok then Inr (pl_refusal s' ''request identity is malformed'')
         else
           Inr (pl_reply ''MODEL_BEGIN_ASSUMED'' []
             (pyset ''in_flight''
               (pyset ''pre_ledger_sha256'' (fld s' ''ram_ledger_sha256'')
                 (pyset ''pre_revision'' (fld s' ''ram_revision'') request)) s')))))"

definition commit_ok :: "pyval \<Rightarrow> pyval \<Rightarrow> pyval \<Rightarrow> bool res" where
  "commit_ok flight post outcome =
     rand (Inr (pyeq outcome (PStr ''EXACT_COMMITTED'') \<and> exact post [''revision'', ''ledger_sha256'']
            \<and> is_int (fld post ''revision'')
            \<and> pyeq (fld post ''revision'') (PInt (int_of (fld flight ''pre_revision'') + 1))))
    (rand (fullmatch (hexn 64) (fld post ''ledger_sha256''))
          (Inr (\<not> pyeq (fld post ''ledger_sha256'') (fld flight ''pre_ledger_sha256''))))"

definition complete_persist :: "pyval \<Rightarrow> pyval \<Rightarrow> pyval \<Rightarrow> pyval \<Rightarrow> pyval \<Rightarrow> pyval res" where
  "complete_persist s binding request post outcome =
     rbind (validate_state s) (\<lambda>_.
     if \<not> (state_of s ''ACTIVE'' \<and> binding_matches s binding \<and> fld s ''in_flight'' \<noteq> PNone)
       then Inr (pl_refusal s ''exact ACTIVE in-flight session is absent'')
     else
       let flight = fld s ''in_flight'' in
       rbind (rall (\<lambda>k. rbind (pyget request k PNone) (\<lambda>v. Inr (pyeq v (fld flight k)))) request_fields) (\<lambda>same.
       if \<not> same then Inr (pl_refusal s ''completion request differs from in-flight mutation'')
       else
         rbind (commit_ok flight post outcome) (\<lambda>ok.
         if \<not> ok then Inr (pl_refusal (poisoned s) ''persist result is ambiguous or violates exact head transition'')
         else
           Inr (pl_reply ''MODEL_RAM_HEAD_ADVANCED_ASSUMED'' []
             (pyset ''in_flight'' PNone
               (pyset ''ram_ledger_sha256'' (fld post ''ledger_sha256'')
                 (pyset ''ram_revision'' (fld post ''revision'') s)))))))"

definition process_lost :: "pyval \<Rightarrow> pyval res" where
  "process_lost s = rbind (validate_state s) (\<lambda>_. cold_state (fld s ''enrollment_sha256''))"

definition response_ok :: "pyval \<Rightarrow> pyval \<Rightarrow> pyval \<Rightarrow> bool res" where
  "response_ok s expected response =
     rand (Inr (exact expected request_fields))
    (rand (rall (\<lambda>k. fullmatch (hexn 32) (fld expected k)) request_fields)
    (Inr (exact response ([''session_nonce'', ''ledger_revision'', ''ledger_sha256''] @ request_fields)
          \<and> pyeq (fld response ''session_nonce'') (fld s ''session_nonce'')
          \<and> (\<forall>k \<in> set request_fields. pyeq (fld response k) (fld expected k))
          \<and> is_int (fld response ''ledger_revision'')
          \<and> pyeq (fld response ''ledger_revision'') (fld s ''ram_revision'')
          \<and> pyeq (fld response ''ledger_sha256'') (fld s ''ram_ledger_sha256''))))"

definition correlate_response :: "pyval \<Rightarrow> pyval \<Rightarrow> pyval \<Rightarrow> pyval \<Rightarrow> pyval res" where
  "correlate_response s binding expected response =
     rbind (validate_state s) (\<lambda>_.
     if \<not> (state_of s ''ACTIVE'' \<and> binding_matches s binding)
       then Inr (pl_refusal s ''response belongs to an absent or different session'')
     else if fld s ''in_flight'' \<noteq> PNone
       then Inr (pl_refusal s ''response correlation is forbidden before in-flight completion'')
     else
       rbind (response_ok s expected response) (\<lambda>ok.
       if \<not> ok then Inr (pl_refusal s ''response is session/request mismatched or not current-head-bound'')
       else Inr (pl_reply ''MODEL_RESPONSE_CORRELATION_ONLY'' [(''replay_uniqueness_proven'', PInt 0)] s)))"

section \<open>The machine of one process\<close>

text \<open>An event is an operation with the reply it got; a reply the operation does not give is refused.\<close>

datatype pl_op =
    Observe pyval
  | Begin pyval pyval pyval
  | Complete pyval pyval pyval pyval
  | Correlate pyval pyval pyval

fun pl_do :: "pl_op \<Rightarrow> pyval \<Rightarrow> pyval res" where
  "pl_do (Observe head) s = observe_head s head"
| "pl_do (Begin binding head request) s = begin_mutation s binding head request"
| "pl_do (Complete binding request post outcome) s = complete_persist s binding request post outcome"
| "pl_do (Correlate binding expected response) s = correlate_response s binding expected response"

definition pl_step :: "pl_op \<times> pyval \<Rightarrow> pyval \<Rightarrow> pyval res" where
  "pl_step e s =
     rbind (pl_do (fst e) s) (\<lambda>r.
       if r = snd e then Inr (fld r ''state'') else Inl (Foreign ''another reply''))"

definition is_action :: "pyval \<Rightarrow> string \<Rightarrow> bool" where
  "is_action reply a \<longleftrightarrow> fld reply ''action'' = PStr a"

text \<open>
  An acknowledged exact persist: a completion whose outcome is EXACT_COMMITTED and whose reply says that
  the head advanced. The head it commits is the one the completion was given.
\<close>

fun exact_commit :: "pl_op \<times> pyval \<Rightarrow> bool" where
  "exact_commit (Complete binding request post outcome, reply) \<longleftrightarrow>
     outcome = PStr ''EXACT_COMMITTED'' \<and> is_action reply ''MODEL_RAM_HEAD_ADVANCED_ASSUMED''"
| "exact_commit _ \<longleftrightarrow> False"

fun committed_head :: "pl_op \<times> pyval \<Rightarrow> pyval \<times> pyval \<Rightarrow> pyval \<times> pyval" where
  "committed_head (Complete binding request post outcome, reply) head =
     (if exact_commit (Complete binding request post outcome, reply)
      then (fld post ''revision'', fld post ''ledger_sha256'') else head)"
| "committed_head _ head = head"

definition advances :: "(pl_op \<times> pyval) list \<Rightarrow> nat" where
  "advances es = length (filter exact_commit es)"

abbreviation ram_head :: "pyval \<Rightarrow> pyval \<times> pyval" where
  "ram_head s \<equiv> (fld s ''ram_revision'', fld s ''ram_ledger_sha256'')"

lemma quiet_event:
  assumes "\<not> is_action (snd e) ''MODEL_RAM_HEAD_ADVANCED_ASSUMED''"
  shows "\<not> exact_commit e" "committed_head e head = head"
  using assms by (cases e rule: exact_commit.cases; simp)+

lemma validate_state_same: "validate_state s = Inr t \<Longrightarrow> t = s"
  unfolding validate_state_def by (auto elim!: rbindE split: if_splits)

lemma pl_require_Inr [simp]: "pl_require m msg = Inr u \<longleftrightarrow> m = Inr True"
  by (auto simp: pl_require_def rbind_Inr split: if_splits)

lemma reply_simps [simp]:
  "fld (pl_refusal s m) ''state'' = s" "fld (pl_refusal s m) ''action'' = PStr ''REFUSE''"
  "fld (pl_refusal s m) ''runtime_authorized'' = PInt 0"
  "fld (pl_reply a [] s) ''state'' = s" "fld (pl_reply a [] s) ''action'' = PStr a"
  "fld (pl_reply a [] s) ''runtime_authorized'' = PInt 0"
  "fld (pl_reply a [(''replay_uniqueness_proven'', v)] s) ''state'' = s"
  "fld (pl_reply a [(''replay_uniqueness_proven'', v)] s) ''action'' = PStr a"
  "fld (pl_reply a [(''replay_uniqueness_proven'', v)] s) ''runtime_authorized'' = PInt 0"
  by (simp_all add: pl_refusal_def pl_reply_def)

text \<open>The facts a live state satisfies.\<close>

lemma live_state:
  assumes "validate_state s = Inr t" "\<not> state_of s ''COLD''"
  shows "exact s pl_fields" "fld s ''schema'' = PInt 1" "matches (hexn 64) (fld s ''enrollment_sha256'')"
    "pl_session_ok s = Inr True" "fld s ''in_flight'' = PNone \<or> pl_flight_ok s = Inr True"
  using assms unfolding validate_state_def
  by (auto elim!: rbindE simp: pl_shape_ok_def split: if_splits)

lemma live_stateI:
  assumes "exact s pl_fields" "fld s ''schema'' = PInt 1" "matches (hexn 64) (fld s ''enrollment_sha256'')"
    "pl_session_ok s = Inr True" "fld s ''in_flight'' = PNone \<or> pl_flight_ok s = Inr True"
    "state_of s ''ACTIVE'' \<or> state_of s ''POISONED''"
  shows "validate_state s = Inr s"
proof -
  have "pl_shape_ok s = Inr True" using assms by (auto simp: pl_shape_ok_def state_of_def)
  moreover have "\<not> state_of s ''COLD''" using assms(6) by (auto simp: state_of_def)
  ultimately show ?thesis using assms(4,5) by (auto simp: validate_state_def pl_require_def)
qed

lemma in_pl_fields: "set pl_fields = insert ''state'' (set pl_fields)" "set pl_fields = insert ''in_flight'' (set pl_fields)"
  "set pl_fields = insert ''ram_ledger_sha256'' (set pl_fields)" "set pl_fields = insert ''ram_revision'' (set pl_fields)"
  by (auto simp: pl_fields_def)

lemma exact_pyset: "exact s ks \<Longrightarrow> k \<in> set ks \<Longrightarrow> exact (pyset k v s) ks"
  by (auto simp: exact_def)

lemma poisoned_valid:
  assumes "validate_state s = Inr t" "state_of s ''ACTIVE''"
  shows "validate_state (poisoned s) = Inr (poisoned s)"
proof -
  have "\<not> state_of s ''COLD''" using assms(2) by (auto simp: state_of_def)
  note live = live_state [OF assms(1) this]
  show ?thesis unfolding poisoned_def
  proof (rule live_stateI)
    show "exact (pyset ''state'' (PStr ''POISONED'') s) pl_fields"
      by (rule exact_pyset [OF live(1)]) (simp add: pl_fields_def)
  qed (use live in \<open>auto simp: pl_session_ok_def pl_flight_ok_def Let_def state_of_def\<close>)
qed

definition begun :: "pyval \<Rightarrow> pyval \<Rightarrow> pyval" where
  "begun request s = pyset ''in_flight''
     (pyset ''pre_ledger_sha256'' (fld s ''ram_ledger_sha256'') (pyset ''pre_revision'' (fld s ''ram_revision'') request)) s"

definition advanced :: "pyval \<Rightarrow> pyval \<Rightarrow> pyval" where
  "advanced post s = pyset ''in_flight'' PNone
     (pyset ''ram_ledger_sha256'' (fld post ''ledger_sha256'') (pyset ''ram_revision'' (fld post ''revision'') s))"

lemma begun_valid:
  assumes "validate_state s = Inr t" "state_of s ''ACTIVE''" "exact request request_fields"
    "\<forall>k \<in> set request_fields. matches (hexn 32) (fld request k)"
  shows "validate_state (begun request s) = Inr (begun request s)"
proof -
  have "\<not> state_of s ''COLD''" using assms(2) by (auto simp: state_of_def)
  note live = live_state [OF assms(1) this]
  let ?f = "fld (begun request s) ''in_flight''"
  have "exact ?f (request_fields @ [''pre_revision'', ''pre_ledger_sha256''])"
    using assms(3) by (auto simp: begun_def exact_def)
  moreover have "fld ?f k = fld request k" if "k \<in> set request_fields" for k
    using that by (auto simp: begun_def request_fields_def)
  moreover have "fld ?f ''pre_revision'' = fld s ''ram_revision''" "fld ?f ''pre_ledger_sha256'' = fld s ''ram_ledger_sha256''"
    by (simp_all add: begun_def)
  moreover have "fld (begun request s) ''ram_revision'' = fld s ''ram_revision''"
    "fld (begun request s) ''ram_ledger_sha256'' = fld s ''ram_ledger_sha256''" by (simp_all add: begun_def)
  ultimately have flight: "pl_flight_ok (begun request s) = Inr True"
    using assms(4) live(4) by (simp add: pl_flight_ok_def pl_session_ok_def Let_def)
  show ?thesis
  proof (rule live_stateI)
    show "exact (begun request s) pl_fields"
      unfolding begun_def by (rule exact_pyset [OF live(1)]) (simp add: pl_fields_def)
  qed (use live flight assms(2) in \<open>auto simp: begun_def pl_session_ok_def state_of_def\<close>)
qed

lemma advanced_valid:
  assumes "validate_state s = Inr t" "state_of s ''ACTIVE''" "integer (fld post ''revision'') 1"
    "matches (hexn 64) (fld post ''ledger_sha256'')"
  shows "validate_state (advanced post s) = Inr (advanced post s)"
proof -
  have "\<not> state_of s ''COLD''" using assms(2) by (auto simp: state_of_def)
  note live = live_state [OF assms(1) this]
  show ?thesis
  proof (rule live_stateI)
    show "exact (advanced post s) pl_fields"
      unfolding advanced_def by (intro exact_pyset live(1)) (simp_all add: pl_fields_def)
  qed (use live assms in \<open>auto simp: advanced_def pl_session_ok_def state_of_def\<close>)
qed

section \<open>What a reply says about the next state\<close>

text \<open>The four ways a reply relates the state before to the state it carries.\<close>

definition kept :: "pyval \<Rightarrow> pyval \<Rightarrow> bool" where
  "kept s r \<longleftrightarrow> fld r ''state'' = s \<and> \<not> is_action r ''MODEL_RAM_HEAD_ADVANCED_ASSUMED''"

definition poisoning :: "pyval \<Rightarrow> pyval \<Rightarrow> bool" where
  "poisoning s r \<longleftrightarrow> state_of s ''ACTIVE'' \<and> fld r ''state'' = poisoned s \<and> is_action r ''REFUSE''"

definition beginning :: "pyval \<Rightarrow> pyval \<Rightarrow> bool" where
  "beginning s r \<longleftrightarrow> state_of s ''ACTIVE'' \<and> is_action r ''MODEL_BEGIN_ASSUMED''
     \<and> (\<exists>request. exact request request_fields \<and> (\<forall>k \<in> set request_fields. matches (hexn 32) (fld request k))
          \<and> fld r ''state'' = begun request s)"

definition advancing :: "pyval \<Rightarrow> pl_op \<Rightarrow> pyval \<Rightarrow> bool" where
  "advancing s op r \<longleftrightarrow> state_of s ''ACTIVE'' \<and> is_action r ''MODEL_RAM_HEAD_ADVANCED_ASSUMED''
     \<and> fld s ''in_flight'' \<noteq> PNone
     \<and> (\<exists>binding request post. op = Complete binding request post (PStr ''EXACT_COMMITTED'')
          \<and> matches (hexn 64) (fld post ''ledger_sha256'')
          \<and> fld post ''revision'' = PInt (int_of (fld s ''ram_revision'') + 1)
          \<and> \<not> pyeq (fld post ''ledger_sha256'') (fld s ''ram_ledger_sha256'')
          \<and> fld r ''state'' = advanced post s)"

lemma kept_simps [simp]: "kept s (pl_refusal s m)"
  "a \<noteq> ''MODEL_RAM_HEAD_ADVANCED_ASSUMED'' \<Longrightarrow> kept s (pl_reply a [] s)"
  "kept s (pl_reply ''MODEL_RESPONSE_CORRELATION_ONLY'' [(''replay_uniqueness_proven'', v)] s)"
  by (simp_all add: kept_def is_action_def)

lemma observe_head_reply:
  assumes "observe_head s head = Inr r"
  shows "fld r ''runtime_authorized'' = PInt 0 \<and> (kept s r \<or> poisoning s r)"
  using assms unfolding observe_head_def
  by (auto elim!: rbindE simp: poisoning_def is_action_def split: if_splits)

lemma observe_head_accepted:
  assumes "observe_head s head = Inr r" "fld r ''action'' \<noteq> PStr ''REFUSE''"
  shows "fld r ''state'' = s" "state_of s ''ACTIVE''" "fld s ''in_flight'' = PNone"
  using assms unfolding observe_head_def by (auto elim!: rbindE split: if_splits)

lemma begin_mutation_reply:
  assumes "begin_mutation s binding head request = Inr r"
  shows "fld r ''runtime_authorized'' = PInt 0 \<and> (kept s r \<or> poisoning s r \<or> beginning s r)"
proof -
  from assms consider m where "r = pl_refusal s m"
    | ob where "observe_head s head = Inr ob" "fld ob ''action'' = PStr ''REFUSE''" "r = ob"
    | ob m where "observe_head s head = Inr ob" "fld ob ''action'' \<noteq> PStr ''REFUSE''"
        "r = pl_refusal (fld ob ''state'') m"
    | ob where "observe_head s head = Inr ob" "fld ob ''action'' \<noteq> PStr ''REFUSE''"
        "exact request request_fields" "\<forall>k \<in> set (keys request). matches (hexn 32) (fld request k)"
        "r = pl_reply ''MODEL_BEGIN_ASSUMED'' [] (begun request (fld ob ''state''))"
    unfolding begin_mutation_def Let_def
    by (auto elim!: rbindE simp: begun_def rand_def split: if_splits)
  then show ?thesis
  proof cases
    case 2
    with observe_head_reply [of s head ob] show ?thesis by blast
  next
    case 3
    with observe_head_accepted [of s head ob] show ?thesis by simp
  next
    case 4
    then have "\<forall>k \<in> set request_fields. matches (hexn 32) (fld request k)" by (auto simp: exact_def)
    with 4 observe_head_accepted [of s head ob] show ?thesis
      by (auto simp: beginning_def is_action_def)
  qed simp
qed

lemma complete_persist_reply:
  assumes "complete_persist s binding request post outcome = Inr r"
  shows "fld r ''runtime_authorized'' = PInt 0 \<and> (kept s r \<or> poisoning s r \<or> advancing s (Complete binding request post outcome) r)"
proof -
  from assms have valid: "validate_state s = Inr s"
    unfolding complete_persist_def by (auto elim!: rbindE dest: validate_state_same)
  from assms consider m where "r = pl_refusal s m"
    | m where "state_of s ''ACTIVE''" "r = pl_refusal (poisoned s) m"
    | "state_of s ''ACTIVE''" "fld s ''in_flight'' \<noteq> PNone" "commit_ok (fld s ''in_flight'') post outcome = Inr True"
        "r = pl_reply ''MODEL_RAM_HEAD_ADVANCED_ASSUMED'' [] (advanced post s)"
    unfolding complete_persist_def Let_def
    by (auto elim!: rbindE simp: advanced_def split: if_splits)
  then show ?thesis
  proof cases
    case 2
    then show ?thesis by (simp add: poisoning_def is_action_def)
  next
    case 3
    then have "\<not> state_of s ''COLD''" by (auto simp: state_of_def)
    from live_state(4,5) [OF valid this] 3(2)
    have rev: "integer (fld s ''ram_revision'') 1"
      and pre: "pyeq (fld (fld s ''in_flight'') ''pre_revision'') (fld s ''ram_revision'')"
        "pyeq (fld (fld s ''in_flight'') ''pre_ledger_sha256'') (fld s ''ram_ledger_sha256'')"
        "integer (fld (fld s ''in_flight'') ''pre_revision'') 1"
      by (auto simp: pl_session_ok_def pl_flight_ok_def Let_def)
    from rev pre have "int_of (fld (fld s ''in_flight'') ''pre_revision'') = int_of (fld s ''ram_revision'')"
      by (auto simp: integer_iff)
    moreover have "pyeq v (fld s ''ram_ledger_sha256'')
        \<Longrightarrow> pyeq v (fld (fld s ''in_flight'') ''pre_ledger_sha256'')" for v
      using pre(2) by (simp add: pyeq_def)
    moreover from 3(3) have "outcome = PStr ''EXACT_COMMITTED''" by (simp add: commit_ok_def)
    ultimately have "advancing s (Complete binding request post outcome) r" using 3
      by (auto simp: advancing_def is_action_def commit_ok_def is_int_iff)
    with 3 show ?thesis by simp
  qed simp
qed

lemma correlate_response_reply:
  assumes "correlate_response s binding expected response = Inr r"
  shows "fld r ''runtime_authorized'' = PInt 0 \<and> kept s r"
  using assms unfolding correlate_response_def by (auto elim!: rbindE split: if_splits)

lemma pl_do_reply:
  "pl_do op s = Inr r \<Longrightarrow> fld r ''runtime_authorized'' = PInt 0
     \<and> (kept s r \<or> poisoning s r \<or> beginning s r \<or> advancing s op r)"
  by (cases op) (auto dest: observe_head_reply begin_mutation_reply complete_persist_reply correlate_response_reply)

lemma pl_do_valid: "pl_do op s = Inr r \<Longrightarrow> validate_state s = Inr s"
  by (cases op) (auto simp: observe_head_def begin_mutation_def complete_persist_def correlate_response_def
      elim!: rbindE dest: validate_state_same)

text \<open>A poisoned authority refuses every operation and keeps its state.\<close>

lemma poisoned_do:
  assumes "pl_do op s = Inr r" "state_of s ''POISONED''"
  shows "fld r ''state'' = s \<and> is_action r ''REFUSE''"
proof -
  have "\<not> state_of s ''ACTIVE''" using assms(2) by (auto simp: state_of_def)
  with assms show ?thesis
    by (cases op) (auto simp: observe_head_def begin_mutation_def complete_persist_def correlate_response_def
      is_action_def elim!: rbindE)
qed

section \<open>The invariant of a session\<close>

definition identity_fields :: "string list" where
  "identity_fields = [''schema'', ''enrollment_sha256''] @ session_fields"

definition pl_inv :: "pyval \<Rightarrow> (pl_op \<times> pyval) list \<Rightarrow> pyval \<Rightarrow> bool" where
  "pl_inv s0 es s \<longleftrightarrow>
     validate_state s = Inr s \<and> (state_of s ''ACTIVE'' \<or> state_of s ''POISONED'')
     \<and> (\<forall>k \<in> set identity_fields. fld s k = fld s0 k)
     \<and> int_of (fld s ''ram_revision'') = int_of (fld s0 ''ram_revision'') + int (advances es)
     \<and> ram_head s = fold committed_head es (ram_head s0)
     \<and> (\<forall>e \<in> set es. fld (snd e) ''runtime_authorized'' = PInt 0)"

lemma advances_snoc:
  "advances (es @ [e]) = advances es + (if exact_commit e then 1 else 0)"
  by (simp add: advances_def)

lemma pl_inv_step:
  assumes inv: "pl_inv s0 es s" and step: "pl_step e s = Inr t"
  shows "pl_inv s0 (es @ [e]) t"
proof -
  from step have do: "pl_do (fst e) s = Inr (snd e)" and t: "t = fld (snd e) ''state''"
    by (auto simp: pl_step_def rbind_Inr split: if_splits)
  from pl_do_reply [OF do] have auth: "fld (snd e) ''runtime_authorized'' = PInt 0"
    and "kept s (snd e) \<or> poisoning s (snd e) \<or> beginning s (snd e) \<or> advancing s (fst e) (snd e)" by auto
  then consider "kept s (snd e)" | "poisoning s (snd e)" | "beginning s (snd e)" | "advancing s (fst e) (snd e)" by blast
  then show ?thesis
  proof cases
    case 1
    then have "\<not> is_action (snd e) ''MODEL_RAM_HEAD_ADVANCED_ASSUMED''" by (simp add: kept_def)
    note quiet = quiet_event [OF this]
    show ?thesis using 1 inv auth t by (auto simp: pl_inv_def kept_def advances_snoc quiet)
  next
    case 2
    then have p: "t = poisoned s" "state_of s ''ACTIVE''" "\<not> is_action (snd e) ''MODEL_RAM_HEAD_ADVANCED_ASSUMED''"
      using t by (auto simp: poisoning_def is_action_def)
    note quiet = quiet_event [OF p(3)]
    show ?thesis using inv auth poisoned_valid [of s s] p
      by (auto simp: pl_inv_def advances_snoc quiet poisoned_def state_of_def identity_fields_def session_fields_def)
  next
    case 3
    then obtain request where rq: "exact request request_fields"
      "\<forall>k \<in> set request_fields. matches (hexn 32) (fld request k)" "t = begun request s" "state_of s ''ACTIVE''"
      and "\<not> is_action (snd e) ''MODEL_RAM_HEAD_ADVANCED_ASSUMED''"
      using t by (auto simp: beginning_def is_action_def)
    note quiet = quiet_event [OF this(5)]
    from begun_valid [OF _ rq(4,1,2)] inv rq auth show ?thesis
      by (auto simp: pl_inv_def advances_snoc quiet begun_def state_of_def identity_fields_def session_fields_def)
  next
    case 4
    then obtain binding request post where p: "matches (hexn 64) (fld post ''ledger_sha256'')" "state_of s ''ACTIVE''"
      "fld post ''revision'' = PInt (int_of (fld s ''ram_revision'') + 1)" "t = advanced post s"
      "fst e = Complete binding request post (PStr ''EXACT_COMMITTED'')"
      "is_action (snd e) ''MODEL_RAM_HEAD_ADVANCED_ASSUMED''"
      using t by (auto simp: advancing_def)
    have exact: "exact_commit e" "committed_head e head = (fld post ''revision'', fld post ''ledger_sha256'')" for head
      using p(5,6) by (cases e; simp)+
    have v: "validate_state s = Inr s" using inv by (simp add: pl_inv_def)
    have "\<not> state_of s ''COLD''" using p(2) by (auto simp: state_of_def)
    from live_state(4) [OF v this] have "integer (fld post ''revision'') 1"
      using p(3) by (auto simp: pl_session_ok_def integer_iff)
    from advanced_valid [OF v p(2) this p(1)] inv p auth show ?thesis
      by (auto simp: pl_inv_def advances_snoc exact advanced_def state_of_def identity_fields_def session_fields_def)
  qed
qed

interpretation pl: absorbing_machine pl_step "pl_inv s0" "\<lambda>s. state_of s ''POISONED''" for s0
proof unfold_locales
  show "pl_inv s0 (es @ [e]) t" if "pl_inv s0 es s" "pl_step e s = Inr t" for es s e t
    using that by (rule pl_inv_step)
  show "state_of t ''POISONED''" if "state_of s ''POISONED''" "pl_step e s = Inr t" for s e t
    using that poisoned_do [of "fst e" s "snd e"] by (auto simp: pl_step_def rbind_Inr split: if_splits)
qed

section \<open>A concrete session\<close>

definition pl_hex32 :: pyval where "pl_hex32 = PStr (replicate 32 CHR ''a'')"
definition pl_hex64 :: "char \<Rightarrow> pyval" where "pl_hex64 c = PStr (replicate 64 c)"

definition pl_active :: "int \<Rightarrow> char \<Rightarrow> pyval \<Rightarrow> pyval" where
  "pl_active rv led flight = PDict
     [(''schema'', PInt 1), (''state'', PStr ''ACTIVE''), (''enrollment_sha256'', pl_hex64 CHR ''a''),
      (''session_nonce'', pl_hex32), (''boot_id'', PStr ''12345678-1234-1234-1234-123456789abc''),
      (''invocation_id'', pl_hex32), (''pid'', PInt 7), (''start_ticks'', PInt 9), (''ram_revision'', PInt rv),
      (''ram_ledger_sha256'', pl_hex64 led), (''in_flight'', flight)]"

definition pl_request :: pyval where
  "pl_request = PDict [(''request_id'', pl_hex32), (''transaction'', pl_hex32), (''attempt'', pl_hex32)]"

definition pl_flight :: pyval where
  "pl_flight = PDict [(''request_id'', pl_hex32), (''transaction'', pl_hex32), (''attempt'', pl_hex32),
     (''pre_revision'', PInt 1), (''pre_ledger_sha256'', pl_hex64 CHR ''a'')]"

definition pl_binding :: pyval where
  "pl_binding = PDict [(''enrollment_sha256'', pl_hex64 CHR ''a''), (''session_nonce'', pl_hex32),
     (''boot_id'', PStr ''12345678-1234-1234-1234-123456789abc''), (''invocation_id'', pl_hex32)]"

definition pl_head :: "int \<Rightarrow> char \<Rightarrow> pyval" where
  "pl_head rv led = PDict [(''revision'', PInt rv), (''ledger_sha256'', pl_hex64 led)]"

definition pl_response :: pyval where
  "pl_response = PDict [(''session_nonce'', pl_hex32), (''request_id'', pl_hex32), (''transaction'', pl_hex32),
     (''attempt'', pl_hex32), (''ledger_revision'', PInt 1), (''ledger_sha256'', pl_hex64 CHR ''a'')]"

lemmas pl_demo_defs = pl_active_def pl_hex32_def pl_hex64_def pl_request_def pl_flight_def pl_binding_def pl_head_def

lemma pl_active_exact: "exact (pl_active rv led flight) pl_fields"
  by (simp add: pl_active_def pl_fields_def insert_commute)

lemma pl_active_valid:
  assumes "1 \<le> rv" "lower_hex led" "flight = PNone \<or> (flight = pl_flight \<and> rv = 1 \<and> led = CHR ''a'')"
  shows "validate_state (pl_active rv led flight) = Inr (pl_active rv led flight)"
proof (rule live_stateI [OF pl_active_exact])
  show "fld (pl_active rv led flight) ''in_flight'' = PNone \<or> pl_flight_ok (pl_active rv led flight) = Inr True"
    using assms(3) by (auto simp: pl_active_def pl_flight_ok_def pl_flight_def pl_hex32_def pl_hex64_def
        request_fields_def lower_hex_def Let_def)
qed (use assms in \<open>auto simp: pl_active_def pl_hex32_def pl_hex64_def pl_session_ok_def boot_id_re_def dash_def
    lower_hex_def state_of_def\<close>)

lemma pl_bound: "binding_matches (pl_active rv led flight) pl_binding" "state_of (pl_active rv led flight) ''ACTIVE''"
  "fld (pl_active rv led flight) ''in_flight'' = flight"
  by (simp_all add: binding_matches_def pl_active_def pl_binding_def binding_fields_def state_of_def)

definition pl_begin :: pl_op where "pl_begin = Begin pl_binding (pl_head 1 CHR ''a'') pl_request"
definition pl_complete :: pl_op where
  "pl_complete = Complete pl_binding pl_request (pl_head 2 CHR ''b'') (PStr ''EXACT_COMMITTED'')"

lemma pl_begin_reply:
  "pl_do pl_begin (pl_active 1 CHR ''a'' PNone)
     = Inr (pl_reply ''MODEL_BEGIN_ASSUMED'' [] (pl_active 1 CHR ''a'' pl_flight))"
proof -
  have v: "validate_state (pl_active 1 CHR ''a'' PNone) = Inr (pl_active 1 CHR ''a'' PNone)"
    by (rule pl_active_valid) (simp_all add: lower_hex_def)
  have "head_ok (pl_head 1 CHR ''a'') = Inr True"
    by (simp add: head_ok_def pl_head_def pl_hex64_def lower_hex_def)
  then have ob: "observe_head (pl_active 1 CHR ''a'' PNone) (pl_head 1 CHR ''a'')
      = Inr (pl_reply ''MODEL_HEAD_MATCH_ONLY'' [] (pl_active 1 CHR ''a'' PNone))"
    by (simp add: observe_head_def v pl_bound) (simp add: pl_active_def pl_head_def)
  have rq: "exact pl_request request_fields"
    "rall (\<lambda>k. fullmatch (hexn 32) (fld pl_request k)) (keys pl_request) = Inr True"
    by (simp_all add: pl_request_def request_fields_def insert_commute keys_def pl_hex32_def lower_hex_def)
  show ?thesis
    by (simp add: pl_begin_def begin_mutation_def v pl_bound ob rq Let_def)
       (simp add: pl_active_def pl_request_def pl_flight_def pyset_def)
qed

lemma pl_complete_reply:
  "pl_do pl_complete (pl_active 1 CHR ''a'' pl_flight)
     = Inr (pl_reply ''MODEL_RAM_HEAD_ADVANCED_ASSUMED'' [] (pl_active 2 CHR ''b'' PNone))"
proof -
  have v: "validate_state (pl_active 1 CHR ''a'' pl_flight) = Inr (pl_active 1 CHR ''a'' pl_flight)"
    by (rule pl_active_valid) (simp_all add: lower_hex_def)
  have same: "rall (\<lambda>k. rbind (pyget pl_request k PNone) (\<lambda>v. Inr (pyeq v (fld pl_flight k)))) request_fields = Inr True"
    by (simp add: request_fields_def pl_request_def pl_flight_def pyget_def)
  have ok: "commit_ok pl_flight (pl_head 2 CHR ''b'') (PStr ''EXACT_COMMITTED'') = Inr True"
    by (simp add: commit_ok_def pl_flight_def pl_head_def pl_hex64_def lower_hex_def)
  have ne: "pl_flight \<noteq> PNone" by (simp add: pl_flight_def)
  show ?thesis
    by (simp add: pl_complete_def complete_persist_def v pl_bound ne same ok Let_def)
       (simp add: pl_active_def pl_head_def pyset_def)
qed

definition pl_trace :: "(pl_op \<times> pyval) list" where
  "pl_trace = [(pl_begin, pl_reply ''MODEL_BEGIN_ASSUMED'' [] (pl_active 1 CHR ''a'' pl_flight)),
     (pl_complete, pl_reply ''MODEL_RAM_HEAD_ADVANCED_ASSUMED'' [] (pl_active 2 CHR ''b'' PNone))]"

lemma pl_trace_run: "run_steps pl_step pl_trace (pl_active 1 CHR ''a'' PNone) = Inr (pl_active 2 CHR ''b'' PNone)"
  by (simp add: pl_trace_def pl_step_def pl_begin_reply pl_complete_reply del: pl_do.simps)

lemma pl_start: "validate_state (pl_active 1 CHR ''a'' PNone) = Inr (pl_active 1 CHR ''a'' PNone)"
  "state_of (pl_active 1 CHR ''a'' PNone) ''ACTIVE''"
  by (rule pl_active_valid) (simp_all add: lower_hex_def pl_bound)

section \<open>Properties of the authority\<close>

lemma pl_inv_start:
  "validate_state s0 = Inr s0 \<Longrightarrow> state_of s0 ''ACTIVE'' \<Longrightarrow> pl_inv s0 [] s0"
  by (simp add: pl_inv_def advances_def)

text \<open>
  C14: The RAM head moves by exact persistence only. Over any sequence of operations and replies
  from an ACTIVE authority, the state stays valid and ACTIVE or POISONED, the session identity and
  enrollment never change, the RAM revision is the initial one plus the number of completions
  with the outcome EXACT_COMMITTED that were acknowledged, the RAM head (revision and ledger) is the one
  the last of these completions carried, and no reply authorizes anything at run time.
\<close>

theorem authority_revision_counts:
  assumes "validate_state s0 = Inr s0" and "state_of s0 ''ACTIVE''" and "run_steps pl_step es s0 = Inr s"
  shows "validate_state s = Inr s \<and> (state_of s ''ACTIVE'' \<or> state_of s ''POISONED'')
     \<and> (\<forall>k \<in> set identity_fields. fld s k = fld s0 k)
     \<and> int_of (fld s ''ram_revision'') = int_of (fld s0 ''ram_revision'') + int (advances es)
     \<and> ram_head s = fold committed_head es (ram_head s0)
     \<and> (\<forall>e \<in> set es. fld (snd e) ''runtime_authorized'' = PInt 0)"
  using pl.run_inv_Nil [OF pl_inv_start [OF assms(1,2)] assms(3)] by (simp add: pl_inv_def)

theorem authority_revision_counts_witness:
  "int_of (fld (pl_active 2 CHR ''b'' PNone) ''ram_revision'')
     = int_of (fld (pl_active 1 CHR ''a'' PNone) ''ram_revision'') + int (advances pl_trace)
   \<and> advances pl_trace = 1"
  using authority_revision_counts [OF pl_start pl_trace_run] by (simp add: pl_active_def)

text \<open>
  POISONED is absorbing within the process. From a poisoned state every sequence of operations
  leaves the authority poisoned in exactly the same state, and every reply is a refusal; only
  process_lost, which starts over from COLD with the same enrollment, leaves it.
\<close>

theorem authority_poisoned_absorbing:
  assumes "state_of s ''POISONED''" and "run_steps pl_step es s = Inr t"
  shows "state_of t ''POISONED'' \<and> t = s \<and> (\<forall>e \<in> set es. is_action (snd e) ''REFUSE'')
     \<and> (\<forall>c. process_lost t = Inr c \<longrightarrow> state_of c ''COLD'' \<and> fld c ''enrollment_sha256'' = fld s ''enrollment_sha256'')"
proof (intro conjI allI impI)
  show dead: "state_of t ''POISONED''" using assms by (rule pl.dead_run)
  have both: "t = s \<and> (\<forall>e \<in> set es. is_action (snd e) ''REFUSE'')"
    using assms
  proof (induction es arbitrary: s)
    case (Cons e es)
    then obtain u where u: "pl_step e s = Inr u" "run_steps pl_step es u = Inr t" by (auto simp: rbind_Inr)
    then have "pl_do (fst e) s = Inr (snd e)" "u = fld (snd e) ''state''"
      by (auto simp: pl_step_def rbind_Inr split: if_splits)
    with poisoned_do [of "fst e" s "snd e"] Cons.prems(1) have "u = s" "is_action (snd e) ''REFUSE''" by auto
    with Cons.IH u(2) Cons.prems(1) show ?case by simp
  qed simp
  then show "t = s" "\<forall>e \<in> set es. is_action (snd e) ''REFUSE''" by auto
  fix c
  assume "process_lost t = Inr c"
  then have "cold_state (fld t ''enrollment_sha256'') = Inr c" unfolding process_lost_def by (auto elim!: rbindE)
  then show "state_of c ''COLD''" "fld c ''enrollment_sha256'' = fld s ''enrollment_sha256''"
    using both unfolding cold_state_def by (auto elim!: rbindE simp: state_of_def split: if_splits)
qed

theorem authority_poisoned_absorbing_witness:
  "state_of (poisoned (pl_active 1 CHR ''a'' PNone)) ''POISONED''"
proof -
  have "state_of (poisoned (pl_active 1 CHR ''a'' PNone)) ''POISONED''" by (simp add: poisoned_def state_of_def)
  from authority_poisoned_absorbing [OF this, of "[]" "poisoned (pl_active 1 CHR ''a'' PNone)"] show ?thesis by simp
qed

lemma correlated_current:
  assumes "correlate_response s binding expected response = Inr r" "is_action r ''MODEL_RESPONSE_CORRELATION_ONLY''"
  shows "validate_state s = Inr s" "state_of s ''ACTIVE''"
    "pyeq (fld response ''ledger_revision'') (fld s ''ram_revision'')" "is_int (fld response ''ledger_revision'')"
  using assms unfolding correlate_response_def
  by (auto elim!: rbindE simp: is_action_def response_ok_def split: if_splits dest: validate_state_same)

text \<open>
  A response of an earlier head is never correlated again. When a response is correlated in
  one state and the head advances at least once after it, the same response is not correlated in
  any later state of the session, whatever binding and request it is presented with.
\<close>

theorem stale_response_refused:
  assumes "correlate_response s b e response = Inr r" and "is_action r ''MODEL_RESPONSE_CORRELATION_ONLY''"
    and "run_steps pl_step es s = Inr t" and "0 < advances es"
    and "correlate_response t b' e' response = Inr r'"
  shows "\<not> is_action r' ''MODEL_RESPONSE_CORRELATION_ONLY''"
proof
  assume "is_action r' ''MODEL_RESPONSE_CORRELATION_ONLY''"
  note now = correlated_current [OF assms(1,2)] and later = correlated_current [OF assms(5) this]
  have "int_of (fld t ''ram_revision'') = int_of (fld s ''ram_revision'') + int (advances es)"
    using pl.run_inv_Nil [OF pl_inv_start [OF now(1,2)] assms(3)] by (simp add: pl_inv_def)
  moreover have "\<not> state_of s ''COLD''" "\<not> state_of t ''COLD''" using now(2) later(2) by (auto simp: state_of_def)
  then have "integer (fld s ''ram_revision'') 1" "integer (fld t ''ram_revision'') 1"
    using live_state(4) [OF now(1)] live_state(4) [OF later(1)] by (auto simp: pl_session_ok_def)
  ultimately show False using now(3,4) later(3) assms(4) by (auto simp: integer_iff is_int_iff)
qed

theorem stale_response_refused_witness:
  "\<exists>r'. correlate_response (pl_active 2 CHR ''b'' PNone) pl_binding pl_request pl_response = Inr r'
     \<and> \<not> is_action r' ''MODEL_RESPONSE_CORRELATION_ONLY''"
proof -
  have resp: "response_ok (pl_active rv led PNone) pl_request pl_response = Inr (rv = 1 \<and> led = CHR ''a'')" for rv led
    by (auto simp: response_ok_def pl_request_def request_fields_def pl_response_def pl_hex32_def lower_hex_def
        pl_active_def pl_hex64_def insert_commute)
  have v2: "validate_state (pl_active 2 CHR ''b'' PNone) = Inr (pl_active 2 CHR ''b'' PNone)"
    by (rule pl_active_valid) (simp_all add: lower_hex_def)
  have now: "correlate_response (pl_active 1 CHR ''a'' PNone) pl_binding pl_request pl_response
      = Inr (pl_reply ''MODEL_RESPONSE_CORRELATION_ONLY'' [(''replay_uniqueness_proven'', PInt 0)] (pl_active 1 CHR ''a'' PNone))"
    by (simp add: correlate_response_def pl_start pl_bound resp)
  have later: "\<exists>r'. correlate_response (pl_active 2 CHR ''b'' PNone) pl_binding pl_request pl_response = Inr r'"
    by (simp add: correlate_response_def v2 pl_bound resp)
  have "0 < advances pl_trace" by (simp add: advances_def pl_trace_def pl_begin_def pl_complete_def is_action_def)
  with stale_response_refused [OF now _ pl_trace_run] later show ?thesis by (auto simp: is_action_def)
qed

end
