(* ===== verification/AuthorityContinuity.thy ===== *)
theory AuthorityContinuity
  imports Json
begin

text \<open>
  \<^verbatim>\<open>experiments/thick-generations/authority-continuity-model.py\<close>: the continuity contract of an
  off-SAN admission authority. An enrollment pins the authority, an observation reports its head,
  an independent witness reports the head it saw; the evaluation compares the three and never
  authorizes anything. The text of a \<^verbatim>\<open>TypeError\<close> is not modelled.
\<close>

section \<open>Verdicts and validation\<close>

definition node_re :: "string \<Rightarrow> bool" where
  "node_re = head_tail alnum name_char None"

definition storage_id_re :: "string \<Rightarrow> bool" where
  "storage_id_re = head_tail alnum name_char (Some 63)"

definition ac_blocked :: "string \<Rightarrow> string \<Rightarrow> pyval" where
  "ac_blocked reason classification = PDict
     [(''allowed'', PInt 0), (''action'', PStr ''REFUSE''), (''dispatch_allowed'', PInt 0),
      (''classification'', PStr classification), (''reason'', PStr reason)]"

definition unproven :: string where "unproven = ''BLOCKED_ON_CONTINUITY_PROOF''"
definition malformed :: string where "malformed = ''BLOCKED_MALFORMED_AUTHORITY_EVIDENCE''"

definition exact_bit :: "pyval \<Rightarrow> bool" where
  "exact_bit v \<longleftrightarrow> v = PInt 0 \<or> v = PInt 1"

definition enrollment_digest :: "pyval \<Rightarrow> string" where
  "enrollment_digest v = digest_nl v"

text \<open>A chain of conditions that can raise, and the \<^verbatim>\<open>ValueError\<close> when one fails.\<close>

definition demand_all :: "bool res list \<Rightarrow> string \<Rightarrow> unit res" where
  "demand_all ms msg = rbind (rall (\<lambda>m. m) ms) (\<lambda>ok. if ok then Inr () else Inl (ValueError msg))"

lemma demand_all_Inr [simp]: "demand_all ms msg = Inr u \<longleftrightarrow> (\<forall>m \<in> set ms. m = Inr True)"
  by (auto simp: demand_all_def rbind_Inr split: if_splits)

lemma demand_all_exc: "demand_all ms msg = Inl e \<Longrightarrow> (\<forall>m \<in> set ms. \<forall>x. m = Inl x \<longrightarrow> (\<exists>t. x = TypeError t))
    \<Longrightarrow> e = ValueError msg \<or> (\<exists>t. e = TypeError t)"
proof (induction ms)
  case (Cons m ms)
  then show ?case by (cases m) (auto simp: demand_all_def split: if_splits)
qed (simp add: demand_all_def)

definition enrollment_fields :: "string list" where
  "enrollment_fields = [''schema'', ''kind'', ''cluster_id'', ''storage_id'', ''vg_uuid'', ''storage_set'',
     ''authority_id'', ''authority_node'', ''authority_boot_id'', ''enrollment_epoch'', ''backend'',
     ''code_digest'', ''policy_digest'']"

definition validate_enrollment :: "pyval \<Rightarrow> unit res" where
  "validate_enrollment v =
     demand_all
      [Inr (exact v enrollment_fields \<and> fld v ''schema'' = PInt 1
            \<and> pyeq (fld v ''kind'') (PStr ''PINNED_ADMISSION_AUTHORITY'') \<and> matches node_re (fld v ''cluster_id'')),
       fullmatch storage_id_re (fld v ''storage_id''),
       fullmatch lvm_uuid_re (fld v ''vg_uuid''),
       fullmatch (hexn 64) (fld v ''storage_set''),
       fullmatch (hexn 32) (fld v ''authority_id''),
       fullmatch node_re (fld v ''authority_node''),
       fullmatch boot_id_re (fld v ''authority_boot_id''),
       fullmatch (hexn 64) (fld v ''enrollment_epoch''),
       Inr (pyeq (fld v ''backend'') (PStr ''LOCAL_PERSISTENT_NO_FAILOVER'')),
       fullmatch (hexn 64) (fld v ''code_digest''),
       fullmatch (hexn 64) (fld v ''policy_digest'')]
      ''authority enrollment schema or identity is invalid''"

definition trusted_fields :: "string list" where
  "trusted_fields = [''authority_id'', ''authority_node'', ''authority_boot_id'', ''enrollment_epoch'',
     ''enrollment_sha256'', ''ledger_revision'', ''ledger_sha256'']"

text \<open>The identity and the head, as an observation and a witness carry them.\<close>

definition head_checks :: "pyval \<Rightarrow> bool res list" where
  "head_checks v =
     [fullmatch (hexn 32) (fld v ''authority_id''),
      fullmatch node_re (fld v ''authority_node''),
      fullmatch boot_id_re (fld v ''authority_boot_id''),
      fullmatch (hexn 64) (fld v ''enrollment_epoch''),
      fullmatch (hexn 64) (fld v ''enrollment_sha256''),
      Inr (integer (fld v ''ledger_revision'') 1),
      fullmatch (hexn 64) (fld v ''ledger_sha256'')]"

definition validate_observation :: "pyval \<Rightarrow> unit res" where
  "validate_observation v =
     rbind (demand_all
       [Inr (exact v ([''schema'', ''kind'', ''status''] @ trusted_fields) \<and> fld v ''schema'' = PInt 1
             \<and> pyeq (fld v ''kind'') (PStr ''AUTHORITY_HEAD_OBSERVATION'')),
        in_strs (fld v ''status'') [''AVAILABLE'', ''UNAVAILABLE'', ''MISSING'', ''CORRUPT'']]
       ''authority observation schema is invalid'') (\<lambda>_.
     if fld v ''status'' = PStr ''AVAILABLE''
     then demand_all (head_checks v) ''available authority observation is malformed''
     else demand_all [Inr (\<forall>k \<in> set trusted_fields. fld v k = PNone)]
            ''unavailable authority observation carries trusted state'')"

definition validate_witness :: "pyval \<Rightarrow> unit res" where
  "validate_witness v =
     demand_all
      ([Inr (exact v ([''schema'', ''kind'', ''trust_domain'', ''proof_digest''] @ trusted_fields)
             \<and> fld v ''schema'' = PInt 1 \<and> pyeq (fld v ''kind'') (PStr ''INDEPENDENT_AUTHORITY_HEAD_V1'')
             \<and> pyeq (fld v ''trust_domain'') (PStr ''ROLLBACK_INDEPENDENT''))]
       @ head_checks v @ [fullmatch (hexn 64) (fld v ''proof_digest'')])
      ''independent authority-head witness is malformed''"

definition same_authority :: "pyval \<Rightarrow> pyval \<Rightarrow> bool" where
  "same_authority v w \<longleftrightarrow>
     (\<forall>k \<in> set [''authority_id'', ''authority_node'', ''authority_boot_id'', ''enrollment_epoch''].
        pyeq (fld v k) (fld w k))"

text \<open>\<^verbatim>\<open>except (KeyError, TypeError, ValueError) as error: return blocked(str(error), ...)\<close>\<close>

fun exc_text :: "exc \<Rightarrow> string option" where
  "exc_text (KeyError t) = Some t"
| "exc_text (TypeError t) = Some t"
| "exc_text (ValueError t) = Some t"
| "exc_text _ = None"

definition guarded :: "unit res \<Rightarrow> pyval res \<Rightarrow> pyval res" where
  "guarded m k =
     (case m of Inr _ \<Rightarrow> k
      | Inl e \<Rightarrow> (case exc_text e of Some t \<Rightarrow> Inr (ac_blocked t malformed) | None \<Rightarrow> Inl e))"

section \<open>Evaluations\<close>

definition ac_match :: pyval where
  "ac_match = PDict
     [(''allowed'', PInt 0), (''reserve_authorized'', PInt 0),
      (''action'', PStr ''MODEL_CONTINUITY_ASSUMPTIONS_MATCH_ONLY''), (''dispatch_allowed'', PInt 0),
      (''assumptions_matched'', PInt 1), (''classification'', PStr unproven),
      (''reason'', PStr ''head bindings match, but witness authenticity, freshness and CAS relationship are unqualified'')]"

text \<open>Lines 139 to 150, after both documents are bound to the enrollment.\<close>

definition compare_heads :: "pyval \<Rightarrow> pyval \<Rightarrow> pyval" where
  "compare_heads ob w =
     (if \<not> (pyeq (fld ob ''ledger_revision'') (fld w ''ledger_revision'')
            \<and> pyeq (fld ob ''ledger_sha256'') (fld w ''ledger_sha256''))
      then
        if int_of (fld ob ''ledger_revision'') < int_of (fld w ''ledger_revision'')
        then ac_blocked ''authority ledger is older than rollback-independent witness'' unproven
        else ac_blocked ''observed authority head differs from rollback-independent witness'' unproven
      else ac_match)"

definition evaluate_witness :: "pyval \<Rightarrow> pyval \<Rightarrow> pyval \<Rightarrow> pyval res" where
  "evaluate_witness enr ob w =
     guarded (validate_witness w)
      (Inr (if \<not> same_authority w enr
            then ac_blocked ''independent witness identifies another authority history'' unproven
            else if \<not> pyeq (fld w ''enrollment_sha256'') (PStr (enrollment_digest enr))
            then ac_blocked ''independent witness is not bound to the complete enrollment'' unproven
            else compare_heads ob w))"

definition evaluate_continuity :: "pyval \<Rightarrow> pyval \<Rightarrow> pyval \<Rightarrow> pyval res" where
  "evaluate_continuity enr ob w =
     guarded (rbind (validate_enrollment enr) (\<lambda>_. validate_observation ob))
      (if fld ob ''status'' \<noteq> PStr ''AVAILABLE''
       then Inr (ac_blocked ''authority history is not positively available'' unproven)
       else if \<not> same_authority ob enr
       then Inr (ac_blocked ''observed authority identity differs from pinned enrollment'' unproven)
       else if \<not> pyeq (fld ob ''enrollment_sha256'') (PStr (enrollment_digest enr))
       then Inr (ac_blocked ''authority observation is not bound to the complete enrollment'' unproven)
       else if w = PNone
       then Inr (ac_blocked ''rollback-independent authority-head witness is absent'' unproven)
       else evaluate_witness enr ob w)"

definition same_binding :: "pyval \<Rightarrow> pyval \<Rightarrow> bool" where
  "same_binding v w \<longleftrightarrow> same_authority v w
     \<and> (\<forall>k \<in> set [''storage_set'', ''code_digest'', ''policy_digest'', ''cluster_id'', ''backend''].
          pyeq (fld v k) (fld w k))"

definition ac_consistent :: pyval where
  "ac_consistent = PDict
     [(''allowed'', PInt 0), (''reserve_authorized'', PInt 0),
      (''action'', PStr ''MODEL_ALIAS_CONSISTENCY_OBSERVED_ONLY''), (''dispatch_allowed'', PInt 0),
      (''consistent'', PInt 1), (''classification'', PStr unproven),
      (''reason'', PStr ''supplied unique aliases agree; participant-set completeness is unproven'')]"

definition evaluate_alias_set :: "pyval \<Rightarrow> pyval res" where
  "evaluate_alias_set enrollments =
     (if \<not> (is_list enrollments \<and> list_of enrollments \<noteq> [])
      then Inr (ac_blocked ''authority enrollment set is absent'' malformed)
      else
        let rows = list_of enrollments; first = hd rows in
        guarded (check_each validate_enrollment rows)
         (Inr (if \<not> distinct (map (\<lambda>r. str_of (fld r ''storage_id'')) rows)
               then ac_blocked ''alias list contains duplicate storage identities'' unproven
               else if \<exists>r \<in> set rows. \<not> pyeq (fld r ''vg_uuid'') (fld first ''vg_uuid'')
               then ac_blocked ''alias comparison spans different VG identities'' unproven
               else if \<exists>r \<in> set (tl rows). \<not> same_binding r first
               then ac_blocked ''same-VG aliases do not share one exact authority binding'' unproven
               else ac_consistent)))"

definition bit_fields :: "string list" where
  "bit_fields = [''participant_set_complete'', ''all_potential_executors_fenced'', ''storage_reconciled'',
     ''old_authority_disabled'', ''old_history_retired'']"

definition reenrollment_fields :: "string list" where
  "reenrollment_fields = [''schema'', ''kind'', ''cluster_id'', ''vg_uuid'', ''old_enrollment_sha256'',
     ''recovery_transaction'', ''participant_set_sha256''] @ bit_fields"

definition reenrollment_ok :: "pyval \<Rightarrow> bool res" where
  "reenrollment_ok v =
     rall (\<lambda>m. m)
      [Inr (exact v reenrollment_fields \<and> fld v ''schema'' = PInt 1
            \<and> pyeq (fld v ''kind'') (PStr ''MANUAL_REENROLLMENT_EVIDENCE'')),
       fullmatch node_re (fld v ''cluster_id''),
       fullmatch lvm_uuid_re (fld v ''vg_uuid''),
       fullmatch (hexn 64) (fld v ''old_enrollment_sha256''),
       fullmatch (hexn 32) (fld v ''recovery_transaction''),
       fullmatch (hexn 64) (fld v ''participant_set_sha256''),
       Inr (\<forall>k \<in> set bit_fields. exact_bit (fld v k))]"

definition ac_reenrolled :: pyval where
  "ac_reenrolled = PDict
     [(''allowed'', PInt 0), (''reenrollment_authorized'', PInt 0),
      (''action'', PStr ''MODEL_REENROLLMENT_PRECONDITIONS_ASSUMED''), (''dispatch_allowed'', PInt 0),
      (''assumptions_matched'', PInt 1), (''classification'', PStr unproven),
      (''reason'', PStr ''bound preconditions are asserted but fencing, reconciliation and non-replay proofs are unqualified'')]"

definition evaluate_reenrollment :: "pyval \<Rightarrow> pyval res" where
  "evaluate_reenrollment v =
     rbind (reenrollment_ok v) (\<lambda>ok.
     Inr (if \<not> ok then ac_blocked ''manual re-enrollment evidence is malformed'' malformed
          else if \<exists>k \<in> set bit_fields. fld v k \<noteq> PInt 1
          then ac_blocked ''re-enrollment requires complete fencing and reconciliation'' unproven
          else ac_reenrolled))"

section \<open>Validation fails with a value error or a type error only\<close>

lemma fullmatch_exc: "fullmatch re v = Inl x \<Longrightarrow> \<exists>t. x = TypeError t"
  by (auto simp: fullmatch_def split: if_splits)

lemma in_strs_exc: "in_strs v ss = Inl x \<Longrightarrow> \<exists>t. x = TypeError t"
  by (auto simp: in_strs_def split: if_splits)

lemma validate_enrollment_exc: "validate_enrollment v = Inl e \<Longrightarrow> exc_text e \<noteq> None"
  unfolding validate_enrollment_def
  by (drule demand_all_exc) (auto dest: fullmatch_exc)

lemma validate_observation_exc: "validate_observation v = Inl e \<Longrightarrow> exc_text e \<noteq> None"
proof -
  assume v: "validate_observation v = Inl e"
  let ?head = "demand_all
       [Inr (exact v ([''schema'', ''kind'', ''status''] @ trusted_fields) \<and> fld v ''schema'' = PInt 1
             \<and> pyeq (fld v ''kind'') (PStr ''AUTHORITY_HEAD_OBSERVATION'')),
        in_strs (fld v ''status'') [''AVAILABLE'', ''UNAVAILABLE'', ''MISSING'', ''CORRUPT'']]
       ''authority observation schema is invalid''"
  show ?thesis
  proof (cases ?head)
    case (Inl x)
    with v have "x = e" by (simp add: validate_observation_def)
    with demand_all_exc [OF Inl] show ?thesis
      using in_strs_exc [of "fld v ''status''" "[''AVAILABLE'', ''UNAVAILABLE'', ''MISSING'', ''CORRUPT'']"] by auto
  next
    case (Inr u)
    with v have "demand_all (head_checks v) ''available authority observation is malformed'' = Inl e
       \<or> demand_all [Inr (\<forall>k \<in> set trusted_fields. fld v k = PNone)]
            ''unavailable authority observation carries trusted state'' = Inl e"
      unfolding validate_observation_def Inr rbind_simps by (simp split: if_splits)
    then show ?thesis
      by (elim disjE) (drule demand_all_exc, auto simp: head_checks_def dest: fullmatch_exc)+
  qed
qed

lemma validate_witness_exc: "validate_witness v = Inl e \<Longrightarrow> exc_text e \<noteq> None"
  unfolding validate_witness_def
  by (drule demand_all_exc) (auto simp: head_checks_def dest: fullmatch_exc)

lemma guarded_total: "(\<And>e. m = Inl e \<Longrightarrow> exc_text e \<noteq> None) \<Longrightarrow> \<exists>r. guarded m (Inr v) = Inr r"
  by (cases m) (auto simp: guarded_def)

lemma guarded_Inr: "guarded m k = Inr r \<Longrightarrow> (m = Inr () \<and> k = Inr r) \<or> (\<exists>t. r = ac_blocked t malformed)"
  by (auto simp: guarded_def split: sum.splits option.splits)

section \<open>A concrete enrollment\<close>

definition ac_hex :: "nat \<Rightarrow> pyval" where "ac_hex n = PStr (replicate n CHR ''a'')"
definition ac_boot :: pyval where "ac_boot = PStr ''12345678-1234-1234-1234-123456789abc''"

definition ac_enrollment :: "string \<Rightarrow> pyval" where
  "ac_enrollment sid = PDict
     [(''schema'', PInt 1), (''kind'', PStr ''PINNED_ADMISSION_AUTHORITY''), (''cluster_id'', PStr ''c1''),
      (''storage_id'', PStr sid), (''vg_uuid'', PStr ''aaaaaa-bbbb-cccc-dddd-eeee-ffff-gggggg''),
      (''storage_set'', ac_hex 64), (''authority_id'', ac_hex 32), (''authority_node'', PStr ''n1''),
      (''authority_boot_id'', ac_boot), (''enrollment_epoch'', ac_hex 64),
      (''backend'', PStr ''LOCAL_PERSISTENT_NO_FAILOVER''), (''code_digest'', ac_hex 64), (''policy_digest'', ac_hex 64)]"

definition ac_head :: "(string \<times> pyval) list \<Rightarrow> int \<Rightarrow> pyval" where
  "ac_head front n = PDict (front @
     [(''authority_id'', ac_hex 32), (''authority_node'', PStr ''n1''), (''authority_boot_id'', ac_boot),
      (''enrollment_epoch'', ac_hex 64), (''enrollment_sha256'', PStr (enrollment_digest (ac_enrollment ''s1''))),
      (''ledger_revision'', PInt n), (''ledger_sha256'', ac_hex 64)])"

definition ac_observation :: "int \<Rightarrow> pyval" where
  "ac_observation = ac_head [(''schema'', PInt 1), (''kind'', PStr ''AUTHORITY_HEAD_OBSERVATION''),
     (''status'', PStr ''AVAILABLE'')]"

definition ac_witness :: "int \<Rightarrow> pyval" where
  "ac_witness = ac_head [(''schema'', PInt 1), (''kind'', PStr ''INDEPENDENT_AUTHORITY_HEAD_V1''),
     (''trust_domain'', PStr ''ROLLBACK_INDEPENDENT''), (''proof_digest'', ac_hex 64)]"

lemma ac_hex_ok: "matches (hexn n) (ac_hex n)" "matches boot_id_re ac_boot" "matches node_re (PStr ''n1'')"
  by (simp_all add: ac_hex_def lower_hex_def ac_boot_def boot_id_re_def dash_def node_re_def head_tail_def
      name_char_def alnum_def digit_def lower_def)

lemma ac_enrollment_valid: "sid = ''s1'' \<or> sid = ''s2'' \<Longrightarrow> validate_enrollment (ac_enrollment sid) = Inr ()"
  using ac_hex_ok
  by (auto simp: validate_enrollment_def ac_enrollment_def enrollment_fields_def node_re_def storage_id_re_def
      lvm_uuid_re_def head_tail_def name_char_def alnum_def digit_def lower_def dash_def)

lemma ac_head_checks: "1 \<le> n \<Longrightarrow> \<forall>m \<in> set (head_checks (ac_observation n)). m = Inr True"
  "1 \<le> n \<Longrightarrow> \<forall>m \<in> set (head_checks (ac_witness n)). m = Inr True"
  using ac_hex_ok
  by (auto simp: head_checks_def ac_observation_def ac_witness_def ac_head_def enrollment_digest_def)

lemma ac_observation_valid: "1 \<le> n \<Longrightarrow> validate_observation (ac_observation n) = Inr ()"
  using ac_head_checks(1) [of n]
  by (auto simp: validate_observation_def rbind_Inr) (auto simp: ac_observation_def ac_head_def trusted_fields_def)

lemma ac_witness_valid: "1 \<le> n \<Longrightarrow> validate_witness (ac_witness n) = Inr ()"
  using ac_head_checks(2) [of n] ac_hex_ok
  by (auto simp: validate_witness_def) (auto simp: ac_witness_def ac_head_def trusted_fields_def)

section \<open>Properties of the continuity contract\<close>

lemma blocked_fields [simp]:
  "fld (ac_blocked t c) ''allowed'' = PInt 0" "fld (ac_blocked t c) ''dispatch_allowed'' = PInt 0"
  "fld (ac_blocked t c) ''action'' = PStr ''REFUSE''"
  by (simp_all add: ac_blocked_def)

lemma evaluate_continuity_total: "\<exists>r. evaluate_continuity enr ob w = Inr r"
proof -
  have wit: "\<exists>r. evaluate_witness enr ob w = Inr r"
    unfolding evaluate_witness_def by (rule guarded_total) (rule validate_witness_exc)
  have exc: "exc_text e \<noteq> None" if "rbind (validate_enrollment enr) (\<lambda>_. validate_observation ob) = Inl e" for e
    using that validate_enrollment_exc validate_observation_exc by (cases "validate_enrollment enr") auto
  show ?thesis
  proof (cases "rbind (validate_enrollment enr) (\<lambda>_. validate_observation ob)")
    case (Inl e)
    with exc show ?thesis by (auto simp: evaluate_continuity_def guarded_def split: option.splits)
  next
    case (Inr u)
    with wit show ?thesis by (auto simp: evaluate_continuity_def guarded_def)
  qed
qed

lemma compare_heads_cases:
  "compare_heads ob w = ac_match \<or> fld (compare_heads ob w) ''action'' = PStr ''REFUSE''"
  by (simp add: compare_heads_def)

text \<open>
  The continuity evaluation never raises and never authorizes: for every enrollment,
  observation and witness it returns a verdict with allowed and dispatch_allowed zero; and the
  match verdict is given exactly when enrollment, observation and witness are well formed, the
  observation is AVAILABLE, both are bound to the pinned authority and to the digest of the complete
  enrollment, and the two heads are equal.
\<close>

theorem continuity_match_iff:
  "\<exists>r. evaluate_continuity enr ob w = Inr r \<and> fld r ''allowed'' = PInt 0 \<and> fld r ''dispatch_allowed'' = PInt 0
     \<and> (fld r ''action'' = PStr ''MODEL_CONTINUITY_ASSUMPTIONS_MATCH_ONLY'' \<longleftrightarrow>
          validate_enrollment enr = Inr () \<and> validate_observation ob = Inr () \<and> validate_witness w = Inr ()
          \<and> fld ob ''status'' = PStr ''AVAILABLE'' \<and> w \<noteq> PNone
          \<and> same_authority ob enr \<and> same_authority w enr
          \<and> fld ob ''enrollment_sha256'' = PStr (enrollment_digest enr)
          \<and> fld w ''enrollment_sha256'' = PStr (enrollment_digest enr)
          \<and> pyeq (fld ob ''ledger_revision'') (fld w ''ledger_revision'')
          \<and> pyeq (fld ob ''ledger_sha256'') (fld w ''ledger_sha256''))"
proof -
  obtain r where r: "evaluate_continuity enr ob w = Inr r" using evaluate_continuity_total by blast
  have cmp: "fld (compare_heads ob w) ''allowed'' = PInt 0" "fld (compare_heads ob w) ''dispatch_allowed'' = PInt 0"
    "fld (compare_heads ob w) ''action'' = PStr ''MODEL_CONTINUITY_ASSUMPTIONS_MATCH_ONLY'' \<longleftrightarrow>
       pyeq (fld ob ''ledger_revision'') (fld w ''ledger_revision'') \<and> pyeq (fld ob ''ledger_sha256'') (fld w ''ledger_sha256'')"
    by (simp_all add: compare_heads_def) (simp_all add: ac_match_def)
  have e: "validate_enrollment enr = Inr () \<and> validate_observation ob = Inr ()
      \<longleftrightarrow> rbind (validate_enrollment enr) (\<lambda>_. validate_observation ob) = Inr ()"
    by (auto simp: rbind_Inr)
  have "fld r ''allowed'' = PInt 0 \<and> fld r ''dispatch_allowed'' = PInt 0
     \<and> (fld r ''action'' = PStr ''MODEL_CONTINUITY_ASSUMPTIONS_MATCH_ONLY'' \<longleftrightarrow>
          rbind (validate_enrollment enr) (\<lambda>_. validate_observation ob) = Inr () \<and> validate_witness w = Inr ()
          \<and> fld ob ''status'' = PStr ''AVAILABLE'' \<and> w \<noteq> PNone \<and> same_authority ob enr \<and> same_authority w enr
          \<and> fld ob ''enrollment_sha256'' = PStr (enrollment_digest enr)
          \<and> fld w ''enrollment_sha256'' = PStr (enrollment_digest enr)
          \<and> pyeq (fld ob ''ledger_revision'') (fld w ''ledger_revision'')
          \<and> pyeq (fld ob ''ledger_sha256'') (fld w ''ledger_sha256''))"
    using r cmp
    by (auto simp: evaluate_continuity_def evaluate_witness_def guarded_def split: sum.splits option.splits if_splits)
  with r e show ?thesis by blast
qed

text \<open>
  Rollback is detected. When enrollment, observation and witness are well formed and bound to
  the same enrollment, an observed head older than the witnessed one is refused as older, and any
  other difference of the heads is refused too.
\<close>

theorem continuity_rollback_refused:
  assumes "validate_enrollment enr = Inr ()" and "validate_observation ob = Inr ()" and "validate_witness w = Inr ()"
    and "fld ob ''status'' = PStr ''AVAILABLE''" and "same_authority ob enr" and "same_authority w enr"
    and "fld ob ''enrollment_sha256'' = PStr (enrollment_digest enr)"
    and "fld w ''enrollment_sha256'' = PStr (enrollment_digest enr)"
    and "(fld ob ''ledger_revision'', fld ob ''ledger_sha256'') \<noteq> (fld w ''ledger_revision'', fld w ''ledger_sha256'')"
  shows "evaluate_continuity enr ob w = Inr
     (ac_blocked (if int_of (fld ob ''ledger_revision'') < int_of (fld w ''ledger_revision'')
                  then ''authority ledger is older than rollback-independent witness''
                  else ''observed authority head differs from rollback-independent witness'') unproven)"
proof -
  have heads: "integer (fld ob ''ledger_revision'') 1" "integer (fld w ''ledger_revision'') 1"
    "matches (hexn 64) (fld ob ''ledger_sha256'')"
    using assms(2,3,4) by (auto simp: validate_observation_def validate_witness_def head_checks_def rbind_Inr)
  then have "\<not> (pyeq (fld ob ''ledger_revision'') (fld w ''ledger_revision'')
      \<and> pyeq (fld ob ''ledger_sha256'') (fld w ''ledger_sha256''))"
    using assms(9) by (auto simp: integer_iff matches_iff)
  moreover have "w \<noteq> PNone" using heads by auto
  ultimately show ?thesis using assms
    by (simp add: evaluate_continuity_def evaluate_witness_def guarded_def compare_heads_def)
qed

theorem continuity_rollback_refused_witness:
  "evaluate_continuity (ac_enrollment ''s1'') (ac_observation 1) (ac_witness 2)
     = Inr (ac_blocked ''authority ledger is older than rollback-independent witness'' unproven)"
proof -
  have "evaluate_continuity (ac_enrollment ''s1'') (ac_observation 1) (ac_witness 2) = Inr
     (ac_blocked (if int_of (fld (ac_observation 1) ''ledger_revision'') < int_of (fld (ac_witness 2) ''ledger_revision'')
                  then ''authority ledger is older than rollback-independent witness''
                  else ''observed authority head differs from rollback-independent witness'') unproven)"
    by (rule continuity_rollback_refused)
       (simp_all add: ac_enrollment_valid ac_observation_valid ac_witness_valid,
        simp_all add: same_authority_def ac_observation_def ac_witness_def ac_head_def ac_enrollment_def)
  then show ?thesis by (simp add: ac_observation_def ac_witness_def ac_head_def)
qed

lemma same_binding_refl: "same_binding v v" by (simp add: same_binding_def same_authority_def)
lemma same_binding_sym: "same_binding v w \<Longrightarrow> same_binding w v"
  by (auto simp: same_binding_def same_authority_def pyeq_sym)
lemma same_binding_trans: "same_binding u v \<Longrightarrow> same_binding v w \<Longrightarrow> same_binding u w"
  by (auto simp: same_binding_def same_authority_def intro: pyeq_trans)

lemma alias_consistent:
  assumes "rows \<noteq> []"
  shows "evaluate_alias_set (PList rows) = Inr ac_consistent \<longleftrightarrow>
     (\<forall>r \<in> set rows. validate_enrollment r = Inr ())
     \<and> distinct (map (\<lambda>r. str_of (fld r ''storage_id'')) rows)
     \<and> (\<forall>r \<in> set rows. \<forall>q \<in> set rows. pyeq (fld r ''vg_uuid'') (fld q ''vg_uuid'') \<and> same_binding r q)"
proof -
  let ?all = "\<forall>r \<in> set rows. \<forall>q \<in> set rows. pyeq (fld r ''vg_uuid'') (fld q ''vg_uuid'') \<and> same_binding r q"
  let ?hd = "(\<forall>r \<in> set rows. pyeq (fld r ''vg_uuid'') (fld (hd rows) ''vg_uuid''))
     \<and> (\<forall>r \<in> set (tl rows). same_binding r (hd rows))"
  have ne: "ac_blocked t c \<noteq> ac_consistent" for t c by (simp add: ac_blocked_def ac_consistent_def)
  have "?hd \<longleftrightarrow> ?all"
  proof
    assume ?all
    then show ?hd using assms by (cases rows) auto
  next
    assume hd: ?hd
    have "pyeq (fld r ''vg_uuid'') (fld (hd rows) ''vg_uuid'')" "same_binding r (hd rows)" if "r \<in> set rows" for r
      using hd that same_binding_refl by (cases rows; auto)+
    then show ?all using same_binding_sym same_binding_trans by (meson pyeq_sym pyeq_trans)
  qed
  moreover have "evaluate_alias_set (PList rows) = Inr ac_consistent \<longleftrightarrow>
     check_each validate_enrollment rows = Inr () \<and> distinct (map (\<lambda>r. str_of (fld r ''storage_id'')) rows) \<and> ?hd"
    using assms ne by (auto simp: evaluate_alias_set_def guarded_def Let_def split: sum.splits option.splits)
  ultimately show ?thesis by (simp add: check_each_ok)
qed

text \<open>
  Alias consistency does not depend on the order of the aliases. Permuting the enrollments
  keeps the consistent verdict, which holds exactly when all are valid, their storage identities
  are distinct, and any two share the volume group and the complete authority binding.
\<close>

theorem alias_order_irrelevant:
  assumes "mset rows = mset rows'" and "rows \<noteq> []"
  shows "(evaluate_alias_set (PList rows) = Inr ac_consistent \<longleftrightarrow> evaluate_alias_set (PList rows') = Inr ac_consistent)
     \<and> (evaluate_alias_set (PList rows) = Inr ac_consistent \<longleftrightarrow>
          (\<forall>r \<in> set rows. validate_enrollment r = Inr ())
          \<and> distinct (map (\<lambda>r. str_of (fld r ''storage_id'')) rows)
          \<and> (\<forall>r \<in> set rows. \<forall>q \<in> set rows. pyeq (fld r ''vg_uuid'') (fld q ''vg_uuid'') \<and> same_binding r q))"
proof -
  have "set rows = set rows'" "rows' \<noteq> []" using assms mset_eq_setD by auto
  moreover have "distinct (map f rows) \<longleftrightarrow> distinct (map f rows')" for f :: "pyval \<Rightarrow> string"
    using assms(1) by (metis mset_eq_imp_distinct_iff mset_map)
  ultimately show ?thesis using alias_consistent assms(2) by auto
qed

theorem alias_order_irrelevant_witness:
  "evaluate_alias_set (PList [ac_enrollment ''s2'', ac_enrollment ''s1'']) = Inr ac_consistent"
proof -
  have "evaluate_alias_set (PList [ac_enrollment ''s1'', ac_enrollment ''s2'']) = Inr ac_consistent"
    by (subst alias_consistent)
       (simp_all add: ac_enrollment_valid, simp add: ac_enrollment_def same_binding_def same_authority_def)
  moreover have "mset [ac_enrollment ''s1'', ac_enrollment ''s2''] = mset [ac_enrollment ''s2'', ac_enrollment ''s1'']"
    by simp
  ultimately show ?thesis using alias_order_irrelevant by blast
qed

text \<open>
  Re-enrollment evidence. The preconditions are reported as met exactly for well-formed evidence
  with all five bits set, and nothing is ever authorized; but, unlike the other evaluations, this one
  is not total: evidence with a missing string field makes it raise a type error instead of
  returning the malformed-evidence verdict.
\<close>

theorem reenrollment_verdicts:
  "(\<forall>r. evaluate_reenrollment v = Inr r \<longrightarrow> fld r ''allowed'' = PInt 0 \<and> fld r ''dispatch_allowed'' = PInt 0
       \<and> (fld r ''action'' = PStr ''MODEL_REENROLLMENT_PRECONDITIONS_ASSUMED'' \<longleftrightarrow>
            reenrollment_ok v = Inr True \<and> (\<forall>k \<in> set bit_fields. fld v k = PInt 1)))
   \<and> (exact v reenrollment_fields \<and> fld v ''schema'' = PInt 1
      \<and> fld v ''kind'' = PStr ''MANUAL_REENROLLMENT_EVIDENCE'' \<and> fld v ''cluster_id'' = PNone \<longrightarrow>
        (\<exists>t. evaluate_reenrollment v = Inl (TypeError t)))"
proof (intro conjI allI impI)
  fix r
  assume "evaluate_reenrollment v = Inr r"
  then obtain ok where ok: "reenrollment_ok v = Inr ok"
    "r = (if \<not> ok then ac_blocked ''manual re-enrollment evidence is malformed'' malformed
          else if \<exists>k \<in> set bit_fields. fld v k \<noteq> PInt 1
          then ac_blocked ''re-enrollment requires complete fencing and reconciliation'' unproven
          else ac_reenrolled)"
    by (auto simp: evaluate_reenrollment_def elim!: rbindE)
  then show "fld r ''allowed'' = PInt 0" "fld r ''dispatch_allowed'' = PInt 0"
    "fld r ''action'' = PStr ''MODEL_REENROLLMENT_PRECONDITIONS_ASSUMED'' \<longleftrightarrow>
       reenrollment_ok v = Inr True \<and> (\<forall>k \<in> set bit_fields. fld v k = PInt 1)"
    by (auto simp: ac_reenrolled_def)
next
  assume "exact v reenrollment_fields \<and> fld v ''schema'' = PInt 1
      \<and> fld v ''kind'' = PStr ''MANUAL_REENROLLMENT_EVIDENCE'' \<and> fld v ''cluster_id'' = PNone"
  then show "\<exists>t. evaluate_reenrollment v = Inl (TypeError t)"
    by (simp add: evaluate_reenrollment_def reenrollment_ok_def fullmatch_def)
qed

definition ac_evidence :: pyval where
  "ac_evidence = PDict
     ([(''schema'', PInt 1), (''kind'', PStr ''MANUAL_REENROLLMENT_EVIDENCE''), (''cluster_id'', PNone),
       (''vg_uuid'', PNone), (''old_enrollment_sha256'', PNone), (''recovery_transaction'', PNone),
       (''participant_set_sha256'', PNone)] @ map (\<lambda>k. (k, PInt 1)) bit_fields)"

theorem reenrollment_verdicts_witness: "\<exists>t. evaluate_reenrollment ac_evidence = Inl (TypeError t)"
proof -
  have "exact ac_evidence reenrollment_fields \<and> fld ac_evidence ''schema'' = PInt 1
      \<and> fld ac_evidence ''kind'' = PStr ''MANUAL_REENROLLMENT_EVIDENCE'' \<and> fld ac_evidence ''cluster_id'' = PNone"
    by (simp add: ac_evidence_def reenrollment_fields_def bit_fields_def insert_commute)
  with reenrollment_verdicts show ?thesis by blast
qed

end
