(* ===== verification/RegistrationPlan.thy ===== *)
theory RegistrationPlan
  imports PyText
begin

text \<open>
  The registration planner (\<^verbatim>\<open>usr/libexec/pve-sharedlvmthin/sharedlvmthin-registration-plan.py\<close>):
  from a request and the evidence collected about the cluster it derives the storage definitions
  to create, or refuses. The planner never changes storage; what it promises is that a preview is
  backed by the evidence.
\<close>

section \<open>Scalars\<close>

text \<open>\<^verbatim>\<open>[A-Za-z0-9][A-Za-z0-9_.-]{0,63}\<close>\<close>

definition name_re :: "string \<Rightarrow> bool" where
  "name_re = head_tail alnum name_char (Some 63)"

definition plan_name :: "string \<Rightarrow> pyval \<Rightarrow> string res" where
  "plan_name kind v = (if matches name_re v then Inr (str_of v) else Inl (Refusal (''invalid '' @ kind)))"

definition plan_uuid :: "pyval \<Rightarrow> string res" where
  "plan_uuid v = (if matches lvm_uuid_re v then Inr (str_of v) else Inl (Refusal ''invalid LVM UUID''))"

text \<open>\<^verbatim>\<open>[0-9a-fA-F]{16,128}\<close>\<close>

definition wwid_re :: "string \<Rightarrow> bool" where
  "wwid_re s \<longleftrightarrow> 16 \<le> length s \<and> length s \<le> 128 \<and>
     list_all (\<lambda>c. lower_hex c \<or> (CHR ''A'' \<le> c \<and> c \<le> CHR ''F'')) s"

lemma plan_name_Inr: "plan_name kind v = Inr s \<longleftrightarrow> v = PStr s \<and> name_re s"
  by (auto simp: plan_name_def matches_iff split: if_splits)

lemma plan_uuid_Inr: "plan_uuid v = Inr s \<longleftrightarrow> v = PStr s \<and> lvm_uuid_re s"
  by (auto simp: plan_uuid_def matches_iff split: if_splits)

section \<open>The command line\<close>

text \<open>
  \<^verbatim>\<open>shlex.quote\<close>: a word of safe characters stands for itself, any other is quoted, a quote
  inside it closing, escaping and reopening the quotation.
\<close>

definition shell_safe :: "char \<Rightarrow> bool" where
  "shell_safe c \<longleftrightarrow> alnum c \<or> c \<in> set ''_@%+=:,./-''"

definition sq :: char where "sq = CHR 0x27"
definition dq :: char where "dq = CHR 0x22"

definition shell_quote :: "string \<Rightarrow> string" where
  "shell_quote s =
     (if s = [] then [sq, sq]
      else if list_all shell_safe s then s
      else sq # concat (map (\<lambda>c. if c = sq then [sq, dq, sq, dq, sq] else [c]) s) @ [sq])"

definition shell_join :: "string list \<Rightarrow> string" where
  "shell_join ws = join_with '' '' (map shell_quote ws)"

text \<open>\<^verbatim>\<open>str(value)\<close> of the strings and integers of a definition\<close>

fun py_str :: "pyval \<Rightarrow> string" where
  "py_str (PStr s) = s"
| "py_str (PInt n) = int_digits n"
| "py_str _ = []"

section \<open>The plan\<close>

definition plan_nodes :: "pyval \<Rightarrow> string list res" where
  "plan_nodes request =
     rbind (checks [need (is_list (fld request ''nodes'') \<and> list_of (fld request ''nodes'') \<noteq> []
              \<and> list_all is_str (list_of (fld request ''nodes''))
              \<and> distinct (map str_of (list_of (fld request ''nodes'')))) ''invalid selected nodes''])
       (\<lambda>_. rbind (rmap (plan_name ''node'') (list_of (fld request ''nodes''))) (\<lambda>ns. Inr (sort ns)))"

definition plan_aliases :: "pyval \<Rightarrow> (string \<times> string) list res" where
  "plan_aliases request =
     rbind (checks [need (is_dict (fld request ''aliases'') \<and> items (fld request ''aliases'') \<noteq> []
              \<and> set (keys (fld request ''aliases'')) \<subseteq> {''eager'', ''lazy''}) ''invalid modes''])
       (\<lambda>_. rbind (rmap (\<lambda>(m, sid). rbind (plan_name ''storage ID'' sid) (\<lambda>s. Inr (m, s)))
                        (items (fld request ''aliases'')))
       (\<lambda>as. rbind (checks [need (distinct (map snd as)) ''duplicate requested storage ID'']) (\<lambda>_. Inr as)))"

definition plan_reserve :: "pyval \<Rightarrow> int res" where
  "plan_reserve request =
     rbind (pyget request ''reserve_percent'' (PInt 5)) (\<lambda>r.
     rbind (checks [need (is_int r \<and> 0 \<le> int_of r \<and> int_of r \<le> 50)
              ''new registration reserve must be between 0 and 50 percent'']) (\<lambda>_. Inr (int_of r)))"

text \<open>The volume group's identity and capacity\<close>

record plan_vg =
  pg_vg :: string
  pg_vg_uuid :: string
  pg_pv_uuid :: string
  pg_wwid :: string
  pg_size :: int
  pg_free :: int

definition plan_group :: "string \<Rightarrow> pyval \<Rightarrow> plan_vg res" where
  "plan_group vg expected =
     rbind (checks [need (is_dict expected \<and> pyeq (fld expected ''name'') (PStr vg)
              \<and> pyeq (fld expected ''pv_count'') (PInt 1)) ''VG is not a proven single-PV VG'']) (\<lambda>_.
     rbind (plan_uuid (fld expected ''vg_uuid'')) (\<lambda>vu.
     rbind (plan_uuid (fld expected ''pv_uuid'')) (\<lambda>pu.
     rbind (checks
       [need (matches wwid_re (fld expected ''wwid'')) ''invalid WWID'',
        need (is_int (fld expected ''size_bytes'') \<and> is_int (fld expected ''free_bytes'')
              \<and> 0 < int_of (fld expected ''size_bytes'') \<and> 0 \<le> int_of (fld expected ''free_bytes'')
              \<and> int_of (fld expected ''free_bytes'') \<le> int_of (fld expected ''size_bytes''))
          ''invalid VG capacity'',
        need (is_true (fld expected ''dedicated'')) ''dedicated VG not proven'']) (\<lambda>_.
     Inr \<lparr>pg_vg = vg, pg_vg_uuid = vu, pg_pv_uuid = pu, pg_wwid = str_of (fld expected ''wwid''),
          pg_size = int_of (fld expected ''size_bytes''), pg_free = int_of (fld expected ''free_bytes'')\<rparr>))))"

text \<open>One selected node's evidence: the same group, mapper and at least one healthy path\<close>

definition plan_peer :: "pyval \<Rightarrow> pyval \<Rightarrow> string \<Rightarrow> int res" where
  "plan_peer expected peers node =
     rbind (checks
       [need (is_dict (fld peers node) \<and> is_true (fld (fld peers node) ''complete'')
              \<and> is_true (fld (fld peers node) ''peer_ssh_verified'')) ''peer evidence incomplete'',
        need (list_all (\<lambda>k. pyeq (fld (fld peers node) k) (fld expected k))
                [''vg_uuid'', ''pv_uuid'', ''wwid'', ''size_bytes'']) ''peer identity mismatch'',
        need (is_int (fld (fld peers node) ''healthy_paths'') \<and> 1 \<le> int_of (fld (fld peers node) ''healthy_paths'')
              \<and> is_true (fld (fld peers node) ''mapper_verified''))
          ''multipath identity or healthy path missing'']) (\<lambda>_.
     Inr (int_of (fld (fld peers node) ''healthy_paths'')))"

text \<open>One existing storage definition must be unrelated, and visibly so.\<close>

definition plan_existing :: "plan_vg \<Rightarrow> string list \<Rightarrow> pyval \<Rightarrow> unit res" where
  "plan_existing g sids item =
     rbind (checks [need (is_dict item \<and> is_str (fld item ''id'')) ''storage definition ambiguous'']) (\<lambda>_.
     if str_of (fld item ''id'') \<in> set sids \<or> pyeq (fld item ''vg_name'') (PStr (pg_vg g))
        \<or> pyeq (fld item ''vg_uuid'') (PStr (pg_vg_uuid g))
     then Inl (Refusal ''existing storage association requires full policy review'')
     else if fld item ''type'' \<in> PStr ` {''sharedlvmthin'', ''lvm'', ''lvmthin''} \<and> \<not> truthy (fld item ''vg_name'')
     then Inl (Refusal ''storage VG association is ambiguous'')
     else Inr ())"

definition plan_definition :: "plan_vg \<Rightarrow> string list \<Rightarrow> int \<Rightarrow> int \<Rightarrow> string \<times> string \<Rightarrow> pyval" where
  "plan_definition g nodes paths reserve = (\<lambda>(mode, sid).
     let cfg =
       [(''type'', PStr ''sharedlvmthin''), (''storage'', PStr sid), (''slt-vgname'', PStr (pg_vg g)),
        (''slt-allocation-mode'',
           PStr (if mode = ''eager'' then ''thick-generations'' else ''thick-generations-lazy'')),
        (''slt-vg-layout'', PStr ''isolated''), (''slt-expected-vg-uuid'', PStr (pg_vg_uuid g)),
        (''slt-expected-pv-uuid'', PStr (pg_pv_uuid g)), (''slt-expected-wwid'', PStr (pg_wwid g)),
        (''slt-expected-min-paths'', PInt paths), (''slt-vg-reserve-percent'', PInt reserve),
        (''nodes'', PStr (join_with '','' nodes)), (''shared'', PInt 1), (''content'', PStr ''images,rootdir'')];
       args = [''pvesm'', ''add'', ''sharedlvmthin'', sid]
         @ concat (map (\<lambda>(k, v). [''--'' @ k, py_str v])
             (filter (\<lambda>(k, v). k \<notin> {''type'', ''storage''}) cfg))
     in PDict [(''mode'', PStr mode), (''status'', PStr ''CREATE''), (''api_parameters'', PDict cfg),
               (''cli'', PStr (shell_join args))])"

definition plan :: "pyval \<Rightarrow> pyval \<Rightarrow> pyval res" where
  "plan request evidence =
     rbind (checks
       [need (is_dict request \<and> is_dict evidence) ''invalid input'',
        need (is_true (fld evidence ''quorate'') \<and> is_true (fld evidence ''inventory_complete''))
          ''quorum or inventory not proven'']) (\<lambda>_.
     rbind (plan_nodes request) (\<lambda>nodes.
     rbind (checks [need (is_dict (fld evidence ''members'')
              \<and> list_all (\<lambda>n. is_true (fld (fld evidence ''members'') n)) nodes) ''selected node unavailable'']) (\<lambda>_.
     rbind (plan_name ''VG'' (fld request ''vg'')) (\<lambda>vg.
     rbind (plan_aliases request) (\<lambda>aliases.
     rbind (plan_reserve request) (\<lambda>reserve.
     rbind (plan_group vg (fld evidence ''vg'')) (\<lambda>g.
     rbind (checks [need (is_dict (fld evidence ''node_evidence'')) ''peer evidence missing'']) (\<lambda>_.
     rbind (rmap (plan_peer (fld evidence ''vg'') (fld evidence ''node_evidence'')) nodes) (\<lambda>paths.
     rbind (checks [need (is_list (fld evidence ''storage_definitions'')) ''storage definitions unavailable'']) (\<lambda>_.
     rbind (check_each (plan_existing g (map snd aliases)) (list_of (fld evidence ''storage_definitions''))) (\<lambda>_.
     Inr (PDict [(''result'', PStr ''PREVIEW_ONLY''), (''vg_size_bytes'', PInt (pg_size g)),
       (''vg_free_bytes'', PInt (pg_free g)), (''expected_min_paths'', PInt (Min (set paths))),
       (''definitions'', PList (map (plan_definition g nodes (Min (set paths)) reserve)
          (sort_key fst aliases)))]))))))))))))"

text \<open>
  The command: one JSON document in, one out with the exit status. Decoding is the library's
  (\<open>stdin\<close>), its rejection a \<^verbatim>\<open>ValueError\<close>. The exceptions the command does not catch end it with
  a traceback; the texts of built-in type errors are the interpreter's and are not modelled.
\<close>

definition plan_main :: "pyval res \<Rightarrow> (pyval \<times> nat) res" where
  "plan_main stdin =
     (let refused = (\<lambda>msg. Inr (PDict [(''result'', PStr ''REFUSED''), (''reason'', PStr msg)], 1)) in
      case rbind stdin (\<lambda>data. rbind (pysub data ''request'') (\<lambda>q. rbind (pysub data ''evidence'') (plan q))) of
        Inr out \<Rightarrow> Inr (out, 0)
      | Inl (Refusal msg) \<Rightarrow> refused msg
      | Inl (KeyError k) \<Rightarrow> refused (sq # k @ [sq])
      | Inl (TypeError msg) \<Rightarrow> refused msg
      | Inl (ValueError msg) \<Rightarrow> refused msg
      | Inl e \<Rightarrow> Inl e)"

section \<open>The parts of an accepted plan\<close>

lemma plan_nodes_Inr:
  assumes "plan_nodes q = Inr ns"
  shows "\<exists>ss. fld q ''nodes'' = PList (map PStr ss) \<and> distinct ss \<and> ss \<noteq> [] \<and> (\<forall>s \<in> set ss. name_re s)
           \<and> ns = sort ss"
proof -
  from assms obtain ss where ss: "fld q ''nodes'' = PList (map PStr ss)" "distinct ss" "ss \<noteq> []"
    and r: "rbind (rmap (plan_name ''node'') (map PStr ss)) (\<lambda>ns. Inr (sort ns)) = Inr ns"
    by (auto simp: plan_nodes_def is_list_iff list_all_is_str check_simps)
  from r obtain ts where ts: "rmap (plan_name ''node'') (map PStr ss) = Inr ts" "ns = sort ts"
    by (auto elim: rbindE)
  have "ts = ss \<and> (\<forall>s \<in> set ss. name_re s)"
    using ts(1) unfolding rmap_Inr plan_name_Inr
    by (induction ss arbitrary: ts) (auto simp: list_all2_Cons1)
  with ss ts(2) show ?thesis by blast
qed

lemma plan_nodes_ok:
  assumes "plan_nodes q = Inr ns"
  shows "sorted_wrt (<) ns" "ns \<noteq> []" "set ns = str_set (fld q ''nodes'')" "\<forall>n \<in> set ns. name_re n"
    "is_list (fld q ''nodes'')"
  using plan_nodes_Inr [OF assms]
  by (auto simp: strict_sorted_iff simp flip: set_empty)

lemma plan_aliases_ok:
  assumes "plan_aliases q = Inr as"
  shows "items (fld q ''aliases'') = map (\<lambda>(m, s). (m, PStr s)) as" "as \<noteq> []"
    "fst ` set as \<subseteq> {''eager'', ''lazy''}" "distinct (map snd as)" "\<forall>s \<in> snd ` set as. name_re s"
proof -
  from assms obtain u where
    c: "items (fld q ''aliases'') \<noteq> []" "set (keys (fld q ''aliases'')) \<subseteq> {''eager'', ''lazy''}"
    and m: "rmap (\<lambda>(m, sid). rbind (plan_name ''storage ID'' sid) (\<lambda>s. Inr (m, s)))
              (items (fld q ''aliases'')) = Inr as" and d: "distinct (map snd as)"
    by (auto simp: plan_aliases_def check_simps elim!: rbindE)
  from m have *: "items (fld q ''aliases'') = map (\<lambda>(m, s). (m, PStr s)) as \<and> (\<forall>s \<in> snd ` set as. name_re s)"
    unfolding rmap_Inr
  proof (induction rule: list_all2_induct)
    case (Cons x xs y ys)
    then show ?case by (cases x) (auto simp: rbind_Inr plan_name_Inr)
  qed simp
  show "items (fld q ''aliases'') = map (\<lambda>(m, s). (m, PStr s)) as" "\<forall>s \<in> snd ` set as. name_re s"
    "distinct (map snd as)" using * d by auto
  show "as \<noteq> []" using c(1) * by auto
  show "fst ` set as \<subseteq> {''eager'', ''lazy''}" using c(2) * by (force simp: keys_def)
qed

lemma plan_group_ok:
  assumes "plan_group vg e = Inr g"
  shows "pg_vg g = vg" "fld e ''name'' = PStr vg" "fld e ''vg_uuid'' = PStr (pg_vg_uuid g)"
    "fld e ''pv_uuid'' = PStr (pg_pv_uuid g)" "fld e ''wwid'' = PStr (pg_wwid g)"
    "fld e ''size_bytes'' = PInt (pg_size g)" "fld e ''free_bytes'' = PInt (pg_free g)"
    "is_true (fld e ''dedicated'')" "lvm_uuid_re (pg_vg_uuid g)" "lvm_uuid_re (pg_pv_uuid g)"
    "wwid_re (pg_wwid g)" "0 < pg_size g" "0 \<le> pg_free g" "pg_free g \<le> pg_size g"
    "pyeq (fld e ''pv_count'') (PInt 1)"
  using assms
  by (auto simp: plan_group_def check_simps plan_uuid_Inr matches_iff is_int_iff elim!: rbindE)

lemma plan_peer_ok:
  assumes "plan_peer e peers n = Inr p"
  shows "fld (fld peers n) ''healthy_paths'' = PInt p" "1 \<le> p"
    "\<forall>k \<in> {''complete'', ''peer_ssh_verified'', ''mapper_verified''}. is_true (fld (fld peers n) k)"
    "\<forall>k \<in> {''vg_uuid'', ''pv_uuid'', ''wwid'', ''size_bytes''}. pyeq (fld (fld peers n) k) (fld e k)"
  using assms by (auto simp: plan_peer_def check_simps is_int_iff elim!: rbindE)

lemma plan_existing_ok:
  assumes "plan_existing g sids item = Inr ()"
  shows "\<exists>i. fld item ''id'' = PStr i \<and> i \<notin> set sids" "fld item ''vg_name'' \<noteq> PStr (pg_vg g)"
    "fld item ''vg_uuid'' \<noteq> PStr (pg_vg_uuid g)"
  using assms by (auto simp: plan_existing_def check_simps is_str_iff split: if_splits elim!: rbindE)

text \<open>What an accepted plan is made of\<close>

lemma plan_parts:
  assumes "plan q ev = Inr out"
  obtains ns vg as res g paths where
    "is_true (fld ev ''quorate'')" "is_true (fld ev ''inventory_complete'')"
    "plan_nodes q = Inr ns" "\<forall>n \<in> set ns. is_true (fld (fld ev ''members'') n)"
    "plan_name ''VG'' (fld q ''vg'') = Inr vg" "plan_aliases q = Inr as" "plan_reserve q = Inr res"
    "plan_group vg (fld ev ''vg'') = Inr g"
    "list_all2 (\<lambda>n p. plan_peer (fld ev ''vg'') (fld ev ''node_evidence'') n = Inr p) ns paths"
    "\<forall>item \<in> set (list_of (fld ev ''storage_definitions'')). plan_existing g (map snd as) item = Inr ()"
    "out = PDict [(''result'', PStr ''PREVIEW_ONLY''), (''vg_size_bytes'', PInt (pg_size g)),
       (''vg_free_bytes'', PInt (pg_free g)), (''expected_min_paths'', PInt (Min (set paths))),
       (''definitions'', PList (map (plan_definition g ns (Min (set paths)) res) (sort_key fst as)))]"
  using assms unfolding plan_def
  by (auto simp: checks_ok check_each_ok rmap_Inr list_all_iff elim!: rbindE)

section \<open>Safe words\<close>

text \<open>Every word of a definition's command is safe, so the shell reads back the words written.\<close>

definition safe_word :: "string \<Rightarrow> bool" where
  "safe_word w \<longleftrightarrow> w \<noteq> [] \<and> list_all shell_safe w"

lemma alnum_safe: "alnum c \<Longrightarrow> shell_safe c"
  by (simp add: shell_safe_def)

lemma digit_safe: "digit c \<Longrightarrow> shell_safe c"
  by (simp add: shell_safe_def alnum_def)

lemma name_char_safe: "name_char c \<Longrightarrow> shell_safe c"
  by (auto simp: name_char_def shell_safe_def)

lemma name_re_safe: "name_re s \<Longrightarrow> safe_word s"
  by (cases s)
     (auto simp: name_re_def head_tail_def safe_word_def list_all_iff alnum_safe name_char_safe)

lemma fits_safe: "fits rs s \<Longrightarrow> list_all (\<lambda>(n, p). \<forall>c. p c \<longrightarrow> shell_safe c) rs \<Longrightarrow> list_all shell_safe s"
proof (induction rs s rule: fits.induct)
  case (2 n p rs s)
  then have "list_all shell_safe (take n s @ drop n s)"
    unfolding list_all_append by (auto simp: list_all_iff)
  then show ?case by simp
qed simp

lemma lvm_uuid_safe: "lvm_uuid_re s \<Longrightarrow> safe_word s"
proof -
  assume a: "lvm_uuid_re s"
  then have "list_all shell_safe s"
    unfolding lvm_uuid_re_def by (rule fits_safe) (auto simp: alnum_safe dash_def shell_safe_def)
  moreover have "s \<noteq> []" using a by (auto simp: lvm_uuid_re_def)
  ultimately show ?thesis by (simp add: safe_word_def)
qed

lemma wwid_safe: "wwid_re s \<Longrightarrow> safe_word s"
proof -
  assume a: "wwid_re s"
  have "shell_safe c" if h: "lower_hex c \<or> CHR ''A'' \<le> c \<and> c \<le> CHR ''F''" for c
  proof -
    have "alnum c" using h
    proof (elim disjE conjE)
      assume "lower_hex c"
      then show ?thesis
        by (auto simp: lower_hex_def alnum_def digit_def lower_def elim: order_trans)
    next
      assume "CHR ''A'' \<le> c" "c \<le> CHR ''F''"
      moreover from this(2) have "c \<le> CHR ''Z''" by (rule order_trans) simp
      ultimately show ?thesis by (simp add: alnum_def)
    qed
    then show ?thesis by (rule alnum_safe)
  qed
  with a show ?thesis by (auto simp: wwid_re_def safe_word_def list_all_iff)
qed

lemma int_safe: "0 \<le> n \<Longrightarrow> safe_word (int_digits n)"
  using nat_digits_ok [of "nat n"] by (auto simp: int_digits_def safe_word_def list_all_iff digit_safe)

lemma join_safe: "ws \<noteq> [] \<Longrightarrow> \<forall>w \<in> set ws. safe_word w \<Longrightarrow> safe_word (join_with '','' ws)"
  by (induction "'',''" ws rule: join_with.induct) (auto simp: safe_word_def shell_safe_def)

lemma shell_join_words:
  assumes "ws \<noteq> []" and "\<forall>w \<in> set ws. safe_word w"
  shows "split_on CHR '' '' (shell_join ws) = ws"
proof -
  have "map shell_quote ws = ws"
    using assms(2) by (intro map_idI) (auto simp: shell_quote_def safe_word_def)
  moreover have "\<not> shell_safe CHR '' ''" by (simp add: shell_safe_def regex_eval)
  then have "\<forall>w \<in> set ws. CHR '' '' \<notin> set w" using assms(2) by (auto simp: safe_word_def list_all_iff)
  ultimately show ?thesis using assms(1) by (simp add: shell_join_def split_join)
qed

text \<open>The command of one definition\<close>

definition plan_argv :: "pyval \<Rightarrow> string list" where
  "plan_argv cfg = [''pvesm'', ''add'', ''sharedlvmthin'', str_of (fld cfg ''storage'')]
     @ concat (map (\<lambda>(k, v). [''--'' @ k, py_str v])
         (filter (\<lambda>(k, v). k \<notin> {''type'', ''storage''}) (items cfg)))"

lemma plan_definition_cli:
  assumes "safe_word sid" "safe_word (pg_vg g)" "safe_word (pg_vg_uuid g)" "safe_word (pg_pv_uuid g)"
    "safe_word (pg_wwid g)" "0 \<le> mp" "0 \<le> res" "safe_word (join_with '','' ns)"
  assumes d_def: "d = plan_definition g ns mp res (m, sid)"
  shows "split_on CHR '' '' (str_of (fld d ''cli'')) = plan_argv (fld d ''api_parameters'')"
    "\<forall>w \<in> set (plan_argv (fld d ''api_parameters'')). safe_word w"
proof -
  have lit: "safe_word w" if "w \<in> {''pvesm'', ''add'', ''sharedlvmthin'', ''--slt-vgname'', ''--slt-allocation-mode'',
      ''thick-generations'', ''thick-generations-lazy'', ''--slt-vg-layout'', ''isolated'', ''--slt-expected-vg-uuid'',
      ''--slt-expected-pv-uuid'', ''--slt-expected-wwid'', ''--slt-expected-min-paths'', ''--slt-vg-reserve-percent'',
      ''--nodes'', ''--shared'', ''--content'', ''images,rootdir''}" for w
    using that by (elim insertE emptyE) (simp_all add: safe_word_def shell_safe_def regex_eval)
  have one: "safe_word (int_digits 1)" by (rule int_safe) simp
  show safe: "\<forall>w \<in> set (plan_argv (fld d ''api_parameters'')). safe_word w"
    using assms(1-8) one by (simp add: d_def plan_definition_def plan_argv_def Let_def lit int_safe)
  have "fld d ''cli'' = PStr (shell_join (plan_argv (fld d ''api_parameters'')))"
    by (simp add: d_def plan_definition_def plan_argv_def Let_def)
  moreover have "plan_argv (fld d ''api_parameters'') \<noteq> []" by (simp add: plan_argv_def)
  ultimately show "split_on CHR '' '' (str_of (fld d ''cli'')) = plan_argv (fld d ''api_parameters'')"
    using safe by (simp add: shell_join_words)
qed

section \<open>Properties\<close>

lemma insort_map_vals:
  "insort_key fst (m, f s) (map (\<lambda>(m, s). (m, f s)) as) = map (\<lambda>(m, s). (m, f s)) (insort_key fst (m, s) as)"
  by (induction as) auto

lemma sort_map_vals:
  "sort_key fst (map (\<lambda>(m, s). (m, f s)) as) = map (\<lambda>(m, s). (m, f s)) (sort_key fst as)"
  by (induction as) (auto simp: insort_map_vals)

lemma rel_set: "list_all2 P xs ys \<Longrightarrow> (\<forall>x \<in> set xs. \<exists>y \<in> set ys. P x y) \<and> (\<forall>y \<in> set ys. \<exists>x \<in> set xs. P x y)"
  by (induction rule: list_all2_induct) auto

text \<open>C21: a preview is backed by the evidence. Quorum and a complete inventory are asserted; every
  selected node is a member whose own evidence is complete, authenticated, names the same volume
  group, physical volume, WWID and size, and reports at least the advertised number of healthy
  paths, which some node attains; and no existing storage definition has a requested storage ID,
  the same volume group name or the same volume group UUID.\<close>

theorem plan_preview_backed:
  assumes "plan q ev = Inr out"
  shows "is_true (fld ev ''quorate'') \<and> is_true (fld ev ''inventory_complete'') \<and>
    (\<forall>n \<in> str_set (fld q ''nodes'').
       is_true (fld (fld ev ''members'') n) \<and>
       (\<forall>k \<in> {''complete'', ''peer_ssh_verified'', ''mapper_verified''}.
          is_true (fld (fld (fld ev ''node_evidence'') n) k)) \<and>
       (\<forall>k \<in> {''vg_uuid'', ''pv_uuid'', ''wwid'', ''size_bytes''}.
          pyeq (fld (fld (fld ev ''node_evidence'') n) k) (fld (fld ev ''vg'') k)) \<and>
       (\<exists>p. fld (fld (fld ev ''node_evidence'') n) ''healthy_paths'' = PInt p \<and>
          1 \<le> int_of (fld out ''expected_min_paths'') \<and> int_of (fld out ''expected_min_paths'') \<le> p)) \<and>
    (\<exists>n \<in> str_set (fld q ''nodes'').
       fld (fld (fld ev ''node_evidence'') n) ''healthy_paths'' = fld out ''expected_min_paths'') \<and>
    (\<forall>item \<in> set (list_of (fld ev ''storage_definitions'')).
       (\<exists>i. fld item ''id'' = PStr i \<and> PStr i \<notin> snd ` set (items (fld q ''aliases''))) \<and>
       fld item ''vg_name'' \<noteq> fld q ''vg'' \<and> fld item ''vg_uuid'' \<noteq> fld (fld ev ''vg'') ''vg_uuid'')"
proof -
  obtain ns vg as res g paths where p: "is_true (fld ev ''quorate'')" "is_true (fld ev ''inventory_complete'')"
    "plan_nodes q = Inr ns" "\<forall>n \<in> set ns. is_true (fld (fld ev ''members'') n)"
    "plan_name ''VG'' (fld q ''vg'') = Inr vg" "plan_aliases q = Inr as" "plan_reserve q = Inr res"
    "plan_group vg (fld ev ''vg'') = Inr g"
    "list_all2 (\<lambda>n p. plan_peer (fld ev ''vg'') (fld ev ''node_evidence'') n = Inr p) ns paths"
    "\<forall>item \<in> set (list_of (fld ev ''storage_definitions'')). plan_existing g (map snd as) item = Inr ()"
    "out = PDict [(''result'', PStr ''PREVIEW_ONLY''), (''vg_size_bytes'', PInt (pg_size g)),
       (''vg_free_bytes'', PInt (pg_free g)), (''expected_min_paths'', PInt (Min (set paths))),
       (''definitions'', PList (map (plan_definition g ns (Min (set paths)) res) (sort_key fst as)))]"
    using assms by (rule plan_parts)
  have mp: "fld out ''expected_min_paths'' = PInt (Min (set paths))" using p(11) by simp
  note n = plan_nodes_ok [OF p(3)] and a = plan_aliases_ok [OF p(6)] and g = plan_group_ok [OF p(8)]
  have vg: "fld q ''vg'' = PStr (pg_vg g)" using p(5) g(1) by (simp add: plan_name_Inr)
  note rel = rel_set [OF p(9)]
  have "paths \<noteq> []" using p(9) n(2) by auto
  then have m: "Min (set paths) \<in> set paths" by simp
  have node: "is_true (fld (fld ev ''members'') n)"
    "\<forall>k \<in> {''complete'', ''peer_ssh_verified'', ''mapper_verified''}.
       is_true (fld (fld (fld ev ''node_evidence'') n) k)"
    "\<forall>k \<in> {''vg_uuid'', ''pv_uuid'', ''wwid'', ''size_bytes''}.
       pyeq (fld (fld (fld ev ''node_evidence'') n) k) (fld (fld ev ''vg'') k)"
    "\<exists>p. fld (fld (fld ev ''node_evidence'') n) ''healthy_paths'' = PInt p \<and>
       1 \<le> Min (set paths) \<and> Min (set paths) \<le> p" if "n \<in> set ns" for n
  proof -
    from that rel obtain p where q: "p \<in> set paths"
      "plan_peer (fld ev ''vg'') (fld ev ''node_evidence'') n = Inr p" by blast
    from m rel obtain n' where "plan_peer (fld ev ''vg'') (fld ev ''node_evidence'') n' = Inr (Min (set paths))"
      by blast
    then have "1 \<le> Min (set paths)" by (rule plan_peer_ok(2))
    with q show "\<exists>p. fld (fld (fld ev ''node_evidence'') n) ''healthy_paths'' = PInt p \<and>
        1 \<le> Min (set paths) \<and> Min (set paths) \<le> p"
      using plan_peer_ok(1) [OF q(2)] by auto
  qed (use that p(4) rel plan_peer_ok(3,4) in blast)+
  have att: "\<exists>n \<in> set ns. fld (fld (fld ev ''node_evidence'') n) ''healthy_paths'' = PInt (Min (set paths))"
    using m rel plan_peer_ok(1) by blast
  have sids: "snd ` set (items (fld q ''aliases'')) = PStr ` snd ` set as"
    unfolding a(1) by (force simp: image_iff)
  have ex: "(\<exists>i. fld item ''id'' = PStr i \<and> PStr i \<notin> snd ` set (items (fld q ''aliases''))) \<and>
      fld item ''vg_name'' \<noteq> fld q ''vg'' \<and> fld item ''vg_uuid'' \<noteq> fld (fld ev ''vg'') ''vg_uuid''"
    if "item \<in> set (list_of (fld ev ''storage_definitions''))" for item
  proof -
    have "plan_existing g (map snd as) item = Inr ()" using p(10) that by blast
    from plan_existing_ok [OF this] show ?thesis unfolding sids vg g(3) by auto
  qed
  show ?thesis using p(1,2) node att ex unfolding mp int_of.simps n(3) [symmetric] by blast
qed

text \<open>the previewed definitions are exactly the requested ones, one per allocation mode in
  order of the modes, each pinned to the volume group of the evidence, with the sorted node list
  and a reserve of 0 to 50 percent; and the command shown for a definition, split at spaces, is
  the argument list of its parameters, every word free of characters the shell interprets.\<close>

theorem plan_definitions_exact:
  assumes "plan q ev = Inr out"
  shows "\<exists>ds. fld out ''definitions'' = PList ds \<and>
    map (\<lambda>d. (fld d ''mode'', fld (fld d ''api_parameters'') ''storage'')) ds
      = map (\<lambda>(m, s). (PStr m, s)) (sort_key fst (items (fld q ''aliases''))) \<and>
    (\<forall>d \<in> set ds.
       (let cfg = fld d ''api_parameters''; argv = split_on CHR '' '' (str_of (fld d ''cli'')) in
        fld cfg ''slt-vgname'' = fld q ''vg'' \<and>
        fld cfg ''slt-expected-vg-uuid'' = fld (fld ev ''vg'') ''vg_uuid'' \<and>
        fld cfg ''slt-expected-pv-uuid'' = fld (fld ev ''vg'') ''pv_uuid'' \<and>
        fld cfg ''slt-expected-wwid'' = fld (fld ev ''vg'') ''wwid'' \<and>
        fld cfg ''slt-expected-min-paths'' = fld out ''expected_min_paths'' \<and>
        set (split_on CHR '','' (str_of (fld cfg ''nodes''))) = str_set (fld q ''nodes'') \<and>
        0 \<le> int_of (fld cfg ''slt-vg-reserve-percent'') \<and> int_of (fld cfg ''slt-vg-reserve-percent'') \<le> 50 \<and>
        argv = plan_argv cfg \<and>
        (\<forall>w \<in> set argv. w \<noteq> [] \<and> list_all shell_safe w)))"
proof -
  obtain ns vg as res g paths where p: "is_true (fld ev ''quorate'')" "is_true (fld ev ''inventory_complete'')"
    "plan_nodes q = Inr ns" "\<forall>n \<in> set ns. is_true (fld (fld ev ''members'') n)"
    "plan_name ''VG'' (fld q ''vg'') = Inr vg" "plan_aliases q = Inr as" "plan_reserve q = Inr res"
    "plan_group vg (fld ev ''vg'') = Inr g"
    "list_all2 (\<lambda>n p. plan_peer (fld ev ''vg'') (fld ev ''node_evidence'') n = Inr p) ns paths"
    "\<forall>item \<in> set (list_of (fld ev ''storage_definitions'')). plan_existing g (map snd as) item = Inr ()"
    "out = PDict [(''result'', PStr ''PREVIEW_ONLY''), (''vg_size_bytes'', PInt (pg_size g)),
       (''vg_free_bytes'', PInt (pg_free g)), (''expected_min_paths'', PInt (Min (set paths))),
       (''definitions'', PList (map (plan_definition g ns (Min (set paths)) res) (sort_key fst as)))]"
    using assms by (rule plan_parts)
  define mp where "mp = Min (set paths)"
  define ds where "ds = map (plan_definition g ns mp res) (sort_key fst as)"
  have out: "fld out ''definitions'' = PList ds" "fld out ''expected_min_paths'' = PInt mp"
    using p(11) by (simp_all add: ds_def mp_def)
  note n = plan_nodes_ok [OF p(3)] and a = plan_aliases_ok [OF p(6)] and g = plan_group_ok [OF p(8)]
  have vg: "fld q ''vg'' = PStr (pg_vg g)" "name_re (pg_vg g)" using p(5) g(1) by (simp_all add: plan_name_Inr)
  have "paths \<noteq> []" using p(9) n(2) by auto
  then have "mp \<in> set paths" by (simp add: mp_def)
  then have mp: "0 \<le> mp" using rel_set [OF p(9)] plan_peer_ok(2) by force
  have res: "0 \<le> res" "res \<le> 50" using p(7) by (auto simp: plan_reserve_def check_simps)
  have nodes: "safe_word (join_with '','' ns)" "split_on CHR '','' (join_with '','' ns) = ns"
  proof -
    have "\<forall>n \<in> set ns. safe_word n" using n(4) name_re_safe by blast
    with n(2) show "safe_word (join_with '','' ns)" by (rule join_safe)
    have "CHR '','' \<notin> set n" if "name_re n" for n
      using that by (cases n) (auto simp: name_re_def head_tail_def list_all_iff name_char_def regex_eval)
    with n(2,4) show "split_on CHR '','' (join_with '','' ns) = ns" by (intro split_join) auto
  qed
  have modes: "map (\<lambda>d. (fld d ''mode'', fld (fld d ''api_parameters'') ''storage'')) ds
      = map (\<lambda>(m, s). (PStr m, s)) (sort_key fst (items (fld q ''aliases'')))"
    unfolding ds_def a(1) sort_map_vals by (simp add: plan_definition_def split_beta)
  have cli: "split_on CHR '' '' (str_of (fld d ''cli'')) = plan_argv (fld d ''api_parameters'')"
    "\<forall>w \<in> set (plan_argv (fld d ''api_parameters'')). safe_word w" if "d \<in> set ds" for d
  proof -
    from that obtain m sid where d: "d = plan_definition g ns mp res (m, sid)" "(m, sid) \<in> set as"
      by (auto simp: ds_def)
    then have "safe_word sid" using a(5) name_re_safe by force
    moreover have "safe_word (pg_vg g)" using vg(2) by (rule name_re_safe)
    ultimately show "split_on CHR '' '' (str_of (fld d ''cli'')) = plan_argv (fld d ''api_parameters'')"
      "\<forall>w \<in> set (plan_argv (fld d ''api_parameters'')). safe_word w"
      using plan_definition_cli [OF _ _ lvm_uuid_safe [OF g(9)] lvm_uuid_safe [OF g(10)] wwid_safe [OF g(11)]
          mp res(1) nodes(1) d(1)] by simp_all
  qed
  have fields: "fld cfg ''slt-vgname'' = fld q ''vg'' \<and>
        fld cfg ''slt-expected-vg-uuid'' = fld (fld ev ''vg'') ''vg_uuid'' \<and>
        fld cfg ''slt-expected-pv-uuid'' = fld (fld ev ''vg'') ''pv_uuid'' \<and>
        fld cfg ''slt-expected-wwid'' = fld (fld ev ''vg'') ''wwid'' \<and>
        fld cfg ''slt-expected-min-paths'' = fld out ''expected_min_paths'' \<and>
        set (split_on CHR '','' (str_of (fld cfg ''nodes''))) = str_set (fld q ''nodes'') \<and>
        0 \<le> int_of (fld cfg ''slt-vg-reserve-percent'') \<and> int_of (fld cfg ''slt-vg-reserve-percent'') \<le> 50"
    if "d \<in> set ds" "cfg = fld d ''api_parameters''" for d cfg
  proof -
    from that obtain m sid where d: "d = plan_definition g ns mp res (m, sid)" by (auto simp: ds_def)
    show ?thesis
      unfolding that(2) d using vg(1) g(3-5) out(2) nodes(2) n(3) res
      by (simp add: plan_definition_def Let_def)
  qed
  show ?thesis
  proof (intro exI conjI ballI)
    show "fld out ''definitions'' = PList ds" by (rule out(1))
    fix d assume d: "d \<in> set ds"
    show "let cfg = fld d ''api_parameters''; argv = split_on CHR '' '' (str_of (fld d ''cli'')) in
        fld cfg ''slt-vgname'' = fld q ''vg'' \<and>
        fld cfg ''slt-expected-vg-uuid'' = fld (fld ev ''vg'') ''vg_uuid'' \<and>
        fld cfg ''slt-expected-pv-uuid'' = fld (fld ev ''vg'') ''pv_uuid'' \<and>
        fld cfg ''slt-expected-wwid'' = fld (fld ev ''vg'') ''wwid'' \<and>
        fld cfg ''slt-expected-min-paths'' = fld out ''expected_min_paths'' \<and>
        set (split_on CHR '','' (str_of (fld cfg ''nodes''))) = str_set (fld q ''nodes'') \<and>
        0 \<le> int_of (fld cfg ''slt-vg-reserve-percent'') \<and> int_of (fld cfg ''slt-vg-reserve-percent'') \<le> 50 \<and>
        argv = plan_argv cfg \<and> (\<forall>w \<in> set argv. w \<noteq> [] \<and> list_all shell_safe w)"
      using fields [OF d refl] cli [OF d] unfolding Let_def by (simp add: safe_word_def)
  qed (rule modes)
qed

section \<open>Witnesses\<close>

definition demo_uuid :: string where "demo_uuid = ''AbCdEf-0123-4567-89Ab-CdEf-0123-456789''"
definition demo_pv :: string where "demo_pv = ''Zbcdef-0123-4567-89ab-cdef-0123-456789''"
definition demo_wwid :: string where "demo_wwid = ''3600a098038303053''"

definition demo_peer :: "int \<Rightarrow> pyval" where
  "demo_peer paths = PDict [(''complete'', PBool True), (''peer_ssh_verified'', PBool True),
     (''vg_uuid'', PStr demo_uuid), (''pv_uuid'', PStr demo_pv), (''wwid'', PStr demo_wwid),
     (''size_bytes'', PInt 1000), (''healthy_paths'', PInt paths), (''mapper_verified'', PBool True)]"

definition demo_request :: pyval where
  "demo_request = PDict [(''nodes'', PList [PStr ''pve2'', PStr ''pve1'']), (''vg'', PStr ''vg_san''),
     (''aliases'', PDict [(''lazy'', PStr ''san-lazy''), (''eager'', PStr ''san'')])]"

definition demo_evidence :: pyval where
  "demo_evidence = PDict [(''quorate'', PBool True), (''inventory_complete'', PBool True),
     (''members'', PDict [(''pve1'', PBool True), (''pve2'', PBool True), (''pve3'', PBool False)]),
     (''vg'', PDict [(''name'', PStr ''vg_san''), (''pv_count'', PInt 1), (''vg_uuid'', PStr demo_uuid),
       (''pv_uuid'', PStr demo_pv), (''wwid'', PStr demo_wwid), (''size_bytes'', PInt 1000),
       (''free_bytes'', PInt 900), (''dedicated'', PBool True)]),
     (''node_evidence'', PDict [(''pve1'', demo_peer 4), (''pve2'', demo_peer 2)]),
     (''storage_definitions'', PList [PDict [(''id'', PStr ''local''), (''type'', PStr ''dir'')]])]"

lemma demo_plan_ok: "\<exists>out. plan demo_request demo_evidence = Inr out"
proof -
  have "\<not> isl (plan demo_request demo_evidence)" by code_simp
  then show ?thesis by (cases "plan demo_request demo_evidence") simp_all
qed

lemma plan_preview_backed_witness:
  "\<exists>out. plan demo_request demo_evidence = Inr out \<and> 1 \<le> int_of (fld out ''expected_min_paths'')
     \<and> int_of (fld out ''expected_min_paths'') \<le> 2"
proof -
  from demo_plan_ok obtain out where out: "plan demo_request demo_evidence = Inr out" by blast
  from plan_preview_backed [OF out]
  have "\<exists>p. fld (fld (fld demo_evidence ''node_evidence'') ''pve2'') ''healthy_paths'' = PInt p
      \<and> 1 \<le> int_of (fld out ''expected_min_paths'') \<and> int_of (fld out ''expected_min_paths'') \<le> p"
    by (simp add: demo_request_def)
  with out show ?thesis by (auto simp: demo_evidence_def demo_peer_def)
qed

lemma plan_definitions_exact_witness:
  "\<exists>out d1 d2. plan demo_request demo_evidence = Inr out \<and> fld out ''definitions'' = PList [d1, d2]
     \<and> fld d1 ''mode'' = PStr ''eager'' \<and> fld d2 ''mode'' = PStr ''lazy''"
proof -
  from demo_plan_ok obtain out where out: "plan demo_request demo_evidence = Inr out" by blast
  have "sort_key fst (items (fld demo_request ''aliases'')) = [(''eager'', PStr ''san''), (''lazy'', PStr ''san-lazy'')]"
    by code_simp
  with plan_definitions_exact [OF out] obtain ds where
    "fld out ''definitions'' = PList ds"
    "map (\<lambda>d. (fld d ''mode'', fld (fld d ''api_parameters'') ''storage'')) ds
       = [(PStr ''eager'', PStr ''san''), (PStr ''lazy'', PStr ''san-lazy'')]"
    by auto
  with out show ?thesis by (fastforce simp: map_eq_Cons_conv)
qed

end
