(* ===== verification/LazyGraph.thy ===== *)
theory LazyGraph
  imports PyText
begin

unbundle bit_operations_syntax

text \<open>
  The pure part of \<^verbatim>\<open>usr/libexec/pve-sharedlvmthin/sharedlvmthin_lazy_package_proof.py\<close>: the
  derivation of the device-mapper graph a Lazy volume must have (\<open>derive_backing_graph\<close>,
  \<open>derive_custom_graph\<close>) and the comparison of two observations with it (\<open>validate_graph\<close>).

  The anchor, the configuration and the backing rows are dicts, as the callers pass them (\<^verbatim>\<open>dict(backing[role])\<close>
  would also take a list of pairs, which is a refusal here); a refusal
  of the module is a \<^verbatim>\<open>ValueError\<close>. Floats are not modelled.
\<close>

section \<open>Regular expressions\<close>

definition digits1 :: "string \<Rightarrow> bool" where
  "digits1 s \<longleftrightarrow> s \<noteq> [] \<and> list_all digit s"

text \<open>\<^verbatim>\<open>[0-9]+:[0-9]+\<close>\<close>

definition devno_re :: "string \<Rightarrow> bool" where
  "devno_re s \<longleftrightarrow> (case split_on CHR '':'' s of [a, b] \<Rightarrow> digits1 a \<and> digits1 b | _ \<Rightarrow> False)"

text \<open>\<^verbatim>\<open>[A-Za-z0-9-]+\<close> with 32 characters that are not dashes\<close>

definition uuid32 :: "string \<Rightarrow> bool" where
  "uuid32 s \<longleftrightarrow> s \<noteq> [] \<and> list_all (\<lambda>c. alnum c \<or> dash c) s \<and> length (filter (\<lambda>c. \<not> dash c) s) = 32"

text \<open>\<^verbatim>\<open>[A-Za-z0-9+_.-]+\<close>\<close>

definition lvm_name_re :: "string \<Rightarrow> bool" where
  "lvm_name_re s \<longleftrightarrow> s \<noteq> [] \<and> list_all (\<lambda>c. name_char c \<or> c = CHR ''+'') s"

text \<open>\<^verbatim>\<open>(?:vm|base)-[0-9]+-disk-[0-9]+\<close>\<close>

definition volume_re :: "string \<Rightarrow> bool" where
  "volume_re s \<longleftrightarrow>
     (case split_on CHR ''-'' s of
        [a, b, c, d] \<Rightarrow> a \<in> {''vm'', ''base''} \<and> digits1 b \<and> c = ''disk'' \<and> digits1 d
      | _ \<Rightarrow> False)"

definition undash :: "string \<Rightarrow> string" where
  "undash s = filter (\<lambda>c. \<not> dash c) s"

text \<open>\<^verbatim>\<open>s.lower()\<close>\<close>

definition lower_char :: "char \<Rightarrow> char" where
  "lower_char c =
     (if (CHR ''A'' \<le> c \<and> c \<le> CHR ''Z'') \<or> (CHR 0xC0 \<le> c \<and> c \<le> CHR 0xDE \<and> c \<noteq> CHR 0xD7)
      then char_of (of_char c + (32 :: nat)) else c)"

text \<open>\<^verbatim>\<open>text.encode()\<close> of characters below 256\<close>

definition utf8 :: "string \<Rightarrow> string" where
  "utf8 s = concat (map (\<lambda>c. let n = (of_char c :: nat) in
     if n < 128 then [c] else [char_of (192 + n div 64), char_of (128 + n mod 64)]) s)"

definition vneed :: "bool \<Rightarrow> string \<Rightarrow> bool \<times> exc" where
  "vneed b msg = (b, ValueError msg)"

lemma fst_vneed [simp, check_simps]: "fst (vneed b msg) = b"
  by (simp add: vneed_def)

lemma checks_vneed:
  "checks (vneed b msg # cs) = (if b then checks cs else Inl (ValueError msg))"
  "checks [] = Inr ()"
  by (simp_all add: vneed_def checks.simps)

text \<open>\<^verbatim>\<open>v.get(k, d)\<close> of a dict\<close>

definition getd :: "pyval \<Rightarrow> string \<Rightarrow> pyval \<Rightarrow> pyval" where
  "getd v k d = (case map_of (items v) k of None \<Rightarrow> d | Some w \<Rightarrow> w)"

text \<open>\<^verbatim>\<open>int(v)\<close>\<close>

definition int_of_py :: "pyval \<Rightarrow> int res" where
  "int_of_py v =
     (case v of PStr s \<Rightarrow> py_int s | PBytes s \<Rightarrow> py_int s | PInt n \<Rightarrow> Inr n | PBool b \<Rightarrow> Inr (if b then 1 else 0)
      | _ \<Rightarrow> Inl (TypeError ''int() argument''))"

section \<open>The backing volumes\<close>

text \<open>\<^verbatim>\<open>re.escape(pv_path) + r"\(([0-9]+)\)"\<close>: the extent of a device field\<close>

definition dev_extent :: "string \<Rightarrow> string \<Rightarrow> nat option" where
  "dev_extent path s =
     (let r = drop (length path) s in
      if take (length path) s = path \<and> 2 \<le> length r \<and> hd r = CHR ''('' \<and> last r = CHR '')''
         \<and> digits1 (butlast (tl r))
      then Some (dec_value (butlast (tl r))) else None)"

type_synonym segment = "int \<times> int \<times> int"

definition seg_end :: "segment \<Rightarrow> int" where
  "seg_end x = fst x + fst (snd x)"

definition segment_row :: "string \<Rightarrow> string \<Rightarrow> int \<Rightarrow> int \<Rightarrow> int \<Rightarrow> string \<Rightarrow> segment res" where
  "segment_row lv_name pv_path pe_start extent pv_sectors line =
     (let f = map strip (split_on CHR ''|'' line) in
      rbind (checks [vneed (length f = 5 \<and> f ! 0 = lv_name \<and> f ! 1 = ''linear'' \<and> isdigit (f ! 2) \<and> isdigit (f ! 3))
               ''malformed or unsupported scoped LV segment'']) (\<lambda>_.
      case dev_extent pv_path (f ! 4) of
        None \<Rightarrow> Inl (ValueError ''LV segment does not use the pinned PV'')
      | Some n \<Rightarrow>
          rbind (py_int (f ! 2)) (\<lambda>start.
          rbind (py_int (f ! 3)) (\<lambda>len.
          let physical = pe_start + int n * extent in
          rbind (checks [vneed (len \<noteq> 0 \<and> start mod extent = 0 \<and> len mod extent = 0
                   \<and> physical + len \<le> pv_sectors) ''LV extent range is invalid'']) (\<lambda>_.
          Inr (start, len, physical))))))"

text \<open>The loop over the sorted rows: each starts where the previous one ended.\<close>

fun tile :: "int \<Rightarrow> segment list \<Rightarrow> int res" where
  "tile logical [] = Inr logical"
| "tile logical ((start, len, physical) # segs) =
     (if start \<noteq> logical then Inl (ValueError ''LV segments overlap or leave a gap'')
      else tile (logical + len) segs)"

definition segment_line :: "string \<Rightarrow> segment \<Rightarrow> string" where
  "segment_line devno = (\<lambda>(start, len, physical).
     int_digits start @ '' '' @ int_digits len @ '' linear '' @ devno @ '' '' @ int_digits physical)"

definition lvm_uuid_of :: "string \<Rightarrow> string \<Rightarrow> string" where
  "lvm_uuid_of vg lv = ''LVM-'' @ undash vg @ undash lv"

definition derive_backing_graph ::
    "string \<Rightarrow> string \<Rightarrow> pyval \<Rightarrow> pyval \<Rightarrow> string \<Rightarrow> pyval \<Rightarrow> pyval \<Rightarrow> pyval \<Rightarrow> pyval \<Rightarrow> pyval \<Rightarrow> pyval res" where
  "derive_backing_graph output lv_name vg_uuid lv_uuid pv_path pv_devno pe_start extent pv_sectors expected =
     rbind (checks [vneed (list_all (\<lambda>v. integer v 0) [pe_start, extent, pv_sectors, expected]
              \<and> int_of extent \<noteq> 0 \<and> int_of expected \<noteq> 0 \<and> int_of pe_start < int_of pv_sectors)
              ''invalid backing geometry'']) (\<lambda>_.
     rbind (fullmatch devno_re pv_devno) (\<lambda>ok.
     rbind (checks [vneed ok ''invalid pinned PV device number'']) (\<lambda>_.
     rbind (check_each (\<lambda>u. rbind (fullmatch uuid32 u) (\<lambda>ok. checks [vneed ok ''invalid scoped LVM UUID'']))
              [vg_uuid, lv_uuid]) (\<lambda>_.
     rbind (rmap (segment_row lv_name pv_path (int_of pe_start) (int_of extent) (int_of pv_sectors))
              (splitlines output)) (\<lambda>rows.
     let segs = sort_key (\<lambda>(s, l, p). [s, l, p]) rows in
     rbind (tile 0 segs) (\<lambda>logical.
     rbind (checks [vneed (logical = int_of expected) ''LV segment inventory does not cover authenticated size'']) (\<lambda>_.
     Inr (PDict [(''uuid'', PStr (lvm_uuid_of (str_of vg_uuid) (str_of lv_uuid))), (''readonly'', PBool False),
       (''table'', PStr (join_with [CHR 0x0A] (map (segment_line (str_of pv_devno)) segs))),
       (''deps'', PTuple [pv_devno])]))))))))"

section \<open>Segments tile the volume\<close>

lemma py_digit_not_space: "py_digit c \<Longrightarrow> \<not> space c \<and> c \<noteq> CHR ''-''"
proof (cases "digit c")
  case True
  then show ?thesis using digit_not_space digit_not_sign by blast
next
  case False
  moreover assume "py_digit c"
  ultimately have "c = CHR 0xB2 \<or> c = CHR 0xB3 \<or> c = CHR 0xB9" by (simp add: py_digit_def)
  then show ?thesis by (elim disjE) (simp_all add: space_def less_eq_char_def)
qed

lemma py_int_isdigit: "isdigit s \<Longrightarrow> py_int s = Inr n \<Longrightarrow> 0 \<le> n"
proof -
  assume d: "isdigit s" and n: "py_int s = Inr n"
  have "strip s = s" using d by (intro strip_id) (auto simp: isdigit_def list_all_iff py_digit_not_space)
  moreover have "hd s \<noteq> CHR ''-''" using d py_digit_not_space by (cases s) (auto simp: isdigit_def)
  ultimately show "0 \<le> n" using n by (auto simp: py_int_def Let_def split: if_splits)
qed

lemma segment_row_ok:
  assumes "segment_row lv path pe extent pvs line = Inr (s, l, p)"
  shows "0 \<le> s \<and> 0 < l \<and> s mod extent = 0 \<and> l mod extent = 0 \<and> p + l \<le> pvs \<and> (\<exists>n :: nat. p = pe + int n * extent)"
proof -
  let ?f = "map strip (split_on CHR ''|'' line)"
  obtain n where n: "dev_extent path (?f ! 4) = Some n"
    using assms by (auto simp: segment_row_def Let_def elim!: rbindE split: option.splits)
  from assms n have d: "isdigit (?f ! 2)" "isdigit (?f ! 3)" and v: "py_int (?f ! 2) = Inr s" "py_int (?f ! 3) = Inr l"
    and p: "p = pe + int n * extent" and c: "l \<noteq> 0" "s mod extent = 0" "l mod extent = 0" "p + l \<le> pvs"
    unfolding segment_row_def Let_def by (simp_all add: checks_ok rbind_Inr) auto
  from py_int_isdigit [OF d(1) v(1)] py_int_isdigit [OF d(2) v(2)] p c show ?thesis by auto
qed

lemma tile_cover:
  assumes "tile a segs = Inr b" and "\<forall>(s, l, p) \<in> set segs. 0 < l"
  shows "a \<le> b" "(\<Union>x \<in> set segs. {fst x..<seg_end x}) = {a..<b}"
    "sorted_wrt (\<lambda>x y. seg_end x \<le> fst y) segs"
    "\<forall>x \<in> set segs. a \<le> fst x \<and> seg_end x \<le> b"
proof -
  have "a \<le> b \<and> (\<Union>x \<in> set segs. {fst x..<seg_end x}) = {a..<b} \<and>
      sorted_wrt (\<lambda>x y. seg_end x \<le> fst y) segs \<and>
      (\<forall>x \<in> set segs. a \<le> fst x \<and> seg_end x \<le> b)"
    using assms
  proof (induction a segs rule: tile.induct)
    case (2 a start len physical segs)
    from 2 have s: "start = a" "tile (a + len) segs = Inr b" "0 < len" by (auto split: if_splits)
    from 2 s have IH: "a + len \<le> b" "(\<Union>x \<in> set segs. {fst x..<seg_end x}) = {a + len..<b}"
      "sorted_wrt (\<lambda>x y. seg_end x \<le> fst y) segs"
      "\<forall>x \<in> set segs. a + len \<le> fst x \<and> seg_end x \<le> b" by auto
    have "{a..<a + len} \<union> {a + len..<b} = {a..<b}" using s(3) IH(1) by auto
    with IH s show ?case by (auto simp: seg_end_def)
  qed auto
  then show "a \<le> b" "(\<Union>x \<in> set segs. {fst x..<seg_end x}) = {a..<b}"
    "sorted_wrt (\<lambda>x y. seg_end x \<le> fst y) segs"
    "\<forall>x \<in> set segs. a \<le> fst x \<and> seg_end x \<le> b" by blast+
qed

text \<open>C22: an accepted backing table comes from the segment rows of the sample, one row each; put in
  order they cover the sectors of the authenticated size exactly, without gap or overlap, and each
  lies on whole extents behind the start of the pinned physical volume and inside its size.\<close>

theorem backing_tiles:
  assumes "derive_backing_graph output lv vg_uuid lv_uuid path devno pe extent pvs expected = Inr row"
  shows "\<exists>segs. list_all2 (\<lambda>line seg. segment_row lv path (int_of pe) (int_of extent) (int_of pvs) line = Inr seg)
             (splitlines output) segs \<and>
    (let ordered = sort_key (\<lambda>(s, l, p). [s, l, p]) segs in
       fld row ''table'' = PStr (join_with [CHR 0x0A] (map (segment_line (str_of devno)) ordered)) \<and>
       (\<Union>x \<in> set ordered. {fst x..<seg_end x}) = {0..<int_of expected} \<and>
       sorted_wrt (\<lambda>x y. seg_end x \<le> fst y) ordered \<and>
       (\<forall>(s, l, p) \<in> set ordered. 0 < l \<and> s mod int_of extent = 0 \<and> l mod int_of extent = 0 \<and>
          int_of pe \<le> p \<and> (p - int_of pe) mod int_of extent = 0 \<and> p + l \<le> int_of pvs))"
proof -
  let ?row = "segment_row lv path (int_of pe) (int_of extent) (int_of pvs)"
  let ?sort = "sort_key (\<lambda>(s :: int, l :: int, p :: int). [s, l, p])"
  from assms obtain segs where geo: "0 \<le> int_of extent" and rows: "rmap ?row (splitlines output) = Inr segs"
    and t: "tile 0 (?sort segs) = Inr (int_of expected)"
    and tab: "fld row ''table'' = PStr (join_with [CHR 0x0A] (map (segment_line (str_of devno)) (?sort segs)))"
    unfolding derive_backing_graph_def Let_def
    by (auto simp: checks_ok integer_iff elim!: rbindE)
  from rows have all2: "list_all2 (\<lambda>line seg. ?row line = Inr seg) (splitlines output) segs" by (simp add: rmap_Inr)
  have each: "0 < l \<and> s mod int_of extent = 0 \<and> l mod int_of extent = 0 \<and> int_of pe \<le> p
      \<and> (p - int_of pe) mod int_of extent = 0 \<and> p + l \<le> int_of pvs"
    if m: "(s, l, p) \<in> set (?sort segs)" for s l p
  proof -
    from m all2 obtain line where "?row line = Inr (s, l, p)"
      by (fastforce simp: list_all2_conv_all_nth in_set_conv_nth)
    from segment_row_ok [OF this] geo show ?thesis by auto
  qed
  then have "\<forall>(s, l, p) \<in> set (?sort segs). 0 < l" by blast
  note tiles = tile_cover [OF t this]
  show ?thesis
    using all2 tab tiles(2,3) each unfolding Let_def by (intro exI [of _ segs] conjI) blast+
qed

section \<open>The custom maps\<close>

definition graph_roles :: "string list" where
  "graph_roles = [''data'', ''metadata'', ''zero'', ''clone'', ''front'']"

definition hydration :: "pyval \<Rightarrow> string \<Rightarrow> bool \<Rightarrow> int \<Rightarrow> int \<Rightarrow> int res" where
  "hydration cfg option explicit sectors region =
     (if explicit then int_of_py (getd cfg option (PInt 32))
      else Inr (if 128 \<le> region then max 1 (min 256 (sectors div region)) else 32))"

definition lazy_key :: "string \<Rightarrow> string \<Rightarrow> string" where
  "lazy_key vg_uuid vol = take 24 (sha256 (utf8 (map lower_char vg_uuid @ [CHR 0x00] @ vol)))"

definition anchor_geometry :: "pyval \<Rightarrow> (int \<times> int \<times> int) res" where
  "anchor_geometry anchor =
     (case rmap (\<lambda>k. rbind (pysub anchor k) int_of_py) [''bytes'', ''region'', ''publication''] of
        Inr [bytes, region, publication] \<Rightarrow> Inr (bytes, region, publication)
      | _ \<Rightarrow> Inl (ValueError ''invalid anchor geometry''))"

definition region_ok :: "int \<Rightarrow> bool" where
  "region_ok region \<longleftrightarrow> 8 \<le> region \<and> region \<le> 2097152 \<and> region AND (region - 1) = 0"

definition backing_check :: "pyval \<Rightarrow> pyval \<Rightarrow> string \<Rightarrow> string \<times> string \<Rightarrow> (string \<times> pyval) res" where
  "backing_check anchor backing vg_uuid = (\<lambda>(role, field).
     let lv_uuid = getd anchor field (PStr []); row = fld backing role in
     rbind (fullmatch uuid32 lv_uuid) (\<lambda>ok.
     rbind (checks [vneed ok ''missing authenticated backing UUID'',
        (is_dict row, TypeError ''not a mapping''),
        vneed (pyeq (fld row ''uuid'') (PStr (lvm_uuid_of vg_uuid (str_of lv_uuid))) \<and> is_false (fld row ''readonly''))
          ''backing LVM identity mismatch'']) (\<lambda>_. Inr (role, row))))"

definition clone_options :: "int \<Rightarrow> int \<Rightarrow> string" where
  "clone_options threshold batch =
     ''2 no_hydration no_discard_passdown 4 hydration_threshold '' @ int_digits threshold
     @ '' hydration_batch_size '' @ int_digits batch"

definition custom_rows ::
    "string \<Rightarrow> string \<Rightarrow> (string \<Rightarrow> string) \<Rightarrow> int \<Rightarrow> int \<Rightarrow> int \<Rightarrow> int \<Rightarrow> (string \<times> pyval) list" where
  "custom_rows tx key dev sectors region threshold batch =
     [(''zero'', PDict [(''uuid'', PStr (''SLT-TG6-ZERO-'' @ tx)), (''readonly'', PBool True),
        (''table'', PStr (''0 '' @ int_digits sectors @ '' zero'')), (''deps'', PTuple [])]),
      (''clone'', PDict [(''uuid'', PStr (''SLT-TG6-CLONE-'' @ tx)), (''readonly'', PBool False),
        (''table'', PStr (''0 '' @ int_digits sectors @ '' clone '' @ dev ''metadata'' @ '' '' @ dev ''data'' @ '' ''
           @ dev ''zero'' @ '' '' @ int_digits region @ '' '' @ clone_options threshold batch)),
        (''deps'', PTuple (map PStr (sort [dev ''data'', dev ''metadata'', dev ''zero'']))),
        (''hydration_threshold'', PInt threshold), (''hydration_batch_size'', PInt batch)]),
      (''front'', PDict [(''uuid'', PStr (''SLT-TG2-'' @ key)), (''readonly'', PBool False),
        (''table'', PStr (''0 '' @ int_digits sectors @ '' linear '' @ dev ''clone'' @ '' 0'')),
        (''deps'', PTuple [PStr (dev ''clone'')])])]"

definition derive_custom_graph ::
    "pyval \<Rightarrow> pyval \<Rightarrow> pyval \<Rightarrow> pyval \<Rightarrow> string \<Rightarrow> string \<Rightarrow> (pyval \<times> pyval) res" where
  "derive_custom_graph anchor cfg backing devnos node boot =
     (let vg_uuid = getd cfg ''slt-expected-vg-uuid'' (PStr []);
          tx = getd anchor ''tx'' (PStr []);
          volume = getd anchor ''vol'' (PStr []);
          dev = (\<lambda>role. str_of (fld devnos role));
          explicit = (has_key cfg ''slt-tg-hydration-threshold'' \<or> has_key cfg ''slt-tg-hydration-batch-size'') in
      rbind (checks
        [vneed (fld anchor ''v'' = PStr ''6'' \<and> fld anchor ''phase'' = PStr ''LAZY_ACTIVE''
                \<and> fld anchor ''owner_node'' = PStr node \<and> fld anchor ''owner_boot'' = PStr boot)
           ''active Lazy owner is not local current boot'',
         vneed (pyeq (fld cfg ''id'') (fld anchor ''sid'')) ''configuration is not the authenticated anchor owner alias'']) (\<lambda>_.
      rbind (fullmatch uuid32 vg_uuid) (\<lambda>ok.
      rbind (checks [vneed ok ''missing pinned VG UUID'']) (\<lambda>_.
      rbind (rand (fullmatch (hexn 32) tx) (fullmatch (hexn 32) (getd anchor ''owner_epoch'' (PStr [])))) (\<lambda>ok.
      rbind (checks [vneed ok ''invalid transaction or owner epoch'']) (\<lambda>_.
      rbind (fullmatch volume_re volume) (\<lambda>ok.
      rbind (checks [vneed ok ''invalid authenticated volume'']) (\<lambda>_.
      rbind (anchor_geometry anchor) (\<lambda>(bytes, region, publication).
      rbind (checks
        [vneed (512 \<le> bytes \<and> bytes mod 512 = 0 \<and> region_ok region \<and> 2 \<le> publication)
           ''invalid active anchor geometry/publication'',
         vneed (set (keys backing) = {''data'', ''metadata''} \<and> set (keys devnos) = set graph_roles)
           ''incomplete backing or device identity scope'',
         vneed (list_all (matches devno_re) (map snd (items devnos))
                \<and> card (set (map snd (items devnos))) = 5) ''ambiguous graph device numbers'']) (\<lambda>_.
      rbind (rmap (backing_check anchor backing (str_of vg_uuid))
               [(''data'', ''data_uuid''), (''metadata'', ''metadata_uuid'')]) (\<lambda>rows.
      rbind (hydration cfg ''slt-tg-hydration-threshold'' explicit 8192 region) (\<lambda>threshold.
      rbind (hydration cfg ''slt-tg-hydration-batch-size'' explicit 2048 region) (\<lambda>batch.
      rbind (checks [vneed (1 \<le> batch \<and> batch \<le> threshold \<and> threshold \<le> 256)
               ''invalid approved hydration tuning'']) (\<lambda>_.
      let key = lazy_key (str_of vg_uuid) (str_of volume) in
      Inr (PDict (rows @ custom_rows (str_of tx) key dev (bytes div 512) region threshold batch),
           PDict [(''zero'', PStr (''sltg-z-'' @ key)), (''clone'', PStr (''sltg-c-'' @ key)),
                  (''front'', PStr (''sltg-'' @ key))])))))))))))))))"

section \<open>Comparing observations\<close>

definition stable_fields :: "string list" where
  "stable_fields = [''uuid'', ''devno'', ''diskseq'', ''table'', ''deps'', ''readonly'', ''suspended'']"

definition matched_fields :: "string list" where
  "matched_fields = [''uuid'', ''table'', ''deps'', ''readonly'']"

definition guard_fields :: "string \<Rightarrow> string list" where
  "guard_fields name =
     (if name = ''front'' then [''discard_max_bytes'', ''discard_max_hw_bytes'', ''write_zeroes_max_bytes'']
      else if name = ''clone'' then [''discard_max_bytes'', ''write_zeroes_max_bytes''] else [])"

definition is_devno_tuple :: "pyval \<Rightarrow> bool" where
  "is_devno_tuple v \<longleftrightarrow> (case v of PTuple vs \<Rightarrow> list_all (matches devno_re) vs | _ \<Rightarrow> False)"

definition observation_checks :: "string \<Rightarrow> pyval \<Rightarrow> pyval \<Rightarrow> (bool \<times> exc) list" where
  "observation_checks name wanted observed =
     map (\<lambda>f. vneed (has_key observed f) (name @ '': missing '' @ f)) stable_fields
     @ [vneed (matches devno_re (fld observed ''devno'')) (name @ '': malformed device number''),
        vneed (integer (fld observed ''diskseq'') 1) (name @ '': missing disk sequence'')]
     @ map (\<lambda>f. vneed (pyeq (fld observed f) (fld wanted f)) (name @ '': '' @ f @ '' mismatch'')) matched_fields
     @ [vneed (is_bool (fld observed ''readonly'') \<and> is_bool (fld wanted ''readonly'')) (name @ '': ambiguous access mode''),
        vneed (is_devno_tuple (fld observed ''deps'')) (name @ '': malformed dependency set''),
        vneed (list_all (\<lambda>f. is_str (fld observed f) \<and> truthy (fld observed f)) [''uuid'', ''table''])
          (name @ '': missing mapper identity''),
        vneed (is_false (fld observed ''suspended'')) (name @ '': suspended or ambiguous mapper'')]
     @ map (\<lambda>f. vneed (fld observed f = PInt 0) (name @ '': '' @ f @ '' is not proven zero'')) (guard_fields name)"

definition row_checks :: "string \<Rightarrow> pyval \<Rightarrow> pyval \<Rightarrow> pyval \<Rightarrow> (bool \<times> exc) list" where
  "row_checks name wanted before after =
     [vneed (is_dict wanted \<and> is_dict before \<and> is_dict after) (name @ '': malformed graph row'')]
     @ map (\<lambda>f. vneed (has_key wanted f) (name @ '': missing expected '' @ f)) matched_fields
     @ observation_checks name wanted before @ observation_checks name wanted after
     @ [vneed (list_all (\<lambda>f. pyeq (fld before f) (fld after f)) stable_fields)
          (name @ '': graph identity changed during audit'')]"

text \<open>The status line of dm-clone: eight numbers, then the counted options and the mode\<close>

record clone_status =
  cs_size :: int
  cs_block :: int
  cs_used :: int
  cs_capacity :: int
  cs_chunk :: int
  cs_hydrated :: int
  cs_total :: int
  cs_hydrating :: int
  cs_tail :: "string list"

definition fraction :: "string \<Rightarrow> (nat \<times> nat) option" where
  "fraction s =
     (case split_on CHR ''/'' s of
        [a, b] \<Rightarrow> if digits1 a \<and> digits1 b then Some (dec_value a, dec_value b) else None
      | _ \<Rightarrow> None)"

definition parse_status :: "string \<Rightarrow> clone_status option" where
  "parse_status s =
     (case split_on CHR '' '' s of
        zero # sectors # clone # block # use # chunk # hyd # active # r # rest \<Rightarrow>
          let tail = join_with '' '' (r # rest) in
          if zero = ''0'' \<and> clone = ''clone'' \<and> list_all digits1 [sectors, block, chunk, active]
             \<and> tail \<noteq> [] \<and> CHR 0x0A \<notin> set tail
          then (case (fraction use, fraction hyd) of
                  (Some (used, capacity), Some (hydrated, regions)) \<Rightarrow>
                    Some \<lparr>cs_size = int (dec_value sectors), cs_block = int (dec_value block),
                      cs_used = int used, cs_capacity = int capacity, cs_chunk = int (dec_value chunk),
                      cs_hydrated = int hydrated, cs_total = int regions,
                      cs_hydrating = int (dec_value active), cs_tail = words tail\<rparr>
                | _ \<Rightarrow> None)
          else None
      | _ \<Rightarrow> None)"

definition status_options_ok :: "string list \<Rightarrow> bool" where
  "status_options_ok t \<longleftrightarrow>
     length t = 9 \<and> take 4 t = [''2'', ''no_hydration'', ''no_discard_passdown'', ''4'']
     \<and> t ! 4 = ''hydration_threshold'' \<and> t ! 6 = ''hydration_batch_size''
     \<and> isdigit (t ! 5) \<and> isdigit (t ! 7) \<and> t ! 8 = ''rw''"

definition status_healthy :: "clone_status \<Rightarrow> int \<Rightarrow> int \<Rightarrow> bool" where
  "status_healthy c sectors region \<longleftrightarrow>
     cs_size c = sectors \<and> cs_chunk c = region \<and> cs_block c = 8 \<and> cs_capacity c \<noteq> 0
     \<and> cs_used c \<le> cs_capacity c \<and> cs_total c = (sectors + region - 1) div region
     \<and> cs_hydrated c \<le> cs_total c \<and> cs_hydrating c \<le> cs_total c"

definition clone_check :: "pyval \<Rightarrow> int \<Rightarrow> int \<Rightarrow> pyval \<Rightarrow> unit res" where
  "clone_check wanted sectors region sample =
     (let status = getd sample ''status'' (PStr []) in
      rbind (checks [vneed (is_str status) ''clone: status is not text'']) (\<lambda>_.
      case parse_status (str_of status) of
        None \<Rightarrow> Inl (ValueError ''clone: malformed status'')
      | Some c \<Rightarrow>
          rbind (checks [vneed (status_options_ok (cs_tail c)) ''clone: unapproved or malformed counted status options'']) (\<lambda>_.
          rbind (py_int (cs_tail c ! 5)) (\<lambda>threshold.
          rbind (ror (Inr (\<not> pyeq (PInt threshold) (fld wanted ''hydration_threshold'')))
                     (rbind (py_int (cs_tail c ! 7)) (\<lambda>batch.
                      Inr (\<not> pyeq (PInt batch) (fld wanted ''hydration_batch_size''))))) (\<lambda>differs.
          checks [vneed (\<not> differs) ''clone: hydration tuning differs from approved contract'',
                  vneed (status_healthy c sectors region) ''clone: unhealthy or contradictory status''])))))"

definition validate_graph :: "pyval \<Rightarrow> pyval \<Rightarrow> pyval \<Rightarrow> pyval \<Rightarrow> pyval \<Rightarrow> unit res" where
  "validate_graph expected before after sectors region =
     rbind (checks
       [vneed (is_dict expected \<and> is_dict before \<and> is_dict after) ''graph evidence must be explicit mappings'',
        vneed (set (keys expected) = set graph_roles) ''incomplete expected Lazy graph'',
        vneed (set (keys before) = set (keys expected) \<and> set (keys after) = set (keys expected))
          ''incomplete observed Lazy graph'',
        vneed (integer sectors 1 \<and> is_int region \<and> region_ok (int_of region)) ''invalid signed Lazy geometry'']) (\<lambda>_.
     rbind (check_each (\<lambda>(name, wanted). checks (row_checks name wanted (fld before name) (fld after name)))
              (items expected)) (\<lambda>_.
     rbind (check_each (\<lambda>g. checks [vneed (card (set (map (\<lambda>k. fld (fld g k) ''devno'') (keys g))) = 5)
              ''distinct Lazy roles share a device number'']) [before, after]) (\<lambda>_.
     check_each (clone_check (fld expected ''clone'') (int_of sectors) (int_of region))
       [fld before ''clone'', fld after ''clone''])))"

section \<open>What a validated graph shows\<close>

definition good_observation :: "string \<Rightarrow> pyval \<Rightarrow> pyval \<Rightarrow> bool" where
  "good_observation name wanted observed \<longleftrightarrow>
     matches devno_re (fld observed ''devno'') \<and> integer (fld observed ''diskseq'') 1
     \<and> (\<forall>f \<in> set matched_fields. pyeq (fld observed f) (fld wanted f))
     \<and> is_bool (fld observed ''readonly'') \<and> is_bool (fld wanted ''readonly'')
     \<and> is_devno_tuple (fld observed ''deps'') \<and> is_str (fld observed ''uuid'') \<and> is_str (fld observed ''table'')
     \<and> is_false (fld observed ''suspended'')
     \<and> (\<forall>f \<in> set (guard_fields name). fld observed f = PInt 0)"

lemma observation_checks_ok: "list_all fst (observation_checks name wanted observed) \<Longrightarrow> good_observation name wanted observed"
  unfolding observation_checks_def good_observation_def list_all_append list.pred_map
  by (auto simp: list_all_iff)

lemma row_checks_ok:
  assumes "list_all fst (row_checks name wanted b a)"
  shows "good_observation name wanted b" "good_observation name wanted a"
    "\<forall>f \<in> set stable_fields. pyeq (fld b f) (fld a f)"
  using assms unfolding row_checks_def list_all_append
  by (simp_all add: observation_checks_ok) (simp add: list_all_iff)

lemma fld_item: "k \<in> set (keys v) \<Longrightarrow> (k, fld v k) \<in> set (items v)"
  by (auto simp: keys_def fld_def dest: map_of_SomeD split: option.splits)
     (metis domD dom_map_of_conv_image_fst image_eqI map_of_SomeD fst_conv option.distinct(1) weak_map_of_SomeI)

lemma validate_graph_rows:
  assumes "validate_graph expected before after sectors region = Inr ()" and "r \<in> set graph_roles"
  shows "good_observation r (fld expected r) (fld before r)" "good_observation r (fld expected r) (fld after r)"
    "\<forall>f \<in> set stable_fields. pyeq (fld (fld before r) f) (fld (fld after r) f)"
proof -
  from assms(1) have k: "set (keys expected) = set graph_roles" and
    e: "check_each (\<lambda>(name, wanted). checks (row_checks name wanted (fld before name) (fld after name)))
          (items expected) = Inr ()"
    by (auto simp: validate_graph_def checks_ok elim!: rbindE)
  from k assms(2) have "(r, fld expected r) \<in> set (items expected)" by (simp add: fld_item)
  with e have "list_all fst (row_checks r (fld expected r) (fld before r) (fld after r))"
    unfolding check_each_ok by (auto simp: checks_ok dest!: bspec)
  note row_checks_ok [OF this]
  then show "good_observation r (fld expected r) (fld before r)" "good_observation r (fld expected r) (fld after r)"
    "\<forall>f \<in> set stable_fields. pyeq (fld (fld before r) f) (fld (fld after r) f)" by blast+
qed

text \<open>Five roles with five numbers have a number each.\<close>

lemma validate_graph_distinct:
  assumes "validate_graph expected before after sectors region = Inr ()" and "g \<in> {before, after}"
  shows "inj_on (\<lambda>r. fld (fld g r) ''devno'') (set graph_roles)"
proof (rule eq_card_imp_inj_on)
  from assms have k: "set (keys g) = set graph_roles"
    and c: "card (set (map (\<lambda>r. fld (fld g r) ''devno'') (keys g))) = 5"
    by (auto simp: validate_graph_def checks_ok check_each_ok elim!: rbindE)
  have "card (set graph_roles) = 5" by (simp add: graph_roles_def)
  with c show "card ((\<lambda>r. fld (fld g r) ''devno'') ` set graph_roles) = card (set graph_roles)"
    by (simp add: k)
qed simp

lemma parse_status_Nil: "parse_status [] = None"
  by (simp add: parse_status_def)

lemma clone_check_ok:
  assumes "clone_check wanted sectors region sample = Inr ()"
  shows "\<exists>s c. fld sample ''status'' = PStr s \<and> parse_status s = Some c \<and> status_options_ok (cs_tail c)
    \<and> status_healthy c sectors region"
  using assms
  by (auto simp: clone_check_def Let_def checks_ok is_str_iff getd_def fld_def parse_status_Nil
      elim!: rbindE split: option.splits)

lemma validate_graph_status:
  assumes "validate_graph expected before after sectors region = Inr ()" and "g \<in> {before, after}"
  shows "\<exists>s c. fld (fld g ''clone'') ''status'' = PStr s \<and> parse_status s = Some c \<and> status_options_ok (cs_tail c)
    \<and> status_healthy c (int_of sectors) (int_of region)"
proof -
  from assms have "clone_check (fld expected ''clone'') (int_of sectors) (int_of region) (fld g ''clone'') = Inr ()"
    by (auto simp: validate_graph_def checks_ok check_each_ok elim!: rbindE)
  then show ?thesis by (rule clone_check_ok)
qed

section \<open>The derived graph\<close>

lemma backing_check_ok:
  assumes "backing_check anchor backing vg (role, field) = Inr r"
  shows "fst r = role" "fld (snd r) ''readonly'' = PBool False"
    "fld (snd r) ''uuid'' = PStr (lvm_uuid_of vg (str_of (fld anchor field)))"
proof -
  have [simp]: "\<not> uuid32 []" by (simp add: uuid32_def)
  show "fst r = role" "fld (snd r) ''readonly'' = PBool False"
    "fld (snd r) ''uuid'' = PStr (lvm_uuid_of vg (str_of (fld anchor field)))"
    using assms
    by (auto simp: backing_check_def Let_def checks_ok getd_def fld_def elim!: rbindE split: option.splits)
qed

lemma custom_graph_parts:
  assumes "derive_custom_graph anchor cfg backing devnos node boot = Inr (expected, names)"
  obtains bytes region publication vg r1 r2 threshold batch where
    "fld anchor ''owner_node'' = PStr node" "fld anchor ''owner_boot'' = PStr boot"
    "fld cfg ''slt-expected-vg-uuid'' = PStr vg" "anchor_geometry anchor = Inr (bytes, region, publication)"
    "512 \<le> bytes" "bytes mod 512 = 0" "region_ok region" "2 \<le> publication"
    "\<forall>k \<in> set graph_roles. matches devno_re (fld devnos k)"
    "backing_check anchor backing vg (''data'', ''data_uuid'') = Inr r1"
    "backing_check anchor backing vg (''metadata'', ''metadata_uuid'') = Inr r2"
    "1 \<le> batch" "batch \<le> threshold" "threshold \<le> 256"
    "is_str (fld anchor ''tx'')" "is_str (fld anchor ''vol'')"
    "expected = PDict ([r1, r2] @ custom_rows (str_of (fld anchor ''tx''))
        (lazy_key vg (str_of (fld anchor ''vol''))) (\<lambda>role. str_of (fld devnos role)) (bytes div 512) region threshold batch)"
proof -
  have [simp]: "\<not> uuid32 []" "\<not> hexn 32 []" "\<not> volume_re []"
    by (simp_all add: uuid32_def hexn_def volume_re_def)
  have str: "v = PStr (str_of v)" if "matches re v" for re v using that by (auto simp: matches_iff)
  have getd: "getd v k (PStr []) = fld v k" if "matches re (getd v k (PStr []))" "\<not> re []" for v k re
    using that by (auto simp: getd_def fld_def split: option.splits)
  from assms obtain bytes region publication rows threshold batch where p:
    "fld anchor ''owner_node'' = PStr node" "fld anchor ''owner_boot'' = PStr boot"
    "matches uuid32 (getd cfg ''slt-expected-vg-uuid'' (PStr []))"
    "matches (hexn 32) (getd anchor ''tx'' (PStr []))" "matches volume_re (getd anchor ''vol'' (PStr []))"
    "anchor_geometry anchor = Inr (bytes, region, publication)"
    "512 \<le> bytes" "bytes mod 512 = 0" "region_ok region" "2 \<le> publication"
    "set (keys devnos) = set graph_roles" "list_all (matches devno_re) (map snd (items devnos))"
    "rmap (backing_check anchor backing (str_of (getd cfg ''slt-expected-vg-uuid'' (PStr []))))
       [(''data'', ''data_uuid''), (''metadata'', ''metadata_uuid'')] = Inr rows"
    "1 \<le> batch" "batch \<le> threshold" "threshold \<le> 256"
    "expected = PDict (rows @ custom_rows (str_of (getd anchor ''tx'' (PStr [])))
       (lazy_key (str_of (getd cfg ''slt-expected-vg-uuid'' (PStr []))) (str_of (getd anchor ''vol'' (PStr []))))
       (\<lambda>role. str_of (fld devnos role)) (bytes div 512) region threshold batch)"
    unfolding derive_custom_graph_def Let_def
    by (auto simp: checks_ok simp del: rmap.simps elim!: rbindE)
  note g = getd [OF p(3)] getd [OF p(4)] getd [OF p(5)]
  from p(13) obtain r1 r2 where r: "rows = [r1, r2]"
    "backing_check anchor backing (str_of (getd cfg ''slt-expected-vg-uuid'' (PStr []))) (''data'', ''data_uuid'') = Inr r1"
    "backing_check anchor backing (str_of (getd cfg ''slt-expected-vg-uuid'' (PStr []))) (''metadata'', ''metadata_uuid'') = Inr r2"
    by (auto elim!: rbindE)
  have d: "\<forall>k \<in> set graph_roles. matches devno_re (fld devnos k)"
    using p(12) unfolding p(11) [symmetric] by (fastforce simp: list_all_iff dest: fld_item)
  show thesis
    by (rule that [OF p(1,2) _ p(6-10) d r(2)])
       (use p r g str [OF p(3)] str [OF p(4)] str [OF p(5)] in \<open>auto simp: matches_iff\<close>)
qed

text \<open>The rows of a derived graph, by role\<close>

lemma custom_graph_rows:
  assumes "fst r1 = ''data''" "fst r2 = ''metadata''"
    and "expected = PDict ([r1, r2] @ custom_rows tx key dev sectors region threshold batch)"
  shows "fld expected ''data'' = snd r1" "fld expected ''metadata'' = snd r2"
    "fld (fld expected ''zero'') ''uuid'' = PStr (''SLT-TG6-ZERO-'' @ tx)"
    "fld (fld expected ''zero'') ''deps'' = PTuple []"
    "fld (fld expected ''clone'') ''uuid'' = PStr (''SLT-TG6-CLONE-'' @ tx)"
    "fld (fld expected ''clone'') ''deps'' = PTuple (map PStr (sort [dev ''data'', dev ''metadata'', dev ''zero'']))"
    "fld (fld expected ''front'') ''uuid'' = PStr (''SLT-TG2-'' @ key)"
    "fld (fld expected ''front'') ''deps'' = PTuple [PStr (dev ''clone'')]"
    "\<forall>r \<in> {''zero'', ''clone'', ''front''}. fld (fld expected r) ''readonly'' = PBool (r = ''zero'')"
  using assms by (cases r1; cases r2; simp add: custom_rows_def)+

lemma bool_matched:
  assumes "good_observation name wanted v" and "fld wanted ''readonly'' = PBool b"
  shows "fld v ''readonly'' = PBool b"
  using assms by (cases b) (auto simp: good_observation_def matched_fields_def is_bool_iff pyeq_def split: if_splits)

lemma good_matched:
  assumes "good_observation name wanted v"
  shows "fld wanted ''uuid'' = PStr s \<Longrightarrow> fld v ''uuid'' = PStr s"
    "fld wanted ''deps'' = PTuple (map PStr ss) \<Longrightarrow> fld v ''deps'' = PTuple (map PStr ss)"
    "is_false (fld v ''suspended'')" "fld v ''devno'' = PStr (str_of (fld v ''devno''))"
    "f \<in> set (guard_fields name) \<Longrightarrow> fld v f = PInt 0"
proof -
  show "fld wanted ''uuid'' = PStr s \<Longrightarrow> fld v ''uuid'' = PStr s"
    "is_false (fld v ''suspended'')" "fld v ''devno'' = PStr (str_of (fld v ''devno''))"
    "f \<in> set (guard_fields name) \<Longrightarrow> fld v f = PInt 0"
    using assms by (auto simp: good_observation_def matched_fields_def matches_iff)
  assume d: "fld wanted ''deps'' = PTuple (map PStr ss)"
  have "pyeq (fld v ''deps'') (PTuple (map PStr ss))"
    using assms unfolding d [symmetric] by (simp add: good_observation_def matched_fields_def)
  then show "fld v ''deps'' = PTuple (map PStr ss)" by simp
qed

text \<open>when a graph is derived from an anchor with the device numbers the first observation
  reported, and both observations validate against it, then the owner is this node in this boot and
  in both observations the five roles have five different device numbers, the front maps only the
  clone, the clone depends on exactly the data, metadata and zero devices, the zero device on none
  and is the only read-only one, the mappers carry the identities of the transaction, the backing
  devices those of the volume group, nothing is suspended, the discard guards are zero and the clone
  reports the signed geometry in good health; and between the observations no device number, disk
  sequence, table or identity has changed.\<close>

theorem validated_graph_edges:
  assumes "derive_custom_graph anchor cfg backing devnos node boot = Inr (expected, names)"
    and "\<forall>r \<in> set graph_roles. fld devnos r = fld (fld before r) ''devno''"
    and "validate_graph expected before after sectors region = Inr ()"
  shows "fld anchor ''owner_node'' = PStr node \<and> fld anchor ''owner_boot'' = PStr boot \<and>
    (\<forall>g \<in> {before, after}.
      let dev = (\<lambda>r. fld (fld g r) ''devno''); tx = str_of (fld anchor ''tx'');
          vg = str_of (fld cfg ''slt-expected-vg-uuid'') in
      inj_on dev (set graph_roles) \<and>
      fld (fld g ''front'') ''deps'' = PTuple [dev ''clone''] \<and>
      (\<exists>ds. fld (fld g ''clone'') ''deps'' = PTuple ds \<and> mset ds = {#dev ''data'', dev ''metadata'', dev ''zero''#}) \<and>
      fld (fld g ''zero'') ''deps'' = PTuple [] \<and>
      (\<forall>r \<in> set graph_roles. fld (fld g r) ''readonly'' = PBool (r = ''zero'') \<and> is_false (fld (fld g r) ''suspended'')) \<and>
      fld (fld g ''zero'') ''uuid'' = PStr (''SLT-TG6-ZERO-'' @ tx) \<and>
      fld (fld g ''clone'') ''uuid'' = PStr (''SLT-TG6-CLONE-'' @ tx) \<and>
      fld (fld g ''front'') ''uuid'' = PStr (''SLT-TG2-'' @ lazy_key vg (str_of (fld anchor ''vol''))) \<and>
      fld (fld g ''data'') ''uuid'' = PStr (lvm_uuid_of vg (str_of (fld anchor ''data_uuid''))) \<and>
      fld (fld g ''metadata'') ''uuid'' = PStr (lvm_uuid_of vg (str_of (fld anchor ''metadata_uuid''))) \<and>
      (\<forall>r \<in> set graph_roles. \<forall>f \<in> set (guard_fields r). fld (fld g r) f = PInt 0) \<and>
      (\<exists>s c. fld (fld g ''clone'') ''status'' = PStr s \<and> parse_status s = Some c \<and> status_options_ok (cs_tail c)
         \<and> status_healthy c (int_of sectors) (int_of region))) \<and>
    (\<forall>r \<in> set graph_roles. \<forall>f \<in> set stable_fields. pyeq (fld (fld before r) f) (fld (fld after r) f))"
proof -
  from assms(1) obtain bytes rgn publication vg r1 r2 threshold batch where p:
    "fld anchor ''owner_node'' = PStr node" "fld anchor ''owner_boot'' = PStr boot"
    "fld cfg ''slt-expected-vg-uuid'' = PStr vg"
    "backing_check anchor backing vg (''data'', ''data_uuid'') = Inr r1"
    "backing_check anchor backing vg (''metadata'', ''metadata_uuid'') = Inr r2"
    "expected = PDict ([r1, r2] @ custom_rows (str_of (fld anchor ''tx''))
        (lazy_key vg (str_of (fld anchor ''vol''))) (\<lambda>role. str_of (fld devnos role)) (bytes div 512) rgn threshold batch)"
    by (rule custom_graph_parts) blast
  note b1 = backing_check_ok [OF p(4)] and b2 = backing_check_ok [OF p(5)]
  note rows = custom_graph_rows [OF b1(1) b2(1) p(6)]
  note good = validate_graph_rows [OF assms(3)]
  have stable: "\<forall>r \<in> set graph_roles. \<forall>f \<in> set stable_fields. pyeq (fld (fld before r) f) (fld (fld after r) f)"
    using good(3) by blast
  have graph: "let dev = (\<lambda>r. fld (fld g r) ''devno''); tx = str_of (fld anchor ''tx'');
          vg = str_of (fld cfg ''slt-expected-vg-uuid'') in
      inj_on dev (set graph_roles) \<and>
      fld (fld g ''front'') ''deps'' = PTuple [dev ''clone''] \<and>
      (\<exists>ds. fld (fld g ''clone'') ''deps'' = PTuple ds \<and> mset ds = {#dev ''data'', dev ''metadata'', dev ''zero''#}) \<and>
      fld (fld g ''zero'') ''deps'' = PTuple [] \<and>
      (\<forall>r \<in> set graph_roles. fld (fld g r) ''readonly'' = PBool (r = ''zero'') \<and> is_false (fld (fld g r) ''suspended'')) \<and>
      fld (fld g ''zero'') ''uuid'' = PStr (''SLT-TG6-ZERO-'' @ tx) \<and>
      fld (fld g ''clone'') ''uuid'' = PStr (''SLT-TG6-CLONE-'' @ tx) \<and>
      fld (fld g ''front'') ''uuid'' = PStr (''SLT-TG2-'' @ lazy_key vg (str_of (fld anchor ''vol''))) \<and>
      fld (fld g ''data'') ''uuid'' = PStr (lvm_uuid_of vg (str_of (fld anchor ''data_uuid''))) \<and>
      fld (fld g ''metadata'') ''uuid'' = PStr (lvm_uuid_of vg (str_of (fld anchor ''metadata_uuid''))) \<and>
      (\<forall>r \<in> set graph_roles. \<forall>f \<in> set (guard_fields r). fld (fld g r) f = PInt 0) \<and>
      (\<exists>s c. fld (fld g ''clone'') ''status'' = PStr s \<and> parse_status s = Some c \<and> status_options_ok (cs_tail c)
         \<and> status_healthy c (int_of sectors) (int_of region))" if g: "g \<in> {before, after}" for g
  proof -
    have o: "good_observation r (fld expected r) (fld g r)" if "r \<in> set graph_roles" for r
      using good(1,2) [OF that] g by blast
    have dev: "fld (fld g r) ''devno'' = PStr (str_of (fld devnos r))" if r: "r \<in> set graph_roles" for r
    proof -
      have "fld (fld g r) ''devno'' = fld (fld before r) ''devno''"
        using g good(3) [OF r] good_matched(4) [OF good(1) [OF r]] good_matched(4) [OF good(2) [OF r]]
        by (auto simp: stable_fields_def) (metis pyeq_PStr(2))
      then show ?thesis using assms(2) r good_matched(4) [OF o [OF r]] by simp
    qed
    have roles [simp]: "''data'' \<in> set graph_roles" "''metadata'' \<in> set graph_roles" "''zero'' \<in> set graph_roles"
      "''clone'' \<in> set graph_roles" "''front'' \<in> set graph_roles" by (simp_all add: graph_roles_def)
    note m = good_matched [OF o]
    have ro: "\<forall>r \<in> set graph_roles. fld (fld g r) ''readonly'' = PBool (r = ''zero'')"
    proof
      fix r assume r: "r \<in> set graph_roles"
      have "fld (fld expected r) ''readonly'' = PBool (r = ''zero'')"
        using r rows(9) b1(2) b2(2) rows(1,2) by (auto simp: graph_roles_def)
      with o [OF r] show "fld (fld g r) ''readonly'' = PBool (r = ''zero'')" by (rule bool_matched)
    qed
    have fd: "fld (fld g ''front'') ''deps'' = PTuple (map PStr [str_of (fld devnos ''clone'')])"
      by (rule m(2)) (simp_all add: rows)
    have cd: "fld (fld g ''clone'') ''deps'' = PTuple (map PStr (sort [str_of (fld devnos ''data''),
        str_of (fld devnos ''metadata''), str_of (fld devnos ''zero'')]))"
      by (rule m(2)) (simp_all only: rows roles)
    have zd: "fld (fld g ''zero'') ''deps'' = PTuple (map PStr [])"
      by (rule m(2)) (simp_all add: rows)
    have cdm: "\<exists>ds. fld (fld g ''clone'') ''deps'' = PTuple ds \<and>
        mset ds = {#fld (fld g ''data'') ''devno'', fld (fld g ''metadata'') ''devno'', fld (fld g ''zero'') ''devno''#}"
      by (rule exI, rule conjI [OF cd]) (simp only: mset_map mset_sort dev roles, simp)
    have uu: "fld (fld g ''zero'') ''uuid'' = PStr (''SLT-TG6-ZERO-'' @ str_of (fld anchor ''tx''))"
      "fld (fld g ''clone'') ''uuid'' = PStr (''SLT-TG6-CLONE-'' @ str_of (fld anchor ''tx''))"
      "fld (fld g ''front'') ''uuid'' = PStr (''SLT-TG2-'' @ lazy_key vg (str_of (fld anchor ''vol'')))"
      "fld (fld g ''data'') ''uuid'' = PStr (lvm_uuid_of vg (str_of (fld anchor ''data_uuid'')))"
      "fld (fld g ''metadata'') ''uuid'' = PStr (lvm_uuid_of vg (str_of (fld anchor ''metadata_uuid'')))"
      by (rule m(1); simp only: rows roles b1(3) b2(3))+
    show ?thesis
      unfolding Let_def p(3) str_of.simps
      using validate_graph_distinct [OF assms(3) g] validate_graph_status [OF assms(3) g] fd zd cdm ro m(3,5) uu
      by (intro conjI) (simp_all add: dev)
  qed
  show ?thesis using p(1,2) graph stable by blast
qed

section \<open>Witnesses\<close>

definition lg_uuid :: string where "lg_uuid = ''AbCdEf-0123-4567-89Ab-CdEf-0123-456789''"
definition lg_hex :: string where "lg_hex = replicate 32 CHR ''a''"

definition lg_output :: string where
  "lg_output = ''  head|linear|8|8|/dev/mapper/36(5)'' @ [CHR 0x0A] @ ''  head|linear|0|8|/dev/mapper/36(2)'' @ [CHR 0x0A]"

lemma lg_backing_ok: "\<exists>row. derive_backing_graph lg_output ''head'' (PStr lg_uuid) (PStr lg_uuid) ''/dev/mapper/36''
    (PStr ''252:3'') (PInt 2) (PInt 8) (PInt 1000) (PInt 16) = Inr row"
proof -
  have "\<not> isl (derive_backing_graph lg_output ''head'' (PStr lg_uuid) (PStr lg_uuid) ''/dev/mapper/36''
    (PStr ''252:3'') (PInt 2) (PInt 8) (PInt 1000) (PInt 16))" by code_simp
  then show ?thesis by (rule not_isl_Inr)
qed

lemma backing_tiles_witness:
  "\<exists>row segs. derive_backing_graph lg_output ''head'' (PStr lg_uuid) (PStr lg_uuid) ''/dev/mapper/36''
     (PStr ''252:3'') (PInt 2) (PInt 8) (PInt 1000) (PInt 16) = Inr row
   \<and> (\<Union>x \<in> set segs. {fst x..<seg_end x}) = {0..<16} \<and> (\<forall>(s, l, p) \<in> set segs. 2 \<le> p \<and> p + l \<le> 1000)"
proof -
  from lg_backing_ok obtain row where row: "derive_backing_graph lg_output ''head'' (PStr lg_uuid) (PStr lg_uuid)
    ''/dev/mapper/36'' (PStr ''252:3'') (PInt 2) (PInt 8) (PInt 1000) (PInt 16) = Inr row" by blast
  from backing_tiles [OF this] show ?thesis using row unfolding Let_def by fastforce
qed

definition lg_anchor :: pyval where
  "lg_anchor = PDict [(''v'', PStr ''6''), (''phase'', PStr ''LAZY_ACTIVE''), (''owner_node'', PStr ''pve1''),
     (''owner_boot'', PStr ''boot''), (''sid'', PStr ''san''), (''tx'', PStr lg_hex), (''owner_epoch'', PStr lg_hex),
     (''vol'', PStr ''vm-100-disk-0''), (''bytes'', PStr ''4096''), (''region'', PStr ''8''), (''publication'', PStr ''2''),
     (''data_uuid'', PStr lg_uuid), (''metadata_uuid'', PStr lg_uuid)]"

definition lg_cfg :: pyval where
  "lg_cfg = PDict [(''id'', PStr ''san''), (''slt-expected-vg-uuid'', PStr lg_uuid)]"

definition lg_row :: pyval where
  "lg_row = PDict [(''uuid'', PStr (lvm_uuid_of lg_uuid lg_uuid)), (''readonly'', PBool False),
     (''table'', PStr ''0 8 linear 252:9 2048''), (''deps'', PTuple [PStr ''252:9''])]"

definition lg_backing :: pyval where "lg_backing = PDict [(''data'', lg_row), (''metadata'', lg_row)]"

definition lg_devnos :: pyval where
  "lg_devnos = PDict [(''data'', PStr ''252:0''), (''metadata'', PStr ''252:1''), (''zero'', PStr ''252:2''),
     (''clone'', PStr ''252:3''), (''front'', PStr ''252:4'')]"

definition lg_expected :: pyval where
  "lg_expected = PDict ([(''data'', lg_row), (''metadata'', lg_row)] @ custom_rows lg_hex (lazy_key lg_uuid ''vm-100-disk-0'')
     (\<lambda>role. str_of (fld lg_devnos role)) 8 8 32 32)"

definition lg_status :: string where
  "lg_status = ''0 8 clone 8 1/2 8 1/1 0 2 no_hydration no_discard_passdown 4 hydration_threshold 32 hydration_batch_size 32 rw''"

definition lg_observed :: "string \<Rightarrow> pyval" where
  "lg_observed role = PDict (items (fld lg_expected role) @ [(''devno'', fld lg_devnos role), (''diskseq'', PInt 7),
     (''suspended'', PBool False), (''discard_max_bytes'', PInt 0), (''discard_max_hw_bytes'', PInt 0),
     (''write_zeroes_max_bytes'', PInt 0), (''status'', PStr lg_status)])"

definition lg_graph :: pyval where
  "lg_graph = PDict (map (\<lambda>r. (r, lg_observed r)) graph_roles)"

lemma lg_scalars: "uuid32 lg_uuid" "hexn 32 lg_hex" "volume_re ''vm-100-disk-0''"
  "py_int ''4096'' = Inr 4096" "py_int ''8'' = Inr 8" "py_int ''2'' = Inr 2" "region_ok 8"
  by code_simp+

lemma lg_devno_re: "devno_re ''252:0'' \<and> devno_re ''252:1'' \<and> devno_re ''252:2'' \<and> devno_re ''252:3'' \<and> devno_re ''252:4''
    \<and> devno_re ''252:9''"
  by code_simp

lemma lg_derived: "\<exists>names. derive_custom_graph lg_anchor lg_cfg lg_backing lg_devnos ''pve1'' ''boot'' = Inr (lg_expected, names)"
  by (simp add: derive_custom_graph_def Let_def lg_anchor_def lg_cfg_def lg_backing_def lg_expected_def checks_need
      vneed_def checks.simps getd_def fld_def lg_scalars anchor_geometry_def pysub_def int_of_py_def keys_def
      has_key_def hydration_def backing_check_def lg_row_def graph_roles_def rand_def lg_devnos_def lg_devno_re)

lemma lg_parsed: "parse_status lg_status = Some \<lparr>cs_size = 8, cs_block = 8, cs_used = 1, cs_capacity = 2, cs_chunk = 8,
    cs_hydrated = 1, cs_total = 1, cs_hydrating = 0, cs_tail = [''2'', ''no_hydration'', ''no_discard_passdown'', ''4'',
    ''hydration_threshold'', ''32'', ''hydration_batch_size'', ''32'', ''rw'']\<rparr>"
  by code_simp

lemma lg_rows: "\<forall>r \<in> set graph_roles. list_all fst (row_checks r (fld lg_expected r) (fld lg_graph r) (fld lg_graph r))"
  by (simp add: graph_roles_def row_checks_def observation_checks_def lg_graph_def lg_observed_def lg_expected_def
      custom_rows_def lg_row_def matched_fields_def stable_fields_def guard_fields_def has_key_def keys_def
      lg_devnos_def lg_devno_re is_devno_tuple_def lvm_uuid_of_def)

lemma lg_valid: "validate_graph lg_expected lg_graph lg_graph (PInt 8) (PInt 8) = Inr ()"
proof -
  have keys: "keys lg_expected = graph_roles" "keys lg_graph = graph_roles" "is_dict lg_expected" "is_dict lg_graph"
    by (simp_all add: keys_def lg_expected_def lg_graph_def custom_rows_def graph_roles_def)
  have items: "fst kv \<in> set graph_roles \<and> snd kv = fld lg_expected (fst kv)" if "kv \<in> set (items lg_expected)" for kv
    using that by (auto simp: lg_expected_def custom_rows_def graph_roles_def)
  have dev: "map (\<lambda>k. fld (fld lg_graph k) ''devno'') graph_roles = map PStr [''252:0'', ''252:1'', ''252:2'', ''252:3'', ''252:4'']"
    by (simp add: graph_roles_def lg_graph_def lg_observed_def lg_expected_def lg_row_def custom_rows_def lg_devnos_def)
  have card: "card (set (map (\<lambda>k. fld (fld lg_graph k) ''devno'') graph_roles)) = 5"
    unfolding dev by simp
  have st: "getd (fld lg_graph ''clone'') ''status'' (PStr []) = PStr lg_status"
    by (simp add: getd_def lg_graph_def graph_roles_def lg_observed_def lg_expected_def lg_row_def custom_rows_def)
  have i32: "py_int ''32'' = Inr 32" "isdigit ''32''" by code_simp+
  have tune: "fld (fld lg_expected ''clone'') ''hydration_threshold'' = PInt 32"
    "fld (fld lg_expected ''clone'') ''hydration_batch_size'' = PInt 32"
    by (simp_all add: lg_expected_def custom_rows_def lg_row_def)
  have clone: "clone_check (fld lg_expected ''clone'') 8 8 (fld lg_graph ''clone'') = Inr ()"
    by (simp add: clone_check_def st lg_parsed checks_vneed i32 tune status_options_ok_def status_healthy_def Let_def
        eval_nat_numeral)
  have rows: "check_each (\<lambda>(name, wanted). checks (row_checks name wanted (fld lg_graph name) (fld lg_graph name)))
      (items lg_expected) = Inr ()"
    unfolding check_each_ok
  proof
    fix kv assume "kv \<in> set (items lg_expected)"
    from items [OF this] lg_rows show "(case kv of (name, wanted) \<Rightarrow>
        checks (row_checks name wanted (fld lg_graph name) (fld lg_graph name))) = Inr ()"
      by (cases kv) (simp add: checks_ok)
  qed
  show ?thesis
    unfolding validate_graph_def using keys card clone rows lg_scalars(7)
    by (simp add: checks_ok check_each.simps checks.simps vneed_def)
qed

lemma validated_graph_edges_witness:
  "fld (fld lg_graph ''front'') ''deps'' = PTuple [PStr ''252:3'']
   \<and> inj_on (\<lambda>r. fld (fld lg_graph r) ''devno'') (set graph_roles)"
proof -
  obtain names where d: "derive_custom_graph lg_anchor lg_cfg lg_backing lg_devnos ''pve1'' ''boot'' = Inr (lg_expected, names)"
    using lg_derived by blast
  have dev: "\<forall>r \<in> set graph_roles. fld lg_devnos r = fld (fld lg_graph r) ''devno''"
    by (simp add: graph_roles_def lg_graph_def lg_observed_def lg_expected_def lg_row_def custom_rows_def lg_devnos_def)
  have c: "fld (fld lg_graph ''clone'') ''devno'' = PStr ''252:3''"
    by (simp add: graph_roles_def lg_graph_def lg_observed_def lg_expected_def lg_row_def custom_rows_def lg_devnos_def)
  from validated_graph_edges [OF d dev lg_valid] show ?thesis by (simp add: Let_def c)
qed

end
