(* ===== verification/LazyAudit.thy ===== *)
theory LazyAudit
  imports LazyGraph PyEffect
begin

text \<open>
  The observing part of \<^verbatim>\<open>usr/libexec/pve-sharedlvmthin/sharedlvmthin_lazy_package_proof.py\<close>:
  \<open>observe_mapper\<close>, the audit of a graph this node owns (\<open>audit_active_graph\<close>) and the proof that a
  remotely owned volume has no mapper here (\<open>audit_remote_local_absence\<close>). The runner of read-only
  commands, the attribute reader and the device resolver are the caller's; here they are one
  backend, whose answers may be any values or exceptions. A runner returns text, so an answer of
  another type meets the missing string method.
\<close>

section \<open>The injected functions\<close>

datatype gcall = RunReadonly "string list" | ReadAttribute string string | BlockDevno string

type_synonym 'a audit = "(unit, gcall, 'a) prog"

definition text_of :: "pyval \<Rightarrow> string res" where
  "text_of v = (if is_str v then Inr (str_of v) else Inl (AttributeError ''splitlines''))"

definition run_text :: "gcall backend \<Rightarrow> string list \<Rightarrow> string audit" where
  "run_text \<beta> cmd = bnd (call \<beta> (RunReadonly cmd)) (\<lambda>v. lift (text_of v))"

definition refuse_unless :: "bool \<Rightarrow> string \<Rightarrow> unit audit" where
  "refuse_unless b msg = (if b then ret () else raise (ValueError msg))"

text \<open>\<^verbatim>\<open>[0-9A-Fa-f]\<close>\<close>

definition hex_char :: "char \<Rightarrow> bool" where
  "hex_char c \<longleftrightarrow> lower_hex c \<or> (CHR ''A'' \<le> c \<and> c \<le> CHR ''F'')"

text \<open>A value the code concatenates to text\<close>

definition concat_text :: "pyval \<Rightarrow> string res" where
  "concat_text v = (if is_str v then Inr (str_of v) else Inl (TypeError ''can only concatenate str''))"

definition dashes :: "string \<Rightarrow> string" where
  "dashes s = concat (map (\<lambda>c. if c = CHR ''-'' then ''--'' else [c]) s)"

definition mapper_name :: "string \<Rightarrow> string \<Rightarrow> string" where
  "mapper_name vg lv = dashes vg @ ''-'' @ dashes lv"

section \<open>Absence of a remotely owned volume\<close>

text \<open>\<^verbatim>\<open>-[wr]i-[a-][o-][-a-zA-Z]{4}\<close>\<close>

definition lv_attr_re :: "string \<Rightarrow> bool" where
  "lv_attr_re =
     fits [(1, dash), (1, \<lambda>c. c \<in> set ''wr''), (1, \<lambda>c. c = CHR ''i''), (1, dash), (1, \<lambda>c. c \<in> set ''a-''),
           (1, \<lambda>c. c \<in> set ''o-''), (4, \<lambda>c. dash c \<or> (alnum c \<and> \<not> digit c))]"

definition remote_backing :: "pyval \<Rightarrow> string \<Rightarrow> string \<Rightarrow> pyval \<Rightarrow> string \<times> string \<Rightarrow> (string \<times> string) res" where
  "remote_backing anchor vg vg_uuid rows = (\<lambda>(lv_field, uuid_field).
     rbind (pysub anchor lv_field) (\<lambda>lv.
     rbind (pysub anchor uuid_field) (\<lambda>uuid.
     rbind (if hashable lv then Inr (if is_str lv then list_of (fld rows (str_of lv)) else [])
            else Inl (TypeError ''unhashable type'')) (\<lambda>row.
     rbind (rand (Inr (9 \<le> length row \<and> pyeq (row ! 8) uuid))
             (rand (fullmatch lv_attr_re (row ! 1)) (Inr (str_of (row ! 1) ! 4 = CHR ''-'')))) (\<lambda>ok.
     rbind (checks [vneed ok ''remote-owned backing LV is active or unproven on local node'']) (\<lambda>_.
     rbind (fullmatch uuid32 uuid) (\<lambda>ok.
     rbind (checks [vneed ok ''remote backing UUID is not canonical'']) (\<lambda>_.
     Inr (mapper_name vg (str_of lv), lvm_uuid_of vg_uuid (str_of uuid))))))))))"

text \<open>The names and identities a local mapper of the volume would have\<close>

definition remote_scope :: "pyval \<Rightarrow> pyval \<Rightarrow> pyval \<Rightarrow> string \<Rightarrow> (string list \<times> string list) res" where
  "remote_scope anchor cfg rows node =
     (let owner = getd anchor ''owner_node'' (PStr []);
          vg_uuid = getd cfg ''slt-expected-vg-uuid'' (PStr []);
          vg = getd cfg ''slt-vgname'' (PStr []) in
      rbind (rand (Inr (fld anchor ''v'' = PStr ''6'' \<and> fld anchor ''phase'' = PStr ''LAZY_ACTIVE''
                        \<and> owner \<noteq> PStr node \<and> owner \<noteq> PStr ''none''))
                  (fullmatch (head_tail alnum name_char None) owner)) (\<lambda>ok.
      rbind (checks [vneed ok ''remote package owner identity is not canonical'']) (\<lambda>_.
      rbind (rand (fullmatch uuid32 vg_uuid) (fullmatch lvm_name_re vg)) (\<lambda>ok.
      rbind (checks
        [vneed ok ''remote package scope lacks pinned VG identity'',
         vneed (pyeq (fld cfg ''id'') (fld anchor ''sid'')) ''remote owner alias disagrees with authenticated anchor'']) (\<lambda>_.
      rbind (rbind (pysub anchor ''vol'') concat_text) (\<lambda>vol.
      rbind (rbind (pysub anchor ''tx'') concat_text) (\<lambda>tx.
      rbind (rmap (remote_backing anchor (str_of vg) (str_of vg_uuid) rows)
               [(''head'', ''data_uuid''), (''metadata'', ''metadata_uuid'')]) (\<lambda>backing.
      let key = lazy_key (str_of vg_uuid) vol in
      Inr ([''sltg-'' @ key, ''sltg-c-'' @ key, ''sltg-z-'' @ key] @ map fst backing,
           [''SLT-TG2-'' @ key, ''SLT-TG6-CLONE-'' @ tx, ''SLT-TG6-ZERO-'' @ tx] @ map snd backing)))))))))"

text \<open>One inventory of the mappers: well formed, unambiguous and without a mapper of the volume\<close>

fun scan_mappers :: "string list \<Rightarrow> string list \<Rightarrow> string list \<Rightarrow> (int \<times> int) list \<Rightarrow> string list \<Rightarrow> unit res" where
  "scan_mappers names uuids seen devnos [] = Inr ()"
| "scan_mappers names uuids seen devnos (line # lines) =
     (let f = map strip (split_on CHR ''|'' line) in
      rbind (checks [vneed (length f = 5 \<and> f ! 0 \<noteq> [] \<and> isdigit (f ! 2) \<and> isdigit (f ! 3)
                \<and> map lower_char (f ! 4) \<in> {''active'', ''suspended''}) ''local DM absence inventory is malformed'']) (\<lambda>_.
      rbind (py_int (f ! 2)) (\<lambda>major.
      rbind (py_int (f ! 3)) (\<lambda>minor.
      rbind (checks
        [vneed (f ! 0 \<notin> set seen \<and> (major, minor) \<notin> set devnos) ''local DM absence inventory is ambiguous'',
         vneed (f ! 0 \<notin> set names \<and> f ! 1 \<notin> set uuids) ''remote-owned Lazy volume has a conflicting local mapper'']) (\<lambda>_.
      scan_mappers names uuids (f ! 0 # seen) ((major, minor) # devnos) lines)))))"

definition dm_inventory :: "string list" where
  "dm_inventory = [''/sbin/dmsetup'', ''info'', ''-c'', ''--noheadings'', ''--separator'', ''|'', ''-o'',
     ''name,uuid,major,minor,suspended'']"

definition audit_remote_local_absence ::
    "gcall backend \<Rightarrow> pyval \<Rightarrow> pyval \<Rightarrow> pyval \<Rightarrow> string \<Rightarrow> pyval audit" where
  "audit_remote_local_absence \<beta> anchor cfg rows node =
     bnd (lift (remote_scope anchor cfg rows node)) (\<lambda>(names, uuids).
     andthen (foreach (\<lambda>_. bnd (run_text \<beta> dm_inventory) (\<lambda>output.
                lift (scan_mappers names uuids [] [] (splitlines output)))) [0 :: nat, 1])
     (ret (PDict [(''state'', PStr ''REMOTE_OWNED_LOCAL_RUNTIME_ABSENT''),
                  (''remote_runtime'', PStr ''NOT_CERTIFIED'')])))"

section \<open>One mapper\<close>

definition identity_command :: "string \<Rightarrow> string list" where
  "identity_command name = [''/sbin/dmsetup'', ''info'', ''-c'', ''--noheadings'', ''--separator'', ''|'', ''-o'',
     ''uuid,readonly,major,minor,suspended'', name]"

definition mapper_identity :: "gcall backend \<Rightarrow> string \<Rightarrow> pyval audit" where
  "mapper_identity \<beta> name =
     bnd (run_text \<beta> (identity_command name)) (\<lambda>output.
     let ls = splitlines (strip output); f = map strip (split_on CHR ''|'' (hd ls));
         access = map lower_char (f ! 1); state = map lower_char (f ! 4) in
     block
       [refuse_unless (length ls = 1) ''ambiguous mapper identity'',
        refuse_unless (length f = 5 \<and> f ! 0 \<noteq> [] \<and> access \<in> {''read-only'', ''writeable''} \<and> isdigit (f ! 2)
          \<and> isdigit (f ! 3) \<and> state \<in> {''active'', ''suspended''}) ''malformed mapper identity'']
     (let devno = f ! 2 @ '':'' @ f ! 3 in
      bnd (call \<beta> (ReadAttribute devno ''diskseq'')) (\<lambda>sequence.
      andthen (refuse_unless (integer sequence 1) ''missing mapper diskseq'')
      (ret (PDict [(''uuid'', PStr (f ! 0)), (''readonly'', PBool (access = ''read-only'')), (''devno'', PStr devno),
        (''diskseq'', sequence), (''suspended'', PBool (state \<noteq> ''active''))])))))"

text \<open>\<^verbatim>\<open>([0-9]+) dependencies\s*:\s*((?:\([0-9]+,\s*[0-9]+\)\s*)*)\<close>, with the pairs of the second group\<close>

definition dep_pair :: "string \<Rightarrow> string option" where
  "dep_pair chunk =
     (case split_on CHR '','' chunk of
        [major, r] \<Rightarrow>
          let s = dropWhile space r; minor = takeWhile digit s; t = dropWhile digit s in
          if digits1 major \<and> minor \<noteq> [] \<and> t \<noteq> [] \<and> hd t = CHR '')'' \<and> list_all space (tl t)
          then Some (major @ '':'' @ minor) else None
      | _ \<Rightarrow> None)"

definition parse_deps :: "string \<Rightarrow> (nat \<times> string list) option" where
  "parse_deps s =
     (let n = takeWhile digit s; r = dropWhile digit s; t = dropWhile space (drop 13 r) in
      if n \<noteq> [] \<and> take 13 r = '' dependencies'' \<and> t \<noteq> [] \<and> hd t = CHR '':'' then
        (case split_on CHR ''('' (dropWhile space (tl t)) of
           [] # chunks \<Rightarrow>
             (if list_all (\<lambda>c. dep_pair c \<noteq> None) chunks
              then Some (dec_value n, map (\<lambda>c. the (dep_pair c)) chunks) else None)
         | _ \<Rightarrow> None)
      else None)"

definition queue_guards :: "string \<Rightarrow> string list" where
  "queue_guards role =
     (if role = ''front'' then [''discard_max_bytes'', ''write_zeroes_max_bytes'', ''discard_max_hw_bytes'']
      else if role = ''clone'' then [''discard_max_bytes'', ''write_zeroes_max_bytes''] else [])"

definition clone_status_of :: "gcall backend \<Rightarrow> string \<Rightarrow> string \<Rightarrow> (string \<times> pyval) list audit" where
  "clone_status_of \<beta> name role =
     (if role = ''clone'' then
        bnd (run_text \<beta> [''/sbin/dmsetup'', ''status'', ''--noflush'', name]) (\<lambda>output.
        let ls = splitlines (strip output) in
        andthen (refuse_unless (length ls = 1) ''ambiguous clone status'') (ret [(''status'', PStr (hd ls))]))
      else ret [])"

definition observe_mapper :: "gcall backend \<Rightarrow> string \<Rightarrow> string \<Rightarrow> pyval audit" where
  "observe_mapper \<beta> name role =
     andthen (refuse_unless (lvm_name_re name \<and> hd name \<noteq> CHR ''-'' \<and> role \<in> set graph_roles)
       ''invalid mapper observation identity'')
     (bnd (mapper_identity \<beta> name) (\<lambda>first.
      bnd (run_text \<beta> [''/sbin/dmsetup'', ''table'', name]) (\<lambda>table_text.
      let tables = splitlines (strip table_text) in
      andthen (refuse_unless (tables \<noteq> [] \<and> [] \<notin> set tables
                 \<and> (role \<in> {''data'', ''metadata''} \<or> length tables = 1)) ''ambiguous mapper table'')
      (bnd (run_text \<beta> [''/sbin/dmsetup'', ''deps'', name]) (\<lambda>deps_text.
      case parse_deps (strip deps_text) of
        None \<Rightarrow> raise (ValueError ''malformed mapper dependencies'')
      | Some (n, devices) \<Rightarrow>
          andthen (refuse_unless (length devices = n \<and> distinct devices) ''ambiguous mapper dependencies'')
          (bnd (collect (\<lambda>g. bnd (call \<beta> (ReadAttribute (str_of (fld first ''devno'')) (''queue/'' @ g))) (\<lambda>v. ret (g, v)))
                 (queue_guards role)) (\<lambda>guards.
           bnd (clone_status_of \<beta> name role) (\<lambda>status.
           bnd (mapper_identity \<beta> name) (\<lambda>again.
           andthen (refuse_unless (pyeq again first) ''mapper identity changed while collecting evidence'')
           (ret (PDict (items first @ [(''table'', PStr (join_with [CHR 0x0A] tables)),
                  (''deps'', PTuple (map PStr (sort devices)))] @ guards @ status))))))))))))"

section \<open>The audit of an owned graph\<close>

definition one_row :: "pyval \<Rightarrow> nat \<Rightarrow> string list res" where
  "one_row raw columns =
     rbind (text_of raw) (\<lambda>t.
     let f = (case splitlines (strip t) of [l] \<Rightarrow> map strip (split_on CHR ''|'' l) | _ \<Rightarrow> []) in
     if length f = columns then Inr f else Inl (ValueError ''ambiguous scoped LVM identity''))"

definition lvm_options :: "string \<Rightarrow> string \<Rightarrow> string list" where
  "lvm_options device columns = [''--units'', ''s'', ''--nosuffix'', ''--noheadings'', ''--separator'', ''|'', ''-o'', columns]"

definition pv_command :: "string \<Rightarrow> string list" where
  "pv_command device = [''/sbin/pvs'', ''--readonly'', ''--devices'', device]
     @ lvm_options device ''pv_name,pv_uuid,pe_start,pv_size''"

definition vg_command :: "string \<Rightarrow> string list" where
  "vg_command device = [''/sbin/vgs'', ''--readonly'', ''--devices'', device]
     @ lvm_options device ''vg_name,vg_uuid,vg_extent_size''"

definition segment_command :: "string \<Rightarrow> string \<Rightarrow> string \<Rightarrow> string list" where
  "segment_command device vg lv = [''/sbin/lvs'', ''--readonly'', ''--devices'', device, ''--segments'']
     @ lvm_options device ''lv_name,segtype,seg_start,seg_size,devices'' @ [vg @ ''/'' @ lv]"

text \<open>The backing volume's own row: identity, and a size in whole sectors\<close>

definition backing_size :: "pyval \<Rightarrow> pyval \<Rightarrow> string \<Rightarrow> string \<Rightarrow> (string \<times> int) res" where
  "backing_size anchor rows field uuid_field =
     rbind (pysub anchor field) (\<lambda>lv.
     rbind (rand (fullmatch lvm_name_re lv) (Inr (has_key rows (str_of lv)))) (\<lambda>ok.
     rbind (checks [vneed ok ''authenticated backing LV is missing'']) (\<lambda>_.
     let row = list_of (fld rows (str_of lv)) in
     rbind (rand (Inr (9 \<le> length row))
           (rbind (pysub anchor uuid_field) (\<lambda>uuid.
            rand (Inr (pyeq (row ! 8) uuid))
           (rbind (if is_str (row ! 7) then Inr (str_of (row ! 7)) else Inl (AttributeError ''isdigit'')) (\<lambda>t.
            rand (Inr (isdigit t)) (rbind (py_int t) (\<lambda>n. Inr (n mod 512 = 0)))))))) (\<lambda>ok.
     rbind (checks [vneed ok ''backing object UUID/size evidence changed'']) (\<lambda>_.
     rbind (py_int (str_of (row ! 7))) (\<lambda>n. Inr (str_of lv, n div 512)))))))"

record backing_sample =
  bs_role :: string
  bs_row :: pyval
  bs_command :: "string list"
  bs_sample :: pyval
  bs_name :: string

definition sample_backing :: "gcall backend \<Rightarrow> pyval \<Rightarrow> pyval \<Rightarrow> string \<Rightarrow> pyval \<Rightarrow> string list \<Rightarrow> string list
    \<Rightarrow> string \<times> string \<times> string \<Rightarrow> backing_sample audit" where
  "sample_backing \<beta> anchor rows device pv_number pv vg_row = (\<lambda>(role, field, uuid_field).
     bnd (lift (backing_size anchor rows field uuid_field)) (\<lambda>(lv, sectors).
     let command = segment_command device (vg_row ! 0) lv in
     bnd (call \<beta> (RunReadonly command)) (\<lambda>sample.
     bnd (lift (py_int (pv ! 2))) (\<lambda>pe_start.
     bnd (lift (py_int (vg_row ! 2))) (\<lambda>extent.
     bnd (lift (py_int (pv ! 3))) (\<lambda>pv_sectors.
     bnd (lift (text_of sample)) (\<lambda>output.
     bnd (lift (derive_backing_graph output lv (PStr (vg_row ! 1)) (fld anchor uuid_field) device pv_number
                  (PInt pe_start) (PInt extent) (PInt pv_sectors) (PInt sectors))) (\<lambda>row.
     ret \<lparr>bs_role = role, bs_row = row, bs_command = command, bs_sample = sample,
          bs_name = mapper_name (vg_row ! 0) lv\<rparr>))))))))"

definition sample_graph :: "gcall backend \<Rightarrow> (string \<times> string) list \<Rightarrow> pyval audit" where
  "sample_graph \<beta> names =
     bnd (collect (\<lambda>(role, name). bnd (observe_mapper \<beta> name role) (\<lambda>row. ret (role, row))) names) (\<lambda>graph.
     andthen (foreach (\<lambda>(role, name).
         bnd (call \<beta> (BlockDevno (''/dev/mapper/'' @ name))) (\<lambda>d.
         refuse_unless (pyeq d (fld (fld (PDict graph) role) ''devno''))
           ''mapper device node disagrees with kernel identity'')) names)
     (ret (PDict graph)))"

definition reread :: "gcall backend \<Rightarrow> gcall \<Rightarrow> pyval \<Rightarrow> unit audit" where
  "reread \<beta> q v = bnd (call \<beta> q) (\<lambda>w.
     refuse_unless (pyeq w v) ''scoped backing identity changed during graph audit'')"

text \<open>The scoped identities and the two backing volumes\<close>

record audit_scope =
  as_device :: string
  as_pv_number :: pyval
  as_pv_raw :: pyval
  as_vg_raw :: pyval
  as_samples :: "backing_sample list"
  as_names :: "(string \<times> string) list"

definition read_scope :: "gcall backend \<Rightarrow> pyval \<Rightarrow> pyval \<Rightarrow> pyval \<Rightarrow> audit_scope audit" where
  "read_scope \<beta> anchor cfg rows =
     (let vg = getd cfg ''slt-vgname'' (PStr []); wwid = getd cfg ''slt-expected-wwid'' (PStr []);
          device = ''/dev/mapper/'' @ str_of wwid in
      bnd (lift (rand (fullmatch lvm_name_re vg) (fullmatch (\<lambda>s. s \<noteq> [] \<and> list_all hex_char s) wwid))) (\<lambda>ok.
      andthen (refuse_unless ok ''missing pinned VG/SAN identity'')
      (bnd (call \<beta> (BlockDevno device)) (\<lambda>pv_number.
       bnd (call \<beta> (RunReadonly (pv_command device))) (\<lambda>pv_raw.
       bnd (call \<beta> (RunReadonly (vg_command device))) (\<lambda>vg_raw.
       bnd (lift (one_row pv_raw 4)) (\<lambda>pv.
       bnd (lift (one_row vg_raw 3)) (\<lambda>vg_row.
       andthen (refuse_unless (pv ! 0 = device \<and> fld cfg ''slt-expected-pv-uuid'' = PStr (pv ! 1)
                  \<and> vg_row ! 0 = str_of vg \<and> fld cfg ''slt-expected-vg-uuid'' = PStr (vg_row ! 1))
                 ''scoped PV/VG identity mismatch'')
      (andthen (refuse_unless (isdigit (pv ! 2) \<and> isdigit (pv ! 3) \<and> isdigit (vg_row ! 2))
                 ''scoped LVM geometry is not exact integer sectors'')
      (bnd (collect (sample_backing \<beta> anchor rows device pv_number pv vg_row)
              [(''data'', ''head'', ''data_uuid''), (''metadata'', ''metadata'', ''metadata_uuid'')]) (\<lambda>samples.
       bnd (lift (rbind (pysub anchor ''vol'') concat_text)) (\<lambda>vol.
       let key = lazy_key (vg_row ! 1) vol in
       ret \<lparr>as_device = device, as_pv_number = pv_number, as_pv_raw = pv_raw, as_vg_raw = vg_raw,
            as_samples = samples,
            as_names = map (\<lambda>b. (bs_role b, bs_name b)) samples
              @ [(''zero'', ''sltg-z-'' @ key), (''clone'', ''sltg-c-'' @ key), (''front'', ''sltg-'' @ key)]\<rparr>))))))))))))"

text \<open>The graph the anchor demands, against the two observations\<close>

definition audit_compare :: "pyval \<Rightarrow> pyval \<Rightarrow> audit_scope \<Rightarrow> pyval \<Rightarrow> pyval \<Rightarrow> string \<Rightarrow> string \<Rightarrow> unit res" where
  "audit_compare anchor cfg sc before after node boot =
     rbind (derive_custom_graph anchor cfg (PDict (map (\<lambda>b. (bs_role b, bs_row b)) (as_samples sc)))
              (PDict (map (\<lambda>(role, row). (role, fld row ''devno'')) (items before))) node boot) (\<lambda>(expected, derived).
     rbind (checks [vneed (list_all (\<lambda>(role, name). map_option PStr (map_of (as_names sc) role) = Some name) (items derived))
              ''custom mapper namespace changed'']) (\<lambda>_.
     rbind (rbind (pysub anchor ''bytes'') int_of_py) (\<lambda>bytes.
     rbind (rbind (pysub anchor ''region'') int_of_py) (\<lambda>region.
     validate_graph expected before after (PInt (bytes div 512)) (PInt region)))))"

definition rereads :: "gcall backend \<Rightarrow> audit_scope \<Rightarrow> unit audit list" where
  "rereads \<beta> sc =
     [reread \<beta> (RunReadonly (pv_command (as_device sc))) (as_pv_raw sc),
      reread \<beta> (RunReadonly (vg_command (as_device sc))) (as_vg_raw sc),
      reread \<beta> (BlockDevno (as_device sc)) (as_pv_number sc)]
     @ map (\<lambda>b. reread \<beta> (RunReadonly (bs_command b)) (bs_sample b)) (as_samples sc)"

definition audit_active_graph ::
    "gcall backend \<Rightarrow> pyval \<Rightarrow> pyval \<Rightarrow> pyval \<Rightarrow> string \<Rightarrow> string \<Rightarrow> pyval audit" where
  "audit_active_graph \<beta> anchor cfg rows node boot =
     andthen (refuse_unless (fld anchor ''owner_node'' = PStr node \<and> fld anchor ''owner_boot'' = PStr boot)
                ''cannot audit a remote or stale Lazy owner'')
     (bnd (read_scope \<beta> anchor cfg rows) (\<lambda>sc.
      bnd (sample_graph \<beta> (as_names sc)) (\<lambda>before.
      bnd (sample_graph \<beta> (as_names sc)) (\<lambda>after.
      andthen (lift (audit_compare anchor cfg sc before after node boot))
      (block (rereads \<beta> sc) (ret (PDict [(''before'', before), (''after'', after)])))))))"

section \<open>Only read-only calls\<close>

definition read_only_command :: "string list \<Rightarrow> bool" where
  "read_only_command cmd \<longleftrightarrow>
     (case cmd of
        program # option # _ \<Rightarrow>
          (program \<in> {''/sbin/pvs'', ''/sbin/vgs'', ''/sbin/lvs''} \<and> option = ''--readonly'')
          \<or> (program = ''/sbin/dmsetup'' \<and> option \<in> {''info'', ''table'', ''deps'', ''status''})
      | _ \<Rightarrow> False)"

definition read_only :: "gcall \<Rightarrow> bool" where
  "read_only q \<longleftrightarrow> (case q of RunReadonly cmd \<Rightarrow> read_only_command cmd | _ \<Rightarrow> True)"

text \<open>The calls of the mapper observations\<close>

definition observing :: "gcall \<Rightarrow> bool" where
  "observing q \<longleftrightarrow> (case q of RunReadonly cmd \<Rightarrow> read_only_command cmd \<and> hd cmd = ''/sbin/dmsetup'' | _ \<Rightarrow> True)"

lemma read_only_simps [simp]:
  "read_only (ReadAttribute d a)" "read_only (BlockDevno d)" "observing (ReadAttribute d a)" "observing (BlockDevno d)"
  "read_only (RunReadonly cmd) \<longleftrightarrow> read_only_command cmd"
  "read_only_command (''/sbin/dmsetup'' # o1 # rest) \<longleftrightarrow> o1 \<in> {''info'', ''table'', ''deps'', ''status''}"
  "observing (RunReadonly (''/sbin/dmsetup'' # o1 # rest)) \<longleftrightarrow> o1 \<in> {''info'', ''table'', ''deps'', ''status''}"
  "read_only_command (pv_command d)" "read_only_command (vg_command d)" "read_only_command (segment_command d v l)"
  by (simp_all add: read_only_def observing_def read_only_command_def pv_command_def vg_command_def segment_command_def)

lemma observing_read_only: "{q. observing q} \<subseteq> {q. read_only q}"
  by (auto simp: observing_def read_only_def split: gcall.splits)

lemma asks_refuse_unless [asks_intros]: "asks A (refuse_unless b msg)"
  by (simp add: refuse_unless_def asks_intros)

lemma asks_run_text [asks_intros]: "RunReadonly cmd \<in> A \<Longrightarrow> asks A (run_text \<beta> cmd)"
  by (simp add: run_text_def asks_intros)

lemma asks_mapper_identity: "asks {q. observing q} (mapper_identity \<beta> name)"
  unfolding mapper_identity_def Let_def identity_command_def by (auto intro!: asks_intros)

lemma asks_observe_mapper: "asks {q. observing q} (observe_mapper \<beta> name role)"
  unfolding observe_mapper_def clone_status_of_def Let_def
  by (auto intro!: asks_intros asks_mapper_identity split: option.splits)

lemma asks_sample_graph: "asks {q. observing q} (sample_graph \<beta> names)"
  unfolding sample_graph_def by (auto intro!: asks_intros asks_observe_mapper split: prod.splits)

lemma asks_sample_backing: "asks {q. read_only q} (sample_backing \<beta> anchor rows device pvn pv vgr r)"
  unfolding sample_backing_def Let_def by (auto intro!: asks_intros split: prod.splits)

lemma refuse_unless_value [simp]: "refuse_unless b msg \<sigma> = (Inr u, \<tau>) \<longleftrightarrow> b \<and> \<tau> = \<sigma>"
  by (simp add: refuse_unless_def)

lemma sample_backing_value:
  assumes "sample_backing \<beta> anchor rows device pvn pv vgr (role, field, uf) (s, h) = (Inr b, \<tau>)"
  shows "\<exists>lv n output pe ext pvs. bs_role b = role \<and> bs_command b = segment_command device (vgr ! 0) lv
      \<and> \<tau> = (s, h @ [(RunReadonly (bs_command b), Inr (bs_sample b))]) \<and> bs_sample b = PStr output
      \<and> bs_name b = mapper_name (vgr ! 0) lv \<and> lv = str_of (fld anchor field)
      \<and> derive_backing_graph output lv (PStr (vgr ! 1)) (fld anchor uf) device pvn (PInt pe) (PInt ext) (PInt pvs) (PInt n)
          = Inr (bs_row b)"
proof -
  from assms obtain lv n sample pe ext pvs out row where
    "backing_size anchor rows field uf = Inr (lv, n)" "\<tau> = (s, h @ [(RunReadonly (segment_command device (vgr ! 0) lv), Inr sample)])"
    "text_of sample = Inr out"
    "derive_backing_graph out lv (PStr (vgr ! 1)) (fld anchor uf) device pvn (PInt pe) (PInt ext) (PInt pvs) (PInt n)
       = Inr row"
    "b = \<lparr>bs_role = role, bs_row = row, bs_command = segment_command device (vgr ! 0) lv, bs_sample = sample,
          bs_name = mapper_name (vgr ! 0) lv\<rparr>"
    unfolding sample_backing_def Let_def by (auto elim!: bnd_value)
  moreover from this(1) have "lv = str_of (fld anchor field)"
    unfolding backing_size_def Let_def by (auto elim!: rbindE dest!: pysub_fld)
  moreover from calculation(3) have "sample = PStr out" by (auto simp: text_of_def is_str_iff split: if_splits)
  ultimately show ?thesis
    by (intro exI [of _ lv] exI [of _ n] exI [of _ out] exI [of _ pe] exI [of _ ext] exI [of _ pvs]) simp
qed

lemma read_scope_value:
  assumes "read_scope \<beta> anchor cfg rows (s, h) = (Inr sc, \<tau>)"
  obtains pv vgr b1 b2 \<upsilon> where "as_samples sc = [b1, b2]"
    "sample_backing \<beta> anchor rows (as_device sc) (as_pv_number sc) pv vgr (''data'', ''head'', ''data_uuid'')
       (s, h @ [(BlockDevno (as_device sc), Inr (as_pv_number sc)),
                (RunReadonly (pv_command (as_device sc)), Inr (as_pv_raw sc)),
                (RunReadonly (vg_command (as_device sc)), Inr (as_vg_raw sc))]) = (Inr b1, \<upsilon>)"
    "sample_backing \<beta> anchor rows (as_device sc) (as_pv_number sc) pv vgr (''metadata'', ''metadata'', ''metadata_uuid'') \<upsilon>
       = (Inr b2, \<tau>)"
    "as_device sc = ''/dev/mapper/'' @ str_of (getd cfg ''slt-expected-wwid'' (PStr []))"
    "one_row (as_pv_raw sc) 4 = Inr pv" "one_row (as_vg_raw sc) 3 = Inr vgr"
    "pv ! 0 = as_device sc" "fld cfg ''slt-expected-pv-uuid'' = PStr (pv ! 1)"
    "fld cfg ''slt-expected-vg-uuid'' = PStr (vgr ! 1)" "vgr ! 0 = str_of (getd cfg ''slt-vgname'' (PStr []))"
    "as_names sc = [(bs_role b1, bs_name b1), (bs_role b2, bs_name b2),
       (''zero'', ''sltg-z-'' @ lazy_key (vgr ! 1) (str_of (fld anchor ''vol''))),
       (''clone'', ''sltg-c-'' @ lazy_key (vgr ! 1) (str_of (fld anchor ''vol''))),
       (''front'', ''sltg-'' @ lazy_key (vgr ! 1) (str_of (fld anchor ''vol'')))]"
proof -
  have vol: "str_of (fld anchor ''vol'') = t" if "rbind (pysub anchor ''vol'') concat_text = Inr t" for t
    using that by (auto simp: concat_text_def elim!: rbindE dest!: pysub_fld split: if_splits)
  from assms show thesis using that unfolding read_scope_def Let_def collect.simps
    by (elim bnd_value andthen_value; simp del: One_nat_def; fastforce dest: vol)
qed

lemma read_scope_commands:
  assumes "read_scope \<beta> anchor cfg rows \<sigma> = (Inr sc, \<tau>)"
  shows "\<forall>b \<in> set (as_samples sc). \<exists>v l. bs_command b = segment_command (as_device sc) v l"
proof -
  obtain s h where "\<sigma> = (s, h)" by (cases \<sigma>)
  from assms [unfolded this] show ?thesis
  proof (rule read_scope_value)
    fix pv vgr b1 b2 \<upsilon>
    assume "as_samples sc = [b1, b2]"
    and 1: "sample_backing \<beta> anchor rows (as_device sc) (as_pv_number sc) pv vgr (''data'', ''head'', ''data_uuid'')
       (s, h @ [(BlockDevno (as_device sc), Inr (as_pv_number sc)),
                (RunReadonly (pv_command (as_device sc)), Inr (as_pv_raw sc)),
                (RunReadonly (vg_command (as_device sc)), Inr (as_vg_raw sc))]) = (Inr b1, \<upsilon>)"
    and 2: "sample_backing \<beta> anchor rows (as_device sc) (as_pv_number sc) pv vgr
       (''metadata'', ''metadata'', ''metadata_uuid'') \<upsilon> = (Inr b2, \<tau>)"
    moreover obtain s' h' where u: "\<upsilon> = (s', h')" by (cases \<upsilon>)
    ultimately show ?thesis using sample_backing_value [OF 1] sample_backing_value [OF 2 [unfolded u]] by auto
  qed
qed

lemma asks_read_scope: "asks {q. read_only q} (read_scope \<beta> anchor cfg rows)"
  unfolding read_scope_def Let_def by (auto intro!: asks_intros asks_sample_backing)

lemma asks_rereads:
  "\<forall>b \<in> set (as_samples sc). read_only_command (bs_command b) \<Longrightarrow> list_all (asks {q. read_only q}) (rereads \<beta> sc)"
  by (auto simp: rereads_def reread_def list_all_iff intro!: asks_intros)

text \<open>whatever the runner, the attribute reader and the device resolver answer, and on every
  path including the failing ones, both audits issue only the read-only LVM reports and the
  querying subcommands of dmsetup: no audit activates, suspends, removes or writes anything.\<close>

theorem audits_read_only:
  "asks {q. read_only q} (audit_active_graph \<beta> anchor cfg rows node boot) \<and>
   asks {q. read_only q} (audit_remote_local_absence \<beta> anchor cfg rows node)"
proof
  show "asks {q. read_only q} (audit_active_graph \<beta> anchor cfg rows node boot)"
    unfolding audit_active_graph_def
  proof (intro asks_andthen asks_refuse_unless asks_bnd_value [OF asks_read_scope])
    fix sc \<sigma> \<tau>
    assume "read_scope \<beta> anchor cfg rows \<sigma> = (Inr sc, \<tau>)"
    then have "\<forall>b \<in> set (as_samples sc). read_only_command (bs_command b)"
      by (fastforce dest: read_scope_commands)
    then show "asks {q. read_only q} (bnd (sample_graph \<beta> (as_names sc)) (\<lambda>before.
        bnd (sample_graph \<beta> (as_names sc)) (\<lambda>after.
        andthen (lift (audit_compare anchor cfg sc before after node boot))
        (block (rereads \<beta> sc) (ret (PDict [(''before'', before), (''after'', after)]))))))"
      by (intro asks_intros asks_mono [OF asks_sample_graph observing_read_only] asks_rereads)
  qed
  show "asks {q. read_only q} (audit_remote_local_absence \<beta> anchor cfg rows node)"
    unfolding audit_remote_local_absence_def dm_inventory_def by (auto intro!: asks_intros split: prod.splits)
qed

section \<open>A completed audit\<close>

definition same_answer :: "gcall \<times> pyres \<Rightarrow> gcall \<times> pyres \<Rightarrow> bool" where
  "same_answer first again \<longleftrightarrow> fst again = fst first \<and> (\<exists>v w. snd first = Inr v \<and> snd again = Inr w \<and> pyeq w v)"

lemma reread_value:
  assumes "reread \<beta> q v \<sigma> = (Inr u, \<tau>)"
  shows "\<exists>w. snd \<tau> = snd \<sigma> @ [(q, Inr w)] \<and> same_answer (q, Inr v) (q, Inr w)"
proof -
  obtain s h where "\<sigma> = (s, h)" by (cases \<sigma>)
  with assms show ?thesis by (auto simp: reread_def same_answer_def elim!: bnd_value)
qed

lemma rereads_value:
  assumes "block (map (\<lambda>(q, v). reread \<beta> q v) qs) (ret a) \<sigma> = (Inr b, \<tau>)"
  shows "b = a \<and> (\<exists>again. snd \<tau> = snd \<sigma> @ again \<and> list_all2 same_answer (map (\<lambda>(q, v). (q, Inr v)) qs) again)"
  using assms
proof (induction qs arbitrary: \<sigma>)
  case Nil
  then show ?case by simp
next
  case (Cons x qs)
  obtain q v where x: "x = (q, v)" by (cases x)
  from Cons.prems x obtain u \<upsilon> where r: "reread \<beta> q v \<sigma> = (Inr u, \<upsilon>)"
    and rest: "block (map (\<lambda>(q, v). reread \<beta> q v) qs) (ret a) \<upsilon> = (Inr b, \<tau>)"
    by (auto elim!: andthen_value)
  from reread_value [OF r] Cons.IH [OF rest] x show ?case
    by (metis (no_types, lifting) append_assoc append_Cons append_Nil case_prod_conv list.rel_intros(2) list.simps(9))
qed

text \<open>The mappers of the volume the anchor names, in the order they are observed\<close>

definition audit_names :: "pyval \<Rightarrow> pyval \<Rightarrow> (string \<times> string) list" where
  "audit_names anchor cfg =
     (let vg = str_of (getd cfg ''slt-vgname'' (PStr []));
          key = lazy_key (str_of (fld cfg ''slt-expected-vg-uuid'')) (str_of (fld anchor ''vol'')) in
      [(''data'', mapper_name vg (str_of (fld anchor ''head''))),
       (''metadata'', mapper_name vg (str_of (fld anchor ''metadata''))),
       (''zero'', ''sltg-z-'' @ key), (''clone'', ''sltg-c-'' @ key), (''front'', ''sltg-'' @ key)])"

lemma sample_graph_calls:
  assumes "sample_graph \<beta> names (s, h) = (Inr g, \<tau>)"
  obtains t where "\<tau> = (s, h @ t)" "list_all observing (map fst t)"
proof -
  obtain s' h' where "\<tau> = (s', h')" by (cases \<tau>)
  with assms asks_sample_graph [of \<beta> names] obtain t where "h' = h @ t" "fst ` set t \<subseteq> {q. observing q}"
    by (metis asks_value)
  then show thesis using that [of t] \<open>\<tau> = (s', h')\<close> by (auto simp: list_all_iff)
qed

lemma run_text_value:
  "run_text \<beta> cmd (s, h) = (Inr t, \<tau>) \<Longrightarrow> \<tau> = (s, h @ [(RunReadonly cmd, Inr (PStr t))])"
  by (auto simp: run_text_def text_of_def is_str_iff elim!: bnd_value split: if_splits)

text \<open>
  What a piece of the history shows of a mapper. An identity is two answers: the report of the device
  mapper and the sequence number of that device. A mapper is seen by an identity, its table, its
  dependencies, the guards of its role, the status of a clone, and the identity again.
\<close>

definition identity_seen :: "string \<Rightarrow> gcall hist \<Rightarrow> pyval \<Rightarrow> bool" where
  "identity_seen name t v \<longleftrightarrow>
     (\<exists>report line f sequence.
        t = [(RunReadonly (identity_command name), Inr (PStr report)),
             (ReadAttribute (f ! 2 @ '':'' @ f ! 3) ''diskseq'', Inr sequence)]
      \<and> splitlines (strip report) = [line] \<and> f = map strip (split_on CHR ''|'' line) \<and> length f = 5
      \<and> integer sequence 1
      \<and> v = PDict [(''uuid'', PStr (f ! 0)), (''readonly'', PBool (map lower_char (f ! 1) = ''read-only'')),
                   (''devno'', PStr (f ! 2 @ '':'' @ f ! 3)), (''diskseq'', sequence),
                   (''suspended'', PBool (map lower_char (f ! 4) \<noteq> ''active''))])"

definition status_seen :: "string \<Rightarrow> string \<Rightarrow> gcall hist \<Rightarrow> (string \<times> pyval) list \<Rightarrow> bool" where
  "status_seen name role t status \<longleftrightarrow>
     (if role = ''clone''
      then \<exists>report line. t = [(RunReadonly [''/sbin/dmsetup'', ''status'', ''--noflush'', name], Inr (PStr report))]
             \<and> splitlines (strip report) = [line] \<and> status = [(''status'', PStr line)]
      else t = [] \<and> status = [])"

definition mapper_seen :: "string \<Rightarrow> string \<Rightarrow> gcall hist \<Rightarrow> pyval \<Rightarrow> bool" where
  "mapper_seen name role t row \<longleftrightarrow>
     (\<exists>t1 first table deps n devices guards t2 status t3 again.
        t = t1 @ [(RunReadonly [''/sbin/dmsetup'', ''table'', name], Inr (PStr table)),
                  (RunReadonly [''/sbin/dmsetup'', ''deps'', name], Inr (PStr deps))]
            @ map (\<lambda>(g, v). (ReadAttribute (str_of (fld first ''devno'')) (''queue/'' @ g), Inr v)) guards @ t2 @ t3
      \<and> identity_seen name t1 first \<and> identity_seen name t3 again \<and> pyeq again first
      \<and> parse_deps (strip deps) = Some (n, devices) \<and> length devices = n
      \<and> map fst guards = queue_guards role \<and> status_seen name role t2 status
      \<and> row = PDict (items first @ [(''table'', PStr (join_with [CHR 0x0A] (splitlines (strip table)))),
                (''deps'', PTuple (map PStr (sort devices)))] @ guards @ status))"

text \<open>
  A piece of the history shows a graph: every mapper of the list in order, then for each the device node
  behind its name, which is the device the mapper reported.
\<close>

definition node_seen :: "pyval \<Rightarrow> string \<times> string \<Rightarrow> gcall hist \<Rightarrow> bool" where
  "node_seen g = (\<lambda>(role, name) t.
     \<exists>d. t = [(BlockDevno (''/dev/mapper/'' @ name), Inr d)] \<and> pyeq d (fld (fld g role) ''devno''))"

definition graph_seen :: "(string \<times> string) list \<Rightarrow> gcall hist \<Rightarrow> pyval \<Rightarrow> bool" where
  "graph_seen names t g \<longleftrightarrow>
     (\<exists>mappers nodes. t = concat (map fst mappers) @ concat nodes \<and> g = PDict (map snd mappers)
      \<and> list_all2 (\<lambda>(role, name) (u, entry). fst entry = role \<and> mapper_seen name role u (snd entry)) names mappers
      \<and> list_all2 (node_seen g) names nodes)"

lemma mapper_identity_seen:
  assumes "mapper_identity \<beta> name (s, h) = (Inr v, \<tau>)"
  shows "\<exists>t. \<tau> = (s, h @ t) \<and> identity_seen name t v"
proof -
  from assms obtain report \<upsilon> where run: "run_text \<beta> (identity_command name) (s, h) = (Inr report, \<upsilon>)"
    and rest: "(let ls = splitlines (strip report); f = map strip (split_on CHR ''|'' (hd ls));
         access = map lower_char (f ! 1); state = map lower_char (f ! 4) in
     block
       [refuse_unless (length ls = 1) ''ambiguous mapper identity'',
        refuse_unless (length f = 5 \<and> f ! 0 \<noteq> [] \<and> access \<in> {''read-only'', ''writeable''} \<and> isdigit (f ! 2)
          \<and> isdigit (f ! 3) \<and> state \<in> {''active'', ''suspended''}) ''malformed mapper identity'']
     (let devno = f ! 2 @ '':'' @ f ! 3 in
      bnd (call \<beta> (ReadAttribute devno ''diskseq'')) (\<lambda>sequence.
      andthen (refuse_unless (integer sequence 1) ''missing mapper diskseq'')
      (ret (PDict [(''uuid'', PStr (f ! 0)), (''readonly'', PBool (access = ''read-only'')), (''devno'', PStr devno),
        (''diskseq'', sequence), (''suspended'', PBool (state \<noteq> ''active''))]))))) \<upsilon> = (Inr v, \<tau>)"
    unfolding mapper_identity_def by (rule bnd_value)
  from run_text_value [OF run] have u: "\<upsilon> = (s, h @ [(RunReadonly (identity_command name), Inr (PStr report))])" .
  define f where "f = map strip (split_on CHR ''|'' (hd (splitlines (strip report))))"
  from rest obtain sequence where len: "length (splitlines (strip report)) = 1" "length f = 5" "integer sequence 1"
    and \<tau>: "\<tau> = (s, h @ [(RunReadonly (identity_command name), Inr (PStr report)),
        (ReadAttribute (f ! 2 @ '':'' @ f ! 3) ''diskseq'', Inr sequence)])"
    and v: "v = PDict [(''uuid'', PStr (f ! 0)), (''readonly'', PBool (map lower_char (f ! 1) = ''read-only'')),
        (''devno'', PStr (f ! 2 @ '':'' @ f ! 3)), (''diskseq'', sequence),
        (''suspended'', PBool (map lower_char (f ! 4) \<noteq> ''active''))]"
    unfolding u Let_def f_def [symmetric] block.simps by (elim andthen_value bnd_value) auto
  from len(1) obtain line where line: "splitlines (strip report) = [line]" by (metis length_0_conv length_Suc_conv One_nat_def)
  then have "f = map strip (split_on CHR ''|'' line)" by (simp add: f_def)
  with len v line have "identity_seen name [(RunReadonly (identity_command name), Inr (PStr report)),
        (ReadAttribute (f ! 2 @ '':'' @ f ! 3) ''diskseq'', Inr sequence)] v"
    unfolding identity_seen_def
    by (intro exI [of _ report] exI [of _ line] exI [of _ f] exI [of _ sequence]) simp
  with \<tau> show ?thesis by blast
qed

lemma clone_status_seen:
  assumes "clone_status_of \<beta> name role (s, h) = (Inr status, \<tau>)"
  shows "\<exists>t. \<tau> = (s, h @ t) \<and> status_seen name role t status"
proof (cases "role = ''clone''")
  case True
  with assms obtain report where len: "length (splitlines (strip report)) = 1"
    and st: "status = [(''status'', PStr (hd (splitlines (strip report))))]"
    and \<tau>: "\<tau> = (s, h @ [(RunReadonly [''/sbin/dmsetup'', ''status'', ''--noflush'', name], Inr (PStr report))])"
    unfolding clone_status_of_def Let_def by (auto elim!: bnd_value andthen_value dest!: run_text_value)
  from len obtain line where "splitlines (strip report) = [line]" by (metis length_0_conv length_Suc_conv One_nat_def)
  with True st \<tau> show ?thesis by (auto simp: status_seen_def)
next
  case False
  with assms show ?thesis by (simp add: clone_status_of_def status_seen_def)
qed

lemma guards_seen:
  assumes "collect (\<lambda>g. bnd (call \<beta> (ReadAttribute d (''queue/'' @ g))) (\<lambda>v. ret (g, v))) gs (s, h) = (Inr guards, \<tau>)"
  shows "map fst guards = gs \<and> \<tau> = (s, h @ map (\<lambda>(g, v). (ReadAttribute d (''queue/'' @ g), Inr v)) guards)"
  using assms
proof (induction gs arbitrary: guards h)
  case Nil
  then show ?case by (simp add: ret_def)
next
  case (Cons g gs)
  from Cons.prems obtain v rest where
    "collect (\<lambda>g. bnd (call \<beta> (ReadAttribute d (''queue/'' @ g))) (\<lambda>v. ret (g, v))) gs
       (s, h @ [(ReadAttribute d (''queue/'' @ g), Inr v)]) = (Inr rest, \<tau>)" "guards = (g, v) # rest"
    unfolding collect.simps by (auto elim!: bnd_value)
  from Cons.IH [OF this(1)] this(2) show ?case by simp
qed

lemma observe_mapper_seen:
  assumes "observe_mapper \<beta> name role (s, h) = (Inr row, \<tau>)"
  shows "\<exists>t. \<tau> = (s, h @ t) \<and> mapper_seen name role t row"
proof -
  let ?table = "RunReadonly [''/sbin/dmsetup'', ''table'', name]" and ?deps = "RunReadonly [''/sbin/dmsetup'', ''deps'', name]"
  from assms obtain first table deps n devices guards status again \<upsilon>1 \<upsilon>2 \<upsilon>3 \<upsilon>4 \<upsilon>5 where
    1: "mapper_identity \<beta> name (s, h) = (Inr first, \<upsilon>1)"
    and 2: "run_text \<beta> [''/sbin/dmsetup'', ''table'', name] \<upsilon>1 = (Inr table, \<upsilon>2)"
    and 3: "run_text \<beta> [''/sbin/dmsetup'', ''deps'', name] \<upsilon>2 = (Inr deps, \<upsilon>3)"
    and 4: "parse_deps (strip deps) = Some (n, devices)" "length devices = n"
    and 5: "collect (\<lambda>g. bnd (call \<beta> (ReadAttribute (str_of (fld first ''devno'')) (''queue/'' @ g))) (\<lambda>v. ret (g, v)))
        (queue_guards role) \<upsilon>3 = (Inr guards, \<upsilon>4)"
    and 6: "clone_status_of \<beta> name role \<upsilon>4 = (Inr status, \<upsilon>5)"
    and 7: "mapper_identity \<beta> name \<upsilon>5 = (Inr again, \<tau>)" "pyeq again first"
    and row: "row = PDict (items first @ [(''table'', PStr (join_with [CHR 0x0A] (splitlines (strip table)))),
                (''deps'', PTuple (map PStr (sort devices)))] @ guards @ status)"
    unfolding observe_mapper_def Let_def
    by (elim andthen_value bnd_value) (auto elim!: andthen_value bnd_value split: option.splits)
  from mapper_identity_seen [OF 1] obtain t1 where t1: "\<upsilon>1 = (s, h @ t1)" "identity_seen name t1 first" by blast
  note u2 = run_text_value [OF 2 [unfolded t1(1)]]
  note u3 = run_text_value [OF 3 [unfolded u2]]
  from guards_seen [OF 5 [unfolded u3]] have u4: "map fst guards = queue_guards role"
    "\<upsilon>4 = (s, (((h @ t1) @ [(?table, Inr (PStr table))]) @ [(?deps, Inr (PStr deps))])
        @ map (\<lambda>(g, v). (ReadAttribute (str_of (fld first ''devno'')) (''queue/'' @ g), Inr v)) guards)" by blast+
  from clone_status_seen [OF 6 [unfolded u4(2)]] obtain t2 where t2: "status_seen name role t2 status"
    "\<upsilon>5 = (s, ((((h @ t1) @ [(?table, Inr (PStr table))]) @ [(?deps, Inr (PStr deps))])
        @ map (\<lambda>(g, v). (ReadAttribute (str_of (fld first ''devno'')) (''queue/'' @ g), Inr v)) guards) @ t2)" by blast
  from mapper_identity_seen [OF 7(1) [unfolded t2(2)]] obtain t3 where t3: "identity_seen name t3 again"
    "\<tau> = (s, (((((h @ t1) @ [(?table, Inr (PStr table))]) @ [(?deps, Inr (PStr deps))])
        @ map (\<lambda>(g, v). (ReadAttribute (str_of (fld first ''devno'')) (''queue/'' @ g), Inr v)) guards) @ t2) @ t3)" by blast
  let ?t = "t1 @ [(?table, Inr (PStr table)), (?deps, Inr (PStr deps))]
      @ map (\<lambda>(g, v). (ReadAttribute (str_of (fld first ''devno'')) (''queue/'' @ g), Inr v)) guards @ t2 @ t3"
  have "mapper_seen name role ?t row"
    unfolding mapper_seen_def
    by (rule exI [of _ t1], rule exI [of _ first], rule exI [of _ table], rule exI [of _ deps], rule exI [of _ n],
        rule exI [of _ devices], rule exI [of _ guards], rule exI [of _ t2], rule exI [of _ status], rule exI [of _ t3],
        rule exI [of _ again], intro conjI refl t1(2) t2(1) t3(1) 4 7(2) u4(1) row)
  moreover have "\<tau> = (s, h @ ?t)" using t3(2) by simp
  ultimately show ?thesis by blast
qed

lemma sample_graph_seen:
  assumes "sample_graph \<beta> names (s, h) = (Inr g, \<tau>)"
  shows "\<exists>t. \<tau> = (s, h @ t) \<and> graph_seen names t g"
proof -
  let ?look = "\<lambda>(role, name). bnd (observe_mapper \<beta> name role) (\<lambda>row. ret (role, row))"
  let ?node = "\<lambda>(role, name). bnd (call \<beta> (BlockDevno (''/dev/mapper/'' @ name))) (\<lambda>d.
         refuse_unless (pyeq d (fld (fld g role) ''devno'')) ''mapper device node disagrees with kernel identity'')"
  from assms obtain graph \<upsilon> u where g: "g = PDict graph" and 1: "collect ?look names (s, h) = (Inr graph, \<upsilon>)"
    and 2: "foreach ?node names \<upsilon> = (Inr u, \<tau>)"
    unfolding sample_graph_def by (elim bnd_value andthen_value) auto
  have look: "\<exists>t. \<phi> = (s, h @ t) \<and> (case x of (role, name) \<Rightarrow> fst y = role \<and> mapper_seen name role t (snd y))"
    if "?look x (s, h) = (Inr y, \<phi>)" for x h y \<phi>
  proof (cases x)
    case (Pair role name)
    with that obtain row where row: "observe_mapper \<beta> name role (s, h) = (Inr row, \<phi>)" "y = (role, row)"
      by (auto elim!: bnd_value)
    from observe_mapper_seen [OF row(1)] Pair row(2) show ?thesis by auto
  qed
  have node: "\<exists>t. \<phi> = (s, h @ t) \<and> node_seen g x t" if "?node x (s, h) = (Inr y, \<phi>)" for x h y \<phi>
    using that by (cases x) (auto simp: node_seen_def elim!: bnd_value)
  from collect_pieces [where f = ?look and P = "\<lambda>x t y. case x of (role, name) \<Rightarrow> fst y = role \<and> mapper_seen name role t (snd y)", OF 1 look]
  obtain mappers where m: "\<upsilon> = (s, h @ concat (map fst mappers))" "graph = map snd mappers"
    "list_all2 (\<lambda>x (t, y). case x of (role, name) \<Rightarrow> fst y = role \<and> mapper_seen name role t (snd y)) names mappers" by blast
  have "\<exists>pieces. \<tau> = (s, (h @ concat (map fst mappers)) @ concat pieces) \<and> list_all2 (node_seen g) names pieces"
    by (rule foreach_pieces [OF 2 [unfolded m(1)]]) (rule node)
  then obtain nodes where n: "\<tau> = (s, (h @ concat (map fst mappers)) @ concat nodes)" "list_all2 (node_seen g) names nodes" by blast
  have "list_all2 (\<lambda>(role, name) (u, entry). fst entry = role \<and> mapper_seen name role u (snd entry)) names mappers"
    by (rule list_all2_mono [OF m(3)]) (auto split: prod.splits)
  then have "graph_seen names (concat (map fst mappers) @ concat nodes) g"
    unfolding graph_seen_def using g m(2) n(2) by blast
  with n(1) show ?thesis by auto
qed

lemma audit_compare_ok:
  assumes "audit_compare anchor cfg sc before after node boot = Inr ()"
  obtains expected derived bytes region where
    "derive_custom_graph anchor cfg (PDict (map (\<lambda>b. (bs_role b, bs_row b)) (as_samples sc)))
       (PDict (map (\<lambda>(role, row). (role, fld row ''devno'')) (items before))) node boot = Inr (expected, derived)"
    "validate_graph expected before after (PInt (bytes div 512)) (PInt region) = Inr ()"
    "rbind (pysub anchor ''bytes'') int_of_py = Inr bytes" "rbind (pysub anchor ''region'') int_of_py = Inr region"
    "\<forall>(role, name) \<in> set (items derived). map_option PStr (map_of (as_names sc) role) = Some name"
  using assms unfolding audit_compare_def
  by (auto simp: checks_ok list_all_iff elim!: rbindE intro: that)

text \<open>A backing row derived from a segment answer, on the device another answer identified\<close>

definition backing_from :: "pyval \<Rightarrow> string \<Rightarrow> string \<Rightarrow> gcall \<times> pyres \<Rightarrow> gcall \<times> pyres \<Rightarrow> string \<Rightarrow> pyval \<Rightarrow> bool" where
  "backing_from anchor vg device d b field row \<longleftrightarrow>
     (\<exists>out lv pvn pe ext pvs n. snd b = Inr (PStr out) \<and> snd d = Inr pvn \<and>
        derive_backing_graph out lv (PStr vg) (fld anchor field) device pvn (PInt pe) (PInt ext) (PInt pvs) (PInt n) = Inr row)"

lemma audit_active_value:
  assumes "audit_active_graph \<beta> anchor cfg rows node boot (s, h) = (Inr v, s', h')"
  shows "\<exists>d p g b1 b2 one two again device vg expected derived data meta bytes region.
      h' = h @ [d, p, g, b1, b2] @ one @ two @ again \<and>
      graph_seen (audit_names anchor cfg) one (fld v ''before'') \<and>
      graph_seen (audit_names anchor cfg) two (fld v ''after'') \<and>
      list_all observing (map fst (one @ two)) \<and>
      list_all2 same_answer [p, g, d, b1, b2] again \<and>
      device = ''/dev/mapper/'' @ str_of (getd cfg ''slt-expected-wwid'' (PStr [])) \<and>
      fst d = BlockDevno device \<and> fst p = RunReadonly (pv_command device) \<and> fst g = RunReadonly (vg_command device) \<and>
      fld cfg ''slt-expected-vg-uuid'' = PStr vg \<and>
      backing_from anchor vg device d b1 ''data_uuid'' data \<and> backing_from anchor vg device d b2 ''metadata_uuid'' meta \<and>
      derive_custom_graph anchor cfg (PDict [(''data'', data), (''metadata'', meta)])
        (PDict (map (\<lambda>(role, row). (role, fld row ''devno'')) (items (fld v ''before'')))) node boot = Inr (expected, derived) \<and>
      rbind (pysub anchor ''bytes'') int_of_py = Inr bytes \<and> rbind (pysub anchor ''region'') int_of_py = Inr region \<and>
      validate_graph expected (fld v ''before'') (fld v ''after'') (PInt (bytes div 512)) (PInt region) = Inr ()"
proof -
  from assms obtain sc before after \<upsilon>1 \<upsilon>2 \<upsilon>3 where
    sc: "read_scope \<beta> anchor cfg rows (s, h) = (Inr sc, \<upsilon>1)" and
    g1: "sample_graph \<beta> (as_names sc) \<upsilon>1 = (Inr before, \<upsilon>2)" and
    g2: "sample_graph \<beta> (as_names sc) \<upsilon>2 = (Inr after, \<upsilon>3)" and
    cmp: "audit_compare anchor cfg sc before after node boot = Inr ()" and
    last: "block (rereads \<beta> sc) (ret (PDict [(''before'', before), (''after'', after)])) \<upsilon>3 = (Inr v, s', h')"
    unfolding audit_active_graph_def by (auto elim!: bnd_value andthen_value)
  from sc obtain pv vgr b1 b2 \<upsilon> where r: "as_samples sc = [b1, b2]"
    "sample_backing \<beta> anchor rows (as_device sc) (as_pv_number sc) pv vgr (''data'', ''head'', ''data_uuid'')
       (s, h @ [(BlockDevno (as_device sc), Inr (as_pv_number sc)),
                (RunReadonly (pv_command (as_device sc)), Inr (as_pv_raw sc)),
                (RunReadonly (vg_command (as_device sc)), Inr (as_vg_raw sc))]) = (Inr b1, \<upsilon>)"
    "sample_backing \<beta> anchor rows (as_device sc) (as_pv_number sc) pv vgr (''metadata'', ''metadata'', ''metadata_uuid'') \<upsilon>
       = (Inr b2, \<upsilon>1)"
    "as_device sc = ''/dev/mapper/'' @ str_of (getd cfg ''slt-expected-wwid'' (PStr []))"
    "fld cfg ''slt-expected-vg-uuid'' = PStr (vgr ! 1)" "vgr ! 0 = str_of (getd cfg ''slt-vgname'' (PStr []))"
    "as_names sc = [(bs_role b1, bs_name b1), (bs_role b2, bs_name b2),
       (''zero'', ''sltg-z-'' @ lazy_key (vgr ! 1) (str_of (fld anchor ''vol''))),
       (''clone'', ''sltg-c-'' @ lazy_key (vgr ! 1) (str_of (fld anchor ''vol''))),
       (''front'', ''sltg-'' @ lazy_key (vgr ! 1) (str_of (fld anchor ''vol'')))]"
    by (rule read_scope_value)
  from sample_backing_value [OF r(2)] obtain lv1 n1 o1 pe1 e1 p1 where x1: "bs_role b1 = ''data''"
    "\<upsilon> = (s, h @ [(BlockDevno (as_device sc), Inr (as_pv_number sc)),
        (RunReadonly (pv_command (as_device sc)), Inr (as_pv_raw sc)),
        (RunReadonly (vg_command (as_device sc)), Inr (as_vg_raw sc)),
        (RunReadonly (bs_command b1), Inr (bs_sample b1))])" "bs_sample b1 = PStr o1"
    "derive_backing_graph o1 lv1 (PStr (vgr ! 1)) (fld anchor ''data_uuid'') (as_device sc) (as_pv_number sc)
       (PInt pe1) (PInt e1) (PInt p1) (PInt n1) = Inr (bs_row b1)"
    "bs_name b1 = mapper_name (vgr ! 0) (str_of (fld anchor ''head''))"
    by auto
  from sample_backing_value [OF r(3) [unfolded x1(2)]] obtain lv2 n2 o2 pe2 e2 p2 where x2: "bs_role b2 = ''metadata''"
    "\<upsilon>1 = (s, h @ [(BlockDevno (as_device sc), Inr (as_pv_number sc)),
        (RunReadonly (pv_command (as_device sc)), Inr (as_pv_raw sc)),
        (RunReadonly (vg_command (as_device sc)), Inr (as_vg_raw sc)),
        (RunReadonly (bs_command b1), Inr (bs_sample b1)), (RunReadonly (bs_command b2), Inr (bs_sample b2))])"
    "bs_sample b2 = PStr o2"
    "derive_backing_graph o2 lv2 (PStr (vgr ! 1)) (fld anchor ''metadata_uuid'') (as_device sc) (as_pv_number sc)
       (PInt pe2) (PInt e2) (PInt p2) (PInt n2) = Inr (bs_row b2)"
    "bs_name b2 = mapper_name (vgr ! 0) (str_of (fld anchor ''metadata''))"
    by auto
  have names: "as_names sc = audit_names anchor cfg"
    using r(5,6,7) x1(1,5) x2(1,5) by (simp add: audit_names_def Let_def)
  obtain t1 where t1: "\<upsilon>2 = (s, snd \<upsilon>1 @ t1)" "graph_seen (audit_names anchor cfg) t1 before"
    using sample_graph_seen [OF g1 [unfolded x2(2)]] x2(2) names by auto
  obtain t2 where t2: "\<upsilon>3 = (s, snd \<upsilon>2 @ t2)" "graph_seen (audit_names anchor cfg) t2 after"
    using sample_graph_seen [OF g2 [unfolded t1(1)]] t1(1) names by auto
  have "list_all observing (map fst t1)" using sample_graph_calls [OF g1 [unfolded x2(2)]] t1(1) x2(2) by auto
  moreover have "list_all observing (map fst t2)" using sample_graph_calls [OF g2 [unfolded t1(1)]] t2(1) t1(1) by auto
  ultimately have quiet: "list_all observing (map fst (t1 @ t2))" by simp
  let ?qs = "[(RunReadonly (pv_command (as_device sc)), as_pv_raw sc), (RunReadonly (vg_command (as_device sc)), as_vg_raw sc),
     (BlockDevno (as_device sc), as_pv_number sc), (RunReadonly (bs_command b1), bs_sample b1),
     (RunReadonly (bs_command b2), bs_sample b2)]"
  have "rereads \<beta> sc = map (\<lambda>(q, v). reread \<beta> q v) ?qs" by (simp add: rereads_def r(1))
  from rereads_value [OF last [unfolded this]] obtain again where ag:
    "v = PDict [(''before'', before), (''after'', after)]" "h' = snd \<upsilon>3 @ again"
    "list_all2 same_answer (map (\<lambda>(q, v). (q, Inr v)) ?qs) again" by auto
  obtain expected derived bytes region where c:
    "derive_custom_graph anchor cfg (PDict (map (\<lambda>b. (bs_role b, bs_row b)) (as_samples sc)))
       (PDict (map (\<lambda>(role, row). (role, fld row ''devno'')) (items before))) node boot = Inr (expected, derived)"
    "validate_graph expected before after (PInt (bytes div 512)) (PInt region) = Inr ()"
    "rbind (pysub anchor ''bytes'') int_of_py = Inr bytes" "rbind (pysub anchor ''region'') int_of_py = Inr region"
    using cmp by (rule audit_compare_ok)
  have b1: "backing_from anchor (vgr ! 1) (as_device sc) (BlockDevno (as_device sc), Inr (as_pv_number sc))
      (RunReadonly (bs_command b1), Inr (bs_sample b1)) ''data_uuid'' (bs_row b1)"
    unfolding backing_from_def snd_conv using x1(3,4) by blast
  have b2: "backing_from anchor (vgr ! 1) (as_device sc) (BlockDevno (as_device sc), Inr (as_pv_number sc))
      (RunReadonly (bs_command b2), Inr (bs_sample b2)) ''metadata_uuid'' (bs_row b2)"
    unfolding backing_from_def snd_conv using x2(3,4) by blast
  have h: "h' = h @ [(BlockDevno (as_device sc), Inr (as_pv_number sc)),
        (RunReadonly (pv_command (as_device sc)), Inr (as_pv_raw sc)),
        (RunReadonly (vg_command (as_device sc)), Inr (as_vg_raw sc)),
        (RunReadonly (bs_command b1), Inr (bs_sample b1)), (RunReadonly (bs_command b2), Inr (bs_sample b2))]
        @ t1 @ t2 @ again"
    using ag(2) t1(1) t2(1) x2(2) by simp
  show ?thesis
    by (rule exI [of _ "(BlockDevno (as_device sc), Inr (as_pv_number sc))"],
        rule exI [of _ "(RunReadonly (pv_command (as_device sc)), Inr (as_pv_raw sc))"],
        rule exI [of _ "(RunReadonly (vg_command (as_device sc)), Inr (as_vg_raw sc))"],
        rule exI [of _ "(RunReadonly (bs_command b1), Inr (bs_sample b1))"],
        rule exI [of _ "(RunReadonly (bs_command b2), Inr (bs_sample b2))"],
        rule exI [of _ t1], rule exI [of _ t2], rule exI [of _ again], rule exI [of _ "as_device sc"], rule exI [of _ "vgr ! 1"],
        rule exI [of _ expected], rule exI [of _ derived],
        rule exI [of _ "bs_row b1"], rule exI [of _ "bs_row b2"], rule exI [of _ bytes], rule exI [of _ region])
       (intro conjI, rule h, use t1(2) ag(1) in simp, use t2(2) ag(1) in simp, rule quiet, use ag(3) in simp, rule r(4), simp, simp, simp, rule r(5),
        rule b1, rule b2, use c ag(1) r(1) x1(1) x2(1) in simp_all)
qed

text \<open>C23: an audit that completes has read the pinned device, its physical volume, its volume group and
  the segments of both backing volumes; then it has sampled the graph of the anchor's volume twice, in two
  pieces of the history that follow each other: each piece holds, for every one of the five mappers, its
  identity, table, dependencies, guards and status and its device node, and the observation returned as before (as
  after) is built from the answers of the first (of the second) piece; and then it has
  read the same five sources again with equal answers. The two observations validate,
  with the size and region of the anchor, against the graph derived from the anchor and from backing
  tables built from those segment answers under the volume group identity of the configuration.\<close>

theorem audit_active_complete:
  "wp (audit_active_graph \<beta> anchor cfg rows node boot)
    (\<lambda>v (s', h'). \<exists>d p g b1 b2 one two again device vg expected derived data meta bytes region.
      h' = h @ [d, p, g, b1, b2] @ one @ two @ again \<and>
      graph_seen (audit_names anchor cfg) one (fld v ''before'') \<and>
      graph_seen (audit_names anchor cfg) two (fld v ''after'') \<and>
      list_all observing (map fst (one @ two)) \<and>
      list_all2 same_answer [p, g, d, b1, b2] again \<and>
      device = ''/dev/mapper/'' @ str_of (getd cfg ''slt-expected-wwid'' (PStr [])) \<and>
      fst d = BlockDevno device \<and> fst p = RunReadonly (pv_command device) \<and> fst g = RunReadonly (vg_command device) \<and>
      fld cfg ''slt-expected-vg-uuid'' = PStr vg \<and>
      backing_from anchor vg device d b1 ''data_uuid'' data \<and> backing_from anchor vg device d b2 ''metadata_uuid'' meta \<and>
      derive_custom_graph anchor cfg (PDict [(''data'', data), (''metadata'', meta)])
        (PDict (map (\<lambda>(role, row). (role, fld row ''devno'')) (items (fld v ''before'')))) node boot = Inr (expected, derived) \<and>
      rbind (pysub anchor ''bytes'') int_of_py = Inr bytes \<and> rbind (pysub anchor ''region'') int_of_py = Inr region \<and>
      validate_graph expected (fld v ''before'') (fld v ''after'') (PInt (bytes div 512)) (PInt region) = Inr ())
    (\<lambda>_ _. True) (s, h)"
  by (rule wp_valueI, unfold case_prod_conv, rule audit_active_value)

lemma scan_mappers_ok:
  "scan_mappers names uuids seen devnos ls = Inr () \<Longrightarrow>
     \<forall>line \<in> set ls. length (split_on CHR ''|'' line) = 5
       \<and> strip (split_on CHR ''|'' line ! 0) \<notin> set names \<and> strip (split_on CHR ''|'' line ! 1) \<notin> set uuids"
  by (induction names uuids seen devnos ls rule: scan_mappers.induct)
     (auto simp: Let_def checks_ok elim!: rbindE)

lemma remote_backing_ok:
  assumes "remote_backing anchor vg vg_uuid rows (lf, uf) = Inr x"
  shows "\<exists>l u. fld anchor lf = PStr l \<and> fld anchor uf = PStr u \<and> x = (mapper_name vg l, lvm_uuid_of vg_uuid u)"
proof -
  from assms obtain lv uuid where p: "pysub anchor lf = Inr lv" "pysub anchor uf = Inr uuid" "matches uuid32 uuid"
    "is_str lv" "x = (mapper_name vg (str_of lv), lvm_uuid_of vg_uuid (str_of uuid))"
    by (auto simp: remote_backing_def checks_ok elim!: rbindE split: if_splits)
  obtain l u where "lv = PStr l" "uuid = PStr u" using p(3,4) by (auto simp: matches_iff is_str_iff)
  moreover from this have "fld anchor lf = PStr l" "fld anchor uf = PStr u"
    using pysub_fld [OF p(1)] pysub_fld [OF p(2)] by simp_all
  ultimately show ?thesis using p(5) by simp
qed

lemma remote_scope_ok:
  assumes "remote_scope anchor cfg rows node = Inr (names, uuids)"
  obtains vg vg_uuid vol tx hd meta du mu where "fld anchor ''owner_node'' \<noteq> PStr node"
    "fld cfg ''slt-expected-vg-uuid'' = PStr vg_uuid" "fld cfg ''slt-vgname'' = PStr vg"
    "fld anchor ''vol'' = PStr vol" "fld anchor ''tx'' = PStr tx"
    "fld anchor ''head'' = PStr hd" "fld anchor ''metadata'' = PStr meta"
    "fld anchor ''data_uuid'' = PStr du" "fld anchor ''metadata_uuid'' = PStr mu"
    "set names = {''sltg-'' @ lazy_key vg_uuid vol, ''sltg-c-'' @ lazy_key vg_uuid vol, ''sltg-z-'' @ lazy_key vg_uuid vol,
       mapper_name vg hd, mapper_name vg meta}"
    "set uuids = {''SLT-TG2-'' @ lazy_key vg_uuid vol, ''SLT-TG6-CLONE-'' @ tx, ''SLT-TG6-ZERO-'' @ tx,
       lvm_uuid_of vg_uuid du, lvm_uuid_of vg_uuid mu}"
proof -
  have getd: "fld v k = PStr s" if "getd v k (PStr []) = PStr s" "s \<noteq> []" for v k s
    using that by (auto simp: getd_def fld_def split: option.splits)
  have ne: "\<not> head_tail alnum name_char None []" "\<not> uuid32 []" "\<not> lvm_name_re []"
    by (simp_all add: head_tail_def uuid32_def lvm_name_re_def)
  let ?vu = "getd cfg ''slt-expected-vg-uuid'' (PStr [])" and ?vg = "getd cfg ''slt-vgname'' (PStr [])"
  from assms obtain vol tx x1 x2 where p:
    "getd anchor ''owner_node'' (PStr []) \<noteq> PStr node" "matches (head_tail alnum name_char None) (getd anchor ''owner_node'' (PStr []))"
    "matches uuid32 ?vu" "matches lvm_name_re ?vg"
    "rbind (pysub anchor ''vol'') concat_text = Inr vol" "rbind (pysub anchor ''tx'') concat_text = Inr tx"
    "remote_backing anchor (str_of ?vg) (str_of ?vu) rows (''head'', ''data_uuid'') = Inr x1"
    "remote_backing anchor (str_of ?vg) (str_of ?vu) rows (''metadata'', ''metadata_uuid'') = Inr x2"
    "names = [''sltg-'' @ lazy_key (str_of ?vu) vol, ''sltg-c-'' @ lazy_key (str_of ?vu) vol,
       ''sltg-z-'' @ lazy_key (str_of ?vu) vol] @ [fst x1, fst x2]"
    "uuids = [''SLT-TG2-'' @ lazy_key (str_of ?vu) vol, ''SLT-TG6-CLONE-'' @ tx, ''SLT-TG6-ZERO-'' @ tx] @ [snd x1, snd x2]"
    unfolding remote_scope_def Let_def rmap.simps by (auto simp: checks_ok elim!: rbindE)
  obtain vu vg where v: "?vu = PStr vu" "?vg = PStr vg" "vu \<noteq> []" "vg \<noteq> []"
    using p(3,4) ne by (auto simp: matches_iff)
  have as_text: "fld anchor k = PStr t" if "rbind (pysub anchor k) concat_text = Inr t" for k t
    using that by (auto simp: concat_text_def is_str_iff split: if_splits elim!: rbindE dest!: pysub_fld)
  have own: "fld anchor ''owner_node'' \<noteq> PStr node"
    using p(1,2) ne(1) by (auto simp: getd_def fld_def split: option.splits)
  obtain h du where x1: "fld anchor ''head'' = PStr h" "fld anchor ''data_uuid'' = PStr du" "x1 = (mapper_name vg h, lvm_uuid_of vu du)"
    using remote_backing_ok [OF p(7)] v by auto
  obtain m mu where x2: "fld anchor ''metadata'' = PStr m" "fld anchor ''metadata_uuid'' = PStr mu" "x2 = (mapper_name vg m, lvm_uuid_of vu mu)"
    using remote_backing_ok [OF p(8)] v by auto
  show thesis
    by (rule that [of vu vg vol tx h m du mu])
       (use own v getd [OF v(1,3)] getd [OF v(2,4)] as_text [OF p(5)] as_text [OF p(6)] x1 x2 p(9,10) in simp_all)
qed

text \<open>when the absence of a remotely owned volume is reported, the owner in the anchor is another
  node, and two inventories of the local mappers were taken, in neither of which any mapper has a name
  of the volume's front, clone, zero or backing devices or one of their identities.\<close>

theorem remote_absence_sound:
  assumes "audit_remote_local_absence \<beta> anchor cfg rows node (s, h) = (Inr v, s', h')"
  shows "fld anchor ''owner_node'' \<noteq> PStr node \<and>
    (\<exists>o1 o2 vg vg_uuid vol tx head meta du mu.
      h' = h @ [(RunReadonly dm_inventory, Inr (PStr o1)), (RunReadonly dm_inventory, Inr (PStr o2))] \<and>
      fld cfg ''slt-expected-vg-uuid'' = PStr vg_uuid \<and> fld cfg ''slt-vgname'' = PStr vg \<and>
      fld anchor ''vol'' = PStr vol \<and> fld anchor ''tx'' = PStr tx \<and>
      fld anchor ''head'' = PStr head \<and> fld anchor ''metadata'' = PStr meta \<and>
      fld anchor ''data_uuid'' = PStr du \<and> fld anchor ''metadata_uuid'' = PStr mu \<and>
      (let key = lazy_key vg_uuid vol in
       \<forall>line \<in> set (splitlines o1) \<union> set (splitlines o2).
         strip (split_on CHR ''|'' line ! 0) \<notin>
           {''sltg-'' @ key, ''sltg-c-'' @ key, ''sltg-z-'' @ key, mapper_name vg head, mapper_name vg meta} \<and>
         strip (split_on CHR ''|'' line ! 1) \<notin>
           {''SLT-TG2-'' @ key, ''SLT-TG6-CLONE-'' @ tx, ''SLT-TG6-ZERO-'' @ tx,
            lvm_uuid_of vg_uuid du, lvm_uuid_of vg_uuid mu}))"
proof -
  from assms obtain names uuids where sc: "remote_scope anchor cfg rows node = Inr (names, uuids)"
    and loop: "foreach (\<lambda>_. bnd (run_text \<beta> dm_inventory) (\<lambda>out.
                lift (scan_mappers names uuids [] [] (splitlines out)))) [0 :: nat, 1] (s, h) = (Inr (), s', h')"
    unfolding audit_remote_local_absence_def by (auto simp del: foreach.simps elim!: bnd_value andthen_value)
  let ?body = "bnd (run_text \<beta> dm_inventory) (\<lambda>out. lift (scan_mappers names uuids [] [] (splitlines out)))"
  have body: "\<exists>o1. scan_mappers names uuids [] [] (splitlines o1) = Inr ()
      \<and> \<tau> = (s, h @ [(RunReadonly dm_inventory, Inr (PStr o1))])" if "?body (s, h) = (Inr u, \<tau>)" for s h u \<tau>
    using that by (auto elim!: bnd_value dest!: run_text_value)
  from loop obtain u1 \<upsilon> u2 where steps: "?body (s, h) = (Inr u1, \<upsilon>)" "?body \<upsilon> = (Inr u2, (s', h'))"
    unfolding foreach.simps by (elim andthen_value, unfold ret_value) blast
  from body [OF steps(1)] obtain o1 where o1: "scan_mappers names uuids [] [] (splitlines o1) = Inr ()"
    "\<upsilon> = (s, h @ [(RunReadonly dm_inventory, Inr (PStr o1))])" by blast
  from body [OF steps(2) [unfolded o1(2)]] o1 obtain o2 where
    o: "h' = h @ [(RunReadonly dm_inventory, Inr (PStr o1)), (RunReadonly dm_inventory, Inr (PStr o2))]"
    "scan_mappers names uuids [] [] (splitlines o1) = Inr ()" "scan_mappers names uuids [] [] (splitlines o2) = Inr ()"
    by auto
  from sc obtain vg vg_uuid vol tx hd meta du mu where
    r: "fld anchor ''owner_node'' \<noteq> PStr node"
    "fld cfg ''slt-expected-vg-uuid'' = PStr vg_uuid" "fld cfg ''slt-vgname'' = PStr vg"
    "fld anchor ''vol'' = PStr vol" "fld anchor ''tx'' = PStr tx"
    "fld anchor ''head'' = PStr hd" "fld anchor ''metadata'' = PStr meta"
    "fld anchor ''data_uuid'' = PStr du" "fld anchor ''metadata_uuid'' = PStr mu"
    "set names = {''sltg-'' @ lazy_key vg_uuid vol, ''sltg-c-'' @ lazy_key vg_uuid vol, ''sltg-z-'' @ lazy_key vg_uuid vol,
       mapper_name vg hd, mapper_name vg meta}"
    "set uuids = {''SLT-TG2-'' @ lazy_key vg_uuid vol, ''SLT-TG6-CLONE-'' @ tx, ''SLT-TG6-ZERO-'' @ tx,
       lvm_uuid_of vg_uuid du, lvm_uuid_of vg_uuid mu}"
    by (rule remote_scope_ok)
  have lines: "\<forall>line \<in> set (splitlines o1) \<union> set (splitlines o2).
      strip (split_on CHR ''|'' line ! 0) \<notin> set names \<and> strip (split_on CHR ''|'' line ! 1) \<notin> set uuids"
    using scan_mappers_ok [OF o(2)] scan_mappers_ok [OF o(3)] by blast
  show ?thesis
    by (rule conjI [OF r(1)], rule exI [of _ o1], rule exI [of _ o2], rule exI [of _ vg], rule exI [of _ vg_uuid],
        rule exI [of _ vol], rule exI [of _ tx], rule exI [of _ hd], rule exI [of _ meta], rule exI [of _ du],
        rule exI [of _ mu], unfold Let_def r(10,11) [symmetric], intro conjI o(1) r(2-9) lines)
qed

section \<open>A witness\<close>

definition ra_anchor :: pyval where
  "ra_anchor = PDict [(''v'', PStr ''6''), (''phase'', PStr ''LAZY_ACTIVE''), (''owner_node'', PStr ''pve1''),
     (''sid'', PStr ''san''), (''tx'', PStr lg_hex), (''vol'', PStr ''vm-100-disk-0''), (''head'', PStr ''h0''),
     (''metadata'', PStr ''m0''), (''data_uuid'', PStr lg_uuid), (''metadata_uuid'', PStr lg_uuid)]"

definition ra_cfg :: pyval where
  "ra_cfg = PDict [(''id'', PStr ''san''), (''slt-expected-vg-uuid'', PStr lg_uuid), (''slt-vgname'', PStr ''vg_san'')]"

definition ra_row :: pyval where
  "ra_row = PList (map PStr ([''vg_san'', ''-wi-------''] @ replicate 6 '''' @ [lg_uuid]))"

definition ra_rows :: pyval where "ra_rows = PDict [(''h0'', ra_row), (''m0'', ra_row)]"

definition ra_backend :: "gcall backend" where
  "ra_backend h q = Inr (PStr ''root|CRYPT-1|252|0|Active'')"

lemma ra_scope: "remote_scope ra_anchor ra_cfg ra_rows ''pve2'' = Inr
   ([''sltg-'' @ lazy_key lg_uuid ''vm-100-disk-0'', ''sltg-c-'' @ lazy_key lg_uuid ''vm-100-disk-0'',
     ''sltg-z-'' @ lazy_key lg_uuid ''vm-100-disk-0'', mapper_name ''vg_san'' ''h0'', mapper_name ''vg_san'' ''m0''],
    [''SLT-TG2-'' @ lazy_key lg_uuid ''vm-100-disk-0'', ''SLT-TG6-CLONE-'' @ lg_hex, ''SLT-TG6-ZERO-'' @ lg_hex,
     lvm_uuid_of lg_uuid lg_uuid, lvm_uuid_of lg_uuid lg_uuid])"
proof -
  have re: "head_tail alnum name_char None ''pve1''" "lvm_name_re ''vg_san''" "lv_attr_re ''-wi-------''"
    "uuid32 lg_uuid" by code_simp+
  show ?thesis
    by (simp add: remote_scope_def Let_def ra_anchor_def ra_cfg_def ra_rows_def ra_row_def getd_def checks_vneed re
        pysub_def concat_text_def remote_backing_def eval_nat_numeral)
qed

lemma ra_scanned: "scan_mappers [''sltg-'' @ k, ''sltg-c-'' @ k, ''sltg-z-'' @ k, mapper_name ''vg_san'' ''h0'', mapper_name ''vg_san'' ''m0'']
    [''SLT-TG2-'' @ k, ''SLT-TG6-CLONE-'' @ lg_hex, ''SLT-TG6-ZERO-'' @ lg_hex, lvm_uuid_of lg_uuid lg_uuid,
     lvm_uuid_of lg_uuid lg_uuid] [] [] (splitlines ''root|CRYPT-1|252|0|Active'') = Inr ()"
proof -
  have l: "splitlines ''root|CRYPT-1|252|0|Active'' = [''root|CRYPT-1|252|0|Active'']"
    "map strip (split_on CHR ''|'' ''root|CRYPT-1|252|0|Active'') = [''root'', ''CRYPT-1'', ''252'', ''0'', ''Active'']"
    "isdigit ''252''" "isdigit ''0''" "py_int ''252'' = Inr 252" "py_int ''0'' = Inr 0"
    "map lower_char ''Active'' = ''active''"
    "''root'' \<noteq> mapper_name ''vg_san'' ''h0''" "''root'' \<noteq> mapper_name ''vg_san'' ''m0''"
    by code_simp+
  have u: "''CRYPT-1'' \<noteq> lvm_uuid_of lg_uuid lg_uuid" by (simp add: lvm_uuid_of_def)
  show ?thesis unfolding l(1) scan_mappers.simps Let_def l(2) using l(3-) u by (simp add: checks_vneed)
qed

lemma remote_absence_sound_witness:
  "\<exists>v s' h'. audit_remote_local_absence ra_backend ra_anchor ra_cfg ra_rows ''pve2'' ((), []) = (Inr v, s', h')
     \<and> length h' = 2"
proof -
  have run: "run_text ra_backend cmd ((), h) = (Inr ''root|CRYPT-1|252|0|Active'',
      (), h @ [(RunReadonly cmd, Inr (PStr ''root|CRYPT-1|252|0|Active''))])" for cmd h
    by (simp add: run_text_def call_def bnd_def text_of_def lift_def ret_def ra_backend_def)
  let ?line = "''root|CRYPT-1|252|0|Active''"
  have body: "bnd (run_text ra_backend dm_inventory) (\<lambda>out. lift (scan_mappers
      [''sltg-'' @ k, ''sltg-c-'' @ k, ''sltg-z-'' @ k, mapper_name ''vg_san'' ''h0'', mapper_name ''vg_san'' ''m0'']
      [''SLT-TG2-'' @ k, ''SLT-TG6-CLONE-'' @ lg_hex, ''SLT-TG6-ZERO-'' @ lg_hex, lvm_uuid_of lg_uuid lg_uuid,
       lvm_uuid_of lg_uuid lg_uuid] [] [] (splitlines out))) ((), h)
      = (Inr (), (), h @ [(RunReadonly dm_inventory, Inr (PStr ?line))])" for k h
    by (subst bnd_run [where m = "run_text ra_backend dm_inventory", OF run]) (simp only: ra_scanned lift_run)
  have "\<exists>v s' h'. audit_remote_local_absence ra_backend ra_anchor ra_cfg ra_rows ''pve2'' ((), []) = (Inr v, s', h')"
    unfolding audit_remote_local_absence_def ra_scope
    unfolding lift_bnd case_prod_conv
    by (intro exI, rule trans, rule andthen_run, rule foreach_run2, rule body, rule body, rule ret_def)
  then obtain v s' h' where ok: "audit_remote_local_absence ra_backend ra_anchor ra_cfg ra_rows ''pve2'' ((), []) = (Inr v, s', h')"
    by blast
  from remote_absence_sound [OF ok] have "length h' = 2" by auto
  with ok show ?thesis by blast
qed

end
