(* ===== verification/ExecutorFence.thy ===== *)
theory ExecutorFence
  imports PyEffect Json
begin

unbundle bit_operations_syntax

text \<open>
  \<^verbatim>\<open>usr/libexec/pve-sharedlvmthin/sharedlvmthin_package_executor_fence.py\<close>: the executor locks held
  through a package transaction (\<open>hold_executors\<close>), the proof that inherited descriptors own them
  (\<open>verify_inherited_executors\<close>) and the sealed memory file that carries the scope
  (\<open>create_sealed_context\<close>, \<open>read_sealed_context\<close>).

  The operating system is the backend: a call may fail at any point. A stat result is a dict of
  integers, a descriptor an integer. The body of the \<^verbatim>\<open>with\<close> statement is the call \<open>Body\<close>. The
  JSON decoder's pairs are a parameter, as is the order in which Python walks a set of names.
\<close>

section \<open>Operating system calls\<close>

datatype oscall =
    OpenDir string
  | OpenLock int string
  | OpenProbe int string
  | Fstat int
  | StatAt int string
  | Flock int
  | Close int
  | Body "int list"
  | MemfdCreate
  | Fchmod int
  | Write int string
  | AddSeals int
  | GetSeals int
  | Pread int int

type_synonym 'a fence = "(int list, oscall, 'a) prog"

definition call_int :: "oscall backend \<Rightarrow> oscall \<Rightarrow> int fence" where
  "call_int \<beta> q = bnd (call \<beta> q) (\<lambda>v. ret (int_of v))"

definition run_call :: "oscall backend \<Rightarrow> oscall \<Rightarrow> unit fence" where
  "run_call \<beta> q = bnd (call \<beta> q) (\<lambda>_. ret ())"

definition st :: "pyval \<Rightarrow> string \<Rightarrow> int" where
  "st v field = int_of (fld v field)"

definition st_identity :: "pyval \<Rightarrow> int \<times> int" where
  "st_identity v = (st v ''st_dev'', st v ''st_ino'')"

definition insist :: "bool \<Rightarrow> string \<Rightarrow> unit fence" where
  "insist b msg = (if b then ret () else raise (ValueError msg))"

text \<open>\<^verbatim>\<open>stat.S_ISREG\<close>, \<^verbatim>\<open>stat.S_IMODE\<close>\<close>

definition s_isreg :: "int \<Rightarrow> bool" where
  "s_isreg mode \<longleftrightarrow> mode AND 0xF000 = 0x8000"

definition s_imode :: "int \<Rightarrow> int" where
  "s_imode mode = mode AND 0xFFF"

text \<open>A directory only root can replace entries of: mode bits 022 clear, or the sticky bit set\<close>

definition safe_directory :: "pyval \<Rightarrow> bool" where
  "safe_directory v \<longleftrightarrow> st v ''st_uid'' = 0 \<and> (st v ''st_mode'' AND 0x12 = 0 \<or> st v ''st_mode'' AND 0x200 \<noteq> 0)"

definition safe_lock :: "pyval \<Rightarrow> bool" where
  "safe_lock v \<longleftrightarrow> s_isreg (st v ''st_mode'') \<and> st v ''st_uid'' = 0 \<and> s_imode (st v ''st_mode'') = 0x180
     \<and> st v ''st_nlink'' = 1"

section \<open>Scopes and lock files\<close>

text \<open>\<^verbatim>\<open>[A-Za-z0-9][A-Za-z0-9_.-]*\<close>, \<^verbatim>\<open>(?:vm|base)-[0-9]+-disk-[0-9]+\<close>\<close>

definition sid_re :: "string \<Rightarrow> bool" where
  "sid_re = head_tail alnum name_char None"

definition disk_tail :: "string \<Rightarrow> bool" where
  "disk_tail s \<longleftrightarrow>
     (let n = takeWhile digit s; r = dropWhile digit s in
      n \<noteq> [] \<and> take 6 r = ''-disk-'' \<and> drop 6 r \<noteq> [] \<and> list_all digit (drop 6 r))"

definition volume_name :: "string \<Rightarrow> bool" where
  "volume_name s \<longleftrightarrow> (take 3 s = ''vm-'' \<and> disk_tail (drop 3 s)) \<or> (take 5 s = ''base-'' \<and> disk_tail (drop 5 s))"

definition families :: "string list" where
  "families = [''lazy'', ''thick-transition'']"

definition lock_name :: "string \<Rightarrow> string \<Rightarrow> string \<Rightarrow> string" where
  "lock_name family sid volume = ''pve-sharedlvmthin-'' @ family @ ''-'' @ sid @ ''-'' @ volume @ ''.lock''"

section \<open>Holding the locks\<close>

text \<open>\<^verbatim>\<open>sorted(canonical)\<close> of the pairs, lexicographically by storage and volume\<close>

definition canonical_pairs :: "(string \<times> string) list \<Rightarrow> (string \<times> string) list" where
  "canonical_pairs ps = sort_key (\<lambda>(sid, vol). [sid, vol]) (remdups ps)"

definition executor_pair :: "pyval \<Rightarrow> (string \<times> string) res" where
  "executor_pair row =
     (case row of
        PTuple [sid, volume] \<Rightarrow>
          if matches sid_re sid \<and> matches volume_name volume then Inr (str_of sid, str_of volume)
          else Inl (ValueError ''invalid executor identity'')
      | _ \<Rightarrow> Inl (ValueError ''executor identity must be a storage/volume tuple''))"

definition executor_scope :: "pyval list \<Rightarrow> (string \<times> string) list res" where
  "executor_scope identities =
     (if identities = [] \<or> length identities > 100000 then Inl (ValueError ''missing or excessive executor scope'')
      else rbind (rmap executor_pair identities) (\<lambda>ps. Inr (canonical_pairs ps)))"

definition lock_names :: "(string \<times> string) list \<Rightarrow> string list" where
  "lock_names ps = concat (map (\<lambda>(sid, vol). map (\<lambda>f. lock_name f sid vol) families) ps)"

text \<open>One lock: opened, recorded for the final closing, examined, taken, and its path examined again\<close>

definition acquire :: "oscall backend \<Rightarrow> int \<Rightarrow> string \<Rightarrow> unit fence" where
  "acquire \<beta> dir filename =
     bnd (call_int \<beta> (OpenLock dir filename)) (\<lambda>fd.
     andthen (writes (\<lambda>fds. fds @ [fd]))
     (bnd (call \<beta> (Fstat fd)) (\<lambda>observed.
      andthen (insist (safe_lock observed) ''unsafe existing executor lock'')
     (andthen (run_call \<beta> (Flock fd))
     (bnd (call \<beta> (StatAt dir filename)) (\<lambda>current.
      insist (st_identity current = st_identity observed) ''executor lock path changed during acquisition''))))))"

text \<open>The guarded part and the statements of \<^verbatim>\<open>finally\<close>\<close>

definition lock_and_run :: "oscall backend \<Rightarrow> int \<Rightarrow> (string \<times> string) list \<Rightarrow> pyval fence" where
  "lock_and_run \<beta> dir pairs =
     bnd (call \<beta> (Fstat dir)) (\<lambda>ds.
     andthen (insist (safe_directory ds) ''unsafe executor lock directory'')
    (andthen (foreach (acquire \<beta> dir) (lock_names pairs))
    (bnd (reads (\<lambda>fds. fds)) (\<lambda>fds. call \<beta> (Body fds)))))"

definition release :: "oscall backend \<Rightarrow> int \<Rightarrow> unit fence" where
  "release \<beta> dir =
     bnd (reads (\<lambda>fds. fds)) (\<lambda>fds.
     andthen (foreach (\<lambda>fd. run_call \<beta> (Close fd)) (rev fds)) (run_call \<beta> (Close dir)))"

definition hold_executors :: "oscall backend \<Rightarrow> pyval list \<Rightarrow> string \<Rightarrow> pyval fence" where
  "hold_executors \<beta> identities directory =
     bnd (lift (executor_scope identities)) (\<lambda>pairs.
     andthen (writes (\<lambda>_. []))
     (bnd (call_int \<beta> (OpenDir directory)) (\<lambda>dir.
      ensure (lock_and_run \<beta> dir pairs) (release \<beta> dir))))"

section \<open>Inherited descriptors\<close>

definition unpack2 :: "pyval \<Rightarrow> (pyval \<times> pyval) res" where
  "unpack2 v = rbind (pyiter v) (\<lambda>xs. case xs of [a, b] \<Rightarrow> Inr (a, b) | _ \<Rightarrow> Inl (ValueError ''values to unpack''))"

definition inherited_pair :: "pyval \<Rightarrow> (string \<times> string) res" where
  "inherited_pair row =
     rbind (unpack2 row) (\<lambda>(sid, volume).
     if matches sid_re sid \<and> matches volume_name volume then Inr (str_of sid, str_of volume)
     else Inl (ValueError ''invalid inherited executor scope''))"

definition inherited_names :: "pyval list \<Rightarrow> string list res" where
  "inherited_names identities = rbind (rmap inherited_pair identities) (\<lambda>ps. Inr (remdups (lock_names ps)))"

definition inherited_descriptors :: "string list \<Rightarrow> pyval list \<Rightarrow> int list res" where
  "inherited_descriptors names fds =
     rbind (rand (Inr (names \<noteq> [] \<and> length fds = length names))
             (if list_all hashable fds then Inr (distinct fds \<and> list_all (\<lambda>fd. integer fd 3) fds)
              else Inl (TypeError ''unhashable type''))) (\<lambda>ok.
     if ok then Inr (map int_of fds)
     else Inl (ValueError ''incomplete or ambiguous inherited executor descriptors''))"

type_synonym lock_files = "((int \<times> int) \<times> string) list"

text \<open>The loop over the names: each a safe file of its own inode\<close>

fun examine_files :: "oscall backend \<Rightarrow> int \<Rightarrow> lock_files \<Rightarrow> string list \<Rightarrow> lock_files fence" where
  "examine_files \<beta> dir files [] = ret files"
| "examine_files \<beta> dir files (name # names) =
     bnd (call \<beta> (StatAt dir name)) (\<lambda>observed.
     andthen (insist (safe_lock observed) ''unsafe inherited executor file'')
    (andthen (insist (st_identity observed \<notin> fst ` set files) ''executor files alias one inode'')
     (examine_files \<beta> dir (files @ [(st_identity observed, name)]) names)))"

definition blocking :: exc where "blocking = Foreign ''BlockingIOError''"

text \<open>A second open-file description must find the lock taken; the inherited one must not.\<close>

definition probe_lock :: "oscall backend \<Rightarrow> int \<Rightarrow> unit fence" where
  "probe_lock \<beta> probe =
     bnd (catch (andthen (run_call \<beta> (Flock probe)) (ret False))
                (\<lambda>e. if e = blocking then ret True else raise e)) (\<lambda>held.
     insist held ''inherited executor lock was not held'')"

definition verify_descriptor :: "oscall backend \<Rightarrow> int \<Rightarrow> lock_files \<Rightarrow> (int \<times> int) list \<Rightarrow> int \<Rightarrow> (int \<times> int) fence" where
  "verify_descriptor \<beta> dir files seen fd =
     bnd (call \<beta> (Fstat fd)) (\<lambda>observed.
     let ident = st_identity observed in
     case map_of files ident of
       None \<Rightarrow> raise (ValueError ''inherited descriptor does not match exact lock file'')
     | Some name \<Rightarrow>
         andthen (insist (ident \<notin> set seen) ''inherited descriptor does not match exact lock file'')
         (bnd (call_int \<beta> (OpenProbe dir name)) (\<lambda>probe.
          andthen
            (ensure
              (bnd (call \<beta> (Fstat probe)) (\<lambda>ps.
               andthen (insist (st_identity ps = ident) ''executor pathname changed during inherited proof'')
              (andthen (probe_lock \<beta> probe) (run_call \<beta> (Flock fd)))))
              (run_call \<beta> (Close probe)))
            (ret ident))))"

fun verify_descriptors :: "oscall backend \<Rightarrow> int \<Rightarrow> lock_files \<Rightarrow> (int \<times> int) list \<Rightarrow> int list \<Rightarrow> unit fence" where
  "verify_descriptors \<beta> dir files seen [] = ret ()"
| "verify_descriptors \<beta> dir files seen (fd # fds) =
     bnd (verify_descriptor \<beta> dir files seen fd) (\<lambda>ident. verify_descriptors \<beta> dir files (ident # seen) fds)"

definition verify_inherited_executors ::
    "oscall backend \<Rightarrow> (string list \<Rightarrow> string list) \<Rightarrow> pyval list \<Rightarrow> pyval list \<Rightarrow> string \<Rightarrow> unit fence" where
  "verify_inherited_executors \<beta> walk identities descriptors directory =
     bnd (lift (inherited_names identities)) (\<lambda>names.
     bnd (lift (inherited_descriptors names descriptors)) (\<lambda>fds.
     bnd (call_int \<beta> (OpenDir directory)) (\<lambda>dir.
     ensure
       (bnd (call \<beta> (Fstat dir)) (\<lambda>ds.
        andthen (insist (safe_directory ds) ''unsafe inherited executor directory'')
       (bnd (examine_files \<beta> dir [] (walk names)) (\<lambda>files. verify_descriptors \<beta> dir files [] fds))))
       (run_call \<beta> (Close dir)))))"

section \<open>The sealed context\<close>

fun dumps_plain :: "pyval \<Rightarrow> string" where
  "dumps_plain (PList vs) = CHR ''['' # commas (map dumps_plain vs) @ '']''"
| "dumps_plain (PTuple vs) = CHR ''['' # commas (map dumps_plain vs) @ '']''"
| "dumps_plain (PDict d) = CHR ''{'' # commas (map (\<lambda>(k, v). quote k @ CHR '':'' # dumps_plain v) d) @ ''}''"
| "dumps_plain v = dumps v"

definition context_bytes :: "pyval list \<Rightarrow> pyval list \<Rightarrow> pyval \<Rightarrow> string" where
  "context_bytes identities descriptors boot =
     dumps_plain (PDict [(''schema'', PInt 1), (''scopes'', PList identities), (''fds'', PList descriptors), (''boot'', boot)])"

definition max_context :: int where "max_context = 8 * 1024 * 1024"

function write_all :: "oscall backend \<Rightarrow> int \<Rightarrow> string \<Rightarrow> unit fence" where
  "write_all \<beta> fd remaining =
     (if remaining = [] then ret ()
      else bnd (call_int \<beta> (Write fd remaining)) (\<lambda>written.
        if written < 1 then raise (Foreign ''OSError: incomplete executor context write'')
        else write_all \<beta> fd (drop (nat written) remaining)))"
  by pat_completeness auto
termination
  by (relation "measure (\<lambda>(\<beta>, fd, r). length r)") auto

declare write_all.simps [simp del]

definition create_sealed_context :: "oscall backend \<Rightarrow> pyval list \<Rightarrow> pyval list \<Rightarrow> pyval \<Rightarrow> int fence" where
  "create_sealed_context \<beta> identities descriptors boot =
     (let data = context_bytes identities descriptors boot in
      andthen (insist (int (length data) \<le> max_context) ''package executor context exceeds bounded transport'')
      (bnd (call_int \<beta> MemfdCreate) (\<lambda>fd.
       on_error
         (andthen (run_call \<beta> (Fchmod fd)) (andthen (write_all \<beta> fd data) (andthen (run_call \<beta> (AddSeals fd)) (ret fd))))
         (\<lambda>_. run_call \<beta> (Close fd)))))"

text \<open>The write, grow, shrink and seal seals\<close>

definition all_seals :: int where "all_seals = 0xF"

text \<open>The decoder hands every object's pairs to the hook, which refuses a repeated key.\<close>

fun unique_pairs :: "pyval \<Rightarrow> bool" where
  "unique_pairs (PList vs) = list_all unique_pairs vs"
| "unique_pairs (PDict d) = (distinct (map fst d) \<and> list_all (\<lambda>kv. unique_pairs (snd kv)) d)"
| "unique_pairs _ = True"

definition decode_context :: "(string \<Rightarrow> pyval res) \<Rightarrow> string \<Rightarrow> pyval res" where
  "decode_context pairs raw =
     rbind (pairs raw) (\<lambda>v. if unique_pairs v then Inr v else Inl (ValueError ''duplicate executor context key''))"

definition sealed_object :: "pyval \<Rightarrow> int \<Rightarrow> bool" where
  "sealed_object v seals \<longleftrightarrow> s_isreg (st v ''st_mode'') \<and> st v ''st_uid'' = 0 \<and> s_imode (st v ''st_mode'') = 0x180
     \<and> 0 < st v ''st_size'' \<and> st v ''st_size'' \<le> max_context \<and> seals AND all_seals = all_seals"

definition context_ok :: "pyval \<Rightarrow> pyval \<Rightarrow> bool" where
  "context_ok ctx boot \<longleftrightarrow> exact ctx [''schema'', ''scopes'', ''fds'', ''boot''] \<and> fld ctx ''schema'' = PInt 1
     \<and> pyeq (fld ctx ''boot'') boot \<and> is_list (fld ctx ''scopes'') \<and> is_list (fld ctx ''fds'')"

definition read_sealed_context ::
    "oscall backend \<Rightarrow> (string list \<Rightarrow> string list) \<Rightarrow> (string \<Rightarrow> pyval res) \<Rightarrow> pyval \<Rightarrow> pyval \<Rightarrow> string \<Rightarrow> pyval fence" where
  "read_sealed_context \<beta> walk pairs fd boot directory =
     andthen (insist (integer fd 3) ''invalid executor context descriptor'')
     (bnd (call \<beta> (Fstat (int_of fd))) (\<lambda>observed.
      andthen (insist (sealed_object observed all_seals) ''executor context is not an immutable root-owned sealed object'')
     (bnd (call_int \<beta> (GetSeals (int_of fd))) (\<lambda>seals.
      andthen (insist (sealed_object observed seals) ''executor context is not an immutable root-owned sealed object'')
     (bnd (call \<beta> (Pread (int_of fd) (st observed ''st_size'' + 1))) (\<lambda>raw.
      let bytes = (case raw of PBytes b \<Rightarrow> b | _ \<Rightarrow> []) in
      andthen (insist (int (length bytes) = st observed ''st_size'') ''executor context read is incomplete'')
     (bnd (lift (decode_context pairs bytes)) (\<lambda>ctx.
      andthen (insist (context_ok ctx boot) ''executor context identity/schema mismatch'')
     (andthen (verify_inherited_executors \<beta> walk (list_of (fld ctx ''scopes'')) (list_of (fld ctx ''fds'')) directory)
      (ret ctx))))))))))"

section \<open>Descriptors are returned\<close>

text \<open>The descriptors a history opened, and those it closed\<close>

fun opened :: "oscall hist \<Rightarrow> int list" where
  "opened [] = []"
| "opened ((OpenDir d, Inr v) # h) = int_of v # opened h"
| "opened ((OpenLock d n, Inr v) # h) = int_of v # opened h"
| "opened (qr # h) = opened h"

fun closed :: "oscall hist \<Rightarrow> int list" where
  "closed [] = []"
| "closed ((Close fd, r) # h) = fd # closed h"
| "closed (qr # h) = closed h"

lemma opened_append: "opened (h @ t) = opened h @ opened t"
  by (induction h rule: opened.induct) auto

lemma closed_append: "closed (h @ t) = closed h @ closed t"
  by (induction h rule: closed.induct) auto

lemmas fd_hist = opened_append closed_append

lemma opened_failed [simp]: "opened [(q, Inl e)] = []"
  by (cases q) simp_all

lemma wp_insist [wp_simps]: "wp (insist b msg) Q E = (if b then Q () else E (ValueError msg))"
  by (simp add: insist_def wp_simps)

lemma wp_run_call [wp_simps]:
  "wp (run_call \<beta> q) Q E =
     (\<lambda>(s, h). case \<beta> h q of Inl e \<Rightarrow> E e (s, h @ [(q, Inl e)]) | Inr v \<Rightarrow> Q () (s, h @ [(q, Inr v)]))"
  by (simp add: run_call_def wp_simps fun_eq_iff split: sum.splits)

lemma wp_call_int [wp_simps]:
  "wp (call_int \<beta> q) Q E =
     (\<lambda>(s, h). case \<beta> h q of Inl e \<Rightarrow> E e (s, h @ [(q, Inl e)]) | Inr v \<Rightarrow> Q (int_of v) (s, h @ [(q, Inr v)]))"
  by (simp add: call_int_def wp_simps fun_eq_iff split: sum.splits)

text \<open>While the locks are taken: everything opened is the directory and the recorded descriptors.\<close>

definition holding :: "int \<Rightarrow> int list \<times> oscall hist \<Rightarrow> bool" where
  "holding dir = (\<lambda>(fds, h). opened h = dir # fds \<and> closed h = [])"

text \<open>
  The descriptors closed are the first of those opened in the reverse order; some are left only when
  the history ends with a close that failed.
\<close>

definition balanced :: "pyval res \<Rightarrow> oscall hist \<Rightarrow> bool" where
  "balanced r h \<longleftrightarrow> (\<exists>left. rev (opened h) = closed h @ left
     \<and> (left = [] \<or> (\<exists>h0 fd e. h = h0 @ [(Close fd, Inl e)] \<and> r = Inl e)))"

lemma acquire_holding: "holding dir \<sigma> \<Longrightarrow> wp (acquire \<beta> dir name) (\<lambda>_. holding dir) (\<lambda>_. holding dir) \<sigma>"
  by (cases \<sigma>) (auto simp: acquire_def wp_simps holding_def fd_hist split: sum.splits)

lemma close_all:
  "wp (foreach (\<lambda>fd. run_call \<beta> (Close fd)) fds)
     (\<lambda>_ \<tau>. opened (snd \<tau>) = opened h \<and> closed (snd \<tau>) = closed h @ fds)
     (\<lambda>e \<tau>. opened (snd \<tau>) = opened h \<and> (\<exists>gone left h0 fd. fds = gone @ left \<and> closed (snd \<tau>) = closed h @ gone
        \<and> snd \<tau> = h0 @ [(Close fd, Inl e)])) (s, h)"
proof (induction fds arbitrary: h)
  case Nil
  then show ?case by (simp add: wp_simps)
next
  case (Cons fd fds)
  show ?case
  proof (cases "\<beta> h (Close fd)")
    case (Inl e)
    then show ?thesis by (simp add: wp_simps fd_hist exI [of _ "[fd]"])
  next
    case (Inr v)
    have "wp (foreach (\<lambda>fd. run_call \<beta> (Close fd)) fds)
       (\<lambda>_ \<tau>. opened (snd \<tau>) = opened h \<and> closed (snd \<tau>) = closed h @ fd # fds)
       (\<lambda>e \<tau>. opened (snd \<tau>) = opened h \<and> (\<exists>gone left h0 fd'. fd # fds = gone @ left \<and> closed (snd \<tau>) = closed h @ gone
          \<and> snd \<tau> = h0 @ [(Close fd', Inl e)])) (s, h @ [(Close fd, Inr v)])"
    proof (rule wp_mono [OF Cons.IH])
      fix e \<tau>
      assume "opened (snd \<tau>) = opened (h @ [(Close fd, Inr v)]) \<and> (\<exists>gone left h0 fd'. fds = gone @ left
         \<and> closed (snd \<tau>) = closed (h @ [(Close fd, Inr v)]) @ gone \<and> snd \<tau> = h0 @ [(Close fd', Inl e)])"
      then obtain gone left h0 fd' where "opened (snd \<tau>) = opened h" "fds = gone @ left"
        "closed (snd \<tau>) = closed h @ (fd # gone)" "snd \<tau> = h0 @ [(Close fd', Inl e)]" by (auto simp: fd_hist)
      then show "opened (snd \<tau>) = opened h \<and> (\<exists>gone left h0 fd'. fd # fds = gone @ left \<and> closed (snd \<tau>) = closed h @ gone
          \<and> snd \<tau> = h0 @ [(Close fd', Inl e)])"
        by (intro conjI exI [of _ "fd # gone"] exI [of _ left] exI [of _ h0] exI [of _ fd']) simp_all
    qed (simp add: fd_hist)
    with Inr show ?thesis by (simp add: wp_simps)
  qed
qed

text \<open>What the release leaves, with the exception it ends with\<close>

lemma release_balances:
  assumes "holding dir \<sigma>"
  shows "wp (release \<beta> dir) (\<lambda>_ \<tau>. rev (opened (snd \<tau>)) = closed (snd \<tau>))
     (\<lambda>e \<tau>. \<exists>left h0 fd. rev (opened (snd \<tau>)) = closed (snd \<tau>) @ left \<and> snd \<tau> = h0 @ [(Close fd, Inl e)]) \<sigma>"
proof -
  let ?Q = "\<lambda>_ \<tau>. rev (opened (snd \<tau>)) = closed (snd \<tau>)"
  let ?E = "\<lambda>e \<tau>. \<exists>left h0 fd. rev (opened (snd \<tau>)) = closed (snd \<tau>) @ left \<and> snd \<tau> = h0 @ [(Close fd, Inl e)]"
  obtain fds h where \<sigma>: "\<sigma> = (fds, h)" by (cases \<sigma>)
  with assms have h: "opened h = dir # fds" "closed h = []" by (simp_all add: holding_def)
  have last: "wp (run_call \<beta> (Close dir)) ?Q ?E \<tau>"
    if "opened (snd \<tau>) = opened h \<and> closed (snd \<tau>) = closed h @ rev fds" for \<tau>
    using that h by (cases \<tau>) (auto simp: wp_simps fd_hist split: sum.splits)
  have "wp (foreach (\<lambda>fd. run_call \<beta> (Close fd)) (rev fds)) (\<lambda>_. wp (run_call \<beta> (Close dir)) ?Q ?E) ?E (fds, h)"
  proof (rule wp_mono [OF close_all])
    fix e \<tau>
    assume "opened (snd \<tau>) = opened h \<and> (\<exists>gone left h0 fd. rev fds = gone @ left \<and> closed (snd \<tau>) = closed h @ gone
        \<and> snd \<tau> = h0 @ [(Close fd, Inl e)])"
    then obtain gone left h0 fd where g: "opened (snd \<tau>) = dir # fds" "rev fds = gone @ left"
      "closed (snd \<tau>) = gone" "snd \<tau> = h0 @ [(Close fd, Inl e)]" using h by auto
    then have "rev (opened (snd \<tau>)) = closed (snd \<tau>) @ (left @ [dir])" by simp
    with g(4) show "?E e \<tau>" by blast
  qed (rule last)
  with \<sigma> show ?thesis by (simp add: release_def wp_simps)
qed

lemma lock_and_run_holding:
  assumes "int_of v = dir"
  shows "wp (lock_and_run \<beta> dir pairs) (\<lambda>_. holding dir) (\<lambda>_. holding dir) ([], [(OpenDir directory, Inr v)])"
proof -
  have loop: "wp (foreach (acquire \<beta> dir) (lock_names pairs)) (\<lambda>_. holding dir) (\<lambda>_. holding dir) \<sigma>"
    if "holding dir \<sigma>" for \<sigma>
    using that by (intro wp_foreach_inv acquire_holding)
  have body: "wp (bnd (reads (\<lambda>fds. fds)) (\<lambda>fds. call \<beta> (Body fds))) (\<lambda>_. holding dir) (\<lambda>_. holding dir) \<sigma>"
    if "holding dir \<sigma>" for \<sigma>
    using that by (cases \<sigma>) (auto simp: wp_simps holding_def fd_hist split: sum.splits)
  have start: "holding dir ([], [(OpenDir directory, Inr v), (Fstat dir, r)])" for r
    using assms by (simp add: holding_def)
  have rest: "wp (andthen (foreach (acquire \<beta> dir) (lock_names pairs)) (bnd (reads (\<lambda>fds. fds)) (\<lambda>fds. call \<beta> (Body fds))))
      (\<lambda>_. holding dir) (\<lambda>_. holding dir) \<sigma>" if "holding dir \<sigma>" for \<sigma>
    unfolding wp_andthen by (rule wp_mono [OF loop [OF that]]) (auto intro: body)
  show ?thesis
    unfolding lock_and_run_def wp_bnd [of "call _ _"] wp_andthen [of "insist _ _"]
    by (auto simp: wp_call wp_insist start split: sum.splits intro: rest)
qed

text \<open>C24: whatever the operating system answers or refuses, and whatever the guarded transaction does,
  the descriptors the lock holder opened are closed each once and in the reverse of the order of
  opening, and all of them have been closed when it ends, unless a close itself fails: then this
  close is the last call of the run, its exception is the outcome, and exactly the descriptors
  that would have been closed after it are left open.\<close>

theorem fence_balanced:
  "case hold_executors \<beta> identities directory (s, []) of (r, s', h) \<Rightarrow> balanced r h"
proof -
  let ?Q = "\<lambda>_ \<tau>. balanced (Inr PNone) (snd \<tau>)" and ?E = "\<lambda>e \<tau>. balanced (Inl e) (snd \<tau>)"
  have none_left: "rev (opened h) = closed h \<Longrightarrow> balanced r h" for r h by (simp add: balanced_def)
  have rel: "wp (release \<beta> dir) (\<lambda>_. P) ?E \<sigma>"
    if "holding dir \<sigma>" "\<And>\<tau>. rev (opened (snd \<tau>)) = closed (snd \<tau>) \<Longrightarrow> P \<tau>" for dir \<sigma> P
    by (rule wp_mono [OF release_balances [OF that(1)]]) (auto intro: that(2) simp: balanced_def)
  have guarded: "wp (ensure (lock_and_run \<beta> (int_of v) pairs) (release \<beta> (int_of v)))
      (\<lambda>_ \<tau>. balanced (Inr PNone) (snd \<tau>)) ?E ([], [(OpenDir directory, Inr v)])" for v pairs
    unfolding wp_ensure by (rule wp_mono [OF lock_and_run_holding [OF refl]]) (auto intro!: rel none_left)
  have all: "wp (hold_executors \<beta> identities directory) (\<lambda>_ \<tau>. balanced (Inr PNone) (snd \<tau>)) ?E (s, [])"
    unfolding hold_executors_def wp_bnd wp_andthen wp_lift wp_writes wp_call_int
    by (auto intro: none_left split: sum.splits intro!: guarded)
  obtain r s' h where run: "hold_executors \<beta> identities directory (s, []) = (r, s', h)" by (metis prod_cases3)
  have "balanced r h"
  proof (cases r)
    case (Inl e)
    with wp_exc [OF all] run show ?thesis by fastforce
  next
    case (Inr v)
    with wp_value [OF all] run have "balanced (Inr PNone) h" by fastforce
    with Inr show ?thesis by (simp add: balanced_def)
  qed
  with run show ?thesis by simp
qed

section \<open>No transaction without the locks\<close>

definition acquired :: "int \<Rightarrow> string \<times> int \<Rightarrow> oscall hist \<Rightarrow> bool" where
  "acquired dir nf seg \<longleftrightarrow>
     (\<exists>opn stat taken again. int_of opn = snd nf \<and> safe_lock stat \<and> st_identity again = st_identity stat \<and>
        seg = [(OpenLock dir (fst nf), Inr opn), (Fstat (snd nf), Inr stat), (Flock (snd nf), Inr taken),
               (StatAt dir (fst nf), Inr again)])"

definition lock_prefix :: "string \<Rightarrow> string list \<Rightarrow> int list \<Rightarrow> oscall hist \<Rightarrow> bool" where
  "lock_prefix directory names fds h \<longleftrightarrow>
     (\<exists>d ds segs. safe_directory ds \<and> length fds = length names
        \<and> list_all2 (acquired (int_of d)) (zip names fds) segs
        \<and> h = [(OpenDir directory, Inr d), (Fstat (int_of d), Inr ds)] @ concat segs)"

fun is_body :: "oscall \<times> pyres \<Rightarrow> bool" where
  "is_body (Body fds, r) = True"
| "is_body _ = False"

fun is_close :: "oscall \<times> pyres \<Rightarrow> bool" where
  "is_close (Close fd, r) = True"
| "is_close _ = False"

definition bodies :: "oscall hist \<Rightarrow> oscall hist" where "bodies h = filter is_body h"

lemma bodies_simps [simp]: "bodies [] = []" "bodies (h @ t) = bodies h @ bodies t"
  "bodies (x # h) = (if is_body x then x # bodies h else bodies h)"
  by (simp_all add: bodies_def)

lemma acquired_bodies: "acquired dir nf seg \<Longrightarrow> bodies seg = []"
  by (auto simp: acquired_def)

lemma lock_prefix_bodies: "lock_prefix directory names fds h \<Longrightarrow> bodies h = []"
proof -
  assume "lock_prefix directory names fds h"
  then obtain d ds segs where s: "list_all2 (acquired (int_of d)) (zip names fds) segs"
    "h = [(OpenDir directory, Inr d), (Fstat (int_of d), Inr ds)] @ concat segs"
    by (auto simp: lock_prefix_def)
  have "bodies (concat segs) = []" if "list_all2 (acquired (int_of d)) xs segs" for xs
    using that by (induction rule: list_all2_induct) (auto dest: acquired_bodies)
  with s show ?thesis by auto
qed

lemma acquire_segment:
  "wp (acquire \<beta> dir name) (\<lambda>_ (fds', h'). \<exists>fd seg. fds' = fds @ [fd] \<and> h' = h @ seg \<and> acquired dir (name, fd) seg)
     (\<lambda>_ (fds', h'). \<exists>t. h' = h @ t \<and> bodies t = []) (fds, h)"
  by (auto simp: acquire_def wp_simps acquired_def split: sum.splits)

text \<open>The directory stays the one the prefix begins with.\<close>

definition prefix_at :: "string \<Rightarrow> int \<Rightarrow> string list \<Rightarrow> int list \<times> oscall hist \<Rightarrow> bool" where
  "prefix_at directory dir names = (\<lambda>(fds, h).
     \<exists>d ds segs. int_of d = dir \<and> safe_directory ds \<and> length fds = length names
        \<and> list_all2 (acquired dir) (zip names fds) segs
        \<and> h = [(OpenDir directory, Inr d), (Fstat dir, Inr ds)] @ concat segs)"

lemma prefix_at_lock_prefix: "prefix_at directory dir names (fds, h) \<Longrightarrow> lock_prefix directory names fds h"
  unfolding prefix_at_def lock_prefix_def by auto

lemma acquire_prefix:
  assumes "prefix_at directory dir names \<sigma>"
  shows "wp (acquire \<beta> dir name) (\<lambda>_. prefix_at directory dir (names @ [name])) (\<lambda>_ \<tau>. bodies (snd \<tau>) = []) \<sigma>"
proof -
  obtain fds h where \<sigma>: "\<sigma> = (fds, h)" by (cases \<sigma>)
  with assms obtain d ds segs where p: "int_of d = dir" "safe_directory ds" "length fds = length names"
    "list_all2 (acquired dir) (zip names fds) segs"
    "h = [(OpenDir directory, Inr d), (Fstat dir, Inr ds)] @ concat segs"
    by (auto simp: prefix_at_def)
  have b: "bodies h = []"
    using assms \<sigma> by (auto intro: lock_prefix_bodies prefix_at_lock_prefix)
  show ?thesis unfolding \<sigma>
  proof (rule wp_mono [OF acquire_segment])
    fix u \<tau>
    assume "case \<tau> of (fds', h') \<Rightarrow> \<exists>fd seg. fds' = fds @ [fd] \<and> h' = h @ seg \<and> acquired dir (name, fd) seg"
    then obtain fd seg where t: "\<tau> = (fds @ [fd], h @ seg)" "acquired dir (name, fd) seg" by (cases \<tau>) auto
    have "list_all2 (acquired dir) (zip (names @ [name]) (fds @ [fd])) (segs @ [seg])"
      using p(3,4) t(2) by (simp add: list_all2_appendI)
    then show "prefix_at directory dir (names @ [name]) \<tau>"
      unfolding prefix_at_def t(1) prod.case
      by (intro exI [of _ d] exI [of _ ds] exI [of _ "segs @ [seg]"]) (simp add: p)
  next
    fix e \<tau>
    assume "case \<tau> of (fds', h') \<Rightarrow> \<exists>t. h' = h @ t \<and> bodies t = []"
    then show "bodies (snd \<tau>) = []" using b by (cases \<tau>) auto
  qed
qed

definition ran_locked :: "string \<Rightarrow> string list \<Rightarrow> oscall hist \<Rightarrow> bool" where
  "ran_locked directory names h \<longleftrightarrow>
     (\<exists>before fds x after. h = before @ [(Body fds, x)] @ after \<and> lock_prefix directory names fds before
        \<and> list_all is_close after)"

lemma ran_locked_close: "ran_locked directory names h \<Longrightarrow> ran_locked directory names (h @ [(Close fd, r)])"
proof -
  assume "ran_locked directory names h"
  then obtain before fds x after where "h = before @ [(Body fds, x)] @ after" "lock_prefix directory names fds before"
    "list_all is_close after" by (auto simp: ran_locked_def)
  then show ?thesis
    unfolding ran_locked_def
    by (intro exI [of _ before] exI [of _ fds] exI [of _ x] exI [of _ "after @ [(Close fd, r)]"]) simp
qed

lemma lock_and_run_locked:
  assumes "int_of v = dir"
  shows "wp (lock_and_run \<beta> dir pairs) (\<lambda>_ \<tau>. ran_locked directory (lock_names pairs) (snd \<tau>))
     (\<lambda>_ \<tau>. bodies (snd \<tau>) = [] \<or> ran_locked directory (lock_names pairs) (snd \<tau>)) ([], [(OpenDir directory, Inr v)])"
proof -
  let ?E = "\<lambda>_ \<tau>. bodies (snd \<tau>) = [] \<or> ran_locked directory (lock_names pairs) (snd \<tau>)"
  have start: "prefix_at directory dir [] ([], [(OpenDir directory, Inr v), (Fstat dir, Inr ds)])" if "safe_directory ds" for ds
    using assms that by (auto simp: prefix_at_def)
  have loop: "wp (foreach (acquire \<beta> dir) (lock_names pairs)) (\<lambda>_. prefix_at directory dir (lock_names pairs)) ?E \<sigma>"
    if "prefix_at directory dir [] \<sigma>" for \<sigma>
    using that by (intro wp_foreach [where I = "prefix_at directory dir"] wp_mono [OF acquire_prefix]) auto
  have body: "wp (bnd (reads (\<lambda>fds. fds)) (\<lambda>fds. call \<beta> (Body fds)))
      (\<lambda>_ \<tau>. ran_locked directory (lock_names pairs) (snd \<tau>)) ?E \<sigma>"
    if p: "prefix_at directory dir (lock_names pairs) \<sigma>" for \<sigma>
  proof -
    obtain fds h where \<sigma>: "\<sigma> = (fds, h)" by (cases \<sigma>)
    with p have "ran_locked directory (lock_names pairs) (h @ [(Body fds, x)])" for x
      unfolding ran_locked_def
      by (intro exI [of _ h] exI [of _ fds] exI [of _ x] exI [of _ "[]"]) (auto intro: prefix_at_lock_prefix)
    with \<sigma> show ?thesis by (auto simp: wp_simps split: sum.splits)
  qed
  have rest: "wp (andthen (foreach (acquire \<beta> dir) (lock_names pairs)) (bnd (reads (\<lambda>fds. fds)) (\<lambda>fds. call \<beta> (Body fds))))
      (\<lambda>_ \<tau>. ran_locked directory (lock_names pairs) (snd \<tau>)) ?E \<sigma>" if "prefix_at directory dir [] \<sigma>" for \<sigma>
    unfolding wp_andthen by (rule wp_mono [OF loop [OF that]]) (auto intro: body)
  show ?thesis
    unfolding lock_and_run_def wp_bnd [of "call _ _"] wp_andthen [of "insist _ _"]
    by (auto simp: wp_call wp_insist split: sum.splits intro: rest start)
qed

lemma canonical_pairs_sorted:
  "sorted_wrt (<) (map (\<lambda>(sid, vol). [sid, vol]) (canonical_pairs ps)) \<and> set (canonical_pairs ps) = set ps"
proof -
  have "inj_on (\<lambda>(sid, vol). [sid, vol]) (set ps)" by (auto simp: inj_on_def)
  then show ?thesis
    by (auto simp: canonical_pairs_def strict_sorted_iff distinct_map)
qed

text \<open>C25: the guarded transaction runs only after the directory was found safe and every lock of the
  scope, in the strict order of storage and volume, the lazy lock of a volume before its transition
  lock, was opened, found to be a root-owned private regular file of one name, locked, and found again
  under its path; it runs at most once, and nothing but closing follows it.\<close>

theorem fence_locks_before_body:
  "bodies (snd (snd (hold_executors \<beta> identities directory (s, [])))) = [] \<or>
   (\<exists>ps before fds x after. rmap executor_pair identities = Inr ps \<and>
      snd (snd (hold_executors \<beta> identities directory (s, []))) = before @ [(Body fds, x)] @ after \<and>
      lock_prefix directory (lock_names (canonical_pairs ps)) fds before \<and> list_all is_close after \<and>
      sorted_wrt (<) (map (\<lambda>(sid, vol). [sid, vol]) (canonical_pairs ps)) \<and> set (canonical_pairs ps) = set ps)"
proof -
  let ?ran = "\<lambda>pairs \<tau>. bodies (snd \<tau>) = [] \<or> ran_locked directory (lock_names pairs) (snd \<tau>)"
  let ?P = "\<lambda>_ \<tau>. bodies (snd \<tau>) = [] \<or> (\<exists>ps. rmap executor_pair identities = Inr ps
      \<and> ran_locked directory (lock_names (canonical_pairs ps)) (snd \<tau>))"
  have rel: "wp (release \<beta> dir) (\<lambda>_. ?ran pairs) (\<lambda>_. ?ran pairs) \<sigma>" if "?ran pairs \<sigma>" for dir pairs \<sigma>
  proof -
    have one: "wp (run_call \<beta> (Close fd)) (\<lambda>_. ?ran pairs) (\<lambda>_. ?ran pairs) \<tau>" if "?ran pairs \<tau>" for fd \<tau>
      using that by (cases \<tau>) (auto simp: wp_simps intro: ran_locked_close split: sum.splits)
    have all: "wp (foreach (\<lambda>fd. run_call \<beta> (Close fd)) fds) (\<lambda>_. ?ran pairs) (\<lambda>_. ?ran pairs) \<tau>"
      if "?ran pairs \<tau>" for fds \<tau>
      using that one by (intro wp_foreach_inv)
    have "wp (foreach (\<lambda>fd. run_call \<beta> (Close fd)) fds) (\<lambda>_. wp (run_call \<beta> (Close dir)) (\<lambda>_. ?ran pairs) (\<lambda>_. ?ran pairs))
        (\<lambda>_. ?ran pairs) \<sigma>" for fds
      by (rule wp_mono [OF all [OF that]]) (rule one, assumption+)
    then show ?thesis
      unfolding release_def wp_bnd wp_andthen wp_reads by (cases \<sigma>) simp
  qed
  have "wp (ensure (lock_and_run \<beta> (int_of v) pairs) (release \<beta> (int_of v))) (\<lambda>_. ?ran pairs) (\<lambda>_. ?ran pairs)
      ([], [(OpenDir directory, Inr v)])" for v pairs
    unfolding wp_ensure by (rule wp_mono [OF lock_and_run_locked [OF refl]]) (auto intro: rel)
  then have "wp (hold_executors \<beta> identities directory) ?P ?P (s, [])"
    unfolding hold_executors_def wp_bnd wp_andthen wp_lift wp_writes wp_call_int executor_scope_def
    by (auto split: sum.splits if_splits elim!: rbindE intro: wp_mono)
  then have "?P () (snd (hold_executors \<beta> identities directory (s, [])))" by (simp only: wp_both)
  then show ?thesis using canonical_pairs_sorted unfolding ran_locked_def by blast
qed

section \<open>Inherited descriptors own the locks\<close>

lemma insist_value [simp]: "insist b msg \<sigma> = (Inr u, \<tau>) \<longleftrightarrow> b \<and> \<tau> = \<sigma>"
  by (simp add: insist_def)

lemma run_call_value [simp]:
  "run_call \<beta> q (s, h) = (Inr u, \<tau>) \<longleftrightarrow> (\<exists>v. \<beta> h q = Inr v \<and> \<tau> = (s, h @ [(q, Inr v)]))"
  by (auto simp: run_call_def elim!: bnd_value intro: bnd_run [THEN trans])

lemma call_int_value [simp]:
  "call_int \<beta> q (s, h) = (Inr n, \<tau>) \<longleftrightarrow> (\<exists>v. \<beta> h q = Inr v \<and> n = int_of v \<and> \<tau> = (s, h @ [(q, Inr v)]))"
  by (auto simp: call_int_def elim!: bnd_value intro: bnd_run [THEN trans])

lemma probe_lock_value:
  assumes "probe_lock \<beta> probe (s, h) = (Inr u, \<tau>)"
  shows "\<tau> = (s, h @ [(Flock probe, Inl blocking)])"
proof -
  from assms obtain held \<upsilon> where
    c: "catch (andthen (run_call \<beta> (Flock probe)) (ret False)) (\<lambda>e. if e = blocking then ret True else raise e) (s, h)
        = (Inr held, \<upsilon>)" and "held" "\<tau> = \<upsilon>"
    by (auto simp: probe_lock_def elim!: bnd_value)
  with c show ?thesis
    by (cases "\<beta> h (Flock probe)")
       (auto simp: catch_def andthen_def bnd_def run_call_def call_def ret_def raise_def split: if_splits)
qed

text \<open>The calls that verify one descriptor\<close>

definition verified :: "int \<Rightarrow> lock_files \<Rightarrow> int \<Rightarrow> int \<times> int \<Rightarrow> oscall hist \<Rightarrow> bool" where
  "verified dir files fd ident seg \<longleftrightarrow>
     (\<exists>name obs opn ps taken c. map_of files ident = Some name \<and> st_identity obs = ident \<and> st_identity ps = ident \<and>
        seg = [(Fstat fd, Inr obs), (OpenProbe dir name, Inr opn), (Fstat (int_of opn), Inr ps),
               (Flock (int_of opn), Inl blocking), (Flock fd, Inr taken), (Close (int_of opn), Inr c)])"

lemma verify_descriptor_value:
  assumes "verify_descriptor \<beta> dir files seen fd (s, h) = (Inr ident, \<tau>)"
  shows "ident \<notin> set seen \<and> (\<exists>seg. \<tau> = (s, h @ seg) \<and> verified dir files fd ident seg)"
proof -
  from assms obtain obs where o: "\<beta> h (Fstat fd) = Inr obs" and
    r: "(case map_of files (st_identity obs) of
       None \<Rightarrow> raise (ValueError ''inherited descriptor does not match exact lock file'')
     | Some name \<Rightarrow>
         andthen (insist (st_identity obs \<notin> set seen) ''inherited descriptor does not match exact lock file'')
         (bnd (call_int \<beta> (OpenProbe dir name)) (\<lambda>probe.
          andthen
            (ensure
              (bnd (call \<beta> (Fstat probe)) (\<lambda>ps.
               andthen (insist (st_identity ps = st_identity obs) ''executor pathname changed during inherited proof'')
              (andthen (probe_lock \<beta> probe) (run_call \<beta> (Flock fd)))))
              (run_call \<beta> (Close probe)))
            (ret (st_identity obs))))) (s, h @ [(Fstat fd, Inr obs)]) = (Inr ident, \<tau>)"
    unfolding verify_descriptor_def Let_def by (auto elim!: bnd_value)
  obtain name where n: "map_of files (st_identity obs) = Some name"
    using r by (cases "map_of files (st_identity obs)") simp_all
  from r [unfolded n option.case] show ?thesis
    by (elim andthen_value bnd_value ensure_value)
       (auto simp: n verified_def elim!: andthen_value bnd_value dest!: probe_lock_value)
qed

lemma verify_descriptors_value:
  assumes "verify_descriptors \<beta> dir files seen fds (s, h) = (Inr u, \<tau>)"
  shows "\<exists>idents segs. distinct idents \<and> set idents \<inter> set seen = {} \<and> \<tau> = (s, h @ concat segs) \<and>
     list_all2 (\<lambda>(fd, ident) seg. verified dir files fd ident seg) (zip fds idents) segs \<and> length idents = length fds"
  using assms
proof (induction fds arbitrary: seen h u)
  case Nil
  then show ?case by (intro exI [of _ "[]"]) simp
next
  case (Cons fd fds)
  from Cons.prems obtain ident \<upsilon> where v: "verify_descriptor \<beta> dir files seen fd (s, h) = (Inr ident, \<upsilon>)"
    and rest: "verify_descriptors \<beta> dir files (ident # seen) fds \<upsilon> = (Inr u, \<tau>)"
    by (auto elim!: bnd_value)
  from verify_descriptor_value [OF v] obtain seg where seg: "ident \<notin> set seen" "\<upsilon> = (s, h @ seg)"
    "verified dir files fd ident seg" by blast
  from Cons.IH [OF rest [unfolded seg(2)]] obtain idents segs where i: "distinct idents"
    "set idents \<inter> set (ident # seen) = {}" "\<tau> = (s, (h @ seg) @ concat segs)"
    "list_all2 (\<lambda>(fd, ident) seg. verified dir files fd ident seg) (zip fds idents) segs" "length idents = length fds"
    by blast
  with seg show ?case
    by (intro exI [of _ "ident # idents"] exI [of _ "seg # segs"]) auto
qed

text \<open>The files examined: one inode each, safe, in the order walked\<close>

lemma examine_files_value:
  assumes "examine_files \<beta> dir files names (s, h) = (Inr files', \<tau>)" and "distinct (map fst files)"
  shows "\<exists>stats. files' = files @ zip (map st_identity stats) names \<and> length stats = length names \<and>
     list_all safe_lock stats \<and> distinct (map fst files') \<and>
     \<tau> = (s, h @ map (\<lambda>(name, v). (StatAt dir name, Inr v)) (zip names stats))"
  using assms
proof (induction names arbitrary: files h)
  case Nil
  then show ?case by simp
next
  case (Cons name names)
  from Cons.prems(1) obtain v where v: "\<beta> h (StatAt dir name) = Inr v" "safe_lock v" "st_identity v \<notin> fst ` set files"
    and rest: "examine_files \<beta> dir (files @ [(st_identity v, name)]) names (s, h @ [(StatAt dir name, Inr v)])
      = (Inr files', \<tau>)"
    by (auto elim!: bnd_value andthen_value)
  have "distinct (map fst (files @ [(st_identity v, name)]))" using Cons.prems(2) v(3) by (simp add: image_image)
  from Cons.IH [OF rest this] obtain stats where "files' = (files @ [(st_identity v, name)]) @ zip (map st_identity stats) names"
    "length stats = length names" "list_all safe_lock stats" "distinct (map fst files')"
    "\<tau> = (s, (h @ [(StatAt dir name, Inr v)]) @ map (\<lambda>(name, v). (StatAt dir name, Inr v)) (zip names stats))"
    by blast
  with v show ?case by (intro exI [of _ "v # stats"]) simp
qed

text \<open>Python walks a set of names in some order, each name once.\<close>

definition walks :: "(string list \<Rightarrow> string list) \<Rightarrow> bool" where
  "walks w \<longleftrightarrow> (\<forall>ns. distinct ns \<longrightarrow> distinct (w ns) \<and> set (w ns) = set ns)"

lemma inherited_descriptors_ok:
  assumes "inherited_descriptors names fds = Inr ns"
  shows "fds = map PInt ns \<and> distinct ns \<and> list_all (\<lambda>n. 3 \<le> n) ns \<and> length ns = length names \<and> names \<noteq> []"
proof -
  from assms have p: "names \<noteq> []" "length fds = length names" "distinct fds" "list_all (\<lambda>fd. integer fd 3) fds"
    "ns = map int_of fds"
    by (auto simp: inherited_descriptors_def elim!: rbindE split: if_splits)
  have "fds = map PInt ns" unfolding p(5) map_map using p(4)
    by (intro map_idI [symmetric]) (auto simp: list_all_iff integer_iff)
  moreover from this have "distinct ns" using p(3) by (simp add: distinct_map)
  ultimately show ?thesis using p(1,2,4) by (auto simp: list_all_iff)
qed

text \<open>when the inherited descriptors are accepted, they are as many different descriptors, none
  of the standard streams, as the scope has lock files; the directory is safe, every lock file is a
  safe file with an inode of its own; the descriptors refer to exactly these inodes, one each; and
  for each of them a second open of its file was refused the lock as held while the descriptor
  itself was granted it, with every descriptor opened for the proof closed again.\<close>

theorem verify_inherited_sound:
  assumes "verify_inherited_executors \<beta> walk identities descriptors directory (s, h) = (Inr u, s', h')"
    and "walks walk"
  shows "\<exists>names fds d ds stats idents segs c.
    inherited_names identities = Inr names \<and> names \<noteq> [] \<and> descriptors = map PInt fds \<and> distinct fds \<and>
    list_all (\<lambda>fd. 3 \<le> fd) fds \<and> length fds = length names \<and> safe_directory ds \<and>
    length stats = length names \<and> list_all safe_lock stats \<and> distinct (map st_identity stats) \<and>
    distinct idents \<and> set idents = set (map st_identity stats) \<and>
    list_all2 (\<lambda>(fd, ident) seg. verified (int_of d) (zip (map st_identity stats) (walk names)) fd ident seg)
      (zip fds idents) segs \<and> length idents = length fds \<and>
    h' = h @ [(OpenDir directory, Inr d), (Fstat (int_of d), Inr ds)]
      @ map (\<lambda>(name, v). (StatAt (int_of d) name, Inr v)) (zip (walk names) stats)
      @ concat segs @ [(Close (int_of d), Inr c)]"
proof -
  from assms(1) obtain names fds d ds files \<upsilon> \<phi> where
    n: "inherited_names identities = Inr names" and f: "inherited_descriptors names descriptors = Inr fds" and
    "safe_directory ds" and
    ex: "examine_files \<beta> (int_of d) [] (walk names)
       (s, h @ [(OpenDir directory, Inr d), (Fstat (int_of d), Inr ds)]) = (Inr files, \<upsilon>)" and
    ver: "verify_descriptors \<beta> (int_of d) files [] fds \<upsilon> = (Inr u, \<phi>)" and
    cl: "\<exists>v. run_call \<beta> (Close (int_of d)) \<phi> = (Inr v, s', h')"
    unfolding verify_inherited_executors_def
    by (elim bnd_value) (auto elim!: bnd_value andthen_value ensure_value)
  note fd = inherited_descriptors_ok [OF f]
  have "distinct names" using n by (auto simp: inherited_names_def elim!: rbindE)
  with assms(2) have w: "distinct (walk names)" "set (walk names) = set names" by (auto simp: walks_def)
  then have len: "length (walk names) = length names" using \<open>distinct names\<close> by (metis distinct_card)
  from examine_files_value [OF ex] obtain stats where st: "files = zip (map st_identity stats) (walk names)"
    "length stats = length (walk names)" "list_all safe_lock stats" "distinct (map fst files)"
    "\<upsilon> = (s, (h @ [(OpenDir directory, Inr d), (Fstat (int_of d), Inr ds)])
        @ map (\<lambda>(name, v). (StatAt (int_of d) name, Inr v)) (zip (walk names) stats))"
    by auto
  have ids: "map fst files = map st_identity stats" using st(1,2) by simp
  from verify_descriptors_value [OF ver [unfolded st(5)]] obtain idents segs where
    i: "distinct idents" "length idents = length fds"
    "list_all2 (\<lambda>(fd, ident) seg. verified (int_of d) files fd ident seg) (zip fds idents) segs"
    "\<phi> = (s, ((h @ [(OpenDir directory, Inr d), (Fstat (int_of d), Inr ds)])
        @ map (\<lambda>(name, v). (StatAt (int_of d) name, Inr v)) (zip (walk names) stats)) @ concat segs)"
    by blast
  have "set idents \<subseteq> set (map st_identity stats)"
  proof
    fix x assume "x \<in> set idents"
    then obtain k where k: "k < length idents" "x = idents ! k" by (auto simp: in_set_conv_nth)
    with i(2,3) have "verified (int_of d) files (fds ! k) x (segs ! k)"
      by (auto simp: list_all2_conv_all_nth)
    then show "x \<in> set (map st_identity stats)"
      unfolding ids [symmetric] verified_def by (force dest: map_of_SomeD)
  qed
  moreover have "card (set idents) = card (set (map st_identity stats))"
    using i(1,2) st(2,4) fd len by (simp only: ids distinct_card length_map)
  ultimately have same: "set idents = set (map st_identity stats)" by (simp add: card_subset_eq)
  obtain c where "h' = snd \<phi> @ [(Close (int_of d), Inr c)]" using cl i(4) by auto
  then show ?thesis
    using n fd \<open>safe_directory ds\<close> st len i same
    by (intro exI [of _ names] exI [of _ fds] exI [of _ d] exI [of _ ds] exI [of _ stats] exI [of _ idents]
        exI [of _ segs] exI [of _ c]) (simp add: ids)
qed

definition ef_stat :: "int \<Rightarrow> pyval" where
  "ef_stat ino = PDict [(''st_mode'', PInt 0x8180), (''st_uid'', PInt 0), (''st_nlink'', PInt 1),
     (''st_dev'', PInt 5), (''st_ino'', PInt ino)]"

definition ef_lazy :: string where "ef_lazy = lock_name ''lazy'' ''san'' ''vm-100-disk-0''"

definition ef_holder :: "oscall backend" where
  "ef_holder h q =
     (case q of
        OpenDir d \<Rightarrow> Inr (PInt 10)
      | StatAt d name \<Rightarrow> Inr (ef_stat (if name = ef_lazy then 1 else 2))
      | OpenProbe d name \<Rightarrow> Inr (PInt (if name = ef_lazy then 21 else 22))
      | Fstat fd \<Rightarrow> Inr (if fd = 10 then PDict [(''st_mode'', PInt 0x43FF), (''st_uid'', PInt 0)]
                      else ef_stat (if fd = 3 \<or> fd = 21 then 1 else 2))
      | Flock fd \<Rightarrow> if fd > 20 then Inl blocking else Inr PNone
      | _ \<Rightarrow> Inr PNone)"

lemma verify_inherited_sound_witness:
  "\<exists>h'. verify_inherited_executors ef_holder (\<lambda>ns. ns) [PList [PStr ''san'', PStr ''vm-100-disk-0'']] [PInt 3, PInt 4]
     ''/run/lock'' ([], []) = (Inr (), [], h') \<and> (\<exists>d r t. h' = (OpenDir d, r) # t)"
proof -
  let ?run = "verify_inherited_executors ef_holder (\<lambda>ns. ns) [PList [PStr ''san'', PStr ''vm-100-disk-0'']]
    [PInt 3, PInt 4] ''/run/lock'' ([], [])"
  have "\<not> isl (fst ?run)" by code_simp
  then obtain u where "fst ?run = Inr u" by (auto dest: not_isl_Inr)
  then obtain s' h' where run: "?run = (Inr u, s', h')" by (metis prod.exhaust fst_conv)
  have "fst (snd ?run) = []" by code_simp
  then have s: "s' = []" using run by simp
  have "walks (\<lambda>ns. ns)" by (simp add: walks_def)
  from verify_inherited_sound [OF run this] run s show ?thesis by auto
qed

end
