(* ===== verification/PveInventory.thy ===== *)
theory PveInventory
  imports PyText
begin

text \<open>
  \<^verbatim>\<open>usr/libexec/pve-sharedlvmthin/sharedlvmthin_pve_inventory.py\<close>: which volumes the guest
  configurations refer to, and in which role. The reader and the glob function are parameters;
  each is called once per path and per pattern, so a function is all they can be. The reader gives
  the text, nothing where it could not read, or raises: the default one catches
  \<^verbatim>\<open>OSError\<close> only, so a configuration that is not UTF-8 ends the whole collection. The order in which
  Python walks a set of volume identities does not show in the result, which maps each identity to
  its list of rows.
\<close>

section \<open>Volume identities\<close>

text \<open>\<^verbatim>\<open>[A-Za-z0-9_.+-]\<close>\<close>

definition vol_char :: "char \<Rightarrow> bool" where
  "vol_char c \<longleftrightarrow> name_char c \<or> c = CHR ''+''"

definition volume_re :: "string \<Rightarrow> bool" where
  "volume_re s \<longleftrightarrow>
     (case split_on CHR '':'' s of
        [a, b] \<Rightarrow> a \<noteq> [] \<and> b \<noteq> [] \<and> list_all vol_char a \<and> list_all vol_char b
      | _ \<Rightarrow> False)"

text \<open>
  \<^verbatim>\<open>_TOKEN.findall\<close>: a match starts where a run of volume characters starts, takes that run, the
  colon and the whole next run, and must end at a comma, white space or the end.
\<close>

definition token_end :: "string \<Rightarrow> bool" where
  "token_end s \<longleftrightarrow> s = [] \<or> hd s = CHR '','' \<or> space (hd s)"

lemma length_dropWhile_tl: "length (dropWhile p (tl s)) \<le> length s"
  by (metis length_dropWhile_le length_tl diff_le_self order_trans)

function find_tokens :: "string \<Rightarrow> string list" where
  "find_tokens [] = []"
| "find_tokens (c # cs) =
     (if \<not> vol_char c then find_tokens cs
      else let w = takeWhile vol_char (c # cs); r = dropWhile vol_char (c # cs);
               v = takeWhile vol_char (tl r); t = dropWhile vol_char (tl r) in
           if r = [] then []
           else if hd r = CHR '':'' \<and> v \<noteq> [] \<and> token_end t then (w @ CHR '':'' # v) # find_tokens t
           else find_tokens (tl r))"
  by pat_completeness auto

termination
proof (relation "measure length", goal_cases)
  case (3 c cs w r v t)
  then have "length r \<le> length cs" by (simp add: length_dropWhile_le)
  with 3 show ?case using length_dropWhile_le [of vol_char "tl r"] by (simp add: le_less_trans)
next
  case (4 c cs w r v t)
  then have "length r \<le> length cs" by (simp add: length_dropWhile_le)
  with 4 show ?case by simp
qed simp_all

section \<open>Disk lines\<close>

text \<open>\<^verbatim>\<open>prefix\d+\<close>\<close>

definition numbered :: "string \<Rightarrow> string \<Rightarrow> bool" where
  "numbered prefix s \<longleftrightarrow> take (length prefix) s = prefix \<and> drop (length prefix) s \<noteq> []
     \<and> list_all digit (drop (length prefix) s)"

definition disk_key :: "bool \<Rightarrow> string \<Rightarrow> bool" where
  "disk_key is_lxc key \<longleftrightarrow>
     (if is_lxc then key = ''rootfs'' \<or> numbered ''mp'' key \<or> numbered ''unused'' key
      else list_ex (\<lambda>p. numbered p key) [''ide'', ''sata'', ''scsi'', ''virtio''] \<or> key = ''efidisk0'' \<or> key = ''tpmstate0''
        \<or> numbered ''unused'' key)"

text \<open>\<^verbatim>\<open>^(key):\s*(.*)$\<close> on one stripped line\<close>

definition keyed_line :: "(string \<Rightarrow> bool) \<Rightarrow> string \<Rightarrow> (string \<times> string) option" where
  "keyed_line p line =
     (let key = takeWhile (\<lambda>c. c \<noteq> CHR '':'') line; rest = dropWhile (\<lambda>c. c \<noteq> CHR '':'') line in
      if rest \<noteq> [] \<and> p key then Some (key, dropWhile space (tl rest)) else None)"

definition key_limits :: "bool \<Rightarrow> (string \<times> nat) list" where
  "key_limits is_lxc =
     (if is_lxc then [(''mp'', 256), (''unused'', 256)]
      else [(''ide'', 4), (''sata'', 6), (''scsi'', 31), (''virtio'', 16), (''unused'', 256)])"

definition valid_disk_key :: "string \<Rightarrow> bool \<Rightarrow> bool" where
  "valid_disk_key key is_lxc \<longleftrightarrow>
     (if is_lxc \<and> key = ''rootfs'' then True
      else if \<not> is_lxc \<and> key \<in> {''efidisk0'', ''tpmstate0''} then True
      else let name = takeWhile lower key; n = dropWhile lower key in
        name \<noteq> [] \<and> n \<noteq> [] \<and> list_all digit n \<and> nat_digits (dec_value n) = n
        \<and> (case map_of (key_limits is_lxc) name of None \<Rightarrow> False | Some limit \<Rightarrow> dec_value n < limit))"

text \<open>
  \<^verbatim>\<open>([0-9]+(?:\.[0-9]+)?)([KMGTPE]?)\<close>, and the decimal times the unit: the product keeps 28
  significant digits, rounded half to even. Sizes of a million digits are not modelled.
\<close>

definition size_scale :: "string \<Rightarrow> nat option" where
  "size_scale u =
     map_of [('''', 1), (''K'', 2 ^ 10), (''M'', 2 ^ 20), (''G'', 2 ^ 30), (''T'', 2 ^ 40), (''P'', 2 ^ 50), (''E'', 2 ^ 60)] u"

definition round28 :: "nat \<Rightarrow> nat" where
  "round28 p =
     (let n = length (nat_digits p) in
      if n \<le> 28 then p
      else let d = 10 ^ (n - 28); q = p div d; r = p mod d in
           (if 2 * r > d \<or> (2 * r = d \<and> odd q) then q + 1 else q) * d)"

definition parse_size :: "string \<Rightarrow> nat option" where
  "parse_size s =
     (let whole = takeWhile digit s; r = dropWhile digit s;
          dotted = (r \<noteq> [] \<and> hd r = CHR ''.'');
          frac = (if dotted then takeWhile digit (tl r) else []);
          unit = (if dotted then dropWhile digit (tl r) else r) in
      if whole = [] \<or> (dotted \<and> frac = []) then None
      else case size_scale unit of
        None \<Rightarrow> None
      | Some scale \<Rightarrow>
          let p = round28 (dec_value (whole @ frac) * scale) in
          if p mod 10 ^ length frac = 0 then Some (p div 10 ^ length frac) else None)"

record disk_record =
  dr_key :: string
  dr_identities :: "string list"
  dr_fields :: nat
  dr_size :: "nat option"
  dr_forced :: bool

definition prefixed :: "string \<Rightarrow> string \<Rightarrow> bool" where
  "prefixed p s \<longleftrightarrow> take (length p) s = p"

text \<open>The values the line gives for the volume: a bare first property, then every named one\<close>

definition identity_fields :: "bool \<Rightarrow> string list \<Rightarrow> string list" where
  "identity_fields is_lxc props =
     (let prefix = (if is_lxc then ''volume='' else ''file='') in
      (if CHR ''='' \<notin> set (hd props) then [hd props] else [])
      @ map (drop (length prefix)) (filter (prefixed prefix) props))"

definition disk_of :: "bool \<Rightarrow> string \<Rightarrow> string \<Rightarrow> disk_record option" where
  "disk_of is_lxc key value =
     (let props = map strip (split_on CHR '','' value);
          malformed = list_ex (\<lambda>p. p = [] \<or> CHR ''='' \<notin> set p) (tl props);
          fields = identity_fields is_lxc props;
          ids = filter volume_re fields;
          sizes = map (drop 5) (filter (prefixed ''size='') props) in
      if ids = [] then None
      else Some \<lparr>dr_key = key, dr_identities = ids, dr_fields = length fields,
             dr_size = (case sizes of [s] \<Rightarrow> parse_size s | _ \<Rightarrow> None),
             dr_forced = (\<not> valid_disk_key key is_lxc \<or> malformed)\<rparr>)"

text \<open>The top-level lines, up to the first section header, with the key and value of the disk lines\<close>

fun top_lines :: "string list \<Rightarrow> string list" where
  "top_lines [] = []"
| "top_lines (raw # raws) =
     (let line = strip raw in if line \<noteq> [] \<and> hd line = CHR ''['' then [] else line # top_lines raws)"

definition disk_lines :: "bool \<Rightarrow> string \<Rightarrow> (string \<times> string) list" where
  "disk_lines is_lxc content = List.map_filter (keyed_line (disk_key is_lxc)) (top_lines (splitlines content))"

datatype role = Attached | Efi | Detached | Auxiliary | Invalid

type_synonym row = "string \<times> nat option \<times> role"

definition role_of :: "bool \<Rightarrow> string list \<Rightarrow> disk_record \<Rightarrow> role" where
  "role_of is_lxc ks r =
     (if dr_forced r \<or> dr_fields r \<noteq> 1 \<or> length (dr_identities r) \<noteq> 1 \<or> count_list ks (dr_key r) \<noteq> 1 then Invalid
      else if prefixed ''unused'' (dr_key r) then Detached
      else if \<not> is_lxc \<and> dr_key r = ''efidisk0'' then Efi
      else Attached)"

definition disk_rows :: "string \<Rightarrow> bool \<Rightarrow> string \<Rightarrow> (string \<times> row) list" where
  "disk_rows path is_lxc content =
     (let lines = disk_lines is_lxc content; ks = map fst lines in
      concat (map (\<lambda>(key, value).
        case disk_of is_lxc key value of
          None \<Rightarrow> []
        | Some r \<Rightarrow> map (\<lambda>v. (v, path, dr_size r, role_of is_lxc ks r)) (remdups (dr_identities r))) lines))"

text \<open>A key that appears twice and never with an identity\<close>

definition disk_ambiguous :: "bool \<Rightarrow> string \<Rightarrow> bool" where
  "disk_ambiguous is_lxc content \<longleftrightarrow>
     (let lines = disk_lines is_lxc content; ks = map fst lines in
      list_ex (\<lambda>k. 1 < count_list ks k
        \<and> \<not> list_ex (\<lambda>(key, value). key = k \<and> disk_of is_lxc key value \<noteq> None) lines) ks)"

section \<open>State volumes\<close>

text \<open>\<^verbatim>\<open>\[([^\]]+)\]\<close>\<close>

definition header_of :: "string \<Rightarrow> string option" where
  "header_of line =
     (if 3 \<le> length line \<and> hd line = CHR ''['' \<and> last line = CHR '']'' \<and> CHR '']'' \<notin> set (butlast (tl line))
      then Some (butlast (tl line)) else None)"

record vmstate_record =
  vr_section :: "string option"
  vr_identities :: "string list"
  vr_exact :: "string option"

definition vmstate_of :: "string option \<Rightarrow> string \<Rightarrow> vmstate_record" where
  "vmstate_of section value =
     \<lparr>vr_section = section,
      vr_identities = remdups (find_tokens value @ (if volume_re value then [value] else [])),
      vr_exact = (if volume_re value then Some value else None)\<rparr>"

fun vmstate_records :: "string option \<Rightarrow> string list \<Rightarrow> vmstate_record list" where
  "vmstate_records section [] = []"
| "vmstate_records section (raw # raws) =
     (let line = strip raw in
      case header_of line of
        Some name \<Rightarrow> vmstate_records (Some name) raws
      | None \<Rightarrow>
          (case keyed_line (\<lambda>k. k = ''vmstate'') line of
             None \<Rightarrow> vmstate_records section raws
           | Some (k, v) \<Rightarrow> vmstate_of section (strip v) # vmstate_records section raws))"

text \<open>\<^verbatim>\<open>/qemu-server/(\d+)\.conf$\<close>, the end before or after a final newline\<close>

definition config_vmid :: "string \<Rightarrow> string option" where
  "config_vmid path =
     (let p = (if path \<noteq> [] \<and> last path = CHR 0x0A then butlast path else path);
          base = take (length p - 5) p;
          d = rev (takeWhile digit (rev base));
          dir = take (length base - length d) base in
      if 5 \<le> length p \<and> drop (length p - 5) p = ''.conf'' \<and> d \<noteq> []
         \<and> 13 \<le> length dir \<and> drop (length dir - 13) dir = ''/qemu-server/''
      then Some d else None)"

text \<open>\<^verbatim>\<open>vm-<vmid>-state-[A-Za-z0-9][A-Za-z0-9_.-]*\<close>\<close>

definition state_name :: "string \<Rightarrow> string \<Rightarrow> bool" where
  "state_name vmid s \<longleftrightarrow>
     (let p = ''vm-'' @ vmid @ ''-state-'' in prefixed p s \<and> head_tail alnum name_char None (drop (length p) s))"

definition vmstate_role :: "string \<Rightarrow> vmstate_record list \<Rightarrow> vmstate_record \<Rightarrow> role" where
  "vmstate_role path rs r =
     (case (vr_exact r, config_vmid path) of
        (Some e, Some vmid) \<Rightarrow>
          if length (vr_identities r) = 1 \<and> count_list (map vr_section rs) (vr_section r) = 1
             \<and> state_name vmid (tl (dropWhile (\<lambda>c. c \<noteq> CHR '':'') e))
          then Auxiliary else Invalid
      | _ \<Rightarrow> Invalid)"

definition vmstate_rows :: "string \<Rightarrow> string \<Rightarrow> (string \<times> row) list" where
  "vmstate_rows path content =
     (let rs = vmstate_records None (splitlines content) in
      concat (map (\<lambda>r. map (\<lambda>v. (v, path, None, vmstate_role path rs r)) (vr_identities r)) rs))"

definition vmstate_ambiguous :: "string \<Rightarrow> bool" where
  "vmstate_ambiguous content \<longleftrightarrow>
     (let rs = vmstate_records None (splitlines content) in
      list_ex (\<lambda>r. 1 < count_list (map vr_section rs) (vr_section r)
        \<and> \<not> list_ex (\<lambda>q. vr_section q = vr_section r \<and> vr_identities q \<noteq> []) rs) rs)"

section \<open>The inventory\<close>

record inventory =
  inv_references :: "string \<Rightarrow> string list"
  inv_current :: "string \<Rightarrow> row list"
  inv_errors :: "string list"

definition config_paths :: "(string \<Rightarrow> string list) \<Rightarrow> string list" where
  "config_paths globber =
     (let cluster = remdups (globber ''/etc/pve/nodes/*/qemu-server/*.conf'' @ globber ''/etc/pve/nodes/*/lxc/*.conf'') in
      if cluster \<noteq> [] then sort cluster
      else sort (remdups (globber ''/etc/pve/qemu-server/*.conf'' @ globber ''/etc/pve/lxc/*.conf'')))"

definition add_rows :: "(string \<times> 'a) list \<Rightarrow> (string \<Rightarrow> 'a list) \<Rightarrow> string \<Rightarrow> 'a list" where
  "add_rows rows f v = f v @ map snd (filter (\<lambda>r. fst r = v) rows)"

definition is_lxc_path :: "string \<Rightarrow> bool" where
  "is_lxc_path path = substring ''/lxc/'' path"

definition collect_path :: "string \<Rightarrow> string option \<Rightarrow> inventory \<Rightarrow> inventory" where
  "collect_path path text_read iv =
     (case text_read of
        None \<Rightarrow> iv\<lparr>inv_errors := inv_errors iv @ [path]\<rparr>
      | Some content \<Rightarrow>
          let lxc = is_lxc_path path;
              refs = map (\<lambda>v. (v, path)) (remdups (find_tokens content));
              rows = disk_rows path lxc content @ (if lxc then [] else vmstate_rows path content);
              errs = inv_errors iv @ (if disk_ambiguous lxc content then [path] else []) in
          \<lparr>inv_references = add_rows refs (inv_references iv),
           inv_current = add_rows rows (inv_current iv),
           inv_errors = errs @ (if \<not> lxc \<and> vmstate_ambiguous content \<and> path \<notin> set errs then [path] else [])\<rparr>)"

fun collect_paths :: "(string \<Rightarrow> string option res) \<Rightarrow> string list \<Rightarrow> inventory \<Rightarrow> inventory res" where
  "collect_paths read [] iv = Inr iv"
| "collect_paths read (path # ps) iv =
     rbind (read path) (\<lambda>text_read. collect_paths read ps (collect_path path text_read iv))"

definition collect_inventory :: "(string \<Rightarrow> string option res) \<Rightarrow> (string \<Rightarrow> string list) \<Rightarrow> inventory res" where
  "collect_inventory read globber =
     collect_paths read (config_paths globber)
       \<lparr>inv_references = (\<lambda>_. []), inv_current = (\<lambda>_. []), inv_errors = []\<rparr>"

section \<open>What the inventory contains\<close>

definition path_rows :: "string \<Rightarrow> string option \<Rightarrow> (string \<times> row) list" where
  "path_rows path text_read =
     (case text_read of None \<Rightarrow> []
      | Some content \<Rightarrow> disk_rows path (is_lxc_path path) content
          @ (if is_lxc_path path then [] else vmstate_rows path content))"

definition path_tokens :: "string option \<Rightarrow> string list" where
  "path_tokens text_read = (case text_read of None \<Rightarrow> [] | Some content \<Rightarrow> find_tokens content)"

definition path_faulty :: "string \<Rightarrow> string option \<Rightarrow> bool" where
  "path_faulty path text_read \<longleftrightarrow>
     (case text_read of None \<Rightarrow> True
      | Some content \<Rightarrow> disk_ambiguous (is_lxc_path path) content \<or> (\<not> is_lxc_path path \<and> vmstate_ambiguous content))"

lemma collect_path_adds:
  "inv_current (collect_path path t iv) v = inv_current iv v @ map snd (filter (\<lambda>r. fst r = v) (path_rows path t))"
  "set (inv_references (collect_path path t iv) v) = set (inv_references iv v) \<union> {p. p = path \<and> v \<in> set (path_tokens t)}"
  "set (inv_errors (collect_path path t iv)) = set (inv_errors iv) \<union> {p. p = path \<and> path_faulty path t}"
  by (auto simp: collect_path_def path_rows_def path_tokens_def path_faulty_def add_rows_def Let_def image_iff
      split: option.splits)

text \<open>A collection that ends has read every configuration, and adds up what each one gives.\<close>

lemma collect_paths_adds:
  assumes "collect_paths read ps iv = Inr iv'"
  shows "(\<forall>p \<in> set ps. \<exists>t. read p = Inr t)
    \<and> (x \<in> set (inv_current iv' v) \<longleftrightarrow> x \<in> set (inv_current iv v) \<or>
         (\<exists>p \<in> set ps. \<exists>t. read p = Inr t \<and> (v, x) \<in> set (path_rows p t)))
    \<and> (q \<in> set (inv_references iv' v) \<longleftrightarrow> q \<in> set (inv_references iv v) \<or>
         (q \<in> set ps \<and> (\<exists>t. read q = Inr t \<and> v \<in> set (path_tokens t))))
    \<and> (q \<in> set (inv_errors iv') \<longleftrightarrow> q \<in> set (inv_errors iv) \<or>
         (q \<in> set ps \<and> (\<exists>t. read q = Inr t \<and> path_faulty q t)))"
  using assms
proof (induction ps arbitrary: iv)
  case Nil
  then show ?case by simp
next
  case (Cons p ps)
  from Cons.prems obtain t where t: "read p = Inr t" "collect_paths read ps (collect_path p t iv) = Inr iv'"
    by (auto elim: rbindE)
  have row: "x \<in> set (map snd (filter (\<lambda>r. fst r = v) (path_rows p t))) \<longleftrightarrow> (v, x) \<in> set (path_rows p t)" by force
  from Cons.IH [OF t(2)] show ?case
    unfolding collect_path_adds set_append row Un_iff mem_Collect_eq using t(1) by auto
qed

lemma collected:
  assumes "collect_inventory read globber = Inr iv"
  shows "p \<in> set (config_paths globber) \<Longrightarrow> \<exists>t. read p = Inr t"
    "x \<in> set (inv_current iv v) \<longleftrightarrow> (\<exists>p \<in> set (config_paths globber). \<exists>t. read p = Inr t \<and> (v, x) \<in> set (path_rows p t))"
    "p \<in> set (inv_references iv v) \<longleftrightarrow> p \<in> set (config_paths globber) \<and> (\<exists>t. read p = Inr t \<and> v \<in> set (path_tokens t))"
    "p \<in> set (inv_errors iv) \<longleftrightarrow> p \<in> set (config_paths globber) \<and> (\<exists>t. read p = Inr t \<and> path_faulty p t)"
  using collect_paths_adds [OF assms [unfolded collect_inventory_def], of x v p] by auto

lemma count_list_one: "count_list (map fst xs) k = 1 \<Longrightarrow> (k, v) \<in> set xs \<Longrightarrow> filter (\<lambda>x. fst x = k) xs = [(k, v)]"
proof (induction xs)
  case (Cons x xs)
  have none: "filter (\<lambda>x. fst x = k) ys = []" if "count_list (map fst ys) k = 0" for ys
    using that by (induction ys) (auto split: if_splits)
  show ?case
  proof (cases "fst x = k")
    case True
    then have "count_list (map fst xs) k = 0" using Cons.prems by simp
    moreover from this have "(k, v) \<notin> set xs" by (metis count_list_0_iff fst_conv image_eqI set_map)
    ultimately show ?thesis using True Cons.prems none by auto
  next
    case False
    with Cons show ?thesis by auto
  qed
qed simp

lemma set_case_option: "x \<in> set (case opt of None \<Rightarrow> [] | Some r \<Rightarrow> f r) \<longleftrightarrow> (\<exists>r. opt = Some r \<and> x \<in> set (f r))"
  by (cases opt) auto

lemma disk_rows_mem:
  "(v, x) \<in> set (disk_rows path lxc content) \<longleftrightarrow>
     (\<exists>key val d. (key, val) \<in> set (disk_lines lxc content) \<and> disk_of lxc key val = Some d
        \<and> v \<in> set (dr_identities d) \<and> x = (path, dr_size d, role_of lxc (map fst (disk_lines lxc content)) d))"
proof -
  have "(v, x) \<in> set (disk_rows path lxc content) \<longleftrightarrow>
      (\<exists>kv \<in> set (disk_lines lxc content). \<exists>d. disk_of lxc (fst kv) (snd kv) = Some d
        \<and> v \<in> set (dr_identities d) \<and> x = (path, dr_size d, role_of lxc (map fst (disk_lines lxc content)) d))"
    unfolding disk_rows_def Let_def split_beta
    by (simp only: set_concat set_map UN_iff set_case_option image_iff set_remdups bex_simps prod.inject) blast
  then show ?thesis by (simp only: Bex_def split_paired_Ex fst_conv snd_conv) blast
qed

lemma disk_row_cases:
  assumes "(v, path', sz, r) \<in> set (disk_rows path lxc content)" "r \<noteq> Invalid"
  shows "\<exists>key val. filter (\<lambda>l. fst l = key) (disk_lines lxc content) = [(key, val)] \<and> path' = path
    \<and> valid_disk_key key lxc \<and> identity_fields lxc (map strip (split_on CHR '','' val)) = [v] \<and> volume_re v
    \<and> r = (if prefixed ''unused'' key then Detached else if \<not> lxc \<and> key = ''efidisk0'' then Efi else Attached)"
proof -
  from assms(1) obtain key val d where d: "(key, val) \<in> set (disk_lines lxc content)"
    "disk_of lxc key val = Some d" "v \<in> set (dr_identities d)" "path' = path"
    "r = role_of lxc (map fst (disk_lines lxc content)) d"
    unfolding disk_rows_mem by blast
  let ?f = "identity_fields lxc (map strip (split_on CHR '','' val))"
  from d(2) have f: "dr_key d = key" "dr_identities d = filter volume_re ?f" "dr_fields d = length ?f"
    "dr_forced d \<Longrightarrow> True" "\<not> dr_forced d \<Longrightarrow> valid_disk_key key lxc"
    by (auto simp: disk_of_def Let_def split: if_splits)
  from assms(2) d(5) f have r: "\<not> dr_forced d" "length ?f = 1" "count_list (map fst (disk_lines lxc content)) key = 1"
    "r = (if prefixed ''unused'' key then Detached else if \<not> lxc \<and> key = ''efidisk0'' then Efi else Attached)"
    by (auto simp: role_of_def split: if_splits)
  from r(2) obtain w where w: "?f = [w]" by (auto simp: length_Suc_conv)
  with d(3) f(2) have "w = v" "volume_re v" by (auto split: if_splits)
  with w r f(5) count_list_one [OF r(3) d(1)] d(4) show ?thesis by blast
qed

text \<open>The vmstate lines of a configuration, with the section each is in\<close>

fun vmstate_lines :: "string option \<Rightarrow> string list \<Rightarrow> (string option \<times> string) list" where
  "vmstate_lines section [] = []"
| "vmstate_lines section (raw # raws) =
     (case (header_of (strip raw), keyed_line (\<lambda>k. k = ''vmstate'') (strip raw)) of
        (Some name, _) \<Rightarrow> vmstate_lines (Some name) raws
      | (None, None) \<Rightarrow> vmstate_lines section raws
      | (None, Some (k, v)) \<Rightarrow> (section, strip v) # vmstate_lines section raws)"

definition state_identities :: "string \<Rightarrow> string list" where
  "state_identities value = find_tokens value @ (if volume_re value then [value] else [])"

definition disk_identities :: "bool \<Rightarrow> string \<Rightarrow> string list" where
  "disk_identities lxc value = filter volume_re (identity_fields lxc (map strip (split_on CHR '','' value)))"

lemma vmstate_records_lines:
  "vmstate_records section ls = map (\<lambda>(sec, value). vmstate_of sec value) (vmstate_lines section ls)"
  by (induction "section" ls rule: vmstate_lines.induct) (auto simp: Let_def split: option.splits)

lemma vmstate_sections: "map vr_section (map (\<lambda>(sec, value). vmstate_of sec value) xs) = map fst xs"
  by (auto simp: vmstate_of_def)

lemma vmstate_rows_mem:
  "(v, x) \<in> set (vmstate_rows path content) \<longleftrightarrow>
     (\<exists>(sec, value) \<in> set (vmstate_lines None (splitlines content)). v \<in> set (state_identities value)
        \<and> x = (path, None, vmstate_role path (map (\<lambda>(sec, value). vmstate_of sec value)
                 (vmstate_lines None (splitlines content))) (vmstate_of sec value)))"
proof -
  let ?ls = "vmstate_lines None (splitlines content)"
  have ids: "vr_identities (vmstate_of sec val) = remdups (state_identities val)" for sec val
    by (simp add: vmstate_of_def state_identities_def)
  have "(v, x) \<in> set (vmstate_rows path content) \<longleftrightarrow>
      (\<exists>l \<in> set ?ls. v \<in> set (state_identities (snd l))
        \<and> x = (path, None, vmstate_role path (map (\<lambda>(sec, val). vmstate_of sec val) ?ls) (vmstate_of (fst l) (snd l))))"
    unfolding vmstate_rows_def Let_def vmstate_records_lines set_concat set_map UN_iff bex_simps split_beta ids image_iff
      set_remdups prod.inject
    by (rule bex_cong [OF refl]) blast
  then show ?thesis unfolding split_beta .
qed

text \<open>
  The state volume of a guest: the vmstate line of its section is the only one there, its value is the
  volume, and nothing else, and the name of the volume carries the number of the configuration.
\<close>

definition state_reference :: "string \<Rightarrow> string \<Rightarrow> string \<Rightarrow> bool" where
  "state_reference path content v \<longleftrightarrow>
     (\<exists>sec vmid. filter (\<lambda>l. fst l = sec) (vmstate_lines None (splitlines content)) = [(sec, v)]
        \<and> set (state_identities v) = {v} \<and> volume_re v \<and> config_vmid path = Some vmid
        \<and> state_name vmid (tl (dropWhile (\<lambda>c. c \<noteq> CHR '':'') v)))"

definition disk_reference :: "bool \<Rightarrow> string \<Rightarrow> string \<Rightarrow> role \<Rightarrow> bool" where
  "disk_reference lxc content v r \<longleftrightarrow>
     (\<exists>key val. filter (\<lambda>l. fst l = key) (disk_lines lxc content) = [(key, val)] \<and> valid_disk_key key lxc
        \<and> identity_fields lxc (map strip (split_on CHR '','' val)) = [v] \<and> volume_re v
        \<and> r = (if prefixed ''unused'' key then Detached else if \<not> lxc \<and> key = ''efidisk0'' then Efi else Attached))"

lemma vmstate_row_cases:
  assumes "(v, path', sz, r) \<in> set (vmstate_rows path content)" "r \<noteq> Invalid"
  shows "path' = path \<and> sz = None \<and> r = Auxiliary \<and> state_reference path content v"
proof -
  let ?ls = "vmstate_lines None (splitlines content)"
  let ?rs = "map (\<lambda>(sec, val). vmstate_of sec val) ?ls"
  from assms(1) obtain sec val where q: "(sec, val) \<in> set ?ls" "v \<in> set (state_identities val)" "path' = path" "sz = None"
    "r = vmstate_role path ?rs (vmstate_of sec val)"
    unfolding vmstate_rows_mem by auto
  from assms(2) q(5) obtain vmid where e: "volume_re val" "config_vmid path = Some vmid" "r = Auxiliary"
    "length (remdups (state_identities val)) = 1" "count_list (map fst ?ls) sec = 1"
    "state_name vmid (tl (dropWhile (\<lambda>c. c \<noteq> CHR '':'') val))"
    unfolding vmstate_role_def vmstate_sections
    by (auto simp: vmstate_of_def state_identities_def split: option.splits if_splits)
  have "val \<in> set (state_identities val)" using e(1) by (simp add: state_identities_def)
  moreover obtain w where "remdups (state_identities val) = [w]" using e(4) by (auto simp: length_Suc_conv)
  then have "set (state_identities val) = {w}" by (metis set_remdups list.set(1,2))
  ultimately have "set (state_identities val) = {val}" "v = val" using q(2) by auto
  with e count_list_one [OF e(5) q(1)] q(3,4) show ?thesis
    unfolding state_reference_def by blast
qed

text \<open>C26: a volume reported in a role other than invalid is listed in a readable configuration of the
  inventory, by a reference that is unambiguous and exact. An auxiliary volume is the whole value of the only
  vmstate line of its section in a QEMU configuration whose number the volume's name carries; an attached, EFI or
  detached one is named by the only top-level line with its key, which is a valid disk key, through its only
  identity field, and the role is the one the key stands for.\<close>

theorem inventory_roles_sound:
  assumes "collect_inventory read globber = Inr iv" "(path, sz, r) \<in> set (inv_current iv v)" "r \<noteq> Invalid"
  shows "path \<in> set (config_paths globber) \<and> volume_re v \<and> (\<exists>content. read path = Inr (Some content) \<and>
    (if r = Auxiliary then \<not> is_lxc_path path \<and> sz = None \<and> state_reference path content v
     else disk_reference (is_lxc_path path) content v r))"
proof -
  from assms(2) obtain p t where p0: "p \<in> set (config_paths globber)" "read p = Inr t" "(v, path, sz, r) \<in> set (path_rows p t)"
    unfolding collected(2) [OF assms(1)] by blast
  then obtain content where c: "t = Some content" by (cases t) (simp_all add: path_rows_def)
  with p0 consider "(v, path, sz, r) \<in> set (disk_rows p (is_lxc_path p) content)"
    | "\<not> is_lxc_path p" "(v, path, sz, r) \<in> set (vmstate_rows p content)"
    by (auto simp: path_rows_def split: if_splits)
  then show ?thesis
  proof cases
    case 1
    from disk_row_cases [OF 1 assms(3)] have "path = p" "disk_reference (is_lxc_path p) content v r"
      unfolding disk_reference_def by blast+
    moreover from this have "r \<noteq> Auxiliary" "volume_re v" unfolding disk_reference_def by (elim exE conjE, simp)+
    ultimately show ?thesis using p0 c by simp
  next
    case 2
    with vmstate_row_cases [OF 2(2) assms(3)] p0 c show ?thesis by (auto simp: state_reference_def)
  qed
qed

text \<open>
  Keyed lines of a configuration are kept visible: every identity of a line has a row, all rows of a key
  that occurs twice are invalid, and a key that occurs twice without any identity makes the
  configuration an error.
\<close>

definition lines_kept :: "('k \<times> string) list \<Rightarrow> (string \<Rightarrow> string list) \<Rightarrow> string \<Rightarrow> inventory \<Rightarrow> bool" where
  "lines_kept ls ids path iv \<longleftrightarrow>
     (\<forall>(k, val) \<in> set ls.
        (\<forall>v \<in> set (ids val). \<exists>sz r. (path, sz, r) \<in> set (inv_current iv v)
           \<and> (1 < count_list (map fst ls) k \<longrightarrow> r = Invalid))
      \<and> (1 < count_list (map fst ls) k \<and> (\<forall>val'. (k, val') \<in> set ls \<longrightarrow> ids val' = []) \<longrightarrow> path \<in> set (inv_errors iv)))"

lemma disk_lines_kept:
  assumes iv: "collect_inventory read globber = Inr iv" and path: "path \<in> set (config_paths globber)"
    and text_read: "read path = Inr (Some content)"
  shows "lines_kept (disk_lines (is_lxc_path path) content) (disk_identities (is_lxc_path path)) path iv"
proof -
  let ?lxc = "is_lxc_path path"
  let ?lines = "disk_lines ?lxc content"
  have ids: "disk_of ?lxc key val = None \<longleftrightarrow> disk_identities ?lxc val = []"
    "disk_of ?lxc key val = Some d \<Longrightarrow> dr_key d = key \<and> dr_identities d = disk_identities ?lxc val" for key val d
    by (auto simp: disk_of_def disk_identities_def Let_def split: if_splits)
  have row: "\<exists>sz r. (path, sz, r) \<in> set (inv_current iv v) \<and> (1 < count_list (map fst ?lines) key \<longrightarrow> r = Invalid)"
    if kv: "(key, val) \<in> set ?lines" "v \<in> set (disk_identities ?lxc val)" for key val v
  proof -
    have "disk_identities ?lxc val \<noteq> []" using kv(2) by (metis empty_iff empty_set)
    then obtain d where d0: "disk_of ?lxc key val = Some d" using ids(1) [of key val] by blast
    from ids(2) [OF this] kv(2) have d: "disk_of ?lxc key val = Some d" "dr_key d = key" "v \<in> set (dr_identities d)"
      using d0 by simp_all
    have "(v, path, dr_size d, role_of ?lxc (map fst ?lines) d) \<in> set (disk_rows path ?lxc content)"
      unfolding disk_rows_mem using kv(1) d by blast
    then have "(path, dr_size d, role_of ?lxc (map fst ?lines) d) \<in> set (inv_current iv v)"
      unfolding collected(2) [OF iv] using path text_read by (intro bexI [of _ path] exI [of _ "Some content"])
        (simp_all add: path_rows_def)
    moreover have "role_of ?lxc (map fst ?lines) d = Invalid" if "1 < count_list (map fst ?lines) key"
      using that d(2) by (simp add: role_of_def)
    ultimately show ?thesis by blast
  qed
  have err: "path \<in> set (inv_errors iv)"
    if kv: "(key, val) \<in> set ?lines" "1 < count_list (map fst ?lines) key"
      "\<forall>val'. (key, val') \<in> set ?lines \<longrightarrow> disk_identities ?lxc val' = []" for key val
  proof -
    have "disk_ambiguous ?lxc content"
      unfolding disk_ambiguous_def Let_def list_ex_iff using kv ids(1)
      by (auto intro!: bexI [of _ "(key, val)"])
    then show ?thesis unfolding collected(4) [OF iv] using path text_read by (simp add: path_faulty_def)
  qed
  show ?thesis unfolding lines_kept_def using row err by auto
qed

lemma vmstate_lines_kept:
  assumes iv: "collect_inventory read globber = Inr iv" and path: "path \<in> set (config_paths globber)"
    and text_read: "read path = Inr (Some content)" and qemu: "\<not> is_lxc_path path"
  shows "lines_kept (vmstate_lines None (splitlines content)) state_identities path iv"
proof -
  let ?ls = "vmstate_lines None (splitlines content)"
  let ?rs = "map (\<lambda>(sec, val). vmstate_of sec val) ?ls"
  have row: "\<exists>sz r. (path, sz, r) \<in> set (inv_current iv v) \<and> (1 < count_list (map fst ?ls) sec \<longrightarrow> r = Invalid)"
    if kv: "(sec, val) \<in> set ?ls" "v \<in> set (state_identities val)" for sec val v
  proof -
    let ?r = "vmstate_role path ?rs (vmstate_of sec val)"
    have "(v, path, None, ?r) \<in> set (vmstate_rows path content)"
      unfolding vmstate_rows_mem using kv by (intro bexI [of _ "(sec, val)"]) simp_all
    then have "(path, None, ?r) \<in> set (inv_current iv v)"
      unfolding collected(2) [OF iv] using path text_read qemu by (intro bexI [of _ path] exI [of _ "Some content"])
        (simp_all add: path_rows_def)
    moreover have "?r = Invalid" if "1 < count_list (map fst ?ls) sec"
      using that unfolding vmstate_role_def vmstate_sections by (auto simp: vmstate_of_def split: option.splits)
    ultimately show ?thesis by blast
  qed
  have err: "path \<in> set (inv_errors iv)"
    if kv: "(sec, val) \<in> set ?ls" "1 < count_list (map fst ?ls) sec"
      "\<forall>val'. (sec, val') \<in> set ?ls \<longrightarrow> state_identities val' = []" for sec val
  proof -
    have none: "vr_identities (vmstate_of sec' val') = [] \<longleftrightarrow> state_identities val' = []" for sec' val'
      by (auto simp: vmstate_of_def state_identities_def)
    have "vmstate_ambiguous content"
      unfolding vmstate_ambiguous_def Let_def list_ex_iff vmstate_records_lines vmstate_sections
    proof (rule bexI [of _ "vmstate_of sec val"])
      show "vmstate_of sec val \<in> set ?rs" using kv(1) by force
      have "vr_section (vmstate_of sec' val') = sec'" for sec' val' by (simp add: vmstate_of_def)
      then show "1 < count_list (map fst ?ls) (vr_section (vmstate_of sec val))
          \<and> \<not> (\<exists>q \<in> set ?rs. vr_section q = vr_section (vmstate_of sec val) \<and> vr_identities q \<noteq> [])"
        using kv(2,3) none by auto
    qed
    then show ?thesis unfolding collected(4) [OF iv] using path text_read qemu by (simp add: path_faulty_def)
  qed
  show ?thesis unfolding lines_kept_def using row err by auto
qed

text \<open>C27: nothing is lost silently. An inventory is returned only when the reader answered for every
  configuration. A configuration that cannot be read is an error. Of every other one, each volume
  token is a reference; each identity of a top-level disk line and, in a QEMU configuration, of a vmstate
  line in any section has a row; when two lines share a key (two vmstate lines a section), the
  rows of their identities are all invalid, and the configuration is an error when they have none.\<close>

theorem inventory_nothing_lost:
  assumes "collect_inventory read globber = Inr iv" "path \<in> set (config_paths globber)"
  shows "\<exists>text_read. read path = Inr text_read \<and> (case text_read of
      None \<Rightarrow> path \<in> set (inv_errors iv)
    | Some content \<Rightarrow>
        (\<forall>v \<in> set (find_tokens content). path \<in> set (inv_references iv v))
      \<and> lines_kept (disk_lines (is_lxc_path path) content) (disk_identities (is_lxc_path path)) path iv
      \<and> (\<not> is_lxc_path path \<longrightarrow> lines_kept (vmstate_lines None (splitlines content)) state_identities path iv))"
proof -
  from collected(1) [OF assms] obtain t where t: "read path = Inr t" ..
  show ?thesis
  proof (cases t)
    case None
    then have "path \<in> set (inv_errors iv)" unfolding collected(4) [OF assms(1)] using assms(2) t by (simp add: path_faulty_def)
    with t None show ?thesis by simp
  next
    case (Some content)
    have "\<forall>v \<in> set (find_tokens content). path \<in> set (inv_references iv v)"
      unfolding collected(3) [OF assms(1)] using assms(2) t Some by (simp add: path_tokens_def)
    with t Some disk_lines_kept [OF assms] vmstate_lines_kept [OF assms] show ?thesis by simp
  qed
qed

section \<open>Witnesses\<close>

definition pi_path :: string where "pi_path = ''/etc/pve/qemu-server/100.conf''"
definition pi_glob :: "string \<Rightarrow> string list" where
  "pi_glob pattern = (if pattern = ''/etc/pve/qemu-server/*.conf'' then [pi_path] else [])"
definition pi_content :: string where
  "pi_content = ''scsi0: san:vm-100-disk-0,ssd=1'' @ [CHR 0x0A] @ ''[snap]'' @ [CHR 0x0A]
     @ ''vmstate: san:vm-100-state-snap'' @ [CHR 0x0A] @ ''[twice]'' @ [CHR 0x0A]
     @ ''vmstate: san:vm-100-state-a'' @ [CHR 0x0A] @ ''vmstate: san:vm-100-state-b''"
definition pi_read :: "string \<Rightarrow> string option res" where "pi_read path = Inr (Some pi_content)"
definition pi_inventory :: inventory where "pi_inventory = projr (collect_inventory pi_read pi_glob)"

lemma pi_collects: "collect_paths (\<lambda>_. Inr t) ps iv \<noteq> Inl e"
  by (induction ps arbitrary: iv) auto

lemma pi_collected: "collect_inventory pi_read pi_glob = Inr pi_inventory"
proof (cases "collect_inventory pi_read pi_glob")
  case (Inl e)
  then show ?thesis by (simp add: collect_inventory_def pi_read_def [abs_def] pi_collects)
qed (simp add: pi_inventory_def)

lemma pi_paths: "config_paths pi_glob = [pi_path]"
  by code_simp

lemma pi_path_rows:
  "path_rows pi_path (Some pi_content) =
     [(''san:vm-100-disk-0'', pi_path, None, Attached), (''san:vm-100-state-snap'', pi_path, None, Auxiliary),
      (''san:vm-100-state-a'', pi_path, None, Invalid), (''san:vm-100-state-b'', pi_path, None, Invalid)]"
  by code_simp

lemma pi_rows: "row \<in> set (inv_current pi_inventory v) \<longleftrightarrow>
    (v, row) \<in> {(''san:vm-100-disk-0'', pi_path, None, Attached), (''san:vm-100-state-snap'', pi_path, None, Auxiliary),
      (''san:vm-100-state-a'', pi_path, None, Invalid), (''san:vm-100-state-b'', pi_path, None, Invalid)}"
  unfolding collected(2) [OF pi_collected] by (simp only: pi_paths pi_read_def pi_path_rows list.set) (simp add: pi_path_rows)

lemma inventory_roles_sound_witness:
  "(\<exists>content. pi_read pi_path = Inr (Some content) \<and> state_reference pi_path content ''san:vm-100-state-snap'')
   \<and> (\<exists>content. pi_read pi_path = Inr (Some content) \<and> disk_reference False content ''san:vm-100-disk-0'' Attached)"
proof -
  have lxc: "is_lxc_path pi_path = False" by code_simp
  have "(pi_path, None, Auxiliary) \<in> set (inv_current pi_inventory ''san:vm-100-state-snap'')"
    "(pi_path, None, Attached) \<in> set (inv_current pi_inventory ''san:vm-100-disk-0'')"
    unfolding pi_rows by simp_all
  from this [THEN inventory_roles_sound [OF pi_collected]] show ?thesis unfolding lxc by simp
qed

lemma inventory_nothing_lost_witness:
  "lines_kept (vmstate_lines None (splitlines pi_content)) state_identities pi_path pi_inventory
   \<and> (pi_path, None, Invalid) \<in> set (inv_current pi_inventory ''san:vm-100-state-a'')"
proof -
  have p: "pi_path \<in> set (config_paths pi_glob)" by (simp add: pi_paths)
  have lxc: "is_lxc_path pi_path = False" by code_simp
  have "(pi_path, None, Invalid) \<in> set (inv_current pi_inventory ''san:vm-100-state-a'')" unfolding pi_rows by simp
  with inventory_nothing_lost [OF pi_collected p] show ?thesis unfolding lxc by (simp add: pi_read_def)
qed

end
