(* ===== verification/Supervisor.thy ===== *)
theory Supervisor
  imports PyEffect PyText Json
begin

text \<open>
  The one-shot process supervisor of
  \<^verbatim>\<open>experiments/thick-generations/prelive_supervisor_model.py\<close>: the validators of its
  request, owner, child, capture and command documents, and \<^verbatim>\<open>SupervisorModel.run\<close> over an
  arbitrary journal and backend. The locals of \<^verbatim>\<open>run\<close> that its exception handler reads are
  fields of the state, because they survive the exception.
\<close>

section \<open>Documents\<close>

definition sup_purposes :: "string list" where
  "sup_purposes = [''RECOVERY_READONLY_PROBE'', ''DISPOSABLE_KERNEL_LAB'']"

definition sup_request_fields :: "string list" where
  "sup_request_fields =
     [''schema'', ''request_id'', ''purpose'', ''boot_id'', ''argv'', ''environment'', ''executable'', ''launcher'',
      ''timeout_ms'', ''cleanup_ms'', ''capture_limit'', ''signal_policy'', ''storage_authorized'',
      ''postcondition_verified'']"

definition sup_executable_fields :: "string list" where
  "sup_executable_fields = [''path'', ''sha256'', ''dev'', ''inode'']"

definition sup_child_fields :: "string list" where
  "sup_child_fields =
     [''request_id'', ''boot_id'', ''pid'', ''starttime'', ''owner_pid'', ''owner_starttime'', ''launcher_sha256'',
      ''armed'']"

definition sup_capture_fields :: "string list" where
  "sup_capture_fields = [''eof'', ''truncated'', ''bytes'', ''sha256'']"

definition sup_command_fields :: "string list" where
  "sup_command_fields =
     [''pid'', ''starttime'', ''boot_id'', ''request_id'', ''argv'', ''environment_sha256'', ''executable'', ''armed'']"

definition sup_clean_environment :: pyval where
  "sup_clean_environment =
     PDict [(''PATH'', PStr ''/usr/sbin:/usr/bin:/sbin:/bin''), (''LC_ALL'', PStr ''C'')]"

abbreviation nul :: char where "nul \<equiv> CHR 0x00"

definition environment_entry :: "string \<times> pyval \<Rightarrow> bool" where
  "environment_entry kv =
     (case kv of (key, v) \<Rightarrow> is_str v \<and> key \<noteq> [] \<and> CHR ''='' \<notin> set key \<and> nul \<notin> set key
        \<and> nul \<notin> set (str_of v) \<and> length key \<le> 128 \<and> length (str_of v) \<le> 4096)"

definition sup_validate_environment :: "pyval \<Rightarrow> pyval res" where
  "sup_validate_environment v =
     rbind (checks
       [need (is_dict v \<and> pyeq v sup_clean_environment) ''environment must equal the closed clean mapping'',
        need (list_all environment_entry (items v)) ''environment entry is invalid''])
     (\<lambda>_. Inr v)"

definition clean_path :: "pyval \<Rightarrow> bool" where
  "clean_path v \<longleftrightarrow> is_str v \<and> starts_with ''/'' (str_of v) \<and> normpath (str_of v) = str_of v \<and> nul \<notin> set (str_of v)"

definition sup_validate_executable :: "pyval \<Rightarrow> pyval res" where
  "sup_validate_executable v =
     rbind (checks
       [need (exact v sup_executable_fields) ''executable identity schema is invalid'',
        need (clean_path (fld v ''path'')) ''executable path is invalid'',
        need (matches (hexn 64) (fld v ''sha256'')) ''executable digest is invalid'',
        need (integer (fld v ''dev'') 1 \<and> integer (fld v ''inode'') 1) ''executable inode identity is invalid''])
     (\<lambda>_. Inr v)"

definition argument_ok :: "pyval \<Rightarrow> bool" where
  "argument_ok v \<longleftrightarrow> is_str v \<and> str_of v \<noteq> [] \<and> nul \<notin> set (str_of v) \<and> length (str_of v) \<le> 4096"

definition argv_ok :: "pyval \<Rightarrow> bool" where
  "argv_ok v \<longleftrightarrow> is_list v \<and> list_of v \<noteq> [] \<and> length (list_of v) \<le> 64 \<and> list_all argument_ok (list_of v)"

definition sup_bounds :: "pyval \<Rightarrow> (bool \<times> exc) list" where
  "sup_bounds v =
     [need (integer (fld v ''timeout_ms'') 1 \<and> int_of (fld v ''timeout_ms'') \<le> 60000) ''execution deadline is invalid'',
      need (integer (fld v ''cleanup_ms'') 1 \<and> int_of (fld v ''cleanup_ms'') \<le> 10000) ''cleanup budget is invalid'',
      need (integer (fld v ''capture_limit'') 1 \<and> int_of (fld v ''capture_limit'') \<le> 1048576)
        ''capture limit is invalid'',
      need (fld v ''signal_policy'' \<in> {PStr ''NONE'', PStr ''PIDFD_TERM_THEN_KILL''}) ''signal policy is invalid'',
      need (is_false (fld v ''storage_authorized'') \<and> is_false (fld v ''postcondition_verified''))
        ''process request cannot authorize storage'']"

definition sup_validate_request :: "pyval \<Rightarrow> pyval res" where
  "sup_validate_request v =
     rbind (checks
       [need (exact v sup_request_fields) ''request schema is incomplete or open'',
        need (fld v ''schema'' = PInt 1) ''request schema version is unsupported'',
        need (matches (hexn 32) (fld v ''request_id'')) ''request identity is invalid''])
     (\<lambda>_. rbind (in_strs (fld v ''purpose'') sup_purposes)
     (\<lambda>known. rbind (checks
       [need known ''request purpose is not allowed by the model'',
        need (matches boot_id_re (fld v ''boot_id'')) ''request boot identity is invalid'',
        need (argv_ok (fld v ''argv'')) ''request argv is invalid''])
     (\<lambda>_. rbind (sup_validate_executable (fld v ''executable''))
     (\<lambda>executable. rbind (sup_validate_executable (fld v ''launcher''))
     (\<lambda>launcher. rbind (checks
       [need (pyeq (hd (list_of (fld v ''argv''))) (fld executable ''path''))
          ''argv executable differs from pinned identity''])
     (\<lambda>_. rbind (sup_validate_environment (fld v ''environment''))
     (\<lambda>environment. rbind (checks (sup_bounds v))
     (\<lambda>_. Inr (pyset ''launcher'' launcher (pyset ''executable'' executable (pyset ''environment'' environment v)))))))))))"

definition sup_validate_owner :: "pyval \<Rightarrow> pyval \<Rightarrow> pyval res" where
  "sup_validate_owner v boot =
     rbind (checks
       [need (exact v [''pid'', ''starttime'', ''boot_id''] \<and> integer (fld v ''pid'') 2 \<and> integer (fld v ''starttime'') 1
          \<and> pyeq (fld v ''boot_id'') boot) ''supervisor owner identity is invalid''])
     (\<lambda>_. Inr v)"

definition child_bound_ok :: "pyval \<Rightarrow> pyval \<Rightarrow> pyval \<Rightarrow> bool \<Rightarrow> bool" where
  "child_bound_ok v request owner armed \<longleftrightarrow>
     pyeq (fld v ''request_id'') (fld request ''request_id'')
   \<and> pyeq (fld v ''boot_id'') (fld request ''boot_id'')
   \<and> is_int (fld v ''owner_pid'') \<and> pyeq (fld v ''owner_pid'') (fld owner ''pid'')
   \<and> is_int (fld v ''owner_starttime'') \<and> pyeq (fld v ''owner_starttime'') (fld owner ''starttime'')
   \<and> integer (fld v ''pid'') 2 \<and> \<not> pyeq (fld v ''pid'') (fld owner ''pid'')
   \<and> integer (fld v ''starttime'') 1
   \<and> matches (hexn 64) (fld v ''launcher_sha256'')
   \<and> pyeq (fld v ''launcher_sha256'') (fld (fld request ''launcher'') ''sha256'')
   \<and> fld v ''armed'' = PBool armed"

definition sup_validate_child :: "pyval \<Rightarrow> pyval \<Rightarrow> pyval \<Rightarrow> bool \<Rightarrow> pyval res" where
  "sup_validate_child v request owner armed =
     rbind (checks
       [need (exact v sup_child_fields) ''launcher identity schema is invalid'',
        need (child_bound_ok v request owner armed) ''launcher identity binding is invalid''])
     (\<lambda>_. Inr v)"

definition sup_validate_capture :: "pyval \<Rightarrow> pyval \<Rightarrow> pyval res" where
  "sup_validate_capture v limit =
     rbind (checks
       [need (exact v sup_capture_fields) ''capture schema is invalid'',
        need (is_true (fld v ''eof'') \<and> is_false (fld v ''truncated'') \<and> integer (fld v ''bytes'') 0
          \<and> int_of (fld v ''bytes'') \<le> int_of limit \<and> matches (hexn 64) (fld v ''sha256''))
          ''capture is incomplete or exceeds bounds'',
        need (\<not> (fld v ''bytes'' = PInt 0 \<and> fld v ''sha256'' \<noteq> PStr (sha256 [])))
          ''empty capture digest is inconsistent''])
     (\<lambda>_. Inr v)"

definition command_bound_ok :: "pyval \<Rightarrow> pyval \<Rightarrow> pyval \<Rightarrow> pyval \<Rightarrow> bool" where
  "command_bound_ok v executable request child \<longleftrightarrow>
     is_int (fld v ''pid'') \<and> pyeq (fld v ''pid'') (fld child ''pid'')
   \<and> is_int (fld v ''starttime'') \<and> pyeq (fld v ''starttime'') (fld child ''starttime'')
   \<and> pyeq (fld v ''boot_id'') (fld child ''boot_id'')
   \<and> pyeq (fld v ''request_id'') (fld request ''request_id'')
   \<and> is_list (fld v ''argv'') \<and> pyeq (fld v ''argv'') (fld request ''argv'')
   \<and> fld v ''environment_sha256'' = PStr (digest (fld request ''environment''))
   \<and> pyeq executable (fld request ''executable'')
   \<and> is_true (fld v ''armed'')"

definition sup_validate_command :: "pyval \<Rightarrow> pyval \<Rightarrow> pyval \<Rightarrow> pyval res" where
  "sup_validate_command v request child =
     rbind (checks [need (exact v sup_command_fields) ''command identity schema is invalid''])
     (\<lambda>_. rbind (sup_validate_executable (fld v ''executable''))
     (\<lambda>executable. rbind (checks [need (command_bound_ok v executable request child) ''command identity binding is invalid''])
     (\<lambda>_. Inr v)))"


section \<open>The controller\<close>

text \<open>
  The calls the model makes: \<^verbatim>\<open>journal.append\<close> and the methods of the backend. One
  arbitrary function answers them all, so the journal and the backend may share state.
\<close>

datatype sup_call =
    Append pyval
  | Capabilities
  | Subreaper pyval
  | Prepare pyval pyval
  | ObserveLauncher pyval
  | BindPidfd pyval
  | GrantExec pyval pyval pyval
  | ObserveExec pyval pyval pyval
  | Monitor pyval pyval pyval
  | ReapExact pyval pyval pyval
  | SettleUnknown pyval pyval pyval pyval

text \<open>\<^verbatim>\<open>self.owner\<close>, \<^verbatim>\<open>self.state\<close>, and the locals of \<^verbatim>\<open>run\<close>\<close>

record sup =
  sup_owner :: pyval
  sup_state :: string
  sup_child :: pyval
  sup_pidfd :: pyval
  sup_request :: pyval
  sup_bound_owner :: pyval
  sup_settled :: bool

type_synonym 'a sup_prog = "(sup, sup_call, 'a) prog"

definition sup_init :: "pyval \<Rightarrow> pyval \<Rightarrow> sup res" where
  "sup_init model_only owner =
     (if \<not> is_true model_only then Inl (Refusal ''model-only backend is required'')
      else Inr \<lparr>sup_owner = owner, sup_state = ''NEW'', sup_child = PNone, sup_pidfd = PNone, sup_request = PNone,
                sup_bound_owner = PNone, sup_settled = False\<rparr>)"

definition sup_persist :: "sup_call backend \<Rightarrow> pyval \<Rightarrow> unit sup_prog" where
  "sup_persist \<beta> event = bnd (call \<beta> (Append event)) (\<lambda>_. ret ())"

abbreviation sup_phase :: "string \<Rightarrow> unit sup_prog" where
  "sup_phase name \<equiv> writes (sup_state_update (\<lambda>_. name))"

definition sup_capabilities :: "string list" where
  "sup_capabilities = [''pidfd'', ''pidfd_waitid'', ''pidfd_signal'', ''subreaper'', ''nonblocking_capture'']"

definition capabilities_ok :: "pyval \<Rightarrow> bool" where
  "capabilities_ok v \<longleftrightarrow> exact v sup_capabilities \<and> list_all (\<lambda>k. is_true (fld v k)) sup_capabilities"

definition subreaper_ok :: "pyval \<Rightarrow> bool" where
  "subreaper_ok v \<longleftrightarrow> exact v [''before'', ''after'', ''process_local''] \<and> is_false (fld v ''before'')
     \<and> is_true (fld v ''after'') \<and> is_true (fld v ''process_local'')"

definition intent_event :: "pyval \<Rightarrow> pyval \<Rightarrow> pyval" where
  "intent_event request owner =
     PDict [(''kind'', PStr ''INTENT''), (''request'', request), (''owner'', owner),
            (''request_sha256'', PStr (digest request))]"

text \<open>Admission, up to the durable intent\<close>

definition sup_admit :: "sup_call backend \<Rightarrow> pyval \<Rightarrow> (pyval \<times> pyval) sup_prog" where
  "sup_admit \<beta> supplied =
     bnd (lift (sup_validate_request supplied)) (\<lambda>request.
     andthen (writes (sup_request_update (\<lambda>_. request)))
     (bnd (reads sup_owner) (\<lambda>own.
     bnd (lift (sup_validate_owner own (fld request ''boot_id''))) (\<lambda>owner.
     andthen (writes (sup_bound_owner_update (\<lambda>_. owner)))
     (bnd (call \<beta> Capabilities) (\<lambda>capabilities.
     andthen (demand (capabilities_ok capabilities) ''mandatory supervisor capabilities are unavailable'')
     (bnd (call \<beta> (Subreaper owner)) (\<lambda>subreaper.
     andthen (demand (subreaper_ok subreaper) ''subreaper enable/readback is ambiguous'')
     (andthen (sup_persist \<beta> (intent_event request owner))
     (andthen (sup_phase ''INTENT_PERSISTED'')
     (ret (request, owner))))))))))))"

text \<open>The two observations of the launcher around the binding\<close>

definition sup_observe :: "sup_call backend \<Rightarrow> pyval \<Rightarrow> pyval \<Rightarrow> pyval \<Rightarrow> string \<Rightarrow> unit sup_prog" where
  "sup_observe \<beta> request owner child msg =
     bnd (call \<beta> (ObserveLauncher child)) (\<lambda>seen.
     bnd (lift (sup_validate_child seen request owner False)) (\<lambda>observed.
     demand (pyeq observed child) msg))"

definition binding_check :: "pyval \<Rightarrow> pyval \<Rightarrow> pyval \<Rightarrow> pyval \<Rightarrow> unit res" where
  "binding_check binding request owner child =
     (if \<not> exact binding [''child'', ''token''] then Inl (Refusal ''pidfd binding is invalid'')
      else rbind (sup_validate_child (fld binding ''child'') request owner False) (\<lambda>bound.
        checks [need (pyeq bound child \<and> integer (fld binding ''token'') 1) ''pidfd binding is invalid'']))"

definition bound_event :: "pyval \<Rightarrow> pyval \<Rightarrow> pyval" where
  "bound_event child pidfd = PDict [(''kind'', PStr ''CHILD_BOUND''), (''child'', child), (''pidfd_token'', pidfd)]"

definition exec_event :: "pyval \<Rightarrow> pyval" where
  "exec_event request =
     PDict [(''kind'', PStr ''EXEC_ISSUED''), (''request_id'', fld request ''request_id''), (''grant_bytes'', PInt 1)]"

definition sup_bind_rest :: "sup_call backend \<Rightarrow> pyval \<Rightarrow> pyval \<Rightarrow> pyval \<Rightarrow> (pyval \<times> pyval) sup_prog" where
  "sup_bind_rest \<beta> request owner child =
     andthen (sup_observe \<beta> request owner child ''launcher changed before pidfd binding'')
     (bnd (call \<beta> (BindPidfd child)) (\<lambda>binding.
     andthen (lift (binding_check binding request owner child))
     (andthen (writes (sup_pidfd_update (\<lambda>_. fld binding ''token'')))
     (andthen (sup_observe \<beta> request owner child ''launcher changed while binding pidfd'')
     (andthen (sup_persist \<beta> (bound_event child (fld binding ''token'')))
     (andthen (sup_phase ''CHILD_BOUND'')
     (andthen (sup_persist \<beta> (exec_event request))
     (andthen (sup_phase ''EXEC_ISSUED'')
     (ret (child, fld binding ''token''))))))))))"

definition sup_bind :: "sup_call backend \<Rightarrow> pyval \<Rightarrow> pyval \<Rightarrow> (pyval \<times> pyval) sup_prog" where
  "sup_bind \<beta> request owner =
     bnd (call \<beta> (Prepare request owner)) (\<lambda>prepared.
     andthen (writes (sup_child_update (\<lambda>_. prepared)))
     (bnd (lift (sup_validate_child prepared request owner False)) (\<lambda>child.
     andthen (writes (sup_child_update (\<lambda>_. child)))
     (sup_bind_rest \<beta> request owner child))))"

definition grant_ok :: "pyval \<Rightarrow> pyval \<Rightarrow> bool" where
  "grant_ok v request \<longleftrightarrow> exact v [''request_id'', ''bytes_written'', ''grant_eof'']
     \<and> pyeq (fld v ''request_id'') (fld request ''request_id'') \<and> fld v ''bytes_written'' = PInt 1
     \<and> is_true (fld v ''grant_eof'')"

definition sup_exec :: "sup_call backend \<Rightarrow> pyval \<Rightarrow> pyval \<Rightarrow> pyval \<Rightarrow> pyval sup_prog" where
  "sup_exec \<beta> request child pidfd =
     bnd (call \<beta> (GrantExec child pidfd request)) (\<lambda>grant.
     andthen (demand (grant_ok grant request) ''one-shot exec grant is ambiguous'')
     (bnd (call \<beta> (ObserveExec child pidfd request)) (\<lambda>seen.
     bnd (lift (sup_validate_command seen request child)) (\<lambda>command.
     andthen (sup_phase ''MONITORING'') (ret command)))))"

definition monitor_fields :: "string list" where
  "monitor_fields =
     [''command'', ''pidfd_token'', ''terminal'', ''unreaped'', ''returncode'', ''deadline_exceeded'', ''survivor'',
      ''descendants'', ''descendants_complete'', ''stdout'', ''stderr'', ''elapsed_ms'']"

definition terminal_ok :: "pyval \<Rightarrow> pyval \<Rightarrow> pyval \<Rightarrow> pyval \<Rightarrow> pyval \<Rightarrow> bool" where
  "terminal_ok v observed command pidfd request \<longleftrightarrow>
     pyeq observed command
   \<and> is_int (fld v ''pidfd_token'') \<and> pyeq (fld v ''pidfd_token'') pidfd
   \<and> fld v ''terminal'' = PStr ''EXITED'' \<and> is_true (fld v ''unreaped'')
   \<and> fld v ''returncode'' = PInt 0
   \<and> is_false (fld v ''deadline_exceeded'') \<and> is_false (fld v ''survivor'')
   \<and> is_true (fld v ''descendants_complete'') \<and> fld v ''descendants'' = PList []
   \<and> integer (fld v ''elapsed_ms'') 0 \<and> int_of (fld v ''elapsed_ms'') < int_of (fld request ''timeout_ms'')"

definition monitor_check :: "pyval \<Rightarrow> pyval \<Rightarrow> pyval \<Rightarrow> pyval \<Rightarrow> pyval \<Rightarrow> unit res" where
  "monitor_check v request child command pidfd =
     rbind (checks [need (exact v monitor_fields) ''monitor receipt schema is invalid''])
     (\<lambda>_. rbind (sup_validate_command (fld v ''command'') request child)
     (\<lambda>observed. rbind (checks [need (terminal_ok v observed command pidfd request)
        ''process or descendant terminal proof is incomplete''])
     (\<lambda>_. rbind (sup_validate_capture (fld v ''stdout'') (fld request ''capture_limit''))
     (\<lambda>_. rbind (sup_validate_capture (fld v ''stderr'') (fld request ''capture_limit''))
     (\<lambda>_. Inr ())))))"

definition reap_fields :: "string list" where
  "reap_fields = [''command'', ''pidfd_token'', ''reaped'', ''returncode'', ''echild_after_reap'', ''elapsed_ms'']"

definition reap_ok :: "pyval \<Rightarrow> pyval \<Rightarrow> pyval \<Rightarrow> pyval \<Rightarrow> int \<Rightarrow> bool" where
  "reap_ok v observed command pidfd remaining \<longleftrightarrow>
     pyeq observed command \<and> is_int (fld v ''pidfd_token'') \<and> pyeq (fld v ''pidfd_token'') pidfd
   \<and> is_true (fld v ''reaped'') \<and> fld v ''returncode'' = PInt 0 \<and> is_true (fld v ''echild_after_reap'')
   \<and> integer (fld v ''elapsed_ms'') 0 \<and> int_of (fld v ''elapsed_ms'') \<le> remaining"

definition reap_check :: "pyval \<Rightarrow> pyval \<Rightarrow> pyval \<Rightarrow> pyval \<Rightarrow> pyval \<Rightarrow> int \<Rightarrow> unit res" where
  "reap_check v request child command pidfd remaining =
     (if \<not> exact v reap_fields then Inl (Refusal ''exact reap proof is incomplete'')
      else rbind (sup_validate_command (fld v ''command'') request child) (\<lambda>observed.
        checks [need (reap_ok v observed command pidfd remaining) ''exact reap proof is incomplete'']))"

definition terminal_result :: "pyval \<Rightarrow> pyval \<Rightarrow> pyval \<Rightarrow> pyval \<Rightarrow> pyval" where
  "terminal_result request command seen reaped =
     PDict [(''classification'', PStr ''PROCESS_TERMINAL_EXIT0''),
            (''request_id'', fld request ''request_id''), (''command'', command),
            (''stdout'', fld seen ''stdout''), (''stderr'', fld seen ''stderr''), (''reap'', reaped),
            (''storage_authorized'', PBool False), (''postcondition_verified'', PBool False),
            (''runtime_authorized'', PBool False)]"

definition terminal_event :: "pyval \<Rightarrow> pyval" where
  "terminal_event outcome = PDict [(''kind'', PStr ''PROCESS_TERMINAL''), (''result'', outcome)]"

definition remaining_ms :: "pyval \<Rightarrow> pyval \<Rightarrow> int" where
  "remaining_ms request seen = int_of (fld request ''timeout_ms'') - int_of (fld seen ''elapsed_ms'')"

definition sup_watch :: "sup_call backend \<Rightarrow> pyval \<Rightarrow> pyval \<Rightarrow> pyval \<Rightarrow> pyval \<Rightarrow> pyval sup_prog" where
  "sup_watch \<beta> request child pidfd command =
     bnd (call \<beta> (Monitor command pidfd request)) (\<lambda>seen.
     andthen (lift (monitor_check seen request child command pidfd))
     (bnd (call \<beta> (ReapExact command pidfd (PInt (remaining_ms request seen)))) (\<lambda>reaped.
     andthen (lift (reap_check reaped request child command pidfd (remaining_ms request seen)))
     (andthen (writes (sup_settled_update (\<lambda>_. True)))
     (andthen (sup_persist \<beta> (terminal_event (terminal_result request command seen reaped)))
     (andthen (sup_phase ''TERMINAL'')
     (ret (terminal_result request command seen reaped))))))))"

definition sup_body :: "sup_call backend \<Rightarrow> pyval \<Rightarrow> pyval sup_prog" where
  "sup_body \<beta> supplied =
     bnd (sup_admit \<beta> supplied) (\<lambda>(request, owner).
     bnd (sup_bind \<beta> request owner) (\<lambda>(child, pidfd).
     bnd (sup_exec \<beta> request child pidfd) (\<lambda>command.
     sup_watch \<beta> request child pidfd command)))"


section \<open>Settlement of a failed run\<close>

definition settlement_fields :: "string list" where
  "settlement_fields =
     [''child'', ''pidfd_token'', ''cleanup_elapsed_ms'', ''signal_policy'', ''signal_sent'', ''terminal'', ''reaped'',
      ''echild_after_reap'', ''survivor'']"

definition settlement_flags :: "string list" where
  "settlement_flags = [''terminal'', ''reaped'', ''echild_after_reap'']"

definition pidfd_matches :: "pyval \<Rightarrow> pyval \<Rightarrow> bool" where
  "pidfd_matches pidfd token \<longleftrightarrow>
     (pidfd = PNone \<and> token = PNone) \<or> (is_int pidfd \<and> is_int token \<and> pyeq token pidfd)"

definition settlement_ok :: "pyval \<Rightarrow> pyval \<Rightarrow> pyval \<Rightarrow> pyval \<Rightarrow> pyval \<Rightarrow> bool" where
  "settlement_ok v settled_child child pidfd request \<longleftrightarrow>
     exact v settlement_fields
   \<and> pyeq settled_child child
   \<and> pidfd_matches pidfd (fld v ''pidfd_token'')
   \<and> integer (fld v ''cleanup_elapsed_ms'') 0
   \<and> int_of (fld v ''cleanup_elapsed_ms'') \<le> int_of (fld request ''cleanup_ms'')
   \<and> pyeq (fld v ''signal_policy'') (fld request ''signal_policy'')
   \<and> fld v ''signal_sent'' \<in> {PNone, PStr ''SIGTERM'', PStr ''SIGKILL''}
   \<and> list_all (\<lambda>k. is_bool (fld v k)) (settlement_flags @ [''survivor''])
   \<and> (is_false (fld v ''survivor'') \<longrightarrow> list_all (\<lambda>k. is_true (fld v k)) settlement_flags)
   \<and> (is_true (fld v ''survivor'') \<longrightarrow> \<not> list_ex (\<lambda>k. is_true (fld v k)) settlement_flags)"

definition settlement_check :: "pyval \<Rightarrow> pyval \<Rightarrow> pyval \<Rightarrow> pyval \<Rightarrow> pyval \<Rightarrow> unit res" where
  "settlement_check v child pidfd request owner =
     rbind (if is_dict v then sup_validate_child (fld v ''child'') request owner False else Inr PNone)
     (\<lambda>settled_child. checks
       [need (settlement_ok v settled_child child pidfd request) ''bounded settlement receipt is invalid'',
        need (\<not> (fld request ''signal_policy'' = PStr ''NONE'' \<and> fld v ''signal_sent'' \<noteq> PNone))
          ''signal contradicts persisted policy'',
        need (\<not> (fld v ''signal_sent'' \<noteq> PNone \<and> \<not> integer pidfd 1)) ''signal lacks an exact pidfd binding''])"

text \<open>\<^verbatim>\<open>str(exc)\<close>\<close>

fun exc_message :: "exc \<Rightarrow> string" where
  "exc_message (Refusal t) = t"
| "exc_message (KeyError t) = CHR 0x27 # t @ [CHR 0x27]"
| "exc_message (TypeError t) = t"
| "exc_message (ValueError t) = t"
| "exc_message (AttributeError t) = t"
| "exc_message (OverflowError t) = t"
| "exc_message (Foreign t) = t"
| "exc_message (Exiting t) = t"

definition sup_settle :: "sup_call backend \<Rightarrow> pyval sup_prog" where
  "sup_settle \<beta> =
     bnd (reads (\<lambda>s. s)) (\<lambda>s.
     if sup_child s \<noteq> PNone \<and> \<not> sup_settled s then
       catch
         (bnd (call \<beta> (SettleUnknown (sup_child s) (sup_pidfd s) (sup_request s) (fld (sup_request s) ''cleanup_ms'')))
           (\<lambda>settlement. andthen
             (lift (settlement_check settlement (sup_child s) (sup_pidfd s) (sup_request s) (sup_bound_owner s)))
             (ret settlement)))
         (\<lambda>e. ret (PDict [(''classification'', PStr ''SETTLEMENT_UNKNOWN''), (''error'', PStr (exc_message e)),
                          (''survivor'', PBool True)]))
     else ret PNone)"

definition unknown_event :: "sup \<Rightarrow> pyval \<Rightarrow> exc \<Rightarrow> pyval" where
  "unknown_event s settlement e =
     PDict [(''kind'', PStr ''UNKNOWN_PRESERVE''), (''request_id'', fld (sup_request s) ''request_id''),
            (''child'', sup_child s), (''pidfd_token'', sup_pidfd s), (''settlement'', settlement),
            (''error'', PStr (exc_message e)), (''retry_dispatched'', PBool False),
            (''storage_cleanup_dispatched'', PBool False)]"

text \<open>
  A failure of the last journal call only adds a note to the exception that is raised again
  (\<^verbatim>\<open>exc.add_note\<close>); notes are not part of the exceptions here.
\<close>

definition sup_preserve :: "sup_call backend \<Rightarrow> exc \<Rightarrow> unit sup_prog" where
  "sup_preserve \<beta> e =
     andthen (sup_phase ''UNKNOWN'')
     (bnd (sup_settle \<beta>) (\<lambda>settlement.
     bnd (reads (\<lambda>s. s)) (\<lambda>s.
     catch (sup_persist \<beta> (unknown_event s settlement e)) (\<lambda>_. ret ()))))"

definition sup_start :: "sup \<Rightarrow> sup" where
  "sup_start s = s\<lparr>sup_state := ''STARTING'', sup_child := PNone, sup_pidfd := PNone, sup_request := PNone,
                   sup_bound_owner := PNone, sup_settled := False\<rparr>"

definition sup_run :: "sup_call backend \<Rightarrow> pyval \<Rightarrow> pyval sup_prog" where
  "sup_run \<beta> supplied =
     bnd (reads sup_state) (\<lambda>phase.
     andthen (demand (phase = ''NEW'') ''supervisor model is single-use'')
     (andthen (writes sup_start)
     (on_error (sup_body \<beta> supplied) (sup_preserve \<beta>))))"

section \<open>The abstract protocol\<close>

text \<open>
  What a reader of the journal and of the process table sees: the labels of the calls, each with
  whether it was answered. The protocol is one fixed sequence; the first call that is not answered
  stops it, and so may a rejected answer. A failure is followed by at most one bounded
  settlement, which is mandatory while a launched child has no answered reap, and by one
  preservation record, and nothing is ever retried.
\<close>

fun sup_label :: "sup_call \<Rightarrow> string" where
  "sup_label (Append event) = ''append:'' @ str_of (fld event ''kind'')"
| "sup_label Capabilities = ''capabilities''"
| "sup_label (Subreaper _) = ''enable_subreaper''"
| "sup_label (Prepare _ _) = ''prepare_unarmed''"
| "sup_label (ObserveLauncher _) = ''observe_launcher''"
| "sup_label (BindPidfd _) = ''bind_pidfd''"
| "sup_label (GrantExec _ _ _) = ''grant_exec''"
| "sup_label (ObserveExec _ _ _) = ''observe_exec''"
| "sup_label (Monitor _ _ _) = ''monitor''"
| "sup_label (ReapExact _ _ _) = ''reap_exact''"
| "sup_label (SettleUnknown _ _ _ _) = ''settle_unknown''"

abbreviation labels :: "sup_call hist \<Rightarrow> string list" where
  "labels h \<equiv> map (sup_label \<circ> fst) h"

definition steps :: "sup_call hist \<Rightarrow> (string \<times> bool) list" where
  "steps h = map (\<lambda>(q, r). (sup_label q, \<not> isl r)) h"

definition admit_script :: "string list" where
  "admit_script = [''capabilities'', ''enable_subreaper'', ''append:INTENT'']"

definition bind_script :: "string list" where
  "bind_script = [''prepare_unarmed'', ''observe_launcher'', ''bind_pidfd'', ''observe_launcher'',
     ''append:CHILD_BOUND'', ''append:EXEC_ISSUED'']"

definition exec_script :: "string list" where
  "exec_script = [''grant_exec'', ''observe_exec'']"

definition watch_script :: "string list" where
  "watch_script = [''monitor'', ''reap_exact'', ''append:PROCESS_TERMINAL'']"

definition sup_script :: "string list" where
  "sup_script = admit_script @ bind_script @ exec_script @ watch_script"

text \<open>An initial part of the script, every call but possibly the last one answered\<close>

definition run_begun :: "(string \<times> bool) list \<Rightarrow> bool" where
  "run_begun calls \<longleftrightarrow> (\<exists>rest. sup_script = map fst calls @ rest) \<and> list_all snd (butlast calls)"

inductive sup_protocol :: "(string \<times> bool) list \<Rightarrow> string \<Rightarrow> bool" where
  completed: "sup_protocol (map (\<lambda>l. (l, True)) sup_script) ''TERMINAL''"
| failed: "run_begun calls \<Longrightarrow> settlement \<in> {[], [(''settle_unknown'', settled)]} \<Longrightarrow>
     (settlement \<noteq> [] \<longrightarrow> (''prepare_unarmed'', True) \<in> set calls) \<Longrightarrow>
     (''observe_launcher'' \<in> fst ` set calls \<and> (''reap_exact'', True) \<notin> set calls \<longrightarrow> settlement \<noteq> []) \<Longrightarrow>
     (''append:PROCESS_TERMINAL'' \<in> fst ` set calls \<longrightarrow> settlement = []) \<Longrightarrow>
     sup_protocol (calls @ settlement @ [(''append:UNKNOWN_PRESERVE'', preserved)]) ''UNKNOWN''"

section \<open>Every run follows the protocol\<close>

lemma steps_simps [simp]:
  "steps [] = []" "steps (h @ t) = steps h @ steps t" "steps ((q, r) # h) = (sup_label q, \<not> isl r) # steps h"
  by (simp_all add: steps_def)

lemma steps_labels: "map fst (steps h) = labels h"
  by (auto simp: steps_def)

lemma steps_answered: "list_all snd (butlast (steps h)) \<longleftrightarrow> all_answered (butlast h)"
  by (simp add: steps_def all_answered_def list_all_iff case_prod_unfold flip: map_butlast)

lemma steps_all: "all_answered h \<Longrightarrow> steps h = map (\<lambda>l. (l, True)) (labels h)"
  by (auto simp: steps_def all_answered_def list_all_iff)

lemma emits_persist: "emits sup_label [''append:'' @ str_of (fld event ''kind'')] (sup_persist \<beta> event)"
  unfolding sup_persist_def by (rule emits_bndI [OF emits_call emits_statements(1)]) simp

lemma emits_observe: "emits sup_label [''observe_launcher''] (sup_observe \<beta> request owner child msg)"
  unfolding sup_observe_def
  by (rule emits_bndI [OF emits_call emits_bndI [OF emits_statements(4,3)]]) simp_all

lemma emits_admit: "emits sup_label admit_script (sup_admit \<beta> supplied)"
  unfolding sup_admit_def
  by (rule emits_intros emits_persist)+ (simp_all add: admit_script_def intent_event_def)

lemma emits_bind: "emits sup_label bind_script (sup_bind \<beta> request owner)"
  unfolding sup_bind_def sup_bind_rest_def
  by (rule emits_intros emits_persist emits_observe)+ (simp_all add: bind_script_def bound_event_def exec_event_def)

lemma emits_exec: "emits sup_label exec_script (sup_exec \<beta> request child pidfd)"
  unfolding sup_exec_def
  by (rule emits_intros)+ (simp_all add: exec_script_def)

lemma emits_watch: "emits sup_label watch_script (sup_watch \<beta> request child pidfd command)"
  unfolding sup_watch_def
  by (rule emits_intros emits_persist)+ (simp_all add: watch_script_def terminal_event_def)

lemma emits_body: "emits sup_label sup_script (sup_body \<beta> supplied)"
  unfolding sup_body_def sup_script_def
  by (intro emits_bnd emits_admit) (auto intro!: emits_bnd emits_bind emits_exec emits_watch simp: split_beta)

text \<open>What the handler finds in the locals, by the calls made so far\<close>

definition sup_facts :: "sup \<times> sup_call hist \<Rightarrow> bool" where
  "sup_facts \<sigma> \<longleftrightarrow> (case \<sigma> of (s, h) \<Rightarrow>
     (sup_child s \<noteq> PNone \<longrightarrow> (''prepare_unarmed'', True) \<in> set (steps h))
   \<and> (''observe_launcher'' \<in> set (labels h) \<and> (''reap_exact'', True) \<notin> set (steps h) \<longrightarrow> sup_child s \<noteq> PNone \<and> \<not> sup_settled s)
   \<and> (''append:PROCESS_TERMINAL'' \<in> set (labels h) \<longrightarrow> sup_settled s))"

definition sup_early :: "sup \<times> sup_call hist \<Rightarrow> bool" where
  "sup_early \<sigma> \<longleftrightarrow> (case \<sigma> of (s, h) \<Rightarrow> sup_child s = PNone \<and> \<not> sup_settled s
     \<and> set (labels h) \<inter> {''observe_launcher'', ''reap_exact'', ''append:PROCESS_TERMINAL''} = {})"

definition sup_late :: "sup \<times> sup_call hist \<Rightarrow> bool" where
  "sup_late \<sigma> \<longleftrightarrow> (case \<sigma> of (s, h) \<Rightarrow> sup_child s \<noteq> PNone \<and> \<not> sup_settled s \<and> (''prepare_unarmed'', True) \<in> set (steps h)
     \<and> set (labels h) \<inter> {''reap_exact'', ''append:PROCESS_TERMINAL''} = {})"

lemmas sup_fact_defs = sup_facts_def sup_early_def sup_late_def

lemma validate_child_ok:
  "sup_validate_child v request owner armed = Inr c \<longleftrightarrow>
     c = v \<and> exact v sup_child_fields \<and> child_bound_ok v request owner armed"
  by (auto simp: sup_validate_child_def check_simps)

lemma child_not_None: "sup_validate_child v request owner armed = Inr c \<Longrightarrow> c = v \<and> v \<noteq> PNone"
  by (auto simp: validate_child_ok exact_def)

lemma sup_wp_persist:
  "wp (sup_persist \<beta> event) Q E = (\<lambda>(s, h). case \<beta> h (Append event) of
     Inl e \<Rightarrow> E e (s, h @ [(Append event, Inl e)]) | Inr v \<Rightarrow> Q () (s, h @ [(Append event, Inr v)]))"
  by (simp add: sup_persist_def wp_simps fun_eq_iff split: sum.splits)

lemma admit_facts: "sup_early \<sigma> \<Longrightarrow> wp (sup_admit \<beta> supplied) (\<lambda>_. sup_early) (\<lambda>_. sup_facts) \<sigma>"
  by (cases \<sigma>)
     (auto simp: sup_admit_def wp_simps sup_wp_persist sup_fact_defs intent_event_def split: sum.splits)

lemma late_facts: "sup_late \<sigma> \<Longrightarrow> sup_facts \<sigma>"
  by (cases \<sigma>) (auto simp: sup_fact_defs)

lemma late_call:
  "sup_label q \<noteq> ''reap_exact'' \<Longrightarrow> sup_label q \<noteq> ''append:PROCESS_TERMINAL'' \<Longrightarrow> preserves sup_late (call \<beta> q)"
  by (rule preserves_call) (auto simp: sup_late_def)

lemma late_writes:
  "(\<And>s. sup_child (u s) = sup_child s \<and> sup_settled (u s) = sup_settled s) \<Longrightarrow> preserves sup_late (writes u)"
  by (rule preserves_writes) (auto simp: sup_late_def)

lemma late_bind_rest: "preserves sup_late (sup_bind_rest \<beta> request owner child)"
  unfolding sup_bind_rest_def sup_observe_def sup_persist_def
  by (intro preserves_intros late_call late_writes) (simp_all add: bound_event_def exec_event_def)

lemma prepared_late:
  "sup_child a = PNone \<Longrightarrow> \<not> sup_settled a \<Longrightarrow> v \<noteq> PNone \<Longrightarrow>
   ''reap_exact'' \<notin> (\<lambda>x. sup_label (fst x)) ` set h \<Longrightarrow> ''append:PROCESS_TERMINAL'' \<notin> (\<lambda>x. sup_label (fst x)) ` set h \<Longrightarrow>
   sup_late (a\<lparr>sup_child := v\<rparr>, h @ [(Prepare request owner, Inr v)])"
  by (auto simp: sup_late_def)

lemma bind_facts: "sup_early \<sigma> \<Longrightarrow> wp (sup_bind \<beta> request owner) (\<lambda>_. sup_late) (\<lambda>_. sup_facts) \<sigma>"
  by (cases \<sigma>)
     (auto simp: sup_bind_def wp_simps sup_fact_defs [unfolded sup_late_def] dest: child_not_None
       intro!: wp_mono [OF preservesD [OF late_bind_rest]] late_facts prepared_late split: sum.splits)

lemma exec_facts: "sup_late \<sigma> \<Longrightarrow> wp (sup_exec \<beta> request child pidfd) (\<lambda>_. sup_late) (\<lambda>_. sup_facts) \<sigma>"
  unfolding sup_exec_def
  by (rule wp_mono [OF preservesD [where I = sup_late]], (intro preserves_intros late_call late_writes; simp))
     (simp_all add: late_facts)

lemma watch_facts: "sup_late \<sigma> \<Longrightarrow> wp (sup_watch \<beta> request child pidfd command) (\<lambda>_ _. True) (\<lambda>_. sup_facts) \<sigma>"
  by (cases \<sigma>)
     (auto simp: sup_watch_def wp_simps sup_wp_persist sup_fact_defs terminal_event_def split: sum.splits)

lemma body_facts:
  assumes "sup_early \<sigma>"
  shows "wp (sup_body \<beta> supplied) (\<lambda>_ _. True) (\<lambda>_. sup_facts) \<sigma>"
  unfolding sup_body_def
proof (rule wp_bndI [OF admit_facts [OF assms]], unfold split_beta)
  fix a \<tau> assume "sup_early \<tau>"
  then show "wp (bnd (sup_bind \<beta> (fst a) (snd a)) (\<lambda>p. bnd (sup_exec \<beta> (fst a) (fst p) (snd p)) (sup_watch \<beta> (fst a) (fst p) (snd p))))
    (\<lambda>_ _. True) (\<lambda>_. sup_facts) \<tau>"
    by (auto intro!: wp_bndI [OF bind_facts] wp_bndI [OF exec_facts] watch_facts)
qed


lemma on_error_cases:
  "on_error m k \<sigma> = (case m \<sigma> of (Inr a, \<tau>) \<Rightarrow> (Inr a, \<tau>)
     | (Inl e, \<tau>) \<Rightarrow> (case k e \<tau> of (Inl e', \<upsilon>) \<Rightarrow> (Inl e', \<upsilon>) | (Inr _, \<upsilon>) \<Rightarrow> (Inl e, \<upsilon>)))"
  by (simp add: on_error_def)

lemma settle_steps:
  "wp (sup_settle \<beta>)
     (\<lambda>_ (s', h'). s' = s \<and> (\<exists>b. steps h' = steps h @ (if sup_child s \<noteq> PNone \<and> \<not> sup_settled s then [(''settle_unknown'', b)] else [])))
     (\<lambda>_ _. False) (s, h)"
  by (auto simp: sup_settle_def wp_simps split: sum.splits)

lemma preserve_steps:
  "wp (sup_preserve \<beta> e)
     (\<lambda>_ (s', h'). sup_state s' = ''UNKNOWN'' \<and> (\<exists>b p. steps h' = steps h
        @ (if sup_child s \<noteq> PNone \<and> \<not> sup_settled s then [(''settle_unknown'', b)] else []) @ [(''append:UNKNOWN_PRESERVE'', p)]))
     (\<lambda>_ _. False) (s, h)"
  unfolding sup_preserve_def wp_simps
  by (auto simp: wp_simps sup_wp_persist unknown_event_def intro!: wp_mono [OF settle_steps] split: sum.splits)

lemma body_terminal:
  "wp (sup_body \<beta> supplied) (\<lambda>_ (s, h). sup_state s = ''TERMINAL'') (\<lambda>_ _. True) \<sigma>"
  by (rule wp_valueI)
     (auto simp: sup_body_def sup_watch_def writes_def split_beta elim!: bnd_value andthen_value)

lemma run_new:
  "sup_state s = ''NEW'' \<Longrightarrow>
   sup_run \<beta> supplied (s, h) = on_error (sup_body \<beta> supplied) (sup_preserve \<beta>) (sup_start s, h)"
  by (simp add: sup_run_def reads_def writes_def demand_def ret_def andthen_def bnd_def)

lemma run_used:
  "sup_state s \<noteq> ''NEW'' \<Longrightarrow>
   sup_run \<beta> supplied (s, h) = (Inl (Refusal ''supervisor model is single-use''), s, h)"
  by (simp add: sup_run_def reads_def demand_def raise_def andthen_def bnd_def)

lemma run_failed:
  assumes "sup_body \<beta> supplied (sup_start s, []) = (Inl e, s1, h1)"
    and "on_error (sup_body \<beta> supplied) (sup_preserve \<beta>) (sup_start s, []) = (r, s', h')"
  shows "r = Inl e" "sup_state s' = ''UNKNOWN''" "sup_protocol (steps h') ''UNKNOWN''"
proof -
  let ?due = "sup_child s1 \<noteq> PNone \<and> \<not> sup_settled s1"
  obtain x where k: "sup_preserve \<beta> e (s1, h1) = (Inr x, s', h')" and r: "r = Inl e"
    using assms preserve_steps [where s = s1 and h = h1 and \<beta> = \<beta> and e = e] by (auto simp: on_error_def wp_def split: sum.splits prod.splits)
  from wp_value [OF preserve_steps k] obtain ok p where h': "sup_state s' = ''UNKNOWN''"
    "steps h' = steps h1 @ (if ?due then [(''settle_unknown'', ok)] else []) @ [(''append:UNKNOWN_PRESERVE'', p)]" by auto
  have "sup_early (sup_start s, [])" by (simp add: sup_early_def sup_start_def)
  from wp_exc [OF body_facts [OF this] assms(1)] have facts: "sup_facts (s1, h1)" .
  from emits_exc [OF emits_body assms(1)] emits_answered(1) [OF emits_body assms(1)] have "run_begun (steps h1)"
    by (simp add: run_begun_def steps_labels steps_answered)
  then have "sup_protocol (steps h1 @ (if ?due then [(''settle_unknown'', ok)] else []) @ [(''append:UNKNOWN_PRESERVE'', p)]) ''UNKNOWN''"
  proof (rule sup_protocol.failed)
    have fst_steps: "fst ` set (steps h1) = set (labels h1)" by (simp add: steps_labels [symmetric])
    show "(if ?due then [(''settle_unknown'', ok)] else []) \<in> {[], [(''settle_unknown'', ok)]}" by simp
    show "(if ?due then [(''settle_unknown'', ok)] else []) \<noteq> [] \<longrightarrow> (''prepare_unarmed'', True) \<in> set (steps h1)"
      "''observe_launcher'' \<in> fst ` set (steps h1) \<and> (''reap_exact'', True) \<notin> set (steps h1) \<longrightarrow>
         (if ?due then [(''settle_unknown'', ok)] else []) \<noteq> []"
      "''append:PROCESS_TERMINAL'' \<in> fst ` set (steps h1) \<longrightarrow> (if ?due then [(''settle_unknown'', ok)] else []) = []"
      using facts unfolding fst_steps by (auto simp: sup_facts_def)
  qed
  with r h' show "r = Inl e" "sup_state s' = ''UNKNOWN''" "sup_protocol (steps h') ''UNKNOWN''" by simp_all
qed

section \<open>Accepted documents\<close>

lemma dict_set_same: "map_of d k = Some v \<Longrightarrow> dict_set k v d = d"
  by (induction d) (auto split: if_splits)

lemma pyset_same: "is_dict v \<Longrightarrow> has_key v k \<Longrightarrow> pyset k (fld v k) v = v"
proof -
  assume "is_dict v" and key: "has_key v k"
  then obtain d where v: "v = PDict d" by (auto simp: is_dict_iff)
  with key have "map_of d k \<noteq> None" by (simp add: has_key_def keys_def map_of_eq_None_iff)
  then obtain w where "map_of d k = Some w" by blast
  with v show ?thesis by (simp add: pyset_def fld_def dict_set_same)
qed

lemma exact_key: "exact v ks \<Longrightarrow> k \<in> set ks \<Longrightarrow> has_key v k"
  by (simp add: exact_def has_key_def)

lemma validate_executable_ok:
  "sup_validate_executable v = Inr w \<longleftrightarrow>
     w = v \<and> exact v sup_executable_fields \<and> clean_path (fld v ''path'') \<and> matches (hexn 64) (fld v ''sha256'')
     \<and> integer (fld v ''dev'') 1 \<and> integer (fld v ''inode'') 1"
  by (auto simp: sup_validate_executable_def check_simps)

lemma validate_environment_ok:
  "sup_validate_environment v = Inr w \<longleftrightarrow>
     w = v \<and> is_dict v \<and> pyeq v sup_clean_environment \<and> list_all environment_entry (items v)"
  by (auto simp: sup_validate_environment_def check_simps)

text \<open>The type of an accepted request\<close>

definition sup_request_type :: "pyval \<Rightarrow> bool" where
  "sup_request_type v \<longleftrightarrow>
     exact v sup_request_fields \<and> fld v ''schema'' = PInt 1 \<and> matches (hexn 32) (fld v ''request_id'')
   \<and> fld v ''purpose'' \<in> PStr ` set sup_purposes \<and> matches boot_id_re (fld v ''boot_id'') \<and> argv_ok (fld v ''argv'')
   \<and> sup_validate_executable (fld v ''executable'') = Inr (fld v ''executable'')
   \<and> sup_validate_executable (fld v ''launcher'') = Inr (fld v ''launcher'')
   \<and> pyeq (hd (list_of (fld v ''argv''))) (fld (fld v ''executable'') ''path'')
   \<and> sup_validate_environment (fld v ''environment'') = Inr (fld v ''environment'')
   \<and> list_all fst (sup_bounds v)"

lemma validate_request_ok: "sup_validate_request v = Inr w \<longleftrightarrow> w = v \<and> sup_request_type v"
proof
  assume "sup_validate_request v = Inr w"
  then have t: "sup_request_type v"
    and w: "w = pyset ''launcher'' (fld v ''launcher'') (pyset ''executable'' (fld v ''executable'')
              (pyset ''environment'' (fld v ''environment'') v))"
    unfolding sup_validate_request_def sup_request_type_def
    by (auto simp: checks_ok validate_executable_ok validate_environment_ok elim!: rbindE)
  then have "is_dict v" "has_key v ''environment''" "has_key v ''executable''" "has_key v ''launcher''"
    by (auto simp: sup_request_type_def exact_is_dict exact_key sup_request_fields_def)
  then have "w = v" unfolding w by (simp only: pyset_same)
  with t show "w = v \<and> sup_request_type v" by simp
next
  assume "w = v \<and> sup_request_type v"
  then have t: "sup_request_type v" and w: "w = v" by simp_all
  then have "is_dict v" "has_key v ''environment''" "has_key v ''executable''" "has_key v ''launcher''"
    by (auto simp: sup_request_type_def exact_is_dict exact_key sup_request_fields_def)
  then have "pyset ''launcher'' (fld v ''launcher'') (pyset ''executable'' (fld v ''executable'')
              (pyset ''environment'' (fld v ''environment'') v)) = v" by (simp only: pyset_same)
  moreover have "in_strs (fld v ''purpose'') sup_purposes = Inr True"
    using t unfolding in_strs_True sup_request_type_def by blast
  moreover have "checks (sup_bounds v) = Inr ()" using t by (simp add: sup_request_type_def checks_ok)
  moreover note t [unfolded sup_request_type_def]
  ultimately show "sup_validate_request v = Inr w"
    unfolding w sup_validate_request_def
    by (simp only: checks.simps need_def if_True simp_thms fst_conv rbind_simps)
qed


section \<open>What a returned result rests on\<close>

lemma reads_value [simp]: "reads f \<sigma> = (Inr a, \<tau>) \<longleftrightarrow> a = f (fst \<sigma>) \<and> \<tau> = \<sigma>"
  by (auto simp: reads_def)

lemma writes_value [simp]: "writes u \<sigma> = (Inr a, \<tau>) \<longleftrightarrow> \<tau> = (u (fst \<sigma>), snd \<sigma>)"
  by (auto simp: writes_def)

lemma sup_persist_value:
  assumes "sup_persist \<beta> event (s, h) = (Inr u, \<tau>)"
  obtains a where "\<tau> = (s, h @ [(Append event, Inr a)])"
  using assms by (auto simp: sup_persist_def elim!: bnd_value)

lemma admit_value:
  assumes "sup_admit \<beta> supplied (s, h) = (Inr (request, owner), s', h')"
  obtains c u a where "h' = h @ [(Capabilities, Inr c), (Subreaper owner, Inr u), (Append (intent_event request owner), Inr a)]"
    "capabilities_ok c" "subreaper_ok u" "sup_validate_request supplied = Inr request"
    "sup_validate_owner (sup_owner s) (fld request ''boot_id'') = Inr owner"
  using assms unfolding sup_admit_def by (auto elim!: bnd_value andthen_value sup_persist_value)

lemma observe_value:
  assumes "sup_observe \<beta> request owner child msg (s, h) = (Inr u, \<tau>)"
  obtains seen where "\<tau> = (s, h @ [(ObserveLauncher child, Inr seen)])"
    "sup_validate_child seen request owner False = Inr seen" "pyeq seen child"
  using assms by (auto simp: sup_observe_def validate_child_ok elim!: bnd_value)

lemma bind_rest_value:
  "wp (sup_bind_rest \<beta> request owner child)
     (\<lambda>(child', pidfd) (s', h'). child' = child \<and> (\<exists>o1 b o2 a1 a2.
        h' = h @ [(ObserveLauncher child, Inr o1), (BindPidfd child, Inr b), (ObserveLauncher child, Inr o2),
          (Append (bound_event child pidfd), Inr a1), (Append (exec_event request), Inr a2)]
        \<and> pidfd = fld b ''token'' \<and> pyeq o1 child \<and> pyeq o2 child \<and> binding_check b request owner child = Inr ()))
     (\<lambda>_ _. True) (s, h)"
  by (simp add: sup_bind_rest_def sup_observe_def wp_simps sup_wp_persist validate_child_ok split: sum.splits)

lemma bind_value:
  assumes "sup_bind \<beta> request owner (s, h) = (Inr (child, pidfd), s', h')"
  obtains o1 b o2 a1 a2 where
    "h' = h @ [(Prepare request owner, Inr child), (ObserveLauncher child, Inr o1), (BindPidfd child, Inr b),
       (ObserveLauncher child, Inr o2), (Append (bound_event child pidfd), Inr a1), (Append (exec_event request), Inr a2)]"
    "pidfd = fld b ''token''" "pyeq o1 child" "pyeq o2 child" "binding_check b request owner child = Inr ()"
    "sup_validate_child child request owner False = Inr child"
proof -
  from assms obtain prepared s1 where 1: "sup_validate_child prepared request owner False = Inr prepared"
    "sup_bind_rest \<beta> request owner prepared (s1, h @ [(Prepare request owner, Inr prepared)]) = (Inr (child, pidfd), s', h')"
    unfolding sup_bind_def by (auto simp: validate_child_ok elim!: bnd_value andthen_value)
  from wp_value [OF bind_rest_value 1(2)] 1(1) that show ?thesis by auto
qed

lemma exec_value:
  assumes "sup_exec \<beta> request child pidfd (s, h) = (Inr command, s', h')"
  obtains g c where "h' = h @ [(GrantExec child pidfd request, Inr g), (ObserveExec child pidfd request, Inr c)]"
    "grant_ok g request" "sup_validate_command c request child = Inr command"
  using assms unfolding sup_exec_def by (auto elim!: bnd_value andthen_value)

lemma watch_value:
  assumes "sup_watch \<beta> request child pidfd command (s, h) = (Inr v, s', h')"
  obtains seen reaped a where
    "h' = h @ [(Monitor command pidfd request, Inr seen),
       (ReapExact command pidfd (PInt (remaining_ms request seen)), Inr reaped),
       (Append (terminal_event v), Inr a)]"
    "v = terminal_result request command seen reaped"
    "monitor_check seen request child command pidfd = Inr ()"
    "reap_check reaped request child command pidfd (remaining_ms request seen) = Inr ()"
  using assms unfolding sup_watch_def by (auto elim!: bnd_value andthen_value sup_persist_value)

lemma command_ok: "sup_validate_command c request child = Inr w \<Longrightarrow> w = c \<and> command_bound_ok c (fld c ''executable'') request child"
  by (auto simp: sup_validate_command_def checks_ok validate_executable_ok elim!: rbindE)

lemma capture_ok: "sup_validate_capture v limit = Inr w \<Longrightarrow> w = v"
  by (auto simp: sup_validate_capture_def elim!: rbindE)

lemma monitor_ok: "monitor_check seen request child command pidfd = Inr () \<Longrightarrow>
    terminal_ok seen (fld seen ''command'') command pidfd request
    \<and> sup_validate_capture (fld seen ''stdout'') (fld request ''capture_limit'') = Inr (fld seen ''stdout'')
    \<and> sup_validate_capture (fld seen ''stderr'') (fld request ''capture_limit'') = Inr (fld seen ''stderr'')"
  by (auto simp: monitor_check_def checks_ok dest: capture_ok dest!: command_ok elim!: rbindE)

lemma reap_ok: "reap_check reaped request child command pidfd remaining = Inr () \<Longrightarrow>
    reap_ok reaped (fld reaped ''command'') command pidfd remaining"
  by (auto simp: reap_check_def checks_ok dest!: command_ok elim!: rbindE split: if_splits)

section \<open>When the command is granted\<close>

text \<open>
  When the command may be granted: after exactly the nine calls of admission and binding, all
  answered, the three durable records among them, for the child that both observations and the
  binding confirm.
\<close>

definition grant_rule :: "sup_call discipline" where
  "grant_rule h q \<longleftrightarrow> (case q of
     GrantExec child pidfd request \<Rightarrow>
       (\<exists>owner c u a1 o1 b o2 a2 a3.
          h = [(Capabilities, Inr c), (Subreaper owner, Inr u), (Append (intent_event request owner), Inr a1),
               (Prepare request owner, Inr child), (ObserveLauncher child, Inr o1), (BindPidfd child, Inr b),
               (ObserveLauncher child, Inr o2), (Append (bound_event child pidfd), Inr a2),
               (Append (exec_event request), Inr a3)]
        \<and> sup_request_type request \<and> child_bound_ok child request owner False
        \<and> pyeq o1 child \<and> pyeq o2 child \<and> pidfd = fld b ''token'' \<and> binding_check b request owner child = Inr ())
   | _ \<Rightarrow> True)"

lemma protocol_grant:
  assumes "sup_protocol calls out"
  shows "length (filter (\<lambda>l. l = ''grant_exec'') (map fst calls)) \<le> 1"
  using assms
proof cases
  case completed
  then show ?thesis by (simp add: sup_script_def admit_script_def bind_script_def exec_script_def watch_script_def comp_def)
next
  case (failed begun settlement settled preserved)
  then obtain rest where "sup_script = map fst begun @ rest" by (auto simp: run_begun_def)
  then have "filter (\<lambda>l. l = ''grant_exec'') sup_script
      = filter (\<lambda>l. l = ''grant_exec'') (map fst begun) @ filter (\<lambda>l. l = ''grant_exec'') rest" by (metis filter_append)
  then have "length (filter (\<lambda>l. l = ''grant_exec'') (map fst begun)) \<le> length (filter (\<lambda>l. l = ''grant_exec'') sup_script)"
    by (metis length_append le_add1)
  also have "\<dots> = 1" by (simp add: sup_script_def admit_script_def bind_script_def exec_script_def watch_script_def)
  finally show ?thesis using failed(1,4) by auto
qed

lemma grant_rule_other [simp]: "sup_label q \<noteq> ''grant_exec'' \<Longrightarrow> grant_rule h q"
  by (cases q) (simp_all add: grant_rule_def)

lemma quiet_call: "sup_label q \<noteq> ''grant_exec'' \<Longrightarrow> preserves (\<lambda>\<tau>. keeps grant_rule (snd \<tau>)) (call \<beta> q)"
  by (rule preserves_call) simp

lemma quiet_writes: "preserves (\<lambda>\<tau>. keeps grant_rule (snd \<tau>)) (writes u)"
  by (rule preserves_writes) simp

lemmas quiet_intros = preserves_intros quiet_call quiet_writes

abbreviation granted_well :: "'a sup_prog \<Rightarrow> bool" where
  "granted_well m \<equiv> preserves (\<lambda>\<tau>. keeps grant_rule (snd \<tau>)) m"

lemma quiet_steps:
  "granted_well (sup_admit \<beta> supplied)" "granted_well (sup_bind \<beta> request owner)"
  "granted_well (sup_watch \<beta> request child pidfd command)" "granted_well (sup_preserve \<beta> e)"
  unfolding sup_admit_def sup_bind_def sup_bind_rest_def sup_observe_def sup_watch_def sup_preserve_def sup_settle_def
    sup_persist_def
  by ((intro quiet_intros; simp)+)

lemma body_grants:
  "wp (sup_body \<beta> supplied) (\<lambda>_ \<tau>. keeps grant_rule (snd \<tau>)) (\<lambda>_ \<tau>. keeps grant_rule (snd \<tau>)) (s, [])"
  unfolding sup_body_def wp_both
proof (goal_cases)
  case 1
  let ?K = "\<lambda>\<tau>. keeps grant_rule (snd \<tau>)"
  obtain r1 s1 h1 where admit: "sup_admit \<beta> supplied (s, []) = (r1, s1, h1)" by (metis prod_cases3)
  have k1: "keeps grant_rule h1" using preserves_snd [OF quiet_steps(1), of "(s, [])" \<beta> supplied] admit by simp
  show ?case
  proof (cases r1)
    case (Inl e)
    then show ?thesis using admit k1 by (simp add: bnd_def)
  next
    case (Inr a)
    obtain request owner where a: "a = (request, owner)" by (cases a)
    from admit [unfolded Inr a] obtain c u a1 where h1:
      "h1 = [(Capabilities, Inr c), (Subreaper owner, Inr u), (Append (intent_event request owner), Inr a1)]"
      "sup_request_type request" by (rule admit_value) (simp add: validate_request_ok)
    obtain r2 s2 h2 where bind: "sup_bind \<beta> request owner (s1, h1) = (r2, s2, h2)" by (metis prod_cases3)
    have k2: "keeps grant_rule h2" using preserves_snd [OF quiet_steps(2), of "(s1, h1)" \<beta> request owner] bind k1 by simp
    show ?thesis
    proof (cases r2)
      case (Inl e)
      then show ?thesis using admit Inr a bind k2 by (simp add: bnd_def)
    next
      case (Inr b)
      obtain child pidfd where b: "b = (child, pidfd)" by (cases b)
      from bind [unfolded Inr b] obtain o1 w o2 a2 a3 where h2:
        "h2 = h1 @ [(Prepare request owner, Inr child), (ObserveLauncher child, Inr o1), (BindPidfd child, Inr w),
           (ObserveLauncher child, Inr o2), (Append (bound_event child pidfd), Inr a2), (Append (exec_event request), Inr a3)]"
        "pidfd = fld w ''token''" "pyeq o1 child" "pyeq o2 child" "binding_check w request owner child = Inr ()"
        "child_bound_ok child request owner False"
        by (rule bind_value) (simp add: validate_child_ok)
      have rule: "grant_rule h2 (GrantExec child pidfd request)"
        unfolding grant_rule_def sup_call.case
        by (rule exI [of _ owner], rule exI [of _ c], rule exI [of _ u], rule exI [of _ a1], rule exI [of _ o1],
            rule exI [of _ w], rule exI [of _ o2], rule exI [of _ a2], rule exI [of _ a3])
           (use h1 h2 in simp)
      have "wp (sup_exec \<beta> request child pidfd) (\<lambda>_. ?K) (\<lambda>_. ?K) (s2, h2)"
        unfolding sup_exec_def
      proof (rule wp_bndI [where R = "\<lambda>_. ?K"])
        show "wp (call \<beta> (GrantExec child pidfd request)) (\<lambda>_. ?K) (\<lambda>_. ?K) (s2, h2)"
          using k2 rule by (auto simp: wp_call split: sum.splits)
      next
        fix g and \<tau> :: "sup \<times> sup_call hist" assume "?K \<tau>"
        then show "wp (andthen (demand (grant_ok g request) ''one-shot exec grant is ambiguous'')
          (bnd (call \<beta> (ObserveExec child pidfd request)) (\<lambda>seen.
           bnd (lift (sup_validate_command seen request child)) (\<lambda>command.
           andthen (sup_phase ''MONITORING'') (ret command))))) (\<lambda>_. ?K) (\<lambda>_. ?K) \<tau>"
          by (rule preservesD [rotated]) (intro quiet_intros; simp)
      qed
      then have "wp (bnd (sup_exec \<beta> request child pidfd) (sup_watch \<beta> request child pidfd)) (\<lambda>_. ?K) (\<lambda>_. ?K) (s2, h2)"
        by (rule wp_bndI) (rule preservesD [OF quiet_steps(3)])
      then show ?thesis using admit \<open>r1 = Inr a\<close> a bind Inr b by (simp add: bnd_def [of "sup_admit _ _"] bnd_def [of "sup_bind _ _ _"] wp_both)
    qed
  qed
qed

lemma run_grants:
  assumes "sup_state s = ''NEW''" and "sup_run \<beta> supplied (s, []) = (r, s', h)"
  shows "keeps grant_rule h"
proof -
  have "wp (on_error (sup_body \<beta> supplied) (sup_preserve \<beta>)) (\<lambda>_ \<tau>. keeps grant_rule (snd \<tau>))
      (\<lambda>_ \<tau>. keeps grant_rule (snd \<tau>)) (sup_start s, [])"
    by (rule wp_on_errorI [OF body_grants]) (rule preservesD [OF quiet_steps(4)])
  then show ?thesis using assms(2) by (simp add: run_new [OF assms(1)] wp_both)
qed

text \<open>
  C6: The supervisor refines the one-shot protocol. For every journal and backend, a run of a new
  supervisor makes calls whose labels, each with whether it was answered, are a trace of the
  abstract protocol with the final state as outcome: nothing but the failure handling follows a
  call that was not answered, no journal call lies between the grant and the monitor's
  answer, and a failure ends with the settlement that the protocol demands and one preservation
  record. The grant is issued at most once, after exactly the nine answered calls of
  admission and binding: the three records INTENT, CHILD_BOUND and EXEC_ISSUED that name its request, child
  and pidfd are acknowledged by then. The state is TERMINAL exactly when a result is
  returned, and a second run is refused without any call.
\<close>

theorem supervisor_refines_protocol:
  assumes "sup_state s = ''NEW''" and "sup_run \<beta> supplied (s, []) = (r, s', h)"
  shows "sup_protocol (steps h) (sup_state s') \<and> (sup_state s' = ''TERMINAL'' \<longleftrightarrow> \<not> isl r)
     \<and> keeps grant_rule h \<and> length (filter (\<lambda>l. l = ''grant_exec'') (labels h)) \<le> 1
     \<and> sup_run \<beta> again (s', h) = (Inl (Refusal ''supervisor model is single-use''), s', h)"
proof -
  note run = assms(2) [unfolded run_new [OF assms(1)]]
  obtain q s1 h1 where body: "sup_body \<beta> supplied (sup_start s, []) = (q, s1, h1)" by (metis prod_cases3)
  have trace: "sup_protocol (steps h) (sup_state s') \<and> (sup_state s' = ''TERMINAL'' \<longleftrightarrow> \<not> isl r)"
  proof (cases q)
    case (Inl e)
    with body run_failed [OF _ run, of e s1 h1] show ?thesis by simp
  next
    case (Inr v)
    with body run have eq: "r = Inr v" "s' = s1" "h = h1" by (auto simp: on_error_def)
    from Inr body wp_value [OF body_terminal] have "sup_state s' = ''TERMINAL''" by (fastforce simp: eq)
    moreover have "steps h = map (\<lambda>l. (l, True)) sup_script"
      using emits_value [OF emits_body] emits_answered(2) [OF emits_body] body Inr eq by (fastforce simp: steps_all)
    ultimately show ?thesis using eq sup_protocol.completed by simp
  qed
  from trace have "sup_state s' \<noteq> ''NEW''" by (auto elim: sup_protocol.cases)
  moreover from trace have "length (filter (\<lambda>l. l = ''grant_exec'') (labels h)) \<le> 1"
    using protocol_grant by (metis steps_labels)
  ultimately show ?thesis using trace run_grants [OF assms] by (simp add: run_used)
qed

text \<open>
  C7: A returned result is backed by the whole evidence. The history is exactly the fourteen calls
  of the protocol, all answered and tied together by their arguments: the accepted request and
  owner, one child that both observations and the binding confirm, its token in the records, the
  grant, the monitor and the reap. The command runs the requested argument vector of the pinned
  executable in that child, it exited with code 0 and was reaped with no survivor or descendant
  left, and the monitored and reaping time together stay within the request's timeout, below one
  minute. The result never authorizes storage.
\<close>

theorem supervisor_result_backed:
  assumes "sup_state s = ''NEW''" and "sup_run \<beta> supplied (s, []) = (Inr v, s', h)"
  shows "\<exists>request owner child pidfd command seen reaped c u a1 o1 b o2 a2 a3 g a4.
     h = [(Capabilities, Inr c), (Subreaper owner, Inr u), (Append (intent_event request owner), Inr a1),
          (Prepare request owner, Inr child), (ObserveLauncher child, Inr o1), (BindPidfd child, Inr b),
          (ObserveLauncher child, Inr o2), (Append (bound_event child pidfd), Inr a2),
          (Append (exec_event request), Inr a3), (GrantExec child pidfd request, Inr g),
          (ObserveExec child pidfd request, Inr command), (Monitor command pidfd request, Inr seen),
          (ReapExact command pidfd (PInt (remaining_ms request seen)), Inr reaped),
          (Append (terminal_event v), Inr a4)]
   \<and> v = terminal_result request command seen reaped \<and> is_false (fld v ''storage_authorized'')
   \<and> request = supplied \<and> sup_request_type request
   \<and> sup_validate_owner (sup_owner s) (fld request ''boot_id'') = Inr owner
   \<and> child_bound_ok child request owner False \<and> pyeq o1 child \<and> pyeq o2 child \<and> pidfd = fld b ''token''
   \<and> grant_ok g request
   \<and> pyeq (fld command ''pid'') (fld child ''pid'') \<and> pyeq (fld command ''argv'') (fld request ''argv'')
   \<and> pyeq (fld command ''executable'') (fld request ''executable'')
   \<and> fld seen ''returncode'' = PInt 0 \<and> is_false (fld seen ''survivor'') \<and> fld seen ''descendants'' = PList []
   \<and> fld reaped ''returncode'' = PInt 0 \<and> is_true (fld reaped ''echild_after_reap'')
   \<and> int_of (fld seen ''elapsed_ms'') + int_of (fld reaped ''elapsed_ms'') \<le> int_of (fld request ''timeout_ms'')
   \<and> int_of (fld request ''timeout_ms'') \<le> 60000"
proof -
  note run = assms(2) [unfolded run_new [OF assms(1)]]
  have body: "sup_body \<beta> supplied (sup_start s, []) = (Inr v, s', h)"
  proof (cases "sup_body \<beta> supplied (sup_start s, [])")
    case (fields q s1 h1)
    then show ?thesis using run run_failed(1) [OF _ run] by (cases q) (auto simp: on_error_def)
  qed
  from body obtain request owner s1 h1 child pidfd s2 h2 command s3 h3 where parts:
    "sup_admit \<beta> supplied (sup_start s, []) = (Inr (request, owner), s1, h1)"
    "sup_bind \<beta> request owner (s1, h1) = (Inr (child, pidfd), s2, h2)"
    "sup_exec \<beta> request child pidfd (s2, h2) = (Inr command, s3, h3)"
    "sup_watch \<beta> request child pidfd command (s3, h3) = (Inr v, s', h)"
    unfolding sup_body_def by (elim bnd_value) (auto elim!: bnd_value)
  from parts(1) obtain c u a1 where 1:
    "h1 = [(Capabilities, Inr c), (Subreaper owner, Inr u), (Append (intent_event request owner), Inr a1)]"
    "request = supplied" "sup_request_type request" "sup_validate_owner (sup_owner s) (fld request ''boot_id'') = Inr owner"
    by (rule admit_value) (simp add: validate_request_ok sup_start_def)
  from parts(2) obtain o1 b o2 a2 a3 where 2:
    "h2 = h1 @ [(Prepare request owner, Inr child), (ObserveLauncher child, Inr o1), (BindPidfd child, Inr b),
       (ObserveLauncher child, Inr o2), (Append (bound_event child pidfd), Inr a2), (Append (exec_event request), Inr a3)]"
    "pidfd = fld b ''token''" "pyeq o1 child" "pyeq o2 child" "child_bound_ok child request owner False"
    by (rule bind_value) (simp add: validate_child_ok)
  from parts(3) obtain g where 3:
    "h3 = h2 @ [(GrantExec child pidfd request, Inr g), (ObserveExec child pidfd request, Inr command)]"
    "grant_ok g request" "command_bound_ok command (fld command ''executable'') request child"
    by (rule exec_value) (use command_ok in blast)
  from parts(4) obtain seen reaped a4 where 4:
    "h = h3 @ [(Monitor command pidfd request, Inr seen),
       (ReapExact command pidfd (PInt (remaining_ms request seen)), Inr reaped), (Append (terminal_event v), Inr a4)]"
    "v = terminal_result request command seen reaped"
    "terminal_ok seen (fld seen ''command'') command pidfd request"
    "reap_ok reaped (fld reaped ''command'') command pidfd (remaining_ms request seen)"
    by (rule watch_value) (use monitor_ok reap_ok in blast)
  have bound: "int_of (fld request ''timeout_ms'') \<le> 60000"
    using 1(3) by (simp add: sup_request_type_def sup_bounds_def)
  show ?thesis
    by (rule exI [of _ request], rule exI [of _ owner], rule exI [of _ child], rule exI [of _ pidfd],
        rule exI [of _ command], rule exI [of _ seen], rule exI [of _ reaped], rule exI [of _ c], rule exI [of _ u],
        rule exI [of _ a1], rule exI [of _ o1], rule exI [of _ b], rule exI [of _ o2], rule exI [of _ a2],
        rule exI [of _ a3], rule exI [of _ g], rule exI [of _ a4], intro conjI)
       (use 1 2 3 4 bound in \<open>simp_all add: command_bound_ok_def terminal_ok_def reap_ok_def terminal_result_def
          remaining_ms_def\<close>)
qed


section \<open>A cooperative backend\<close>

definition sv_request :: pyval where
  "sv_request =
     PDict [(''schema'', PInt 1), (''request_id'', PStr (replicate 32 CHR ''1'')),
            (''purpose'', PStr ''DISPOSABLE_KERNEL_LAB''),
            (''boot_id'', PStr ''00000000-0000-0000-0000-000000000000''),
            (''argv'', PList [PStr ''/bin/true'', PStr ''-q'']), (''environment'', sup_clean_environment),
            (''executable'', PDict [(''path'', PStr ''/bin/true''), (''sha256'', PStr (replicate 64 CHR ''2'')),
               (''dev'', PInt 1), (''inode'', PInt 5)]),
            (''launcher'', PDict [(''path'', PStr ''/bin/slt''), (''sha256'', PStr (replicate 64 CHR ''3'')),
               (''dev'', PInt 1), (''inode'', PInt 6)]),
            (''timeout_ms'', PInt 9), (''cleanup_ms'', PInt 5), (''capture_limit'', PInt 8),
            (''signal_policy'', PStr ''NONE''), (''storage_authorized'', PBool False),
            (''postcondition_verified'', PBool False)]"

definition sv_owner :: pyval where
  "sv_owner = PDict [(''pid'', PInt 2), (''starttime'', PInt 4), (''boot_id'', fld sv_request ''boot_id'')]"

definition sv_child :: pyval where
  "sv_child =
     PDict [(''request_id'', fld sv_request ''request_id''), (''boot_id'', fld sv_request ''boot_id''),
            (''pid'', PInt 3), (''starttime'', PInt 5), (''owner_pid'', PInt 2), (''owner_starttime'', PInt 4),
            (''launcher_sha256'', PStr (replicate 64 CHR ''3'')), (''armed'', PBool False)]"

definition sv_command :: pyval where
  "sv_command =
     PDict [(''pid'', PInt 3), (''starttime'', PInt 5), (''boot_id'', fld sv_request ''boot_id''),
            (''request_id'', fld sv_request ''request_id''), (''argv'', fld sv_request ''argv''),
            (''environment_sha256'', PStr (digest sup_clean_environment)),
            (''executable'', fld sv_request ''executable''), (''armed'', PBool True)]"

definition sv_capture :: pyval where
  "sv_capture = PDict [(''eof'', PBool True), (''truncated'', PBool False), (''bytes'', PInt 2),
     (''sha256'', PStr (replicate 64 CHR ''4''))]"

definition sv_seen :: pyval where
  "sv_seen = PDict [(''command'', sv_command), (''pidfd_token'', PInt 7), (''terminal'', PStr ''EXITED''),
     (''unreaped'', PBool True), (''returncode'', PInt 0), (''deadline_exceeded'', PBool False),
     (''survivor'', PBool False), (''descendants'', PList []), (''descendants_complete'', PBool True),
     (''stdout'', sv_capture), (''stderr'', sv_capture), (''elapsed_ms'', PInt 3)]"

definition sv_reaped :: pyval where
  "sv_reaped = PDict [(''command'', sv_command), (''pidfd_token'', PInt 7), (''reaped'', PBool True),
     (''returncode'', PInt 0), (''echild_after_reap'', PBool True), (''elapsed_ms'', PInt 1)]"

definition sv_backend :: "sup_call backend" where
  "sv_backend h q = Inr (case q of
     Capabilities \<Rightarrow> PDict (map (\<lambda>k. (k, PBool True)) sup_capabilities)
   | Subreaper _ \<Rightarrow> PDict [(''before'', PBool False), (''after'', PBool True), (''process_local'', PBool True)]
   | Prepare _ _ \<Rightarrow> sv_child
   | ObserveLauncher c \<Rightarrow> c
   | BindPidfd c \<Rightarrow> PDict [(''child'', c), (''token'', PInt 7)]
   | GrantExec _ _ r \<Rightarrow> PDict [(''request_id'', fld r ''request_id''), (''bytes_written'', PInt 1), (''grant_eof'', PBool True)]
   | ObserveExec _ _ _ \<Rightarrow> sv_command
   | Monitor _ _ _ \<Rightarrow> sv_seen
   | ReapExact _ _ _ \<Rightarrow> sv_reaped
   | _ \<Rightarrow> PNone)"

definition sv_start :: sup where
  "sv_start = \<lparr>sup_owner = sv_owner, sup_state = ''NEW'', sup_child = PNone, sup_pidfd = PNone, sup_request = PNone,
               sup_bound_owner = PNone, sup_settled = False\<rparr>"

lemma sv_paths: "clean_path (PStr ''/bin/true'')" "clean_path (PStr ''/bin/slt'')"
  by code_simp+

lemma sv_executables:
  "sup_validate_executable (fld sv_request ''executable'') = Inr (fld sv_request ''executable'')"
  "sup_validate_executable (fld sv_request ''launcher'') = Inr (fld sv_request ''launcher'')"
  using sv_paths by (simp_all add: validate_executable_ok sv_request_def sup_executable_fields_def insert_commute lower_hex_def)

lemma sv_request_type: "sup_request_type sv_request"
  unfolding sup_request_type_def
proof (intro conjI sv_executables)
  show "exact sv_request sup_request_fields" by code_simp
  show "matches boot_id_re (fld sv_request ''boot_id'')" by code_simp
  show "matches (hexn 32) (fld sv_request ''request_id'')" by code_simp
  show "fld sv_request ''purpose'' \<in> PStr ` set sup_purposes" by code_simp
  show "argv_ok (fld sv_request ''argv'')" by code_simp
  show "list_all fst (sup_bounds sv_request)" by (simp add: sup_bounds_def sv_request_def)
  show "sup_validate_environment (fld sv_request ''environment'') = Inr (fld sv_request ''environment'')"
    by (simp add: validate_environment_ok sv_request_def) code_simp
qed (simp_all add: sv_request_def)


lemma sv_owner_ok: "sup_validate_owner sv_owner (fld sv_request ''boot_id'') = Inr sv_owner"
  by (simp add: sup_validate_owner_def checks_need checks.simps sv_owner_def insert_commute)

lemma sv_child_ok: "sup_validate_child sv_child sv_request sv_owner False = Inr sv_child"
  unfolding validate_child_ok
  by (auto simp: child_bound_ok_def sv_child_def sv_request_def sv_owner_def sup_child_fields_def lower_hex_def)

lemma sv_command_ok: "sup_validate_command sv_command sv_request sv_child = Inr sv_command"
proof -
  have "exact sv_command sup_command_fields" by (auto simp: sv_command_def sup_command_fields_def)
  moreover have "fld sv_command ''executable'' = fld sv_request ''executable''" by (simp add: sv_command_def)
  moreover have "command_bound_ok sv_command (fld sv_request ''executable'') sv_request sv_child"
    by (simp add: command_bound_ok_def sv_command_def sv_child_def sv_request_def)
  ultimately show ?thesis
    by (simp add: sup_validate_command_def sv_executables checks_need checks.simps(1) rbind_simps)
qed

lemma sv_capture_ok: "sup_validate_capture sv_capture (fld sv_request ''capture_limit'') = Inr sv_capture"
  by (simp add: sup_validate_capture_def checks_need checks.simps(1) sv_capture_def sv_request_def sup_capture_fields_def
      lower_hex_def)

lemma sv_seen_ok: "monitor_check sv_seen sv_request sv_child sv_command (PInt 7) = Inr ()"
proof -
  have f: "exact sv_seen monitor_fields" by (auto simp: sv_seen_def monitor_fields_def)
  have "fld sv_seen ''command'' = sv_command" "fld sv_seen ''stdout'' = sv_capture" "fld sv_seen ''stderr'' = sv_capture"
    by (simp_all add: sv_seen_def)
  moreover have "terminal_ok sv_seen sv_command sv_command (PInt 7) sv_request"
    by (simp add: terminal_ok_def sv_seen_def sv_request_def)
  ultimately show ?thesis using f
    by (simp add: monitor_check_def checks_need checks.simps(1) sv_command_ok sv_capture_ok)
qed

lemma sv_reaped_ok: "reap_check sv_reaped sv_request sv_child sv_command (PInt 7) 6 = Inr ()"
proof -
  have f: "exact sv_reaped reap_fields" by (auto simp: sv_reaped_def reap_fields_def)
  have "fld sv_reaped ''command'' = sv_command" by (simp add: sv_reaped_def)
  moreover have "reap_ok sv_reaped sv_command sv_command (PInt 7) 6"
    by (simp add: reap_ok_def sv_reaped_def)
  ultimately show ?thesis using f
    by (simp add: reap_check_def checks_need checks.simps(1) sv_command_ok)
qed

lemma sv_checks:
  "capabilities_ok (PDict (map (\<lambda>k. (k, PBool True)) sup_capabilities))"
  "subreaper_ok (PDict [(''before'', PBool False), (''after'', PBool True), (''process_local'', PBool True)])"
  "binding_check (PDict [(''child'', sv_child), (''token'', PInt 7)]) sv_request sv_owner sv_child = Inr ()"
  "grant_ok (PDict [(''request_id'', fld sv_request ''request_id''), (''bytes_written'', PInt 1), (''grant_eof'', PBool True)])
     sv_request"
  by (simp_all add: capabilities_ok_def sup_capabilities_def subreaper_ok_def binding_check_def sv_child_ok checks_need
      checks.simps(1) grant_ok_def)

lemma sv_bind:
  "wp (sup_bind_rest sv_backend sv_request sv_owner sv_child) (\<lambda>r _. r = (sv_child, PInt 7)) (\<lambda>_ _. False) \<sigma>"
  unfolding sup_bind_rest_def sup_observe_def
  by (cases \<sigma>) (simp add: wp_simps sup_wp_persist sv_backend_def sv_child_ok sv_checks(3))

lemma sv_exec: "wp (sup_exec sv_backend sv_request sv_child (PInt 7)) (\<lambda>r _. r = sv_command) (\<lambda>_ _. False) \<sigma>"
  unfolding sup_exec_def
  by (cases \<sigma>) (simp add: wp_simps sv_backend_def sv_command_ok sv_checks(4))

lemma sv_watch:
  "wp (sup_watch sv_backend sv_request sv_child (PInt 7) sv_command)
     (\<lambda>v _. v = terminal_result sv_request sv_command sv_seen sv_reaped) (\<lambda>_ _. False) \<sigma>"
proof -
  have ms: "remaining_ms sv_request sv_seen = 6" by (simp add: remaining_ms_def sv_request_def sv_seen_def)
  show ?thesis unfolding sup_watch_def
    by (cases \<sigma>) (simp add: wp_simps sup_wp_persist sv_backend_def sv_seen_ok sv_reaped_ok ms)
qed

lemma sv_admit:
  "wp (sup_admit sv_backend sv_request) (\<lambda>r _. r = (sv_request, sv_owner)) (\<lambda>_ _. False) (sup_start sv_start, [])"
proof -
  have request: "sup_validate_request sv_request = Inr sv_request" by (simp add: validate_request_ok sv_request_type)
  have own: "sup_owner (sup_start sv_start) = sv_owner" by (simp add: sup_start_def sv_start_def)
  show ?thesis unfolding sup_admit_def
    by (simp add: wp_simps sup_wp_persist sv_backend_def request own sv_owner_ok sv_checks(1,2))
qed

lemma sv_prepare:
  "wp (sup_bind sv_backend sv_request sv_owner) (\<lambda>r _. r = (sv_child, PInt 7)) (\<lambda>_ _. False) \<sigma>"
proof -
  have prep: "sv_backend h (Prepare r w) = Inr sv_child" for h r w by (simp add: sv_backend_def)
  show ?thesis unfolding sup_bind_def
    by (cases \<sigma>) (simp add: wp_simps prep sv_child_ok sv_bind)
qed

lemma sv_runs:
  "wp (sup_run sv_backend sv_request) (\<lambda>v (s, h). v = terminal_result sv_request sv_command sv_seen sv_reaped) (\<lambda>_ _. False)
     (sv_start, [])"
proof -
  let ?no = "\<lambda>_ _. False :: bool"
  have body: "wp (sup_body sv_backend sv_request) (\<lambda>v _. v = terminal_result sv_request sv_command sv_seen sv_reaped) ?no
      (sup_start sv_start, [])"
    unfolding sup_body_def
    by (rule wp_bndI [OF sv_admit], clarify, rule wp_bndI [OF sv_prepare], clarify, rule wp_bndI [OF sv_exec])
       (simp add: sv_watch)
  have new: "sup_state sv_start = ''NEW''" by (simp add: sv_start_def)
  show ?thesis unfolding sup_run_def
    by (simp add: wp_simps new) (rule wp_mono [OF body], auto)
qed

theorem supervisor_refines_protocol_witness:
  "sup_protocol (steps (snd (snd (sup_run sv_backend sv_request (sv_start, []))))) ''TERMINAL''"
proof -
  obtain r s h where run: "sup_run sv_backend sv_request (sv_start, []) = (r, s, h)" by (metis prod_cases3)
  have "\<not> isl r" using sv_runs run by (auto simp: wp_def split: sum.splits)
  moreover have "sup_state sv_start = ''NEW''" by (simp add: sv_start_def)
  ultimately show ?thesis using supervisor_refines_protocol [OF _ run, of PNone] run by (metis snd_conv)
qed

theorem supervisor_result_backed_witness:
  "\<exists>v s h. sup_run sv_backend sv_request (sv_start, []) = (Inr v, s, h) \<and> length h = 14
     \<and> is_false (fld v ''storage_authorized'')"
proof -
  obtain r s h where run: "sup_run sv_backend sv_request (sv_start, []) = (r, s, h)" by (metis prod_cases3)
  with sv_runs obtain v where v: "r = Inr v" by (auto simp: wp_def split: sum.splits)
  have new: "sup_state sv_start = ''NEW''" by (simp add: sv_start_def)
  from supervisor_result_backed [OF new run [unfolded v]] have "length h = 14 \<and> is_false (fld v ''storage_authorized'')"
    by (elim exE conjE) simp
  with run v show ?thesis by blast
qed


lemma argv_strings:
  assumes "argv_ok v"
  obtains path args where "v = PList (map PStr (path # args))" "length args < 64"
    "list_all (\<lambda>a. a \<noteq> [] \<and> nul \<notin> set a \<and> length a \<le> 4096) (path # args)"
proof -
  from assms obtain vs where vs: "v = PList vs" "vs \<noteq> []" "length vs \<le> 64" "list_all argument_ok vs"
    by (auto simp: argv_ok_def is_list_iff)
  then have "list_all is_str vs" by (auto simp: argument_ok_def list_all_iff)
  then obtain ss where "vs = map PStr ss" by (auto simp: list_all_is_str)
  with vs that show thesis by (cases ss) (auto simp: argument_ok_def list_all_iff)
qed

text \<open>
  C16: An accepted request is returned unchanged and has its type: exactly the declared fields, a
  bounded vector of non-empty strings without NUL whose first element is the pinned executable's
  path, absolute and without \<^verbatim>\<open>.\<close> or \<^verbatim>\<open>..\<close> components, time and capture budgets within
  their bounds, the closed environment, and no storage authority.
\<close>

theorem supervisor_request_typed:
  assumes "sup_validate_request v = Inr w"
  shows "w = v \<and> exact v sup_request_fields
   \<and> (\<exists>path args. fld v ''argv'' = PList (map PStr (path # args)) \<and> length args < 64
        \<and> list_all (\<lambda>a. a \<noteq> [] \<and> nul \<notin> set a \<and> length a \<le> 4096) (path # args)
        \<and> fld (fld v ''executable'') ''path'' = PStr path \<and> starts_with ''/'' path
        \<and> ''..'' \<notin> set (split_on CHR ''/'' path) \<and> ''.'' \<notin> set (split_on CHR ''/'' path))
   \<and> (\<exists>t c l. fld v ''timeout_ms'' = PInt t \<and> 1 \<le> t \<and> t \<le> 60000 \<and> fld v ''cleanup_ms'' = PInt c \<and> 1 \<le> c \<and> c \<le> 10000
        \<and> fld v ''capture_limit'' = PInt l \<and> 1 \<le> l \<and> l \<le> 1048576)
   \<and> pyeq (fld v ''environment'') sup_clean_environment
   \<and> is_false (fld v ''storage_authorized'') \<and> is_false (fld v ''postcondition_verified'')"
proof -
  from assms have w: "w = v" and t: "sup_request_type v" by (auto simp: validate_request_ok)
  from t have "argv_ok (fld v ''argv'')" by (simp add: sup_request_type_def)
  then obtain path args where a: "fld v ''argv'' = PList (map PStr (path # args))" "length args < 64"
    "list_all (\<lambda>a. a \<noteq> [] \<and> nul \<notin> set a \<and> length a \<le> 4096) (path # args)" by (rule argv_strings)
  with t have path: "fld (fld v ''executable'') ''path'' = PStr path"
    by (simp add: sup_request_type_def)
  with t have clean: "clean_path (PStr path)" by (simp add: sup_request_type_def validate_executable_ok)
  have args: "\<exists>path args. fld v ''argv'' = PList (map PStr (path # args)) \<and> length args < 64
        \<and> list_all (\<lambda>a. a \<noteq> [] \<and> nul \<notin> set a \<and> length a \<le> 4096) (path # args)
        \<and> fld (fld v ''executable'') ''path'' = PStr path \<and> starts_with ''/'' path
        \<and> ''..'' \<notin> set (split_on CHR ''/'' path) \<and> ''.'' \<notin> set (split_on CHR ''/'' path)"
    using a path clean normal_path_parts [of path] by (intro exI [of _ path] exI [of _ args]) (simp add: clean_path_def)
  show ?thesis
    by (intro conjI w args) (use t in \<open>auto simp: sup_request_type_def sup_bounds_def integer_iff validate_environment_ok\<close>)
qed

theorem supervisor_request_typed_witness:
  "\<exists>path args. fld sv_request ''argv'' = PList (map PStr (path # args)) \<and> starts_with ''/'' path
     \<and> ''..'' \<notin> set (split_on CHR ''/'' path)"
  using supervisor_request_typed [of sv_request sv_request] sv_request_type by (auto simp: validate_request_ok)

end
