(* ===== verification/LauncherIdentity.thy ===== *)
theory LauncherIdentity
  imports Supervisor
begin

text \<open>
  The launcher identity of
  \<^verbatim>\<open>experiments/thick-generations/prelive_launcher_identity_model.py\<close>: the descriptor that
  keeps interpreter, launcher code, inherited process identity and payload apart, the observations
  of the unarmed child, and the enrolled handle, whose operations bind the child and mint at most
  one pre-exec capability. A thread is a number; the handle's fields are ordinary attributes, so
  the operations are defined on every handle, also one that was tampered with.
\<close>

section \<open>Descriptors\<close>

definition id_owner :: "pyval \<Rightarrow> pyval res" where
  "id_owner v =
     rbind (checks
       [need (exact v [''pid'', ''starttime'', ''boot_id'']) ''supervisor identity'',
        need (integer (fld v ''pid'') 2 \<and> integer (fld v ''starttime'') 1 \<and> matches boot_id_re (fld v ''boot_id''))
          ''supervisor identity''])
     (\<lambda>_. Inr v)"

definition object_fields :: "string list" where
  "object_fields = [''path_hint'', ''dev'', ''inode'', ''size'', ''mode'', ''uid'', ''content_sha256'', ''pin_kind'', ''pin_id'']"

text \<open>\<^verbatim>\<open>stat.S_ISREG\<close> is reached only with a positive mode, and can still overflow.\<close>

definition object_check :: "pyval \<Rightarrow> bool res" where
  "object_check v =
     rand (Inr (clean_path (fld v ''path_hint'') \<and> integer (fld v ''dev'') 1 \<and> integer (fld v ''inode'') 1
        \<and> integer (fld v ''size'') 1 \<and> integer (fld v ''mode'') 1))
     (rand (s_isreg (int_of (fld v ''mode'')))
     (Inr (integer (fld v ''uid'') 0 \<and> matches (hexn 64) (fld v ''content_sha256'')
        \<and> fld v ''pin_kind'' = PStr ''MODEL_OPAQUE_FD_BINDING'' \<and> matches (hexn 32) (fld v ''pin_id''))))"

definition id_object :: "pyval \<Rightarrow> string \<Rightarrow> pyval res" where
  "id_object v role =
     rbind (checks [need (exact v object_fields) (role @ '' object schema'')])
     (\<lambda>_. rbind (object_check v)
     (\<lambda>ok. rbind (checks [need ok (role @ '' object identity'')]) (\<lambda>_. Inr v)))"

definition id_environment :: "pyval \<Rightarrow> pyval res" where
  "id_environment v =
     rbind (checks
       [need (is_dict v \<and> items v \<noteq> [] \<and> length (items v) \<le> 32) ''payload environment schema'',
        need (list_all environment_entry (items v)) ''payload environment entry''])
     (\<lambda>_. Inr v)"

definition run_checks :: "pyval \<Rightarrow> (bool \<times> exc) list" where
  "run_checks run =
     [need (exact run [''request_id'', ''boot_id'', ''supervisor'', ''unarmed_deadline_ns'', ''fd_graph_digest''])
        ''run binding'',
      need (matches (hexn 32) (fld run ''request_id'') \<and> matches boot_id_re (fld run ''boot_id'')
        \<and> integer (fld run ''unarmed_deadline_ns'') 1 \<and> matches (hexn 64) (fld run ''fd_graph_digest'')) ''run binding'']"

text \<open>\<^verbatim>\<open>[A-Za-z_][A-Za-z0-9_.]*:[A-Za-z_][A-Za-z0-9_]*\<close>\<close>

definition word_char :: "char \<Rightarrow> bool" where
  "word_char c \<longleftrightarrow> alnum c \<or> c = CHR ''_''"

definition entrypoint_re :: "string \<Rightarrow> bool" where
  "entrypoint_re s \<longleftrightarrow>
     (case split_on CHR '':'' s of
        [m, f] \<Rightarrow> head_tail (\<lambda>c. word_char c \<and> \<not> digit c) (\<lambda>c. word_char c \<or> c = CHR ''.'') None m
                \<and> head_tail (\<lambda>c. word_char c \<and> \<not> digit c) word_char None f
      | _ \<Rightarrow> False)"

definition launcher_checks :: "pyval \<Rightarrow> (bool \<times> exc) list" where
  "launcher_checks launcher =
     [need (exact launcher [''entrypoint'', ''source_manifest_sha256'', ''loader_policy'', ''loaded_code_provenance''])
        ''launcher source identity'',
      need (matches entrypoint_re (fld launcher ''entrypoint'')
        \<and> matches (hexn 64) (fld launcher ''source_manifest_sha256'')
        \<and> fld launcher ''loader_policy'' = PStr ''VERIFIED_BYTES_COMPILED_BEFORE_FORK'') ''launcher source identity'']"

definition loaded_checks :: "pyval \<Rightarrow> pyval \<Rightarrow> (bool \<times> exc) list" where
  "loaded_checks loaded launcher =
     [need (exact loaded [''kind'', ''manifest_sha256'', ''frozen_before_fork'']) ''loaded launcher code provenance'',
      need (fld loaded ''kind'' = PStr ''MODEL_VERIFIED_BYTES_COMPILED''
        \<and> is_str (fld loaded ''manifest_sha256'')
        \<and> pyeq (fld loaded ''manifest_sha256'') (fld launcher ''source_manifest_sha256'')
        \<and> is_true (fld loaded ''frozen_before_fork'')) ''loaded launcher code provenance'']"

definition inherited_checks :: "pyval \<Rightarrow> (bool \<times> exc) list" where
  "inherited_checks v =
     [need (exact v [''proc_cmdline_sha256'', ''launcher_environment_policy_sha256'']) ''inherited process identity'',
      need (matches (hexn 64) (fld v ''proc_cmdline_sha256'')
        \<and> matches (hexn 64) (fld v ''launcher_environment_policy_sha256'')) ''inherited process identity'']"

text \<open>One digest per semantic domain\<close>

definition semantic_hashes :: "pyval \<Rightarrow> string list" where
  "semantic_hashes v = map str_of
     [fld (fld v ''interpreter'') ''content_sha256'', fld (fld v ''launcher'') ''source_manifest_sha256'',
      fld (fld v ''inherited'') ''proc_cmdline_sha256'', fld (fld v ''inherited'') ''launcher_environment_policy_sha256'',
      fld (fld (fld v ''payload'') ''object'') ''content_sha256'']"

definition payload_checks :: "pyval \<Rightarrow> (bool \<times> exc) list" where
  "payload_checks v =
     (let payload = fld v ''payload''; payload_object = fld payload ''object'' in
     [need (\<not> pyeq (fld payload_object ''pin_id'') (fld (fld v ''interpreter'') ''pin_id''))
        ''interpreter and payload pin alias'',
      need (length (remdups (semantic_hashes v)) = 5) ''identity evidence reused across semantic domains'',
      need (argv_ok (fld payload ''argv'')) ''payload argv'',
      need (pyeq (hd (list_of (fld payload ''argv''))) (fld payload_object ''path_hint'')) ''payload argv/path binding''])"

definition pyset2 :: "string \<Rightarrow> string \<Rightarrow> pyval \<Rightarrow> pyval \<Rightarrow> pyval" where
  "pyset2 k l w v = pyset k (pyset l w (fld v k)) v"

definition id_descriptor :: "pyval \<Rightarrow> pyval res" where
  "id_descriptor v =
     rbind (checks
       [need (exact v [''schema'', ''kind'', ''run_binding'', ''interpreter'', ''launcher'', ''inherited'', ''payload''])
          ''launcher descriptor schema'',
        need (fld v ''schema'' = PInt 1 \<and> fld v ''kind'' = PStr ''FORKED_PYTHON_LAUNCHER_V1'')
          ''launcher descriptor schema''])
     (\<lambda>_. rbind (checks (run_checks (fld v ''run_binding'')))
     (\<lambda>_. rbind (id_owner (fld (fld v ''run_binding'') ''supervisor''))
     (\<lambda>supervisor. rbind (checks
       [need (pyeq (fld supervisor ''boot_id'') (fld (fld v ''run_binding'') ''boot_id'')) ''run boot mismatch''])
     (\<lambda>_. rbind (id_object (fld v ''interpreter'') ''interpreter'')
     (\<lambda>interpreter. rbind (checks (launcher_checks (fld v ''launcher'')
        @ loaded_checks (fld (fld v ''launcher'') ''loaded_code_provenance'') (fld v ''launcher'')
        @ inherited_checks (fld v ''inherited'')
        @ [need (exact (fld v ''payload'') [''object'', ''argv'', ''environment'']) ''payload schema'']))
     (\<lambda>_. rbind (id_object (fld (fld v ''payload'') ''object'') ''payload'')
     (\<lambda>payload_object. rbind (checks (payload_checks v))
     (\<lambda>_. rbind (id_environment (fld (fld v ''payload'') ''environment''))
     (\<lambda>environment. Inr (pyset2 ''payload'' ''environment'' environment (pyset2 ''payload'' ''object'' payload_object
        (pyset ''interpreter'' interpreter (pyset2 ''run_binding'' ''supervisor'' supervisor v)))))))))))))"

section \<open>Observations\<close>

definition id_child :: "pyval \<Rightarrow> pyval \<Rightarrow> pyval res" where
  "id_child v descriptor =
     (let run = fld descriptor ''run_binding'' in
     rbind (checks
       [need (exact v [''pid'', ''starttime'', ''boot_id'', ''fork_token'', ''pidfd'']) ''owned child identity'',
        need (integer (fld v ''pid'') 2 \<and> \<not> pyeq (fld v ''pid'') (fld (fld run ''supervisor'') ''pid'')
          \<and> integer (fld v ''starttime'') 1 \<and> is_str (fld v ''boot_id'') \<and> pyeq (fld v ''boot_id'') (fld run ''boot_id'')
          \<and> matches (hexn 32) (fld v ''fork_token'') \<and> integer (fld v ''pidfd'') 0) ''owned child identity''])
     (\<lambda>_. Inr v))"

definition observation_fields :: "string list" where
  "observation_fields =
     [''child'', ''interpreter'', ''payload'', ''proc_cmdline_sha256'', ''launcher_environment_policy_sha256'',
      ''payload_argv_sha256'', ''payload_environment_sha256'', ''fd_graph_digest'', ''loaded_code_manifest_sha256'',
      ''status_state'']"

definition same_text :: "pyval \<Rightarrow> pyval \<Rightarrow> bool" where
  "same_text v w \<longleftrightarrow> is_str v \<and> pyeq v w"

definition observation_checks :: "pyval \<Rightarrow> pyval \<Rightarrow> (bool \<times> exc) list" where
  "observation_checks v descriptor =
     [need (same_text (fld v ''proc_cmdline_sha256'') (fld (fld descriptor ''inherited'') ''proc_cmdline_sha256''))
        ''inherited raw cmdline changed'',
      need (same_text (fld v ''launcher_environment_policy_sha256'')
        (fld (fld descriptor ''inherited'') ''launcher_environment_policy_sha256'')) ''launcher environment policy changed'',
      need (fld v ''payload_argv_sha256'' = PStr (digest (fld (fld descriptor ''payload'') ''argv'')))
        ''payload argv binding changed'',
      need (fld v ''payload_environment_sha256'' = PStr (digest (fld (fld descriptor ''payload'') ''environment'')))
        ''payload environment binding changed'',
      need (same_text (fld v ''fd_graph_digest'') (fld (fld descriptor ''run_binding'') ''fd_graph_digest''))
        ''child FD graph changed'',
      need (same_text (fld v ''loaded_code_manifest_sha256'') (fld (fld descriptor ''launcher'') ''source_manifest_sha256''))
        ''loaded launcher code changed'',
      need (fld v ''status_state'' = PStr ''NO_EXEC_ERROR_REPORTED'') ''launcher status is not clean'']"

definition id_observation :: "pyval \<Rightarrow> pyval \<Rightarrow> pyval res" where
  "id_observation v descriptor =
     rbind (checks [need (exact v observation_fields) ''unarmed observation schema''])
     (\<lambda>_. rbind (id_child (fld v ''child'') descriptor)
     (\<lambda>child. rbind (id_object (fld v ''interpreter'') ''observed interpreter'')
     (\<lambda>interpreter. rbind (checks [need (pyeq interpreter (fld descriptor ''interpreter''))
        ''child executable is not the pinned interpreter''])
     (\<lambda>_. rbind (id_object (fld v ''payload'') ''observed payload'')
     (\<lambda>payload. rbind (checks (need (pyeq payload (fld (fld descriptor ''payload'') ''object'')) ''pinned payload object changed''
        # observation_checks v descriptor))
     (\<lambda>_. Inr (pyset ''payload'' payload (pyset ''interpreter'' interpreter (pyset ''child'' child v)))))))))"


section \<open>The enrolled handle\<close>

record capability =
  cap_digest :: pyval
  cap_observation :: pyval
  cap_observation_digest :: string
  cap_now :: pyval
  cap_thread :: nat
  cap_used :: bool

record handle =
  h_descriptor :: pyval
  h_digest :: pyval
  h_thread :: nat
  h_state :: string
  h_child :: pyval
  h_unarmed :: pyval
  h_used :: bool
  h_capability :: "capability option"

definition enroll_model :: "nat \<Rightarrow> pyval \<Rightarrow> handle res" where
  "enroll_model thread descriptor =
     rbind (id_descriptor descriptor) (\<lambda>d. Inr
       \<lparr>h_descriptor = d, h_digest = PStr (digest d), h_thread = thread, h_state = ''ENROLLED'', h_child = PNone,
        h_unarmed = PNone, h_used = False, h_capability = None\<rparr>)"

definition bind_receipt :: "handle \<Rightarrow> pyval" where
  "bind_receipt h =
     PDict [(''schema'', PInt 1), (''classification'', PStr ''MODEL_FORKED_LAUNCHER_BINDING_CONSISTENT''),
            (''descriptor_digest'', h_digest h), (''unarmed_observation_digest'', h_unarmed h),
            (''runtime_authorized'', PBool False), (''storage_authorized'', PBool False), (''exec_proven'', PBool False)]"

definition bind_body :: "handle \<Rightarrow> pyval \<Rightarrow> pyval \<Rightarrow> handle res" where
  "bind_body h one two =
     rbind (id_descriptor (h_descriptor h))
     (\<lambda>current. rbind (checks [need (PStr (digest current) = h_digest h) ''launcher descriptor changed''])
     (\<lambda>_. rbind (id_observation one current)
     (\<lambda>a. rbind (id_observation two current)
     (\<lambda>b. rbind (checks [need (pyeq a b) ''unarmed child changed between observations''])
     (\<lambda>_. rbind (id_descriptor (h_descriptor h))
     (\<lambda>final. rbind (checks [need (h_state h = ''BINDING'' \<and> PStr (digest final) = h_digest h)
        ''launcher binding changed during validation''])
     (\<lambda>_. Inr (h\<lparr>h_child := fld a ''child'', h_unarmed := PStr (digest a), h_state := ''UNARMED_BOUND''\<rparr>))))))))"

definition bind_unarmed_model :: "nat \<Rightarrow> pyval \<Rightarrow> pyval \<Rightarrow> handle \<Rightarrow> pyval res \<times> handle" where
  "bind_unarmed_model thread one two h =
     (if \<not> (thread = h_thread h \<and> h_state h = ''ENROLLED'') then (Inl (Refusal ''fresh launcher enrollment required''), h)
      else case bind_body (h\<lparr>h_state := ''BINDING''\<rparr>) one two of
          Inl e \<Rightarrow> (Inl e, h\<lparr>h_state := ''UNKNOWN''\<rparr>)
        | Inr h' \<Rightarrow> (Inr (bind_receipt h'), h'))"

definition preexec_receipt :: "handle \<Rightarrow> string \<Rightarrow> pyval" where
  "preexec_receipt h observed =
     PDict [(''schema'', PInt 1), (''classification'', PStr ''MODEL_PREEXEC_BINDING_CONSISTENT''),
            (''descriptor_digest'', h_digest h), (''preexec_observation_digest'', PStr observed),
            (''payload_pin_id'', fld (fld (fld (h_descriptor h) ''payload'') ''object'') ''pin_id''),
            (''runtime_authorized'', PBool False), (''storage_authorized'', PBool False), (''exec_proven'', PBool False)]"

definition preexec_body :: "handle \<Rightarrow> pyval \<Rightarrow> pyval \<Rightarrow> capability res" where
  "preexec_body h observation now =
     rbind (id_descriptor (h_descriptor h))
     (\<lambda>current. rbind (checks
       [need (PStr (digest current) = h_digest h) ''launcher descriptor changed'',
        need (integer now 0 \<and> int_of now < int_of (fld (fld current ''run_binding'') ''unarmed_deadline_ns''))
          ''pre-exec deadline''])
     (\<lambda>_. rbind (id_observation observation current)
     (\<lambda>observed. rbind (id_child (h_child h) current)
     (\<lambda>stored. rbind (checks
       [need (pyeq (fld observed ''child'') stored \<and> PStr (digest observed) = h_unarmed h) ''pre-exec child identity changed''])
     (\<lambda>_. rbind (id_descriptor (h_descriptor h))
     (\<lambda>final. rbind
       (if \<not> (h_state h = ''VALIDATING_PREEXEC'' \<and> PStr (digest final) = h_digest h)
        then Inl (Refusal ''pre-exec authority changed during validation'')
        else rbind (id_child (h_child h) final) (\<lambda>again. checks
          [need (pyeq again stored) ''pre-exec authority changed during validation'']))
     (\<lambda>_. rbind (checks [need (h_capability h = None) ''pre-exec capability already retained''])
     (\<lambda>_. Inr \<lparr>cap_digest = h_digest h, cap_observation = observed, cap_observation_digest = digest observed,
             cap_now = now, cap_thread = h_thread h, cap_used = False\<rparr>))))))))"

definition validate_preexec_model :: "nat \<Rightarrow> pyval \<Rightarrow> pyval \<Rightarrow> handle \<Rightarrow> pyval res \<times> handle" where
  "validate_preexec_model thread observation now h =
     (if \<not> (thread = h_thread h \<and> h_state h = ''UNARMED_BOUND'' \<and> \<not> h_used h)
      then (Inl (Refusal ''bound launcher required''), h)
      else case preexec_body (h\<lparr>h_used := True, h_state := ''VALIDATING_PREEXEC''\<rparr>) observation now of
          Inl e \<Rightarrow> (Inl e, h\<lparr>h_used := True, h_state := ''UNKNOWN''\<rparr>)
        | Inr c \<Rightarrow> (Inr (preexec_receipt h (cap_observation_digest c)),
                  h\<lparr>h_used := True, h_state := ''MODEL_PREEXEC_VALIDATED'', h_capability := Some c\<rparr>))"

section \<open>Any sequence of operations\<close>

datatype id_op = BindUnarmed nat pyval pyval | ValidatePreexec nat pyval pyval

fun id_do :: "id_op \<Rightarrow> handle \<Rightarrow> pyval res \<times> handle" where
  "id_do (BindUnarmed t a b) h = bind_unarmed_model t a b h"
| "id_do (ValidatePreexec t v n) h = validate_preexec_model t v n h"

fun id_run :: "id_op list \<Rightarrow> handle \<Rightarrow> (id_op \<times> pyval res) list \<times> handle" where
  "id_run [] h = ([], h)"
| "id_run (op # ops) h = (case id_do op h of (r, h') \<Rightarrow> (case id_run ops h' of (rs, h'') \<Rightarrow> ((op, r) # rs, h'')))"

definition accepted_preexec :: "id_op \<times> pyval res \<Rightarrow> bool" where
  "accepted_preexec x \<longleftrightarrow> (case x of (ValidatePreexec _ _ _, Inr _) \<Rightarrow> True | _ \<Rightarrow> False)"

definition accepted :: "id_op \<times> pyval res \<Rightarrow> bool" where
  "accepted x \<longleftrightarrow> (case snd x of Inr _ \<Rightarrow> True | Inl _ \<Rightarrow> False)"

text \<open>The child that an accepted binding binds: both of its observations are valid and the same.\<close>

definition binds :: "pyval \<Rightarrow> nat \<Rightarrow> id_op \<times> pyval res \<Rightarrow> pyval \<Rightarrow> bool" where
  "binds d t x one \<longleftrightarrow>
     (\<exists>two receipt. x = (BindUnarmed t one two, Inr receipt) \<and> id_observation one d = Inr one \<and> id_observation two d = Inr two
        \<and> pyeq one two \<and> fld receipt ''unarmed_observation_digest'' = PStr (digest one))"

text \<open>The capability that an accepted validation mints, for the child bound with \<^verbatim>\<open>one\<close>\<close>

definition mints :: "pyval \<Rightarrow> nat \<Rightarrow> pyval \<Rightarrow> id_op \<times> pyval res \<Rightarrow> capability \<Rightarrow> bool" where
  "mints d t one x c \<longleftrightarrow>
     (\<exists>receipt. x = (ValidatePreexec t (cap_observation c) (cap_now c), Inr receipt)
        \<and> fld receipt ''preexec_observation_digest'' = PStr (digest one))
   \<and> id_observation (cap_observation c) d = Inr (cap_observation c)
   \<and> pyeq (fld (cap_observation c) ''child'') (fld one ''child'') \<and> digest (cap_observation c) = digest one
   \<and> cap_observation_digest c = digest one \<and> cap_digest c = PStr (digest d) \<and> cap_thread c = t \<and> \<not> cap_used c
   \<and> integer (cap_now c) 0 \<and> int_of (cap_now c) < int_of (fld (fld d ''run_binding'') ''unarmed_deadline_ns'')"

text \<open>What has been accepted so far, and the handle it leaves\<close>

definition id_story :: "nat \<Rightarrow> pyval \<Rightarrow> (id_op \<times> pyval res) list \<Rightarrow> handle \<Rightarrow> bool" where
  "id_story t d rs h \<longleftrightarrow>
     id_descriptor d = Inr d \<and> h_descriptor h = d \<and> h_digest h = PStr (digest d) \<and> h_thread h = t
   \<and> (filter accepted rs = [] \<and> h_capability h = None \<and> h_state h \<in> {''ENROLLED'', ''UNKNOWN''}
      \<or> (\<exists>x one. filter accepted rs = [x] \<and> binds d t x one \<and> h_capability h = None
           \<and> h_state h \<in> {''UNARMED_BOUND'', ''UNKNOWN''} \<and> h_child h = fld one ''child'' \<and> h_unarmed h = PStr (digest one))
      \<or> (\<exists>x one y c. filter accepted rs = [x, y] \<and> binds d t x one \<and> mints d t one y c \<and> h_capability h = Some c
           \<and> h_state h = ''MODEL_PREEXEC_VALIDATED''))"

lemma id_object_same: "id_object v role = Inr w \<Longrightarrow> w = v"
  by (auto simp: id_object_def elim!: rbindE)

lemma pyset2_same:
  assumes "is_dict v" "has_key v k" "is_dict (fld v k)" "has_key (fld v k) l"
  shows "pyset2 k l (fld (fld v k) l) v = v"
  unfolding pyset2_def by (simp only: pyset_same [OF assms(3,4)] pyset_same [OF assms(1,2)])

lemma exact_dict_key: "exact v ks \<Longrightarrow> k \<in> set ks \<Longrightarrow> is_dict v \<and> has_key v k"
  by (simp add: exact_is_dict exact_key)

lemma id_descriptor_same:
  assumes "id_descriptor v = Inr w"
  shows "w = v"
proof -
  from assms have v: "exact v [''schema'', ''kind'', ''run_binding'', ''interpreter'', ''launcher'', ''inherited'', ''payload'']"
    and run: "exact (fld v ''run_binding'') [''request_id'', ''boot_id'', ''supervisor'', ''unarmed_deadline_ns'', ''fd_graph_digest'']"
    and payload: "exact (fld v ''payload'') [''object'', ''argv'', ''environment'']"
    and w: "w = pyset2 ''payload'' ''environment'' (fld (fld v ''payload'') ''environment'')
        (pyset2 ''payload'' ''object'' (fld (fld v ''payload'') ''object'')
        (pyset ''interpreter'' (fld v ''interpreter'')
        (pyset2 ''run_binding'' ''supervisor'' (fld (fld v ''run_binding'') ''supervisor'') v)))"
    unfolding id_descriptor_def
    by (auto simp: checks_ok run_checks_def id_owner_def id_environment_def dest!: id_object_same elim!: rbindE)
  note k = exact_dict_key [OF v] exact_dict_key [OF run] exact_dict_key [OF payload] exact_is_dict [OF v]
    exact_is_dict [OF run] exact_is_dict [OF payload]
  have "pyset2 ''run_binding'' ''supervisor'' (fld (fld v ''run_binding'') ''supervisor'') v = v"
    by (rule pyset2_same) (simp_all add: k)
  moreover have "pyset ''interpreter'' (fld v ''interpreter'') v = v" by (rule pyset_same) (simp_all add: k)
  moreover have "pyset2 ''payload'' ''object'' (fld (fld v ''payload'') ''object'') v = v"
    "pyset2 ''payload'' ''environment'' (fld (fld v ''payload'') ''environment'') v = v"
    by (rule pyset2_same; simp add: k)+
  ultimately show ?thesis using w by simp
qed

lemma id_child_same: "id_child v d = Inr w \<Longrightarrow> w = v"
  by (auto simp: id_child_def Let_def elim!: rbindE)

lemma id_observation_same:
  assumes "id_observation v d = Inr w"
  shows "w = v"
proof -
  from assms have v: "exact v observation_fields"
    and w: "w = pyset ''payload'' (fld v ''payload'') (pyset ''interpreter'' (fld v ''interpreter'') (pyset ''child'' (fld v ''child'') v))"
    unfolding id_observation_def by (auto simp: checks_ok dest!: id_object_same id_child_same elim!: rbindE)
  from exact_dict_key [OF v] have "pyset k (fld v k) v = v" if "k \<in> {''payload'', ''interpreter'', ''child''}" for k
    using that by (intro pyset_same) (auto simp: observation_fields_def)
  with w show ?thesis by simp
qed

lemma enroll_story: "enroll_model t d = Inr h \<Longrightarrow> id_story t d [] h"
proof -
  assume "enroll_model t d = Inr h"
  then obtain a where a: "id_descriptor d = Inr a"
    and h: "h = \<lparr>h_descriptor = a, h_digest = PStr (digest a), h_thread = t, h_state = ''ENROLLED'', h_child = PNone,
        h_unarmed = PNone, h_used = False, h_capability = None\<rparr>"
    unfolding enroll_model_def by (auto elim!: rbindE)
  from a id_descriptor_same [OF a] have "a = d" "id_descriptor d = Inr d" by simp_all
  then show ?thesis by (simp add: h id_story_def)
qed

lemma bind_body_ok:
  assumes "bind_body h one two = Inr h'" and "id_descriptor (h_descriptor h) = Inr (h_descriptor h)"
  shows "h' = h\<lparr>h_child := fld one ''child'', h_unarmed := PStr (digest one), h_state := ''UNARMED_BOUND''\<rparr>
     \<and> id_observation one (h_descriptor h) = Inr one \<and> id_observation two (h_descriptor h) = Inr two \<and> pyeq one two"
  using assms id_observation_same unfolding bind_body_def
  by (auto simp: checks_ok elim!: rbindE) metis+

lemma preexec_body_ok:
  assumes "preexec_body h v now = Inr c" and "id_descriptor (h_descriptor h) = Inr (h_descriptor h)"
  shows "c = \<lparr>cap_digest = h_digest h, cap_observation = v, cap_observation_digest = digest v, cap_now = now,
               cap_thread = h_thread h, cap_used = False\<rparr>
     \<and> id_observation v (h_descriptor h) = Inr v \<and> pyeq (fld v ''child'') (h_child h) \<and> PStr (digest v) = h_unarmed h
     \<and> integer now 0 \<and> int_of now < int_of (fld (fld (h_descriptor h) ''run_binding'') ''unarmed_deadline_ns'')
     \<and> h_capability h = None"
proof -
  from assms obtain w s where w: "id_observation v (h_descriptor h) = Inr w" "id_child (h_child h) (h_descriptor h) = Inr s"
    "pyeq (fld w ''child'') s" "PStr (digest w) = h_unarmed h" "integer now 0"
    "int_of now < int_of (fld (fld (h_descriptor h) ''run_binding'') ''unarmed_deadline_ns'')" "h_capability h = None"
    "c = \<lparr>cap_digest = h_digest h, cap_observation = w, cap_observation_digest = digest w, cap_now = now,
               cap_thread = h_thread h, cap_used = False\<rparr>"
    unfolding preexec_body_def by (auto simp: checks_ok elim!: rbindE split: if_splits)
  with id_observation_same [OF w(1)] id_child_same [OF w(2)] show ?thesis by simp
qed

lemma id_story_refused:
  assumes "id_story t d rs h" and "h' = h \<or> h_state h \<in> {''ENROLLED'', ''UNARMED_BOUND''} \<and> h' = h\<lparr>h_used := u, h_state := ''UNKNOWN''\<rparr>"
  shows "id_story t d (rs @ [(op, Inl e)]) h'"
proof -
  have "filter accepted (rs @ [(op, Inl e)]) = filter accepted rs" by (simp add: accepted_def)
  with assms show ?thesis unfolding id_story_def by auto
qed

lemma id_story_bind:
  assumes h: "id_story t d rs h"
  shows "id_story t d (rs @ [(BindUnarmed t' one two, fst (bind_unarmed_model t' one two h))]) (snd (bind_unarmed_model t' one two h))"
proof (cases "t' = h_thread h \<and> h_state h = ''ENROLLED''")
  case False
  with id_story_refused [OF h] show ?thesis by (auto simp: bind_unarmed_model_def)
next
  case True
  have d: "id_descriptor d = Inr d" "h_descriptor h = d" "h_digest h = PStr (digest d)" "h_thread h = t"
    using h unfolding id_story_def by blast+
  have fresh: "filter accepted rs = []" "h_capability h = None"
    using h True unfolding id_story_def by auto
  show ?thesis
  proof (cases "bind_body (h\<lparr>h_state := ''BINDING''\<rparr>) one two")
    case (Inl e)
    have "id_story t d (rs @ [(op, Inl e)]) (h\<lparr>h_state := ''UNKNOWN''\<rparr>)" for op
      by (rule id_story_refused [OF h, where u = "h_used h"]) (use True in simp)
    with True Inl show ?thesis by (simp add: bind_unarmed_model_def)
  next
    case (Inr h')
    from bind_body_ok [OF this] d
    have "h' = h\<lparr>h_child := fld one ''child'', h_unarmed := PStr (digest one), h_state := ''UNARMED_BOUND''\<rparr>"
      "binds d t (BindUnarmed t' one two, Inr (bind_receipt h')) one"
      using True by (simp_all add: binds_def bind_receipt_def)
    with True Inr d fresh show ?thesis by (auto simp: bind_unarmed_model_def id_story_def accepted_def)
  qed
qed

lemma id_story_preexec:
  assumes h: "id_story t d rs h"
  shows "id_story t d (rs @ [(ValidatePreexec t' v n, fst (validate_preexec_model t' v n h))]) (snd (validate_preexec_model t' v n h))"
proof (cases "t' = h_thread h \<and> h_state h = ''UNARMED_BOUND'' \<and> \<not> h_used h")
  case False
  with id_story_refused [OF h] show ?thesis by (auto simp: validate_preexec_model_def)
next
  case True
  let ?busy = "h\<lparr>h_used := True, h_state := ''VALIDATING_PREEXEC''\<rparr>"
  have d: "id_descriptor d = Inr d" "h_descriptor h = d" "h_digest h = PStr (digest d)" "h_thread h = t"
    using h unfolding id_story_def by blast+
  from h True obtain x one where x: "filter accepted rs = [x]" "binds d t x one" "h_child h = fld one ''child''"
    "h_unarmed h = PStr (digest one)"
    unfolding id_story_def by auto
  show ?thesis
  proof (cases "preexec_body ?busy v n")
    case (Inl e)
    have "id_story t d (rs @ [(op, Inl e)]) (h\<lparr>h_used := True, h_state := ''UNKNOWN''\<rparr>)" for op
      by (rule id_story_refused [OF h, where u = True]) (use True in simp)
    with True Inl show ?thesis by (simp add: validate_preexec_model_def)
  next
    case (Inr c)
    from preexec_body_ok [OF this] d x(3,4)
    have "mints d t one (ValidatePreexec t' v n, Inr (preexec_receipt h (cap_observation_digest c))) c"
      using True by (simp add: mints_def preexec_receipt_def)
    moreover have "filter accepted (rs @ [(ValidatePreexec t' v n, Inr r)]) = [x, (ValidatePreexec t' v n, Inr r)]" for r
      using x(1) by (simp add: accepted_def)
    ultimately show ?thesis using True Inr d x(2) by (auto simp: validate_preexec_model_def id_story_def)
  qed
qed

lemma id_story_run: "id_story t d rs h \<Longrightarrow> id_run ops h = (rs', h') \<Longrightarrow> id_story t d (rs @ rs') h'"
proof (induction ops arbitrary: h rs rs')
  case (Cons op ops)
  obtain r u where do: "id_do op h = (r, u)" by (cases "id_do op h")
  obtain rs'' where rest: "id_run ops u = (rs'', h')" and rs': "rs' = (op, r) # rs''"
    using Cons.prems(2) do by (auto split: prod.splits)
  have "id_story t d (rs @ [(op, r)]) u"
  proof (cases op)
    case (BindUnarmed t' a b)
    from id_story_bind [OF Cons.prems(1), of t' a b] do BindUnarmed show ?thesis by simp
  next
    case (ValidatePreexec t' v n)
    from id_story_preexec [OF Cons.prems(1), of t' v n] do ValidatePreexec show ?thesis by simp
  qed
  from Cons.IH [OF this rest] rs' show ?case by simp
qed simp

text \<open>
  C28: A pre-exec capability is minted at most once, only for the enrolled descriptor and the bound child. After any
  sequence of bindings and validations, by any threads and with any observations, either no validation
  was accepted and the handle holds no capability, or exactly two operations were accepted, both by
  the enrolling thread: first a binding, whose two observations are valid for the descriptor and the same,
  then the validation that minted the capability the handle holds. Its observation is a valid one of the
  descriptor, of the child of that binding and with the digest the binding reported, and its time is
  before the absolute deadline.
\<close>

theorem identity_capability_sound:
  assumes "enroll_model t d = Inr h" and "id_run ops h = (rs, h')"
  shows "h_descriptor h' = d \<and>
    (case h_capability h' of
       None \<Rightarrow> filter accepted_preexec rs = []
     | Some c \<Rightarrow> \<exists>x one y. filter accepted rs = [x, y] \<and> binds d t x one \<and> mints d t one y c)"
proof -
  have story: "id_story t d rs h'" using id_story_run [OF enroll_story [OF assms(1)] assms(2)] by simp
  have kinds: "filter accepted_preexec xs = filter accepted_preexec (filter accepted xs)" for xs
  proof -
    have "accepted_preexec x \<Longrightarrow> accepted x" for x
      by (cases x; cases "fst x"; cases "snd x") (auto simp: accepted_preexec_def accepted_def)
    then show ?thesis by (induction xs) auto
  qed
  show ?thesis
  proof (cases "h_capability h'")
    case None
    with story have "filter accepted rs = [] \<or> (\<exists>x one. filter accepted rs = [x] \<and> binds d t x one)"
      unfolding id_story_def by auto
    then have "filter accepted_preexec rs = []"
    proof (elim disjE exE conjE)
      assume "filter accepted rs = []"
      then show ?thesis unfolding kinds [of rs] by (simp del: filter_filter)
    next
      fix x one assume "filter accepted rs = [x]" "binds d t x one"
      then show ?thesis unfolding kinds [of rs] by (auto simp: binds_def accepted_preexec_def simp del: filter_filter)
    qed
    with None story show ?thesis by (simp add: id_story_def)
  next
    case (Some c)
    with story show ?thesis unfolding id_story_def by auto
  qed
qed

section \<open>A descriptor and its child\<close>

definition li_object :: "string \<Rightarrow> char \<Rightarrow> pyval" where
  "li_object path c =
     PDict [(''path_hint'', PStr path), (''dev'', PInt 1), (''inode'', PInt 2), (''size'', PInt 3), (''mode'', PInt 33261),
            (''uid'', PInt 0), (''content_sha256'', PStr (replicate 64 c)), (''pin_kind'', PStr ''MODEL_OPAQUE_FD_BINDING''),
            (''pin_id'', PStr (replicate 32 c))]"

definition li_owner :: pyval where
  "li_owner = PDict [(''pid'', PInt 9), (''starttime'', PInt 8), (''boot_id'', PStr ''00000000-0000-0000-0000-000000000000'')]"

definition li_descriptor :: pyval where
  "li_descriptor =
     PDict [(''schema'', PInt 1), (''kind'', PStr ''FORKED_PYTHON_LAUNCHER_V1''),
       (''run_binding'', PDict [(''request_id'', PStr (replicate 32 CHR ''1'')),
          (''boot_id'', PStr ''00000000-0000-0000-0000-000000000000''), (''supervisor'', li_owner),
          (''unarmed_deadline_ns'', PInt 100), (''fd_graph_digest'', PStr (replicate 64 CHR ''9''))]),
       (''interpreter'', li_object ''/bin/slt'' CHR ''a''),
       (''launcher'', PDict [(''entrypoint'', PStr ''slt:main''), (''source_manifest_sha256'', PStr (replicate 64 CHR ''b'')),
          (''loader_policy'', PStr ''VERIFIED_BYTES_COMPILED_BEFORE_FORK''),
          (''loaded_code_provenance'', PDict [(''kind'', PStr ''MODEL_VERIFIED_BYTES_COMPILED''),
             (''manifest_sha256'', PStr (replicate 64 CHR ''b'')), (''frozen_before_fork'', PBool True)])]),
       (''inherited'', PDict [(''proc_cmdline_sha256'', PStr (replicate 64 CHR ''c'')),
          (''launcher_environment_policy_sha256'', PStr (replicate 64 CHR ''d''))]),
       (''payload'', PDict [(''object'', li_object ''/bin/true'' CHR ''e''),
          (''argv'', PList [PStr ''/bin/true'', PStr ''-q'']), (''environment'', sup_clean_environment)])]"

definition li_child :: pyval where
  "li_child = PDict [(''pid'', PInt 11), (''starttime'', PInt 12),
     (''boot_id'', PStr ''00000000-0000-0000-0000-000000000000''), (''fork_token'', PStr (replicate 32 CHR ''7'')),
     (''pidfd'', PInt 5)]"

definition li_observation :: pyval where
  "li_observation =
     PDict [(''child'', li_child),
       (''interpreter'', li_object ''/bin/slt'' CHR ''a''), (''payload'', li_object ''/bin/true'' CHR ''e''),
       (''proc_cmdline_sha256'', PStr (replicate 64 CHR ''c'')),
       (''launcher_environment_policy_sha256'', PStr (replicate 64 CHR ''d'')),
       (''payload_argv_sha256'', PStr (digest (PList [PStr ''/bin/true'', PStr ''-q'']))),
       (''payload_environment_sha256'', PStr (digest sup_clean_environment)),
       (''fd_graph_digest'', PStr (replicate 64 CHR ''9'')),
       (''loaded_code_manifest_sha256'', PStr (replicate 64 CHR ''b'')),
       (''status_state'', PStr ''NO_EXEC_ERROR_REPORTED'')]"

lemma li_objects:
  "id_object (li_object ''/bin/slt'' CHR ''a'') role = Inr (li_object ''/bin/slt'' CHR ''a'')"
  "id_object (li_object ''/bin/true'' CHR ''e'') role = Inr (li_object ''/bin/true'' CHR ''e'')"
  using sv_paths
  by (simp_all add: id_object_def object_check_def li_object_def object_fields_def checks_need checks.simps(1) lower_hex_def
      file_type_def)

lemma li_descriptor_ok: "id_descriptor li_descriptor = Inr li_descriptor"
proof -
  have top: "exact li_descriptor [''schema'', ''kind'', ''run_binding'', ''interpreter'', ''launcher'', ''inherited'', ''payload'']"
    "fld li_descriptor ''schema'' = PInt 1" "fld li_descriptor ''kind'' = PStr ''FORKED_PYTHON_LAUNCHER_V1''"
    by (simp_all add: li_descriptor_def)
  have run: "list_all fst (run_checks (fld li_descriptor ''run_binding''))" by code_simp
  have owner: "id_owner (fld (fld li_descriptor ''run_binding'') ''supervisor'') = Inr li_owner" by code_simp
  have boot: "pyeq (fld li_owner ''boot_id'') (fld (fld li_descriptor ''run_binding'') ''boot_id'')"
    by (simp add: li_descriptor_def li_owner_def)
  have mid: "list_all fst (launcher_checks (fld li_descriptor ''launcher'')
        @ loaded_checks (fld (fld li_descriptor ''launcher'') ''loaded_code_provenance'') (fld li_descriptor ''launcher'')
        @ inherited_checks (fld li_descriptor ''inherited'')
        @ [need (exact (fld li_descriptor ''payload'') [''object'', ''argv'', ''environment'']) ''payload schema''])"
    by code_simp
  have payload: "list_all fst (payload_checks li_descriptor)" by code_simp
  have env: "id_environment (fld (fld li_descriptor ''payload'') ''environment'') = Inr sup_clean_environment" by code_simp
  have objects: "fld li_descriptor ''interpreter'' = li_object ''/bin/slt'' CHR ''a''"
    "fld (fld li_descriptor ''payload'') ''object'' = li_object ''/bin/true'' CHR ''e''"
    by (simp_all add: li_descriptor_def)
  have "\<exists>w. id_descriptor li_descriptor = Inr w"
    unfolding id_descriptor_def using top run owner boot mid payload env
    by (simp add: checks_ok objects li_objects rbind_Inr del: checks_append)
  then show ?thesis using id_descriptor_same by fastforce
qed


lemma li_child_again: "id_child (fld li_observation ''child'') li_descriptor = Inr (fld li_observation ''child'')"
proof -
  have "id_child li_child li_descriptor = Inr li_child" by code_simp
  then show ?thesis by (simp add: li_observation_def)
qed

lemma li_observation_ok: "id_observation li_observation li_descriptor = Inr li_observation"
proof -
  have ex: "exact li_observation observation_fields" by (simp add: li_observation_def observation_fields_def)
  note child = li_child_again
  have objects: "fld li_observation ''interpreter'' = li_object ''/bin/slt'' CHR ''a''"
    "fld li_observation ''payload'' = li_object ''/bin/true'' CHR ''e''"
    "fld li_descriptor ''interpreter'' = li_object ''/bin/slt'' CHR ''a''"
    "fld (fld li_descriptor ''payload'') ''object'' = li_object ''/bin/true'' CHR ''e''"
    by (simp_all add: li_observation_def li_descriptor_def)
  have rest: "list_all fst (observation_checks li_observation li_descriptor)"
    by (simp add: observation_checks_def same_text_def li_observation_def li_descriptor_def)
  have "\<exists>w. id_observation li_observation li_descriptor = Inr w"
    unfolding id_observation_def using ex child rest by (simp add: checks_ok objects li_objects rbind_Inr)
  then show ?thesis using id_observation_same by fastforce
qed

definition li_handle :: handle where
  "li_handle =
     \<lparr>h_descriptor = li_descriptor, h_digest = PStr (digest li_descriptor), h_thread = 1, h_state = ''ENROLLED'',
      h_child = PNone, h_unarmed = PNone, h_used = False, h_capability = None\<rparr>"

definition li_ops :: "id_op list" where
  "li_ops = [BindUnarmed 1 li_observation li_observation, ValidatePreexec 1 li_observation (PInt 5),
     ValidatePreexec 1 li_observation (PInt 6)]"

lemma li_enrolled: "enroll_model 1 li_descriptor = Inr li_handle"
  by (simp add: enroll_model_def li_descriptor_ok li_handle_def)

lemma li_accepted: "\<exists>x. x \<in> set (fst (id_run li_ops li_handle)) \<and> accepted_preexec x"
proof -
  let ?bound = "li_handle\<lparr>h_child := fld li_observation ''child'', h_unarmed := PStr (digest li_observation),
    h_state := ''UNARMED_BOUND''\<rparr>"
  have one: "id_do (BindUnarmed 1 li_observation li_observation) li_handle = (Inr (bind_receipt ?bound), ?bound)"
    by (simp add: bind_unarmed_model_def bind_body_def li_handle_def li_descriptor_ok li_observation_ok checks_need checks.simps(1))
  have deadline: "fld (fld li_descriptor ''run_binding'') ''unarmed_deadline_ns'' = PInt 100" by (simp add: li_descriptor_def)
  have two: "accepted_preexec (op, fst (id_do op ?bound))" if "op = ValidatePreexec 1 li_observation (PInt 5)" for op
    using that deadline
    by (simp add: validate_preexec_model_def preexec_body_def li_handle_def li_descriptor_ok li_observation_ok li_child_again
        checks_need checks.simps(1) accepted_preexec_def)
  obtain r u where r: "id_do (ValidatePreexec 1 li_observation (PInt 5)) ?bound = (r, u)" by (metis surj_pair)
  let ?x = "(ValidatePreexec 1 li_observation (PInt 5), r)"
  have "?x \<in> set (fst (id_run li_ops li_handle))"
    unfolding li_ops_def id_run.simps one r prod.case by (simp split: prod.splits)
  moreover have "accepted_preexec ?x" using two [OF refl] r by simp
  ultimately show ?thesis by blast
qed

theorem identity_capability_sound_witness:
  "\<exists>rs h c x one y. id_run li_ops li_handle = (rs, h) \<and> h_capability h = Some c \<and> filter accepted rs = [x, y]
     \<and> binds li_descriptor 1 x one \<and> mints li_descriptor 1 one y c"
proof -
  obtain rs h where run: "id_run li_ops li_handle = (rs, h)" by (cases "id_run li_ops li_handle")
  with li_accepted have "filter accepted_preexec rs \<noteq> []" by (auto simp: filter_empty_conv)
  with identity_capability_sound [OF li_enrolled run] run show ?thesis by (cases "h_capability h") auto
qed

end
