(* ===== verification/LauncherRequest.thy ===== *)
theory LauncherRequest
  imports LauncherIdentity
begin

text \<open>
  The version 2 request of
  \<^verbatim>\<open>experiments/thick-generations/prelive_launcher_identity_consumer.py\<close>: the closed
  built-in document, its projections onto the supervisor's request and the launcher descriptor,
  the enrolled binding with its revalidation, and the canonical first event. The event chain and
  the controller claim of that module are not modelled here.
\<close>

section \<open>Built-in trees\<close>

definition index_path :: "string \<Rightarrow> nat \<Rightarrow> string" where
  "index_path path i = path @ ''['' @ nat_digits i @ '']''"

function builtin_tree :: "string \<Rightarrow> pyval \<Rightarrow> unit res" where
  "builtin_tree path (PDict d) = check_each (\<lambda>kv. builtin_tree (path @ ''.'' @ fst kv) (snd kv)) d"
| "builtin_tree path (PList vs) = check_each (\<lambda>iv. builtin_tree (index_path path (fst iv)) (snd iv)) (List.enumerate 0 vs)"
| "builtin_tree path PNone = Inr ()"
| "builtin_tree path (PBool b) = Inr ()"
| "builtin_tree path (PInt n) = Inr ()"
| "builtin_tree path (PStr s) = Inr ()"
| "builtin_tree path (PBytes s) = Inl (Refusal (path @ '' has a non-builtin value''))"
| "builtin_tree path (PTuple vs) = Inl (Refusal (path @ '' has a non-builtin value''))"
| "builtin_tree path (PObj n) = Inl (Refusal (path @ '' has a non-builtin value''))"
  by pat_completeness auto
termination
proof (relation "measure (size \<circ> snd)", goal_cases)
  case (2 path d kv)
  then have "size (snd kv) < Suc (size_list (size_prod (\<lambda>_. 0) size) d)"
    by (induction d) (auto simp: less_Suc_eq_le intro: le_trans)
  then show ?case by simp
next
  case (3 path vs iv)
  then have "fst iv < length vs" "snd iv = vs ! fst iv" by (auto simp: in_set_enumerate_eq)
  then have "snd iv \<in> set vs" by simp
  then have "size (snd iv) < Suc (size_list size vs)" by (simp add: size_list_estimation' less_Suc_eq_le)
  then show ?case by simp
qed simp

lemma builtin_json_ok: "builtin_tree path v = Inr () \<Longrightarrow> json_ok v"
proof (induction path v rule: builtin_tree.induct)
  case (1 path d)
  then show ?case by (auto simp: check_each_ok list_all_iff)
next
  case (2 path vs)
  have "json_ok v" if "v \<in> set vs" for v
  proof -
    from that obtain i where "i < length vs" "vs ! i = v" by (auto simp: in_set_conv_nth)
    then have m: "(i, v) \<in> set (List.enumerate 0 vs)" by (simp add: in_set_enumerate_eq)
    with 2 show ?thesis by (auto simp: check_each_ok)
  qed
  then show ?case by (simp add: list_all_iff)
qed simp_all

section \<open>The request\<close>

definition v2_request_fields :: "string list" where
  "v2_request_fields = sup_request_fields @ [''launcher_identity'']"

definition projection :: "pyval \<Rightarrow> pyval" where
  "projection v = PDict [(''path'', fld v ''path_hint''), (''sha256'', fld v ''content_sha256''),
     (''dev'', fld v ''dev''), (''inode'', fld v ''inode'')]"

text \<open>\<^verbatim>\<open>d.pop(k)\<close>\<close>

definition pypop :: "string \<Rightarrow> pyval \<Rightarrow> pyval" where
  "pypop k v = PDict (filter (\<lambda>kv. fst kv \<noteq> k) (items v))"

definition legacy_request :: "pyval \<Rightarrow> pyval" where
  "legacy_request v = pyset ''schema'' (PInt 1) (pypop ''launcher_identity'' v)"

definition v2_bindings :: "pyval \<Rightarrow> pyval \<Rightarrow> (bool \<times> exc) list" where
  "v2_bindings descriptor common =
     (let run = fld descriptor ''run_binding''; payload = fld descriptor ''payload'' in
     [need (pyeq (fld run ''request_id'') (fld common ''request_id'') \<and> pyeq (fld run ''boot_id'') (fld common ''boot_id''))
        ''V2 descriptor/request identity mismatch'',
      need (pyeq (fld payload ''argv'') (fld common ''argv'') \<and> pyeq (fld payload ''environment'') (fld common ''environment'')
        \<and> pyeq (projection (fld payload ''object'')) (fld common ''executable'')) ''V2 payload projection mismatch'',
      need (pyeq (projection (fld descriptor ''interpreter'')) (fld common ''launcher'')) ''V2 interpreter projection mismatch''])"

definition validate_v2_request :: "pyval \<Rightarrow> pyval res" where
  "validate_v2_request v =
     rbind (builtin_tree ''request'' v)
     (\<lambda>_. rbind (checks
       [need (exact v v2_request_fields) ''closed PREGRANT V2 request required'',
        need (fld v ''schema'' = PInt 2) ''PREGRANT V2 schema required''])
     (\<lambda>_. rbind (id_descriptor (fld v ''launcher_identity''))
     (\<lambda>descriptor. rbind (sup_validate_request (legacy_request v))
     (\<lambda>common. rbind (checks (v2_bindings descriptor common))
     (\<lambda>_. Inr (pyset ''launcher_identity'' descriptor (pyset ''schema'' (PInt 2) common)))))))"

section \<open>The enrolled binding\<close>

record v2_binding =
  vb_request :: pyval
  vb_request_digest :: pyval
  vb_owner :: pyval
  vb_started :: pyval
  vb_deadline :: pyval
  vb_handle :: handle
  vb_descriptor_digest :: pyval
  vb_thread :: nat
  vb_state :: string
  vb_used :: bool

definition unarmed_deadline :: "pyval \<Rightarrow> pyval \<Rightarrow> int" where
  "unarmed_deadline started request = int_of started + min (int_of (fld request ''timeout_ms'')) 5000 * 1000000"

abbreviation run_binding :: "pyval \<Rightarrow> pyval" where
  "run_binding request \<equiv> fld (fld request ''launcher_identity'') ''run_binding''"

definition bind_v2_request :: "nat \<Rightarrow> pyval \<Rightarrow> pyval \<Rightarrow> pyval \<Rightarrow> v2_binding res" where
  "bind_v2_request thread v owner started =
     rbind (validate_v2_request v)
     (\<lambda>request. rbind (builtin_tree ''owner'' owner)
     (\<lambda>_. rbind (sup_validate_owner owner (fld request ''boot_id''))
     (\<lambda>owner. rbind (checks
       [need (integer started 0) ''V2 start clock'',
        need (pyeq (fld (run_binding request) ''supervisor'') owner) ''V2 supervisor binding mismatch'',
        need (pyeq (fld (run_binding request) ''unarmed_deadline_ns'') (PInt (unarmed_deadline started request)))
          ''V2 absolute deadline mismatch''])
     (\<lambda>_. rbind (enroll_model thread (fld request ''launcher_identity''))
     (\<lambda>h. Inr \<lparr>vb_request = request, vb_request_digest = PStr (digest request), vb_owner = owner, vb_started = started,
             vb_deadline = PInt (unarmed_deadline started request), vb_handle = h, vb_descriptor_digest = h_digest h,
             vb_thread = thread, vb_state = ''ENROLLED_V2'', vb_used = False\<rparr>)))))"

definition validate_binding_phase :: "nat \<Rightarrow> v2_binding \<Rightarrow> string \<Rightarrow> bool \<Rightarrow> string \<Rightarrow> pyval res" where
  "validate_binding_phase thread b state used identity_state =
     rbind (checks
       [need (thread = vb_thread b \<and> vb_state b = state \<and> vb_used b = used \<and> matches (hexn 64) (vb_request_digest b)
          \<and> matches (hexn 64) (vb_descriptor_digest b)) ''active V2 request binding required''])
     (\<lambda>_. rbind (validate_v2_request (vb_request b))
     (\<lambda>current. rbind (builtin_tree ''stored owner'' (vb_owner b))
     (\<lambda>_. rbind (sup_validate_owner (vb_owner b) (fld current ''boot_id''))
     (\<lambda>owner. rbind (checks
       [need (integer (vb_started b) 0 \<and> integer (vb_deadline b) 1
          \<and> vb_deadline b = PInt (unarmed_deadline (vb_started b) current)) ''V2 stored deadline changed'',
        need (PStr (digest current) = vb_request_digest b \<and> pyeq (fld (run_binding current) ''supervisor'') owner
          \<and> pyeq (fld (run_binding current) ''unarmed_deadline_ns'') (vb_deadline b)) ''V2 request authority changed'',
        need (h_thread (vb_handle b) = vb_thread b \<and> h_state (vb_handle b) = identity_state
          \<and> matches (hexn 64) (h_digest (vb_handle b)) \<and> pyeq (h_digest (vb_handle b)) (vb_descriptor_digest b))
          ''V2 identity enrollment changed''])
     (\<lambda>_. rbind (id_descriptor (h_descriptor (vb_handle b)))
     (\<lambda>descriptor. rbind (checks
       [need (pyeq (PStr (digest descriptor)) (vb_descriptor_digest b)
          \<and> pyeq descriptor (fld current ''launcher_identity'')) ''V2 identity descriptor changed''])
     (\<lambda>_. Inr current)))))))"

definition validate_current_binding :: "nat \<Rightarrow> v2_binding \<Rightarrow> pyval res" where
  "validate_current_binding thread b = validate_binding_phase thread b ''ENROLLED_V2'' False ''ENROLLED''"

section \<open>The first event\<close>

definition v2_intent_payload :: "pyval \<Rightarrow> pyval \<Rightarrow> pyval res" where
  "v2_intent_payload request owner =
     rbind (validate_v2_request request)
     (\<lambda>current. rbind (builtin_tree ''V2 INTENT owner'' owner)
     (\<lambda>_. rbind (sup_validate_owner owner (fld current ''boot_id''))
     (\<lambda>current_owner. rbind (checks
       [need (pyeq current_owner (fld (run_binding current) ''supervisor'')) ''V2 INTENT owner mismatch''])
     (\<lambda>_. Inr (PDict
       [(''request'', current), (''request_digest'', PStr (digest current)),
        (''descriptor_digest'', PStr (digest (fld current ''launcher_identity''))), (''owner'', current_owner),
        (''unarmed_deadline_ns'', fld (run_binding current) ''unarmed_deadline_ns''),
        (''fd_graph_digest'', fld (run_binding current) ''fd_graph_digest''),
        (''enrollment_scope'', PStr ''MODEL_V2_IDENTITY_ENROLLMENT'')])))))"

definition v2_intent_event :: "pyval \<Rightarrow> pyval" where
  "v2_intent_event payload =
     PDict [(''schema'', PInt 2), (''request_id'', fld (fld payload ''request'') ''request_id''), (''sequence'', PInt 1),
            (''kind'', PStr ''INTENT''), (''previous_digest'', PStr (replicate 64 CHR ''0'')), (''payload'', payload)]"

definition encode_v2_intent :: "pyval \<Rightarrow> pyval \<Rightarrow> string res" where
  "encode_v2_intent request owner =
     rbind (v2_intent_payload request owner)
     (\<lambda>payload. rbind (builtin_tree ''V2 INTENT event'' (v2_intent_event payload))
     (\<lambda>_. Inr (dumps (v2_intent_event payload))))"


section \<open>Accepted requests\<close>

lemma dict_set_twice: "dict_set k v (dict_set k w d) = dict_set k v d"
  by (induction d) auto

lemma filter_dict_set: "filter (\<lambda>kv. fst kv \<noteq> k) (dict_set k v d) = filter (\<lambda>kv. fst kv \<noteq> k) d"
  by (induction d) auto

lemma filter_absent: "k \<notin> set (map fst d) \<Longrightarrow> filter (\<lambda>kv. fst kv \<noteq> k) d = d"
  by (induction d) auto

lemma dict_set_swap_filter:
  "l \<noteq> k \<Longrightarrow> filter (\<lambda>kv. fst kv \<noteq> k) (dict_set l v d) = dict_set l v (filter (\<lambda>kv. fst kv \<noteq> k) d)"
  by (induction d) auto

lemma fld_pypop: "fld (pypop k v) j = (if j = k then PNone else fld v j)"
proof -
  have "map_of (filter (\<lambda>kv. fst kv \<noteq> k) d) j = (if j = k then None else map_of d j)" for d :: "(string \<times> pyval) list"
    by (induction d) auto
  then show ?thesis by (simp add: pypop_def fld_def)
qed

lemma fld_legacy:
  "fld (legacy_request v) j = (if j = ''schema'' then PInt 1 else if j = ''launcher_identity'' then PNone else fld v j)"
  by (simp add: legacy_request_def fld_pypop [simplified pypop_def] pypop_def)

lemma legacy_keys: "k \<in> set (map fst (items (legacy_request v))) \<Longrightarrow> k \<noteq> ''launcher_identity''"
  by (auto simp: legacy_request_def pypop_def pyset_def keys_dict_set [simplified])

text \<open>The accepted form of a request: the legacy fields in their order, then the descriptor\<close>

definition v2_form :: "pyval \<Rightarrow> pyval" where
  "v2_form v = pyset ''launcher_identity'' (fld v ''launcher_identity'') (pyset ''schema'' (PInt 2) (legacy_request v))"

lemma fld_v2_form:
  "fld (v2_form v) j = (if j = ''launcher_identity'' then fld v j else if j = ''schema'' then PInt 2 else fld v j)"
  by (simp add: v2_form_def fld_legacy)

lemma legacy_v2_form: "legacy_request (v2_form v) = legacy_request v"
  by (simp add: v2_form_def legacy_request_def pypop_def pyset_def filter_dict_set dict_set_swap_filter dict_set_twice)


lemma set_dict_set: "set (dict_set k v d) \<subseteq> insert (k, v) (set d)"
  by (induction d) (auto split: if_splits)

lemma v2_form_items:
  assumes "fld v ''schema'' = PInt 2" and "has_key v ''launcher_identity''"
  shows "set (items (v2_form v)) \<subseteq> insert (''schema'', PInt 2) (set (items v))"
proof -
  have "(''launcher_identity'', fld v ''launcher_identity'') \<in> set (items v)"
    using assms(2) map_of_SomeD [of "items v" "''launcher_identity''"] map_of_eq_None_iff [of "items v" "''launcher_identity''"]
    by (auto simp: fld_def has_key_def keys_def split: option.splits)
  moreover have "set (items (v2_form v)) \<subseteq>
      insert (''launcher_identity'', fld v ''launcher_identity'') (insert (''schema'', PInt 2) (set (items v)))"
  proof -
    let ?d = "filter (\<lambda>kv. fst kv \<noteq> ''launcher_identity'') (items v)"
    have "items (v2_form v) = dict_set ''launcher_identity'' (fld v ''launcher_identity'') (dict_set ''schema'' (PInt 2) ?d)"
      by (simp add: v2_form_def legacy_request_def pypop_def pyset_def dict_set_twice)
    moreover have "set ?d \<subseteq> set (items v)" by auto
    ultimately show ?thesis
      by (simp only:) (rule order_trans [OF set_dict_set insert_mono [OF order_trans [OF set_dict_set insert_mono]]])
  qed
  ultimately show ?thesis by blast
qed

lemma v2_form_keys: "set (keys (v2_form v)) = insert ''launcher_identity'' (insert ''schema'' (set (keys v)))"
proof -
  have "set (map fst (filter (\<lambda>kv. fst kv \<noteq> k) d)) = set (map fst d) - {k}" for k and d :: "(string \<times> pyval) list"
    by auto
  then show ?thesis
    by (auto simp: v2_form_def legacy_request_def pypop_def pyset_def keys_def keys_dict_set [simplified])
qed

lemma validate_v2_ok:
  "validate_v2_request v = Inr w \<longleftrightarrow>
     w = v2_form v \<and> builtin_tree ''request'' v = Inr () \<and> exact v v2_request_fields \<and> fld v ''schema'' = PInt 2
   \<and> id_descriptor (fld v ''launcher_identity'') = Inr (fld v ''launcher_identity'') \<and> sup_request_type (legacy_request v)
   \<and> list_all fst (v2_bindings (fld v ''launcher_identity'') (legacy_request v))" (is "?l \<longleftrightarrow> ?r")
proof
  assume ?l
  then obtain d c where *: "builtin_tree ''request'' v = Inr ()" "exact v v2_request_fields" "fld v ''schema'' = PInt 2"
    "id_descriptor (fld v ''launcher_identity'') = Inr d" "sup_validate_request (legacy_request v) = Inr c"
    "list_all fst (v2_bindings d c)" "w = pyset ''launcher_identity'' d (pyset ''schema'' (PInt 2) c)"
    unfolding validate_v2_request_def by (auto simp: checks_ok elim!: rbindE)
  with id_descriptor_same [OF *(4)] show ?r by (simp add: validate_request_ok v2_form_def)
next
  assume r: ?r
  then have "sup_validate_request (legacy_request v) = Inr (legacy_request v)" by (simp add: validate_request_ok)
  with r show ?l unfolding validate_v2_request_def by (simp add: checks_need checks.simps(1) v2_form_def checks_ok rbind_Inr)
qed

lemma v2_form_builtin:
  assumes "builtin_tree path v = Inr ()" "fld v ''schema'' = PInt 2" "has_key v ''launcher_identity''" "is_dict v"
  shows "builtin_tree path (v2_form v) = Inr ()"
proof -
  from assms(4) obtain d where d: "v = PDict d" by (auto simp: is_dict_iff)
  have "builtin_tree path (v2_form v) = check_each (\<lambda>kv. builtin_tree (path @ ''.'' @ fst kv) (snd kv)) (items (v2_form v))"
    by (simp add: v2_form_def pyset_def)
  moreover have "builtin_tree (path @ ''.'' @ fst kv) (snd kv) = Inr ()" if "kv \<in> set (items (v2_form v))" for kv
    using subsetD [OF v2_form_items [OF assms(2,3)] that] assms(1) d by (auto simp: check_each_ok)
  ultimately show ?thesis by (simp add: check_each_ok)
qed

text \<open>
  C29: An accepted version 2 request is canonical. Its fields are those of the submitted document,
  it is a JSON document of exactly the declared fields, it is accepted again unchanged, its legacy
  part is an accepted supervisor request, its descriptor an accepted descriptor, and the two agree
  on the run, the argument vector, the environment, the payload object and the interpreter.
\<close>

theorem v2_request_canonical:
  assumes "validate_v2_request v = Inr w"
  shows "fld w = fld v \<and> exact w v2_request_fields \<and> json_ok w \<and> validate_v2_request w = Inr w
   \<and> sup_validate_request (legacy_request w) = Inr (legacy_request w)
   \<and> id_descriptor (fld w ''launcher_identity'') = Inr (fld w ''launcher_identity'')
   \<and> pyeq (fld (run_binding w) ''request_id'') (fld w ''request_id'')
   \<and> pyeq (fld (run_binding w) ''boot_id'') (fld w ''boot_id'')
   \<and> pyeq (fld (fld (fld w ''launcher_identity'') ''payload'') ''argv'') (fld w ''argv'')
   \<and> pyeq (fld (fld (fld w ''launcher_identity'') ''payload'') ''environment'') (fld w ''environment'')
   \<and> pyeq (projection (fld (fld (fld w ''launcher_identity'') ''payload'') ''object'')) (fld w ''executable'')
   \<and> pyeq (projection (fld (fld w ''launcher_identity'') ''interpreter'')) (fld w ''launcher'')"
proof -
  from assms have w: "w = v2_form v" and b: "builtin_tree ''request'' v = Inr ()" and e: "exact v v2_request_fields"
    and s: "fld v ''schema'' = PInt 2" and d: "id_descriptor (fld v ''launcher_identity'') = Inr (fld v ''launcher_identity'')"
    and t: "sup_request_type (legacy_request v)" and binds: "list_all fst (v2_bindings (fld v ''launcher_identity'') (legacy_request v))"
    by (simp_all add: validate_v2_ok)
  have key: "has_key v ''launcher_identity''" using e by (simp add: exact_key v2_request_fields_def)
  have flds: "fld w = fld v" using s by (auto simp: w fld_v2_form)
  have bw: "builtin_tree ''request'' w = Inr ()" unfolding w by (rule v2_form_builtin [OF b s key exact_is_dict [OF e]])
  have ew: "exact w v2_request_fields"
    using e unfolding exact_def w v2_form_keys
    by (auto simp: v2_form_def v2_request_fields_def sup_request_fields_def)
  have lw: "legacy_request w = legacy_request v" unfolding w by (rule legacy_v2_form)
  have "v2_form w = w" unfolding v2_form_def [of w] lw flds by (simp add: w v2_form_def)
  then have again: "validate_v2_request w = Inr w"
    using bw ew lw d t binds s by (simp add: validate_v2_ok flds)
  have "sup_validate_request (legacy_request w) = Inr (legacy_request w)" using t by (simp add: lw validate_request_ok)
  moreover have "pyeq (fld (run_binding w) ''request_id'') (fld w ''request_id'')"
    "pyeq (fld (run_binding w) ''boot_id'') (fld w ''boot_id'')"
    "pyeq (fld (fld (fld w ''launcher_identity'') ''payload'') ''argv'') (fld w ''argv'')"
    "pyeq (fld (fld (fld w ''launcher_identity'') ''payload'') ''environment'') (fld w ''environment'')"
    "pyeq (projection (fld (fld (fld w ''launcher_identity'') ''payload'') ''object'')) (fld w ''executable'')"
    "pyeq (projection (fld (fld w ''launcher_identity'') ''interpreter'')) (fld w ''launcher'')"
    using binds by (simp_all add: v2_bindings_def fld_legacy Let_def flds)
  moreover have "id_descriptor (fld w ''launcher_identity'') = Inr (fld w ''launcher_identity'')" using d by (simp add: flds)
  ultimately show ?thesis using again flds ew builtin_json_ok [OF bw] by blast
qed


definition lr_request :: pyval where
  "lr_request =
     PDict [(''schema'', PInt 2), (''request_id'', PStr (replicate 32 CHR ''1'')),
            (''purpose'', PStr ''DISPOSABLE_KERNEL_LAB''),
            (''boot_id'', PStr ''00000000-0000-0000-0000-000000000000''),
            (''argv'', PList [PStr ''/bin/true'', PStr ''-q'']), (''environment'', sup_clean_environment),
            (''launcher_identity'', li_descriptor),
            (''executable'', projection (li_object ''/bin/true'' CHR ''e'')),
            (''launcher'', projection (li_object ''/bin/slt'' CHR ''a'')),
            (''timeout_ms'', PInt 9), (''cleanup_ms'', PInt 5), (''capture_limit'', PInt 8),
            (''signal_policy'', PStr ''NONE''), (''storage_authorized'', PBool False),
            (''postcondition_verified'', PBool False)]"

lemma lr_legacy: "sup_request_type (legacy_request lr_request)"
  by code_simp

lemma lr_tree: "builtin_tree ''request'' lr_request = Inr ()"
  by code_simp

lemma lr_valid: "validate_v2_request lr_request = Inr (v2_form lr_request)"
proof -
  have "exact lr_request v2_request_fields" by code_simp
  moreover have "fld lr_request ''schema'' = PInt 2" "fld lr_request ''launcher_identity'' = li_descriptor"
    by (simp_all add: lr_request_def)
  moreover have "list_all fst (v2_bindings li_descriptor (legacy_request lr_request))" by code_simp
  ultimately show ?thesis using lr_legacy lr_tree li_descriptor_ok by (simp add: validate_v2_ok)
qed

theorem v2_request_canonical_witness:
  "validate_v2_request (v2_form lr_request) = Inr (v2_form lr_request) \<and> v2_form lr_request \<noteq> lr_request
   \<and> fld (v2_form lr_request) ''executable'' = fld lr_request ''executable''"
proof -
  have "v2_form lr_request \<noteq> lr_request" by code_simp
  with v2_request_canonical [OF lr_valid] show ?thesis by metis
qed

end
