(* ===== verification/IntentFile.thy ===== *)
theory IntentFile
  imports LauncherRequest
begin

text \<open>
  The first-record bridge of
  \<^verbatim>\<open>experiments/thick-generations/prelive_v2_intent_file_bridge.py\<close>: the strict decoder of
  a version 2 INTENT event, and the one-shot persistence that hands the bytes to the file backend
  and reads them back through its own descriptors. Backend and operating system answer every call
  arbitrarily. The JSON scanner is the parameter \<open>scan\<close>: it returns the document with
  repeated keys kept, and a foreign object for a float or a constant; the \<^verbatim>\<open>ValueError\<close> that is a
  \<^verbatim>\<open>JSONDecodeError\<close> carries that name.
\<close>

section \<open>Strict events\<close>

text \<open>\<^verbatim>\<open>_pairs\<close> and the two hooks that refuse floats and constants\<close>

fun strict_pairs :: "pyval \<Rightarrow> unit res" where
  "strict_pairs (PList vs) = check_each strict_pairs vs"
| "strict_pairs (PDict d) =
     rbind (check_each (\<lambda>kv. strict_pairs (snd kv)) d)
       (\<lambda>_. checks [need (distinct (map fst d)) ''duplicate or non-string JSON key''])"
| "strict_pairs (PObj n) = Inl (Refusal ''JSON floats are forbidden'')"
| "strict_pairs v = Inr ()"

definition decode_event :: "(string \<Rightarrow> pyval res) \<Rightarrow> string \<Rightarrow> pyval res" where
  "decode_event scan raw =
     (if \<not> list_all (\<lambda>c. c < CHR 0x80) raw then Inl (Refusal ''canonical V2 INTENT JSON required'')
      else case scan raw of
          Inl e \<Rightarrow> Inl (if e = ValueError ''JSONDecodeError'' then Refusal ''canonical V2 INTENT JSON required'' else e)
        | Inr v \<Rightarrow> rbind (strict_pairs v) (\<lambda>_. Inr v))"

definition event_head_ok :: "pyval \<Rightarrow> bool" where
  "event_head_ok v \<longleftrightarrow>
     exact v [''schema'', ''request_id'', ''sequence'', ''kind'', ''previous_digest'', ''payload'']
   \<and> fld v ''schema'' = PInt 2 \<and> fld v ''sequence'' = PInt 1 \<and> fld v ''kind'' = PStr ''INTENT''
   \<and> fld v ''previous_digest'' = PStr (replicate 64 CHR ''0'')"

definition payload_fields :: "string list" where
  "payload_fields = [''request'', ''request_digest'', ''descriptor_digest'', ''owner'', ''unarmed_deadline_ns'',
     ''fd_graph_digest'', ''enrollment_scope'']"

definition event_bound_ok :: "pyval \<Rightarrow> pyval \<Rightarrow> pyval \<Rightarrow> string \<Rightarrow> bool" where
  "event_bound_ok v request owner raw \<longleftrightarrow>
     (let payload = fld v ''payload''; descriptor = fld request ''launcher_identity''; run = fld descriptor ''run_binding'' in
     pyeq (fld v ''request_id'') (fld request ''request_id'')
   \<and> matches (hexn 64) (fld payload ''request_digest'') \<and> fld payload ''request_digest'' = PStr (digest request)
   \<and> matches (hexn 64) (fld payload ''descriptor_digest'') \<and> fld payload ''descriptor_digest'' = PStr (digest descriptor)
   \<and> pyeq owner (fld run ''supervisor'')
   \<and> is_int (fld payload ''unarmed_deadline_ns'') \<and> pyeq (fld payload ''unarmed_deadline_ns'') (fld run ''unarmed_deadline_ns'')
   \<and> matches (hexn 64) (fld payload ''fd_graph_digest'') \<and> pyeq (fld payload ''fd_graph_digest'') (fld run ''fd_graph_digest'')
   \<and> fld payload ''enrollment_scope'' = PStr ''MODEL_V2_IDENTITY_ENROLLMENT''
   \<and> dumps v = raw)"

definition strict_event :: "(string \<Rightarrow> pyval res) \<Rightarrow> pyval \<Rightarrow> pyval res" where
  "strict_event scan raw =
     (case raw of
        PBytes bytes \<Rightarrow>
          rbind (checks [need (bytes \<noteq> [] \<and> length bytes \<le> 65536) ''strict V2 INTENT bytes required''])
          (\<lambda>_. rbind (decode_event scan bytes)
          (\<lambda>v. rbind (builtin_tree ''V2 INTENT'' v)
          (\<lambda>_. rbind (checks
            [need (event_head_ok v) ''closed V2 INTENT event required'',
             need (exact (fld v ''payload'') payload_fields) ''closed V2 INTENT payload required''])
          (\<lambda>_. rbind (validate_v2_request (fld (fld v ''payload'') ''request''))
          (\<lambda>request. rbind (sup_validate_owner (fld (fld v ''payload'') ''owner'') (fld request ''boot_id''))
          (\<lambda>owner. rbind (checks
            [need (event_bound_ok v request owner bytes) ''V2 INTENT identity or canonical bytes changed''])
          (\<lambda>_. Inr v)))))))
      | _ \<Rightarrow> Inl (Refusal ''strict V2 INTENT bytes required''))"

section \<open>The bridge\<close>

text \<open>
  \<open>BackendAttributes\<close> reads the attributes other code could change: \<^verbatim>\<open>FILES.PARENT\<close>, the
  backend's \<^verbatim>\<open>root_name\<close> and \<^verbatim>\<open>root_identity\<close>.
\<close>

datatype intent_call =
    BackendAttributes
  | ArtifactPath
  | PersistExact string string
  | OpenRoot string
  | OpenRecord int string
  | Fstat pyval
  | StatPath string
  | StatRecord int string
  | ReadBytes pyval nat
  | CloseFd pyval

record bridge =
  ib_parent :: string
  ib_root_name :: string
  ib_path :: string
  ib_root_authority :: pyval
  ib_thread :: nat
  ib_state :: string
  ib_receipt :: pyval
  ib_record_fd :: pyval

type_synonym 'a bridge_prog = "(bridge, intent_call, 'a) prog"

text \<open>\<^verbatim>\<open>os.path.join\<close> of two paths\<close>

definition path_join :: "string \<Rightarrow> string \<Rightarrow> string" where
  "path_join a b =
     (if starts_with ''/'' b then b else if a = [] \<or> last a = CHR ''/'' then a @ b else a @ ''/'' @ b)"

definition root_keys :: "string list" where "root_keys = [''dev'', ''inode'', ''uid'', ''mode'']"

definition root_checks :: "pyval \<Rightarrow> bridge \<Rightarrow> (bool \<times> exc) list" where
  "root_checks v b =
     [need (fld v ''parent'' = PStr (ib_parent b) \<and> fld v ''root_name'' = PStr (ib_root_name b)
        \<and> path_join (ib_parent b) (ib_root_name b) = ib_path b) ''V2 INTENT backend or namespace authority changed'']"

definition root_identity_ok :: "pyval \<Rightarrow> bool" where
  "root_identity_ok i \<longleftrightarrow> exact i root_keys \<and> list_all (\<lambda>k. integer (fld i k) 0) root_keys
     \<and> 0 < int_of (fld i ''inode'') \<and> fld i ''mode'' = PInt 0x1C0"

definition tuple_of :: "pyval \<Rightarrow> string list \<Rightarrow> pyval" where
  "tuple_of v ks = PTuple (map (fld v) ks)"

definition root_authority :: "intent_call backend \<Rightarrow> pyval bridge_prog" where
  "root_authority \<beta> =
     bnd (call \<beta> BackendAttributes) (\<lambda>v.
     bnd (reads (\<lambda>b. b)) (\<lambda>b.
     andthen (lift (checks (root_checks v b)))
     (andthen (lift (builtin_tree ''V2 INTENT root identity'' (fld v ''root_identity'')))
     (andthen (demand (root_identity_ok (fld v ''root_identity'')) ''exact V2 INTENT root identity required'')
     (ret (tuple_of (fld v ''root_identity'') root_keys))))))"

definition same_root :: "intent_call backend \<Rightarrow> string \<Rightarrow> unit bridge_prog" where
  "same_root \<beta> msg =
     bnd (root_authority \<beta>) (\<lambda>now. bnd (reads ib_root_authority) (\<lambda>before. demand (pyeq now before) msg))"

definition bridge_init :: "intent_call backend \<Rightarrow> nat \<Rightarrow> bool \<Rightarrow> unit bridge_prog" where
  "bridge_init \<beta> thread exact_backend =
     andthen (demand exact_backend ''exact file backend required'')
     (bnd (call \<beta> BackendAttributes) (\<lambda>v.
     andthen (demand (is_str (fld v ''parent'') \<and> is_str (fld v ''root_name'')) ''strict V2 INTENT artifact namespace required'')
     (bnd (call \<beta> ArtifactPath) (\<lambda>path.
     andthen (demand (is_str path) ''strict V2 INTENT artifact path required'')
     (andthen (writes (\<lambda>b. b\<lparr>ib_parent := str_of (fld v ''parent''), ib_root_name := str_of (fld v ''root_name''),
        ib_path := str_of path\<rparr>))
     (bnd (root_authority \<beta>) (\<lambda>authority.
     writes (\<lambda>b. b\<lparr>ib_root_authority := authority, ib_thread := thread, ib_state := ''READY'', ib_receipt := PNone\<rparr>))))))))"

definition record_name :: string where "record_name = ''exact-event-000001.json''"

definition ack_fields :: "string list" where
  "ack_fields = [''bytes_written'', ''file_synced'', ''dir_synced'', ''closed'', ''name'', ''sha256'', ''record_identity'']"

definition record_keys :: "string list" where "record_keys = [''dev'', ''inode'', ''uid'', ''mode'', ''nlink'']"

definition record_identity_ok :: "pyval \<Rightarrow> bool" where
  "record_identity_ok i \<longleftrightarrow> exact i record_keys \<and> list_all (\<lambda>k. integer (fld i k) 0) [''dev'', ''inode'', ''uid'']
     \<and> 0 < int_of (fld i ''inode'') \<and> fld i ''mode'' = PInt 0x180 \<and> fld i ''nlink'' = PInt 1"

definition ack_ok :: "pyval \<Rightarrow> string \<Rightarrow> bool" where
  "ack_ok ack raw \<longleftrightarrow> exact ack ack_fields \<and> fld ack ''bytes_written'' = PInt (int (length raw))
     \<and> is_true (fld ack ''file_synced'') \<and> is_true (fld ack ''dir_synced'') \<and> is_true (fld ack ''closed'')
     \<and> fld ack ''name'' = PStr record_name \<and> matches (hexn 64) (fld ack ''sha256'') \<and> fld ack ''sha256'' = PStr (sha256 raw)
     \<and> record_identity_ok (fld ack ''record_identity'')"


section \<open>The independent reread\<close>

definition stat_tuple :: "pyval \<Rightarrow> string list \<Rightarrow> pyval" where
  "stat_tuple v extra =
     PTuple ([fld v ''st_dev'', fld v ''st_ino'', fld v ''st_uid'', PInt (int_of (fld v ''st_mode'') mod 4096)] @ map (fld v) extra)"

definition type_and :: "(int \<Rightarrow> bool res) \<Rightarrow> pyval \<Rightarrow> bool \<Rightarrow> string \<Rightarrow> unit res" where
  "type_and is_type v ok msg =
     rbind (rand (is_type (int_of (fld v ''st_mode''))) (Inr ok)) (\<lambda>b. checks [need b msg])"

definition root_stat_check :: "pyval \<Rightarrow> pyval \<Rightarrow> pyval \<Rightarrow> unit res" where
  "root_stat_check opened named authority =
     type_and s_isdir opened (pyeq (stat_tuple opened []) authority \<and> pyeq (stat_tuple named []) authority)
       ''V2 INTENT root identity changed''"

definition expected_identity :: "pyval \<Rightarrow> string \<Rightarrow> pyval" where
  "expected_identity authority raw = PTuple (list_of authority @ [PInt (int (length raw))])"

definition record_same :: "pyval \<Rightarrow> pyval \<Rightarrow> pyval \<Rightarrow> bool" where
  "record_same opened named expected \<longleftrightarrow>
     pyeq (stat_tuple opened [''st_nlink'', ''st_size'']) expected \<and> pyeq (stat_tuple named [''st_nlink'', ''st_size'']) expected"

text \<open>
  The read loop asks for the missing bytes and refuses an empty answer, so every round makes
  progress. It ends for every operating system.
\<close>

function read_loop :: "intent_call backend \<Rightarrow> pyval \<Rightarrow> string \<Rightarrow> string \<Rightarrow> string bridge_prog" where
  "read_loop \<beta> fd expected content \<sigma> =
     (if length content < length expected then
        (case call \<beta> (ReadBytes fd (length expected - length content)) \<sigma> of
           (Inl e, \<tau>) \<Rightarrow> (Inl e, \<tau>)
         | (Inr v, \<tau>) \<Rightarrow>
             (case v of
                PBytes chunk \<Rightarrow>
                  if chunk = [] then (Inl (Refusal ''V2 INTENT reread made no progress''), \<tau>)
                  else read_loop \<beta> fd expected (content @ chunk) \<tau>
              | _ \<Rightarrow> (Inl (Refusal ''V2 INTENT reread made no progress''), \<tau>)))
      else (Inr content, \<sigma>))"
  by pat_completeness auto
termination
  by (relation "measure (\<lambda>(\<beta>, fd, expected, content, \<sigma>). length expected - length content)")
    (auto simp: length_greater_0_conv [symmetric] simp del: length_greater_0_conv)

declare read_loop.simps [simp del]

definition reread_open :: "intent_call backend \<Rightarrow> pyval \<Rightarrow> pyval \<Rightarrow> pyval bridge_prog" where
  "reread_open \<beta> authority root_fd =
     bnd (reads ib_path) (\<lambda>path.
     bnd (call \<beta> (Fstat root_fd)) (\<lambda>root_before.
     bnd (call \<beta> (StatPath path)) (\<lambda>root_named.
     andthen (lift (root_stat_check root_before root_named authority))
     (bnd (call \<beta> (OpenRecord (int_of root_fd) record_name)) (\<lambda>record_fd.
     andthen (writes (ib_record_fd_update (\<lambda>_. record_fd))) (ret record_fd))))))"

definition reread_after :: "intent_call backend \<Rightarrow> string \<Rightarrow> pyval \<Rightarrow> pyval \<Rightarrow> pyval \<Rightarrow> pyval \<Rightarrow> unit bridge_prog" where
  "reread_after \<beta> raw record_authority authority root_fd record_fd =
     bnd (call \<beta> (Fstat record_fd)) (\<lambda>after.
     bnd (call \<beta> (StatRecord (int_of root_fd) record_name)) (\<lambda>final_named.
     bnd (call \<beta> (Fstat root_fd)) (\<lambda>root_after.
     bnd (reads ib_path) (\<lambda>path.
     bnd (call \<beta> (StatPath path)) (\<lambda>root_final_named.
     andthen (demand (record_same after final_named (expected_identity record_authority raw))
       ''V2 INTENT record changed during reread'')
     (demand (pyeq (stat_tuple root_after []) authority \<and> pyeq (stat_tuple root_final_named []) authority)
       ''V2 INTENT root changed during reread''))))))"

definition reread_record :: "intent_call backend \<Rightarrow> string \<Rightarrow> pyval \<Rightarrow> pyval \<Rightarrow> pyval \<Rightarrow> pyval \<Rightarrow> unit bridge_prog" where
  "reread_record \<beta> raw record_authority authority root_fd record_fd =
     bnd (call \<beta> (Fstat record_fd)) (\<lambda>before.
     bnd (call \<beta> (StatRecord (int_of root_fd) record_name)) (\<lambda>named.
     andthen (lift (type_and s_isreg before (record_same before named (expected_identity record_authority raw))
        ''V2 INTENT record identity changed''))
     (bnd (read_loop \<beta> record_fd raw []) (\<lambda>content.
     andthen (demand (content = raw) ''V2 INTENT reread bytes changed'')
     (bnd (call \<beta> (ReadBytes record_fd 1)) (\<lambda>rest.
     andthen (demand (rest = PBytes []) ''V2 INTENT reread bytes changed'')
     (reread_after \<beta> raw record_authority authority root_fd record_fd)))))))"

definition reread_checks :: "intent_call backend \<Rightarrow> string \<Rightarrow> pyval \<Rightarrow> pyval \<Rightarrow> pyval \<Rightarrow> unit bridge_prog" where
  "reread_checks \<beta> raw record_authority authority root_fd =
     bnd (reread_open \<beta> authority root_fd) (reread_record \<beta> raw record_authority authority root_fd)"

text \<open>\<^verbatim>\<open>try: m; except BaseException as exc: failure = exc\<close>\<close>

definition attempt :: "unit bridge_prog \<Rightarrow> exc option bridge_prog" where
  "attempt m = catch (andthen m (ret None)) (\<lambda>e. ret (Some e))"

definition close_fd :: "intent_call backend \<Rightarrow> pyval \<Rightarrow> exc option bridge_prog" where
  "close_fd \<beta> fd = (if fd = PNone then ret None else attempt (bnd (call \<beta> (CloseFd fd)) (\<lambda>_. ret ())))"

definition independent_reread :: "intent_call backend \<Rightarrow> string \<Rightarrow> pyval \<Rightarrow> pyval \<Rightarrow> unit bridge_prog" where
  "independent_reread \<beta> raw record_authority authority =
     bnd (reads ib_path) (\<lambda>path.
     bnd (call \<beta> (OpenRoot path)) (\<lambda>root_fd.
     andthen (writes (ib_record_fd_update (\<lambda>_. PNone)))
     (bnd (attempt (reread_checks \<beta> raw record_authority authority root_fd)) (\<lambda>f.
     bnd (reads ib_record_fd) (\<lambda>record_fd.
     bnd (close_fd \<beta> record_fd) (\<lambda>f1.
     bnd (close_fd \<beta> root_fd) (\<lambda>f2.
     demand (f = None \<and> f1 = None \<and> f2 = None) ''V2 INTENT independent reread ambiguous'')))))))"

section \<open>Persistence\<close>

definition intent_receipt :: "pyval \<Rightarrow> string \<Rightarrow> pyval \<Rightarrow> pyval" where
  "intent_receipt event raw record_authority =
     PDict [(''schema'', PInt 1), (''classification'', PStr ''V2_INTENT_EXACT_BYTES_VERIFIED''),
            (''request_id'', fld event ''request_id''), (''bytes'', PInt (int (length raw))),
            (''sha256'', PStr (sha256 raw)), (''name'', PStr record_name),
            (''record_identity'', PDict (zip record_keys (list_of record_authority))),
            (''child_started'', PBool False), (''grant_attempted'', PBool False), (''runtime_authorized'', PBool False),
            (''storage_authorized'', PBool False), (''exec_proven'', PBool False),
            (''power_loss_durability_proven'', PBool False)]"

definition persisting :: "string \<Rightarrow> unit bridge_prog" where
  "persisting msg = bnd (reads ib_state) (\<lambda>s. demand (s = ''PERSISTING'') msg)"

definition persist_verify ::
    "intent_call backend \<Rightarrow> pyval \<Rightarrow> string \<Rightarrow> pyval \<Rightarrow> pyval bridge_prog" where
  "persist_verify \<beta> event bytes record_authority =
     andthen (same_root \<beta> ''V2 INTENT root authority changed during persistence'')
     (bnd (reads ib_root_authority) (\<lambda>authority.
     andthen (independent_reread \<beta> bytes record_authority authority)
     (andthen (persisting ''V2 INTENT bridge changed during verification'')
     (andthen (same_root \<beta> ''V2 INTENT root authority changed after verification'')
     (andthen (writes (\<lambda>b. b\<lparr>ib_receipt := intent_receipt event bytes record_authority, ib_state := ''SEALED_INTENT''\<rparr>))
     (ret (intent_receipt event bytes record_authority)))))))"

definition persist_body :: "intent_call backend \<Rightarrow> (string \<Rightarrow> pyval res) \<Rightarrow> pyval \<Rightarrow> pyval bridge_prog" where
  "persist_body \<beta> scan raw =
     bnd (lift (strict_event scan raw)) (\<lambda>event.
     let bytes = (case raw of PBytes s \<Rightarrow> s | _ \<Rightarrow> []) in
     andthen (same_root \<beta> ''V2 INTENT root authority changed before persistence'')
     (andthen (writes (ib_state_update (\<lambda>_. ''PERSISTING'')))
     (bnd (call \<beta> (PersistExact record_name bytes)) (\<lambda>ack.
     andthen (lift (builtin_tree ''V2 INTENT file ACK'' ack))
     (andthen (persisting ''exact V2 INTENT file ACK required'')
     (andthen (demand (ack_ok ack bytes) ''exact V2 INTENT file ACK required'')
     (persist_verify \<beta> event bytes (tuple_of (fld ack ''record_identity'') record_keys))))))))"

definition persist_intent :: "intent_call backend \<Rightarrow> (string \<Rightarrow> pyval res) \<Rightarrow> nat \<Rightarrow> pyval \<Rightarrow> pyval bridge_prog" where
  "persist_intent \<beta> scan thread raw =
     bnd (reads (\<lambda>b. b)) (\<lambda>b.
     if thread \<noteq> ib_thread b \<or> ib_state b \<noteq> ''READY'' \<or> ib_receipt b \<noteq> PNone then
       andthen (writes (ib_state_update (\<lambda>_. ''UNKNOWN''))) (raise (Refusal ''fresh owner V2 INTENT bridge required''))
     else on_error (persist_body \<beta> scan raw) (\<lambda>_. writes (ib_state_update (\<lambda>_. ''UNKNOWN''))))"


section \<open>Bounded reads, balanced descriptors\<close>

definition read_count :: "intent_call hist \<Rightarrow> nat" where
  "read_count h = length (filter (\<lambda>qr. case fst qr of ReadBytes _ _ \<Rightarrow> True | _ \<Rightarrow> False) h)"

definition opened_fds :: "intent_call hist \<Rightarrow> pyval list" where
  "opened_fds h = concat (map (\<lambda>qr. case qr of
     (OpenRoot _, Inr v) \<Rightarrow> [v] | (OpenRecord _ _, Inr v) \<Rightarrow> [v] | _ \<Rightarrow> []) h)"

definition closed_fds :: "intent_call hist \<Rightarrow> pyval list" where
  "closed_fds h = concat (map (\<lambda>qr. case fst qr of CloseFd fd \<Rightarrow> [fd] | _ \<Rightarrow> []) h)"

lemma counts_append [simp]:
  "read_count (h @ t) = read_count h + read_count t"
  "opened_fds (h @ t) = opened_fds h @ opened_fds t"
  "closed_fds (h @ t) = closed_fds h @ closed_fds t"
  "read_count [] = 0" "opened_fds [] = []" "closed_fds [] = []"
  by (simp_all add: read_count_def opened_fds_def closed_fds_def)

lemma read_loop_run:
  assumes "read_loop \<beta> fd expected content (s, h) = (r, s', h')"
  shows "s' = s \<and> (\<exists>t. h' = h @ t \<and> fst ` set t \<subseteq> range (ReadBytes fd) \<and> length t \<le> length expected - length content)"
  using assms
proof (induction \<beta> fd expected content "(s, h)" arbitrary: s h rule: read_loop.induct)
  case (1 \<beta> fd expected content s h)
  let ?q = "ReadBytes fd (length expected - length content)"
  show ?case
  proof (cases "length content < length expected")
    case False
    with 1(2) show ?thesis by (auto simp: read_loop.simps)
  next
    case True
    show ?thesis
    proof (cases "\<exists>chunk. \<beta> h ?q = Inr (PBytes chunk) \<and> chunk \<noteq> []")
      case False
      with True 1(2) have "s' = s \<and> h' = h @ [(?q, \<beta> h ?q)]"
        by (auto simp: read_loop.simps [of _ _ _ _ "(s, h)"] call_def split: sum.splits pyval.splits if_splits)
      with True show ?thesis by (intro conjI exI [of _ "[(?q, \<beta> h ?q)]"]) auto
    next
      case more: True
      then obtain chunk where c: "\<beta> h ?q = Inr (PBytes chunk)" "chunk \<noteq> []" by blast
      have call: "call \<beta> ?q (s, h) = (Inr (PBytes chunk), s, h @ [(?q, Inr (PBytes chunk))])" using c by (simp add: call_def)
      have "read_loop \<beta> fd expected (content @ chunk) (s, h @ [(?q, Inr (PBytes chunk))]) = (r, s', h')"
        using 1(2) True c call by (simp add: read_loop.simps [of _ _ _ _ "(s, h)"])
      from 1(1) [OF True call [symmetric] refl refl c(2) this] obtain t where t: "s' = s"
        "h' = (h @ [(?q, Inr (PBytes chunk))]) @ t" "fst ` set t \<subseteq> range (ReadBytes fd)"
        "length t \<le> length expected - length (content @ chunk)" by blast
      from c(2) obtain x xs where "chunk = x # xs" by (cases chunk) simp_all
      with t True have "h' = h @ ((?q, Inr (PBytes chunk)) # t) \<and> length ((?q, Inr (PBytes chunk)) # t) \<le> length expected - length content"
        by auto
      moreover have "fst ` set ((?q, Inr (PBytes chunk)) # t) \<subseteq> range (ReadBytes fd)" using t(3) by auto
      ultimately show ?thesis using t(1) by blast
    qed
  qed
qed


text \<open>
  The reread after \<open>n\<close> reads: what the calls since \<open>h\<close> read, opened and closed. The record's
  descriptor is the one the state holds.
\<close>

definition rereading :: "intent_call hist \<Rightarrow> nat \<Rightarrow> bridge \<times> intent_call hist \<Rightarrow> bool" where
  "rereading h n \<sigma> \<longleftrightarrow> (\<exists>t. snd \<sigma> = h @ t \<and> read_count t \<le> n \<and> closed_fds t = []
     \<and> filter (\<lambda>fd. fd \<noteq> PNone) (opened_fds t) = (if ib_record_fd (fst \<sigma>) = PNone then [] else [ib_record_fd (fst \<sigma>)]))"

lemma rereading_mono: "rereading h m \<sigma> \<Longrightarrow> m \<le> n \<Longrightarrow> rereading h n \<sigma>"
  by (auto simp: rereading_def)

fun quiet :: "intent_call \<Rightarrow> bool" where
  "quiet (OpenRoot _) = False"
| "quiet (OpenRecord _ _) = False"
| "quiet (ReadBytes _ _) = False"
| "quiet (CloseFd _) = False"
| "quiet _ = True"

lemma quiet_counts:
  "quiet q \<Longrightarrow> read_count [(q, r)] = 0 \<and> opened_fds [(q, r)] = [] \<and> closed_fds [(q, r)] = []"
  by (cases q) (simp_all add: read_count_def opened_fds_def closed_fds_def)

lemma rereading_call: "quiet q \<Longrightarrow> preserves (rereading h n) (call \<beta> q)"
  by (rule preserves_call) (fastforce simp: rereading_def quiet_counts)

lemma rereading_read:
  "rereading h n \<sigma> \<Longrightarrow> wp (call \<beta> (ReadBytes fd k)) (\<lambda>_. rereading h (Suc n)) (\<lambda>_. rereading h (Suc n)) \<sigma>"
proof -
  assume "rereading h n \<sigma>"
  then have "rereading h (Suc n) (fst \<sigma>, snd \<sigma> @ [(ReadBytes fd k, r)])" for r
    by (auto simp: rereading_def read_count_def opened_fds_def closed_fds_def)
  then show ?thesis by (cases \<sigma>) (simp add: wp_simps split: sum.splits)
qed

lemma rereading_loop:
  assumes "rereading h n \<sigma>"
  shows "wp (read_loop \<beta> fd expected []) (\<lambda>_. rereading h (n + length expected)) (\<lambda>_. rereading h (n + length expected)) \<sigma>"
proof -
  obtain s h1 r s' h' where \<sigma>: "\<sigma> = (s, h1)" and run: "read_loop \<beta> fd expected [] (s, h1) = (r, s', h')"
    by (metis prod_cases3 surj_pair)
  from read_loop_run [OF run] obtain u where u: "s' = s" "h' = h1 @ u" "fst ` set u \<subseteq> range (ReadBytes fd)" "length u \<le> length expected"
    by auto
  have "read_count u \<le> length expected" using u(4) by (simp add: read_count_def le_trans [OF length_filter_le])
  moreover from u(3) have "closed_fds u = []" "opened_fds u = []"
    by (induction u) (auto simp: closed_fds_def opened_fds_def)
  ultimately have "rereading h (n + length expected) (s, h1 @ u)"
    using assms \<sigma> by (auto simp: rereading_def intro!: add_mono)
  then show ?thesis using \<sigma> run u by (simp add: wp_both)
qed

lemma reread_open_counts:
  assumes "rereading h 0 \<sigma>" and "ib_record_fd (fst \<sigma>) = PNone"
  shows "wp (reread_open \<beta> authority root_fd) (\<lambda>_. rereading h 0) (\<lambda>_. rereading h 0) \<sigma>"
  using assms unfolding reread_open_def
  by (cases \<sigma>)
     (auto simp: wp_simps rereading_def read_count_def opened_fds_def closed_fds_def split: sum.splits)

lemma reread_after_counts: "preserves (rereading h n) (reread_after \<beta> raw record_authority authority root_fd record_fd)"
  unfolding reread_after_def by (intro preserves_intros rereading_call) simp_all

lemma reread_record_counts:
  assumes "rereading h 0 \<sigma>"
  shows "wp (reread_record \<beta> raw record_authority authority root_fd record_fd)
     (\<lambda>_. rereading h (Suc (length raw))) (\<lambda>_. rereading h (Suc (length raw))) \<sigma>"
proof -
  let ?n = "Suc (length raw)"
  have quietly: "wp (call \<beta> q) (\<lambda>_. rereading h 0) (\<lambda>_. rereading h ?n) \<tau>" if "quiet q" "rereading h 0 \<tau>" for q \<tau>
    by (rule wp_mono [OF preservesD [OF rereading_call [OF that(1)] that(2)]]) (auto elim: rereading_mono)
  have tail: "wp (bnd (read_loop \<beta> record_fd raw []) (\<lambda>content.
       andthen (demand (content = raw) ''V2 INTENT reread bytes changed'')
       (bnd (call \<beta> (ReadBytes record_fd 1)) (\<lambda>rest.
       andthen (demand (rest = PBytes []) ''V2 INTENT reread bytes changed'')
       (reread_after \<beta> raw record_authority authority root_fd record_fd)))))
     (\<lambda>_. rereading h ?n) (\<lambda>_. rereading h ?n) \<tau>" if "rereading h 0 \<tau>" for \<tau>
  proof (rule wp_bndI [where R = "\<lambda>_. rereading h (length raw)"])
    show "wp (read_loop \<beta> record_fd raw []) (\<lambda>_. rereading h (length raw)) (\<lambda>_. rereading h ?n) \<tau>"
      by (rule wp_mono [OF rereading_loop [OF that]]) (auto elim: rereading_mono)
    fix content \<upsilon>
    assume \<upsilon>: "rereading h (length raw) \<upsilon>"
    have "wp (bnd (call \<beta> (ReadBytes record_fd 1)) (\<lambda>rest.
       andthen (demand (rest = PBytes []) ''V2 INTENT reread bytes changed'')
       (reread_after \<beta> raw record_authority authority root_fd record_fd)))
       (\<lambda>_. rereading h ?n) (\<lambda>_. rereading h ?n) \<upsilon>"
      by (rule wp_bndI [OF rereading_read [OF \<upsilon>]])
         (intro preservesD [where I = "rereading h ?n"] preserves_intros reread_after_counts)
    then show "wp (andthen (demand (content = raw) ''V2 INTENT reread bytes changed'')
       (bnd (call \<beta> (ReadBytes record_fd 1)) (\<lambda>rest.
       andthen (demand (rest = PBytes []) ''V2 INTENT reread bytes changed'')
       (reread_after \<beta> raw record_authority authority root_fd record_fd))))
       (\<lambda>_. rereading h ?n) (\<lambda>_. rereading h ?n) \<upsilon>"
      using rereading_mono [OF \<upsilon>] by (simp add: wp_andthen wp_demand)
  qed
  show ?thesis unfolding reread_record_def
    by (rule wp_bndI [OF quietly [OF _ assms]], simp, rule wp_bndI [OF quietly], simp, assumption, rule wp_andthenI [OF _ tail])
       (auto simp: wp_lift elim: rereading_mono split: sum.splits)
qed


definition balanced :: "intent_call hist \<Rightarrow> nat \<Rightarrow> bridge \<times> intent_call hist \<Rightarrow> bool" where
  "balanced h n \<sigma> \<longleftrightarrow> (\<exists>t. snd \<sigma> = h @ t \<and> read_count t \<le> n
     \<and> closed_fds t = List.rev (filter (\<lambda>fd. fd \<noteq> PNone) (opened_fds t)))"

definition untouched :: "intent_call hist \<Rightarrow> bridge \<times> intent_call hist \<Rightarrow> bool" where
  "untouched h \<sigma> \<longleftrightarrow> (\<exists>t. snd \<sigma> = h @ t \<and> read_count t = 0 \<and> opened_fds t = [] \<and> closed_fds t = [])"

lemma balanced_mono: "balanced h m \<sigma> \<Longrightarrow> m \<le> n \<Longrightarrow> balanced h n \<sigma>"
  by (auto simp: balanced_def)

lemma untouched_balanced: "untouched h \<sigma> \<Longrightarrow> balanced h n \<sigma>"
  unfolding untouched_def balanced_def by auto

lemma quiet_preserves:
  "quiet q \<Longrightarrow> preserves (balanced h n) (call \<beta> q)" "quiet q \<Longrightarrow> preserves (untouched h) (call \<beta> q)"
  by (rule preserves_call; fastforce simp: balanced_def untouched_def quiet_counts)+

lemma writes_preserves: "preserves (balanced h n) (writes u)" "preserves (untouched h) (writes u)"
  by (rule preserves_writes; simp add: balanced_def untouched_def)+

lemma attempt_wp: "wp (attempt m) Q E = wp m (\<lambda>_. Q None) (\<lambda>e. Q (Some e))"
  by (simp add: attempt_def wp_simps)

text \<open>Whatever the attempt left open, the two closes balance.\<close>

lemma close_counts:
  assumes "rereading (h @ [(OpenRoot p, Inr root_fd)]) n (b, h1)" and "untouched h0 (b0, h)"
  shows "wp (close_fd \<beta> (ib_record_fd b)) (\<lambda>_. wp (close_fd \<beta> root_fd) (\<lambda>_. balanced h0 n) (\<lambda>_. balanced h0 n))
     (\<lambda>_. balanced h0 n) (b, h1)"
proof -
  from assms obtain t t0 where t: "h1 = h @ [(OpenRoot p, Inr root_fd)] @ t" "read_count t \<le> n" "closed_fds t = []"
    "filter (\<lambda>fd. fd \<noteq> PNone) (opened_fds t) = (if ib_record_fd b = PNone then [] else [ib_record_fd b])"
    "h = h0 @ t0" "read_count t0 = 0" "opened_fds t0 = []" "closed_fds t0 = []"
    by (auto simp: rereading_def untouched_def)
  have open1: "read_count ((OpenRoot p, r) # w) = read_count w" "closed_fds ((OpenRoot p, r) # w) = closed_fds w"
    "opened_fds ((OpenRoot p, Inr v) # w) = v # opened_fds w" for r v w
    by (simp_all add: read_count_def opened_fds_def closed_fds_def)
  have close1: "read_count [(CloseFd fd, r)] = 0" "opened_fds [(CloseFd fd, r)] = []" "closed_fds [(CloseFd fd, r)] = [fd]" for fd r
    by (simp_all add: read_count_def opened_fds_def closed_fds_def)
  have final: "balanced h0 n (b, h1 @ u)"
    if "read_count u = 0" "opened_fds u = []"
      "closed_fds u = (if ib_record_fd b = PNone then [] else [ib_record_fd b]) @ (if root_fd = PNone then [] else [root_fd])" for u
    unfolding balanced_def using t that
    by (intro exI [of _ "t0 @ [(OpenRoot p, Inr root_fd)] @ t @ u"]) (simp add: open1)
  have c1: "balanced h0 n (b, h1)" if "ib_record_fd b = PNone" "root_fd = PNone" using final [of "[]"] that by simp
  have c2: "balanced h0 n (b, h1 @ [(CloseFd root_fd, r)])" if "ib_record_fd b = PNone" "root_fd \<noteq> PNone" for r
    by (rule final) (use that in \<open>simp_all add: close1\<close>)
  have c3: "balanced h0 n (b, h1 @ [(CloseFd (ib_record_fd b), r)])" if "ib_record_fd b \<noteq> PNone" "root_fd = PNone" for r
    by (rule final) (use that in \<open>simp_all add: close1\<close>)
  have c4: "balanced h0 n (b, h1 @ [(CloseFd (ib_record_fd b), r), (CloseFd root_fd, r')])"
    if "ib_record_fd b \<noteq> PNone" "root_fd \<noteq> PNone" for r r'
    by (rule final) (use that close1 in \<open>simp_all add: read_count_def opened_fds_def closed_fds_def\<close>)
  show ?thesis
    using c1 c2 c3 c4 by (auto simp: close_fd_def wp_if attempt_wp wp_simps split: sum.splits)
qed

lemma independent_reread_counts:
  assumes "untouched h0 \<sigma>"
  shows "wp (independent_reread \<beta> raw record_authority authority)
     (\<lambda>_. balanced h0 (Suc (length raw))) (\<lambda>_. balanced h0 (Suc (length raw))) \<sigma>"
proof (cases \<sigma>)
  case (Pair b h)
  let ?n = "Suc (length raw)"
  note u = assms [unfolded Pair]
  have open1: "read_count [(OpenRoot p, r)] = 0" "closed_fds [(OpenRoot p, r)] = []" "opened_fds [(OpenRoot p, Inl e)] = []" for p r e
    by (simp_all add: read_count_def opened_fds_def closed_fds_def)
  have failed: "balanced h0 ?n (b, h @ [(OpenRoot p, Inl e)])" for p e
    using u by (auto simp: untouched_def balanced_def open1)
  have checks: "wp (attempt (reread_checks \<beta> raw record_authority authority root_fd))
      (\<lambda>f. wp (bnd (reads ib_record_fd) (\<lambda>record_fd. bnd (close_fd \<beta> record_fd) (\<lambda>f1. bnd (close_fd \<beta> root_fd) (\<lambda>f2.
         demand (f = None \<and> f1 = None \<and> f2 = None) ''V2 INTENT independent reread ambiguous''))))
         (\<lambda>_. balanced h0 ?n) (\<lambda>_. balanced h0 ?n))
      (\<lambda>_. balanced h0 ?n) (b\<lparr>ib_record_fd := PNone\<rparr>, h @ [(OpenRoot p, Inr root_fd)])" for p root_fd
  proof -
    have after: "wp (bnd (reads ib_record_fd) (\<lambda>record_fd. bnd (close_fd \<beta> record_fd) (\<lambda>f1. bnd (close_fd \<beta> root_fd) (\<lambda>f2.
         demand (f = None \<and> f1 = None \<and> f2 = None) ''V2 INTENT independent reread ambiguous''))))
         (\<lambda>_. balanced h0 ?n) (\<lambda>_. balanced h0 ?n) \<tau>"
      if "rereading (h @ [(OpenRoot p, Inr root_fd)]) ?n \<tau>" for f \<tau>
      using close_counts [of h p root_fd ?n "fst \<tau>" "snd \<tau>" h0 b] that u by (cases \<tau>) (simp add: wp_simps)
    have "rereading (h @ [(OpenRoot p, Inr root_fd)]) 0 (b\<lparr>ib_record_fd := PNone\<rparr>, h @ [(OpenRoot p, Inr root_fd)])"
      by (simp add: rereading_def)
    then have "wp (reread_open \<beta> authority root_fd) (\<lambda>_. rereading (h @ [(OpenRoot p, Inr root_fd)]) 0)
        (\<lambda>_. rereading (h @ [(OpenRoot p, Inr root_fd)]) ?n) (b\<lparr>ib_record_fd := PNone\<rparr>, h @ [(OpenRoot p, Inr root_fd)])"
      by (rule wp_mono [OF reread_open_counts]) (auto elim: rereading_mono)
    then have "wp (reread_checks \<beta> raw record_authority authority root_fd)
        (\<lambda>_. rereading (h @ [(OpenRoot p, Inr root_fd)]) ?n) (\<lambda>_. rereading (h @ [(OpenRoot p, Inr root_fd)]) ?n)
        (b\<lparr>ib_record_fd := PNone\<rparr>, h @ [(OpenRoot p, Inr root_fd)])"
      unfolding reread_checks_def
      by (rule wp_bndI) (rule reread_record_counts)
    then show ?thesis unfolding attempt_wp by (rule wp_mono) (erule after)+
  qed
  show ?thesis unfolding independent_reread_def Pair
    by (simp add: wp_bnd wp_andthen wp_reads wp_writes wp_call failed split: sum.splits)
       (use checks in \<open>auto simp: wp_bnd wp_reads\<close>)
qed


lemma same_root_preserves: "preserves (untouched h) (same_root \<beta> msg)" "preserves (balanced h n) (same_root \<beta> msg)"
  unfolding same_root_def root_authority_def by (intro preserves_intros quiet_preserves; simp)+

lemma persisting_preserves: "preserves (untouched h) (persisting msg)" "preserves (balanced h n) (persisting msg)"
  unfolding persisting_def by (intro preserves_intros)+

lemma strict_event_bytes: "strict_event scan raw = Inr v \<Longrightarrow> \<exists>bytes. raw = PBytes bytes \<and> length bytes \<le> 65536"
  by (cases raw) (auto simp: strict_event_def checks_ok elim!: rbindE)

lemma verify_counts:
  assumes "untouched h \<sigma>" and "length bytes \<le> 65536"
  shows "wp (persist_verify \<beta> event bytes record_authority) (\<lambda>_. balanced h 65537) (\<lambda>_. balanced h 65537) \<sigma>"
proof -
  have root: "wp (same_root \<beta> msg) (\<lambda>_. untouched h) (\<lambda>_. balanced h 65537) \<tau>" if "untouched h \<tau>" for msg \<tau>
    by (rule wp_mono [OF preservesD [OF same_root_preserves(1) that]]) (auto intro: untouched_balanced)
  have reread: "wp (independent_reread \<beta> bytes record_authority authority) (\<lambda>_. balanced h 65537) (\<lambda>_. balanced h 65537) \<tau>"
    if "untouched h \<tau>" for authority \<tau>
    by (rule wp_mono [OF independent_reread_counts [OF that]]) (use assms(2) in \<open>auto elim!: balanced_mono\<close>)
  have rest: "wp (andthen (persisting ''V2 INTENT bridge changed during verification'')
     (andthen (same_root \<beta> ''V2 INTENT root authority changed after verification'')
     (andthen (writes (\<lambda>b. b\<lparr>ib_receipt := intent_receipt event bytes record_authority, ib_state := ''SEALED_INTENT''\<rparr>))
     (ret (intent_receipt event bytes record_authority)))))
     (\<lambda>_. balanced h 65537) (\<lambda>_. balanced h 65537) \<tau>" if "balanced h 65537 \<tau>" for \<tau>
    by (intro preservesD [where I = "balanced h 65537"] preserves_intros persisting_preserves same_root_preserves
        writes_preserves that)
  show ?thesis unfolding persist_verify_def
    by (rule wp_andthenI [OF root [OF assms(1)]], simp only: wp_bnd wp_reads split_beta)
       (rule wp_andthenI [OF reread rest], simp)
qed

text \<open>
  C30: Persisting the intent always ends, after a bounded number of operating-system calls, and
  leaks no descriptor. For every backend, operating system, scanner, thread and state, a call makes
  at most 65537 reads, however short the answers of the reads are, and has closed every descriptor
  it opened, exactly once and in reverse order, also when it fails.
\<close>

theorem intent_persist_bounded:
  "\<exists>t. snd (snd (persist_intent \<beta> scan thread raw (b, h))) = h @ t \<and> read_count t \<le> 65537
     \<and> closed_fds t = List.rev (filter (\<lambda>fd. fd \<noteq> PNone) (opened_fds t))"
proof -
  have start: "untouched h (b, h)" by (simp add: untouched_def)
  have body: "wp (persist_body \<beta> scan raw) (\<lambda>_. balanced h 65537) (\<lambda>_. balanced h 65537) (b, h)"
  proof (cases "strict_event scan raw")
    case (Inl e)
    then show ?thesis unfolding persist_body_def using untouched_balanced [OF start] by (simp add: wp_bnd wp_lift)
  next
    case (Inr event)
    from strict_event_bytes [OF Inr] obtain bytes where bytes: "raw = PBytes bytes" "length bytes \<le> 65536" by blast
    have quietly: "wp m (\<lambda>_. untouched h) (\<lambda>_. balanced h 65537) \<tau>" if "preserves (untouched h) m" "untouched h \<tau>"
      for m :: "'x bridge_prog" and \<tau>
      by (rule wp_mono [OF preservesD [OF that]]) (auto intro: untouched_balanced)
    have ack: "wp (andthen (lift (builtin_tree ''V2 INTENT file ACK'' ack))
       (andthen (persisting ''exact V2 INTENT file ACK required'')
       (andthen (demand (ack_ok ack bytes) ''exact V2 INTENT file ACK required'')
       (persist_verify \<beta> event bytes (tuple_of (fld ack ''record_identity'') record_keys)))))
       (\<lambda>_. balanced h 65537) (\<lambda>_. balanced h 65537) \<tau>" if "untouched h \<tau>" for ack \<tau>
      by (rule wp_andthenI [OF quietly [OF preserves_quiet(4) that]],
          rule wp_andthenI [OF quietly [OF persisting_preserves(1)]], assumption,
          rule wp_andthenI [OF quietly [OF preserves_quiet(3)]], assumption, rule verify_counts [OF _ bytes(2)])
    have "wp (andthen (same_root \<beta> ''V2 INTENT root authority changed before persistence'')
       (andthen (writes (ib_state_update (\<lambda>_. ''PERSISTING'')))
       (bnd (call \<beta> (PersistExact record_name bytes)) (\<lambda>ack.
        andthen (lift (builtin_tree ''V2 INTENT file ACK'' ack))
       (andthen (persisting ''exact V2 INTENT file ACK required'')
       (andthen (demand (ack_ok ack bytes) ''exact V2 INTENT file ACK required'')
       (persist_verify \<beta> event bytes (tuple_of (fld ack ''record_identity'') record_keys))))))))
       (\<lambda>_. balanced h 65537) (\<lambda>_. balanced h 65537) (b, h)"
      by (rule wp_andthenI [OF quietly [OF same_root_preserves(1) start]],
          rule wp_andthenI [OF quietly [OF writes_preserves(2)]], assumption,
          rule wp_bndI [OF quietly [OF quiet_preserves(2)]], simp, assumption, rule ack)
    then show ?thesis unfolding persist_body_def using Inr [unfolded bytes(1)] by (simp add: bytes(1) wp_bnd wp_lift)
  qed
  have "balanced h 65537 (snd (persist_intent \<beta> scan thread raw (b, h)))"
  proof (cases "thread \<noteq> ib_thread b \<or> ib_state b \<noteq> ''READY'' \<or> ib_receipt b \<noteq> PNone")
    case True
    then have "snd (snd (persist_intent \<beta> scan thread raw (b, h))) = h"
      by (simp add: persist_intent_def bnd_def reads_def andthen_def writes_def raise_def)
    then show ?thesis by (simp add: balanced_def)
  next
    case False
    have "wp (on_error (persist_body \<beta> scan raw) (\<lambda>_. writes (ib_state_update (\<lambda>_. ''UNKNOWN''))))
        (\<lambda>_. balanced h 65537) (\<lambda>_. balanced h 65537) (b, h)"
      unfolding wp_on_error by (rule wp_mono [OF body]) (auto simp: wp_writes balanced_def)
    then show ?thesis using False unfolding wp_both
      by (simp add: persist_intent_def bnd_def reads_def)
  qed
  then show ?thesis unfolding balanced_def .
qed


section \<open>What a sealed receipt says\<close>

definition read_bytes :: "intent_call hist \<Rightarrow> string" where
  "read_bytes h = concat (map (\<lambda>qr. case qr of (ReadBytes _ _, Inr (PBytes s)) \<Rightarrow> s | _ \<Rightarrow> []) h)"

lemma read_bytes_simps [simp]:
  "read_bytes [] = []" "read_bytes (h @ t) = read_bytes h @ read_bytes t"
  "read_bytes ((ReadBytes fd n, Inr (PBytes s)) # h) = s @ read_bytes h"
  by (simp_all add: read_bytes_def)

definition no_read :: "intent_call set" where
  "no_read = {q. case q of ReadBytes _ _ \<Rightarrow> False | _ \<Rightarrow> True}"

lemma no_read_simps [simp]:
  "BackendAttributes \<in> no_read" "ArtifactPath \<in> no_read" "PersistExact m s \<in> no_read" "OpenRoot p \<in> no_read"
  "OpenRecord i p \<in> no_read" "Fstat v \<in> no_read" "StatPath p \<in> no_read" "StatRecord i p \<in> no_read" "CloseFd v \<in> no_read"
  "ReadBytes v n \<notin> no_read"
  by (simp_all add: no_read_def)

lemma no_read_bytes: "fst ` set t \<subseteq> no_read \<Longrightarrow> read_bytes t = []"
  by (induction t) (auto simp: read_bytes_def no_read_def split: intent_call.splits)

lemma no_read_value:
  assumes "asks no_read m" and "m (s, h) = (r, s', h')"
  obtains t where "h' = h @ t" "read_bytes t = []"
  using assms by (elim asks_value) (auto dest: no_read_bytes)

lemma asks_same_root: "asks no_read (same_root \<beta> msg)"
  unfolding same_root_def root_authority_def by (intro asks_intros) simp_all

lemma asks_persisting: "asks no_read (persisting msg)"
  unfolding persisting_def by (intro asks_intros)

lemma asks_reread_open: "asks no_read (reread_open \<beta> authority root_fd)"
  unfolding reread_open_def by (intro asks_intros) simp_all

lemma asks_reread_after: "asks no_read (reread_after \<beta> raw record_authority authority root_fd record_fd)"
  unfolding reread_after_def by (intro asks_intros) simp_all

lemma asks_close: "asks no_read (close_fd \<beta> fd)"
  unfolding close_fd_def attempt_def by (auto intro!: asks_intros asks_catch)

lemma read_loop_content:
  "read_loop \<beta> fd expected content (s, h) = (Inr c, s', h') \<Longrightarrow> \<exists>t. h' = h @ t \<and> c = content @ read_bytes t"
proof (induction \<beta> fd expected content "(s, h)" arbitrary: s h rule: read_loop.induct)
  case (1 \<beta> fd expected content s h)
  let ?q = "ReadBytes fd (length expected - length content)"
  show ?case
  proof (cases "length content < length expected")
    case False
    with 1(2) show ?thesis by (auto simp: read_loop.simps)
  next
    case True
    with 1(2) obtain chunk where c: "\<beta> h ?q = Inr (PBytes chunk)" "chunk \<noteq> []"
      and rest: "read_loop \<beta> fd expected (content @ chunk) (s, h @ [(?q, Inr (PBytes chunk))]) = (Inr c, s', h')"
      by (auto simp: read_loop.simps [of _ _ _ _ "(s, h)"] call_def split: sum.splits pyval.splits if_splits)
    from c have "(Inr (PBytes chunk), s, h @ [(?q, Inr (PBytes chunk))]) = call \<beta> ?q (s, h)" by (simp add: call_def)
    from 1(1) [OF True this refl refl c(2) rest] obtain t
      where "h' = (h @ [(?q, Inr (PBytes chunk))]) @ t" "c = (content @ chunk) @ read_bytes t" by blast
    then show ?thesis by (intro exI [of _ "(?q, Inr (PBytes chunk)) # t"]) simp
  qed
qed

lemma reread_checks_value:
  assumes "reread_checks \<beta> raw record_authority authority root_fd (b, h) = (Inr u, b', h')"
  shows "\<exists>t. h' = h @ t \<and> read_bytes t = raw"
proof -
  from assms obtain record_fd b1 h1 where opened: "reread_open \<beta> authority root_fd (b, h) = (Inr record_fd, b1, h1)"
    and rest: "reread_record \<beta> raw record_authority authority root_fd record_fd (b1, h1) = (Inr u, b', h')"
    unfolding reread_checks_def by (auto elim: bnd_value)
  from no_read_value [OF asks_reread_open opened] obtain t0 where t0: "h1 = h @ t0" "read_bytes t0 = []" .
  from rest obtain before named h2 b3 h3 rest_fd where
    h2: "h2 = h1 @ [(Fstat record_fd, Inr before), (StatRecord (int_of root_fd) record_name, Inr named)]"
    and loop: "read_loop \<beta> record_fd raw [] (b1, h2) = (Inr raw, b3, h3)"
    and after: "reread_after \<beta> raw record_authority authority root_fd record_fd
        (b3, h3 @ [(ReadBytes record_fd 1, Inr (PBytes []))]) = (Inr u, b', h')"
    unfolding reread_record_def by (auto elim!: bnd_value andthen_value)
  from read_loop_content [OF loop] obtain t1 where t1: "h3 = h2 @ t1" "raw = read_bytes t1" by auto
  from no_read_value [OF asks_reread_after after] obtain t2
    where t2: "h' = (h3 @ [(ReadBytes record_fd 1, Inr (PBytes []))]) @ t2" "read_bytes t2 = []" .
  have quiet: "read_bytes ((Fstat record_fd, Inr before) # (StatRecord (int_of root_fd) record_name, Inr named) # w)
      = read_bytes w" for w
    by (simp add: read_bytes_def)
  show ?thesis
    by (rule exI [of _ "t0 @ [(Fstat record_fd, Inr before), (StatRecord (int_of root_fd) record_name, Inr named)] @ t1
          @ [(ReadBytes record_fd 1, Inr (PBytes []))] @ t2"])
       (use t0 h2 t1 t2 quiet in simp)
qed


lemma independent_reread_value:
  assumes "independent_reread \<beta> raw record_authority authority (b, h) = (Inr u, b', h')"
  shows "\<exists>t. h' = h @ t \<and> read_bytes t = raw"
proof -
  from assms obtain root_fd b1 h1 record_fd f1 b2 h2 f2 where
    checked: "attempt (reread_checks \<beta> raw record_authority authority root_fd)
       (b\<lparr>ib_record_fd := PNone\<rparr>, h @ [(OpenRoot (ib_path b), Inr root_fd)]) = (Inr None, b1, h1)"
    and c1: "close_fd \<beta> record_fd (b1, h1) = (Inr f1, b2, h2)" and c2: "close_fd \<beta> root_fd (b2, h2) = (Inr f2, b', h')"
    unfolding independent_reread_def by (auto elim!: bnd_value andthen_value)
  from checked obtain v where
    "reread_checks \<beta> raw record_authority authority root_fd
       (b\<lparr>ib_record_fd := PNone\<rparr>, h @ [(OpenRoot (ib_path b), Inr root_fd)]) = (Inr v, b1, h1)"
    by (auto simp: attempt_def catch_def andthen_def bnd_def ret_def split: prod.splits sum.splits)
  from reread_checks_value [OF this] obtain t where t: "h1 = (h @ [(OpenRoot (ib_path b), Inr root_fd)]) @ t" "read_bytes t = raw"
    by blast
  from no_read_value [OF asks_close c1] obtain t1 where t1: "h2 = h1 @ t1" "read_bytes t1 = []" .
  from no_read_value [OF asks_close c2] obtain t2 where t2: "h' = h2 @ t2" "read_bytes t2 = []" .
  have "read_bytes ((OpenRoot p, r) # w) = read_bytes w" for p r w by (simp add: read_bytes_def)
  then show ?thesis
    by (intro exI [of _ "[(OpenRoot (ib_path b), Inr root_fd)] @ t @ t1 @ t2"]) (use t t1 t2 in simp)
qed

lemma strict_event_ok:
  assumes "strict_event scan (PBytes bytes) = Inr event"
  shows "dumps event = bytes \<and> event_head_ok event
     \<and> (\<exists>request. validate_v2_request (fld (fld event ''payload'') ''request'') = Inr request
          \<and> fld (fld event ''payload'') ''request_digest'' = PStr (digest request))"
  using assms by (auto simp: strict_event_def checks_ok event_bound_ok_def Let_def elim!: rbindE)

lemma intent_persist_value:
  assumes "persist_intent \<beta> scan thread raw (b, h) = (Inr receipt, b', h')"
  shows "\<exists>bytes event ack t. raw = PBytes bytes \<and> strict_event scan raw = Inr event \<and> dumps event = bytes
     \<and> h' = h @ t \<and> (PersistExact record_name bytes, Inr ack) \<in> set t \<and> ack_ok ack bytes \<and> read_bytes t = bytes
     \<and> ib_state b' = ''SEALED_INTENT'' \<and> ib_receipt b' = receipt
     \<and> receipt = intent_receipt event bytes (tuple_of (fld ack ''record_identity'') record_keys)"
proof -
  from assms have body: "persist_body \<beta> scan raw (b, h) = (Inr receipt, b', h')"
    by (auto simp: persist_intent_def bnd_def reads_def andthen_def writes_def raise_def on_error_def
        split: if_splits sum.splits prod.splits)
  then obtain event where event: "strict_event scan raw = Inr event"
    unfolding persist_body_def by (auto elim: bnd_value)
  from strict_event_bytes [OF event] obtain bytes where bytes: "raw = PBytes bytes" by blast
  let ?authority = "\<lambda>ack. tuple_of (fld ack ''record_identity'') record_keys"
  from body obtain b1 h1 ack b2 h2 b3 h3 where
    root1: "same_root \<beta> ''V2 INTENT root authority changed before persistence'' (b, h) = (Inr (), b1, h1)"
    and held: "persisting ''exact V2 INTENT file ACK required''
        (b1\<lparr>ib_state := ''PERSISTING''\<rparr>, h1 @ [(PersistExact record_name bytes, Inr ack)]) = (Inr (), b2, h2)"
    and ack: "ack_ok ack bytes" and verify: "persist_verify \<beta> event bytes (?authority ack) (b2, h2) = (Inr receipt, b', h')"
    unfolding persist_body_def by (auto simp: event [unfolded bytes] bytes elim!: bnd_value andthen_value)
  from verify obtain b4 h4 b5 h5 b6 h6 b7 h7 where
    root2: "same_root \<beta> ''V2 INTENT root authority changed during persistence'' (b2, h2) = (Inr (), b4, h4)"
    and reread: "independent_reread \<beta> bytes (?authority ack) (ib_root_authority b4) (b4, h4) = (Inr (), b5, h5)"
    and held2: "persisting ''V2 INTENT bridge changed during verification'' (b5, h5) = (Inr (), b6, h6)"
    and root3: "same_root \<beta> ''V2 INTENT root authority changed after verification'' (b6, h6) = (Inr (), b7, h7)"
    and final: "receipt = intent_receipt event bytes (?authority ack)" "h' = h7"
      "b' = b7\<lparr>ib_receipt := intent_receipt event bytes (?authority ack), ib_state := ''SEALED_INTENT''\<rparr>"
    unfolding persist_verify_def by (auto elim!: bnd_value andthen_value)
  from no_read_value [OF asks_same_root root1] obtain t1 where t1: "h1 = h @ t1" "read_bytes t1 = []" .
  from no_read_value [OF asks_persisting held] obtain t2
    where t2: "h2 = (h1 @ [(PersistExact record_name bytes, Inr ack)]) @ t2" "read_bytes t2 = []" .
  from no_read_value [OF asks_same_root root2] obtain t3 where t3: "h4 = h2 @ t3" "read_bytes t3 = []" .
  from independent_reread_value [OF reread] obtain t4 where t4: "h5 = h4 @ t4" "read_bytes t4 = bytes" by blast
  from no_read_value [OF asks_persisting held2] obtain t5 where t5: "h6 = h5 @ t5" "read_bytes t5 = []" .
  from no_read_value [OF asks_same_root root3] obtain t6 where t6: "h7 = h6 @ t6" "read_bytes t6 = []" .
  let ?t = "t1 @ [(PersistExact record_name bytes, Inr ack)] @ t2 @ t3 @ t4 @ t5 @ t6"
  have "read_bytes ((PersistExact m s, r) # w) = read_bytes w" for m s r w by (simp add: read_bytes_def)
  then have "h' = h @ ?t \<and> read_bytes ?t = bytes" using t1 t2 t3 t4 t5 t6 final(2) by simp
  moreover have "dumps event = bytes" using strict_event_ok event bytes by blast
  ultimately show ?thesis using event ack final bytes
    by (intro exI [of _ bytes] exI [of _ event] exI [of _ ack] exI [of _ ?t]) simp
qed


text \<open>
  C31: A sealed receipt is backed by the file. When persisting returns, the bytes were an accepted
  version 2 INTENT and exactly its canonical encoding, the backend acknowledged them with length,
  digest, syncs and close, the bytes the operating system returned to the bridge's own reads are
  exactly these bytes, and the bridge holds the receipt in its final state.
\<close>

theorem intent_receipt_backed:
  "wp (persist_intent \<beta> scan thread raw)
     (\<lambda>receipt (b', h'). \<exists>bytes event ack t. raw = PBytes bytes \<and> strict_event scan raw = Inr event \<and> dumps event = bytes
       \<and> h' = h @ t \<and> (PersistExact record_name bytes, Inr ack) \<in> set t \<and> ack_ok ack bytes \<and> read_bytes t = bytes
       \<and> ib_state b' = ''SEALED_INTENT'' \<and> ib_receipt b' = receipt
       \<and> receipt = intent_receipt event bytes (tuple_of (fld ack ''record_identity'') record_keys))
     (\<lambda>_ _. True) (b, h)"
  by (rule wp_valueI, unfold case_prod_conv, rule intent_persist_value)

end
