(* ===== verification/NoGrantAbort.thy ===== *)
theory NoGrantAbort
  imports IntentFile
begin

text \<open>
  The no-grant abort controller of
  \<^verbatim>\<open>experiments/thick-generations/prelive_no_grant_abort_model.py\<close>. The backend answers
  arbitrarily, and while a call runs it may assign the attributes of the controller that
  \<^verbatim>\<open>__setattr__\<close> does not seal: \<open>\<mu>\<close> is an arbitrary change of the public part of the state
  at each call. A callback that re-enters \<^verbatim>\<open>run\<close> itself is not modelled. Threads and backend objects are
  numbers; \<^verbatim>\<open>is\<close> on the intent bytes is equality.
\<close>

section \<open>State\<close>

datatype ng_call = NgCall string "pyval list"

text \<open>The attributes a callback can assign\<close>

record ng_public =
  np_backend :: nat
  np_methods_intact :: bool
  np_thread :: nat
  np_request :: pyval
  np_request_digest :: pyval
  np_owner :: pyval
  np_owner_bytes :: pyval
  np_intent_bytes :: pyval
  np_intent_digest :: pyval
  np_started :: pyval
  np_deadline :: pyval
  np_state :: pyval
  np_child_may_exist :: pyval
  np_attempted_fork :: pyval
  np_grant_writes :: pyval
  np_exec_attempts :: pyval
  np_graph :: pyval
  np_child :: pyval
  np_pidfd :: pyval
  np_failure_phase :: pyval

text \<open>The sealed attributes\<close>

record ng =
  ng_pub :: ng_public
  ng_backend :: nat
  ng_request_bytes :: string
  ng_intent_bytes :: string
  ng_started :: pyval
  ng_deadline :: pyval
  ng_clock :: pyval
  ng_epoch :: nat
  ng_reaped :: bool
  ng_pidfd_authority :: pyval
  ng_graph_enrolled :: bool
  ng_child_enrolled :: bool
  ng_pidfd_enrolled :: bool
  ng_graph_bytes :: pyval
  ng_child_bytes :: pyval
  ng_fork_token :: pyval

type_synonym 'a ng_prog = "(ng, ng_call, 'a) prog"

type_synonym interference = "ng_call hist \<Rightarrow> ng_call \<Rightarrow> ng_public \<Rightarrow> ng_public"

definition pub :: "(ng_public \<Rightarrow> ng_public) \<Rightarrow> ng \<Rightarrow> ng" where
  "pub f s = s\<lparr>ng_pub := f (ng_pub s)\<rparr>"

definition expected_exit :: int where "expected_exit = 73"

section \<open>Construction\<close>

definition ng_methods :: "string list" where
  "ng_methods =
     [''monotonic_ns_model'', ''preflight_model'', ''allocate_fd_graph_model'', ''persist_intent_model'',
      ''fork_abort_once_model'', ''bind_pidfd_model'', ''observe_ready_model'', ''close_grant_writer_no_write_model'',
      ''observe_abort_exit_model'', ''reap_exact_model'']"

definition ng_init ::
    "(string \<Rightarrow> pyval res) \<Rightarrow> nat \<Rightarrow> nat \<Rightarrow> pyval \<Rightarrow> string list \<Rightarrow> pyval \<Rightarrow> pyval \<Rightarrow> pyval \<Rightarrow> pyval \<Rightarrow> pyval \<Rightarrow> ng res" where
  "ng_init scan thread backend model_only methods request owner intent_bytes started deadline =
     rbind (checks
       [need (is_true model_only) ''model-only no-grant backend required'',
        need (list_all (\<lambda>m. m \<in> set methods) ng_methods) ''closed no-grant backend surface required''])
     (\<lambda>_. rbind (validate_v2_request request)
     (\<lambda>request. rbind (builtin_tree ''no-grant owner'' owner)
     (\<lambda>_. rbind (sup_validate_owner owner (fld request ''boot_id''))
     (\<lambda>owner. rbind (strict_event scan intent_bytes)
     (\<lambda>event. rbind (checks
       [need (pyeq (fld (fld event ''payload'') ''request'') request \<and> pyeq (fld (fld event ''payload'') ''owner'') owner)
          ''exact request-bound INTENT bytes required'',
        need (integer started 0 \<and> integer deadline 1 \<and> int_of started < int_of deadline
          \<and> pyeq deadline (fld (run_binding request) ''unarmed_deadline_ns'')) ''original absolute deadline required''])
     (\<lambda>_. let raw = (case intent_bytes of PBytes s \<Rightarrow> s | _ \<Rightarrow> []) in
       Inr \<lparr>ng_pub =
              \<lparr>np_backend = backend, np_methods_intact = True, np_thread = thread, np_request = request,
               np_request_digest = PStr (digest request), np_owner = owner, np_owner_bytes = PBytes (dumps owner),
               np_intent_bytes = intent_bytes, np_intent_digest = PStr (sha256 raw), np_started = started,
               np_deadline = deadline, np_state = PStr ''NEW'', np_child_may_exist = PBool False,
               np_attempted_fork = PBool False, np_grant_writes = PInt 0, np_exec_attempts = PInt 0, np_graph = PNone,
               np_child = PNone, np_pidfd = PNone, np_failure_phase = PNone\<rparr>,
            ng_backend = backend, ng_request_bytes = dumps request, ng_intent_bytes = raw, ng_started = started,
            ng_deadline = deadline, ng_clock = started, ng_epoch = 0, ng_reaped = False, ng_pidfd_authority = PNone,
            ng_graph_enrolled = False, ng_child_enrolled = False, ng_pidfd_enrolled = False, ng_graph_bytes = PNone,
            ng_child_bytes = PNone, ng_fork_token = PNone\<rparr>))))))"

section \<open>Validation of the controller's own state\<close>

definition authority_ok :: "nat \<Rightarrow> string \<Rightarrow> ng \<Rightarrow> bool" where
  "authority_ok thread state s \<longleftrightarrow>
     (let p = ng_pub s in
     thread = np_thread p \<and> np_backend p = ng_backend s \<and> np_state p = PStr state
   \<and> is_bool (np_child_may_exist p) \<and> is_bool (np_attempted_fork p)
   \<and> ((ng_epoch s = 0 \<and> is_false (np_attempted_fork p)) \<or> (ng_epoch s = 1 \<and> is_true (np_attempted_fork p)))
   \<and> ((ng_epoch s = 0 \<and> is_false (np_child_may_exist p))
      \<or> (ng_epoch s = 1 \<and> \<not> ng_reaped s \<and> is_true (np_child_may_exist p))
      \<or> (ng_epoch s = 1 \<and> ng_reaped s \<and> is_false (np_child_may_exist p)))
   \<and> np_grant_writes p = PInt 0 \<and> np_exec_attempts p = PInt 0)"

definition frozen_ok :: "ng \<Rightarrow> pyval \<Rightarrow> pyval \<Rightarrow> bool" where
  "frozen_ok s current owner \<longleftrightarrow>
     (let p = ng_pub s in
     dumps current = ng_request_bytes s \<and> np_request_digest p = PStr (digest current)
   \<and> np_owner_bytes p = PBytes (dumps owner) \<and> np_intent_bytes p = PBytes (ng_intent_bytes s)
   \<and> np_intent_digest p = PStr (sha256 (ng_intent_bytes s))
   \<and> integer (np_started p) 0 \<and> pyeq (np_started p) (ng_started s)
   \<and> integer (np_deadline p) 1 \<and> pyeq (np_deadline p) (ng_deadline s)
   \<and> int_of (np_started p) < int_of (np_deadline p))"

definition graph_kept :: "ng \<Rightarrow> unit res" where
  "graph_kept s =
     (if \<not> ng_graph_enrolled s then Inr ()
      else rbind (checks [need (np_graph (ng_pub s) \<noteq> PNone) ''enrolled no-grant graph disappeared''])
        (\<lambda>_. rbind (builtin_tree ''stored no-grant graph'' (np_graph (ng_pub s)))
        (\<lambda>_. checks [need (ng_graph_bytes s = PBytes (dumps (np_graph (ng_pub s)))) ''frozen no-grant graph changed''])))"

definition child_kept :: "ng \<Rightarrow> unit res" where
  "child_kept s =
     (if \<not> ng_child_enrolled s then Inr ()
      else rbind (checks [need (np_child (ng_pub s) \<noteq> PNone) ''enrolled no-grant child disappeared''])
        (\<lambda>_. rbind (builtin_tree ''stored no-grant child'' (np_child (ng_pub s)))
        (\<lambda>_. checks [need (ng_child_bytes s = PBytes (dumps (np_child (ng_pub s))) \<and> matches (hexn 32) (ng_fork_token s)
          \<and> pyeq (fld (np_child (ng_pub s)) ''fork_token'') (ng_fork_token s)) ''frozen no-grant child changed''])))"

definition pidfd_kept :: "ng \<Rightarrow> unit res" where
  "pidfd_kept s =
     (if \<not> ng_pidfd_enrolled s then Inr ()
      else checks
        [need (np_pidfd (ng_pub s) \<noteq> PNone) ''enrolled no-grant pidfd disappeared'',
         need (integer (np_pidfd (ng_pub s)) 1 \<and> is_int (ng_pidfd_authority s)
           \<and> pyeq (np_pidfd (ng_pub s)) (ng_pidfd_authority s)) ''frozen no-grant pidfd changed''])"

definition ng_validate :: "nat \<Rightarrow> string \<Rightarrow> ng \<Rightarrow> unit res" where
  "ng_validate thread state s =
     rbind (checks [need (authority_ok thread state s) ''no-grant controller authority changed''])
     (\<lambda>_. rbind (validate_v2_request (np_request (ng_pub s)))
     (\<lambda>current. rbind (builtin_tree ''stored no-grant owner'' (np_owner (ng_pub s)))
     (\<lambda>_. rbind (sup_validate_owner (np_owner (ng_pub s)) (fld current ''boot_id''))
     (\<lambda>owner. rbind (checks [need (frozen_ok s current owner) ''frozen no-grant request authority changed''])
     (\<lambda>_. rbind (graph_kept s) (\<lambda>_. rbind (child_kept s) (\<lambda>_. pidfd_kept s)))))))"

section \<open>One phase\<close>

definition poison :: "string \<Rightarrow> ng \<Rightarrow> ng" where
  "poison phase s =
     pub (\<lambda>p. p\<lparr>np_state := PStr (if 0 < ng_epoch s \<and> \<not> ng_reaped s then ''UNKNOWN_SURVIVOR'' else ''UNKNOWN''),
                np_failure_phase := PStr phase\<rparr>) s"

text \<open>A call of the backend, which may interfere while it runs, also when it raises\<close>

definition interfered_call :: "ng_call backend \<Rightarrow> interference \<Rightarrow> ng_call \<Rightarrow> pyval ng_prog" where
  "interfered_call \<beta> \<mu> q \<sigma> = (case \<sigma> of (s, h) \<Rightarrow> (\<beta> h q, pub (\<mu> h q) s, h @ [(q, \<beta> h q)]))"

definition ng_invoke :: "ng_call backend \<Rightarrow> interference \<Rightarrow> string \<Rightarrow> pyval list \<Rightarrow> pyval ng_prog" where
  "ng_invoke \<beta> \<mu> name args =
     bnd (reads (\<lambda>s. np_methods_intact (ng_pub s))) (\<lambda>intact.
     andthen (demand intact ''no-grant backend method authority changed'')
     (interfered_call \<beta> \<mu> (NgCall name args)))"

definition clock_ok :: "ng \<Rightarrow> pyval \<Rightarrow> bool" where
  "clock_ok s v \<longleftrightarrow> integer v 0 \<and> int_of (ng_clock s) \<le> int_of v \<and> int_of v < int_of (ng_deadline s)"

definition ng_tick :: "ng_call backend \<Rightarrow> interference \<Rightarrow> unit ng_prog" where
  "ng_tick \<beta> \<mu> =
     bnd (reads ng_clock) (\<lambda>previous.
     andthen (demand (integer previous 0) ''strict no-grant clock watermark required'')
     (bnd (ng_invoke \<beta> \<mu> ''monotonic_ns_model'' []) (\<lambda>v.
     bnd (reads (\<lambda>s. s)) (\<lambda>s.
     andthen (demand (is_int (ng_clock s) \<and> ng_clock s = previous \<and> clock_ok s v)
       ''no-grant monotonic deadline reached or regressed'')
     (writes (ng_clock_update (\<lambda>_. v)))))))"

definition ng_check :: "nat \<Rightarrow> string \<Rightarrow> unit ng_prog" where
  "ng_check thread state = bnd (reads (\<lambda>s. s)) (\<lambda>s. lift (ng_validate thread state s))"

abbreviation ng_enter :: "string \<Rightarrow> unit ng_prog" where
  "ng_enter state \<equiv> writes (pub (np_state_update (\<lambda>_. PStr state)))"

definition ng_phase_body ::
    "ng_call backend \<Rightarrow> interference \<Rightarrow> nat \<Rightarrow> string \<Rightarrow> string \<Rightarrow> string \<Rightarrow> string \<Rightarrow> pyval list \<Rightarrow> pyval ng_prog" where
  "ng_phase_body \<beta> \<mu> thread ready busy after name args =
     andthen (ng_check thread ready)
     (andthen (ng_enter busy)
     (andthen (ng_tick \<beta> \<mu>)
     (andthen (ng_check thread busy)
     (bnd (ng_invoke \<beta> \<mu> name args) (\<lambda>answer.
     andthen (lift (builtin_tree (busy @ '' result'') answer))
     (bnd (reads (\<lambda>s. np_state (ng_pub s))) (\<lambda>state.
     andthen (demand (state = PStr busy) ''no-grant callback changed controller phase'')
     (andthen (ng_check thread busy)
     (andthen (ng_tick \<beta> \<mu>)
     (andthen (ng_check thread busy)
     (andthen (ng_enter after)
     (andthen (ng_check thread after)
     (ret answer)))))))))))))"

definition ng_phase ::
    "ng_call backend \<Rightarrow> interference \<Rightarrow> nat \<Rightarrow> string \<Rightarrow> string \<Rightarrow> string \<Rightarrow> string \<Rightarrow> pyval list \<Rightarrow> pyval ng_prog" where
  "ng_phase \<beta> \<mu> thread ready busy after name args =
     bnd (reads (\<lambda>s. np_state (ng_pub s))) (\<lambda>state.
     if state \<noteq> PStr ready then andthen (writes (poison busy)) (raise (Refusal ''no-grant phase or reentrancy''))
     else on_error (ng_phase_body \<beta> \<mu> thread ready busy after name args) (\<lambda>_. writes (poison busy)))"


section \<open>The evidence of each phase\<close>

definition preflight_ok :: "pyval \<Rightarrow> bool" where
  "preflight_ok v \<longleftrightarrow>
     exact v [''dedicated_wait_domain'', ''unexpected_children'', ''sigchld_autoreap'', ''subreaper_supported'',
       ''subreaper_readback'', ''pidfd'', ''waitid_pidfd'']
   \<and> is_true (fld v ''dedicated_wait_domain'') \<and> fld v ''unexpected_children'' = PInt 0
   \<and> is_false (fld v ''sigchld_autoreap'') \<and> is_true (fld v ''subreaper_supported'')
   \<and> is_true (fld v ''subreaper_readback'') \<and> is_true (fld v ''pidfd'') \<and> is_true (fld v ''waitid_pidfd'')"

definition fd_roles :: "string list" where
  "fd_roles = [''grant_child'', ''grant_parent'', ''status_parent'', ''status_child'', ''stdout_parent'', ''stdout_child'',
     ''stderr_parent'', ''stderr_child'']"

definition read_roles :: "string list" where
  "read_roles = [''grant_child'', ''status_parent'', ''stdout_parent'', ''stderr_parent'']"

definition nonblock_roles :: "string list" where
  "nonblock_roles = [''grant_parent'', ''status_parent'', ''stdout_parent'', ''stderr_parent'']"

definition pipe_pairs :: "(string \<times> string) list" where
  "pipe_pairs = [(''grant_child'', ''grant_parent''), (''status_parent'', ''status_child''), (''stdout_parent'', ''stdout_child''),
     (''stderr_parent'', ''stderr_child'')]"

text \<open>The Linux values: \<^verbatim>\<open>O_RDONLY = 0\<close>, \<^verbatim>\<open>O_WRONLY = 1\<close>, \<^verbatim>\<open>O_ACCMODE = 3\<close>,
  \<^verbatim>\<open>O_NONBLOCK = 0o4000\<close>, \<^verbatim>\<open>FD_CLOEXEC = 1\<close>\<close>

definition access_mode :: "string \<Rightarrow> int" where
  "access_mode role = (if role \<in> set read_roles then 0 else 1)"

definition endpoint_flags :: "string \<Rightarrow> int" where
  "endpoint_flags role = access_mode role + (if role \<in> set nonblock_roles then 0x800 else 0)"

definition endpoint_schema_ok :: "pyval list \<Rightarrow> bool" where
  "endpoint_schema_ok es \<longleftrightarrow>
     list_all (\<lambda>e. exact e [''role'', ''fd'', ''dev'', ''inode'', ''mode'', ''flags'', ''fd_flags'']) es
   \<and> list_all2 (\<lambda>e role. pyeq (fld e ''role'') (PStr role)) es fd_roles"

definition endpoint_check :: "pyval \<Rightarrow> unit res" where
  "endpoint_check e =
     (let role = str_of (fld e ''role'') in
     rbind (rand
       (Inr (is_str (fld e ''role'')
         \<and> list_all (\<lambda>k. integer (fld e k) 0) [''fd'', ''dev'', ''inode'', ''mode'', ''flags'', ''fd_flags'']
         \<and> 2 < int_of (fld e ''fd'') \<and> 0 < int_of (fld e ''inode'')))
       (rand (s_isfifo (int_of (fld e ''mode'')))
       (Inr (int_of (fld e ''flags'') mod 4 = access_mode role \<and> int_of (fld e ''flags'') = endpoint_flags role
         \<and> int_of (fld e ''fd_flags'') = 1))))
     (\<lambda>ok. checks [need ok ''strict no-grant endpoint identity'']))"

definition endpoint_of :: "pyval list \<Rightarrow> string \<Rightarrow> pyval" where
  "endpoint_of es role = (case filter (\<lambda>e. fld e ''role'' = PStr role) es of [] \<Rightarrow> PNone | e # _ \<Rightarrow> e)"

definition pipe_of :: "pyval list \<Rightarrow> string \<Rightarrow> int \<times> int" where
  "pipe_of es role = (int_of (fld (endpoint_of es role) ''dev''), int_of (fld (endpoint_of es role) ''inode''))"

definition pipes_check :: "pyval list \<Rightarrow> unit res" where
  "pipes_check es =
     rbind (checks [need (distinct (map (\<lambda>e. int_of (fld e ''fd'')) es)) ''no-grant endpoint FD alias''])
     (\<lambda>_. rbind (check_each (\<lambda>(l, r). checks [need (pipe_of es l = pipe_of es r) ''no-grant pipe peer identity mismatch'']) pipe_pairs)
     (\<lambda>_. checks [need (distinct (map (\<lambda>(l, r). pipe_of es l) pipe_pairs)) ''no-grant pipe identities alias'']))"

definition descriptor_fields :: "string list" where
  "descriptor_fields =
     [''schema'', ''kind'', ''request_id'', ''graph_id'', ''supervisor'', ''pre_fork_ticket_id'', ''phase'', ''grant_policy'',
      ''endpoints'', ''endpoint_count'', ''all_cloexec'', ''parent_nonblocking'']"

definition graph_descriptor_ok :: "pyval \<Rightarrow> pyval \<Rightarrow> pyval \<Rightarrow> pyval \<Rightarrow> bool" where
  "graph_descriptor_ok d supervisor request owner_bytes \<longleftrightarrow>
     exact d descriptor_fields \<and> fld d ''schema'' = PInt 1 \<and> fld d ''kind'' = PStr ''NO_GRANT_ALLOCATED_FD_GRAPH_V1''
   \<and> pyeq (fld d ''request_id'') (fld request ''request_id'') \<and> matches (hexn 32) (fld d ''graph_id'')
   \<and> owner_bytes = PBytes (dumps supervisor) \<and> matches (hexn 32) (fld d ''pre_fork_ticket_id'')
   \<and> fld d ''phase'' = PStr ''PARENT_PRE_FORK_ALL_ENDPOINTS_OWNED'' \<and> fld d ''grant_policy'' = PStr ''CLOSE_ONLY_NO_WRITE''
   \<and> is_list (fld d ''endpoints'') \<and> length (list_of (fld d ''endpoints'')) = 8 \<and> fld d ''endpoint_count'' = PInt 8
   \<and> is_true (fld d ''all_cloexec'') \<and> is_true (fld d ''parent_nonblocking'')"

definition graph_check :: "pyval \<Rightarrow> pyval \<Rightarrow> pyval \<Rightarrow> unit res" where
  "graph_check graph request owner_bytes =
     (let d = fld graph ''descriptor''; es = list_of (fld d ''endpoints'') in
     rbind (checks [need (exact graph [''descriptor'', ''fd_graph_digest''] \<and> is_dict d) ''closed no-grant FD graph''])
     (\<lambda>_. rbind
       (case sup_validate_owner (fld d ''supervisor'') (fld request ''boot_id'') of
          Inl (Refusal t) \<Rightarrow> Inl (Refusal ''strict FD graph supervisor required'') | r \<Rightarrow> r)
     (\<lambda>supervisor. rbind (checks
       [need (graph_descriptor_ok d supervisor request owner_bytes) ''strict no-grant FD graph descriptor'',
        need (endpoint_schema_ok es) ''closed no-grant endpoint descriptor''])
     (\<lambda>_. rbind (check_each endpoint_check es)
     (\<lambda>_. rbind (pipes_check es)
     (\<lambda>_. checks
       [need (matches (hexn 64) (fld graph ''fd_graph_digest'') \<and> fld graph ''fd_graph_digest'' = PStr (digest d)
          \<and> pyeq (fld graph ''fd_graph_digest'') (fld (run_binding request) ''fd_graph_digest''))
          ''no-grant FD graph/request binding'']))))))"

definition intent_ok :: "pyval \<Rightarrow> pyval \<Rightarrow> bool" where
  "intent_ok v intent_digest \<longleftrightarrow>
     exact v [''classification'', ''sha256'', ''exact_bytes_verified'', ''child_started'', ''grant_attempted'', ''exec_proven'']
   \<and> fld v ''classification'' = PStr ''V2_INTENT_EXACT_BYTES_VERIFIED'' \<and> pyeq (fld v ''sha256'') intent_digest
   \<and> is_true (fld v ''exact_bytes_verified'') \<and> is_false (fld v ''child_started'') \<and> is_false (fld v ''grant_attempted'')
   \<and> is_false (fld v ''exec_proven'')"

definition child_ok :: "pyval \<Rightarrow> pyval \<Rightarrow> bool" where
  "child_ok v request \<longleftrightarrow>
     exact v [''pid'', ''starttime'', ''boot_id'', ''fork_token'', ''fork_count'', ''has_exec_branch'']
   \<and> integer (fld v ''pid'') 1 \<and> integer (fld v ''starttime'') 1 \<and> pyeq (fld v ''boot_id'') (fld request ''boot_id'')
   \<and> matches (hexn 32) (fld v ''fork_token'') \<and> fld v ''fork_count'' = PInt 1 \<and> is_false (fld v ''has_exec_branch'')"

definition bound_ok :: "pyval \<Rightarrow> pyval \<Rightarrow> bool" where
  "bound_ok v child_bytes \<longleftrightarrow>
     exact v [''child'', ''pidfd_token'', ''observations_match'', ''open_count''] \<and> is_dict (fld v ''child'')
   \<and> child_bytes = PBytes (dumps (fld v ''child'')) \<and> integer (fld v ''pidfd_token'') 1
   \<and> is_true (fld v ''observations_match'') \<and> fld v ''open_count'' = PInt 1"

definition ready_ok :: "pyval \<Rightarrow> bool" where
  "ready_ok v \<longleftrightarrow>
     exact v [''ready_count'', ''stdout_canary'', ''stderr_canary'', ''status_error'', ''payload_exec_calls'', ''grant_bytes'']
   \<and> fld v ''ready_count'' = PInt 1 \<and> fld v ''stdout_canary'' = PStr ''SLT_NO_GRANT_STDOUT_V1''
   \<and> fld v ''stderr_canary'' = PStr ''SLT_NO_GRANT_STDERR_V1'' \<and> is_false (fld v ''status_error'')
   \<and> fld v ''payload_exec_calls'' = PInt 0 \<and> fld v ''grant_bytes'' = PInt 0"

definition closed_ok :: "pyval \<Rightarrow> bool" where
  "closed_ok v \<longleftrightarrow>
     exact v [''bytes_written'', ''write_calls'', ''close_attempts'', ''close_confirmed'', ''writer_copies_remaining'']
   \<and> fld v ''bytes_written'' = PInt 0 \<and> fld v ''write_calls'' = PInt 0 \<and> fld v ''close_attempts'' = PInt 1
   \<and> is_true (fld v ''close_confirmed'') \<and> fld v ''writer_copies_remaining'' = PInt 0"

definition abort_exit_ok :: "pyval \<Rightarrow> bool" where
  "abort_exit_ok v \<longleftrightarrow>
     exact v [''grant_bytes_received'', ''grant_eof'', ''exit_code'', ''stdout_eof'', ''stderr_eof'', ''status_eof'',
       ''payload_exec_calls'', ''unreaped'']
   \<and> fld v ''grant_bytes_received'' = PInt 0 \<and> is_true (fld v ''grant_eof'') \<and> fld v ''exit_code'' = PInt expected_exit
   \<and> is_true (fld v ''stdout_eof'') \<and> is_true (fld v ''stderr_eof'') \<and> is_true (fld v ''status_eof'')
   \<and> fld v ''payload_exec_calls'' = PInt 0 \<and> is_true (fld v ''unreaped'')"

definition reaped_ok :: "pyval \<Rightarrow> pyval \<Rightarrow> pyval \<Rightarrow> bool" where
  "reaped_ok v child_bytes authority \<longleftrightarrow>
     exact v [''child'', ''pidfd_token'', ''wnowait_observed'', ''reaped'', ''exit_code'', ''echild_after_reap'',
       ''unexpected_children'', ''survivor'']
   \<and> is_dict (fld v ''child'') \<and> child_bytes = PBytes (dumps (fld v ''child''))
   \<and> is_int (fld v ''pidfd_token'') \<and> pyeq (fld v ''pidfd_token'') authority
   \<and> is_true (fld v ''wnowait_observed'') \<and> is_true (fld v ''reaped'') \<and> fld v ''exit_code'' = PInt expected_exit
   \<and> is_true (fld v ''echild_after_reap'') \<and> fld v ''unexpected_children'' = PInt 0 \<and> is_false (fld v ''survivor'')"

section \<open>The run\<close>

abbreviation public :: "(ng_public \<Rightarrow> pyval) \<Rightarrow> pyval ng_prog" where
  "public f \<equiv> reads (\<lambda>s. f (ng_pub s))"

definition ng_preflight :: "ng_call backend \<Rightarrow> interference \<Rightarrow> nat \<Rightarrow> unit ng_prog" where
  "ng_preflight \<beta> \<mu> t =
     bnd (ng_phase \<beta> \<mu> t ''NEW'' ''PREFLIGHTING'' ''PREFLIGHTED'' ''preflight_model'' []) (\<lambda>v.
     demand (preflight_ok v) ''strict no-grant preflight'')"

definition ng_graph :: "ng_call backend \<Rightarrow> interference \<Rightarrow> nat \<Rightarrow> unit ng_prog" where
  "ng_graph \<beta> \<mu> t =
     bnd (public np_owner) (\<lambda>owner.
     bnd (ng_phase \<beta> \<mu> t ''PREFLIGHTED'' ''ALLOCATING_GRAPH'' ''GRAPH_READY'' ''allocate_fd_graph_model'' [owner]) (\<lambda>graph.
     bnd (reads ng_pub) (\<lambda>p.
     andthen (lift (graph_check graph (np_request p) (np_owner_bytes p)))
     (writes (\<lambda>s. (pub (np_graph_update (\<lambda>_. graph)) s)\<lparr>ng_graph_bytes := PBytes (dumps graph), ng_graph_enrolled := True\<rparr>)))))"

definition ng_intent :: "ng_call backend \<Rightarrow> interference \<Rightarrow> nat \<Rightarrow> unit ng_prog" where
  "ng_intent \<beta> \<mu> t =
     bnd (reads (\<lambda>s. s)) (\<lambda>s.
     bnd (ng_phase \<beta> \<mu> t ''GRAPH_READY'' ''PERSISTING_INTENT'' ''INTENT_VERIFIED'' ''persist_intent_model''
       [PBytes (ng_intent_bytes s), np_intent_digest (ng_pub s), np_deadline (ng_pub s)]) (\<lambda>v.
     bnd (public np_intent_digest) (\<lambda>digest. demand (intent_ok v digest) ''exact INTENT required before fork'')))"

definition ng_attempt_fork :: "ng \<Rightarrow> ng" where
  "ng_attempt_fork s =
     (pub (\<lambda>p. p\<lparr>np_attempted_fork := PBool True, np_child_may_exist := PBool True\<rparr>) s)\<lparr>ng_epoch := 1\<rparr>"

definition ng_fork :: "ng_call backend \<Rightarrow> interference \<Rightarrow> nat \<Rightarrow> unit ng_prog" where
  "ng_fork \<beta> \<mu> t =
     andthen (writes ng_attempt_fork)
     (bnd (reads ng_pub) (\<lambda>p.
     bnd (ng_phase \<beta> \<mu> t ''INTENT_VERIFIED'' ''FORKING_ABORT_CHILD'' ''CHILD_RECORDED'' ''fork_abort_once_model''
       [np_graph p, np_deadline p]) (\<lambda>child.
     bnd (public np_request) (\<lambda>request.
     andthen (demand (child_ok child request) ''exact abort-only child required'')
     (writes (\<lambda>s. (pub (np_child_update (\<lambda>_. child)) s)\<lparr>ng_child_bytes := PBytes (dumps child),
        ng_fork_token := fld child ''fork_token'', ng_child_enrolled := True\<rparr>))))))"

definition ng_bind :: "ng_call backend \<Rightarrow> interference \<Rightarrow> nat \<Rightarrow> unit ng_prog" where
  "ng_bind \<beta> \<mu> t =
     bnd (public np_child) (\<lambda>child.
     bnd (ng_phase \<beta> \<mu> t ''CHILD_RECORDED'' ''BINDING_PIDFD'' ''PIDFD_BOUND'' ''bind_pidfd_model'' [child]) (\<lambda>v.
     bnd (reads ng_child_bytes) (\<lambda>bytes.
     andthen (demand (bound_ok v bytes) ''exact abort child pidfd binding'')
     (writes (\<lambda>s. (pub (np_pidfd_update (\<lambda>_. fld v ''pidfd_token'')) s)\<lparr>ng_pidfd_authority := fld v ''pidfd_token'',
        ng_pidfd_enrolled := True\<rparr>)))))"

definition ng_ready :: "ng_call backend \<Rightarrow> interference \<Rightarrow> nat \<Rightarrow> unit ng_prog" where
  "ng_ready \<beta> \<mu> t =
     bnd (reads ng_pub) (\<lambda>p.
     bnd (ng_phase \<beta> \<mu> t ''PIDFD_BOUND'' ''OBSERVING_READY'' ''READY_CAPTURED'' ''observe_ready_model''
       [np_child p, np_pidfd p, np_deadline p]) (\<lambda>v. demand (ready_ok v) ''strict abort child readiness''))"

definition ng_close :: "ng_call backend \<Rightarrow> interference \<Rightarrow> nat \<Rightarrow> unit ng_prog" where
  "ng_close \<beta> \<mu> t =
     bnd (reads ng_pub) (\<lambda>p.
     bnd (ng_phase \<beta> \<mu> t ''READY_CAPTURED'' ''CLOSING_GRANT_WRITER'' ''GRANT_WRITER_CLOSED''
       ''close_grant_writer_no_write_model'' [np_child p, np_pidfd p]) (\<lambda>v.
     demand (closed_ok v) ''grant writer close-only proof''))"

definition ng_exit :: "ng_call backend \<Rightarrow> interference \<Rightarrow> nat \<Rightarrow> unit ng_prog" where
  "ng_exit \<beta> \<mu> t =
     bnd (reads ng_pub) (\<lambda>p.
     bnd (ng_phase \<beta> \<mu> t ''GRANT_WRITER_CLOSED'' ''OBSERVING_ABORT_EXIT'' ''ABORT_EXIT_OBSERVED'' ''observe_abort_exit_model''
       [np_child p, np_pidfd p, np_deadline p]) (\<lambda>v. demand (abort_exit_ok v) ''exact no-grant abort terminal evidence''))"

definition ng_reap :: "ng_call backend \<Rightarrow> interference \<Rightarrow> nat \<Rightarrow> unit ng_prog" where
  "ng_reap \<beta> \<mu> t =
     bnd (reads ng_pub) (\<lambda>p.
     bnd (ng_phase \<beta> \<mu> t ''ABORT_EXIT_OBSERVED'' ''REAPING_EXACT'' ''REAPED_EXACT'' ''reap_exact_model''
       [np_child p, np_pidfd p, PInt expected_exit]) (\<lambda>v.
     bnd (reads (\<lambda>s. s)) (\<lambda>s.
     andthen (demand (reaped_ok v (ng_child_bytes s) (ng_pidfd_authority s)) ''exact abort child reap evidence'')
     (andthen (writes (\<lambda>s. (pub (np_child_may_exist_update (\<lambda>_. PBool False)) s)\<lparr>ng_reaped := True\<rparr>))
     (andthen (ng_enter ''COMPLETE'')
     (ng_check t ''COMPLETE''))))))"

definition ng_result :: "ng \<Rightarrow> pyval" where
  "ng_result s =
     PDict [(''schema'', PInt 1), (''classification'', PStr ''MODEL_NO_GRANT_LAUNCHER_REAPED_CAPTURE_COMPLETE''),
            (''request_id'', fld (np_request (ng_pub s)) ''request_id''), (''intent_sha256'', np_intent_digest (ng_pub s)),
            (''child'', np_child (ng_pub s)), (''pidfd_token'', np_pidfd (ng_pub s)), (''grant_write_attempts'', PInt 0),
            (''grant_bytes_received'', PInt 0), (''payload_exec_calls'', PInt 0), (''expected_exit'', PInt expected_exit),
            (''runtime_authorized'', PBool False), (''storage_authorized'', PBool False), (''exec_proven'', PBool False)]"

definition ng_body :: "ng_call backend \<Rightarrow> interference \<Rightarrow> nat \<Rightarrow> pyval ng_prog" where
  "ng_body \<beta> \<mu> t =
     block [ng_preflight \<beta> \<mu> t, ng_graph \<beta> \<mu> t, ng_intent \<beta> \<mu> t, ng_fork \<beta> \<mu> t, ng_bind \<beta> \<mu> t, ng_ready \<beta> \<mu> t,
            ng_close \<beta> \<mu> t, ng_exit \<beta> \<mu> t, ng_reap \<beta> \<mu> t]
       (bnd (reads (\<lambda>s. s)) (\<lambda>s. ret (ng_result s)))"

definition ng_failed :: "unit ng_prog" where
  "ng_failed =
     bnd (public np_state) (\<lambda>state.
     if \<not> is_str state then raise (AttributeError ''startswith'')
     else if starts_with ''UNKNOWN'' (str_of state) then ret () else writes (poison ''RUN''))"

definition ng_run :: "ng_call backend \<Rightarrow> interference \<Rightarrow> nat \<Rightarrow> pyval ng_prog" where
  "ng_run \<beta> \<mu> t = on_error (ng_body \<beta> \<mu> t) (\<lambda>_. ng_failed)"


section \<open>The calls of a run\<close>

fun call_name :: "ng_call \<Rightarrow> string" where
  "call_name (NgCall name args) = name"

definition clocked :: "string \<Rightarrow> string list" where
  "clocked name = [''monotonic_ns_model'', name, ''monotonic_ns_model'']"

text \<open>Every method once, in the order of the surface, each between two readings of the clock\<close>

definition ng_script :: "string list" where
  "ng_script = concat (map clocked (tl ng_methods))"

lemma emits_interfered_call: "emits f [f q] (interfered_call \<beta> \<mu> q)"
  by (auto simp: emits_def interfered_call_def)

lemma emits_invoke: "emits call_name [name] (ng_invoke \<beta> \<mu> name args)"
  unfolding ng_invoke_def
  using emits_interfered_call [where f = call_name and q = "NgCall name args"] by (auto intro!: emits_intros)

lemma emits_tick: "emits call_name [''monotonic_ns_model''] (ng_tick \<beta> \<mu>)"
  unfolding ng_tick_def by (rule emits_intros emits_invoke refl | simp)+

lemma emits_check: "emits call_name [] (ng_check thread state)"
  unfolding ng_check_def by (rule emits_intros refl | simp)+

lemma emits_phase: "emits call_name (clocked name) (ng_phase \<beta> \<mu> thread ready busy after name args)"
proof -
  have "emits call_name (clocked name) (ng_phase_body \<beta> \<mu> thread ready busy after name args)"
    unfolding ng_phase_body_def by (rule emits_intros emits_invoke emits_tick emits_check refl | simp add: clocked_def)+
  then have "emits call_name (clocked name)
     (on_error (ng_phase_body \<beta> \<mu> thread ready busy after name args) (\<lambda>_. writes (poison busy)))"
    by (rule emits_on_error) (simp add: writes_def)
  moreover have "emits call_name (clocked name) (andthen (writes (poison busy)) (raise (Refusal msg)))" for msg
    by (rule emits_stop) (simp_all add: andthen_def bnd_def writes_def raise_def)
  ultimately show ?thesis
    unfolding ng_phase_def by (intro emits_bndI [OF emits_statements(5)] emits_if) auto
qed


lemma emits_segments:
  "emits call_name (clocked ''preflight_model'') (ng_preflight \<beta> \<mu> t)"
  "emits call_name (clocked ''allocate_fd_graph_model'') (ng_graph \<beta> \<mu> t)"
  "emits call_name (clocked ''persist_intent_model'') (ng_intent \<beta> \<mu> t)"
  "emits call_name (clocked ''fork_abort_once_model'') (ng_fork \<beta> \<mu> t)"
  "emits call_name (clocked ''bind_pidfd_model'') (ng_bind \<beta> \<mu> t)"
  "emits call_name (clocked ''observe_ready_model'') (ng_ready \<beta> \<mu> t)"
  "emits call_name (clocked ''close_grant_writer_no_write_model'') (ng_close \<beta> \<mu> t)"
  "emits call_name (clocked ''observe_abort_exit_model'') (ng_exit \<beta> \<mu> t)"
  "emits call_name (clocked ''reap_exact_model'') (ng_reap \<beta> \<mu> t)"
  unfolding ng_preflight_def ng_graph_def ng_intent_def ng_fork_def ng_bind_def ng_ready_def ng_close_def ng_exit_def
    ng_reap_def
  by (rule emits_intros emits_phase emits_check refl | simp only: append_Nil append_Nil2)+

lemma emits_run: "emits call_name ng_script (ng_run \<beta> \<mu> t)"
proof -
  have "emits call_name (clocked ''preflight_model'' @ clocked ''allocate_fd_graph_model'' @ clocked ''persist_intent_model''
        @ clocked ''fork_abort_once_model'' @ clocked ''bind_pidfd_model'' @ clocked ''observe_ready_model''
        @ clocked ''close_grant_writer_no_write_model'' @ clocked ''observe_abort_exit_model'' @ clocked ''reap_exact_model'' @ [])
      (ng_body \<beta> \<mu> t)"
    unfolding ng_body_def
    by (intro emits_blockI emits_segments, simp only: block.simps, (rule emits_intros refl | simp only: append_Nil)+)
  then have "emits call_name ng_script (ng_body \<beta> \<mu> t)" by (simp add: ng_script_def ng_methods_def)
  moreover have "snd (snd (ng_failed \<sigma>)) = snd \<sigma>" for \<sigma>
    by (simp add: ng_failed_def bnd_def reads_def raise_def ret_def writes_def)
  ultimately show ?thesis unfolding ng_run_def by (intro emits_on_error)
qed

section \<open>What each phase leaves of the sealed state\<close>

definition poisoned :: "ng \<Rightarrow> bool" where
  "poisoned s \<longleftrightarrow>
     np_state (ng_pub s) = PStr (if 0 < ng_epoch s \<and> \<not> ng_reaped s then ''UNKNOWN_SURVIVOR'' else ''UNKNOWN'')"

text \<open>Facts that the public part, the clock and the calls of one method do not change\<close>

definition sealed_fact :: "string \<Rightarrow> (ng \<times> ng_call hist \<Rightarrow> bool) \<Rightarrow> bool" where
  "sealed_fact name I \<longleftrightarrow>
     (\<forall>s h. I (s, h) \<longrightarrow> (\<forall>f. I (pub f s, h)) \<and> (\<forall>v. I (s\<lparr>ng_clock := v\<rparr>, h))
        \<and> (\<forall>args r. I (s, h @ [(NgCall name args, r)]) \<and> I (s, h @ [(NgCall ''monotonic_ns_model'' [], r)])))"

lemma sealed_factD:
  "sealed_fact name I \<Longrightarrow> I (s, h) \<Longrightarrow> I (pub f s, h)"
  "sealed_fact name I \<Longrightarrow> I (s, h) \<Longrightarrow> I (s\<lparr>ng_clock := v\<rparr>, h)"
  "sealed_fact name I \<Longrightarrow> I (s, h) \<Longrightarrow> I (s, h @ [(NgCall name args, r)])"
  "sealed_fact name I \<Longrightarrow> I (s, h) \<Longrightarrow> I (s, h @ [(NgCall ''monotonic_ns_model'' [], r)])"
  by (auto simp: sealed_fact_def)

lemma preserves_interfered_call:
  "(\<And>s h r f. I (s, h) \<Longrightarrow> I (pub f s, h @ [(q, r)])) \<Longrightarrow> preserves I (interfered_call \<beta> \<mu> q)"
  by (auto simp: preserves_def wp_def interfered_call_def split: sum.splits)

lemma preserves_invoke:
  assumes "sealed_fact name I"
  shows "preserves I (ng_invoke \<beta> \<mu> name args)" "preserves I (ng_invoke \<beta> \<mu> ''monotonic_ns_model'' [])"
  unfolding ng_invoke_def using sealed_factD [OF assms]
  by (intro preserves_intros preserves_interfered_call; simp)+

lemma preserves_phase:
  assumes "sealed_fact name I"
  shows "preserves I (ng_phase \<beta> \<mu> thread ready busy after name args)"
proof -
  have enter: "preserves I (writes (pub f))" for f
    using sealed_factD(1) [OF assms] by (rule preserves_writes)
  have poison: "preserves I (writes (poison phase))" for phase
    unfolding poison_def using sealed_factD(1) [OF assms] by (rule preserves_writes)
  have tick: "preserves I (ng_tick \<beta> \<mu>)"
    unfolding ng_tick_def using sealed_factD(2) [OF assms] preserves_invoke(2) [OF assms]
    by (intro preserves_intros preserves_writes) auto
  show ?thesis
    unfolding ng_phase_def ng_phase_body_def ng_check_def
    by (intro preserves_intros preserves_invoke(1) [OF assms] enter poison tick)
qed


lemma wp_interfered_call [wp_simps]:
  "wp (interfered_call \<beta> \<mu> q) Q E =
     (\<lambda>(s, h). case \<beta> h q of Inl e \<Rightarrow> E e (pub (\<mu> h q) s, h @ [(q, Inl e)]) | Inr v \<Rightarrow> Q v (pub (\<mu> h q) s, h @ [(q, Inr v)]))"
  by (simp add: wp_def interfered_call_def fun_eq_iff split: sum.splits)

lemma poisoned_poison [simp]: "poisoned (poison phase s)"
  by (simp add: poisoned_def poison_def pub_def)

lemma ng_validate_state: "ng_validate t state s = Inr () \<Longrightarrow> np_state (ng_pub s) = PStr state"
  by (auto simp: ng_validate_def authority_ok_def Let_def checks_ok elim!: rbindE)

lemma lasting_phase_rest:
  "preserves (\<lambda>(s, h). F h) (ng_tick \<beta> \<mu>)" if "lasting F"
  unfolding ng_tick_def ng_invoke_def using lastingD [OF that]
  by (intro preserves_intros preserves_interfered_call preserves_writes) auto

text \<open>A phase that returns leaves a valid controller and its answer in the history; one that raises, a
  poisoned controller.\<close>

lemma wp_phase:
  "wp (ng_phase \<beta> \<mu> t ready busy after name args)
     (\<lambda>v (s, h). ng_validate t after s = Inr () \<and> (NgCall name args, Inr v) \<in> set h)
     (\<lambda>_ (s, h). poisoned s) \<sigma>"
proof -
  let ?called = "\<lambda>v. \<lambda>(s :: ng, h). (NgCall name args, Inr v) \<in> set h"
  have tick: "?called v \<tau> \<Longrightarrow> wp (ng_tick \<beta> \<mu>) (\<lambda>_. ?called v) (\<lambda>_ _. True) \<tau>" for v \<tau>
    using preservesD [OF lasting_phase_rest [OF lasting_mem]] by (rule wp_mono) auto
  have after_call: "wp (andthen (lift (builtin_tree label v))
       (bnd (reads (\<lambda>s. np_state (ng_pub s))) (\<lambda>state.
       andthen (demand (state = PStr busy) msg)
       (andthen (ng_check t busy) (andthen (ng_tick \<beta> \<mu>) (andthen (ng_check t busy)
       (andthen (ng_enter after) (andthen (ng_check t after) (ret v)))))))))
     (\<lambda>v (s, h). ng_validate t after s = Inr () \<and> (NgCall name args, Inr v) \<in> set h) (\<lambda>_ _. True) \<tau>"
    if "?called v \<tau>" for v label msg \<tau>
  proof -
    have last: "wp (andthen (ng_check t busy) (andthen (ng_enter after) (andthen (ng_check t after) (ret v))))
      (\<lambda>v (s, h). ng_validate t after s = Inr () \<and> (NgCall name args, Inr v) \<in> set h) (\<lambda>_ _. True) \<upsilon>"
      if "?called v \<upsilon>" for \<upsilon>
      using that by (cases \<upsilon>) (simp add: ng_check_def wp_simps split: sum.splits)
    show ?thesis
      using that wp_andthenI [OF tick last]
      by (cases \<tau>) (simp add: ng_check_def wp_andthen wp_bnd wp_reads wp_lift wp_demand split: sum.splits)
  qed
  have invoke: "wp (ng_invoke \<beta> \<mu> name args) (\<lambda>v. ?called v) (\<lambda>_ _. True) \<tau>" for \<tau>
    by (cases \<tau>) (simp add: ng_invoke_def wp_simps split: sum.splits)
  have "wp (ng_phase_body \<beta> \<mu> t ready busy after name args)
     (\<lambda>v (s, h). ng_validate t after s = Inr () \<and> (NgCall name args, Inr v) \<in> set h) (\<lambda>_ _. True) \<tau>" for \<tau>
    unfolding ng_phase_body_def
    by (intro wp_andthenI [where R = "\<lambda>_. True"] wp_bndI [OF invoke] after_call) (simp_all add: wp_true)
  then show ?thesis
    unfolding ng_phase_def wp_bnd wp_reads by (cases \<sigma>) (auto simp: wp_on_error wp_writes wp_andthen wp_raise split_def)
qed


lemma wp_phase_keeps:
  assumes "sealed_fact name I" "I \<sigma>"
  shows "wp (ng_phase \<beta> \<mu> t ready busy after name args)
     (\<lambda>v \<tau>. I \<tau> \<and> ng_validate t after (fst \<tau>) = Inr () \<and> (NgCall name args, Inr v) \<in> set (snd \<tau>))
     (\<lambda>_ \<tau>. I \<tau> \<and> poisoned (fst \<tau>)) \<sigma>"
  using wp_conj [OF preservesD [OF preserves_phase [OF assms(1)] assms(2)] wp_phase]
  by (rule wp_mono) (auto simp: split_def)

section \<open>The fork and the reap\<close>

text \<open>The answers the two rest on: the store's receipt for the sealed INTENT bytes, and the proof that the
  child was reaped\<close>

definition intent_stored :: "string \<Rightarrow> ng_call hist \<Rightarrow> bool" where
  "intent_stored raw h \<longleftrightarrow>
     (\<exists>args v. (NgCall ''persist_intent_model'' (PBytes raw # args), Inr v) \<in> set h \<and> intent_ok v (PStr (sha256 raw)))"

definition reap_proven :: "ng_call hist \<Rightarrow> bool" where
  "reap_proven h \<longleftrightarrow>
     (\<exists>args v child token. (NgCall ''reap_exact_model'' args, Inr v) \<in> set h \<and> reaped_ok v child token)"

definition fork_tried :: "ng_call hist \<Rightarrow> bool" where
  "fork_tried h \<longleftrightarrow> ''fork_abort_once_model'' \<in> set (map call_name (asked h))"

definition fork_sound :: "string \<Rightarrow> bool \<Rightarrow> ng \<times> ng_call hist \<Rightarrow> bool" where
  "fork_sound raw r = (\<lambda>(s, h).
     ng_intent_bytes s = raw \<and> (fork_tried h \<longrightarrow> ng_epoch s = 1 \<and> intent_stored raw h)
   \<and> (ng_reaped s \<longrightarrow> r \<or> reap_proven h))"

definition forking :: "string \<Rightarrow> bool \<Rightarrow> ng \<times> ng_call hist \<Rightarrow> bool" where
  "forking raw r = (\<lambda>(s, h). fork_sound raw r (s, h) \<and> ng_epoch s = 1 \<and> intent_stored raw h)"

lemma pub_sealed [simp]:
  "ng_intent_bytes (pub f s) = ng_intent_bytes s" "ng_epoch (pub f s) = ng_epoch s" "ng_reaped (pub f s) = ng_reaped s"
  by (simp_all add: pub_def)

lemma grows [simp]:
  "intent_stored raw h \<Longrightarrow> intent_stored raw (h @ t)" "reap_proven h \<Longrightarrow> reap_proven (h @ t)"
  by (auto simp: intent_stored_def reap_proven_def)

lemma fork_tried_snoc [simp]: "fork_tried (h @ [(NgCall name args, r)]) \<longleftrightarrow> fork_tried h \<or> name = ''fork_abort_once_model''"
  by (auto simp: fork_tried_def)

lemma sealed_fork_sound: "name \<noteq> ''fork_abort_once_model'' \<Longrightarrow> sealed_fact name (fork_sound raw r)"
  by (auto simp: sealed_fact_def fork_sound_def)

lemma sealed_forking: "sealed_fact name (forking raw r)"
  by (auto simp: sealed_fact_def forking_def fork_sound_def)

definition ended_badly :: "string \<Rightarrow> bool \<Rightarrow> ng \<times> ng_call hist \<Rightarrow> bool" where
  "ended_badly raw r \<tau> \<longleftrightarrow>
     fork_sound raw r \<tau> \<and> (poisoned (fst \<tau>) \<or> (\<exists>x. np_state (ng_pub (fst \<tau>)) = PStr x \<and> \<not> starts_with ''UNKNOWN'' x))"

lemma ended_badlyI:
  "fork_sound raw r \<tau> \<Longrightarrow> poisoned (fst \<tau>) \<Longrightarrow> ended_badly raw r \<tau>"
  "fork_sound raw r \<tau> \<Longrightarrow> ng_validate t x (fst \<tau>) = Inr () \<Longrightarrow> \<not> starts_with ''UNKNOWN'' x \<Longrightarrow> ended_badly raw r \<tau>"
  "fork_sound raw r (s, h) \<Longrightarrow> ng_validate t x s = Inr () \<Longrightarrow> \<not> starts_with ''UNKNOWN'' x \<Longrightarrow> ended_badly raw r (s, h)"
  by (auto simp: ended_badly_def dest: ng_validate_state)

lemma forking_sound: "forking raw r \<tau> \<Longrightarrow> fork_sound raw r \<tau>"
  by (auto simp: forking_def)

text \<open>The phases after the fork, whose evidence updates only fields outside the facts\<close>

lemma wp_phase_sound:
  assumes "fork_sound raw r \<sigma>" "name \<noteq> ''fork_abort_once_model''"
  shows "wp (ng_phase \<beta> \<mu> t ready busy after name args)
     (\<lambda>v \<tau>. fork_sound raw r \<tau> \<and> ng_validate t after (fst \<tau>) = Inr () \<and> (NgCall name args, Inr v) \<in> set (snd \<tau>))
     (\<lambda>_. ended_badly raw r) \<sigma>"
  using wp_phase_keeps [OF sealed_fork_sound [OF assms(2)] assms(1)] by (rule wp_mono) (auto intro: ended_badlyI)

lemma wp_phase_forking:
  assumes "forking raw r \<sigma>"
  shows "wp (ng_phase \<beta> \<mu> t ready busy after name args)
     (\<lambda>v \<tau>. forking raw r \<tau> \<and> ng_validate t after (fst \<tau>) = Inr () \<and> (NgCall name args, Inr v) \<in> set (snd \<tau>))
     (\<lambda>_. ended_badly raw r) \<sigma>"
  using wp_phase_keeps [OF sealed_forking assms] by (rule wp_mono) (auto intro: ended_badlyI forking_sound)


lemma fork_sound_upd [simp]:
  "fork_sound raw r (pub f s, h) = fork_sound raw r (s, h)"
  "fork_sound raw r (s\<lparr>ng_graph_bytes := gb, ng_graph_enrolled := ge\<rparr>, h) = fork_sound raw r (s, h)"
  by (simp_all add: fork_sound_def)

lemma forking_upd [simp]:
  "forking raw r (pub f s, h) = forking raw r (s, h)"
  "forking raw r (s\<lparr>ng_child_bytes := cb, ng_fork_token := ft, ng_child_enrolled := ce\<rparr>, h) = forking raw r (s, h)"
  "forking raw r (s\<lparr>ng_pidfd_authority := pa, ng_pidfd_enrolled := pe\<rparr>, h) = forking raw r (s, h)"
  by (simp_all add: forking_def fork_sound_def)

lemma ng_wp_preflight: "fork_sound raw r \<sigma> \<Longrightarrow> wp (ng_preflight \<beta> \<mu> t) (\<lambda>_. fork_sound raw r) (\<lambda>_. ended_badly raw r) \<sigma>"
  unfolding ng_preflight_def wp_bnd wp_demand
  by (erule wp_mono [OF wp_phase_sound]) (auto simp: ended_badly_def starts_with_def dest!: ng_validate_state)

lemma ng_wp_graph: "fork_sound raw r \<sigma> \<Longrightarrow> wp (ng_graph \<beta> \<mu> t) (\<lambda>_. fork_sound raw r) (\<lambda>_. ended_badly raw r) \<sigma>"
  unfolding ng_graph_def wp_bnd wp_reads wp_andthen wp_lift wp_writes
  by (cases \<sigma>, simp only: prod.case, erule wp_mono [OF wp_phase_sound])
    (auto simp: ended_badly_def starts_with_def dest!: ng_validate_state split: sum.splits)

lemma validate_intent_digest:
  "ng_validate t x s = Inr () \<Longrightarrow> np_intent_digest (ng_pub s) = PStr (sha256 (ng_intent_bytes s))"
  by (auto simp: ng_validate_def frozen_ok_def Let_def checks_ok elim!: rbindE)

lemma validated:
  "ng_validate t x s = Inr () \<Longrightarrow>
   np_state (ng_pub s) = PStr x \<and> np_intent_digest (ng_pub s) = PStr (sha256 (ng_intent_bytes s))"
  by (simp add: ng_validate_state validate_intent_digest)

lemma ng_wp_intent:
  "fork_sound raw r \<sigma> \<Longrightarrow>
   wp (ng_intent \<beta> \<mu> t) (\<lambda>_ \<tau>. fork_sound raw r \<tau> \<and> intent_stored raw (snd \<tau>)) (\<lambda>_. ended_badly raw r) \<sigma>"
  unfolding ng_intent_def wp_bnd wp_reads wp_demand
  apply (cases \<sigma>, simp only: prod.case)
  apply (rule wp_mono [OF wp_phase_sound], assumption, simp)
   apply (auto simp: ended_badly_def starts_with_def dest!: validated)+
  apply (auto simp: intent_stored_def fork_sound_def)
  done

lemma ng_wp_fork:
  "fork_sound raw r \<sigma> \<Longrightarrow> intent_stored raw (snd \<sigma>) \<Longrightarrow>
   wp (ng_fork \<beta> \<mu> t) (\<lambda>_. forking raw r) (\<lambda>_. ended_badly raw r) \<sigma>"
  unfolding ng_fork_def wp_andthen wp_bnd wp_reads wp_demand wp_writes
  apply (cases \<sigma>, simp only: prod.case)
  apply (rule wp_mono [OF wp_phase_forking [where raw = raw and r = r]])
    apply (auto simp: forking_def fork_sound_def ng_attempt_fork_def)[1]
   apply (auto simp: ended_badly_def starts_with_def forking_sound dest!: ng_validate_state)
  done

lemma ng_wp_bind: "forking raw r \<sigma> \<Longrightarrow> wp (ng_bind \<beta> \<mu> t) (\<lambda>_. forking raw r) (\<lambda>_. ended_badly raw r) \<sigma>"
  unfolding ng_bind_def wp_bnd wp_reads wp_andthen wp_demand wp_writes
  by (cases \<sigma>, simp only: prod.case, erule wp_mono [OF wp_phase_forking])
    (auto simp: ended_badly_def starts_with_def forking_sound dest!: ng_validate_state)

lemma ng_wp_ready: "forking raw r \<sigma> \<Longrightarrow> wp (ng_ready \<beta> \<mu> t) (\<lambda>_. forking raw r) (\<lambda>_. ended_badly raw r) \<sigma>"
  unfolding ng_ready_def wp_bnd wp_reads wp_demand
  by (cases \<sigma>, simp only: prod.case, erule wp_mono [OF wp_phase_forking])
    (auto simp: ended_badly_def starts_with_def forking_sound dest!: ng_validate_state)

lemma ng_wp_close: "forking raw r \<sigma> \<Longrightarrow> wp (ng_close \<beta> \<mu> t) (\<lambda>_. forking raw r) (\<lambda>_. ended_badly raw r) \<sigma>"
  unfolding ng_close_def wp_bnd wp_reads wp_demand
  by (cases \<sigma>, simp only: prod.case, erule wp_mono [OF wp_phase_forking])
    (auto simp: ended_badly_def starts_with_def forking_sound dest!: ng_validate_state)

lemma ng_wp_exit: "forking raw r \<sigma> \<Longrightarrow> wp (ng_exit \<beta> \<mu> t) (\<lambda>_. forking raw r) (\<lambda>_. ended_badly raw r) \<sigma>"
  unfolding ng_exit_def wp_bnd wp_reads wp_demand
  by (cases \<sigma>, simp only: prod.case, erule wp_mono [OF wp_phase_forking])
    (auto simp: ended_badly_def starts_with_def forking_sound dest!: ng_validate_state)

definition ended_well :: "string \<Rightarrow> ng \<times> ng_call hist \<Rightarrow> bool" where
  "ended_well raw = (\<lambda>(s, h).
     np_state (ng_pub s) = PStr ''COMPLETE'' \<and> ng_reaped s \<and> np_child_may_exist (ng_pub s) = PBool False
   \<and> intent_stored raw h \<and> reap_proven h)"


lemma reaped_proven:
  "reaped_ok v child token \<Longrightarrow> (NgCall ''reap_exact_model'' args, Inr v) \<in> set h \<Longrightarrow> reap_proven h"
  by (auto simp: reap_proven_def)

lemma ng_wp_reap: "forking raw r \<sigma> \<Longrightarrow> wp (ng_reap \<beta> \<mu> t) (\<lambda>_. ended_well raw) (\<lambda>_. ended_badly raw r) \<sigma>"
  unfolding ng_reap_def wp_bnd wp_reads wp_andthen wp_demand wp_writes ng_check_def wp_lift
  apply (cases \<sigma>, simp only: prod.case, erule wp_mono [OF wp_phase_forking])
  subgoal for s h v \<tau>
    by (cases \<tau>, cases "reaped_ok v (ng_child_bytes (fst \<tau>)) (ng_pidfd_authority (fst \<tau>))")
      (auto simp: ended_badly_def ended_well_def forking_def fork_sound_def starts_with_def pub_def
        dest: ng_validate_state reaped_proven split: sum.splits)
  by assumption

lemma ng_wp_body:
  "fork_sound raw r \<sigma> \<Longrightarrow> wp (ng_body \<beta> \<mu> t) (\<lambda>_. ended_well raw) (\<lambda>_. ended_badly raw r) \<sigma>"
  unfolding ng_body_def
  apply (intro wp_blockI [OF ng_wp_preflight] wp_blockI [OF ng_wp_graph] wp_blockI [OF ng_wp_intent] wp_blockI [OF ng_wp_fork]
      wp_blockI [OF ng_wp_bind] wp_blockI [OF ng_wp_ready] wp_blockI [OF ng_wp_close] wp_blockI [OF ng_wp_exit] wp_blockI [OF ng_wp_reap])
  apply (assumption | erule conjunct1 conjunct2)+
  apply (simp add: wp_simps split_def)
  done


lemma ng_wp_run:
  "fork_sound raw r \<sigma> \<Longrightarrow>
   wp (ng_run \<beta> \<mu> t) (\<lambda>_. ended_well raw) (\<lambda>_ \<tau>. fork_sound raw r \<tau> \<and> poisoned (fst \<tau>)) \<sigma>"
  unfolding ng_run_def wp_on_error
  apply (erule wp_mono [OF ng_wp_body], assumption)
  subgoal for e \<tau>
    by (cases \<tau>)
      (auto simp: ended_badly_def ng_failed_def wp_simps poison_def starts_with_def poisoned_def fork_sound_def pub_def)
  done

lemma run_cases:
  obtains v s' h where "ng_run \<beta> \<mu> t (s, []) = (Inr v, s', h)" "ended_well (ng_intent_bytes s) (s', h)"
      "map call_name (asked h) = ng_script" "list_all (\<lambda>qr. \<not> isl (snd qr)) h"
  | e s' h rest where "ng_run \<beta> \<mu> t (s, []) = (Inl e, s', h)" "fork_sound (ng_intent_bytes s) (ng_reaped s) (s', h)"
      "poisoned s'" "ng_script = map call_name (asked h) @ rest" "list_all (\<lambda>qr. \<not> isl (snd qr)) (butlast h)"
proof -
  obtain x s' h where run: "ng_run \<beta> \<mu> t (s, []) = (x, s', h)" by (metis prod_cases3)
  have "fork_sound (ng_intent_bytes s) (ng_reaped s) (s, [])" by (simp add: fork_sound_def fork_tried_def)
  note sound = ng_wp_run [OF this, of \<beta> \<mu> t, unfolded wp_def run]
  have script: "if isl x then (\<exists>rest. ng_script = map call_name (asked h) @ rest) \<and> list_all (\<lambda>qr. \<not> isl (snd qr)) (butlast h)
      else map call_name (asked h) = ng_script \<and> list_all (\<lambda>qr. \<not> isl (snd qr)) h"
    using emits_run [of \<beta> \<mu> t, unfolded emits_def, rule_format, of "(s, [])"] by (simp add: run asked_def)
  show thesis
    using sound script run that by (cases x) auto
qed

text \<open>
  C8: For every backend and every interference of its callbacks, a run of the no-grant controller
  calls the nine methods in their order and at most once each, each call between two readings of
  the clock; a run that fails has made an initial part of these calls, of which only the last can
  have raised. The child is forked only after the store has answered the request to persist the
  INTENT bytes sealed at construction with a receipt for their digest, and a run that returns has
  in addition the proof that a child exited with the abort code and was reaped.
\<close>

theorem no_grant_fork_backed:
  "case ng_run \<beta> \<mu> t (s, []) of
     (Inr v, s', h) \<Rightarrow> map call_name (asked h) = ng_script \<and> list_all (\<lambda>qr. \<not> isl (snd qr)) h
       \<and> intent_stored (ng_intent_bytes s) h \<and> reap_proven h
   | (Inl e, s', h) \<Rightarrow> (\<exists>rest. ng_script = map call_name (asked h) @ rest) \<and> list_all (\<lambda>qr. \<not> isl (snd qr)) (butlast h)
       \<and> (if fork_tried h then intent_stored (ng_intent_bytes s) h else True)"
  by (rule run_cases [of \<beta> \<mu> t s]) (auto simp: ended_well_def fork_sound_def)

text \<open>
  C9: However a run of the no-grant controller fails, and whatever the callbacks did to its
  attributes, it ends poisoned: in \<^verbatim>\<open>UNKNOWN_SURVIVOR\<close> exactly when the fork epoch is consumed and
  no reap is proven, in \<^verbatim>\<open>UNKNOWN\<close> otherwise. The epoch is consumed whenever the fork was called,
  and a reap counts as proven only on evidence in the history (or if it was before the run).
  A run that returns is complete and reaped.
\<close>

theorem no_grant_failure_classified:
  "case ng_run \<beta> \<mu> t (s, []) of
     (Inr v, s', h) \<Rightarrow> np_state (ng_pub s') = PStr ''COMPLETE'' \<and> np_child_may_exist (ng_pub s') = PBool False \<and> ng_reaped s'
   | (Inl e, s', h) \<Rightarrow>
       np_state (ng_pub s') = PStr (if 0 < ng_epoch s' \<and> \<not> ng_reaped s' then ''UNKNOWN_SURVIVOR'' else ''UNKNOWN'')
     \<and> (if fork_tried h then ng_epoch s' = 1 else True)
     \<and> (if ng_reaped s' then ng_reaped s \<or> reap_proven h else True)"
  by (rule run_cases [of \<beta> \<mu> t s]) (auto simp: ended_well_def fork_sound_def poisoned_def)


text \<open>
  Neither \<^verbatim>\<open>owner\<close> nor \<^verbatim>\<open>_owner_bytes\<close> is sealed: a callback that replaces both consistently by
  any owner of the same boot leaves a controller its own validation accepts.
\<close>

lemma owner_replaceable:
  assumes "ng_validate t state s = Inr ()"
    and "validate_v2_request (np_request (ng_pub s)) = Inr current"
    and "builtin_tree ''stored no-grant owner'' owner = Inr ()"
    and "sup_validate_owner owner (fld current ''boot_id'') = Inr owner'"
  shows "ng_validate t state (pub (\<lambda>p. p\<lparr>np_owner := owner, np_owner_bytes := PBytes (dumps owner')\<rparr>) s) = Inr ()"
proof -
  let ?s = "pub (\<lambda>p. p\<lparr>np_owner := owner, np_owner_bytes := PBytes (dumps owner')\<rparr>) s"
  from assms(1,2) obtain old where "authority_ok t state s" "frozen_ok s current old" "graph_kept s = Inr ()"
      "child_kept s = Inr ()" "pidfd_kept s = Inr ()"
    by (auto simp: ng_validate_def checks_ok elim!: rbindE)
  moreover have "authority_ok t state ?s = authority_ok t state s" "graph_kept ?s = graph_kept s"
      "child_kept ?s = child_kept s" "pidfd_kept ?s = pidfd_kept s"
    by (simp_all add: authority_ok_def Let_def pub_def graph_kept_def child_kept_def pidfd_kept_def)
  moreover from \<open>frozen_ok s current old\<close> have "frozen_ok ?s current owner'"
    by (simp add: frozen_ok_def Let_def pub_def)
  moreover have "np_request (ng_pub ?s) = np_request (ng_pub s)" "np_owner (ng_pub ?s) = owner" by (simp_all add: pub_def)
  ultimately show ?thesis using assms(2-4) by (simp add: ng_validate_def checks_need checks.simps)
qed

end
