(* ===== verification/RegistrationService.thy ===== *)
theory RegistrationService
  imports PyEffect PyText
begin

text \<open>
  The client of the inventory socket, \<^verbatim>\<open>usr/libexec/pve-sharedlvmthin/sharedlvmthin_registration_service.py\<close>.
  The socket and the clock are the dependency. Times are in milliseconds (so \<^verbatim>\<open>max(0.1, _)\<close> is
  \<open>max 100 _\<close>) and exact. \<^verbatim>\<open>InventoryUnavailable(message, code)\<close> is a refusal whose text has the code in
  brackets. \<^verbatim>\<open>json.loads\<close> is the parameter \<open>scan\<close>; which foreign exceptions are an \<^verbatim>\<open>OSError\<close> is the
  parameter \<open>os_error\<close>.
\<close>

section \<open>Who may discover\<close>

definition may_discover :: "pyval \<Rightarrow> pyval \<Rightarrow> string list \<Rightarrow> bool" where
  "may_discover session permissions required \<longleftrightarrow>
     is_dict session \<and> truthy (fld session ''pve_ticket'') \<and> is_dict permissions
   \<and> (fld session ''user'' = PStr ''root@pam''
      \<or> (let root = (if is_dict (fld permissions ''/'') then fld permissions ''/'' else permissions) in
         list_all (\<lambda>k. truthy (fld root k)) required))"

section \<open>The client\<close>

datatype inv_call =
    Clock
  | NewSocket
  | SetTimeout int
  | Connect string
  | Recv nat
  | CloseSocket

record inv_client =
  ic_locked :: bool
  ic_cached :: pyval
  ic_cached_at :: int

type_synonym 'a inv_prog = "(inv_client, inv_call, 'a) prog"

definition socket_path :: string where "socket_path = ''/run/pve-sharedlvmthin-registration.sock''"

definition max_bytes :: nat where "max_bytes = 1024 * 1024"

definition unavailable :: "string \<Rightarrow> string \<Rightarrow> exc" where
  "unavailable message code = Refusal (message @ '' ['' @ code @ '']'')"

definition inv_init :: inv_client where
  "inv_init = \<lparr>ic_locked = False, ic_cached = PNone, ic_cached_at = 0\<rparr>"

definition clock :: "inv_call backend \<Rightarrow> int inv_prog" where
  "clock \<beta> = bnd (call \<beta> Clock) (\<lambda>v. case v of PInt t \<Rightarrow> ret t | _ \<Rightarrow> raise (TypeError ''clock''))"

definition effect :: "inv_call backend \<Rightarrow> inv_call \<Rightarrow> unit inv_prog" where
  "effect \<beta> q = bnd (call \<beta> q) (\<lambda>_. ret ())"

definition recv_chunk :: "inv_call backend \<Rightarrow> nat \<Rightarrow> string inv_prog" where
  "recv_chunk \<beta> got =
     bnd (call \<beta> (Recv (min 65536 (max_bytes + 1 - got)))) (\<lambda>v.
     case v of PBytes chunk \<Rightarrow> ret chunk | _ \<Rightarrow> if truthy v then raise (TypeError ''recv'') else ret [])"

text \<open>One round of the loop: the next chunk, empty at the end of the stream\<close>

definition recv_round :: "inv_call backend \<Rightarrow> int \<Rightarrow> nat \<Rightarrow> string inv_prog" where
  "recv_round \<beta> deadline got =
     bnd (clock \<beta>) (\<lambda>t.
     if deadline - t \<le> 0 then raise (unavailable ''inventory timed out'' ''unavailable'')
     else andthen (effect \<beta> (SetTimeout (deadline - t))) (recv_chunk \<beta> got))"

text \<open>
  Every round that goes on adds at least a byte, and no round goes on above the bound, so the loop
  ends for every socket.
\<close>

function recv_loop :: "inv_call backend \<Rightarrow> int \<Rightarrow> string \<Rightarrow> string inv_prog" where
  "recv_loop \<beta> deadline content \<sigma> =
     (case recv_round \<beta> deadline (length content) \<sigma> of
        (Inl e, \<tau>) \<Rightarrow> (Inl e, \<tau>)
      | (Inr chunk, \<tau>) \<Rightarrow>
          if chunk = [] then (Inr content, \<tau>)
          else if max_bytes < length (content @ chunk) then
            (Inl (unavailable ''inventory response too large'' ''unavailable''), \<tau>)
          else recv_loop \<beta> deadline (content @ chunk) \<tau>)"
  by pat_completeness auto
termination
  by (relation "measure (\<lambda>(\<beta>, deadline, content, \<sigma>). Suc max_bytes - length content)")
    (auto simp: length_greater_0_conv [symmetric] simp del: length_greater_0_conv)

declare recv_loop.simps [simp del]

definition conversation :: "inv_call backend \<Rightarrow> int \<Rightarrow> string inv_prog" where
  "conversation \<beta> deadline =
     bnd (clock \<beta>) (\<lambda>t.
     andthen (effect \<beta> (SetTimeout (max 100 (deadline - t))))
     (andthen (effect \<beta> (Connect socket_path)) (recv_loop \<beta> deadline [])))"

definition fetch :: "inv_call backend \<Rightarrow> (string \<Rightarrow> pyval res) \<Rightarrow> int \<Rightarrow> pyval inv_prog" where
  "fetch \<beta> scan deadline =
     andthen (effect \<beta> NewSocket)
     (bnd (ensure (conversation \<beta> deadline) (effect \<beta> CloseSocket)) (\<lambda>bytes. lift (scan bytes)))"

text \<open>\<^verbatim>\<open>except (OSError, ValueError, UnicodeError)\<close>\<close>

definition swallowed :: "(string \<Rightarrow> bool) \<Rightarrow> exc \<Rightarrow> bool" where
  "swallowed os_error e \<longleftrightarrow> (case e of ValueError _ \<Rightarrow> True | Foreign t \<Rightarrow> os_error t | _ \<Rightarrow> False)"

definition unknown_reason :: "pyval \<Rightarrow> unit res" where
  "unknown_reason result =
     (let reason = fld result ''reason'' in
     if is_dict result \<and> fld result ''result'' = PStr ''UNKNOWN'' then
       (if is_str reason \<and> starts_with ''peer SSH proof '' (str_of reason)
          then Inl (unavailable ''peer SSH proof unavailable'' ''peer_ssh_unverified'')
        else if reason = PStr ''cluster quorum not proven''
          then Inl (unavailable ''cluster quorum unavailable'' ''quorum_unverified'')
        else if reason \<in> {PStr ''cluster node unavailable or ambiguous'', PStr ''cluster membership incomplete''}
          then Inl (unavailable ''cluster membership unavailable'' ''nodes_unverified'')
        else Inr ())
     else Inr ())"

definition observed_ok :: "pyval \<Rightarrow> bool" where
  "observed_ok result \<longleftrightarrow>
     is_dict result \<and> fld result ''result'' = PStr ''OBSERVED'' \<and> is_str (fld result ''observed_at'')
   \<and> is_list (fld result ''nodes'') \<and> is_list (fld result ''candidates'')
   \<and> is_list (fld result ''storage_definitions'')"

definition accept_inventory :: "pyval \<Rightarrow> unit res" where
  "accept_inventory result =
     rbind (unknown_reason result) (\<lambda>_.
     if observed_ok result then Inr () else Inl (unavailable ''inventory incomplete'' ''unavailable''))"

definition observe_fresh ::
    "inv_call backend \<Rightarrow> (string \<Rightarrow> pyval res) \<Rightarrow> (string \<Rightarrow> bool) \<Rightarrow> int \<Rightarrow> pyval inv_prog" where
  "observe_fresh \<beta> scan os_error deadline =
     bnd (catch (fetch \<beta> scan deadline)
       (\<lambda>e. raise (if swallowed os_error e then unavailable ''inventory unavailable'' ''unavailable'' else e))) (\<lambda>result.
     andthen (lift (accept_inventory result))
     (bnd (clock \<beta>) (\<lambda>t.
     andthen (writes (\<lambda>c. c\<lparr>ic_cached := result, ic_cached_at := t\<rparr>))
     (ret result))))"

definition observe_body ::
    "inv_call backend \<Rightarrow> (string \<Rightarrow> pyval res) \<Rightarrow> (string \<Rightarrow> bool) \<Rightarrow> int \<Rightarrow> int \<Rightarrow> pyval inv_prog" where
  "observe_body \<beta> scan os_error timeout cache =
     bnd (clock \<beta>) (\<lambda>now.
     bnd (reads (\<lambda>c. c)) (\<lambda>c.
     if ic_cached c \<noteq> PNone \<and> now - ic_cached_at c < cache then ret (ic_cached c)
     else observe_fresh \<beta> scan os_error (now + timeout)))"

definition observe ::
    "inv_call backend \<Rightarrow> (string \<Rightarrow> pyval res) \<Rightarrow> (string \<Rightarrow> bool) \<Rightarrow> int \<Rightarrow> int \<Rightarrow> pyval inv_prog" where
  "observe \<beta> scan os_error timeout cache =
     bnd (reads ic_locked) (\<lambda>locked.
     if locked then raise (unavailable ''inventory already running'' ''unavailable'')
     else andthen (writes (ic_locked_update (\<lambda>_. True)))
       (at_end (observe_body \<beta> scan os_error timeout cache) (ic_locked_update (\<lambda>_. False))))"


section \<open>A round and the loop\<close>

text \<open>The bytes a history received, and the number of its receive calls\<close>

definition received :: "inv_call hist \<Rightarrow> string" where
  "received h = concat (map (\<lambda>qr. case qr of (Recv _, Inr (PBytes chunk)) \<Rightarrow> chunk | _ \<Rightarrow> []) h)"

definition recv_count :: "inv_call hist \<Rightarrow> nat" where
  "recv_count h = length (filter (\<lambda>qr. case fst qr of Recv _ \<Rightarrow> True | _ \<Rightarrow> False) h)"

text \<open>A receive call follows a reading of the clock before the deadline and the setting of the time left\<close>

definition timely :: "int \<Rightarrow> inv_call discipline" where
  "timely deadline h q \<longleftrightarrow>
     (case q of
        Recv n \<Rightarrow> n \<le> 65536 \<and> (\<exists>g t r. h = g @ [(Clock, Inr (PInt t)), (SetTimeout (deadline - t), Inr r)] \<and> t < deadline)
      | _ \<Rightarrow> True)"

lemma received_append [simp]: "received (h @ t) = received h @ received t" "received [] = []"
  by (simp_all add: received_def)

lemma recv_count_append [simp]: "recv_count (h @ t) = recv_count h + recv_count t" "recv_count [] = 0"
  by (simp_all add: recv_count_def)

text \<open>\<open>got h n s\<close>: since \<open>h\<close>, a program has received \<open>s\<close> in at most \<open>n\<close> timely receive calls.\<close>

definition got :: "int \<Rightarrow> inv_client \<Rightarrow> inv_call hist \<Rightarrow> nat \<Rightarrow> string \<Rightarrow> inv_client \<times> inv_call hist \<Rightarrow> bool" where
  "got deadline c h n s \<sigma> \<longleftrightarrow>
     fst \<sigma> = c \<and> (\<exists>t. snd \<sigma> = h @ t \<and> recv_count t \<le> n \<and> received t = s) \<and> (keeps (timely deadline) h \<longrightarrow> keeps (timely deadline) (snd \<sigma>))"

lemma got_start: "got deadline c h 0 [] (c, h)"
  by (simp add: got_def)

lemma got_mono: "got deadline c h m s \<sigma> \<Longrightarrow> m \<le> n \<Longrightarrow> got deadline c h n s \<sigma>"
  by (auto simp: got_def)

lemma got_other:
  "got deadline c h n s (c', h') \<Longrightarrow> (case q of Recv _ \<Rightarrow> False | _ \<Rightarrow> True) \<Longrightarrow> got deadline c h n s (c', h' @ [(q, r)])"
  by (cases q) (auto simp: got_def recv_count_def received_def timely_def)

lemma keeps_snoc2: "keeps P (h @ [a, b]) \<longleftrightarrow> keeps P h \<and> P h (fst a) \<and> P (h @ [a]) (fst b)"
  using keeps_snoc [of P "h @ [a]" b] by simp

lemma keeps_snoc3:
  "keeps P (h @ [a, b, c]) \<longleftrightarrow> keeps P h \<and> P h (fst a) \<and> P (h @ [a]) (fst b) \<and> P (h @ [a, b]) (fst c)"
  using keeps_snoc [of P "h @ [a, b]" c] by (simp add: keeps_snoc2)

lemma got_recv:
  assumes "got deadline c h n s (c', h')" "now < deadline" "m \<le> 65536"
  shows "got deadline c h (Suc n) (s @ received [(Recv m, r)])
     (c', h' @ [(Clock, Inr (PInt now)), (SetTimeout (deadline - now), Inr v), (Recv m, r)])"
proof -
  from assms(1) obtain t where t: "h' = h @ t" "recv_count t \<le> n" "received t = s" by (auto simp: got_def)
  let ?u = "[(Clock, Inr (PInt now)), (SetTimeout (deadline - now), Inr v), (Recv m, r)]"
  have "recv_count (t @ ?u) \<le> Suc n" "received (t @ ?u) = s @ received [(Recv m, r)]"
    using t by (simp_all add: recv_count_def received_def)
  moreover have "keeps (timely deadline) (h' @ ?u)" if "keeps (timely deadline) h'"
    using that assms(2,3) by (auto simp: keeps_snoc3 timely_def)
  ultimately show ?thesis
    using assms(1) t(1) unfolding got_def by (intro conjI exI [of _ "t @ ?u"]) auto
qed

lemma wp_round:
  assumes "got deadline c h n s \<sigma>"
  shows "wp (recv_round \<beta> deadline k) (\<lambda>chunk. got deadline c h (Suc n) (s @ chunk))
     (\<lambda>_ \<tau>. \<exists>s'. got deadline c h (Suc n) s' \<tau>) \<sigma>"
proof -
  obtain c' h' where \<sigma>: "\<sigma> = (c', h')" by (cases \<sigma>)
  have q1: "got deadline c h (Suc n) s (c', h' @ [(Clock, r)])" for r
    using got_mono [OF got_other [OF assms [unfolded \<sigma>], of Clock r], of "Suc n"] by simp
  have q2: "got deadline c h (Suc n) s (c', h' @ [(Clock, r), (SetTimeout z, v)])" for r z v
    using got_other [OF q1, of "SetTimeout z" r v] by simp
  have q1': "\<exists>s'. got deadline c h (Suc n) s' (c', h' @ [(Clock, r)])" for r using q1 by blast
  have q2': "\<exists>s'. got deadline c h (Suc n) s' (c', h' @ [(Clock, r), (SetTimeout z, v)])" for r z v using q2 by blast
  have q3: "got deadline c h (Suc n) (s @ received [(Recv (min 65536 (max_bytes + 1 - k)), r)])
     (c', h' @ [(Clock, Inr (PInt now)), (SetTimeout (deadline - now), Inr v), (Recv (min 65536 (max_bytes + 1 - k)), r)])"
    if "now < deadline" for now v r
    using got_recv [OF assms [unfolded \<sigma>] that] by simp
  have q4: "\<exists>s'. got deadline c h (Suc n) s'
     (c', h' @ [(Clock, Inr (PInt now)), (SetTimeout (deadline - now), Inr v), (Recv (min 65536 (max_bytes + 1 - k)), r)])"
    if "now < deadline" for now v r using q3 [OF that] by blast
  have step: "wp (recv_chunk \<beta> k)
     (\<lambda>chunk. got deadline c h (Suc n) (s @ chunk)) (\<lambda>_ \<tau>. \<exists>s'. got deadline c h (Suc n) s' \<tau>)
     (c', h' @ [(Clock, Inr (PInt now)), (SetTimeout (deadline - now), Inr v)])" if "now < deadline" for now v
  proof (cases "\<beta> (h' @ [(Clock, Inr (PInt now)), (SetTimeout (deadline - now), Inr v)]) (Recv (min 65536 (max_bytes + 1 - k)))")
    case (Inl e)
    then show ?thesis using q4 [OF that, where v = v] by (simp add: recv_chunk_def wp_bnd wp_call)
  next
    case (Inr x)
    then show ?thesis
      using q4 [OF that, where v = v and r = "Inr x"] q3 [OF that, where v = v and r = "Inr x"]
      by (cases x) (auto simp: recv_chunk_def wp_bnd wp_call wp_ret wp_raise received_def)
  qed
  show ?thesis
    using q1 q2 q1' q2' step unfolding recv_round_def clock_def effect_def \<sigma>
    by (auto simp: wp_simps split: sum.splits pyval.splits)
qed


lemma wp_loop:
  assumes "got deadline c h n content \<sigma>" "n \<le> length content" "length content \<le> max_bytes"
  shows "wp (recv_loop \<beta> deadline content) (got deadline c h (Suc max_bytes))
     (\<lambda>_ \<tau>. \<exists>s'. got deadline c h (Suc max_bytes) s' \<tau>) \<sigma>"
  using assms
proof (induction \<beta> deadline content \<sigma> arbitrary: n rule: recv_loop.induct)
  case (1 \<beta> deadline content \<sigma>)
  note round = wp_round [OF 1(2), of \<beta> "length content", unfolded wp_def]
  obtain x \<tau> where run: "recv_round \<beta> deadline (length content) \<sigma> = (x, \<tau>)" by (metis surj_pair)
  show ?case
  proof (cases x)
    case (Inl e)
    then have "\<exists>s'. got deadline c h (Suc n) s' \<tau>" using round run by simp
    then have "\<exists>s'. got deadline c h (Suc max_bytes) s' \<tau>" using 1(3,4) got_mono by (metis Suc_le_mono le_trans)
    then show ?thesis using run Inl by (simp add: wp_def recv_loop.simps [of _ _ _ \<sigma>])
  next
    case (Inr chunk)
    then have got: "got deadline c h (Suc n) (content @ chunk) \<tau>" using round run by simp
    have long: "got deadline c h (Suc max_bytes) (content @ chunk) \<tau>" using got_mono [OF got] 1(3,4) by simp
    show ?thesis
    proof (cases "chunk = [] \<or> max_bytes < length (content @ chunk)")
      case True
      then show ?thesis using run Inr long by (auto simp: wp_def recv_loop.simps [of _ _ _ \<sigma>])
    next
      case False
      have "Suc n \<le> length (content @ chunk)" using False 1(3) by (cases chunk) auto
      moreover have "length (content @ chunk) \<le> max_bytes" using False by simp
      ultimately have "wp (recv_loop \<beta> deadline (content @ chunk)) (got deadline c h (Suc max_bytes))
          (\<lambda>_ \<tau>. \<exists>s'. got deadline c h (Suc max_bytes) s' \<tau>) \<tau>"
        using 1(1) [OF run [symmetric, unfolded Inr] refl _ _ got] False by simp
      then show ?thesis using run Inr False by (simp add: wp_def recv_loop.simps [of _ _ _ \<sigma>])
    qed
  qed
qed


abbreviation nonrecv :: "inv_call \<Rightarrow> bool" where
  "nonrecv q \<equiv> (case q of Recv _ \<Rightarrow> False | _ \<Rightarrow> True)"

text \<open>Some bytes were received, within the bounds\<close>

definition got_some :: "int \<Rightarrow> inv_client \<Rightarrow> inv_call hist \<Rightarrow> inv_client \<times> inv_call hist \<Rightarrow> bool" where
  "got_some deadline c h \<tau> \<longleftrightarrow> (\<exists>s. got deadline c h (Suc max_bytes) s \<tau>)"

lemma got_some: "got deadline c h n s \<tau> \<Longrightarrow> n \<le> Suc max_bytes \<Longrightarrow> got_some deadline c h \<tau>"
  by (auto simp: got_some_def intro: got_mono)

lemma wp_inv_effect:
  assumes "got deadline c h n s \<sigma>" "nonrecv q"
  shows "wp (effect \<beta> q) (\<lambda>_. got deadline c h n s) (\<lambda>_. got deadline c h n s) \<sigma>"
  using got_other [of deadline c h n s "fst \<sigma>" "snd \<sigma>" q] assms
  by (cases \<sigma>) (auto simp: effect_def wp_simps split: sum.splits)

lemma wp_clock:
  assumes "got deadline c h n s \<sigma>"
  shows "wp (clock \<beta>) (\<lambda>_. got deadline c h n s) (\<lambda>_. got deadline c h n s) \<sigma>"
  using got_other [of deadline c h n s "fst \<sigma>" "snd \<sigma>" Clock] assms
  by (cases \<sigma>) (auto simp: clock_def wp_simps split: sum.splits pyval.splits)

lemma wp_conversation:
  assumes "got deadline c h 0 [] \<sigma>"
  shows "wp (conversation \<beta> deadline) (got deadline c h (Suc max_bytes)) (\<lambda>_. got_some deadline c h) \<sigma>"
proof -
  have mono: "wp m (\<lambda>_. got deadline c h 0 []) (\<lambda>_. got deadline c h 0 []) \<tau>
      \<Longrightarrow> wp m (\<lambda>_. got deadline c h 0 []) (\<lambda>_. got_some deadline c h) \<tau>" for m :: "'x inv_prog" and \<tau>
    by (erule wp_mono) (auto intro: got_some)
  show ?thesis
    unfolding conversation_def
    by (rule wp_bndI [OF mono [OF wp_clock [OF assms]]], rule wp_andthenI [OF mono [OF wp_inv_effect]], assumption, simp,
        rule wp_andthenI [OF mono [OF wp_inv_effect]], assumption, simp, rule wp_mono [OF wp_loop], assumption)
      (auto simp: got_some_def)
qed

lemma wp_fetch:
  assumes "got deadline c h 0 [] \<sigma>"
  shows "wp (fetch \<beta> scan deadline) (\<lambda>v \<tau>. \<exists>bytes. got deadline c h (Suc max_bytes) bytes \<tau> \<and> scan bytes = Inr v)
     (\<lambda>_. got_some deadline c h) \<sigma>"
proof -
  have close: "wp (effect \<beta> CloseSocket) (\<lambda>_. got deadline c h (Suc max_bytes) s) (\<lambda>_. got deadline c h (Suc max_bytes) s) \<tau>"
    if "got deadline c h (Suc max_bytes) s \<tau>" for s \<tau> using wp_inv_effect [OF that] by simp
  have ens: "wp (ensure (conversation \<beta> deadline) (effect \<beta> CloseSocket)) (got deadline c h (Suc max_bytes))
      (\<lambda>_. got_some deadline c h) \<tau>" if "got deadline c h 0 [] \<tau>" for \<tau>
    unfolding wp_ensure
  proof (rule wp_mono [OF wp_conversation [OF that]])
    fix a \<upsilon>
    assume "got deadline c h (Suc max_bytes) a \<upsilon>"
    then show "wp (effect \<beta> CloseSocket) (\<lambda>_. got deadline c h (Suc max_bytes) a) (\<lambda>_. got_some deadline c h) \<upsilon>"
      by (rule wp_mono [OF close]) (auto intro: got_some)
  next
    fix e \<upsilon>
    assume "got_some deadline c h \<upsilon>"
    then obtain s where "got deadline c h (Suc max_bytes) s \<upsilon>" by (auto simp: got_some_def)
    then show "wp (effect \<beta> CloseSocket) (\<lambda>_. got_some deadline c h) (\<lambda>_. got_some deadline c h) \<upsilon>"
      by (rule wp_mono [OF close]) (auto intro: got_some)
  qed
  have "wp (bnd (ensure (conversation \<beta> deadline) (effect \<beta> CloseSocket)) (\<lambda>bytes. lift (scan bytes)))
      (\<lambda>v \<tau>. \<exists>bytes. got deadline c h (Suc max_bytes) bytes \<tau> \<and> scan bytes = Inr v) (\<lambda>_. got_some deadline c h) \<tau>"
    if "got deadline c h 0 [] \<tau>" for \<tau>
    by (rule wp_bndI [OF ens [OF that]]) (auto simp: wp_lift got_some_def split: sum.splits)
  then show ?thesis
    unfolding fetch_def
    by (intro wp_andthenI [OF wp_mono [OF wp_inv_effect [OF assms]]]) (auto intro: got_some)
qed


section \<open>Observations\<close>

text \<open>The reading of the clock an observation starts with\<close>

definition started_at :: "inv_call hist \<Rightarrow> int" where
  "started_at h = (case h of (Clock, Inr (PInt t)) # _ \<Rightarrow> t | _ \<Rightarrow> 0)"

lemma accept_observed: "accept_inventory v = Inr u \<Longrightarrow> observed_ok v"
  by (auto simp: accept_inventory_def elim!: rbindE split: if_splits)

lemma wp_fresh:
  assumes "got deadline c h 0 [] \<sigma>"
  shows "wp (observe_fresh \<beta> scan os_error deadline)
     (\<lambda>v (c', h'). ic_locked c' = ic_locked c \<and> ic_cached c' = v \<and> observed_ok v
        \<and> (\<exists>bytes. got deadline c h (Suc max_bytes) bytes (c, h') \<and> scan bytes = Inr v))
     (\<lambda>_. got_some deadline c h) \<sigma>"
proof -
  have "wp (bnd (clock \<beta>) (\<lambda>t. andthen (writes (\<lambda>c. c\<lparr>ic_cached := v, ic_cached_at := t\<rparr>)) (ret v)))
     (\<lambda>v (c', h'). ic_locked c' = ic_locked c \<and> ic_cached c' = v \<and> observed_ok v
        \<and> (\<exists>bytes. got deadline c h (Suc max_bytes) bytes (c, h') \<and> scan bytes = Inr v))
     (\<lambda>_. got_some deadline c h) \<tau>"
    if "got deadline c h (Suc max_bytes) bytes \<tau>" "scan bytes = Inr v" "observed_ok v" for v \<tau> bytes
    unfolding wp_bnd
    by (rule wp_mono [OF wp_clock [OF that(1)]])
      (use that in \<open>auto simp: wp_simps got_some_def got_def\<close>)
  then show ?thesis
    unfolding observe_fresh_def
    apply (intro wp_bndI [where R = "\<lambda>v \<tau>. \<exists>bytes. got deadline c h (Suc max_bytes) bytes \<tau> \<and> scan bytes = Inr v"])
     apply (simp only: wp_catch wp_raise)
     apply (rule wp_mono [OF wp_fetch [OF assms]])
      apply assumption
     apply assumption
    apply (auto simp: wp_andthen wp_lift got_some_def dest: accept_observed split: sum.splits)
    done
qed


text \<open>What an observation leaves, whether it returns or raises\<close>

definition observation_sound ::
    "(string \<Rightarrow> pyval res) \<Rightarrow> int \<Rightarrow> int \<Rightarrow> inv_client \<Rightarrow> pyval res \<Rightarrow> inv_client \<Rightarrow> inv_call hist \<Rightarrow> bool" where
  "observation_sound scan timeout cache c x c' h \<longleftrightarrow>
     recv_count h \<le> Suc max_bytes \<and> keeps (timely (started_at h + timeout)) h \<and> ic_locked c' = ic_locked c
   \<and> (case x of
        Inl e \<Rightarrow> c' = c
      | Inr v \<Rightarrow>
          (c' = c \<and> v = ic_cached c \<and> started_at h - ic_cached_at c < cache \<and> recv_count h = 0)
        \<or> (ic_cached c' = v \<and> observed_ok v \<and> scan (received h) = Inr v))"

lemma started_at_Cons [simp]: "started_at ((Clock, Inr (PInt t)) # h) = t"
  by (simp add: started_at_def)

lemma keeps_clock [simp]: "keeps (timely d) [(Clock, r)]"
  using keeps_snoc [of "timely d" "[]" "(Clock, r)"] by (simp add: timely_def)

lemma body_sound:
  "wp (observe_body \<beta> scan os_error timeout cache)
     (\<lambda>v (c', h). observation_sound scan timeout cache c (Inr v) c' h)
     (\<lambda>e (c', h). observation_sound scan timeout cache c (Inl e) c' h) (c, [])"
proof -
  have fresh: "wp (observe_fresh \<beta> scan os_error (now + timeout))
     (\<lambda>v (c', h). observation_sound scan timeout cache c (Inr v) c' h)
     (\<lambda>e (c', h). observation_sound scan timeout cache c (Inl e) c' h) (c, [(Clock, Inr (PInt now))])" for now
    by (rule wp_mono [OF wp_fresh [OF got_start]])
      (auto simp: got_some_def got_def observation_sound_def recv_count_def received_def)
  have first: "observation_sound scan timeout cache c (Inl e) c [(Clock, r)]" for e r
    by (simp add: observation_sound_def recv_count_def)
  have cached: "now - ic_cached_at c < cache \<Longrightarrow>
      observation_sound scan timeout cache c (Inr (ic_cached c)) c [(Clock, Inr (PInt now))]" for now
    by (simp add: observation_sound_def recv_count_def)
  show ?thesis
    unfolding observe_body_def clock_def
    using fresh first cached by (auto simp: wp_bnd wp_call wp_reads wp_ret wp_raise split: sum.splits pyval.splits)
qed

text \<open>
  C19: An observation of the inventory makes at most 1048577 receive calls, each of at most 65536
  bytes, directly after a reading of the clock before the deadline and the setting of the time that
  is left, for every socket and clock. The lock is as before on every path, and a failed
  observation leaves the cache as it was. What it returns is the cached inventory that is young
  enough, without any receive call, or what the received bytes parse to, complete and cached.
\<close>

theorem inventory_observation_sound:
  "case observe \<beta> scan os_error timeout cache (c, []) of
     (x, c', h) \<Rightarrow> observation_sound scan timeout cache c x c' h"
proof (cases "ic_locked c")
  case True
  then show ?thesis
    by (simp add: observe_def bnd_def reads_def raise_def observation_sound_def recv_count_def)
next
  case False
  let ?c = "c\<lparr>ic_locked := True\<rparr>"
  have unlock: "observation_sound scan timeout cache c x (c'\<lparr>ic_locked := False\<rparr>) h"
    if "observation_sound scan timeout cache ?c x c' h" for x c' h
    using that False by (auto simp: observation_sound_def split: sum.splits)
  have "observe \<beta> scan os_error timeout cache (c, []) =
      at_end (observe_body \<beta> scan os_error timeout cache) (ic_locked_update (\<lambda>_. False)) (?c, [])"
    using False by (simp add: observe_def bnd_def reads_def andthen_def writes_def)
  then show ?thesis
    using body_sound [of \<beta> scan os_error timeout cache ?c]
    by (auto simp: at_end_def wp_def unlock split: prod.splits sum.splits)
qed

end
