(* ===== verification/LvmSync.thy ===== *)
theory LvmSync
  imports PyEffect PyText
begin

text \<open>
  The qualification of synchronous LVM label reads,
  \<^verbatim>\<open>experiments/thick-generations/lvm-sync-io-ab.py\<close>: a pair of read-only probes, the second of which
  (B, with \<^verbatim>\<open>use_aio=0\<close>) may run only after the first (A) is proven gone. Journal, executor and
  the reading of the host's identity are the dependency. The argument parser is left out: \<open>lvm_main\<close>
  is given the parsed arguments, and returns what is printed with the exit code.
\<close>

section \<open>Arguments\<close>

definition base_argv :: "string list" where "base_argv = [''/sbin/vgs'', ''--readonly'']"

definition sync_config :: string where "sync_config = ''global { use_aio=0 }''"

definition vg_char :: "char \<Rightarrow> bool" where
  "vg_char c \<longleftrightarrow> alnum c \<or> c \<in> {CHR ''+'', CHR ''_'', CHR ''.'', CHR ''-''}"

definition vg_re :: "string \<Rightarrow> bool" where "vg_re = head_tail alnum vg_char None"

definition boot_re :: "string \<Rightarrow> bool" where "boot_re s \<longleftrightarrow> hexn 32 s \<or> boot_id_re s"

definition exact_argv :: "pyval \<Rightarrow> pyval \<Rightarrow> bool \<Rightarrow> pyval list res" where
  "exact_argv device vg sync =
     rbind (checks
       [need (is_str device \<and> starts_with ''/dev/'' (str_of device)) ''device must be an absolute /dev path'',
        need (\<not> list_ex space (str_of device) \<and> CHR '','' \<notin> set (str_of device)) ''device path must not contain whitespace'',
        need (matches vg_re vg) ''VG is not a canonical LVM name''])
     (\<lambda>_. Inr (map PStr (base_argv @ [''--devices'', str_of device, ''--noheadings'', ''--separator'', ''|'', ''-o'', ''vg_uuid'']
        @ (if sync then [''--config'', sync_config] else []) @ [str_of vg])))"

section \<open>Evidence\<close>

definition manifest_fields :: "string list" where
  "manifest_fields = [''boot_id'', ''kernel'', ''lvm_package'', ''executable_sha256'', ''config_sha256'', ''device_identity'']"

definition manifest_text :: "string \<Rightarrow> bool" where
  "manifest_text s \<longleftrightarrow> s \<noteq> [] \<and> CHR 0x00 \<notin> set s"

definition validate_manifest :: "pyval \<Rightarrow> pyval res" where
  "validate_manifest m =
     rbind (checks
       ([need (exact m manifest_fields) ''identity manifest schema is incomplete or open'',
         need (matches boot_re (fld m ''boot_id'')) ''identity manifest boot ID is invalid'']
        @ map (\<lambda>k. need (matches (hexn 64) (fld m k)) (''identity manifest '' @ k @ '' is invalid''))
            [''executable_sha256'', ''config_sha256'']
        @ map (\<lambda>k. need (matches manifest_text (fld m k)) (''identity manifest '' @ k @ '' is invalid''))
            [''kernel'', ''lvm_package'', ''device_identity'']))
     (\<lambda>_. Inr m)"

definition validate_lvm_uuid :: "pyval \<Rightarrow> pyval res" where
  "validate_lvm_uuid v =
     (if matches lvm_uuid_re v then Inr v else Inl (Refusal ''value is not a canonical LVM UUID''))"

definition receipt_fields :: "string list" where
  "receipt_fields =
     [''pid'', ''starttime'', ''boot_id'', ''argv'', ''terminal'', ''reaped'', ''returncode'', ''descendants'',
      ''unread_stdout'', ''unread_stderr'', ''output_truncated'', ''identity_stable'', ''dstate_observed'',
      ''deadline_exceeded'', ''evidence_persisted'', ''stderr'', ''stdout'', ''pidfd_pinned'', ''owned_child'']"

definition receipt_bools :: "string list" where
  "receipt_bools =
     [''reaped'', ''unread_stdout'', ''unread_stderr'', ''output_truncated'', ''identity_stable'', ''dstate_observed'',
      ''deadline_exceeded'', ''evidence_persisted'', ''pidfd_pinned'', ''owned_child'']"

definition argv_ok :: "pyval \<Rightarrow> bool" where
  "argv_ok v \<longleftrightarrow> (case v of
     PTuple xs \<Rightarrow> list_all (matches (\<lambda>s. s \<noteq> [])) xs | PList xs \<Rightarrow> list_all (matches (\<lambda>s. s \<noteq> [])) xs | _ \<Rightarrow> False)"

text \<open>The first condition that holds names the reason.\<close>

fun first_reason :: "(bool \<times> string) list \<Rightarrow> string option" where
  "first_reason [] = None"
| "first_reason ((bad, reason) # rs) = (if bad then Some reason else first_reason rs)"

definition shape_reasons :: "pyval \<Rightarrow> pyval option \<Rightarrow> (bool \<times> string) list" where
  "shape_reasons r manifest =
     [(\<not> exact r receipt_fields, ''child receipt schema is incomplete or open''),
      (\<not> (is_int (fld r ''pid'') \<and> 1 < int_of (fld r ''pid'')), ''child PID is invalid''),
      (\<not> (is_int (fld r ''starttime'') \<and> 0 < int_of (fld r ''starttime'')), ''child start time is invalid''),
      (\<not> matches boot_re (fld r ''boot_id''), ''child boot ID is invalid''),
      ((case manifest of None \<Rightarrow> False | Some m \<Rightarrow> \<not> pyeq (fld r ''boot_id'') (fld m ''boot_id'')),
         ''child boot ID differs from identity manifest''),
      (\<not> argv_ok (fld r ''argv''), ''child argv is invalid'')]
     @ map (\<lambda>k. (\<not> is_bool (fld r k), ''child receipt '' @ k @ '' is not boolean'')) receipt_bools"

definition proof_reasons :: "pyval \<Rightarrow> (bool \<times> string) list" where
  "proof_reasons r =
     [(fld r ''terminal'' \<noteq> PStr ''EXITED'' \<or> \<not> truthy (fld r ''reaped''), ''child is not terminal and reaped''),
      (\<not> truthy (fld r ''pidfd_pinned'') \<or> \<not> truthy (fld r ''owned_child''), ''child ownership was not positively proven''),
      (\<not> truthy (fld r ''identity_stable''), ''child identity changed or was not proven''),
      (truthy (fld r ''dstate_observed''), ''D-state was observed''),
      (truthy (fld r ''deadline_exceeded''), ''execution deadline was exceeded''),
      (truthy (fld r ''descendants''), ''descendants remain or existed ambiguously''),
      (truthy (fld r ''unread_stdout'') \<or> truthy (fld r ''unread_stderr''), ''a captured pipe is not at EOF''),
      (truthy (fld r ''output_truncated''), ''captured output was truncated''),
      (truthy (fld r ''stderr''), ''probe emitted unexpected stderr''),
      (\<not> truthy (fld r ''evidence_persisted''), ''probe evidence was not durably persisted''),
      (fld r ''returncode'' \<noteq> PInt 0, ''probe did not exit successfully''),
      (\<not> (is_list (fld r ''descendants'')
          \<and> list_all (\<lambda>p. is_int p \<and> 1 < int_of p) (list_of (fld r ''descendants''))), ''descendant evidence is invalid''),
      (\<not> is_str (fld r ''stdout'') \<or> \<not> is_str (fld r ''stderr''), ''captured output is not text'')]"

definition terminal_proof :: "pyval \<Rightarrow> pyval option \<Rightarrow> string option" where
  "terminal_proof r manifest = first_reason (shape_reasons r manifest @ proof_reasons r)"

definition output_rows :: "string \<Rightarrow> string list" where
  "output_rows s = filter (\<lambda>row. row \<noteq> []) (map strip (splitlines s))"

definition parse_one_uuid :: "pyval \<Rightarrow> pyval res" where
  "parse_one_uuid v =
     rbind (checks [need (is_str v \<and> CHR 0x00 \<notin> set (str_of v)) ''invalid output encoding''])
     (\<lambda>_. case output_rows (str_of v) of
        [row] \<Rightarrow> if CHR ''|'' \<in> set row \<or> list_ex space row then Inl (Refusal ''expected exactly one VG UUID'')
                 else validate_lvm_uuid (PStr row)
      | _ \<Rightarrow> Inl (Refusal ''expected exactly one VG UUID''))"

text \<open>\<^verbatim>\<open>str(exc)\<close>\<close>

definition refusal_text :: "exc \<Rightarrow> string" where
  "refusal_text e = (case e of Refusal t \<Rightarrow> t | _ \<Rightarrow> [])"

text \<open>The reason B is forbidden, \<open>None\<close> where it is admitted\<close>

definition admit_b :: "pyval \<Rightarrow> pyval \<Rightarrow> pyval option \<Rightarrow> pyval option \<Rightarrow> string option" where
  "admit_b receipt expected_argv manifest expected_uuid =
     (case terminal_proof receipt manifest of Some reason \<Rightarrow> Some reason
      | None \<Rightarrow>
          if \<not> pyeq (fld receipt ''argv'') expected_argv then Some ''A argv differs from the persisted plan''
          else (case parse_one_uuid (fld receipt ''stdout'') of
                  Inl e \<Rightarrow> Some (refusal_text e)
                | Inr uuid \<Rightarrow>
                    if (case expected_uuid of None \<Rightarrow> False | Some u \<Rightarrow> \<not> pyeq uuid u)
                    then Some ''A UUID differs from configured identity'' else None))"


section \<open>The comparison of a pair\<close>

definition outcome :: "string \<Rightarrow> string option \<Rightarrow> pyval" where
  "outcome classification reason =
     PDict ((''classification'', PStr classification) # (case reason of None \<Rightarrow> [] | Some t \<Rightarrow> [(''reason'', PStr t)]))"

definition pair_match :: pyval where
  "pair_match =
     PDict [(''classification'', PStr ''PAIR_MATCH_REPETITION_REQUIRED''), (''qualified'', PBool False),
            (''note'', PStr ''one clean pair does not prove freedom from D-state or SAN stalls'')]"

definition compare_inputs :: "pyval \<Rightarrow> pyval \<Rightarrow> pyval \<Rightarrow> pyval \<Rightarrow> pyval \<Rightarrow> (pyval list \<times> pyval list) res" where
  "compare_inputs device vg uuid before after =
     rbind (validate_lvm_uuid uuid) (\<lambda>_.
     rbind (validate_manifest before) (\<lambda>_.
     rbind (validate_manifest after) (\<lambda>_.
     rbind (exact_argv device vg False) (\<lambda>a.
     rbind (exact_argv device vg True) (\<lambda>b. Inr (a, b))))))"

definition compare_uuids :: "pyval \<Rightarrow> pyval \<Rightarrow> pyval \<Rightarrow> pyval" where
  "compare_uuids a_receipt b_receipt uuid =
     (case rbind (parse_one_uuid (fld a_receipt ''stdout''))
             (\<lambda>a. rbind (parse_one_uuid (fld b_receipt ''stdout'')) (\<lambda>b. Inr (a, b))) of
        Inl e \<Rightarrow> outcome ''OUTPUT_AMBIGUOUS'' (Some (refusal_text e))
      | Inr (a, b) \<Rightarrow>
          if \<not> pyeq a uuid \<or> \<not> pyeq b uuid then outcome ''SEMANTIC_MISMATCH'' None else pair_match)"

definition compare_pair :: "pyval \<Rightarrow> pyval \<Rightarrow> pyval \<Rightarrow> pyval \<Rightarrow> pyval \<Rightarrow> pyval \<Rightarrow> pyval \<Rightarrow> pyval" where
  "compare_pair a_receipt b_receipt device vg uuid before after =
     (case compare_inputs device vg uuid before after of
        Inl e \<Rightarrow> outcome ''INPUT_AMBIGUOUS'' (Some (refusal_text e))
      | Inr (expected_a, expected_b) \<Rightarrow>
          (case admit_b a_receipt (PTuple expected_a) (Some before) (Some uuid) of
             Some reason \<Rightarrow> outcome ''A_AMBIGUOUS_B_FORBIDDEN'' (Some reason)
           | None \<Rightarrow>
               (case terminal_proof b_receipt (Some after) of
                  Some reason \<Rightarrow> outcome ''B_AMBIGUOUS'' (Some reason)
                | None \<Rightarrow>
                    if \<not> pyeq (fld b_receipt ''argv'') (PTuple expected_b)
                      then outcome ''B_AMBIGUOUS'' (Some ''B argv differs from plan'')
                    else if \<not> pyeq before after
                      then outcome ''IDENTITY_CHANGED'' (Some ''host/device/tool identity changed between A and B'')
                    else compare_uuids a_receipt b_receipt uuid)))"

section \<open>The controller\<close>

datatype pair_call =
    Identity
  | JournalAppend pyval
  | Execute string pyval

type_synonym 'a pair_prog = "(string, pair_call, 'a) prog"

abbreviation enter :: "string \<Rightarrow> unit pair_prog" where
  "enter state \<equiv> writes (\<lambda>_. state)"

text \<open>\<^verbatim>\<open>try: m; except Exception: self.state = "UNKNOWN"; raise\<close>\<close>

abbreviation or_unknown :: "'a pair_prog \<Rightarrow> 'a pair_prog" where
  "or_unknown m \<equiv> on_exception m (enter ''UNKNOWN'')"

definition pair_persist :: "pair_call backend \<Rightarrow> pyval \<Rightarrow> unit pair_prog" where
  "pair_persist \<beta> event = or_unknown (bnd (call \<beta> (JournalAppend event)) (\<lambda>_. ret ()))"

definition result_event :: "pyval \<Rightarrow> pyval" where
  "result_event result = PDict [(''kind'', PStr ''PAIR_RESULT''), (''result'', result)]"

definition pair_refuse :: "pair_call backend \<Rightarrow> string \<Rightarrow> string \<Rightarrow> pyval pair_prog" where
  "pair_refuse \<beta> classification reason =
     (let result = outcome classification (Some reason) in
     andthen (pair_persist \<beta> (result_event result)) (andthen (enter ''UNKNOWN'') (ret result)))"

definition identity :: "pair_call backend \<Rightarrow> pyval pair_prog" where
  "identity \<beta> = bnd (call \<beta> Identity) (\<lambda>m. lift (validate_manifest m))"

definition pair_intent :: "pyval list \<Rightarrow> pyval list \<Rightarrow> pyval \<Rightarrow> pyval" where
  "pair_intent a b before =
     PDict [(''kind'', PStr ''PAIR_INTENT''), (''a_argv'', PTuple a), (''b_argv'', PTuple b), (''identity'', before)]"

definition receipt_event :: "string \<Rightarrow> pyval \<Rightarrow> pyval" where
  "receipt_event kind receipt = PDict [(''kind'', PStr kind), (''receipt'', receipt)]"

definition b_intent :: "pyval \<Rightarrow> pyval" where
  "b_intent after = PDict [(''kind'', PStr ''B_INTENT''), (''identity'', after)]"

text \<open>Up to the receipt of A: the two argument vectors, the identity before, and the receipt\<close>

definition pair_start ::
    "pair_call backend \<Rightarrow> pyval \<Rightarrow> pyval \<Rightarrow> pyval \<Rightarrow> (pyval list \<times> pyval list \<times> pyval \<times> pyval) pair_prog" where
  "pair_start \<beta> device vg uuid =
     bnd (lift (exact_argv device vg False)) (\<lambda>a.
     bnd (lift (exact_argv device vg True)) (\<lambda>b.
     andthen (lift (validate_lvm_uuid uuid))
     (bnd (identity \<beta>) (\<lambda>before.
     andthen (pair_persist \<beta> (pair_intent a b before))
     (andthen (enter ''A_DISPATCHED'')
     (bnd (call \<beta> (Execute ''A'' (PTuple a))) (\<lambda>receipt. ret (a, b, before, receipt))))))))"

definition pair_finish ::
    "pair_call backend \<Rightarrow> pyval \<Rightarrow> pyval \<Rightarrow> pyval \<Rightarrow> pyval list \<Rightarrow> pyval \<Rightarrow> pyval \<Rightarrow> pyval \<Rightarrow> pyval pair_prog" where
  "pair_finish \<beta> device vg uuid b before a_receipt after_a =
     andthen (pair_persist \<beta> (b_intent after_a))
     (andthen (enter ''B_DISPATCHED'')
     (bnd (or_unknown (call \<beta> (Execute ''B'' (PTuple b)))) (\<lambda>b_receipt.
     andthen (pair_persist \<beta> (receipt_event ''B_RECEIPT'' b_receipt))
     (bnd (or_unknown (identity \<beta>)) (\<lambda>after_b.
     let result = compare_pair a_receipt b_receipt device vg uuid before after_b in
     andthen (pair_persist \<beta> (result_event result))
     (andthen (enter (if fld result ''classification'' = PStr ''PAIR_MATCH_REPETITION_REQUIRED''
                      then ''EVIDENCE_COMPLETE'' else ''UNKNOWN''))
     (ret result)))))))"

definition pair_second ::
    "pair_call backend \<Rightarrow> pyval \<Rightarrow> pyval \<Rightarrow> pyval \<Rightarrow> pyval list \<Rightarrow> pyval list \<Rightarrow> pyval \<Rightarrow> pyval \<Rightarrow> pyval pair_prog" where
  "pair_second \<beta> device vg uuid a b before a_receipt =
     andthen (pair_persist \<beta> (receipt_event ''A_RECEIPT'' a_receipt))
     (case admit_b a_receipt (PTuple a) (Some before) (Some uuid) of
        Some reason \<Rightarrow> pair_refuse \<beta> ''A_AMBIGUOUS_B_FORBIDDEN'' reason
      | None \<Rightarrow>
          bnd (or_unknown (identity \<beta>)) (\<lambda>after_a.
          if \<not> pyeq before after_a
          then pair_refuse \<beta> ''IDENTITY_CHANGED_B_FORBIDDEN'' ''host/device/tool identity changed after A''
          else pair_finish \<beta> device vg uuid b before a_receipt after_a))"

definition run_pair :: "pair_call backend \<Rightarrow> pyval \<Rightarrow> pyval \<Rightarrow> pyval \<Rightarrow> pyval pair_prog" where
  "run_pair \<beta> device vg uuid =
     bnd (reads (\<lambda>s. s)) (\<lambda>state.
     if state \<noteq> ''NEW'' then raise (Refusal ''pair controller is single-use'')
     else andthen (enter ''STARTING'')
       (bnd (or_unknown (pair_start \<beta> device vg uuid)) (\<lambda>(a, b, before, a_receipt).
        pair_second \<beta> device vg uuid a b before a_receipt)))"

section \<open>The plan\<close>

definition lvm_plan :: "pyval \<Rightarrow> pyval \<Rightarrow> pyval \<Rightarrow> pyval res" where
  "lvm_plan device vg uuid =
     rbind (validate_lvm_uuid uuid) (\<lambda>uuid.
     rbind (exact_argv device vg False) (\<lambda>a.
     rbind (exact_argv device vg True) (\<lambda>b.
     Inr (PDict
       [(''schema'', PInt 1), (''classification'', PStr ''PLAN_ONLY_NO_SUBPROCESS''),
        (''persistent_config_change'', PBool False), (''storage_mutation'', PBool False), (''candidate_first'', PBool False),
        (''expected_uuid'', uuid), (''a_argv'', PList a), (''b_argv'', PList b),
        (''b_admission'', PStr ''only after exact A child is terminal, reaped and unambiguous''),
        (''result_limit'', PStr ''a matching pair requires repetition and failure injection'')]))))"

definition lvm_ack :: string where
  "lvm_ack = ''I_UNDERSTAND_THIS_IS_A_READ_ONLY_LVM_AB_QUALIFICATION''"

definition lvm_main :: "string \<Rightarrow> string \<Rightarrow> string \<Rightarrow> string option \<Rightarrow> pyval \<times> int" where
  "lvm_main device vg uuid token =
     (case lvm_plan (PStr device) (PStr vg) (PStr uuid) of
        Inl e \<Rightarrow> (outcome ''REFUSED'' (Some (refusal_text e)), 2)
      | Inr plan \<Rightarrow>
          (case token of None \<Rightarrow> (plan, 0)
           | Some t \<Rightarrow>
               (pyset ''token_valid'' (PBool (t = lvm_ack))
                  (pyset ''classification'' (PStr ''REFUSED_EXECUTE_BACKEND_NOT_QUALIFIED'') plan), 2)))"


section \<open>B runs only after A is proven gone\<close>

text \<open>What a receipt without a reason against it says\<close>

lemma first_reason_None: "first_reason rs = None \<longleftrightarrow> list_all (\<lambda>(bad, _). \<not> bad) rs"
  by (induction rs rule: first_reason.induct) auto

lemma bool_truthy:
  "is_bool v \<Longrightarrow> truthy v \<Longrightarrow> v = PBool True" "is_bool v \<Longrightarrow> \<not> truthy v \<Longrightarrow> v = PBool False"
  "is_list v \<Longrightarrow> \<not> truthy v \<Longrightarrow> v = PList []"
  by (cases v; simp)+

lemma terminal_proofD:
  assumes "terminal_proof r m = None"
  shows "fld r ''terminal'' = PStr ''EXITED''" "is_true (fld r ''reaped'')" "is_true (fld r ''owned_child'')"
    "fld r ''returncode'' = PInt 0" "fld r ''descendants'' = PList []" "is_false (fld r ''dstate_observed'')"
proof -
  have shape: "list_all (\<lambda>(bad, _). \<not> bad) (shape_reasons r m)" and gone: "list_all (\<lambda>(bad, _). \<not> bad) (proof_reasons r)"
    using assms by (simp_all add: terminal_proof_def first_reason_None)
  have bools: "is_bool (fld r ''reaped'')" "is_bool (fld r ''owned_child'')" "is_bool (fld r ''dstate_observed'')"
    using shape by (simp_all add: shape_reasons_def receipt_bools_def)
  have proofs: "fld r ''terminal'' = PStr ''EXITED''" "truthy (fld r ''reaped'')" "truthy (fld r ''owned_child'')"
    "fld r ''returncode'' = PInt 0" "\<not> truthy (fld r ''descendants'')" "is_list (fld r ''descendants'')"
    "\<not> truthy (fld r ''dstate_observed'')"
    using gone by (simp_all add: proof_reasons_def)
  show "fld r ''terminal'' = PStr ''EXITED''" "is_true (fld r ''reaped'')" "is_true (fld r ''owned_child'')"
    "fld r ''returncode'' = PInt 0" "fld r ''descendants'' = PList []" "is_false (fld r ''dstate_observed'')"
    using proofs bools by (auto intro: bool_truthy)
qed

lemma validate_same:
  "validate_manifest m = Inr m' \<Longrightarrow> m' = m" "validate_lvm_uuid u = Inr u' \<Longrightarrow> u' = u"
  by (auto simp: validate_manifest_def validate_lvm_uuid_def elim!: rbindE split: if_splits)

fun runs_b :: "pair_call \<Rightarrow> bool" where
  "runs_b (Execute name argv) \<longleftrightarrow> name = ''B''"
| "runs_b _ \<longleftrightarrow> False"

text \<open>The calls up to the admission of B, when all were answered\<close>

definition a_calls :: "pyval list \<Rightarrow> pyval list \<Rightarrow> pyval \<Rightarrow> pyval \<Rightarrow> pair_call list" where
  "a_calls a b before receipt =
     [Identity, JournalAppend (pair_intent a b before), Execute ''A'' (PTuple a), JournalAppend (receipt_event ''A_RECEIPT'' receipt)]"

definition b_calls :: "pyval list \<Rightarrow> pyval \<Rightarrow> pair_call list" where
  "b_calls b after = [Identity, JournalAppend (b_intent after), Execute ''B'' (PTuple b)]"

definition b_admitted :: "pyval \<Rightarrow> pyval \<Rightarrow> pyval \<Rightarrow> pair_call hist \<Rightarrow> bool" where
  "b_admitted device vg uuid h \<longleftrightarrow>
     (\<exists>a b before receipt after.
        exact_argv device vg False = Inr a \<and> exact_argv device vg True = Inr b
      \<and> take 7 (asked h) = a_calls a b before receipt @ b_calls b after
      \<and> list_all (\<lambda>qr. \<not> isl (snd qr)) (take 6 h) \<and> (Execute ''A'' (PTuple a), Inr receipt) \<in> set h
      \<and> admit_b receipt (PTuple a) (Some before) (Some uuid) = None \<and> pyeq before after
      \<and> list_all (\<lambda>q. \<not> runs_b q) (drop 7 (asked h)))"

lemma no_b_simps: "asked (h @ t) = asked h @ map fst t"
  by (simp add: asked_def)

lemma pair_start_value:
  assumes "pair_start \<beta> device vg uuid (s, []) = (x, s', h)"
  shows "\<not> list_ex runs_b (asked h)
    \<and> (case x of Inl e \<Rightarrow> s \<noteq> ''EVIDENCE_COMPLETE'' \<longrightarrow> s' \<noteq> ''EVIDENCE_COMPLETE''
       | Inr (a, b, before, receipt) \<Rightarrow>
           s' = ''A_DISPATCHED'' \<and> exact_argv device vg False = Inr a \<and> exact_argv device vg True = Inr b
         \<and> validate_lvm_uuid uuid = Inr uuid \<and> validate_manifest before = Inr before
         \<and> (\<exists>r. h = [(Identity, Inr before), (JournalAppend (pair_intent a b before), Inr r), (Execute ''A'' (PTuple a), Inr receipt)]))"
proof -
  have "wp (pair_start \<beta> device vg uuid)
     (\<lambda>(a, b, before, receipt) (s', h). \<not> list_ex runs_b (asked h)
         \<and> s' = ''A_DISPATCHED'' \<and> exact_argv device vg False = Inr a \<and> exact_argv device vg True = Inr b
         \<and> validate_lvm_uuid uuid = Inr uuid \<and> validate_manifest before = Inr before
         \<and> (\<exists>r. h = [(Identity, Inr before), (JournalAppend (pair_intent a b before), Inr r), (Execute ''A'' (PTuple a), Inr receipt)]))
     (\<lambda>e (s', h). \<not> list_ex runs_b (asked h) \<and> (s \<noteq> ''EVIDENCE_COMPLETE'' \<longrightarrow> s' \<noteq> ''EVIDENCE_COMPLETE'')) (s, [])"
    unfolding pair_start_def identity_def pair_persist_def
    by (auto simp: wp_simps asked_def dest: validate_same split: sum.splits)
  with assms show ?thesis by (auto simp: wp_def split: sum.splits)
qed


text \<open>The state a failure leaves: \<open>UNKNOWN\<close>, or for an exit no handler catches not a complete one\<close>

definition pair_failed :: "exc \<Rightarrow> string \<Rightarrow> bool" where
  "pair_failed e s' \<longleftrightarrow> (if is_exception e then s' = ''UNKNOWN'' else s' \<noteq> ''EVIDENCE_COMPLETE'')"

lemma pair_failed_simps [simp]:
  "pair_failed e ''UNKNOWN''" "is_exception e \<Longrightarrow> pair_failed e s' \<longleftrightarrow> s' = ''UNKNOWN''"
  "\<not> is_exception e \<Longrightarrow> pair_failed e s' \<longleftrightarrow> s' \<noteq> ''EVIDENCE_COMPLETE''"
  by (simp_all add: pair_failed_def)

lemma pair_finish_value:
  assumes "pair_finish \<beta> device vg uuid b before a_receipt after (s, h) = (x, s', h')"
  shows "(\<exists>e. h' = h @ [(JournalAppend (b_intent after), Inl e)] \<or>
      (\<exists>r rb rest. h' = h @ (JournalAppend (b_intent after), Inr r) # (Execute ''B'' (PTuple b), rb) # rest
          \<and> list_all (\<lambda>qr. \<not> runs_b (fst qr)) rest))
    \<and> (case x of Inl e \<Rightarrow> s \<noteq> ''EVIDENCE_COMPLETE'' \<longrightarrow> pair_failed e s'
       | Inr v \<Rightarrow> s' = (if fld v ''classification'' = PStr ''PAIR_MATCH_REPETITION_REQUIRED'' then ''EVIDENCE_COMPLETE'' else ''UNKNOWN'')
         \<and> (\<exists>b_receipt after_b. (Execute ''B'' (PTuple b), Inr b_receipt) \<in> set h'
              \<and> v = compare_pair a_receipt b_receipt device vg uuid before after_b))"
proof -
  have "wp (pair_finish \<beta> device vg uuid b before a_receipt after)
     (\<lambda>v (s', h'). (\<exists>r rb rest. h' = h @ (JournalAppend (b_intent after), Inr r) # (Execute ''B'' (PTuple b), rb) # rest
          \<and> list_all (\<lambda>qr. \<not> runs_b (fst qr)) rest)
        \<and> s' = (if fld v ''classification'' = PStr ''PAIR_MATCH_REPETITION_REQUIRED'' then ''EVIDENCE_COMPLETE'' else ''UNKNOWN'')
        \<and> (\<exists>b_receipt after_b. (Execute ''B'' (PTuple b), Inr b_receipt) \<in> set h'
              \<and> v = compare_pair a_receipt b_receipt device vg uuid before after_b))
     (\<lambda>e (s', h'). (s \<noteq> ''EVIDENCE_COMPLETE'' \<longrightarrow> pair_failed e s') \<and> (\<exists>e. h' = h @ [(JournalAppend (b_intent after), Inl e)] \<or>
      (\<exists>r rb rest. h' = h @ (JournalAppend (b_intent after), Inr r) # (Execute ''B'' (PTuple b), rb) # rest
          \<and> list_all (\<lambda>qr. \<not> runs_b (fst qr)) rest))) (s, h)"
    unfolding pair_finish_def identity_def pair_persist_def Let_def
    by (simp add: wp_simps split: sum.splits) blast
  with assms show ?thesis by (auto simp: wp_def split: sum.splits)
qed


lemma outcome_class [simp]: "fld (outcome c r) ''classification'' = PStr c"
  by (simp add: outcome_def fld_def)

lemma parse_one_uuid_str: "parse_one_uuid v = Inr u \<Longrightarrow> \<exists>t. u = PStr t"
  by (auto simp: parse_one_uuid_def validate_lvm_uuid_def elim!: rbindE split: list.splits if_splits)

lemma pyeq_str: "pyeq (PStr t) u \<Longrightarrow> u = PStr t"
  by (cases u) (simp_all add: pyeq_def)

lemma compare_uuids_match:
  assumes "fld (compare_uuids ra rb uuid) ''classification'' = PStr ''PAIR_MATCH_REPETITION_REQUIRED''"
  shows "parse_one_uuid (fld ra ''stdout'') = Inr uuid \<and> parse_one_uuid (fld rb ''stdout'') = Inr uuid"
  using assms
  by (cases "parse_one_uuid (fld ra ''stdout'')"; cases "parse_one_uuid (fld rb ''stdout'')")
    (auto simp: compare_uuids_def dest!: parse_one_uuid_str split: if_splits dest: pyeq_str)

lemma compare_match:
  assumes "fld (compare_pair ra rb device vg uuid before after) ''classification'' = PStr ''PAIR_MATCH_REPETITION_REQUIRED''"
  shows "terminal_proof ra (Some before) = None \<and> terminal_proof rb (Some after) = None \<and> pyeq before after
    \<and> parse_one_uuid (fld ra ''stdout'') = Inr uuid \<and> parse_one_uuid (fld rb ''stdout'') = Inr uuid"
proof -
  have admit: "admit_b r e (Some m) (Some u) = None \<Longrightarrow> terminal_proof r (Some m) = None" for r e m u
    by (simp add: admit_b_def split: option.splits)
  show ?thesis
    using assms
    by (auto simp: compare_pair_def dest: admit compare_uuids_match split: sum.splits option.splits if_splits)
qed

definition pair_sound :: "pyval \<Rightarrow> pyval \<Rightarrow> pyval \<Rightarrow> string \<Rightarrow> pyval res \<Rightarrow> string \<Rightarrow> pair_call hist \<Rightarrow> bool" where
  "pair_sound device vg uuid s x s' h \<longleftrightarrow>
     (if list_ex runs_b (asked h) then b_admitted device vg uuid h else True)
   \<and> (case x of
        Inl e \<Rightarrow> pair_failed e s' \<or> (s' = s \<and> h = [])
      | Inr v \<Rightarrow> s' = (if fld v ''classification'' = PStr ''PAIR_MATCH_REPETITION_REQUIRED'' then ''EVIDENCE_COMPLETE'' else ''UNKNOWN'')
          \<and> (if s' = ''EVIDENCE_COMPLETE''
             then \<exists>a b ra rb before. (Execute ''A'' a, Inr ra) \<in> set h \<and> (Execute ''B'' b, Inr rb) \<in> set h
                    \<and> terminal_proof ra (Some before) = None \<and> parse_one_uuid (fld ra ''stdout'') = Inr uuid
                    \<and> (\<exists>after. pyeq before after \<and> terminal_proof rb (Some after) = None)
                    \<and> parse_one_uuid (fld rb ''stdout'') = Inr uuid
             else True))"

lemma pair_refuse_value:
  "pair_refuse \<beta> c reason (s, h) = (x, s', h') \<Longrightarrow>
   (\<exists>e r. h' = h @ [(JournalAppend e, r)])
   \<and> (case x of Inl e \<Rightarrow> s' = (if is_exception e then ''UNKNOWN'' else s)
      | Inr v \<Rightarrow> s' = ''UNKNOWN'' \<and> v = outcome c (Some reason))"
  by (auto simp: pair_refuse_def Let_def pair_persist_def on_exception_writes andthen_def bnd_def call_def writes_def ret_def
      split: sum.splits prod.splits)

lemma pair_b_sound:
  assumes known: "exact_argv device vg False = Inr a" "exact_argv device vg True = Inr b"
    and admitted: "admit_b receipt (PTuple a) (Some before) (Some uuid) = None"
    and h2: "h2 = [(Identity, Inr before), (JournalAppend (pair_intent a b before), Inr r), (Execute ''A'' (PTuple a), Inr receipt),
      (JournalAppend (receipt_event ''A_RECEIPT'' receipt), Inr r1)]"
    and run: "bnd (or_unknown (identity \<beta>)) (\<lambda>after_a.
          if \<not> pyeq before after_a
          then pair_refuse \<beta> ''IDENTITY_CHANGED_B_FORBIDDEN'' ''host/device/tool identity changed after A''
          else pair_finish \<beta> device vg uuid b before receipt after_a) (s1, h2) = (x, s', h)"
    and live: "s1 \<noteq> ''EVIDENCE_COMPLETE''"
  shows "pair_sound device vg uuid s x s' h"
proof -
  have quiet: "list_ex runs_b (asked (h2 @ t)) = list_ex runs_b (map fst t)" for t
    by (simp add: h2 asked_def)
  consider (raised) e where "\<beta> h2 Identity = Inl e" | (rejected) m e where "\<beta> h2 Identity = Inr m" "validate_manifest m = Inl e"
    | (answered) m where "\<beta> h2 Identity = Inr m" "validate_manifest m = Inr m"
    using validate_same(1) by (metis sum.exhaust)
  then show ?thesis
  proof cases
    case raised
    then have "x = Inl e \<and> s' = (if is_exception e then ''UNKNOWN'' else s1) \<and> h = h2 @ [(Identity, Inl e)]"
      using run by (auto simp: identity_def bnd_def on_exception_writes call_def writes_def)
    then show ?thesis using quiet [of "[(Identity, Inl e)]"] live by (simp add: pair_sound_def)
  next
    case rejected
    then have "x = Inl e \<and> s' = (if is_exception e then ''UNKNOWN'' else s1) \<and> h = h2 @ [(Identity, Inr m)]"
      using run by (auto simp: identity_def bnd_def on_exception_writes call_def writes_def lift_def raise_def)
    then show ?thesis using quiet [of "[(Identity, Inr m)]"] live by (simp add: pair_sound_def)
  next
    case answered
    let ?h3 = "h2 @ [(Identity, Inr m)]"
    have run3: "(if \<not> pyeq before m
          then pair_refuse \<beta> ''IDENTITY_CHANGED_B_FORBIDDEN'' ''host/device/tool identity changed after A''
          else pair_finish \<beta> device vg uuid b before receipt m) (s1, ?h3) = (x, s', h)"
      using run answered by (simp add: identity_def bnd_def on_exception_writes call_def lift_def ret_def)
    show ?thesis
    proof (cases "pyeq before m")
      case False
      with run3 have "pair_refuse \<beta> ''IDENTITY_CHANGED_B_FORBIDDEN'' ''host/device/tool identity changed after A'' (s1, ?h3) = (x, s', h)"
        by simp
      from pair_refuse_value [OF this] obtain e r2 where "\<forall>v. x = Inr v \<longrightarrow> s' = ''UNKNOWN''"
        "\<forall>e. x = Inl e \<longrightarrow> s' = (if is_exception e then ''UNKNOWN'' else s1)" "h = h2 @ [(Identity, Inr m), (JournalAppend e, r2)]"
        "\<forall>v. x = Inr v \<longrightarrow> fld v ''classification'' = PStr ''IDENTITY_CHANGED_B_FORBIDDEN''" by (auto split: sum.splits)
      then show ?thesis using quiet [of "[(Identity, Inr m), (JournalAppend e, r2)]"] live by (simp add: pair_sound_def split: sum.splits)
    next
      case True
      with run3 have "pair_finish \<beta> device vg uuid b before receipt m (s1, ?h3) = (x, s', h)" by simp
      note fin = pair_finish_value [OF this]
      have result: "s' = (if fld v ''classification'' = PStr ''PAIR_MATCH_REPETITION_REQUIRED'' then ''EVIDENCE_COMPLETE'' else ''UNKNOWN'')
          \<and> (if s' = ''EVIDENCE_COMPLETE''
             then \<exists>a b ra rb before. (Execute ''A'' a, Inr ra) \<in> set h \<and> (Execute ''B'' b, Inr rb) \<in> set h
                    \<and> terminal_proof ra (Some before) = None \<and> parse_one_uuid (fld ra ''stdout'') = Inr uuid
                    \<and> (\<exists>after. pyeq before after \<and> terminal_proof rb (Some after) = None)
                    \<and> parse_one_uuid (fld rb ''stdout'') = Inr uuid
             else True)" if "x = Inr v" for v
      proof -
        obtain rb after where v: "(Execute ''B'' (PTuple b), Inr rb) \<in> set h" "v = compare_pair receipt rb device vg uuid before after"
          "s' = (if fld v ''classification'' = PStr ''PAIR_MATCH_REPETITION_REQUIRED'' then ''EVIDENCE_COMPLETE'' else ''UNKNOWN'')"
          using fin \<open>x = Inr v\<close> by auto
        have "(Execute ''A'' (PTuple a), Inr receipt) \<in> set h" using fin by (auto simp: h2)
        with v compare_match [of receipt rb device vg uuid before after] show ?thesis by (simp split: if_splits) blast
      qed
      have "if list_ex runs_b (asked h) then b_admitted device vg uuid h else True"
      proof (cases "\<exists>e. h = ?h3 @ [(JournalAppend (b_intent m), Inl e)]")
        case True
        then show ?thesis by (auto simp: h2 asked_def)
      next
        case False
        then obtain r2 rb rest where h: "h = ?h3 @ (JournalAppend (b_intent m), Inr r2) # (Execute ''B'' (PTuple b), rb) # rest"
          "list_all (\<lambda>qr. \<not> runs_b (fst qr)) rest" using fin by auto
        have "b_admitted device vg uuid h"
          unfolding b_admitted_def
          by (rule exI [of _ a], rule exI [of _ b], rule exI [of _ before], rule exI [of _ receipt], rule exI [of _ m])
            (use known admitted True h in \<open>simp add: h2 asked_def a_calls_def b_calls_def list_all_iff\<close>)
        then show ?thesis by simp
      qed
      then show ?thesis using result fin live by (cases x) (auto simp: pair_sound_def)
    qed
  qed
qed

lemma pair_second_sound:
  assumes known: "exact_argv device vg False = Inr a" "exact_argv device vg True = Inr b"
    and h1: "h1 = [(Identity, Inr before), (JournalAppend (pair_intent a b before), Inr r), (Execute ''A'' (PTuple a), Inr receipt)]"
    and run: "pair_second \<beta> device vg uuid a b before receipt (s1, h1) = (x, s', h)"
    and live: "s1 \<noteq> ''EVIDENCE_COMPLETE''"
  shows "pair_sound device vg uuid s x s' h"
proof -
  let ?q = "JournalAppend (receipt_event ''A_RECEIPT'' receipt)"
  have quiet: "\<not> list_ex runs_b (asked (h1 @ (?q, r1) # t)) \<longleftrightarrow> \<not> list_ex runs_b (map fst t)" for r1 t
    by (simp add: h1 asked_def)
  show ?thesis
  proof (cases "\<beta> h1 ?q")
    case (Inl e)
    then have "x = Inl e \<and> s' = (if is_exception e then ''UNKNOWN'' else s1) \<and> h = h1 @ [(?q, Inl e)]"
      using run by (auto simp: pair_second_def pair_persist_def andthen_def bnd_def on_exception_writes call_def writes_def)
    then show ?thesis using quiet [of "Inl e" "[]"] live by (simp add: pair_sound_def)
  next
    case (Inr r1)
    let ?h2 = "h1 @ [(?q, Inr r1)]"
    have run2: "(case admit_b receipt (PTuple a) (Some before) (Some uuid) of
        Some reason \<Rightarrow> pair_refuse \<beta> ''A_AMBIGUOUS_B_FORBIDDEN'' reason
      | None \<Rightarrow>
          bnd (or_unknown (identity \<beta>)) (\<lambda>after_a.
          if \<not> pyeq before after_a
          then pair_refuse \<beta> ''IDENTITY_CHANGED_B_FORBIDDEN'' ''host/device/tool identity changed after A''
          else pair_finish \<beta> device vg uuid b before receipt after_a)) (s1, ?h2) = (x, s', h)"
      using run Inr by (simp add: pair_second_def pair_persist_def andthen_def bnd_def on_exception_writes call_def ret_def)
    show ?thesis
    proof (cases "admit_b receipt (PTuple a) (Some before) (Some uuid)")
      case (Some reason)
      with run2 have "pair_refuse \<beta> ''A_AMBIGUOUS_B_FORBIDDEN'' reason (s1, ?h2) = (x, s', h)" by simp
      from pair_refuse_value [OF this] obtain e r2 where "\<forall>v. x = Inr v \<longrightarrow> s' = ''UNKNOWN''"
        "\<forall>e. x = Inl e \<longrightarrow> s' = (if is_exception e then ''UNKNOWN'' else s1)" "h = ?h2 @ [(JournalAppend e, r2)]"
        "\<forall>v. x = Inr v \<longrightarrow> fld v ''classification'' = PStr ''A_AMBIGUOUS_B_FORBIDDEN''" by (auto split: sum.splits)
      then show ?thesis using quiet [of "Inr r1" "[(JournalAppend e, r2)]"] live by (simp add: pair_sound_def split: sum.splits)
    next
      case None
      then have "bnd (or_unknown (identity \<beta>)) (\<lambda>after_a.
          if \<not> pyeq before after_a
          then pair_refuse \<beta> ''IDENTITY_CHANGED_B_FORBIDDEN'' ''host/device/tool identity changed after A''
          else pair_finish \<beta> device vg uuid b before receipt after_a) (s1, ?h2) = (x, s', h)" using run2 by simp
      from pair_b_sound [OF known None _ this live, of r r1] show ?thesis by (simp add: h1)
    qed
  qed
qed

text \<open>
  C20: For every journal, executor and reading of the host's identity: probe B runs at most once,
  and only after A ran with the planned arguments, its receipt was journalled, the receipt proves
  the exact child exited and reaped with the configured UUID as its output, the identity of the host read
  before A and after A is the same, and the intent of B was journalled. The controller ends complete only with a
  match, which rests on two such receipts with the same UUID; every failure with an exception and
  every other result leaves it in UNKNOWN, and an exit that \<^verbatim>\<open>except Exception\<close> lets
  pass (\<^verbatim>\<open>KeyboardInterrupt\<close>) never leaves it complete.
\<close>

theorem lvm_b_after_a:
  "case run_pair \<beta> device vg uuid (s, []) of (x, s', h) \<Rightarrow> pair_sound device vg uuid s x s' h"
proof (cases "s = ''NEW''")
  case False
  then show ?thesis by (simp add: run_pair_def bnd_def reads_def raise_def pair_sound_def asked_def)
next
  case True
  obtain y s1 h1 where start: "pair_start \<beta> device vg uuid (''STARTING'', []) = (y, s1, h1)" by (metis prod_cases3)
  note first = pair_start_value [OF start]
  show ?thesis
  proof (cases y)
    case (Inl e)
    then show ?thesis
      using True start first
      by (auto simp: run_pair_def bnd_def reads_def andthen_def writes_def on_exception_writes pair_sound_def list_ex_iff)
  next
    case (Inr z)
    obtain a b before receipt where z: "z = (a, b, before, receipt)" by (cases z) auto
    obtain r where h1: "h1 = [(Identity, Inr before), (JournalAppend (pair_intent a b before), Inr r),
        (Execute ''A'' (PTuple a), Inr receipt)]" and known: "exact_argv device vg False = Inr a" "exact_argv device vg True = Inr b"
        "validate_lvm_uuid uuid = Inr uuid" "validate_manifest before = Inr before" "s1 = ''A_DISPATCHED''"
      using first Inr z by auto
    have "run_pair \<beta> device vg uuid (s, []) = pair_second \<beta> device vg uuid a b before receipt (s1, h1)"
      using True start Inr z
      by (simp add: run_pair_def bnd_def reads_def andthen_def writes_def on_exception_writes)
    moreover obtain x s' h where "pair_second \<beta> device vg uuid a b before receipt (s1, h1) = (x, s', h)" by (metis prod_cases3)
    ultimately show ?thesis using pair_second_sound [OF known(1,2) h1] known(5) by simp
  qed
qed

end
