(* ===== verification/FileBackend.thy ===== *)
theory FileBackend
  imports IntentFile
begin

text \<open>
  The create-only file backend of
  \<^verbatim>\<open>experiments/thick-generations/prelive_exact_journal_file_backend.py\<close>, which stores the INTENT
  bytes for \<open>IntentFile\<close>. The operating system is the dependency: a status is a dictionary with the
  \<^verbatim>\<open>st_\<close> fields, a descriptor and a byte count are integers. The effective user and the
  process are fixed, and passed in; which foreign exceptions are an \<^verbatim>\<open>OSError\<close> is a parameter.
\<close>

section \<open>State and calls\<close>

datatype fb_call =
    FbFstat pyval
  | FbStatParent
  | FbStatAt pyval string
  | FbOpenParent
  | FbMkdir pyval string
  | FbOpenRoot pyval string
  | FbOpenRecord pyval string
  | FbFsync pyval
  | FbWrite pyval string
  | FbClose pyval

record file_backend =
  fb_root_name :: string
  fb_owner :: "nat \<times> nat"
  fb_parent_fd :: pyval
  fb_root_fd :: pyval
  fb_parent_identity :: pyval
  fb_root_identity :: pyval
  fb_poisoned :: bool
  fb_release_evidence :: pyval
  fb_release_started :: bool
  fb_records :: "pyval list"
  fb_state :: string

type_synonym 'a fb_prog = "(file_backend, fb_call, 'a) prog"

definition fb_parent :: string where "fb_parent = ''/var/tmp''"

definition fb_prefix :: string where "fb_prefix = ''slt-prelive-journal-''"

definition fb_new :: "nat \<times> nat \<Rightarrow> string \<Rightarrow> file_backend" where
  "fb_new owner nonce =
     \<lparr>fb_root_name = fb_prefix @ nonce, fb_owner = owner, fb_parent_fd = PNone, fb_root_fd = PNone,
      fb_parent_identity = PNone, fb_root_identity = PNone, fb_poisoned = False, fb_release_evidence = PNone,
      fb_release_started = False, fb_records = [], fb_state = ''CREATING''\<rparr>"

definition artifact_path :: "file_backend \<Rightarrow> string" where
  "artifact_path b = fb_parent @ ''/'' @ fb_root_name b"

abbreviation fb_enter :: "string \<Rightarrow> unit fb_prog" where
  "fb_enter state \<equiv> writes (fb_state_update (\<lambda>_. state))"

definition fb_poison :: "unit fb_prog" where
  "fb_poison = writes (\<lambda>b. b\<lparr>fb_poisoned := True, fb_state := ''UNKNOWN''\<rparr>)"

definition fb_call :: "fb_call backend \<Rightarrow> fb_call \<Rightarrow> unit fb_prog" where
  "fb_call \<beta> q = bnd (call \<beta> q) (\<lambda>_. ret ())"

definition assert_owner :: "nat \<times> nat \<Rightarrow> unit fb_prog" where
  "assert_owner self =
     bnd (reads (\<lambda>b. b)) (\<lambda>b.
     if self \<noteq> fb_owner b \<or> fb_state b \<noteq> ''READY'' \<or> fb_poisoned b
     then andthen fb_poison (raise (Refusal ''file backend owner or phase changed'')) else ret ())"

section \<open>Identities\<close>

abbreviation st_mode :: "pyval \<Rightarrow> int" where "st_mode v \<equiv> int_of (fld v ''st_mode'')"

definition dev_ino :: "pyval \<Rightarrow> pyval" where
  "dev_ino v = PTuple [fld v ''st_dev'', fld v ''st_ino'']"

definition directory_identity :: "int \<Rightarrow> pyval \<Rightarrow> pyval res" where
  "directory_identity euid v =
     rbind (rand (s_isdir (st_mode v)) (Inr (pyeq (fld v ''st_uid'') (PInt euid)))) (\<lambda>ok.
     rbind (checks [need ok ''journal directory owner/type'']) (\<lambda>_.
     Inr (PDict [(''dev'', fld v ''st_dev''), (''inode'', fld v ''st_ino''), (''uid'', fld v ''st_uid''),
                 (''mode'', PInt (st_mode v mod 4096))])))"

definition identity_tuple :: "pyval \<Rightarrow> pyval" where
  "identity_tuple i = PTuple [fld i ''dev'', fld i ''inode'', fld i ''uid'', fld i ''mode'']"

definition opened_fd :: "pyval \<Rightarrow> pyval list \<Rightarrow> bool" where
  "opened_fd fd others \<longleftrightarrow> integer fd 3 \<and> list_all (\<lambda>x. \<not> pyeq fd x) others"

section \<open>Construction\<close>

definition is_os_error :: "(string \<Rightarrow> bool) \<Rightarrow> exc \<Rightarrow> bool" where
  "is_os_error os_error e \<longleftrightarrow> (case e of Foreign t \<Rightarrow> os_error t | _ \<Rightarrow> False)"

definition standard_open :: "fb_call backend \<Rightarrow> (string \<Rightarrow> bool) \<Rightarrow> int \<Rightarrow> unit fb_prog" where
  "standard_open \<beta> os_error fd =
     catch (fb_call \<beta> (FbFstat (PInt fd)))
       (\<lambda>e. raise (if is_os_error os_error e then Refusal ''standard descriptors must already be open'' else e))"

definition create_parent :: "fb_call backend \<Rightarrow> int \<Rightarrow> unit fb_prog" where
  "create_parent \<beta> euid =
     bnd (call \<beta> FbOpenParent) (\<lambda>fd.
     andthen (writes (fb_parent_fd_update (\<lambda>_. fd)))
     (andthen (demand (integer fd 3) ''unsafe parent descriptor'')
     (bnd (call \<beta> (FbFstat fd)) (\<lambda>opened.
     bnd (call \<beta> FbStatParent) (\<lambda>named.
     bnd (lift (directory_identity euid opened)) (\<lambda>identity.
     andthen (writes (fb_parent_identity_update (\<lambda>_. identity)))
     (bnd (lift (rand (Inr (pyeq (dev_ino named) (dev_ino opened))) (s_isdir (st_mode named)))) (\<lambda>ok.
     demand ok ''journal parent namespace identity''))))))))"

definition create_root :: "fb_call backend \<Rightarrow> int \<Rightarrow> unit fb_prog" where
  "create_root \<beta> euid =
     bnd (reads (\<lambda>b. b)) (\<lambda>b.
     andthen (fb_call \<beta> (FbMkdir (fb_parent_fd b) (fb_root_name b)))
     (andthen (fb_call \<beta> (FbFsync (fb_parent_fd b)))
     (bnd (call \<beta> (FbOpenRoot (fb_parent_fd b) (fb_root_name b))) (\<lambda>fd.
     andthen (writes (fb_root_fd_update (\<lambda>_. fd)))
     (andthen (demand (opened_fd fd [fb_parent_fd b]) ''unsafe root descriptor'')
     (bnd (call \<beta> (FbFstat fd)) (\<lambda>opened.
     bnd (call \<beta> (FbStatAt (fb_parent_fd b) (fb_root_name b))) (\<lambda>named.
     bnd (lift (directory_identity euid opened)) (\<lambda>identity.
     andthen (writes (fb_root_identity_update (\<lambda>_. identity)))
     (demand (pyeq (dev_ino named) (dev_ino opened) \<and> pyeq (fld opened ''st_uid'') (PInt euid)
        \<and> pyeq (fld named ''st_uid'') (PInt euid) \<and> st_mode opened mod 4096 = 0x1C0 \<and> st_mode named mod 4096 = 0x1C0)
        ''journal root namespace identity''))))))))))"

text \<open>\<^verbatim>\<open>_best_effort_close\<close>\<close>

definition close_quietly ::
    "fb_call backend \<Rightarrow> (string \<Rightarrow> bool) \<Rightarrow> (file_backend \<Rightarrow> pyval) \<Rightarrow> (file_backend \<Rightarrow> file_backend) \<Rightarrow> unit fb_prog" where
  "close_quietly \<beta> os_error field clear =
     bnd (reads field) (\<lambda>fd.
     if fd = PNone then ret ()
     else andthen (writes clear)
       (catch (fb_call \<beta> (FbClose fd)) (\<lambda>e. if is_os_error os_error e then ret () else raise e)))"

definition best_effort_close :: "fb_call backend \<Rightarrow> (string \<Rightarrow> bool) \<Rightarrow> unit fb_prog" where
  "best_effort_close \<beta> os_error =
     andthen (close_quietly \<beta> os_error fb_root_fd (fb_root_fd_update (\<lambda>_. PNone)))
       (close_quietly \<beta> os_error fb_parent_fd (fb_parent_fd_update (\<lambda>_. PNone)))"

definition fb_create :: "fb_call backend \<Rightarrow> (string \<Rightarrow> bool) \<Rightarrow> int \<Rightarrow> unit fb_prog" where
  "fb_create \<beta> os_error euid =
     andthen (foreach (standard_open \<beta> os_error) [0, 1, 2])
     (andthen (create_parent \<beta> euid) (create_root \<beta> euid))"

definition fb_init :: "fb_call backend \<Rightarrow> (string \<Rightarrow> bool) \<Rightarrow> int \<Rightarrow> unit fb_prog" where
  "fb_init \<beta> os_error euid =
     on_error
       (andthen (fb_create \<beta> os_error euid)
       (bnd (reads fb_state) (\<lambda>state.
        andthen (demand (state = ''CREATING'') ''backend creation reentrancy'') (fb_enter ''READY''))))
       (\<lambda>_. andthen (fb_enter ''UNKNOWN'') (best_effort_close \<beta> os_error))"

definition create_fresh_file_backend ::
    "fb_call backend \<Rightarrow> (string \<Rightarrow> bool) \<Rightarrow> int \<Rightarrow> nat \<times> nat \<Rightarrow> pyval \<Rightarrow> unit res \<times> file_backend \<times> fb_call hist" where
  "create_fresh_file_backend \<beta> os_error euid owner nonce =
     (let b = fb_new owner (str_of nonce) in
     if matches (hexn 32) nonce then fb_init \<beta> os_error euid (b, [])
     else (Inl (Refusal ''file backend construction is private''), b, []))"


section \<open>Persistence\<close>

definition namespace_same :: "pyval \<Rightarrow> pyval \<Rightarrow> pyval \<Rightarrow> pyval \<Rightarrow> file_backend \<Rightarrow> bool" where
  "namespace_same parent_fd parent_name root_fd root_name b \<longleftrightarrow>
     pyeq (stat_tuple parent_fd []) (identity_tuple (fb_parent_identity b))
   \<and> pyeq (dev_ino parent_name) (dev_ino parent_fd)
   \<and> pyeq (stat_tuple root_fd []) (identity_tuple (fb_root_identity b))
   \<and> pyeq (stat_tuple root_name []) (stat_tuple root_fd [])"

definition verify_namespace :: "fb_call backend \<Rightarrow> unit fb_prog" where
  "verify_namespace \<beta> =
     bnd (reads (\<lambda>b. b)) (\<lambda>b.
     bnd (call \<beta> (FbFstat (fb_parent_fd b))) (\<lambda>parent_fd.
     bnd (call \<beta> FbStatParent) (\<lambda>parent_name.
     bnd (call \<beta> (FbFstat (fb_root_fd b))) (\<lambda>root_fd.
     bnd (call \<beta> (FbStatAt (fb_parent_fd b) (fb_root_name b))) (\<lambda>root_name.
     demand (namespace_same parent_fd parent_name root_fd root_name b) ''journal namespace continuity'')))))"

text \<open>Every write must make progress and none can write more than it was given, so the loop ends.\<close>

function write_all :: "fb_call backend \<Rightarrow> pyval \<Rightarrow> string \<Rightarrow> unit fb_prog" where
  "write_all \<beta> fd data \<sigma> =
     (if data = [] then (Inr (), \<sigma>)
      else (case call \<beta> (FbWrite fd data) \<sigma> of
           (Inl e, \<tau>) \<Rightarrow> (Inl e, \<tau>)
         | (Inr v, \<tau>) \<Rightarrow>
             if integer v 1 \<and> int_of v \<le> int (length data) then write_all \<beta> fd (drop (nat (int_of v)) data) \<tau>
             else (Inl (Refusal ''journal write made no strict progress''), \<tau>)))"
  by pat_completeness auto
termination
  by (relation "measure (\<lambda>(\<beta>, fd, data, \<sigma>). length data)")
    (auto simp: integer_def)

declare write_all.simps [simp del]

text \<open>\<^verbatim>\<open>exact-event-[0-9]{6}\.json\<close>\<close>

definition record_re :: "string \<Rightarrow> bool" where
  "record_re s \<longleftrightarrow> length s = 23 \<and> take 12 s = ''exact-event-'' \<and> list_all digit (take 6 (drop 12 s)) \<and> drop 18 s = ''.json''"

definition record_input_ok :: "pyval \<Rightarrow> pyval \<Rightarrow> bool" where
  "record_input_ok name raw \<longleftrightarrow>
     matches record_re name \<and> (case raw of PBytes s \<Rightarrow> s \<noteq> [] \<and> length s \<le> 65536 | _ \<Rightarrow> False)"

definition fresh_record :: "int \<Rightarrow> pyval \<Rightarrow> pyval \<Rightarrow> bool res" where
  "fresh_record euid opened named =
     rand (s_isreg (st_mode opened))
       (Inr (pyeq (fld opened ''st_uid'') (PInt euid) \<and> st_mode opened mod 4096 = 0x180
          \<and> pyeq (fld opened ''st_nlink'') (PInt 1) \<and> pyeq (dev_ino opened) (dev_ino named)))"

definition record_tuple :: "pyval \<Rightarrow> pyval \<Rightarrow> pyval \<Rightarrow> string \<Rightarrow> pyval" where
  "record_tuple dev inode uid raw =
     PTuple [dev, inode, uid, PInt 0x180, PInt 1, PInt (int (length raw))]"

definition final_record :: "pyval \<Rightarrow> pyval \<Rightarrow> pyval \<Rightarrow> string \<Rightarrow> bool" where
  "final_record opened final final_name raw \<longleftrightarrow>
     pyeq (stat_tuple final [''st_nlink'', ''st_size''])
       (record_tuple (fld opened ''st_dev'') (fld opened ''st_ino'') (fld opened ''st_uid'') raw)
   \<and> pyeq (stat_tuple final_name [''st_nlink'', ''st_size''])
       (record_tuple (fld final ''st_dev'') (fld final ''st_ino'') (fld final ''st_uid'') raw)"

definition record_identity :: "pyval \<Rightarrow> pyval" where
  "record_identity final =
     PDict [(''dev'', fld final ''st_dev''), (''inode'', fld final ''st_ino''), (''uid'', fld final ''st_uid''),
            (''mode'', PInt 0x180), (''nlink'', PInt 1)]"

definition persisting_state :: "string \<Rightarrow> unit fb_prog" where
  "persisting_state msg = bnd (reads fb_state) (\<lambda>s. demand (s = ''PERSISTING'') msg)"

definition open_record :: "fb_call backend \<Rightarrow> string \<Rightarrow> pyval fb_prog" where
  "open_record \<beta> name =
     andthen (verify_namespace \<beta>) (bnd (reads fb_root_fd) (\<lambda>root. call \<beta> (FbOpenRecord root name)))"

definition sync_record :: "fb_call backend \<Rightarrow> string \<Rightarrow> string \<Rightarrow> pyval \<Rightarrow> pyval \<Rightarrow> pyval fb_prog" where
  "sync_record \<beta> name raw fd opened =
     bnd (reads fb_root_fd) (\<lambda>root.
     andthen (fb_call \<beta> (FbFsync fd))
     (andthen (fb_call \<beta> (FbFsync root))
     (bnd (call \<beta> (FbFstat fd)) (\<lambda>final.
     bnd (call \<beta> (FbStatAt root name)) (\<lambda>final_name.
     andthen (demand (final_record opened final final_name raw) ''final record identity'')
     (andthen (persisting_state ''persistence reentrancy'')
     (ret (record_identity final))))))))"

definition write_record :: "fb_call backend \<Rightarrow> int \<Rightarrow> string \<Rightarrow> string \<Rightarrow> pyval \<Rightarrow> pyval fb_prog" where
  "write_record \<beta> euid name raw fd =
     bnd (reads (\<lambda>b. b)) (\<lambda>b.
     andthen (demand (opened_fd fd [fb_parent_fd b, fb_root_fd b]) ''unsafe record descriptor'')
     (bnd (call \<beta> (FbFstat fd)) (\<lambda>opened.
     bnd (call \<beta> (FbStatAt (fb_root_fd b) name)) (\<lambda>named.
     bnd (lift (fresh_record euid opened named)) (\<lambda>ok.
     andthen (demand ok ''fresh record identity'')
     (andthen (write_all \<beta> fd raw) (sync_record \<beta> name raw fd opened)))))))"

text \<open>The identity of the closed record, or the first failure\<close>

definition store_record :: "fb_call backend \<Rightarrow> int \<Rightarrow> string \<Rightarrow> string \<Rightarrow> pyval res fb_prog" where
  "store_record \<beta> euid name raw =
     bnd (captured (open_record \<beta> name)) (\<lambda>opening.
     case opening of Inl e \<Rightarrow> ret (Inl e)
     | Inr fd \<Rightarrow>
         bnd (captured (write_record \<beta> euid name raw fd)) (\<lambda>writing.
         bnd (captured (fb_call \<beta> (FbClose fd))) (\<lambda>closing.
         ret (rbind writing (\<lambda>identity. rbind closing (\<lambda>_. Inr identity))))))"

definition confirm_record :: "fb_call backend \<Rightarrow> string \<Rightarrow> string \<Rightarrow> pyval \<Rightarrow> unit fb_prog" where
  "confirm_record \<beta> name raw identity =
     andthen (verify_namespace \<beta>)
     (bnd (reads fb_root_fd) (\<lambda>root.
     bnd (call \<beta> (FbStatAt root name)) (\<lambda>final_name.
     andthen (demand (pyeq (stat_tuple final_name [''st_nlink'', ''st_size''])
        (record_tuple (fld identity ''dev'') (fld identity ''inode'') (fld identity ''uid'') raw))
        ''post-close named record identity'')
     (persisting_state ''post-close reentrancy''))))"

definition record_ack :: "string \<Rightarrow> string \<Rightarrow> pyval \<Rightarrow> pyval" where
  "record_ack name raw identity =
     PDict [(''bytes_written'', PInt (int (length raw))), (''file_synced'', PBool True), (''dir_synced'', PBool True),
            (''closed'', PBool True), (''name'', PStr name), (''sha256'', PStr (sha256 raw)),
            (''record_identity'', identity)]"

definition persist_exact_file ::
    "fb_call backend \<Rightarrow> int \<Rightarrow> nat \<times> nat \<Rightarrow> pyval \<Rightarrow> pyval \<Rightarrow> pyval fb_prog" where
  "persist_exact_file \<beta> euid self name raw =
     andthen (assert_owner self)
     (andthen (demand (record_input_ok name raw) ''exact record input'')
     (let name = str_of name; raw = (case raw of PBytes s \<Rightarrow> s | _ \<Rightarrow> []) in
     andthen (fb_enter ''PERSISTING'')
     (bnd (store_record \<beta> euid name raw) (\<lambda>stored.
     case stored of
       Inl e \<Rightarrow> andthen fb_poison (raise (Refusal ''exact record persistence is ambiguous''))
     | Inr identity \<Rightarrow>
         andthen (on_error (confirm_record \<beta> name raw identity) (\<lambda>_. fb_poison))
         (andthen (writes (\<lambda>b. b\<lparr>fb_state := ''READY'', fb_records := fb_records b @ [record_ack name raw identity]\<rparr>))
         (ret (record_ack name raw identity)))))))"

definition qualification_evidence :: "nat \<times> nat \<Rightarrow> pyval fb_prog" where
  "qualification_evidence self =
     andthen (assert_owner self)
     (bnd (reads (\<lambda>b. b)) (\<lambda>b. ret (PDict [(''root_identity'', fb_root_identity b), (''records'', PList (fb_records b))])))"

section \<open>Release\<close>

definition release_fd ::
    "fb_call backend \<Rightarrow> (file_backend \<Rightarrow> pyval) \<Rightarrow> (file_backend \<Rightarrow> file_backend) \<Rightarrow> unit res fb_prog" where
  "release_fd \<beta> field clear =
     bnd (reads field) (\<lambda>fd. andthen (writes clear) (captured (fb_call \<beta> (FbClose fd))))"

definition settle_release :: "string \<Rightarrow> bool \<Rightarrow> unit fb_prog" where
  "settle_release prior ambiguous =
     bnd (reads (\<lambda>b. b)) (\<lambda>b.
     if prior = ''READY'' \<and> (ambiguous \<or> fb_state b \<noteq> ''CLOSING'' \<or> fb_poisoned b) then fb_poison
     else if prior = ''UNKNOWN'' then fb_poison
     else fb_enter ''CLOSED_ARTIFACTS_PRESERVED'')"

definition release_record :: "string \<Rightarrow> bool \<Rightarrow> file_backend \<Rightarrow> pyval" where
  "release_record prior ambiguous b =
     PDict [(''prior_state'', PStr prior), (''root_fd_released'', PBool (fb_root_fd b = PNone)),
            (''parent_fd_released'', PBool (fb_parent_fd b = PNone)), (''close_ambiguous'', PBool ambiguous),
            (''final_state'', PStr (fb_state b))]"

definition release_available :: "nat \<times> nat \<Rightarrow> file_backend \<Rightarrow> bool" where
  "release_available self b \<longleftrightarrow>
     self = fb_owner b \<and> fb_state b \<notin> {''CLOSING'', ''CLOSED_ARTIFACTS_PRESERVED''}
   \<and> \<not> fb_release_started b \<and> fb_release_evidence b = PNone"

definition release_descriptors :: "fb_call backend \<Rightarrow> string \<Rightarrow> pyval fb_prog" where
  "release_descriptors \<beta> prior =
     andthen (writes (\<lambda>b. b\<lparr>fb_release_started := True, fb_state := (if prior = ''READY'' then ''CLOSING'' else fb_state b)\<rparr>))
     (bnd (release_fd \<beta> fb_root_fd (fb_root_fd_update (\<lambda>_. PNone))) (\<lambda>r1.
     bnd (release_fd \<beta> fb_parent_fd (fb_parent_fd_update (\<lambda>_. PNone))) (\<lambda>r2.
     let ambiguous = isl r1 \<or> isl r2 in
     andthen (settle_release prior ambiguous)
     (andthen (writes (\<lambda>b. b\<lparr>fb_release_evidence := release_record prior ambiguous b\<rparr>))
     (andthen (demand (\<not> ambiguous) ''backend descriptor release is ambiguous'')
     (reads fb_release_evidence))))))"

definition release_descriptors_preserving_state :: "fb_call backend \<Rightarrow> nat \<times> nat \<Rightarrow> pyval fb_prog" where
  "release_descriptors_preserving_state \<beta> self =
     bnd (reads (\<lambda>b. b)) (\<lambda>b.
     if \<not> release_available self b then andthen fb_poison (raise (Refusal ''descriptor release unavailable''))
     else if fb_state b \<notin> {''READY'', ''UNKNOWN''} then andthen fb_poison (raise (Refusal ''descriptor release phase''))
     else release_descriptors \<beta> (fb_state b))"

definition close_preserving_artifacts :: "fb_call backend \<Rightarrow> nat \<times> nat \<Rightarrow> unit fb_prog" where
  "close_preserving_artifacts \<beta> self =
     andthen (assert_owner self)
     (bnd (release_descriptors_preserving_state \<beta> self) (\<lambda>evidence.
     bnd (reads (\<lambda>b. b)) (\<lambda>b.
     demand (fld evidence ''prior_state'' = PStr ''READY'' \<and> is_false (fld evidence ''close_ambiguous'')
        \<and> fb_state b = ''CLOSED_ARTIFACTS_PRESERVED'' \<and> \<not> fb_poisoned b) ''clean backend close'')))"


section \<open>What a history opened, wrote and closed\<close>

definition fb_opened :: "fb_call hist \<Rightarrow> pyval list" where
  "fb_opened h = concat (map (\<lambda>qr. case qr of (FbOpenRecord _ _, Inr fd) \<Rightarrow> [fd] | _ \<Rightarrow> []) h)"

definition fb_closed :: "fb_call hist \<Rightarrow> pyval list" where
  "fb_closed h = concat (map (\<lambda>qr. case fst qr of FbClose fd \<Rightarrow> [fd] | _ \<Rightarrow> []) h)"

definition fb_written :: "fb_call hist \<Rightarrow> string" where
  "fb_written h = concat (map (\<lambda>qr. case qr of (FbWrite _ data, Inr v) \<Rightarrow> take (nat (int_of v)) data | _ \<Rightarrow> []) h)"

lemma fb_trace_append [simp]:
  "fb_opened (h @ t) = fb_opened h @ fb_opened t" "fb_closed (h @ t) = fb_closed h @ fb_closed t"
  "fb_written (h @ t) = fb_written h @ fb_written t" "fb_opened [] = []" "fb_closed [] = []" "fb_written [] = []"
  by (simp_all add: fb_opened_def fb_closed_def fb_written_def)

lemma fb_trace_Cons:
  "fb_opened (qr # t) = fb_opened [qr] @ fb_opened t" "fb_closed (qr # t) = fb_closed [qr] @ fb_closed t"
  "fb_written (qr # t) = fb_written [qr] @ fb_written t"
  by (simp_all add: fb_opened_def fb_closed_def fb_written_def)

lemma fb_trace_call [simp]:
  "fb_opened ((FbOpenRecord r n, Inr fd) # t) = fd # fb_opened t" "fb_opened ((FbOpenRecord r n, Inl e) # t) = fb_opened t"
  "fb_closed ((FbOpenRecord r n, x) # t) = fb_closed t" "fb_written ((FbOpenRecord r n, x) # t) = fb_written t"
  "fb_opened ((FbClose fd, x) # t) = fb_opened t" "fb_closed ((FbClose fd, x) # t) = fd # fb_closed t"
  "fb_written ((FbClose fd, x) # t) = fb_written t"
  "fb_opened ((FbWrite fd data, x) # t) = fb_opened t" "fb_closed ((FbWrite fd data, x) # t) = fb_closed t"
  by (simp_all add: fb_opened_def fb_closed_def fb_written_def)

text \<open>Calls that neither open, write nor close\<close>

fun fb_quiet :: "fb_call \<Rightarrow> bool" where
  "fb_quiet (FbFstat _) = True"
| "fb_quiet FbStatParent = True"
| "fb_quiet (FbStatAt _ _) = True"
| "fb_quiet (FbFsync _) = True"
| "fb_quiet _ = False"

lemma fb_trace_quiet [simp]:
  "fb_quiet q \<Longrightarrow> fb_opened ((q, r) # t) = fb_opened t" "fb_quiet q \<Longrightarrow> fb_closed ((q, r) # t) = fb_closed t"
  "fb_quiet q \<Longrightarrow> fb_written ((q, r) # t) = fb_written t"
  by (cases q; simp add: fb_opened_def fb_closed_def fb_written_def)+

definition still :: "fb_call hist \<Rightarrow> bool" where
  "still t \<longleftrightarrow> list_all (\<lambda>qr. fb_quiet (fst qr)) t"

lemma still_simps [simp]: "still []" "still (qr # t) \<longleftrightarrow> fb_quiet (fst qr) \<and> still t" "still (t @ u) \<longleftrightarrow> still t \<and> still u"
  by (simp_all add: still_def)

lemma still_trace: "still t \<Longrightarrow> fb_opened t = [] \<and> fb_closed t = [] \<and> fb_written t = []"
proof (induction t)
  case (Cons qr t)
  then show ?case
    by (cases qr; cases "fst qr") (auto simp: fb_opened_def fb_closed_def fb_written_def)
qed simp

lemma write_all_run:
  assumes "write_all \<beta> fd data (s, h) = (x, s', h')"
  shows "s' = s \<and> (\<exists>t. h' = h @ t \<and> fst ` set t \<subseteq> range (FbWrite fd) \<and> (x = Inr () \<longrightarrow> fb_written t = data))"
  using assms
proof (induction \<beta> fd data "(s, h)" arbitrary: s h rule: write_all.induct)
  case (1 \<beta> fd data s h)
  let ?q = "FbWrite fd data"
  show ?case
  proof (cases "data = []")
    case True
    with 1(2) show ?thesis by (auto simp: write_all.simps intro: exI [of _ "[]"])
  next
    case more: False
    show ?thesis
    proof (cases "\<exists>n. \<beta> h ?q = Inr (PInt n) \<and> 1 \<le> n \<and> n \<le> int (length data)")
      case False
      with more 1(2) have "s' = s \<and> h' = h @ [(?q, \<beta> h ?q)] \<and> isl x"
        by (auto simp: write_all.simps [of _ _ _ "(s, h)"] call_def integer_iff split: sum.splits if_splits)
      then show ?thesis by (intro conjI exI [of _ "[(?q, \<beta> h ?q)]"]) auto
    next
      case True
      then obtain n where n: "\<beta> h ?q = Inr (PInt n)" "1 \<le> n" "n \<le> int (length data)" by blast
      have call: "call \<beta> ?q (s, h) = (Inr (PInt n), s, h @ [(?q, Inr (PInt n))])" using n by (simp add: call_def)
      have "write_all \<beta> fd (drop (nat n) data) (s, h @ [(?q, Inr (PInt n))]) = (x, s', h')"
        using 1(2) more n call by (simp add: write_all.simps [of _ _ _ "(s, h)"])
      then obtain t where t: "s' = s" "h' = (h @ [(?q, Inr (PInt n))]) @ t" "fst ` set t \<subseteq> range (FbWrite fd)"
        "x = Inr () \<longrightarrow> fb_written t = drop (nat n) data"
        using 1(1) [OF more call [symmetric] refl] n by auto
      have "x = Inr () \<longrightarrow> fb_written ((?q, Inr (PInt n)) # t) = data"
        using t(4) by (simp add: fb_trace_Cons(3) [of _ t]) (simp add: fb_written_def)
      with t show ?thesis by (intro conjI exI [of _ "(?q, Inr (PInt n)) # t"]) auto
    qed
  qed
qed

lemma writes_trace:
  "fst ` set t \<subseteq> range (FbWrite fd) \<Longrightarrow> fb_opened t = [] \<and> fb_closed t = []"
  by (induction t) (auto simp: fb_opened_def fb_closed_def)


section \<open>One record\<close>

text \<open>The programs that make only quiet calls and keep the state\<close>

lemma verify_still:
  "wp (verify_namespace \<beta>) (\<lambda>_ (b', h'). b' = b \<and> (\<exists>t. h' = h @ t \<and> still t))
     (\<lambda>_ (b', h'). b' = b \<and> (\<exists>t. h' = h @ t \<and> still t)) (b, h)"
  unfolding verify_namespace_def by (auto simp: wp_simps split: sum.splits)

lemma open_record_wp:
  "wp (open_record \<beta> name)
     (\<lambda>fd (b', h'). b' = b \<and> (\<exists>t. h' = h @ t \<and> fb_opened t = [fd] \<and> fb_closed t = [] \<and> fb_written t = []))
     (\<lambda>_ (b', h'). b' = b \<and> (\<exists>t. h' = h @ t \<and> fb_opened t = [] \<and> fb_closed t = [] \<and> fb_written t = [])) (b, h)"
proof -
  have call: "wp (bnd (reads fb_root_fd) (\<lambda>root. call \<beta> (FbOpenRecord root name)))
     (\<lambda>fd (b', h'). b' = b \<and> (\<exists>t. h' = h @ t \<and> fb_opened t = [fd] \<and> fb_closed t = [] \<and> fb_written t = []))
     (\<lambda>_ (b', h'). b' = b \<and> (\<exists>t. h' = h @ t \<and> fb_opened t = [] \<and> fb_closed t = [] \<and> fb_written t = [])) (b, h @ t)"
    if "still t" for t
    using still_trace [OF that] by (auto simp: wp_simps split: sum.splits)
  show ?thesis
    unfolding open_record_def wp_andthen
    by (rule wp_mono [OF verify_still]) (auto dest: call still_trace)
qed

text \<open>
  A record that was written: all its bytes, then the record and its directory made durable, then
  looked at again; \<open>final\<close> is the status its identity is taken from.
\<close>

definition record_written :: "pyval \<Rightarrow> pyval \<Rightarrow> string \<Rightarrow> string \<Rightarrow> pyval \<Rightarrow> fb_call hist \<Rightarrow> bool" where
  "record_written fd root name raw final t \<longleftrightarrow>
     (\<exists>u w r1 r2 v. t = u @ w @ [(FbFsync fd, Inr r1), (FbFsync root, Inr r2), (FbFstat fd, Inr final), (FbStatAt root name, Inr v)]
        \<and> still u \<and> fst ` set w \<subseteq> range (FbWrite fd) \<and> fb_written w = raw
        \<and> pyeq (stat_tuple v [''st_nlink'', ''st_size''])
            (record_tuple (fld final ''st_dev'') (fld final ''st_ino'') (fld final ''st_uid'') raw))"

lemma write_all_wp:
  assumes "\<And>t. fst ` set t \<subseteq> range (FbWrite fd) \<Longrightarrow> fb_written t = data \<Longrightarrow> Q () (s, h @ t)"
    and "\<And>e t. fst ` set t \<subseteq> range (FbWrite fd) \<Longrightarrow> E e (s, h @ t)"
  shows "wp (write_all \<beta> fd data) Q E (s, h)"
proof -
  obtain x s' h' where run: "write_all \<beta> fd data (s, h) = (x, s', h')" by (metis prod_cases3)
  with write_all_run [OF run] assms show ?thesis by (cases x) (auto simp: wp_def)
qed

lemma write_record_wp:
  "wp (write_record \<beta> euid name raw fd)
     (\<lambda>i (b', h'). b' = b \<and> (\<exists>t final. h' = h @ t \<and> record_written fd (fb_root_fd b) name raw final t \<and> i = record_identity final))
     (\<lambda>_ (b', h'). b' = b \<and> (\<exists>t. h' = h @ t \<and> fb_opened t = [] \<and> fb_closed t = [])) (b, h)"
proof -
  let ?Q = "\<lambda>i (b', h'). b' = b \<and> (\<exists>t final. h' = h @ t \<and> record_written fd (fb_root_fd b) name raw final t \<and> i = record_identity final)"
  let ?E = "\<lambda>_ (b', h'). b' = b \<and> (\<exists>t. h' = h @ t \<and> fb_opened t = [] \<and> fb_closed t = [])"
  have sync: "wp (sync_record \<beta> name raw fd opened) ?Q ?E (b, h @ u @ w)"
    if u: "still u" and w: "fst ` set w \<subseteq> range (FbWrite fd)" "fb_written w = raw" for opened u w
  proof -
    have fin: "\<exists>final'. record_written fd (fb_root_fd b) name raw final'
          (u @ w @ [(FbFsync fd, Inr r1), (FbFsync (fb_root_fd b), Inr r2), (FbFstat fd, Inr final), (FbStatAt (fb_root_fd b) name, Inr v)])
        \<and> record_identity final = record_identity final'"
      if "final_record opened final v raw" for final v r1 r2
      using that u w unfolding record_written_def final_record_def by blast
    show ?thesis
      unfolding sync_record_def persisting_state_def fb_call_def
      using still_trace [OF u] writes_trace [OF w(1)]
      by (auto simp: wp_simps split: sum.splits intro!: fin)
  qed
  have tail: "wp (andthen (write_all \<beta> fd raw) (sync_record \<beta> name raw fd opened)) ?Q ?E (b, h @ u)"
    if u: "still u" for opened u
    unfolding wp_andthen
  proof (rule write_all_wp)
    fix t :: "fb_call hist"
    assume "fst ` set t \<subseteq> range (FbWrite fd)" "fb_written t = raw"
    from sync [OF u this] show "wp (sync_record \<beta> name raw fd opened) ?Q ?E (b, (h @ u) @ t)" by simp
  next
    fix e and t :: "fb_call hist"
    assume "fst ` set t \<subseteq> range (FbWrite fd)"
    from writes_trace [OF this] still_trace [OF u] show "?E e (b, (h @ u) @ t)" by simp
  qed
  show ?thesis
    unfolding write_record_def
    using tail [of "[(FbFstat fd, r1), (FbStatAt (fb_root_fd b) name, r2)]" for r1 r2]
    by (auto simp: wp_bnd wp_reads wp_demand wp_call wp_lift wp_andthen [of "demand x y" for x y] split: sum.splits)
qed


text \<open>The whole life of a stored record: opened once, written, made durable, closed, then only looked at\<close>

definition record_stored :: "pyval \<Rightarrow> string \<Rightarrow> string \<Rightarrow> pyval \<Rightarrow> fb_call hist \<Rightarrow> bool" where
  "record_stored root name raw final h \<longleftrightarrow>
     (\<exists>fd t1 t2 t3 r. h = t1 @ t2 @ (FbClose fd, Inr r) # t3 \<and> fb_opened t1 = [fd] \<and> fb_closed t1 = [] \<and> fb_written t1 = []
        \<and> record_written fd root name raw final t2 \<and> still t3)"

lemma record_written_trace:
  "record_written fd root name raw final t \<Longrightarrow> fb_opened t = [] \<and> fb_closed t = [] \<and> fb_written t = raw"
  unfolding record_written_def using still_trace writes_trace by fastforce

lemma record_stored_trace:
  "record_stored root name raw final h \<Longrightarrow> fb_closed h = fb_opened h \<and> fb_written h = raw"
  unfolding record_stored_def using still_trace record_written_trace by fastforce

lemma store_record_wp:
  "wp (store_record \<beta> euid name raw)
     (\<lambda>stored (b', h). b' = b \<and>
        (case stored of Inr identity \<Rightarrow> \<exists>final. record_stored (fb_root_fd b) name raw final h \<and> identity = record_identity final
         | Inl e \<Rightarrow> fb_closed h = fb_opened h))
     (\<lambda>_ _. False) (b, [])"
proof -
  let ?Q = "\<lambda>stored (b', h). b' = b \<and>
        (case stored of Inr identity \<Rightarrow> \<exists>final. record_stored (fb_root_fd b) name raw final h \<and> identity = record_identity final
         | Inl e \<Rightarrow> fb_closed h = fb_opened h)"
  have closing: "wp (bnd (captured (fb_call \<beta> (FbClose fd))) (\<lambda>closing. ret (rbind writing (\<lambda>identity. rbind closing (\<lambda>_. Inr identity)))))
      ?Q (\<lambda>_ _. False) (b, t1 @ t2)"
    if t1: "fb_opened t1 = [fd]" "fb_closed t1 = []" "fb_written t1 = []" and t2: "fb_opened t2 = []" "fb_closed t2 = []"
      and writing: "\<And>i. writing = Inr i \<Longrightarrow> \<exists>final. record_written fd (fb_root_fd b) name raw final t2 \<and> i = record_identity final"
    for fd t1 t2 writing
  proof -
    have stored: "\<exists>final. record_stored (fb_root_fd b) name raw final (t1 @ t2 @ [(FbClose fd, Inr r)]) \<and> i = record_identity final"
      if "writing = Inr i" for i r
      using writing [OF that] t1 unfolding record_stored_def by (metis still_simps(1))
    show ?thesis
      using t1 t2 stored by (cases writing) (auto simp: fb_call_def wp_simps split: sum.splits)
  qed
  have opened: "wp (bnd (captured (write_record \<beta> euid name raw fd)) (\<lambda>writing.
         bnd (captured (fb_call \<beta> (FbClose fd))) (\<lambda>closing.
         ret (rbind writing (\<lambda>identity. rbind closing (\<lambda>_. Inr identity)))))) ?Q (\<lambda>_ _. False) (b, t1)"
    if t1: "fb_opened t1 = [fd]" "fb_closed t1 = []" "fb_written t1 = []" for fd t1
    unfolding wp_bnd [of "captured (write_record \<beta> euid name raw fd)"] wp_captured [of "write_record \<beta> euid name raw fd"]
  proof (rule wp_mono [OF write_record_wp])
    fix i \<tau>
    assume "case \<tau> of (b', h') \<Rightarrow> b' = b
      \<and> (\<exists>t final. h' = t1 @ t \<and> record_written fd (fb_root_fd b) name raw final t \<and> i = record_identity final)"
    then obtain t final where t: "\<tau> = (b, t1 @ t)" "record_written fd (fb_root_fd b) name raw final t" "i = record_identity final"
      by auto
    show "wp (bnd (captured (fb_call \<beta> (FbClose fd))) (\<lambda>closing. ret (rbind (Inr i) (\<lambda>identity. rbind closing (\<lambda>_. Inr identity)))))
        ?Q (\<lambda>_ _. False) \<tau>"
      unfolding t(1) by (rule closing [OF t1]) (use t record_written_trace [OF t(2)] in auto)
  next
    fix e \<tau>
    assume "case \<tau> of (b', h') \<Rightarrow> b' = b \<and> (\<exists>t. h' = t1 @ t \<and> fb_opened t = [] \<and> fb_closed t = [])"
    then obtain t where t: "\<tau> = (b, t1 @ t)" "fb_opened t = []" "fb_closed t = []" by auto
    show "wp (bnd (captured (fb_call \<beta> (FbClose fd))) (\<lambda>closing. ret (rbind (Inl e) (\<lambda>identity. rbind closing (\<lambda>_. Inr identity)))))
        ?Q (\<lambda>_ _. False) \<tau>"
      unfolding t(1) by (rule closing [OF t1]) (use t in auto)
  qed
  show ?thesis
    unfolding store_record_def wp_bnd [of "captured (open_record \<beta> name)"] wp_captured [of "open_record \<beta> name"]
  proof (rule wp_mono [OF open_record_wp])
    fix fd \<tau>
    assume "case \<tau> of (b', h') \<Rightarrow> b' = b \<and> (\<exists>t. h' = [] @ t \<and> fb_opened t = [fd] \<and> fb_closed t = [] \<and> fb_written t = [])"
    then show "wp (case Inr fd of Inl e \<Rightarrow> ret (Inl e) | Inr fd \<Rightarrow>
         bnd (captured (write_record \<beta> euid name raw fd)) (\<lambda>writing.
         bnd (captured (fb_call \<beta> (FbClose fd))) (\<lambda>closing.
         ret (rbind writing (\<lambda>identity. rbind closing (\<lambda>_. Inr identity)))))) ?Q (\<lambda>_ _. False) \<tau>"
      using opened by (cases \<tau>) simp
  next
    fix e \<tau>
    assume "case \<tau> of (b', h') \<Rightarrow> b' = b \<and> (\<exists>t. h' = [] @ t \<and> fb_opened t = [] \<and> fb_closed t = [] \<and> fb_written t = [])"
    then show "wp (case Inl e of Inl e \<Rightarrow> ret (Inl e) | Inr fd \<Rightarrow>
         bnd (captured (write_record \<beta> euid name raw fd)) (\<lambda>writing.
         bnd (captured (fb_call \<beta> (FbClose fd))) (\<lambda>closing.
         ret (rbind writing (\<lambda>identity. rbind closing (\<lambda>_. Inr identity)))))) ?Q (\<lambda>_ _. False) \<tau>"
      by (cases \<tau>) (simp add: wp_ret)
  qed
qed


lemma confirm_record_wp:
  "wp (confirm_record \<beta> name raw identity) (\<lambda>_ (b', h'). b' = b \<and> (\<exists>t. h' = h @ t \<and> still t))
     (\<lambda>_ (b', h'). b' = b \<and> (\<exists>t. h' = h @ t \<and> still t)) (b, h)"
proof -
  have rest: "wp (bnd (reads fb_root_fd) (\<lambda>root.
     bnd (call \<beta> (FbStatAt root name)) (\<lambda>final_name.
     andthen (demand (pyeq (stat_tuple final_name [''st_nlink'', ''st_size''])
        (record_tuple (fld identity ''dev'') (fld identity ''inode'') (fld identity ''uid'') raw))
        ''post-close named record identity'')
     (persisting_state ''post-close reentrancy''))))
     (\<lambda>_ (b', h'). b' = b \<and> (\<exists>t. h' = h @ t \<and> still t)) (\<lambda>_ (b', h'). b' = b \<and> (\<exists>t. h' = h @ t \<and> still t)) (b, h @ t)"
    if "still t" for t
    using that by (auto simp: persisting_state_def wp_simps split: sum.splits)
  show ?thesis
    unfolding confirm_record_def wp_andthen [of "verify_namespace \<beta>"]
    by (rule wp_mono [OF verify_still]) (auto dest: rest)
qed

lemma record_stored_still: "record_stored root name raw final h \<Longrightarrow> still t \<Longrightarrow> record_stored root name raw final (h @ t)"
  unfolding record_stored_def by fastforce

text \<open>What a call to store a record leaves\<close>

definition persist_sound :: "pyval \<Rightarrow> pyval \<Rightarrow> file_backend \<Rightarrow> pyval res \<Rightarrow> file_backend \<Rightarrow> fb_call hist \<Rightarrow> bool" where
  "persist_sound name raw b x b' h \<longleftrightarrow>
     fb_closed h = fb_opened h
   \<and> (case x of
        Inr ack \<Rightarrow> \<exists>n s final. name = PStr n \<and> raw = PBytes s \<and> record_stored (fb_root_fd b) n s final h
          \<and> ack = record_ack n s (record_identity final) \<and> b' = b\<lparr>fb_records := fb_records b @ [ack]\<rparr>
      | Inl e \<Rightarrow> fb_records b' = fb_records b \<and> (b' = b \<and> h = [] \<or> fb_poisoned b' \<and> fb_state b' = ''UNKNOWN''))"

lemma persist_wp:
  "wp (persist_exact_file \<beta> euid self name raw) (\<lambda>ack (b', h). persist_sound name raw b (Inr ack) b' h)
     (\<lambda>e (b', h). persist_sound name raw b (Inl e) b' h) (b, [])"
proof (cases "self = fb_owner b \<and> fb_state b = ''READY'' \<and> \<not> fb_poisoned b")
  case False
  then show ?thesis
    by (auto simp: persist_exact_file_def assert_owner_def fb_poison_def wp_simps persist_sound_def Let_def)
next
  case ready: True
  show ?thesis
  proof (cases "record_input_ok name raw")
    case False
    then show ?thesis
      using ready by (auto simp: persist_exact_file_def assert_owner_def fb_poison_def wp_simps persist_sound_def Let_def)
  next
    case True
    then obtain n s where ns: "name = PStr n" "raw = PBytes s"
      by (auto simp: record_input_ok_def matches_iff split: pyval.splits)
    let ?b = "b\<lparr>fb_state := ''PERSISTING''\<rparr>"
    have confirm: "wp (confirm_record \<beta> n s identity) (\<lambda>_ (b', h'). b' = ?b \<and> (\<exists>t. h' = h @ t \<and> still t))
      (\<lambda>_ (b', h'). b' = ?b \<and> (\<exists>t. h' = h @ t \<and> still t)) (?b, h)" for identity h by (rule confirm_record_wp)
    have "wp (bnd (store_record \<beta> euid n s) (\<lambda>stored.
       case stored of
         Inl e \<Rightarrow> andthen fb_poison (raise (Refusal ''exact record persistence is ambiguous''))
       | Inr identity \<Rightarrow>
           andthen (on_error (confirm_record \<beta> n s identity) (\<lambda>_. fb_poison))
           (andthen (writes (\<lambda>b. b\<lparr>fb_state := ''READY'', fb_records := fb_records b @ [record_ack n s identity]\<rparr>))
           (ret (record_ack n s identity)))))
      (\<lambda>ack (b', h). persist_sound name raw b (Inr ack) b' h) (\<lambda>e (b', h). persist_sound name raw b (Inl e) b' h) (?b, [])"
      unfolding wp_bnd
    proof (rule wp_mono [OF store_record_wp])
      fix stored \<tau>
      assume *: "case \<tau> of (b', h) \<Rightarrow> b' = ?b \<and> (case stored of
          Inr identity \<Rightarrow> \<exists>final. record_stored (fb_root_fd ?b) n s final h \<and> identity = record_identity final
        | Inl e \<Rightarrow> fb_closed h = fb_opened h)"
      obtain h where \<tau>: "\<tau> = (?b, h)" using * by auto
      show "wp (case stored of
         Inl e \<Rightarrow> andthen fb_poison (raise (Refusal ''exact record persistence is ambiguous''))
       | Inr identity \<Rightarrow>
           andthen (on_error (confirm_record \<beta> n s identity) (\<lambda>_. fb_poison))
           (andthen (writes (\<lambda>b. b\<lparr>fb_state := ''READY'', fb_records := fb_records b @ [record_ack n s identity]\<rparr>))
           (ret (record_ack n s identity))))
        (\<lambda>ack (b', h). persist_sound name raw b (Inr ack) b' h) (\<lambda>e (b', h). persist_sound name raw b (Inl e) b' h) \<tau>"
      proof (cases stored)
        case (Inl e)
        then show ?thesis using * \<tau> by (simp add: fb_poison_def wp_simps persist_sound_def)
      next
        case (Inr identity)
        then obtain final where final: "record_stored (fb_root_fd b) n s final h" "identity = record_identity final"
          using * \<tau> by auto
        have done_: "persist_sound name raw b (Inr (record_ack n s identity))
            (b\<lparr>fb_state := ''READY'', fb_records := fb_records b @ [record_ack n s identity]\<rparr>) (h @ t)" if "still t" for t
          using record_stored_still [OF final(1) that] record_stored_trace final ns ready
          by (auto simp: persist_sound_def still_trace [OF that] intro!: exI [of _ final])
        have poisoned: "persist_sound name raw b (Inl e) (b\<lparr>fb_poisoned := True, fb_state := ''UNKNOWN''\<rparr>) (h @ t)" if "still t" for t e
          using record_stored_trace [OF record_stored_still [OF final(1) that]] by (simp add: persist_sound_def)
        show ?thesis
          unfolding Inr \<tau> sum.case wp_andthen wp_on_error
          by (rule wp_mono [OF confirm]) (auto simp: fb_poison_def wp_simps done_ poisoned)
      qed
    qed (simp split: prod.splits)
    then show ?thesis
      using ready True by (simp add: persist_exact_file_def assert_owner_def wp_simps ns Let_def)
  qed
qed


text \<open>
  C32: Storing a record is exact and leaves no descriptor behind, for every operating system. Every
  descriptor a call opens it closes, once, on every path. A call that returns has opened one
  descriptor, written to it in total exactly the bytes it was given, synchronised it and its
  directory after the last write and before the close, and acknowledges these bytes; the backend is then as
  before with this acknowledgement recorded. A call that raises records nothing, and has
  poisoned the backend unless it refused without any call to the system.
\<close>

theorem file_persist_sound:
  "case persist_exact_file \<beta> euid self name raw (b, []) of (x, b', h) \<Rightarrow> persist_sound name raw b x b' h"
  using persist_wp [of \<beta> euid self name raw b] by (auto simp: wp_def split: prod.splits sum.splits)

section \<open>The contract of the bridge\<close>

text \<open>A status as the operating system documents it\<close>

fun proper_status :: "fb_call \<times> pyres \<Rightarrow> bool" where
  "proper_status (FbFstat _, Inr v) \<longleftrightarrow>
     integer (fld v ''st_dev'') 0 \<and> integer (fld v ''st_ino'') 1 \<and> integer (fld v ''st_uid'') 0"
| "proper_status _ \<longleftrightarrow> True"

lemma ack_ok_record:
  assumes "integer (fld final ''st_dev'') 0" "integer (fld final ''st_ino'') 1" "integer (fld final ''st_uid'') 0"
  shows "ack_ok (record_ack record_name raw (record_identity final)) raw"
  using assms
  by (simp add: ack_ok_def record_ack_def record_identity_def record_identity_ok_def ack_fields_def record_keys_def exact_def fld_def
      is_dict_def keys_def integer_def)

text \<open>
  C33: The file backend meets the contract its client relies on. Whenever storing the INTENT record
  returns, and the statuses the operating system reported in that call are proper ones, the acknowledgement passes
  the check of the bridge (\<^verbatim>\<open>V2IntentFileBridge.persist_intent\<close>) for the bytes of the call, which are the
  bytes that were written.
\<close>

theorem file_ack_accepted:
  assumes "persist_exact_file \<beta> euid self (PStr record_name) (PBytes raw) (b, []) = (Inr ack, b', h)"
    and "list_all proper_status h"
  shows "ack_ok ack raw \<and> fb_written h = raw"
proof -
  have "persist_sound (PStr record_name) (PBytes raw) b (Inr ack) b' h"
    using persist_wp [of \<beta> euid self "PStr record_name" "PBytes raw" b] assms(1) by (auto simp: wp_def)
  then obtain final where f: "record_stored (fb_root_fd b) record_name raw final h"
      "ack = record_ack record_name raw (record_identity final)"
    by (auto simp: persist_sound_def)
  from f(1) obtain fd where "(FbFstat fd, Inr final) \<in> set h"
    unfolding record_stored_def record_written_def by fastforce
  with assms(2) have "ack_ok ack raw" by (auto simp: f(2) list_all_iff dest!: bspec intro!: ack_ok_record)
  then show ?thesis using record_stored_trace [OF f(1)] by blast
qed

text \<open>A call that returns, on a system where two writes are needed\<close>

definition fd_status :: "nat \<Rightarrow> nat \<Rightarrow> nat \<Rightarrow> pyval" where
  "fd_status ino mode len =
     PDict [(''st_dev'', PInt 1), (''st_ino'', PInt (int ino)), (''st_uid'', PInt 0), (''st_mode'', PInt (int mode)),
            (''st_nlink'', PInt 1), (''st_size'', PInt (int len))]"

fun fd_system :: "fb_call backend" where
  "fd_system h (FbFstat fd) =
     Inr (if fd = PInt 3 then fd_status 2 0x43FF 0 else if fd = PInt 4 then fd_status 3 0x41C0 0
          else fd_status 4 0x8180 (length (fb_written h)))"
| "fd_system h FbStatParent = Inr (fd_status 2 0x43FF 0)"
| "fd_system h (FbStatAt fd name) =
     Inr (if fd = PInt 3 then fd_status 3 0x41C0 0 else fd_status 4 0x8180 (length (fb_written h)))"
| "fd_system h (FbOpenRecord _ _) = Inr (PInt 5)"
| "fd_system h (FbWrite _ bytes) = Inr (PInt 1)"
| "fd_system h _ = Inr PNone"

definition fd_identity :: "int \<Rightarrow> int \<Rightarrow> pyval" where
  "fd_identity ino mode = PDict [(''dev'', PInt 1), (''inode'', PInt ino), (''uid'', PInt 0), (''mode'', PInt mode)]"

definition fd_ready :: file_backend where
  "fd_ready = (fb_new (7, 0) (replicate 32 CHR ''a''))\<lparr>fb_parent_fd := PInt 3, fb_root_fd := PInt 4,
     fb_parent_identity := fd_identity 2 0x3FF, fb_root_identity := fd_identity 3 0x1C0, fb_state := ''READY''\<rparr>"

lemmas fd_steps = bnd_def reads_def call_def demand_def ret_def raise_def lift_def writes_def andthen_def captured_def on_error_def fb_call_def
lemmas fd_values = stat_tuple_def identity_tuple_def fd_status_def fd_ready_def fd_identity_def dev_ino_def fb_new_def

lemma fd_input: "record_input_ok (PStr record_name) (PBytes ''ok'')" by (simp add: record_input_ok_def record_re_def record_name_def digit_def)
lemma fd_returns:
  "\<exists>b' h. persist_exact_file fd_system 0 (7, 0) (PStr record_name) (PBytes ''ok'') (fd_ready, []) =
     (Inr (record_ack record_name ''ok'' (record_identity (fd_status 4 0x8180 2))), b', h) \<and> list_all proper_status h"
  by (simp add: persist_exact_file_def assert_owner_def store_record_def open_record_def write_record_def sync_record_def confirm_record_def
     verify_namespace_def namespace_same_def fd_input opened_fd_def fresh_record_def final_record_def record_tuple_def persisting_state_def record_identity_def
     fb_poison_def write_all.simps fb_written_def file_type_def
     fd_steps fd_values file_type_def Let_def)

lemma file_ack_accepted_witness:
  "\<exists>b' h. persist_exact_file fd_system 0 (7, 0) (PStr record_name) (PBytes ''ok'') (fd_ready, []) =
     (Inr (record_ack record_name ''ok'' (record_identity (fd_status 4 0x8180 2))), b', h) \<and> fb_written h = ''ok''
     \<and> ack_ok (record_ack record_name ''ok'' (record_identity (fd_status 4 0x8180 2))) ''ok''"
  using fd_returns file_ack_accepted [of fd_system 0 "(7, 0)" "''ok''" fd_ready] by blast

end
