(* ===== verification/ExactRestore.thy ===== *)
theory ExactRestore
  imports PyEffect Json "HOL-Library.Sublist"
begin

text \<open>
  The coordinator that restores services exactly after the maintenance barrier,
  \<^verbatim>\<open>experiments/thick-generations/layout-migration-exact-restore-model.py\<close>. The backend is the
  dependency, and does not touch the coordinator. A value that cannot be serialised raises at
  construction; what is hashed later has been validated, and consists of texts, numbers and
  truth values.
\<close>

section \<open>Units\<close>

definition phases :: "string list list" where
  "phases =
     [[''qmeventd.service'', ''pvedaemon.service'', ''pvestatd.service''], [''pveproxy.service'', ''spiceproxy.service''],
      [''pve-ha-crm.service'', ''pve-ha-lrm.service''], [''pvescheduler.service'']]"

definition guests_unit :: string where "guests_unit = ''pve-guests.service''"

definition targets :: "string list" where "targets = sort (concat phases)"

definition preserved :: "string list" where
  "preserved = [''corosync.service'', ''multipathd.service'', ''pve-cluster.service'', guests_unit,
     ''pve-sharedlvmthin-thin-guard.service'']"

definition units :: "string list" where "units = sort (targets @ preserved)"

section \<open>The plan\<close>

abbreviation sha :: "pyval \<Rightarrow> bool" where "sha \<equiv> matches (hexn 64)"

definition host_name :: "string \<Rightarrow> bool" where
  "host_name = head_tail alnum (\<lambda>c. alnum c \<or> c = CHR ''-'') (Some 62)"

definition xr_plan_fields :: "string list" where
  "xr_plan_fields =
     [''schema'', ''tx'', ''participants'', ''candidate_sha256'', ''storage_cfg_sha256'', ''target_storage_cfg_sha256'',
      ''workload_sha256'', ''issued_at'', ''expires_at'']"

definition plan_deadline_ok :: "pyval \<Rightarrow> pyval \<Rightarrow> bool" where
  "plan_deadline_ok plan now \<longleftrightarrow>
     is_int now \<and> is_int (fld plan ''issued_at'') \<and> is_int (fld plan ''expires_at'')
   \<and> int_of (fld plan ''issued_at'') \<le> int_of now \<and> int_of now \<le> int_of (fld plan ''expires_at'')
   \<and> 0 < int_of (fld plan ''expires_at'') - int_of (fld plan ''issued_at'')
   \<and> int_of (fld plan ''expires_at'') - int_of (fld plan ''issued_at'') \<le> 1800"

definition participant_check :: "pyval \<Rightarrow> pyval \<Rightarrow> unit res" where
  "participant_check plan row =
     checks
       [need (exact row [''node'', ''boot_id'', ''role'', ''before_package_sha256'', ''after_package_sha256''])
          ''participant fields differ'',
        need (matches host_name (fld row ''node'') \<and> matches boot_id_re (fld row ''boot_id'')
          \<and> fld row ''role'' \<in> {PStr ''SAN'', PStr ''CONTROL_ONLY''}
          \<and> sha (fld row ''before_package_sha256'') \<and> sha (fld row ''after_package_sha256'')) ''participant identity'',
        need (pyeq (fld row ''after_package_sha256'')
            (if fld row ''role'' = PStr ''SAN'' then fld plan ''candidate_sha256'' else fld row ''before_package_sha256''))
          ''control-only package must remain unchanged'']"

abbreviation rows_of :: "pyval \<Rightarrow> pyval list" where "rows_of plan \<equiv> list_of (fld plan ''participants'')"

definition node_of :: "pyval \<Rightarrow> string" where "node_of row = str_of (fld row ''node'')"

definition validate_restore_plan :: "pyval \<Rightarrow> pyval \<Rightarrow> unit res" where
  "validate_restore_plan plan now =
     rbind (checks
       ([need (exact plan xr_plan_fields) ''plan fields differ'',
         need (fld plan ''schema'' = PStr ''slt-exact-restore-model/v1'' \<and> matches (hexn 32) (fld plan ''tx'')) ''plan identity'',
         need (plan_deadline_ok plan now) ''plan deadline'']
        @ map (\<lambda>k. need (sha (fld plan k)) ''plan hash'')
            [''candidate_sha256'', ''storage_cfg_sha256'', ''target_storage_cfg_sha256'', ''workload_sha256'']
        @ [need (is_list (fld plan ''participants'') \<and> length (rows_of plan) = 4) ''four participants required'']))
     (\<lambda>_. rbind (check_each (participant_check plan) (rows_of plan))
     (\<lambda>_. checks
       [need (sorted_strs (map (\<lambda>r. fld r ''node'') (rows_of plan))
          \<and> length (filter (\<lambda>r. fld r ''role'' = PStr ''CONTROL_ONLY'') (rows_of plan)) = 1) ''participant roles/order'']))"

section \<open>Records\<close>

definition observation_keys :: "string list" where
  "observation_keys =
     [''node'', ''boot_id'', ''membership'', ''quorate'', ''storage_cfg_sha256'', ''workload_sha256'', ''package_sha256'',
      ''consumers'', ''workers'', ''tasks'', ''start_demands'', ''services'']"

definition record_identity_ok :: "pyval \<Rightarrow> pyval \<Rightarrow> pyval \<Rightarrow> bool \<Rightarrow> bool" where
  "record_identity_ok plan row v before \<longleftrightarrow>
     pyeq (fld v ''node'') (fld row ''node'') \<and> pyeq (fld v ''boot_id'') (fld row ''boot_id'')
   \<and> pyeq (fld v ''membership'') (PList (map (\<lambda>r. fld r ''node'') (rows_of plan))) \<and> is_true (fld v ''quorate'')
   \<and> pyeq (fld v ''storage_cfg_sha256'') (fld plan (if before then ''storage_cfg_sha256'' else ''target_storage_cfg_sha256''))
   \<and> pyeq (fld v ''package_sha256'') (fld row (if before then ''before_package_sha256'' else ''after_package_sha256''))
   \<and> pyeq (fld v ''workload_sha256'') (fld plan ''workload_sha256'')"

definition service_ok :: "string \<Rightarrow> pyval \<Rightarrow> bool" where
  "service_ok unit s \<longleftrightarrow>
     is_bool (fld s ''active'') \<and> is_bool (fld s ''masked'') \<and> fld s ''job'' = PNone \<and> fld s ''control_pid'' = PInt 0
   \<and> pyeq (fld s ''substate'')
       (PStr (if is_true (fld s ''active'') then (if unit = guests_unit then ''exited'' else ''running'') else ''dead''))"

definition service_check :: "bool \<Rightarrow> string \<times> pyval \<Rightarrow> unit res" where
  "service_check before = (\<lambda>(unit, s). checks
     [need (exact s [''active'', ''substate'', ''masked'', ''job'', ''control_pid'']) ''service fields differ'',
      need (service_ok unit s) ''unknown service lifecycle'',
      need (\<not> (before \<and> unit \<in> set targets \<and> is_true (fld s ''active'') \<and> is_true (fld s ''masked'')))
        ''active+masked restoration unsupported''])"

definition essential :: "pyval \<Rightarrow> string list" where
  "essential row =
     [''corosync.service'', ''pve-cluster.service''] @ (if fld row ''role'' = PStr ''SAN'' then [''multipathd.service''] else [])"

definition service :: "pyval \<Rightarrow> string \<Rightarrow> pyval" where
  "service v unit = fld (fld v ''services'') unit"

definition validate_record :: "pyval \<Rightarrow> pyval \<Rightarrow> pyval \<Rightarrow> bool \<Rightarrow> unit res" where
  "validate_record plan row v before =
     rbind (checks
       ([need (exact v observation_keys) ''observation fields differ'',
         need (record_identity_ok plan row v before) ''identity/quorum drift'']
        @ map (\<lambda>k. need (fld v k = PList []) (''nonzero/unknown '' @ k)) [''consumers'', ''workers'', ''tasks'', ''start_demands'']
        @ [need (exact (fld v ''services'') units) ''service coverage'']))
     (\<lambda>_. rbind (check_each (service_check before) (items (fld v ''services'')))
     (\<lambda>_. checks (map (\<lambda>unit. need (is_true (fld (service v unit) ''active'')) ''essential service inactive'') (essential row))))"

section \<open>The coordinator\<close>

datatype xr_call =
    Now
  | Observe string
  | CreateOnce pyval string pyval
  | ReadOnce pyval string
  | VerifyRelease pyval pyval
  | DispatchTyped pyval

record coordinator =
  xr_plan :: pyval
  xr_hash :: string
  xr_poisoned :: bool
  xr_last_clock :: pyval

type_synonym 'a xr_prog = "(coordinator, xr_call, 'a) prog"

definition xr_clock :: "xr_call backend \<Rightarrow> unit xr_prog" where
  "xr_clock \<beta> =
     bnd (reads (\<lambda>c. c)) (\<lambda>c.
     andthen (demand (\<not> xr_poisoned c \<and> digest (xr_plan c) = xr_hash c) ''poisoned or changed coordinator'')
     (bnd (call \<beta> Now) (\<lambda>now.
     andthen (lift (validate_restore_plan (xr_plan c) now))
     (andthen (demand (is_int (xr_last_clock c) \<and> int_of (xr_last_clock c) \<le> int_of now) ''clock regressed'')
     (writes (xr_last_clock_update (\<lambda>_. now)))))))"

definition xr_init :: "xr_call backend \<Rightarrow> pyval \<Rightarrow> coordinator \<Rightarrow> unit res \<times> coordinator \<times> xr_call hist" where
  "xr_init \<beta> plan c =
     (if \<not> json_ok plan then (Inl (TypeError ''not JSON serializable''), c, [])
      else if \<not> is_dict plan then (Inl (AttributeError ''get''), c, [])
      else xr_clock \<beta> (\<lparr>xr_plan = plan, xr_hash = digest plan, xr_poisoned = False, xr_last_clock = fld plan ''issued_at''\<rparr>, []))"

definition xr_observe :: "xr_call backend \<Rightarrow> bool \<Rightarrow> pyval \<Rightarrow> pyval xr_prog" where
  "xr_observe \<beta> before row =
     andthen (xr_clock \<beta>)
     (bnd (call \<beta> (Observe (node_of row))) (\<lambda>v.
     bnd (reads xr_plan) (\<lambda>plan.
     andthen (lift (validate_record plan row v before))
     (andthen (xr_clock \<beta>) (ret v)))))"

definition durable_ack :: "pyval \<Rightarrow> pyval" where
  "durable_ack value = PDict [(''durable'', PBool True), (''sha256'', PStr (digest value))]"

definition xr_put :: "xr_call backend \<Rightarrow> string \<Rightarrow> pyval \<Rightarrow> unit xr_prog" where
  "xr_put \<beta> key value =
     bnd (reads xr_plan) (\<lambda>plan.
     bnd (call \<beta> (CreateOnce (fld plan ''tx'') key value)) (\<lambda>result.
     demand (pyeq result (durable_ack value)) ''durable create ACK missing''))"

definition xr_read :: "xr_call backend \<Rightarrow> string \<Rightarrow> pyval xr_prog" where
  "xr_read \<beta> key = bnd (reads xr_plan) (\<lambda>plan. call \<beta> (ReadOnce (fld plan ''tx'') key))"

definition cohort :: "xr_call backend \<Rightarrow> bool \<Rightarrow> (string \<times> pyval) list xr_prog" where
  "cohort \<beta> before =
     bnd (reads xr_plan) (\<lambda>plan.
     collect (\<lambda>row. bnd (xr_observe \<beta> before row) (\<lambda>v. ret (node_of row, v))) (rows_of plan))"

definition row_named :: "pyval \<Rightarrow> string \<Rightarrow> pyval" where
  "row_named plan node = (case filter (\<lambda>r. fld r ''node'' = PStr node) (rows_of plan) of [] \<Rightarrow> PNone | r # _ \<Rightarrow> r)"

definition xr_baseline :: "xr_call backend \<Rightarrow> pyval xr_prog" where
  "xr_baseline \<beta> =
     bnd (xr_read \<beta> ''baseline'') (\<lambda>old.
     andthen (demand (old = PNone) ''baseline already exists; no adoption'')
     (bnd (cohort \<beta> True) (\<lambda>records.
     bnd (reads (\<lambda>c. c)) (\<lambda>c.
     andthen (foreach (\<lambda>(node, record).
        bnd (xr_observe \<beta> True (row_named (xr_plan c) node)) (\<lambda>again. demand (pyeq again record) ''baseline changed during capture''))
        records)
     (let value = PDict [(''plan_sha256'', PStr (xr_hash c)), (''authority'', PStr ''NONE''), (''records'', PDict records)] in
      andthen (xr_put \<beta> ''baseline'' value) (ret value))))))"


section \<open>The release gate\<close>

definition desired_of :: "pyval \<Rightarrow> string \<Rightarrow> string \<Rightarrow> pyval" where
  "desired_of baseline node unit = service (fld (fld baseline ''records'') node) unit"

text \<open>Only the temporary mask of \<^verbatim>\<open>pve-guests.service\<close> may differ.\<close>

definition preserved_same :: "pyval \<Rightarrow> pyval \<Rightarrow> string \<Rightarrow> bool" where
  "preserved_same current desired unit \<longleftrightarrow>
     pyeq (if unit = guests_unit \<and> is_true (fld current ''masked'') then pyset ''masked'' (fld desired ''masked'') current else current)
       desired"

definition release_node_check :: "pyval \<Rightarrow> string \<times> pyval \<Rightarrow> unit res" where
  "release_node_check baseline = (\<lambda>(node, observed).
     rbind (checks (map (\<lambda>unit. need (preserved_same (service observed unit) (desired_of baseline node unit) unit)
        ''preserved service drift'') preserved))
     (\<lambda>_. check_each (\<lambda>unit. checks
       [need (\<not> is_true (fld (service observed unit) ''active'') \<or> is_true (fld (desired_of baseline node unit) ''active''))
          ''previously inactive service started'',
        need (\<not> is_true (fld (desired_of baseline node unit) ''masked'') \<or> is_true (fld (service observed unit) ''masked''))
          ''preexisting mask removed'']) targets))"

definition san_nodes :: "pyval \<Rightarrow> string list" where
  "san_nodes plan = map node_of (filter (\<lambda>r. fld r ''role'' = PStr ''SAN'') (rows_of plan))"

definition release_proof_ok :: "pyval \<Rightarrow> string \<Rightarrow> pyval \<Rightarrow> bool" where
  "release_proof_ok plan hash p \<longleftrightarrow>
     fld p ''plan_sha256'' = PStr hash \<and> fld p ''authority'' = PStr ''NONE'' \<and> sha (fld p ''all_certified_sha256'')
   \<and> exact (fld p ''archive_sha256'') (san_nodes plan) \<and> list_all (\<lambda>kv. sha (snd kv)) (items (fld p ''archive_sha256''))"

definition xr_release :: "xr_call backend \<Rightarrow> pyval \<Rightarrow> pyval xr_prog" where
  "xr_release \<beta> baseline =
     bnd (cohort \<beta> False) (\<lambda>observations.
     andthen (lift (check_each (release_node_check baseline) observations))
     (bnd (reads (\<lambda>c. c)) (\<lambda>c.
     bnd (call \<beta> (VerifyRelease (xr_plan c) (PDict observations))) (\<lambda>p.
     andthen (lift (checks
       [need (exact p [''plan_sha256'', ''authority'', ''all_certified_sha256'', ''archive_sha256'']) ''release proof fields differ'',
        need (release_proof_ok (xr_plan c) (xr_hash c) p) ''incomplete archive cohort'']))
     (andthen (xr_clock \<beta>) (ret p))))))"

definition same_release :: "xr_call backend \<Rightarrow> pyval \<Rightarrow> string \<Rightarrow> string \<Rightarrow> unit xr_prog" where
  "same_release \<beta> baseline release_sha msg = bnd (xr_release \<beta> baseline) (\<lambda>p. demand (digest p = release_sha) msg)"

section \<open>One effect\<close>

text \<open>A step is the participant, the unit and the operation.\<close>

type_synonym xr_step = "pyval \<times> string \<times> string"

definition step_key :: "xr_step \<Rightarrow> string" where
  "step_key = (\<lambda>(row, unit, operation). node_of row @ '':'' @ unit @ '':'' @ operation)"

definition wanted :: "pyval \<Rightarrow> xr_step \<Rightarrow> bool" where
  "wanted baseline = (\<lambda>(row, unit, operation).
     if operation = ''UNMASK'' then \<not> is_true (fld (desired_of baseline (node_of row) unit) ''masked'')
     else is_true (fld (desired_of baseline (node_of row) unit) ''active'') \<and> unit \<noteq> guests_unit)"

definition effect_request :: "coordinator \<Rightarrow> pyval \<Rightarrow> string \<Rightarrow> xr_step \<Rightarrow> pyval" where
  "effect_request c baseline release_sha = (\<lambda>(row, unit, operation).
     PDict [(''tx'', fld (xr_plan c) ''tx''), (''plan_sha256'', PStr (xr_hash c)), (''node'', PStr (node_of row)),
            (''boot_id'', fld row ''boot_id''), (''unit'', PStr unit), (''operation'', PStr operation),
            (''baseline_sha256'', PStr (digest baseline)), (''release_sha256'', PStr release_sha)])"

definition confirmation :: "pyval \<Rightarrow> pyval" where
  "confirmation request = PDict [(''request_sha256'', PStr (digest request)), (''result'', PStr ''CONFIRMED'')]"

definition predecessor_ok :: "string \<Rightarrow> pyval \<Rightarrow> bool" where
  "predecessor_ok operation current \<longleftrightarrow>
     (if operation = ''UNMASK'' then is_true (fld current ''masked'')
      else \<not> is_true (fld current ''active'') \<and> \<not> is_true (fld current ''masked''))"

definition postcondition_ok :: "string \<Rightarrow> pyval \<Rightarrow> bool" where
  "postcondition_ok operation after \<longleftrightarrow>
     (if operation = ''UNMASK'' then \<not> is_true (fld after ''masked'')
      else is_true (fld after ''active'') \<and> \<not> is_true (fld after ''masked''))"

definition xr_dispatch :: "xr_call backend \<Rightarrow> pyval \<Rightarrow> string \<Rightarrow> pyval \<Rightarrow> pyval \<Rightarrow> xr_step \<Rightarrow> unit xr_prog" where
  "xr_dispatch \<beta> baseline release_sha request current step = (case step of (row, unit, operation) \<Rightarrow>
     andthen (demand (predecessor_ok operation current) ''effect predecessor drift'')
     (andthen (xr_put \<beta> (step_key step @ '':intent'') request)
     (andthen (xr_clock \<beta>)
     (bnd (xr_observe \<beta> False row) (\<lambda>again.
     andthen (demand (pyeq (service again unit) current) ''pre-dispatch drift'')
     (andthen (same_release \<beta> baseline release_sha ''pre-dispatch drift'')
     (bnd (call \<beta> (DispatchTyped request)) (\<lambda>ack.
     andthen (demand (pyeq ack (confirmation request)) ''effect ACK unknown'')
     (andthen (xr_clock \<beta>)
     (bnd (xr_observe \<beta> False row) (\<lambda>after.
     andthen (demand (postcondition_ok operation (service after unit)) ''effect postcondition missing'')
     (xr_put \<beta> (step_key step @ '':done'') ack))))))))))))"

definition xr_effect :: "xr_call backend \<Rightarrow> pyval \<Rightarrow> string \<Rightarrow> pyval \<Rightarrow> pyval \<Rightarrow> xr_step \<Rightarrow> unit xr_prog" where
  "xr_effect \<beta> baseline release_sha request current step =
     bnd (xr_read \<beta> (step_key step @ '':intent'')) (\<lambda>intent.
     bnd (xr_read \<beta> (step_key step @ '':done'')) (\<lambda>done_record.
     if intent \<noteq> PNone \<or> done_record \<noteq> PNone then
       demand (pyeq intent request \<and> pyeq done_record (confirmation request))
         ''uncertain prior attempt: inspect only, never redispatch''
     else xr_dispatch \<beta> baseline release_sha request current step))"

definition xr_step :: "xr_call backend \<Rightarrow> pyval \<Rightarrow> string \<Rightarrow> xr_step \<Rightarrow> unit xr_prog" where
  "xr_step \<beta> baseline release_sha step = (case step of (row, unit, operation) \<Rightarrow>
     if \<not> wanted baseline step then ret ()
     else
       andthen (same_release \<beta> baseline release_sha ''release cohort changed'')
       (bnd (xr_read \<beta> ''baseline'') (\<lambda>durable.
        andthen (demand (pyeq durable baseline) ''durable baseline changed'')
        (bnd (xr_observe \<beta> False row) (\<lambda>observed.
        bnd (reads (\<lambda>c. c)) (\<lambda>c.
        andthen (xr_effect \<beta> baseline release_sha (effect_request c baseline release_sha step) (service observed unit) step)
        (bnd (xr_observe \<beta> False row) (\<lambda>after.
         demand (\<not> is_true (fld (service after unit) ''masked'')
           \<and> (operation \<noteq> ''START'' \<or> is_true (fld (service after unit) ''active''))) ''completed effect drift''))))))))"

section \<open>Restoration\<close>

definition restore_steps :: "pyval \<Rightarrow> xr_step list" where
  "restore_steps plan =
     concat (map (\<lambda>phase. concat (map (\<lambda>row. concat (map (\<lambda>unit. [(row, unit, ''UNMASK''), (row, unit, ''START'')]) phase))
       (rows_of plan))) (phases @ [[guests_unit]]))"

text \<open>Records that are no dictionary are refused here; the code raises some exception.\<close>

definition baseline_check :: "coordinator \<Rightarrow> pyval \<Rightarrow> unit res" where
  "baseline_check c baseline =
     rbind (checks
       [need (exact baseline [''plan_sha256'', ''authority'', ''records'']) ''baseline fields differ'',
        need (fld baseline ''plan_sha256'' = PStr (xr_hash c) \<and> fld baseline ''authority'' = PStr ''NONE''
          \<and> exact (fld baseline ''records'') (map node_of (rows_of (xr_plan c)))) ''baseline binding''])
     (\<lambda>_. check_each (\<lambda>(node, record). validate_record (xr_plan c) (row_named (xr_plan c) node) record True)
        (items (fld baseline ''records'')))"

definition final_check :: "xr_call backend \<Rightarrow> pyval \<Rightarrow> pyval \<Rightarrow> unit xr_prog" where
  "final_check \<beta> baseline row =
     bnd (xr_observe \<beta> False row) (\<lambda>v.
     demand (pyeq (fld v ''services'') (fld (fld (fld baseline ''records'') (node_of row)) ''services''))
       ''exact service restoration differs'')"

definition restored :: pyval where
  "restored =
     PDict [(''state'', PStr ''MODEL_EXACT_RESTORED''), (''authority'', PStr ''NONE''), (''runtime_authorized'', PBool False),
            (''rollout_authorized'', PBool False), (''release_authorized'', PBool False), (''mutation_performed'', PBool False)]"

definition restore_body :: "xr_call backend \<Rightarrow> pyval xr_prog" where
  "restore_body \<beta> =
     andthen (xr_clock \<beta>)
     (bnd (xr_read \<beta> ''baseline'') (\<lambda>baseline.
     bnd (reads (\<lambda>c. c)) (\<lambda>c.
     andthen (lift (baseline_check c baseline))
     (bnd (xr_release \<beta> baseline) (\<lambda>release.
     andthen (foreach (xr_step \<beta> baseline (digest release)) (restore_steps (xr_plan c)))
     (andthen (foreach (final_check \<beta> baseline) (rows_of (xr_plan c)))
     (andthen (same_release \<beta> baseline (digest release) ''final release cohort changed'')
     (ret restored))))))))"

definition restore :: "xr_call backend \<Rightarrow> pyval xr_prog" where
  "restore \<beta> = on_error (restore_body \<beta>) (\<lambda>_. writes (xr_poisoned_update (\<lambda>_. True)))"


section \<open>Every effect is grounded\<close>

text \<open>
  When the request of an effect may be dispatched: it is the request of a step that the durable
  baseline wants, under a verified release, and the store has acknowledged the intent with exactly this request.
\<close>

definition grounded :: "pyval \<Rightarrow> string \<Rightarrow> xr_call discipline" where
  "grounded plan hash h q \<longleftrightarrow>
     (case q of
        DispatchTyped request \<Rightarrow>
          \<exists>step baseline p observations ack c.
             step \<in> set (restore_steps plan) \<and> wanted baseline step
           \<and> xr_plan c = plan \<and> xr_hash c = hash \<and> request = effect_request c baseline (digest p) step
           \<and> (ReadOnce (fld plan ''tx'') ''baseline'', Inr baseline) \<in> set h
           \<and> (VerifyRelease plan observations, Inr p) \<in> set h \<and> release_proof_ok plan hash p
           \<and> (CreateOnce (fld plan ''tx'') (step_key step @ '':intent'') request, Inr ack) \<in> set h
           \<and> pyeq ack (durable_ack request)
      | _ \<Rightarrow> True)"

definition request_id :: "pyval \<Rightarrow> string \<times> string \<times> string" where
  "request_id r = (str_of (fld r ''node''), str_of (fld r ''unit''), str_of (fld r ''operation''))"

definition step_id :: "xr_step \<Rightarrow> string \<times> string \<times> string" where
  "step_id = (\<lambda>(row, unit, operation). (node_of row, unit, operation))"

definition dispatched :: "xr_call hist \<Rightarrow> (string \<times> string \<times> string) list" where
  "dispatched h = concat (map (\<lambda>q. case q of DispatchTyped r \<Rightarrow> [request_id r] | _ \<Rightarrow> []) (asked h))"

fun effectful :: "xr_call \<Rightarrow> bool" where
  "effectful (DispatchTyped _) \<longleftrightarrow> True"
| "effectful _ \<longleftrightarrow> False"

lemma dispatched_simps [simp]:
  "dispatched [] = []" "dispatched (h @ [(DispatchTyped r, x)]) = dispatched h @ [request_id r]"
  "\<not> effectful q \<Longrightarrow> dispatched (h @ [(q, x)]) = dispatched h"
  by (cases q; simp add: dispatched_def asked_def)+

lemma grounded_other [simp]: "\<not> effectful q \<Longrightarrow> grounded plan hash h q"
  by (cases q) (simp_all add: grounded_def)

lemma request_step: "request_id (effect_request c baseline r step) = step_id step"
  by (cases step) (simp add: request_id_def effect_request_def step_id_def fld_def)

text \<open>What holds through a run: \<open>D\<close> is what was dispatched, \<open>F\<close> what is known of the history\<close>

definition xr_inv ::
    "pyval \<Rightarrow> string \<Rightarrow> bool \<Rightarrow> (string \<times> string \<times> string) list \<Rightarrow> (xr_call hist \<Rightarrow> bool) \<Rightarrow> coordinator \<times> xr_call hist \<Rightarrow> bool" where
  "xr_inv plan hash p D F = (\<lambda>(c, h).
     xr_plan c = plan \<and> xr_hash c = hash \<and> xr_poisoned c = p \<and> dispatched h = D \<and> keeps (grounded plan hash) h \<and> F h)"

lemma xr_inv_call: "lasting F \<Longrightarrow> \<not> effectful q \<Longrightarrow> preserves (xr_inv plan hash p D F) (call \<beta> q)"
  by (rule preserves_call) (auto simp: xr_inv_def dest: lastingD)

lemma xr_inv_clock: "lasting F \<Longrightarrow> preserves (xr_inv plan hash p D F) (xr_clock \<beta>)"
  unfolding xr_clock_def
  by (intro preserves_intros xr_inv_call preserves_writes) (auto simp: xr_inv_def)

lemma xr_inv_observe: "lasting F \<Longrightarrow> preserves (xr_inv plan hash p D F) (xr_observe \<beta> before row)"
  unfolding xr_observe_def by (intro preserves_intros xr_inv_call xr_inv_clock) auto

lemma xr_inv_put: "lasting F \<Longrightarrow> preserves (xr_inv plan hash p D F) (xr_put \<beta> key value)"
  unfolding xr_put_def by (intro preserves_intros xr_inv_call) auto

lemma xr_inv_read: "lasting F \<Longrightarrow> preserves (xr_inv plan hash p D F) (xr_read \<beta> key)"
  unfolding xr_read_def by (intro preserves_intros xr_inv_call) auto

lemma xr_inv_cohort: "lasting F \<Longrightarrow> preserves (xr_inv plan hash p D F) (cohort \<beta> before)"
  unfolding cohort_def by (intro preserves_intros xr_inv_observe)

lemma xr_inv_release: "lasting F \<Longrightarrow> preserves (xr_inv plan hash p D F) (xr_release \<beta> baseline)"
  unfolding xr_release_def by (intro preserves_intros xr_inv_cohort xr_inv_call xr_inv_clock) auto

lemma xr_inv_same_release: "lasting F \<Longrightarrow> preserves (xr_inv plan hash p D F) (same_release \<beta> baseline r msg)"
  unfolding same_release_def by (intro preserves_intros xr_inv_release)

lemma xr_inv_final: "lasting F \<Longrightarrow> preserves (xr_inv plan hash p D F) (final_check \<beta> baseline row)"
  unfolding final_check_def by (intro preserves_intros xr_inv_observe)

lemmas xr_keeps = xr_inv_call xr_inv_clock xr_inv_observe xr_inv_put xr_inv_read xr_inv_cohort xr_inv_release
  xr_inv_same_release xr_inv_final

definition stored :: "pyval \<Rightarrow> string \<Rightarrow> pyval \<Rightarrow> xr_call hist \<Rightarrow> bool" where
  "stored plan key v h \<longleftrightarrow>
     (\<exists>ack. (CreateOnce (fld plan ''tx'') key v, Inr ack) \<in> set h \<and> pyeq ack (durable_ack v))"

definition read_back :: "pyval \<Rightarrow> pyval \<Rightarrow> xr_call hist \<Rightarrow> bool" where
  "read_back plan baseline h \<longleftrightarrow> (ReadOnce (fld plan ''tx'') ''baseline'', Inr baseline) \<in> set h"

definition released :: "pyval \<Rightarrow> string \<Rightarrow> pyval \<Rightarrow> xr_call hist \<Rightarrow> bool" where
  "released plan hash p h \<longleftrightarrow> (\<exists>observations. (VerifyRelease plan observations, Inr p) \<in> set h \<and> release_proof_ok plan hash p)"

lemma xr_lasting_facts: "lasting (stored plan key v)" "lasting (read_back plan baseline)" "lasting (released plan hash p)"
  by (auto simp: lasting_def stored_def read_back_def released_def)

lemma wp_xr_put:
  assumes "lasting F" "xr_inv plan hash p D F \<sigma>"
  shows "wp (xr_put \<beta> key v) (\<lambda>_. xr_inv plan hash p D (\<lambda>h. F h \<and> stored plan key v h)) (\<lambda>_. xr_inv plan hash p D F) \<sigma>"
  using assms(2) lastingD [OF assms(1)]
  by (cases \<sigma>) (auto simp: xr_put_def xr_inv_def stored_def wp_simps split: sum.splits)

lemma wp_xr_release:
  assumes "lasting F" "xr_inv plan hash p D F \<sigma>"
  shows "wp (xr_release \<beta> baseline) (\<lambda>r. xr_inv plan hash p D (\<lambda>h. F h \<and> released plan hash r h)) (\<lambda>_. xr_inv plan hash p D F) \<sigma>"
proof -
  have rest: "wp (bnd (reads (\<lambda>c. c)) (\<lambda>c.
     bnd (call \<beta> (VerifyRelease (xr_plan c) (PDict observations))) (\<lambda>p.
     andthen (lift (checks
       [need (exact p [''plan_sha256'', ''authority'', ''all_certified_sha256'', ''archive_sha256'']) ''release proof fields differ'',
        need (release_proof_ok (xr_plan c) (xr_hash c) p) ''incomplete archive cohort'']))
     (andthen (xr_clock \<beta>) (ret p)))))
     (\<lambda>r. xr_inv plan hash p D (\<lambda>h. F h \<and> released plan hash r h)) (\<lambda>_. xr_inv plan hash p D F) \<tau>"
    if inv: "xr_inv plan hash p D F \<tau>" for observations \<tau>
  proof -
    obtain c h where \<tau>: "\<tau> = (c, h)" by (cases \<tau>)
    have called: "xr_inv plan hash p D F (c, h @ [(VerifyRelease plan (PDict observations), x)])" for x
      using inv \<tau> lastingD [OF assms(1)] by (auto simp: xr_inv_def)
    have clock: "wp (andthen (xr_clock \<beta>) (ret r)) (\<lambda>r. xr_inv plan hash p D (\<lambda>h. F h \<and> released plan hash r h))
        (\<lambda>_. xr_inv plan hash p D F) (c, h @ [(VerifyRelease plan (PDict observations), Inr r)])"
      if "release_proof_ok plan hash r" for r
    proof -
      have "xr_inv plan hash p D (\<lambda>h. F h \<and> released plan hash r h) (c, h @ [(VerifyRelease plan (PDict observations), Inr r)])"
        using called [of "Inr r"] that by (auto simp: xr_inv_def released_def)
      from preservesD [OF xr_inv_clock [OF lasting_conj [OF assms(1) xr_lasting_facts(3)]] this]
      show ?thesis unfolding wp_andthen by (rule wp_mono) (auto simp: wp_ret xr_inv_def)
    qed
    have plan: "xr_plan c = plan" "xr_hash c = hash" using inv \<tau> by (simp_all add: xr_inv_def)
    show ?thesis
      unfolding \<tau>
      by (simp only: wp_bnd wp_reads wp_call wp_andthen [of "lift x" for x] wp_lift prod.case plan)
        (auto simp: called clock checks_ok split: sum.splits)
  qed
  show ?thesis
    unfolding xr_release_def
    by (rule wp_bndI [OF preservesD [OF xr_inv_cohort [OF assms(1)] assms(2)]],
        rule wp_andthenI [OF preservesD [OF preserves_quiet(4)]], assumption, rule rest)
qed


text \<open>At most one more effect\<close>

definition xr_near ::
    "pyval \<Rightarrow> string \<Rightarrow> bool \<Rightarrow> (string \<times> string \<times> string) list \<Rightarrow> string \<times> string \<times> string \<Rightarrow> (xr_call hist \<Rightarrow> bool)
      \<Rightarrow> coordinator \<times> xr_call hist \<Rightarrow> bool" where
  "xr_near plan hash p D s F \<tau> \<longleftrightarrow> xr_inv plan hash p D F \<tau> \<or> xr_inv plan hash p (D @ [s]) F \<tau>"

lemma xr_near_intros:
  "xr_inv plan hash p D F \<tau> \<Longrightarrow> xr_near plan hash p D s F \<tau>"
  "xr_inv plan hash p D (\<lambda>h. F h \<and> G h) \<tau> \<Longrightarrow> xr_near plan hash p D s F \<tau>"
  "xr_inv plan hash p (D @ [s]) F \<tau> \<Longrightarrow> xr_near plan hash p D s F \<tau>"
  by (auto simp: xr_near_def xr_inv_def)

lemma wp_kept:
  assumes "preserves (xr_inv plan hash p D F) m" "xr_inv plan hash p D F \<sigma>" "\<And>\<tau>. xr_inv plan hash p D F \<tau> \<Longrightarrow> E \<tau>"
  shows "wp m (\<lambda>_. xr_inv plan hash p D F) (\<lambda>_. E) \<sigma>"
  using preservesD [OF assms(1,2)] by (rule wp_mono) (auto intro: assms(3))

lemma wp_kept_andthen:
  assumes "xr_inv plan hash p D F \<sigma>" "preserves (xr_inv plan hash p D F) m" "\<And>\<tau>. xr_inv plan hash p D F \<tau> \<Longrightarrow> E \<tau>"
    and "\<And>\<tau>. xr_inv plan hash p D F \<tau> \<Longrightarrow> wp n Q (\<lambda>_. E) \<tau>"
  shows "wp (andthen m n) Q (\<lambda>_. E) \<sigma>"
  by (rule wp_andthenI [OF wp_kept]) (fact assms)+

lemma wp_kept_bnd:
  assumes "xr_inv plan hash p D F \<sigma>" "preserves (xr_inv plan hash p D F) m" "\<And>\<tau>. xr_inv plan hash p D F \<tau> \<Longrightarrow> E \<tau>"
    and "\<And>a \<tau>. xr_inv plan hash p D F \<tau> \<Longrightarrow> wp (f a) Q (\<lambda>_. E) \<tau>"
  shows "wp (bnd m f) Q (\<lambda>_. E) \<sigma>"
  by (rule wp_bndI [OF wp_kept]) (fact assms)+

lemma groundedI:
  assumes "step \<in> set (restore_steps plan)" "wanted baseline step"
    and "request = effect_request c baseline (digest r) step" "xr_plan c = plan" "xr_hash c = hash"
    and "read_back plan baseline h" "released plan hash r h" "stored plan (step_key step @ '':intent'') request h"
  shows "grounded plan hash h (DispatchTyped request)"
proof -
  obtain observations where "(VerifyRelease plan observations, Inr r) \<in> set h" "release_proof_ok plan hash r"
    using assms(7) by (auto simp: released_def)
  moreover obtain ack where "(CreateOnce (fld plan ''tx'') (step_key step @ '':intent'') request, Inr ack) \<in> set h"
      "pyeq ack (durable_ack request)"
    using assms(8) by (auto simp: stored_def)
  ultimately show ?thesis
    using assms(1-6) unfolding grounded_def xr_call.case read_back_def
    by (intro exI [of _ step] exI [of _ baseline] exI [of _ r] exI [of _ observations] exI [of _ ack] exI [of _ c] conjI)
qed

lemma wp_xr_effect_call:
  assumes F: "lasting F" "\<forall>h. F h \<longrightarrow> read_back plan baseline h \<and> released plan hash r h"
    and step: "step \<in> set (restore_steps plan)" "wanted baseline step"
    and request: "request = effect_request c0 baseline (digest r) step" "xr_plan c0 = plan" "xr_hash c0 = hash"
    and inv: "xr_inv plan hash p D (\<lambda>h. F h \<and> stored plan (step_key step @ '':intent'') request h) \<sigma>"
  shows "wp (call \<beta> (DispatchTyped request)) (\<lambda>_. xr_inv plan hash p (D @ [step_id step]) F)
     (\<lambda>_. xr_near plan hash p D (step_id step) F) \<sigma>"
proof -
  obtain c h where \<sigma>: "\<sigma> = (c, h)" by (cases \<sigma>)
  have known: "F h" "stored plan (step_key step @ '':intent'') request h" "keeps (grounded plan hash) h"
    using inv \<sigma> by (auto simp: xr_inv_def)
  have "grounded plan hash h (DispatchTyped request)"
    using F(2) known(1) by (intro groundedI [OF step request] known) simp_all
  moreover have "request_id request = step_id step" using request(1) by (simp add: request_step)
  ultimately have "xr_inv plan hash p (D @ [step_id step]) F (c, h @ [(DispatchTyped request, x)])" for x
    using inv \<sigma> lastingD [OF F(1)] by (auto simp: xr_inv_def)
  then show ?thesis unfolding \<sigma> by (auto simp: wp_call intro: xr_near_intros split: sum.splits)
qed

lemma wp_xr_dispatch:
  assumes F: "lasting F" "\<forall>h. F h \<longrightarrow> read_back plan baseline h \<and> released plan hash r h"
    and step: "step \<in> set (restore_steps plan)" "wanted baseline step"
    and request: "request = effect_request c0 baseline (digest r) step" "xr_plan c0 = plan" "xr_hash c0 = hash"
    and inv: "xr_inv plan hash p D F \<sigma>"
  shows "wp (xr_dispatch \<beta> baseline (digest r) request current step)
     (\<lambda>_. xr_near plan hash p D (step_id step) F) (\<lambda>_. xr_near plan hash p D (step_id step) F) \<sigma>"
proof -
  obtain row unit operation where s: "step = (row, unit, operation)" by (cases step)
  let ?G = "\<lambda>h. F h \<and> stored plan (step_key step @ '':intent'') request h"
  let ?I = "xr_inv plan hash p" and ?E = "xr_near plan hash p D (step_id step) F"
  have G: "lasting ?G" using F(1) xr_lasting_facts(1) by (rule lasting_conj)
  have put: "wp (xr_put \<beta> (step_key step @ '':intent'') request) (\<lambda>_. ?I D ?G) (\<lambda>_. ?E) \<tau>" if "?I D F \<tau>" for \<tau>
    using wp_xr_put [OF F(1) that] by (rule wp_mono) (auto intro: xr_near_intros)
  have effect: "wp (bnd (call \<beta> (DispatchTyped request)) f) (\<lambda>_. ?E) (\<lambda>_. ?E) \<tau>"
    if "?I D ?G \<tau>" "\<And>a. preserves (?I (D @ [step_id step]) F) (f a)" for f :: "pyval \<Rightarrow> unit xr_prog" and \<tau>
  proof (rule wp_bndI [OF wp_xr_effect_call [OF F step request that(1)]])
    fix a \<upsilon>
    assume "?I (D @ [step_id step]) F \<upsilon>"
    from preservesD [OF that(2) this] show "wp (f a) (\<lambda>_. ?E) (\<lambda>_. ?E) \<upsilon>" by (rule wp_mono) (auto intro: xr_near_intros)
  qed
  show ?thesis
    unfolding xr_dispatch_def s prod.case
    by (rule wp_kept_andthen [OF inv preserves_quiet(3)], erule xr_near_intros,
        rule wp_andthenI [OF put [unfolded s]], assumption,
        rule wp_kept_andthen [OF _ xr_inv_clock [OF G [unfolded s]]], assumption, erule xr_near_intros,
        rule wp_kept_bnd [OF _ xr_inv_observe [OF G [unfolded s]]], assumption, erule xr_near_intros,
        rule wp_kept_andthen [OF _ preserves_quiet(3)], assumption, erule xr_near_intros,
        rule wp_kept_andthen [OF _ xr_inv_same_release [OF G [unfolded s]]], assumption, erule xr_near_intros,
        rule effect [unfolded s], assumption,
        intro preserves_intros xr_keeps F(1))
qed

lemma wp_xr_effect:
  assumes F: "lasting F" "\<forall>h. F h \<longrightarrow> read_back plan baseline h \<and> released plan hash r h"
    and step: "step \<in> set (restore_steps plan)" "wanted baseline step"
    and request: "request = effect_request c0 baseline (digest r) step" "xr_plan c0 = plan" "xr_hash c0 = hash"
    and inv: "xr_inv plan hash p D F \<sigma>"
  shows "wp (xr_effect \<beta> baseline (digest r) request current step)
     (\<lambda>_. xr_near plan hash p D (step_id step) F) (\<lambda>_. xr_near plan hash p D (step_id step) F) \<sigma>"
  unfolding xr_effect_def
proof (rule wp_kept_bnd [OF inv xr_inv_read [OF F(1)] xr_near_intros(1)], assumption,
    rule wp_kept_bnd [OF _ xr_inv_read [OF F(1)] xr_near_intros(1)], assumption, assumption)
  fix intent done_record \<tau>
  assume inv': "xr_inv plan hash p D F \<tau>"
  show "wp (if intent \<noteq> PNone \<or> done_record \<noteq> PNone then
       demand (pyeq intent request \<and> pyeq done_record (confirmation request))
         ''uncertain prior attempt: inspect only, never redispatch''
     else xr_dispatch \<beta> baseline (digest r) request current step)
     (\<lambda>_. xr_near plan hash p D (step_id step) F) (\<lambda>_. xr_near plan hash p D (step_id step) F) \<tau>"
    using wp_xr_dispatch [OF F step request inv'] xr_near_intros(1) [OF inv'] by (auto simp: wp_simps)
qed

lemma near_kept:
  assumes "lasting F" "\<And>D. preserves (xr_inv plan hash p D F) m" "xr_near plan hash p D s F \<sigma>"
  shows "wp m (\<lambda>_. xr_near plan hash p D s F) (\<lambda>_. xr_near plan hash p D s F) \<sigma>"
  using assms(3) unfolding xr_near_def [of plan hash p D s F \<sigma>]
proof
  assume "xr_inv plan hash p D F \<sigma>"
  from wp_kept [OF assms(2) this xr_near_intros(1)] show ?thesis by (rule wp_mono) (auto intro: xr_near_intros)
next
  assume "xr_inv plan hash p (D @ [s]) F \<sigma>"
  from wp_kept [OF assms(2) this xr_near_intros(3)] show ?thesis by (rule wp_mono) (auto intro: xr_near_intros)
qed

lemma wp_xr_step:
  assumes F: "lasting F" "\<forall>h. F h \<longrightarrow> read_back plan baseline h \<and> released plan hash r h"
    and step: "step \<in> set (restore_steps plan)"
    and inv: "xr_inv plan hash p D F \<sigma>"
  shows "wp (xr_step \<beta> baseline (digest r) step)
     (\<lambda>_. xr_near plan hash p D (step_id step) F) (\<lambda>_. xr_near plan hash p D (step_id step) F) \<sigma>"
proof (cases "wanted baseline step")
  case False
  then show ?thesis using xr_near_intros(1) [OF inv] by (cases step) (simp add: xr_step_def wp_simps)
next
  case True
  obtain row unit operation where s: "step = (row, unit, operation)" by (cases step)
  let ?E = "xr_near plan hash p D (step_id step) F"
  have effect: "wp (bnd (reads (\<lambda>c. c)) (\<lambda>c. andthen (xr_effect \<beta> baseline (digest r)
       (effect_request c baseline (digest r) step) current step) m)) (\<lambda>_. ?E) (\<lambda>_. ?E) \<tau>"
    if "xr_inv plan hash p D F \<tau>" "\<And>D. preserves (xr_inv plan hash p D F) m" for current \<tau> and m :: "unit xr_prog"
  proof -
    obtain c h where \<tau>: "\<tau> = (c, h)" by (cases \<tau>)
    have "xr_plan c = plan" "xr_hash c = hash" using that(1) \<tau> by (auto simp: xr_inv_def)
    from wp_xr_effect [OF F step True refl this that(1)]
    have "wp (andthen (xr_effect \<beta> baseline (digest r) (effect_request c baseline (digest r) step) current step) m)
        (\<lambda>_. ?E) (\<lambda>_. ?E) \<tau>"
      by (rule wp_andthenI) (rule near_kept [OF F(1) that(2)])
    then show ?thesis unfolding \<tau> by (simp only: wp_bnd wp_reads prod.case)
  qed
  have "wp (andthen (same_release \<beta> baseline (digest r) ''release cohort changed'')
       (bnd (xr_read \<beta> ''baseline'') (\<lambda>durable.
        andthen (demand (pyeq durable baseline) ''durable baseline changed'')
        (bnd (xr_observe \<beta> False row) (\<lambda>observed.
        bnd (reads (\<lambda>c. c)) (\<lambda>c.
        andthen (xr_effect \<beta> baseline (digest r) (effect_request c baseline (digest r) step) (service observed unit) step)
        (bnd (xr_observe \<beta> False row) (\<lambda>after.
         demand (\<not> is_true (fld (service after unit) ''masked'')
           \<and> (operation \<noteq> ''START'' \<or> is_true (fld (service after unit) ''active''))) ''completed effect drift'')))))))) 
     (\<lambda>_. ?E) (\<lambda>_. ?E) \<sigma>"
    by (rule wp_kept_andthen [OF inv xr_inv_same_release [OF F(1)]], erule xr_near_intros,
        rule wp_kept_bnd [OF _ xr_inv_read [OF F(1)]], assumption, erule xr_near_intros,
        rule wp_kept_andthen [OF _ preserves_quiet(3)], assumption, erule xr_near_intros,
        rule wp_kept_bnd [OF _ xr_inv_observe [OF F(1)]], assumption, erule xr_near_intros,
        rule effect, assumption, intro preserves_intros xr_keeps F(1))
  then show ?thesis using True unfolding xr_step_def s by simp
qed

text \<open>The dispatched effects are some of the steps, in their order.\<close>

definition xr_some ::
    "pyval \<Rightarrow> string \<Rightarrow> bool \<Rightarrow> xr_step list \<Rightarrow> (xr_call hist \<Rightarrow> bool) \<Rightarrow> coordinator \<times> xr_call hist \<Rightarrow> bool" where
  "xr_some plan hash p steps F \<tau> \<longleftrightarrow> (\<exists>D. subseq D (map step_id steps) \<and> xr_inv plan hash p D F \<tau>)"

lemma xr_someI: "subseq D (map step_id steps) \<Longrightarrow> xr_inv plan hash p D F \<tau> \<Longrightarrow> xr_some plan hash p steps F \<tau>"
  by (auto simp: xr_some_def)

lemma xr_some_longer: "xr_some plan hash p ys F \<tau> \<Longrightarrow> xr_some plan hash p (ys @ zs) F \<tau>"
  by (auto simp: xr_some_def)

lemma xr_some_near:
  assumes "subseq D (map step_id ys)" "xr_near plan hash p D (step_id x) F \<tau>"
  shows "xr_some plan hash p (ys @ [x]) F \<tau>"
proof -
  have "subseq (D @ [step_id x]) (map step_id (ys @ [x]))" using assms(1) by (simp add: subseq_append')
  moreover have "subseq D (map step_id (ys @ [x]))" using list_emb_append_mono [OF assms(1) list_emb_Nil] by simp
  ultimately show ?thesis using assms(2) unfolding xr_near_def by (blast intro: xr_someI)
qed

lemma wp_xr_steps:
  assumes F: "lasting F" "\<forall>h. F h \<longrightarrow> read_back plan baseline h \<and> released plan hash r h"
    and inv: "xr_inv plan hash p [] F \<sigma>"
  shows "wp (foreach (xr_step \<beta> baseline (digest r)) (restore_steps plan)) (\<lambda>_. xr_some plan hash p (restore_steps plan) F)
     (\<lambda>_. xr_some plan hash p (restore_steps plan) F) \<sigma>"
proof (rule wp_foreach [where I = "\<lambda>ys. xr_some plan hash p ys F"])
  show "xr_some plan hash p [] F \<sigma>" using inv by (auto simp: xr_some_def)
next
  fix ys x zs \<tau>
  assume split: "restore_steps plan = ys @ x # zs" and "xr_some plan hash p ys F \<tau>"
  then obtain D where D: "subseq D (map step_id ys)" "xr_inv plan hash p D F \<tau>" by (auto simp: xr_some_def)
  have "x \<in> set (restore_steps plan)" using split by simp
  from wp_xr_step [OF F this D(2)]
  show "wp (xr_step \<beta> baseline (digest r) x) (\<lambda>_. xr_some plan hash p (ys @ [x]) F)
      (\<lambda>_. xr_some plan hash p (restore_steps plan) F) \<tau>"
  proof (rule wp_mono)
    fix \<upsilon>
    assume "xr_near plan hash p D (step_id x) F \<upsilon>"
    from xr_some_near [OF D(1) this] show some: "xr_some plan hash p (ys @ [x]) F \<upsilon>" .
    from xr_some_longer [OF this, of zs] show "xr_some plan hash p (restore_steps plan) F \<upsilon>" using split by simp
  qed
qed

lemma preserves_some: "(\<And>D. preserves (xr_inv plan hash p D F) m) \<Longrightarrow> preserves (xr_some plan hash p steps F) m"
  unfolding preserves_def xr_some_def by (blast intro: wp_mono)

text \<open>The final pass: every participant was observed with exactly the services of the baseline.\<close>

definition restored_node :: "pyval \<Rightarrow> pyval \<Rightarrow> xr_call hist \<Rightarrow> pyval \<Rightarrow> bool" where
  "restored_node plan baseline h row \<longleftrightarrow>
     (\<exists>v. (Observe (node_of row), Inr v) \<in> set h \<and> validate_record plan row v False = Inr ()
       \<and> pyeq (fld v ''services'') (fld (fld (fld baseline ''records'') (node_of row)) ''services''))"

definition observed_valid :: "pyval \<Rightarrow> bool \<Rightarrow> pyval \<Rightarrow> pyval \<Rightarrow> xr_call hist \<Rightarrow> bool" where
  "observed_valid plan before row v h \<longleftrightarrow>
     (Observe (node_of row), Inr v) \<in> set h \<and> validate_record plan row v before = Inr ()"

lemma lasting_observed: "lasting (observed_valid plan before row v)"
  by (simp add: lasting_def observed_valid_def)

lemma lasting_restored: "lasting (\<lambda>h. \<forall>row\<in>S. restored_node plan baseline h row)"
  by (fastforce simp: lasting_def restored_node_def)

lemma wp_xr_observe:
  assumes F: "lasting F" and inv: "xr_inv plan hash p D F \<sigma>"
  shows "wp (xr_observe \<beta> before row) (\<lambda>v. xr_inv plan hash p D (\<lambda>h. F h \<and> observed_valid plan before row v h))
     (\<lambda>_. xr_inv plan hash p D F) \<sigma>"
proof -
  have tail: "wp (bnd (reads xr_plan) (\<lambda>plan. andthen (lift (validate_record plan row v before)) (andthen (xr_clock \<beta>) (ret v))))
      (\<lambda>v. xr_inv plan hash p D (\<lambda>h. F h \<and> observed_valid plan before row v h)) (\<lambda>_. xr_inv plan hash p D F)
      (c, h @ [(Observe (node_of row), Inr v)])"
    if inv': "xr_inv plan hash p D F (c, h)" for c h v
  proof (cases "validate_record plan row v before")
    case (Inl e)
    then show ?thesis using inv' lastingD [OF F] by (auto simp: wp_simps xr_inv_def)
  next
    case (Inr u)
    let ?F = "\<lambda>h. F h \<and> observed_valid plan before row v h"
    have "xr_inv plan hash p D ?F (c, h @ [(Observe (node_of row), Inr v)])"
      using inv' lastingD [OF F] Inr by (auto simp: xr_inv_def observed_valid_def)
    from preservesD [OF xr_inv_clock [OF lasting_conj [OF F lasting_observed]] this]
    have "wp (andthen (xr_clock \<beta>) (ret v)) (\<lambda>v. xr_inv plan hash p D (\<lambda>h. F h \<and> observed_valid plan before row v h))
        (\<lambda>_. xr_inv plan hash p D F) (c, h @ [(Observe (node_of row), Inr v)])"
      unfolding wp_andthen by (rule wp_mono) (auto simp: wp_ret xr_inv_def)
    moreover have "xr_plan c = plan" using inv' by (simp add: xr_inv_def)
    ultimately show ?thesis
      using Inr by (simp only: wp_bnd wp_reads wp_andthen [of "lift x" for x] wp_lift prod.case sum.case)
  qed
  show ?thesis
    unfolding xr_observe_def
  proof (rule wp_kept_andthen [OF inv xr_inv_clock [OF F]], assumption)
    fix \<tau>
    assume inv': "xr_inv plan hash p D F \<tau>"
    obtain c h where \<tau>: "\<tau> = (c, h)" by (cases \<tau>)
    have "xr_inv plan hash p D F (c, h @ [(Observe (node_of row), x)])" for x
      using inv' \<tau> lastingD [OF F] by (auto simp: xr_inv_def)
    then show "wp (bnd (call \<beta> (Observe (node_of row))) (\<lambda>v.
       bnd (reads xr_plan) (\<lambda>plan. andthen (lift (validate_record plan row v before)) (andthen (xr_clock \<beta>) (ret v)))))
       (\<lambda>v. xr_inv plan hash p D (\<lambda>h. F h \<and> observed_valid plan before row v h)) (\<lambda>_. xr_inv plan hash p D F) \<tau>"
      unfolding \<tau> wp_bnd [of "call \<beta> q" for q] wp_call prod.case
      using tail inv' \<tau> by (auto split: sum.splits)
  qed
qed

section \<open>The whole restoration\<close>

definition based :: "pyval \<Rightarrow> string \<Rightarrow> pyval \<Rightarrow> pyval \<Rightarrow> xr_call hist \<Rightarrow> bool" where
  "based plan hash baseline r h \<longleftrightarrow> read_back plan baseline h \<and> released plan hash r h"

lemma lasting_based: "lasting (based plan hash baseline r)"
  using xr_lasting_facts(2,3) by (auto simp: lasting_def based_def)

abbreviation all_restored :: "pyval \<Rightarrow> string \<Rightarrow> pyval \<Rightarrow> pyval \<Rightarrow> pyval list \<Rightarrow> xr_call hist \<Rightarrow> bool" where
  "all_restored plan hash baseline r rows \<equiv>
     \<lambda>h. based plan hash baseline r h \<and> (\<forall>row\<in>set rows. restored_node plan baseline h row)"

lemma xr_some_mono: "xr_some plan hash p steps F \<tau> \<Longrightarrow> (\<And>h. F h \<Longrightarrow> G h) \<Longrightarrow> xr_some plan hash p steps G \<tau>"
  by (cases \<tau>) (auto simp: xr_some_def xr_inv_def)

lemma wp_final_check:
  assumes "xr_some plan hash p steps (all_restored plan hash baseline r rows) \<sigma>"
  shows "wp (final_check \<beta> baseline row) (\<lambda>_. xr_some plan hash p steps (all_restored plan hash baseline r (rows @ [row])))
     (\<lambda>_. xr_some plan hash p steps (\<lambda>_. True)) \<sigma>"
proof -
  obtain D where D: "subseq D (map step_id steps)" "xr_inv plan hash p D (all_restored plan hash baseline r rows) \<sigma>"
    using assms by (auto simp: xr_some_def)
  note rule = wp_xr_observe [OF lasting_conj [OF lasting_based lasting_restored] D(2)]
  show ?thesis
    unfolding final_check_def
  proof (rule wp_bndI [OF wp_mono [OF rule]])
    fix v \<tau>
    assume "xr_inv plan hash p D (\<lambda>h. all_restored plan hash baseline r rows h \<and> observed_valid plan False row v h) \<tau>"
    then show "wp (demand (pyeq (fld v ''services'') (fld (fld (fld baseline ''records'') (node_of row)) ''services''))
        ''exact service restoration differs'')
        (\<lambda>_. xr_some plan hash p steps (all_restored plan hash baseline r (rows @ [row])))
        (\<lambda>_. xr_some plan hash p steps (\<lambda>_. True)) \<tau>"
      using D(1) by (cases \<tau>) (auto simp: wp_demand xr_some_def xr_inv_def restored_node_def observed_valid_def)
  qed (use D(1) in \<open>auto intro!: xr_someI simp: xr_inv_def\<close>)
qed

lemma wp_final_checks:
  assumes "xr_some plan hash p steps (based plan hash baseline r) \<sigma>"
  shows "wp (foreach (final_check \<beta> baseline) rows) (\<lambda>_. xr_some plan hash p steps (all_restored plan hash baseline r rows))
     (\<lambda>_. xr_some plan hash p steps (\<lambda>_. True)) \<sigma>"
proof (rule wp_foreach [where I = "\<lambda>rows. xr_some plan hash p steps (all_restored plan hash baseline r rows)"])
  show "xr_some plan hash p steps (all_restored plan hash baseline r []) \<sigma>" using assms by simp
qed (rule wp_final_check)

lemma wp_xr_read_baseline:
  assumes "xr_inv plan hash p [] (\<lambda>_. True) \<sigma>"
  shows "wp (xr_read \<beta> ''baseline'') (\<lambda>b. xr_inv plan hash p [] (read_back plan b)) (\<lambda>_. xr_inv plan hash p [] (\<lambda>_. True)) \<sigma>"
  using assms by (cases \<sigma>) (auto simp: xr_read_def xr_inv_def read_back_def wp_simps split: sum.splits)

lemma wp_xr_clock_first:
  assumes "xr_inv plan hash p [] (\<lambda>_. True) \<sigma>"
  shows "wp (xr_clock \<beta>) (\<lambda>_ \<tau>. xr_inv plan hash p [] (\<lambda>_. True) \<tau> \<and> \<not> p) (\<lambda>_. xr_inv plan hash p [] (\<lambda>_. True)) \<sigma>"
  using assms by (cases \<sigma>) (auto simp: xr_clock_def xr_inv_def wp_simps split: sum.splits)

definition restore_done :: "pyval \<Rightarrow> string \<Rightarrow> pyval \<Rightarrow> coordinator \<times> xr_call hist \<Rightarrow> bool" where
  "restore_done plan hash result \<tau> \<longleftrightarrow> result = restored
     \<and> (\<exists>baseline r. xr_some plan hash False (restore_steps plan) (all_restored plan hash baseline r (rows_of plan)) \<tau>)"

lemma wp_restore_tail:
  assumes "xr_inv plan hash False [] (based plan hash baseline r) \<sigma>"
  shows "wp (andthen (foreach (xr_step \<beta> baseline (digest r)) (restore_steps plan))
     (andthen (foreach (final_check \<beta> baseline) (rows_of plan))
     (andthen (same_release \<beta> baseline (digest r) ''final release cohort changed'')
     (ret restored)))) (restore_done plan hash) (\<lambda>_. xr_some plan hash False (restore_steps plan) (\<lambda>_. True)) \<sigma>"
proof (rule wp_andthenI [OF wp_mono [OF wp_xr_steps [OF lasting_based _ assms]]], simp add: based_def, assumption, erule xr_some_mono,
    simp, rule wp_andthenI [OF wp_final_checks], assumption)
  fix \<tau>
  assume now: "xr_some plan hash False (restore_steps plan) (all_restored plan hash baseline r (rows_of plan)) \<tau>"
  have "preserves (xr_some plan hash False (restore_steps plan) (all_restored plan hash baseline r (rows_of plan)))
      (same_release \<beta> baseline (digest r) ''final release cohort changed'')"
    by (intro preserves_some xr_inv_same_release lasting_conj lasting_based lasting_restored)
  from preservesD [OF this now]
  show "wp (andthen (same_release \<beta> baseline (digest r) ''final release cohort changed'') (ret restored))
      (restore_done plan hash) (\<lambda>_. xr_some plan hash False (restore_steps plan) (\<lambda>_. True)) \<tau>"
    unfolding wp_andthen wp_ret by (rule wp_mono) (auto simp: restore_done_def elim: xr_some_mono)
qed

lemma wp_restore_body:
  assumes "xr_inv plan hash p [] (\<lambda>_. True) \<sigma>"
  shows "wp (restore_body \<beta>) (restore_done plan hash) (\<lambda>_. xr_some plan hash p (restore_steps plan) (\<lambda>_. True)) \<sigma>"
proof -
  have start: "xr_some plan hash p (restore_steps plan) (\<lambda>_. True) \<tau>" if "xr_inv plan hash p [] F \<tau>" for \<tau> F
    using that by (cases \<tau>) (auto simp: xr_some_def xr_inv_def)
  have checked: "wp (bnd (reads (\<lambda>c. c)) (\<lambda>c.
     andthen (lift (baseline_check c baseline))
     (bnd (xr_release \<beta> baseline) (\<lambda>release.
     andthen (foreach (xr_step \<beta> baseline (digest release)) (restore_steps (xr_plan c)))
     (andthen (foreach (final_check \<beta> baseline) (rows_of (xr_plan c)))
     (andthen (same_release \<beta> baseline (digest release) ''final release cohort changed'')
     (ret restored))))))) (restore_done plan hash) (\<lambda>_. xr_some plan hash p (restore_steps plan) (\<lambda>_. True)) \<tau>"
    if inv: "xr_inv plan hash p [] (read_back plan baseline) \<tau>" and "\<not> p" for baseline \<tau>
  proof -
    obtain c h where \<tau>: "\<tau> = (c, h)" by (cases \<tau>)
    have plan: "xr_plan c = plan" using inv \<tau> by (simp add: xr_inv_def)
    have p: "p = False" using \<open>\<not> p\<close> by simp
    have release: "wp (bnd (xr_release \<beta> baseline) (\<lambda>release.
       andthen (foreach (xr_step \<beta> baseline (digest release)) (restore_steps plan))
       (andthen (foreach (final_check \<beta> baseline) (rows_of plan))
       (andthen (same_release \<beta> baseline (digest release) ''final release cohort changed'')
       (ret restored))))) (restore_done plan hash) (\<lambda>_. xr_some plan hash p (restore_steps plan) (\<lambda>_. True)) \<tau>"
    proof (rule wp_bndI [OF wp_mono [OF wp_xr_release [OF xr_lasting_facts(2) inv]]])
      fix r \<upsilon>
      assume "xr_inv plan hash p [] (\<lambda>h. read_back plan baseline h \<and> released plan hash r h) \<upsilon>"
      then have "xr_inv plan hash False [] (based plan hash baseline r) \<upsilon>" using p by (cases \<upsilon>) (auto simp: xr_inv_def based_def)
      from wp_restore_tail [OF this]
      show "wp (andthen (foreach (xr_step \<beta> baseline (digest r)) (restore_steps plan))
         (andthen (foreach (final_check \<beta> baseline) (rows_of plan))
         (andthen (same_release \<beta> baseline (digest r) ''final release cohort changed'')
         (ret restored)))) (restore_done plan hash) (\<lambda>_. xr_some plan hash p (restore_steps plan) (\<lambda>_. True)) \<upsilon>"
        using p by simp
    qed (erule start, assumption)
    show ?thesis
      using release start [OF inv] unfolding \<tau>
      by (cases "baseline_check c baseline")
        (simp_all only: wp_bnd [of "reads f" for f] wp_reads wp_andthen [of "lift x" for x] wp_lift prod.case sum.case plan)
  qed
  show ?thesis
    unfolding restore_body_def
  proof (rule wp_andthenI [OF wp_mono [OF wp_xr_clock_first [OF assms]]], assumption, erule start)
    fix \<tau>
    assume now: "xr_inv plan hash p [] (\<lambda>_. True) \<tau> \<and> \<not> p"
    then have "xr_inv plan hash p [] (\<lambda>_. True) \<tau>" by (rule conjunct1)
    from wp_mono [OF wp_xr_read_baseline [OF this] _ start]
    have read: "wp (xr_read \<beta> ''baseline'') (\<lambda>b. xr_inv plan hash p [] (read_back plan b))
        (\<lambda>_. xr_some plan hash p (restore_steps plan) (\<lambda>_. True)) \<tau>" by simp
    from now have "\<not> p" by (rule conjunct2)
    show "wp (bnd (xr_read \<beta> ''baseline'') (\<lambda>baseline.
     bnd (reads (\<lambda>c. c)) (\<lambda>c.
     andthen (lift (baseline_check c baseline))
     (bnd (xr_release \<beta> baseline) (\<lambda>release.
     andthen (foreach (xr_step \<beta> baseline (digest release)) (restore_steps (xr_plan c)))
     (andthen (foreach (final_check \<beta> baseline) (rows_of (xr_plan c)))
     (andthen (same_release \<beta> baseline (digest release) ''final release cohort changed'')
     (ret restored)))))))) (restore_done plan hash) (\<lambda>_. xr_some plan hash p (restore_steps plan) (\<lambda>_. True)) \<tau>"
      by (rule wp_bndI [OF read], rule checked) (assumption, rule \<open>\<not> p\<close>)
  qed
qed

lemma restore_cases:
  obtains r c' h where "restore \<beta> (c, []) = (Inr r, c', h)" "restore_done (xr_plan c) (xr_hash c) r (c', h)" "\<not> xr_poisoned c"
  | e c' h where "restore \<beta> (c, []) = (Inl e, xr_poisoned_update (\<lambda>_. True) c', h)"
      "xr_some (xr_plan c) (xr_hash c) (xr_poisoned c) (restore_steps (xr_plan c)) (\<lambda>_. True) (c', h)"
proof -
  have inv: "xr_inv (xr_plan c) (xr_hash c) (xr_poisoned c) [] (\<lambda>_. True) (c, [])" by (simp add: xr_inv_def)
  obtain x c' h where run: "restore_body \<beta> (c, []) = (x, c', h)" by (cases "restore_body \<beta> (c, [])")
  show thesis
  proof (cases x)
    case (Inl e)
    then have "restore \<beta> (c, []) = (Inl e, xr_poisoned_update (\<lambda>_. True) c', h)"
      using run by (simp add: restore_def on_error_def writes_def)
    with wp_exc [OF wp_restore_body [OF inv] run [unfolded Inl]] show thesis by (rule that(2) [rotated])
  next
    case (Inr r)
    then have "restore \<beta> (c, []) = (Inr r, c', h)" using run by (simp add: restore_def on_error_def)
    moreover note wp_value [OF wp_restore_body [OF inv] run [unfolded Inr]]
    moreover have "\<not> xr_poisoned c"
    proof
      assume "xr_poisoned c"
      then have "restore_body \<beta> (c, []) = (Inl (Refusal ''poisoned or changed coordinator''), c, [])"
        by (simp add: restore_body_def xr_clock_def andthen_def bnd_def reads_def demand_def raise_def)
      then show False using run Inr by simp
    qed
    ultimately show thesis by (rule that(1))
  qed
qed

text \<open>C34: For every backend and from every state of a coordinator, a restoration dispatches only
  some of the plan's steps (unmask before start, phase by phase, participant by participant), each
  at most as often and in the order the plan lists them; every dispatched request is grounded (wanted by
  the durable baseline, under a verified release, after the store acknowledged the intent with this very
  request); the plan and its digest are never changed; and a failure of whatever kind poisons the coordinator.\<close>

theorem restore_grounded:
  "case restore \<beta> (c, []) of (x, c', h) \<Rightarrow>
     subseq (dispatched h) (map step_id (restore_steps (xr_plan c)))
   \<and> keeps (grounded (xr_plan c) (xr_hash c)) h \<and> xr_plan c' = xr_plan c \<and> xr_hash c' = xr_hash c
   \<and> (case x of Inl e \<Rightarrow> xr_poisoned c' | Inr r \<Rightarrow> \<not> xr_poisoned c \<and> \<not> xr_poisoned c' \<and> r = restored)"
  by (rule restore_cases [of \<beta> c]) (auto simp: restore_done_def xr_some_def xr_inv_def)

text \<open>C35: A restoration that reports success read a durable baseline, and observed every
  participant with a record that is valid after the migration and whose services are exactly those of the
  baseline, under a release proof of all archives.\<close>

theorem restore_exact:
  "case restore \<beta> (c, []) of (x, c', h) \<Rightarrow>
     (case x of Inl e \<Rightarrow> True
      | Inr r \<Rightarrow> \<exists>baseline evidence. read_back (xr_plan c) baseline h \<and> released (xr_plan c) (xr_hash c) evidence h
          \<and> list_all (restored_node (xr_plan c) baseline h) (rows_of (xr_plan c)))"
  by (rule restore_cases [of \<beta> c]) (auto simp: restore_done_def xr_some_def xr_inv_def based_def list_all_iff)

end
