(* ===== verification/GuestShutdown.thy ===== *)
theory GuestShutdown
  imports Json PyEffect PyText "HOL-Library.Sublist"
begin

text \<open>
  The supervised shutdown of an exact list of guests behind the maintenance barrier,
  \<^verbatim>\<open>experiments/thick-generations/layout-migration-guest-shutdown-model.py\<close>: the plan, the cluster
  snapshots, and the controller that stops one guest after the other by a graceful task, which it
  journals, waits for and verifies. The backend is an arbitrary \<open>backend\<close>.
\<close>

section \<open>Task identifiers\<close>

definition hex_word :: "string \<Rightarrow> bool" where
  "hex_word s \<longleftrightarrow> s \<noteq> [] \<and> list_all (\<lambda>c. lower_hex c \<or> (CHR ''A'' \<le> c \<and> c \<le> CHR ''F'')) s"

definition upid_shape :: "string list \<Rightarrow> bool" where
  "upid_shape ps \<longleftrightarrow>
     length ps = 9 \<and> ps ! 0 = ''UPID'' \<and> ps ! 8 = [] \<and> ps ! 1 \<noteq> []
   \<and> list_all hex_word (take 3 (drop 2 ps)) \<and> ps ! 5 \<noteq> [] \<and> isdigit (ps ! 6)"

definition parse_upid :: "pyval \<Rightarrow> pyval res" where
  "parse_upid v =
     (if \<not> is_str v then Inl (Refusal ''shutdown UPID invalid'')
      else let ps = split_on CHR '':'' (str_of v) in
        rbind (rneed (if upid_shape ps then rbind (py_int (ps ! 6)) (\<lambda>n. Inr (0 < n \<and> ps ! 7 \<noteq> [])) else Inr False)
          ''shutdown UPID invalid'') (\<lambda>_.
        rbind (py_int (ps ! 6)) (\<lambda>n.
        Inr (PDict [(''node'', PStr (ps ! 1)), (''task_type'', PStr (ps ! 5)), (''vmid'', PInt n)]))))"

section \<open>The plan\<close>

definition gs_plan_fields :: "string list" where
  "gs_plan_fields =
     [''schema'', ''tx'', ''barrier_plan_sha256'', ''barrier_evidence_sha256'', ''storage_cfg_sha256'',
      ''workload_snapshot_sha256'', ''participants'', ''guests'', ''issued_at'', ''deadline'', ''per_task_timeout'', ''force_stop'']"

definition bound_hashes :: "string list" where
  "bound_hashes = [''barrier_plan_sha256'', ''barrier_evidence_sha256'', ''storage_cfg_sha256'', ''workload_snapshot_sha256'']"

definition gs_identity :: "pyval \<Rightarrow> bool res" where
  "gs_identity plan =
     rand (Inr (pyeq (fld plan ''schema'') (PStr ''slt-supervised-shutdown-model/v1'')))
     (rand (fullmatch_or (hexn 32) (fld plan ''tx''))
           (rall (\<lambda>k. fullmatch_or (hexn 64) (fld plan k)) bound_hashes))"

definition gs_timing :: "pyval \<Rightarrow> int \<Rightarrow> bool" where
  "gs_timing plan now \<longleftrightarrow>
     (let issued = int_of (fld plan ''issued_at''); deadline = int_of (fld plan ''deadline''); t = fld plan ''per_task_timeout'' in
      is_int (fld plan ''issued_at'') \<and> is_int (fld plan ''deadline'')
    \<and> issued \<le> now \<and> now \<le> deadline \<and> 0 < deadline - issued \<and> deadline - issued \<le> 7200
    \<and> is_int t \<and> 1 \<le> int_of t \<and> int_of t \<le> 900 \<and> is_false (fld plan ''force_stop''))"

definition nonempty_str :: "pyval \<Rightarrow> bool" where "nonempty_str = matches (\<lambda>s. s \<noteq> [])"

definition gs_participant :: "pyval \<Rightarrow> unit res" where
  "gs_participant row = checks
     [need (exact row [''node'', ''boot_id'']) ''participant fields invalid'',
      need (nonempty_str (fld row ''node'') \<and> nonempty_str (fld row ''boot_id'')) ''participant invalid'']"

abbreviation participants :: "pyval \<Rightarrow> pyval list" where "participants plan \<equiv> list_of (fld plan ''participants'')"
abbreviation guests :: "pyval \<Rightarrow> pyval list" where "guests plan \<equiv> list_of (fld plan ''guests'')"

definition guest_ok :: "pyval \<Rightarrow> pyval \<Rightarrow> bool res" where
  "guest_ok plan g =
     rand (Inr (is_int (fld g ''vmid'') \<and> 0 < int_of (fld g ''vmid'') \<and> fld g ''type'' \<in> {PStr ''qemu'', PStr ''lxc''}
       \<and> list_ex (\<lambda>row. pyeq (fld g ''node'') (fld row ''node'')) (participants plan) \<and> is_false (fld g ''ha_managed'')))
     (rand (fullmatch_or (hexn 64) (fld g ''config_sha256''))
     (rand (Inr (is_list (fld g ''managed_disks'') \<and> list_of (fld g ''managed_disks'') \<noteq> []))
           (is_sorted_set (list_of (fld g ''managed_disks'')))))"

definition gs_guest :: "pyval \<Rightarrow> pyval \<Rightarrow> unit res" where
  "gs_guest plan g =
     rbind (checks [need (exact g [''vmid'', ''type'', ''node'', ''config_sha256'', ''managed_disks'', ''ha_managed'']) ''guest fields invalid''])
     (\<lambda>_. rneed (guest_ok plan g) ''guest identity invalid'')"

text \<open>The order of the tuples (node, type, vmid)\<close>

definition guest_less :: "pyval \<Rightarrow> pyval \<Rightarrow> bool" where
  "guest_less g k \<longleftrightarrow>
     (let key = \<lambda>f x. str_of (fld x f) in
      key ''node'' g < key ''node'' k
    \<or> key ''node'' g = key ''node'' k \<and> (key ''type'' g < key ''type'' k
        \<or> key ''type'' g = key ''type'' k \<and> int_of (fld g ''vmid'') < int_of (fld k ''vmid'')))"

definition gs_validate_plan :: "pyval \<Rightarrow> int \<Rightarrow> pyval res" where
  "gs_validate_plan plan now =
     rbind (checks [need (exact plan gs_plan_fields) ''shutdown plan fields invalid'']) (\<lambda>_.
     rbind (rneed (gs_identity plan) ''shutdown identity invalid'') (\<lambda>_.
     rbind (checks
       [need (gs_timing plan now) ''shutdown timing/policy invalid'',
        need (is_list (fld plan ''participants'') \<and> length (participants plan) = 4) ''participant set invalid'']) (\<lambda>_.
     rbind (check_each gs_participant (participants plan)) (\<lambda>_.
     rbind (checks
       [need (sorted_strs (map (\<lambda>r. fld r ''node'') (participants plan))) ''participant set invalid'',
        need (is_list (fld plan ''guests'') \<and> guests plan \<noteq> []) ''guest allowlist empty'']) (\<lambda>_.
     rbind (check_each (gs_guest plan) (guests plan)) (\<lambda>_.
     rbind (checks
       [need (sorted_wrt guest_less (guests plan) \<and> distinct (map (\<lambda>g. int_of (fld g ''vmid'')) (guests plan)))
          ''guest allowlist duplicated or unordered'']) (\<lambda>_. Inr plan)))))))"

section \<open>Snapshots\<close>

definition consumer_keys :: "string list" where
  "consumer_keys = [''vmid'', ''type'', ''node'', ''config_sha256'', ''managed_disks'']"

text \<open>\<^verbatim>\<open>{k: g[k] for k in (...)}\<close>\<close>

definition consumer :: "pyval \<Rightarrow> pyval" where
  "consumer g = PDict (map (\<lambda>k. (k, fld g k)) consumer_keys)"

definition consumer_check :: "pyval \<Rightarrow> unit res" where
  "consumer_check row = checks
     [need (exact row consumer_keys) ''running consumer fields invalid'',
      need (is_int (fld row ''vmid'') \<and> is_str (fld row ''type'') \<and> is_str (fld row ''node'') \<and> is_str (fld row ''config_sha256'')
        \<and> is_list (fld row ''managed_disks'') \<and> list_all is_str (list_of (fld row ''managed_disks''))) ''running consumer types invalid'']"

definition barrier_holds :: "pyval \<Rightarrow> pyval \<Rightarrow> bool" where
  "barrier_holds v plan \<longleftrightarrow>
     is_list (fld v ''participants'')
   \<and> list_all (\<lambda>x. exact x [''node'', ''boot_id''] \<and> is_str (fld x ''node'') \<and> is_str (fld x ''boot_id'')) (participants v)
   \<and> pyeq (fld v ''participants'') (fld plan ''participants'')
   \<and> list_all (\<lambda>k. pyeq (fld v k) (fld plan k)) bound_hashes
   \<and> is_true (fld v ''admission_closed'') \<and> is_true (fld v ''ha_idle_disarmed'')"

definition validate_snapshot :: "pyval \<Rightarrow> pyval \<Rightarrow> pyval list \<Rightarrow> unit res" where
  "validate_snapshot v plan expected =
     rbind (checks
       [need (exact v ([''participants''] @ bound_hashes
          @ [''admission_closed'', ''ha_idle_disarmed'', ''tasks'', ''workers'', ''running_consumers''])) ''cluster snapshot fields invalid'',
        need (barrier_holds v plan) ''shutdown prerequisite barrier invalid'',
        need (fld v ''tasks'' = PList [] \<and> fld v ''workers'' = PList []) ''cluster has active task or worker'',
        need (is_list (fld v ''running_consumers'')) ''running consumer inventory invalid'']) (\<lambda>_.
     rbind (check_each consumer_check (list_of (fld v ''running_consumers''))) (\<lambda>_.
     checks [need (pyeq (fld v ''running_consumers'') (PList expected)) ''running managed consumer set differs from allowlist'']))"

section \<open>The controller\<close>

datatype gs_call =
    GsNow
  | GsLoad pyval
  | GsPersist pyval
  | GsCluster
  | GsGuest pyval
  | GsSubmit pyval
  | GsWait pyval pyval pyval

record shutdown_state =
  gs_last_clock :: int
  gs_running :: bool
  gs_poisoned :: bool

type_synonym 'a gs_prog = "(shutdown_state, gs_call, 'a) prog"

text \<open>
  The plan and its hash are set by \<^verbatim>\<open>__init__\<close> and never assigned: they are arguments. A backend gets copies
  and does not touch the controller.
\<close>

definition gs_init :: "pyval \<Rightarrow> int \<Rightarrow> (pyval \<times> string \<times> shutdown_state) res" where
  "gs_init plan now =
     rbind (gs_validate_plan plan now) (\<lambda>p.
     if json_ok p then Inr (p, digest p, \<lparr>gs_last_clock = now, gs_running = False, gs_poisoned = False\<rparr>)
     else Inl (TypeError ''not JSON serializable''))"

definition gs_authority :: "pyval \<Rightarrow> string \<Rightarrow> unit gs_prog" where
  "gs_authority plan sha =
     bnd (reads gs_poisoned) (\<lambda>p. demand (\<not> p \<and> digest plan = sha) ''shutdown controller authority changed'')"

definition gs_clock :: "pyval \<Rightarrow> string \<Rightarrow> gs_call backend \<Rightarrow> unit gs_prog" where
  "gs_clock plan sha \<beta> =
     bnd (reads gs_last_clock) (\<lambda>old.
     bnd (call \<beta> GsNow) (\<lambda>v.
     andthen (gs_authority plan sha)
     (bnd (reads gs_last_clock) (\<lambda>last.
     andthen (demand (last = old \<and> is_int v \<and> old \<le> int_of v \<and> int_of v \<le> int_of (fld plan ''deadline''))
        ''shutdown clock invalid or expired'')
     (writes (gs_last_clock_update (\<lambda>_. int_of v)))))))"

definition gs_tick :: "pyval \<Rightarrow> string \<Rightarrow> gs_call backend \<Rightarrow> unit gs_prog" where
  "gs_tick plan sha \<beta> = andthen (gs_authority plan sha) (gs_clock plan sha \<beta>)"

definition gs_event :: "pyval \<Rightarrow> string \<Rightarrow> string \<Rightarrow> nat \<Rightarrow> pyval \<Rightarrow> pyval option \<Rightarrow> pyval" where
  "gs_event plan sha kind index g payload =
     PDict ([(''tx'', fld plan ''tx''), (''plan_sha256'', PStr sha), (''kind'', PStr kind), (''index'', PInt (int index)),
             (''vmid'', fld g ''vmid''), (''type'', fld g ''type''), (''node'', fld g ''node'')]
            @ (case payload of None \<Rightarrow> [] | Some v \<Rightarrow> [(''payload'', v)]))"

definition gs_persist :: "pyval \<Rightarrow> string \<Rightarrow> gs_call backend \<Rightarrow> string \<Rightarrow> nat \<Rightarrow> pyval \<Rightarrow> pyval option \<Rightarrow> unit gs_prog" where
  "gs_persist plan sha \<beta> kind index g payload =
     bnd (call \<beta> (GsPersist (gs_event plan sha kind index g payload))) (\<lambda>_. gs_tick plan sha \<beta>)"

definition gs_cluster :: "pyval \<Rightarrow> string \<Rightarrow> gs_call backend \<Rightarrow> pyval list \<Rightarrow> unit gs_prog" where
  "gs_cluster plan sha \<beta> expected =
     bnd (call \<beta> GsCluster) (\<lambda>v. andthen (lift (validate_snapshot v plan expected)) (gs_tick plan sha \<beta>))"

definition guest_state_keys :: "string list" where
  "guest_state_keys = consumer_keys @ [''running'', ''ha_managed'', ''task_refs'', ''process_refs'', ''cgroup_populated'', ''cleanup_tasks'']"

definition guest_state :: "pyval \<Rightarrow> bool \<Rightarrow> pyval list \<Rightarrow> pyval" where
  "guest_state g up procs =
     PDict (items (consumer g) @
       [(''running'', PBool up), (''ha_managed'', PBool False), (''task_refs'', PList []), (''process_refs'', PList procs),
        (''cgroup_populated'', PBool up), (''cleanup_tasks'', PList [])])"

definition guest_state_ok :: "pyval \<Rightarrow> pyval \<Rightarrow> bool" where
  "guest_state_ok wanted v \<longleftrightarrow>
     is_int (fld v ''vmid'') \<and> list_all (\<lambda>k. is_bool (fld v k)) [''running'', ''ha_managed'', ''cgroup_populated'']
   \<and> list_all (\<lambda>k. is_list (fld v k)) [''managed_disks'', ''task_refs'', ''process_refs'', ''cleanup_tasks'']
   \<and> pyeq v wanted"

definition before_state :: "pyval \<Rightarrow> pyval" where
  "before_state g = guest_state g True [PStr ''guest-runtime'']"

definition absent_state :: "pyval \<Rightarrow> pyval" where
  "absent_state g = guest_state g False []"

definition check_before :: "pyval \<Rightarrow> pyval \<Rightarrow> unit res" where
  "check_before g v = checks
     [need (exact v guest_state_keys) ''guest preflight fields invalid'',
      need (guest_state_ok (before_state g) v) ''guest preflight drifted'']"

definition check_absent :: "pyval \<Rightarrow> pyval \<Rightarrow> unit res" where
  "check_absent g v = checks
     [need (exact v guest_state_keys) ''guest absence receipt fields invalid'',
      need (guest_state_ok (absent_state g) v) ''guest absence is not proven'']"

definition task_type :: "pyval \<Rightarrow> string" where
  "task_type g = (if pyeq (fld g ''type'') (PStr ''qemu'') then ''qmshutdown'' else ''vzshutdown'')"

definition accepted_ok :: "pyval \<Rightarrow> pyval \<Rightarrow> pyval \<Rightarrow> bool" where
  "accepted_ok g parsed v \<longleftrightarrow>
     is_int (fld v ''vmid'') \<and> list_all (\<lambda>k. is_str (fld v k)) [''upid'', ''node'', ''type'', ''task_type'']
   \<and> pyeq parsed (PDict [(''node'', fld g ''node''), (''task_type'', PStr (task_type g)), (''vmid'', fld g ''vmid'')])
   \<and> pyeq (fld v ''node'') (fld g ''node'') \<and> pyeq (fld v ''vmid'') (fld g ''vmid'') \<and> pyeq (fld v ''type'') (fld g ''type'')
   \<and> pyeq (fld v ''task_type'') (PStr (task_type g))"

definition check_accepted :: "pyval \<Rightarrow> pyval \<Rightarrow> unit res" where
  "check_accepted g v =
     rbind (checks [need (exact v [''upid'', ''node'', ''vmid'', ''type'', ''task_type'']) ''shutdown acceptance fields invalid'']) (\<lambda>_.
     rbind (parse_upid (fld v ''upid'')) (\<lambda>parsed.
     checks [need (accepted_ok g parsed v) ''shutdown UPID binding invalid'']))"

definition terminal_ok :: "pyval \<Rightarrow> pyval \<Rightarrow> bool" where
  "terminal_ok accepted v \<longleftrightarrow>
     is_int (fld v ''vmid'') \<and> is_bool (fld v ''terminal'')
   \<and> list_all (\<lambda>k. is_str (fld v k)) [''upid'', ''node'', ''type'', ''task_type'', ''exitstatus'']
   \<and> pyeq v (pyset ''exitstatus'' (PStr ''OK'') (pyset ''terminal'' (PBool True) accepted))"

definition check_terminal :: "pyval \<Rightarrow> pyval \<Rightarrow> unit res" where
  "check_terminal accepted v = checks
     [need (exact v [''upid'', ''node'', ''vmid'', ''type'', ''task_type'', ''terminal'', ''exitstatus''])
        ''shutdown terminal receipt fields invalid'',
      need (terminal_ok accepted v) ''shutdown task is not a confirmed success'']"

definition gs_submit :: "pyval \<Rightarrow> string \<Rightarrow> gs_call backend \<Rightarrow> nat \<Rightarrow> pyval \<Rightarrow> pyval gs_prog" where
  "gs_submit plan sha \<beta> index g =
     block [gs_clock plan sha \<beta>, gs_persist plan sha \<beta> ''INTENT_DURABLE'' index g None,
            gs_persist plan sha \<beta> ''ATTEMPTED'' index g None]
     (bnd (call \<beta> (GsSubmit g)) (\<lambda>accepted.
      block [lift (check_accepted g accepted), gs_authority plan sha,
             gs_persist plan sha \<beta> ''TASK_ACCEPTED'' index g (Some accepted)]
      (ret accepted)))"

definition gs_await :: "pyval \<Rightarrow> string \<Rightarrow> gs_call backend \<Rightarrow> nat \<Rightarrow> pyval \<Rightarrow> pyval \<Rightarrow> unit gs_prog" where
  "gs_await plan sha \<beta> index g accepted =
     bnd (call \<beta> (GsWait (fld accepted ''upid'') (fld plan ''per_task_timeout'') (fld plan ''deadline''))) (\<lambda>terminal.
     block [lift (check_terminal accepted terminal), gs_tick plan sha \<beta>]
     (gs_persist plan sha \<beta> ''TASK_TERMINAL'' index g (Some terminal)))"

definition gs_absent :: "pyval \<Rightarrow> string \<Rightarrow> gs_call backend \<Rightarrow> nat \<Rightarrow> pyval \<Rightarrow> unit gs_prog" where
  "gs_absent plan sha \<beta> index g =
     bnd (call \<beta> (GsGuest g)) (\<lambda>absent.
     block [lift (check_absent g absent), gs_tick plan sha \<beta>]
     (gs_persist plan sha \<beta> ''OBSERVED_ABSENT'' index g (Some absent)))"

definition gs_stop :: "pyval \<Rightarrow> string \<Rightarrow> gs_call backend \<Rightarrow> nat \<Rightarrow> unit gs_prog" where
  "gs_stop plan sha \<beta> index =
     (let g = guests plan ! index in
      andthen (gs_cluster plan sha \<beta> (drop index (map consumer (guests plan))))
      (bnd (call \<beta> (GsGuest g)) (\<lambda>v.
       block [lift (check_before g v), gs_tick plan sha \<beta>]
       (bnd (gs_submit plan sha \<beta> index g) (\<lambda>accepted.
        andthen (gs_await plan sha \<beta> index g accepted) (gs_absent plan sha \<beta> index g))))))"

definition gs_report :: pyval where
  "gs_report =
     PDict [(''state'', PStr ''MODEL_ALLOWLIST_STOPPED''), (''runtime_authorized'', PBool False), (''rollout_authorized'', PBool False),
            (''release_authorized'', PBool False), (''force_used'', PBool False), (''mutation_performed'', PBool False)]"

definition gs_body :: "pyval \<Rightarrow> string \<Rightarrow> gs_call backend \<Rightarrow> pyval gs_prog" where
  "gs_body plan sha \<beta> =
     andthen (gs_clock plan sha \<beta>)
     (bnd (call \<beta> (GsLoad (fld plan ''tx''))) (\<lambda>events.
      block [gs_tick plan sha \<beta>,
             demand (events = PList []) ''nonempty shutdown history requires explicit recovery'',
             gs_cluster plan sha \<beta> (map consumer (guests plan)),
             foreach (gs_stop plan sha \<beta>) [0..<length (guests plan)],
             gs_cluster plan sha \<beta> []]
      (ret gs_report)))"

definition gs_run :: "pyval \<Rightarrow> string \<Rightarrow> gs_call backend \<Rightarrow> pyval gs_prog" where
  "gs_run plan sha \<beta> =
     bnd (reads gs_running) (\<lambda>running.
     if running then andthen (writes (gs_poisoned_update (\<lambda>_. True))) (raise (Refusal ''shutdown controller reentered''))
     else
       bnd (reads gs_poisoned) (\<lambda>poisoned.
       block [demand (\<not> poisoned) ''shutdown controller poisoned'', writes (gs_running_update (\<lambda>_. True))]
       (at_end (on_exception (gs_body plan sha \<beta>) (writes (gs_poisoned_update (\<lambda>_. True))))
          (gs_running_update (\<lambda>_. False)))))"

section \<open>The script\<close>

text \<open>A call by its kind and what it is about\<close>

fun gs_label :: "gs_call \<Rightarrow> string \<times> pyval" where
  "gs_label GsNow = (''now'', PNone)"
| "gs_label (GsLoad tx) = (''load'', tx)"
| "gs_label (GsPersist e) = (str_of (fld e ''kind''), fld e ''index'')"
| "gs_label GsCluster = (''cluster'', PNone)"
| "gs_label (GsGuest g) = (''guest'', g)"
| "gs_label (GsSubmit g) = (''submit'', g)"
| "gs_label (GsWait u t d) = (''wait'', d)"

abbreviation now_label :: "string \<times> pyval" where "now_label \<equiv> (''now'', PNone)"

definition journal_script :: "string \<Rightarrow> nat \<Rightarrow> (string \<times> pyval) list" where
  "journal_script kind index = [(kind, PInt (int index)), now_label]"

definition cluster_script :: "(string \<times> pyval) list" where
  "cluster_script = [(''cluster'', PNone), now_label]"

text \<open>What is due for one guest\<close>

definition stop_script :: "pyval \<Rightarrow> nat \<Rightarrow> (string \<times> pyval) list" where
  "stop_script plan index =
     (let g = guests plan ! index in
      cluster_script @ [(''guest'', g), now_label, now_label]
      @ journal_script ''INTENT_DURABLE'' index @ journal_script ''ATTEMPTED'' index
      @ [(''submit'', g)] @ journal_script ''TASK_ACCEPTED'' index
      @ [(''wait'', fld plan ''deadline''), now_label] @ journal_script ''TASK_TERMINAL'' index
      @ [(''guest'', g), now_label] @ journal_script ''OBSERVED_ABSENT'' index)"

definition shutdown_script :: "pyval \<Rightarrow> (string \<times> pyval) list" where
  "shutdown_script plan =
     [now_label, (''load'', fld plan ''tx''), now_label] @ cluster_script
     @ concat (map (stop_script plan) [0..<length (guests plan)]) @ cluster_script"

lemma emits_gs_authority: "emits gs_label [] (gs_authority plan sha)"
  unfolding gs_authority_def by (rule emits_intros refl | simp)+

lemma emits_gs_clock: "emits gs_label [now_label] (gs_clock plan sha \<beta>)"
  unfolding gs_clock_def by (rule emits_intros emits_gs_authority refl | simp)+

lemma emits_gs_tick: "emits gs_label [now_label] (gs_tick plan sha \<beta>)"
  unfolding gs_tick_def by (rule emits_intros emits_gs_authority emits_gs_clock refl | simp)+

lemma emits_gs_cluster: "emits gs_label cluster_script (gs_cluster plan sha \<beta> expected)"
  unfolding gs_cluster_def by (rule emits_intros emits_gs_tick refl | simp add: cluster_script_def)+

lemma emits_gs_persist: "emits gs_label (journal_script kind index) (gs_persist plan sha \<beta> kind index g payload)"
proof -
  have "gs_label (GsPersist (gs_event plan sha kind index g payload)) = (kind, PInt (int index))"
    by (simp add: gs_event_def fld_def)
  then show ?thesis
    unfolding gs_persist_def journal_script_def by (intro emits_bndI [OF emits_call emits_gs_tick]) simp
qed

lemma emits_gs_submit:
  "emits gs_label ([now_label] @ journal_script ''INTENT_DURABLE'' i @ journal_script ''ATTEMPTED'' i
     @ [(''submit'', g)] @ journal_script ''TASK_ACCEPTED'' i) (gs_submit plan sha \<beta> i g)"
  unfolding gs_submit_def block.simps
  by (rule emits_intros emits_gs_clock emits_gs_persist emits_gs_authority refl | simp)+

lemma emits_gs_await:
  "emits gs_label ([(''wait'', fld plan ''deadline''), now_label] @ journal_script ''TASK_TERMINAL'' i)
     (gs_await plan sha \<beta> i g accepted)"
  unfolding gs_await_def block.simps by (rule emits_intros emits_gs_tick emits_gs_persist refl | simp)+

lemma emits_gs_absent:
  "emits gs_label ([(''guest'', g), now_label] @ journal_script ''OBSERVED_ABSENT'' i) (gs_absent plan sha \<beta> i g)"
  unfolding gs_absent_def block.simps by (rule emits_intros emits_gs_tick emits_gs_persist refl | simp)+

lemma emits_gs_stop: "emits gs_label (stop_script plan i) (gs_stop plan sha \<beta> i)"
  unfolding gs_stop_def Let_def block.simps
  by (rule emits_intros emits_gs_cluster emits_gs_submit emits_gs_await emits_gs_absent emits_gs_tick refl
      | simp add: stop_script_def Let_def)+

lemma emits_gs_body: "emits gs_label (shutdown_script plan) (gs_body plan sha \<beta>)"
  unfolding gs_body_def block.simps
  by (rule emits_intros emits_gs_clock emits_gs_tick emits_gs_cluster emits_gs_stop refl | simp add: shutdown_script_def)+

section \<open>What a completed shutdown rests on\<close>

definition stopped :: "pyval \<Rightarrow> pyval \<Rightarrow> gs_call hist \<Rightarrow> bool" where
  "stopped plan g h \<longleftrightarrow>
     (\<exists>before accepted terminal absent.
        (GsGuest g, Inr before) \<in> set h \<and> check_before g before = Inr ()
      \<and> (GsSubmit g, Inr accepted) \<in> set h \<and> check_accepted g accepted = Inr ()
      \<and> (GsWait (fld accepted ''upid'') (fld plan ''per_task_timeout'') (fld plan ''deadline''), Inr terminal) \<in> set h
      \<and> check_terminal accepted terminal = Inr ()
      \<and> (GsGuest g, Inr absent) \<in> set h \<and> check_absent g absent = Inr ())"

definition cluster_seen :: "pyval \<Rightarrow> pyval list \<Rightarrow> gs_call hist \<Rightarrow> bool" where
  "cluster_seen plan expected h \<longleftrightarrow> (\<exists>v. (GsCluster, Inr v) \<in> set h \<and> validate_snapshot v plan expected = Inr ())"

lemma lasting_gs: "lasting (stopped plan g)" "lasting (cluster_seen plan expected)"
  by (simp add: lasting_def stopped_def, blast) (auto simp: lasting_def cluster_seen_def)

lemma wp_gs_cluster:
  assumes "lasting F" "afterwards F \<sigma>"
  shows "wp (gs_cluster plan sha \<beta> expected) (\<lambda>_. afterwards (\<lambda>h. F h \<and> cluster_seen plan expected h)) (\<lambda>_ _. True) \<sigma>"
  unfolding gs_cluster_def
  by (insert assms(2), (rule lasting_intros assms(1) | erule afterwards_answer afterwards_lift afterwards_end [OF _ emits_asks [OF emits_gs_tick]]
      | auto simp: cluster_seen_def)+)

lemma wp_gs_submit:
  assumes "lasting F" "afterwards F \<sigma>"
  shows "wp (gs_submit plan sha \<beta> i g)
     (\<lambda>a. afterwards (\<lambda>h. F h \<and> (GsSubmit g, Inr a) \<in> set h \<and> check_accepted g a = Inr ())) (\<lambda>_ _. True) \<sigma>"
  unfolding gs_submit_def block.simps
  by (insert assms(2), (rule lasting_intros assms(1) | erule afterwards_andthen [OF _ emits_asks [OF emits_gs_clock]] afterwards_andthen [OF _ emits_asks [OF emits_gs_persist]]
      afterwards_andthen [OF _ emits_asks [OF emits_gs_authority]] afterwards_answer afterwards_lift afterwards_ret | blast)+)

lemma wp_gs_await:
  assumes "lasting F" "afterwards F \<sigma>"
  shows "wp (gs_await plan sha \<beta> i g a) (\<lambda>_. afterwards (\<lambda>h. F h \<and>
     (\<exists>t. (GsWait (fld a ''upid'') (fld plan ''per_task_timeout'') (fld plan ''deadline''), Inr t) \<in> set h
        \<and> check_terminal a t = Inr ()))) (\<lambda>_ _. True) \<sigma>"
  unfolding gs_await_def block.simps
  by (insert assms(2), (rule lasting_intros assms(1) | erule afterwards_andthen [OF _ emits_asks [OF emits_gs_tick]] afterwards_answer afterwards_lift
      | erule afterwards_end [OF _ emits_asks [OF emits_gs_persist]] | blast)+)

lemma wp_gs_absent:
  assumes "lasting F" "afterwards F \<sigma>"
  shows "wp (gs_absent plan sha \<beta> i g) (\<lambda>_. afterwards (\<lambda>h. F h \<and>
     (\<exists>v. (GsGuest g, Inr v) \<in> set h \<and> check_absent g v = Inr ()))) (\<lambda>_ _. True) \<sigma>"
  unfolding gs_absent_def block.simps
  by (insert assms(2), (rule lasting_intros assms(1) | erule afterwards_andthen [OF _ emits_asks [OF emits_gs_tick]] afterwards_answer afterwards_lift
      | erule afterwards_end [OF _ emits_asks [OF emits_gs_persist]] | blast)+)

definition stop_known :: "pyval \<Rightarrow> nat \<Rightarrow> gs_call hist \<Rightarrow> bool" where
  "stop_known plan i h \<longleftrightarrow>
     cluster_seen plan (drop i (map consumer (guests plan))) h \<and> stopped plan (guests plan ! i) h"

lemma lasting_stop_known: "lasting (stop_known plan i)"
  unfolding stop_known_def by (intro lasting_conj lasting_gs)

lemma lasting_stops: "lasting (\<lambda>h. \<forall>i\<in>S. stop_known plan i h)"
  using lasting_stop_known by (auto simp: lasting_def)

lemma wp_gs_stop:
  assumes "lasting F" "afterwards F \<sigma>"
  shows "wp (gs_stop plan sha \<beta> i) (\<lambda>_. afterwards (\<lambda>h. F h \<and> stop_known plan i h)) (\<lambda>_ _. True) \<sigma>"
  unfolding gs_stop_def Let_def block.simps
proof (rule wp_andthenI [OF wp_gs_cluster [OF assms]], erule afterwards_answer, intro lasting_intros lasting_gs assms(1),
    erule afterwards_lift, erule afterwards_andthen [OF _ emits_asks [OF emits_gs_tick]], intro lasting_intros lasting_gs assms(1),
    rule wp_bndI [OF wp_gs_submit [rotated]], assumption, intro lasting_intros lasting_gs assms(1))
  fix b a and \<tau> :: "shutdown_state \<times> gs_call hist"
  let ?g = "guests plan ! i"
  let ?F = "\<lambda>h. (((F h \<and> cluster_seen plan (drop i (map consumer (guests plan))) h) \<and> (GsGuest ?g, Inr b) \<in> set h)
      \<and> check_before ?g b = Inr ()) \<and> (GsSubmit ?g, Inr a) \<in> set h \<and> check_accepted ?g a = Inr ()"
  assume now: "afterwards ?F \<tau>"
  have F: "lasting ?F" using assms(1) by (intro lasting_intros lasting_gs lasting_mem)
  let ?W = "\<lambda>h. ?F h \<and> (\<exists>t. (GsWait (fld a ''upid'') (fld plan ''per_task_timeout'') (fld plan ''deadline''), Inr t) \<in> set h
      \<and> check_terminal a t = Inr ())"
  have W: "lasting ?W" using F by (auto simp: lasting_def)
  show "wp (andthen (gs_await plan sha \<beta> i ?g a) (gs_absent plan sha \<beta> i ?g))
      (\<lambda>_. afterwards (\<lambda>h. F h \<and> stop_known plan i h)) (\<lambda>_ _. True) \<tau>"
  proof (rule wp_andthenI [OF wp_gs_await [OF F now]])
    fix \<upsilon> :: "shutdown_state \<times> gs_call hist"
    assume "afterwards ?W \<upsilon>"
    from wp_gs_absent [OF W this]
    show "wp (gs_absent plan sha \<beta> i ?g) (\<lambda>_. afterwards (\<lambda>h. F h \<and> stop_known plan i h)) (\<lambda>_ _. True) \<upsilon>"
      by (rule wp_mono) (auto simp: afterwards_def stop_known_def stopped_def)
  qed
qed

lemma wp_gs_body:
  "wp (gs_body plan sha \<beta>)
     (\<lambda>v. afterwards (\<lambda>h. v = gs_report \<and> (\<forall>i<length (guests plan). stop_known plan i h) \<and> cluster_seen plan [] h))
     (\<lambda>_ _. True) \<sigma>"
proof -
  let ?S = "\<lambda>ys h. \<forall>i\<in>set ys. stop_known plan i h"
  have loop: "wp (foreach (gs_stop plan sha \<beta>) xs) (\<lambda>_. afterwards (?S xs)) (\<lambda>_ _. True) \<tau>" for xs \<tau>
  proof (rule wp_foreach [where I = "\<lambda>ys. afterwards (?S ys)"])
    fix ys x zs and \<upsilon> :: "shutdown_state \<times> gs_call hist"
    assume "afterwards (?S ys) \<upsilon>"
    from wp_gs_stop [OF lasting_stops this]
    show "wp (gs_stop plan sha \<beta> x) (\<lambda>_. afterwards (?S (ys @ [x]))) (\<lambda>_ _. True) \<upsilon>"
      by (rule wp_mono) (auto simp: afterwards_def)
  qed (simp add: afterwards_def)
  have any: "wp m (\<lambda>_ _. True) (\<lambda>_ _. True) \<tau>" for m :: "'x gs_prog" and \<tau> by (rule wp_true)
  show ?thesis
    unfolding gs_body_def block.simps
    by (rule wp_andthenI [OF any], rule wp_bndI [OF any], rule wp_andthenI [OF any], rule wp_andthenI [OF any],
        rule wp_andthenI [OF any], rule wp_andthenI [OF loop], rule wp_andthenI [OF wp_gs_cluster [OF lasting_stops]],
        assumption, rule afterwards_ret, assumption) auto
qed

section \<open>Properties\<close>

lemma gs_run_cases:
  obtains "gs_run plan sha \<beta> (s, h) = (Inl (Refusal ''shutdown controller reentered''), s\<lparr>gs_poisoned := True\<rparr>, h)"
      "gs_running s"
  | "gs_run plan sha \<beta> (s, h) = (Inl (Refusal ''shutdown controller poisoned''), s, h)" "gs_poisoned s" "\<not> gs_running s"
  | e s' h' where "gs_body plan sha \<beta> (s\<lparr>gs_running := True\<rparr>, h) = (Inl e, s', h')"
      "gs_run plan sha \<beta> (s, h) = (Inl e, s'\<lparr>gs_poisoned := gs_poisoned s' \<or> is_exception e, gs_running := False\<rparr>, h')"
      "\<not> gs_poisoned s" "\<not> gs_running s"
  | v s' h' where "gs_body plan sha \<beta> (s\<lparr>gs_running := True\<rparr>, h) = (Inr v, s', h')"
      "gs_run plan sha \<beta> (s, h) = (Inr v, s'\<lparr>gs_running := False\<rparr>, h')" "\<not> gs_poisoned s" "\<not> gs_running s"
  by (cases "gs_body plan sha \<beta> (s\<lparr>gs_running := True\<rparr>, h)"; cases "fst (gs_body plan sha \<beta> (s\<lparr>gs_running := True\<rparr>, h))";
      cases "gs_running s"; cases "gs_poisoned s")
    (auto simp: gs_run_def bnd_def reads_def andthen_def writes_def raise_def demand_def ret_def at_end_def on_exception_writes)

lemma gs_body_keeps: "preserves (\<lambda>(s, h). gs_poisoned s = p) (gs_body plan sha \<beta>)"
  unfolding gs_body_def gs_stop_def gs_submit_def gs_await_def gs_absent_def gs_cluster_def gs_persist_def gs_tick_def gs_clock_def
    gs_authority_def Let_def block.simps
  by (intro preserves_intros preserves_call preserves_writes) auto

text \<open>The calls a shutdown may make: its journal names the plan, the guest and its place in the plan.\<close>

definition gs_allowed :: "pyval \<Rightarrow> string \<Rightarrow> gs_call set" where
  "gs_allowed plan sha =
     {GsNow, GsLoad (fld plan ''tx''), GsCluster}
   \<union> {q. \<exists>i. q = GsGuest (guests plan ! i) \<or> q = GsSubmit (guests plan ! i)
        \<or> (\<exists>kind payload. q = GsPersist (gs_event plan sha kind i (guests plan ! i) payload))}
   \<union> {q. \<exists>u. q = GsWait u (fld plan ''per_task_timeout'') (fld plan ''deadline'')}"

lemma asks_gs_body: "asks (gs_allowed plan sha) (gs_body plan sha \<beta>)"
  unfolding gs_body_def gs_stop_def gs_submit_def gs_await_def gs_absent_def gs_cluster_def gs_persist_def gs_tick_def gs_clock_def
    gs_authority_def Let_def block.simps
  by (intro asks_intros) (auto simp: gs_allowed_def)

text \<open>C36: For every backend, the calls of a shutdown are an initial part of one fixed script, and all of it when
  it succeeds: each guest is handled in the order of the plan, is observed, its intent and attempt are journalled before
  its one shutdown request, and acceptance, end of the task and absence are journalled before the next guest is
  touched. Every call but possibly the last one was answered, so that nothing follows a failed call: no request follows
  an intent or attempt the journal did not acknowledge. Every event names the plan and the guest at its place.
  A run that fails with an exception leaves the controller poisoned, so that it cannot be run again; an exit
  that \<^verbatim>\<open>except Exception\<close> lets pass (\<^verbatim>\<open>KeyboardInterrupt\<close>) does not.\<close>

theorem shutdown_follows_script:
  "case gs_run plan sha \<beta> (s, []) of (x, s', h) \<Rightarrow>
     prefix (map gs_label (asked h)) (shutdown_script plan) \<and> set (asked h) \<subseteq> gs_allowed plan sha
   \<and> all_answered (butlast h) \<and> gs_running s' = gs_running s
   \<and> (case x of Inl e \<Rightarrow> gs_poisoned s' = is_exception e
      | Inr v \<Rightarrow> \<not> gs_poisoned s' \<and> map gs_label (asked h) = shutdown_script plan \<and> all_answered h)"
proof -
  note script = emits_gs_body [where plan = plan and sha = sha and \<beta> = \<beta>]
  have keeps: "gs_poisoned s' = gs_poisoned s" if "gs_body plan sha \<beta> (s\<lparr>gs_running := True\<rparr>, []) = (r, s', h')" for r s' h'
    using preserves_snd [OF gs_body_keeps [of "gs_poisoned s" plan sha \<beta>], of "(s\<lparr>gs_running := True\<rparr>, [])"] that by simp
  have calls: "set (asked h') \<subseteq> gs_allowed plan sha"
    if "gs_body plan sha \<beta> (s\<lparr>gs_running := True\<rparr>, []) = (r, s', h')" for r s' h'
    using asks_gs_body [of plan sha \<beta>, unfolded asks_def, rule_format, of "(s\<lparr>gs_running := True\<rparr>, [])"] that
    by (auto simp: asked_def)
  show ?thesis
  proof (rule gs_run_cases [of plan sha \<beta> s "[]"])
    fix e s' h'
    assume run: "gs_body plan sha \<beta> (s\<lparr>gs_running := True\<rparr>, []) = (Inl e, s', h')"
      "gs_run plan sha \<beta> (s, []) = (Inl e, s'\<lparr>gs_poisoned := gs_poisoned s' \<or> is_exception e, gs_running := False\<rparr>, h')"
      "\<not> gs_poisoned s" "\<not> gs_running s"
    then show ?thesis using emits_exc [OF script run(1)] emits_answered(1) [OF script run(1)] keeps [OF run(1)] calls [OF run(1)]
      by (auto simp: asked_def prefix_def)
  next
    fix v s' h'
    assume run: "gs_body plan sha \<beta> (s\<lparr>gs_running := True\<rparr>, []) = (Inr v, s', h')"
      "gs_run plan sha \<beta> (s, []) = (Inr v, s'\<lparr>gs_running := False\<rparr>, h')" "\<not> gs_poisoned s" "\<not> gs_running s"
    then show ?thesis using emits_value [OF script run(1)] emits_answered [OF script run(1)] keeps [OF run(1)] calls [OF run(1)]
      by (simp add: asked_def)
  qed (auto simp: asked_def)
qed

text \<open>C37: A shutdown that reports success has, for every guest of the allowlist: seen the barrier hold with exactly
  the guests from this one on still running, and the guest as planned; an accepted task bound to this guest; the confirmed
  success of that task; and the guest absent without processes, tasks or control group. At the end no consumer runs.\<close>

theorem shutdown_complete:
  "case gs_run plan sha \<beta> (s, []) of (x, s', h) \<Rightarrow>
     (case x of Inl e \<Rightarrow> True
      | Inr v \<Rightarrow> v = gs_report \<and> list_all (\<lambda>i. stop_known plan i h) [0..<length (guests plan)] \<and> cluster_seen plan [] h)"
proof (rule gs_run_cases [of plan sha \<beta> s "[]"])
  fix v s' h'
  assume run: "gs_body plan sha \<beta> (s\<lparr>gs_running := True\<rparr>, []) = (Inr v, s', h')"
    "gs_run plan sha \<beta> (s, []) = (Inr v, s'\<lparr>gs_running := False\<rparr>, h')"
  then show ?thesis using wp_value [OF wp_gs_body run(1)] by (simp add: afterwards_def list_all_iff)
qed simp_all

end
