(* ===== verification/BarrierJournal.thy ===== *)
theory BarrierJournal
  imports BarrierModel FileBackend
begin

text \<open>
  The durable journal of the barrier controller and its inspection,
  \<^verbatim>\<open>experiments/thick-generations/layout-migration-barrier-file-journal.py\<close>. The journal stores one
  hash-chained record per event through the file backend, which is the dependency of the writer; the
  inspection reads the records back from the file system, which is its dependency. Status values are as in
  \<open>FileBackend\<close>; the JSON scanner and the classification of foreign exceptions are parameters.
\<close>

section \<open>Records\<close>

definition stored_bytes :: "pyval \<Rightarrow> string" where
  "stored_bytes v = dumps v @ [CHR 0x0A]"

definition safe_name :: "string \<Rightarrow> bool" where
  "safe_name = head_tail alnum name_char (Some 127)"

text \<open>\<^verbatim>\<open>f"{n:06d}"\<close>\<close>

definition six_digits :: "nat \<Rightarrow> string" where
  "six_digits n = replicate (6 - length (nat_digits n)) CHR ''0'' @ nat_digits n"

definition event_file :: "nat \<Rightarrow> string" where
  "event_file n = ''exact-event-'' @ six_digits n @ ''.json''"

definition zero_hash :: string where "zero_hash = replicate 64 CHR ''0''"

definition coordinator_ok :: "pyval \<Rightarrow> bool res" where
  "coordinator_ok v =
     rand (Inr (exact v [''node'', ''boot_id'']))
     (rand (fullmatch_or safe_name (fld v ''node'')) (fullmatch_or uuid_re (fld v ''boot_id'')))"

definition identity_record :: "pyval \<Rightarrow> string \<Rightarrow> pyval \<Rightarrow> pyval" where
  "identity_record plan nonce coordinator =
     PDict [(''schema'', PStr ''slt-barrier-action-journal/v1''), (''tx'', fld plan ''tx''), (''run_id'', PStr nonce),
            (''plan'', plan), (''plan_sha256'', PStr (digest plan)), (''coordinator'', coordinator)]"

definition event_body :: "nat \<Rightarrow> string \<Rightarrow> pyval \<Rightarrow> pyval" where
  "event_body seq previous event =
     PDict ([(''schema'', PStr ''slt-barrier-action-event/v1''), (''sequence'', PInt (int seq)),
             (''previous_sha256'', PStr previous)] @ items event)"

definition event_record :: "nat \<Rightarrow> string \<Rightarrow> pyval \<Rightarrow> pyval" where
  "event_record seq previous event =
     PDict (items (event_body seq previous event) @ [(''record_sha256'', PStr (digest (event_body seq previous event)))])"

definition event_keys :: "pyval \<Rightarrow> string list" where
  "event_keys v =
     [''tx'', ''plan_sha256'', ''kind'', ''index'', ''step'', ''node'']
     @ (if pyeq (fld v ''kind'') (PStr ''OBSERVED_COMPLETE'') then [''receipt''] else [])"

section \<open>The writer\<close>

datatype bj_call =
    BjCreate string
  | BjPersist string string
  | BjClose
  | BjPath

record barrier_journal =
  bj_plan :: pyval
  bj_events :: "pyval list"
  bj_previous :: string

type_synonym 'a bj_prog = "(barrier_journal, bj_call, 'a) prog"

definition journal_arguments :: "pyval \<Rightarrow> pyval \<Rightarrow> unit res" where
  "journal_arguments plan coordinator =
     rbind (rneed (rand (Inr (is_dict plan)) (coordinator_ok coordinator)) ''journal identity invalid'') (\<lambda>_.
     rbind (pysub plan ''issued_at'') (\<lambda>issued.
     rbind (BarrierModel.validate_plan plan (int_of issued)) (\<lambda>_.
     rneed (fullmatch_or (hexn 32) (fld plan ''tx'')) ''transaction invalid'')))"

definition bj_new :: "pyval \<Rightarrow> barrier_journal" where
  "bj_new plan = \<lparr>bj_plan = plan, bj_events = [], bj_previous = zero_hash\<rparr>"

definition bj_init :: "bj_call backend \<Rightarrow> string \<Rightarrow> pyval \<Rightarrow> pyval \<Rightarrow> unit bj_prog" where
  "bj_init \<beta> nonce plan coordinator =
     andthen (lift (journal_arguments plan coordinator))
     (andthen (writes (\<lambda>_. bj_new plan))
     (bnd (call \<beta> (BjCreate nonce)) (\<lambda>_.
     bnd (call \<beta> (BjPersist (event_file 0) (stored_bytes (identity_record plan nonce coordinator)))) (\<lambda>_. ret ()))))"

definition bj_now :: "unit bj_prog" where
  "bj_now = raise (Refusal ''journal is not a clock'')"

definition load_events :: "pyval \<Rightarrow> pyval bj_prog" where
  "load_events tx =
     bnd (reads (\<lambda>j. j)) (\<lambda>j.
     andthen (demand (pyeq tx (fld (bj_plan j) ''tx'')) ''transaction differs from journal'') (ret (PList (bj_events j))))"

definition event_ok :: "pyval \<Rightarrow> pyval \<Rightarrow> bool" where
  "event_ok plan event \<longleftrightarrow>
     set (keys event) = set (event_keys event) \<and> pyeq (fld event ''tx'') (fld plan ''tx'')
   \<and> pyeq (fld event ''plan_sha256'') (PStr (digest plan))"

definition durable_event_ack :: "pyval \<Rightarrow> string \<Rightarrow> bool res" where
  "durable_event_ack ack raw =
     rand (rbind (pysub ack ''sha256'') (\<lambda>v. Inr (pyeq v (PStr (sha256 raw)))))
     (rall (\<lambda>k. rbind (pysub ack k) (\<lambda>v. Inr (is_true v))) [''file_synced'', ''dir_synced'', ''closed''])"

definition persist_event :: "bj_call backend \<Rightarrow> pyval \<Rightarrow> unit bj_prog" where
  "persist_event \<beta> event =
     andthen (demand (is_dict event) ''event invalid'')
     (bnd (reads (\<lambda>j. j)) (\<lambda>j.
      let seq = length (bj_events j) + 1; record = event_record seq (bj_previous j) event; raw = stored_bytes record in
      andthen (demand (event_ok (bj_plan j) event) ''event identity invalid'')
      (andthen (if json_ok event then ret () else raise (TypeError ''not JSON serializable''))
      (bnd (call \<beta> (BjPersist (event_file seq) raw)) (\<lambda>ack.
       andthen (lift (rneed (durable_event_ack ack raw) ''durable event acknowledgement invalid''))
       (writes (\<lambda>j. j\<lparr>bj_previous := str_of (fld record ''record_sha256''), bj_events := bj_events j @ [event]\<rparr>)))))))"

definition bj_close :: "bj_call backend \<Rightarrow> unit bj_prog" where
  "bj_close \<beta> = bnd (call \<beta> BjClose) (\<lambda>_. ret ())"

definition bj_artifact_path :: "bj_call backend \<Rightarrow> pyval bj_prog" where
  "bj_artifact_path \<beta> = call \<beta> BjPath"

section \<open>What the inspection checks\<close>

definition identity_ok :: "pyval \<Rightarrow> pyval \<Rightarrow> bool res" where
  "identity_ok plan v =
     rand (Inr (exact v [''schema'', ''tx'', ''run_id'', ''plan'', ''plan_sha256'', ''coordinator'']
       \<and> pyeq (fld v ''schema'') (PStr ''slt-barrier-action-journal/v1'') \<and> pyeq (fld v ''tx'') (fld plan ''tx'')))
     (rand (fullmatch_or (hexn 32) (fld v ''run_id''))
     (rand (coordinator_ok (fld v ''coordinator''))
     (Inr (pyeq (fld v ''plan'') plan \<and> pyeq (fld v ''plan_sha256'') (PStr (digest plan))))))"

definition chain_keys :: "string list" where
  "chain_keys = [''schema'', ''sequence'', ''previous_sha256'', ''record_sha256'']"

definition record_ok :: "pyval \<Rightarrow> pyval \<Rightarrow> nat \<Rightarrow> string \<Rightarrow> pyval \<Rightarrow> bool" where
  "record_ok plan identity seq previous v \<longleftrightarrow>
     exact v (chain_keys @ event_keys v) \<and> pyeq (fld v ''schema'') (PStr ''slt-barrier-action-event/v1'')
   \<and> is_int (fld v ''sequence'') \<and> pyeq (fld v ''sequence'') (PInt (int seq)) \<and> pyeq (fld v ''tx'') (fld identity ''tx'')
   \<and> pyeq (fld v ''plan_sha256'') (PStr (digest plan)) \<and> pyeq (fld v ''previous_sha256'') (PStr previous)"

text \<open>\<^verbatim>\<open>{k: v for k, v in record.items() if k not in keys}\<close>\<close>

definition without_keys :: "string list \<Rightarrow> pyval \<Rightarrow> pyval" where
  "without_keys ks v = PDict (filter (\<lambda>(k, w). k \<notin> set ks) (items v))"

definition record_check :: "pyval \<Rightarrow> pyval \<Rightarrow> nat \<Rightarrow> string \<Rightarrow> pyval \<Rightarrow> unit res" where
  "record_check plan identity seq previous v =
     rbind (pyget v ''kind'' PNone) (\<lambda>_.
     rbind (checks [need (record_ok plan identity seq previous v) ''journal event identity or chain invalid'']) (\<lambda>_.
     rneed (rand (fullmatch_or (hexn 64) (fld v ''record_sha256''))
       (Inr (pyeq (fld v ''record_sha256'') (PStr (digest (without_keys [''record_sha256''] v)))))) ''journal record hash invalid''))"

fun chain_events :: "pyval \<Rightarrow> pyval \<Rightarrow> nat \<Rightarrow> string \<Rightarrow> pyval list \<Rightarrow> pyval list res" where
  "chain_events plan identity seq previous [] = Inr []"
| "chain_events plan identity seq previous (v # vs) =
     rbind (record_check plan identity seq previous v) (\<lambda>_.
     rbind (chain_events plan identity (seq + 1) (str_of (fld v ''record_sha256'')) vs) (\<lambda>es.
     Inr (without_keys chain_keys v # es)))"

definition action_event_ok :: "pyval \<Rightarrow> nat \<Rightarrow> pyval \<Rightarrow> bool" where
  "action_event_ok plan position event \<longleftrightarrow>
     (let action = b_actions plan ! (position div 3) in
      pyeq (fld event ''kind'') (PStr (b_kinds ! (position mod 3)))
    \<and> is_int (fld event ''index'') \<and> pyeq (fld event ''index'') (PInt (int (position div 3)))
    \<and> pyeq (fld event ''step'') (fld action ''step'') \<and> pyeq (fld event ''node'') (fld action ''node''))"

definition action_receipt_check :: "pyval \<Rightarrow> pyval \<Rightarrow> pyval \<Rightarrow> unit res" where
  "action_receipt_check plan action receipt =
     (if fld action ''step'' = PStr ''ENTRY_BLOCK''
      then checks [need (pyeq receipt b_entry_receipt) ''entry receipt invalid'']
      else rbind (BarrierModel.validate_observation receipt plan (str_of (fld action ''node'')) (b_final action)) (\<lambda>_. Inr ()))"

definition action_check :: "pyval \<Rightarrow> nat \<times> pyval \<Rightarrow> unit res" where
  "action_check plan = (\<lambda>(position, event).
     rbind (checks [need (action_event_ok plan position event) ''journal action prefix is invalid'']) (\<lambda>_.
     if pyeq (fld event ''kind'') (PStr ''OBSERVED_COMPLETE'')
     then action_receipt_check plan (b_actions plan ! (position div 3)) (fld event ''receipt'') else Inr ()))"

definition journal_actions :: "pyval \<Rightarrow> pyval list \<Rightarrow> unit res" where
  "journal_actions plan events =
     rbind (checks [need (length events \<le> length (b_actions plan) * 3) ''journal contains too many events''])
     (\<lambda>_. check_each (action_check plan) (enumerate 0 events))"

definition journal_state :: "pyval \<Rightarrow> pyval list \<Rightarrow> string" where
  "journal_state plan events =
     (if length events = length (b_actions plan) * 3 then ''MODEL_COMPLETED_HISTORICAL''
      else if events = [] then ''EMPTY_INSPECTION'' else ''RECOVERY_REQUIRED'')"

definition journal_report :: "pyval \<Rightarrow> pyval list \<Rightarrow> pyval" where
  "journal_report plan events =
     PDict [(''state'', PStr (journal_state plan events)), (''events'', PList events), (''runtime_authorized'', PBool False),
            (''rollout_authorized'', PBool False), (''release_authorized'', PBool False)]"

text \<open>The events of the values read, once identity, chain and action prefix are accepted\<close>

definition journal_events :: "pyval \<Rightarrow> pyval list \<Rightarrow> pyval list res" where
  "journal_events plan values =
     rbind (rneed (identity_ok plan (hd values)) ''journal identity differs from expected plan'') (\<lambda>_.
     rbind (chain_events plan (hd values) 1 zero_hash (tl values)) (\<lambda>events.
     rbind (journal_actions plan events) (\<lambda>_. Inr events)))"

section \<open>What is written is accepted\<close>

lemma fld_append: "fld (PDict (xs @ ys)) k = (if k \<in> fst ` set xs then fld (PDict xs) k else fld (PDict ys) k)"
proof (cases "k \<in> fst ` set xs")
  case True
  then obtain v where "map_of xs k = Some v" by (metis map_of_eq_None_iff not_None_eq)
  then show ?thesis using True by (simp add: fld_def)
next
  case False
  then have "map_of xs k = None" by (simp add: map_of_eq_None_iff)
  then show ?thesis using False by (simp add: fld_def map_add_def)
qed

lemma filter_all: "\<forall>x\<in>set xs. P x \<Longrightarrow> filter P xs = xs"
  by (simp add: filter_id_conv)

lemma event_keys_no_chain: "set (event_keys v) \<inter> set chain_keys = {}"
  by (auto simp: event_keys_def chain_keys_def)

lemma no_chain: "set (keys e) = set (event_keys e) \<Longrightarrow> \<forall>kv\<in>set (items e). fst kv \<notin> set chain_keys"
proof -
  assume "set (keys e) = set (event_keys e)"
  then have "set (map fst (items e)) \<inter> set chain_keys = {}" using event_keys_no_chain [of e] by (simp add: keys_def)
  then show ?thesis by (force simp: set_map)
qed

lemma event_record_fields:
  assumes "set (keys e) = set (event_keys e)"
  shows "fld (event_record n p e) ''schema'' = PStr ''slt-barrier-action-event/v1''"
    "fld (event_record n p e) ''sequence'' = PInt (int n)" "fld (event_record n p e) ''previous_sha256'' = PStr p"
    "fld (event_record n p e) ''record_sha256'' = PStr (digest (event_body n p e))"
    "\<And>k. k \<notin> set chain_keys \<Longrightarrow> fld (event_record n p e) k = fld e k"
proof -
  have none: "''record_sha256'' \<notin> fst ` set (items e)"
  proof -
    have "set (map fst (items e)) \<inter> set chain_keys = {}" using assms event_keys_no_chain [of e] by (simp add: keys_def)
    moreover have "''record_sha256'' \<in> set chain_keys" by (simp add: chain_keys_def)
    ultimately have "''record_sha256'' \<notin> set (map fst (items e))" by blast
    then show ?thesis by (simp only: set_map not_False_eq_True)
  qed
  show "fld (event_record n p e) ''schema'' = PStr ''slt-barrier-action-event/v1''"
    "fld (event_record n p e) ''sequence'' = PInt (int n)" "fld (event_record n p e) ''previous_sha256'' = PStr p"
    by (simp_all add: event_record_def event_body_def)
  show "fld (event_record n p e) ''record_sha256'' = PStr (digest (event_body n p e))"
    using none by (simp add: event_record_def event_body_def fld_append)
  fix k
  assume k: "k \<notin> set chain_keys"
  then show "fld (event_record n p e) k = fld e k"
    by (cases "k \<in> fst ` set (items e)")
      (auto simp: event_record_def event_body_def fld_append chain_keys_def fld_items,
       auto simp: fld_def dom_map_of_conv_image_fst [symmetric] split: option.splits)
qed

lemma event_record_items: "items (event_record n p e) =
    [(''schema'', PStr ''slt-barrier-action-event/v1''), (''sequence'', PInt (int n)), (''previous_sha256'', PStr p)]
    @ items e @ [(''record_sha256'', PStr (digest (event_body n p e)))]"
  by (simp add: event_record_def event_body_def)

lemma record_check_written:
  assumes "event_ok plan e" "pyeq (fld identity ''tx'') (fld plan ''tx'')"
  shows "record_check plan identity n p (event_record n p e) = Inr ()"
proof -
  have ks: "set (keys e) = set (event_keys e)" using assms(1) by (simp add: event_ok_def)
  note fields = event_record_fields [OF ks]
  have kind: "fld (event_record n p e) ''kind'' = fld e ''kind''" "fld (event_record n p e) ''tx'' = fld e ''tx''"
    "fld (event_record n p e) ''plan_sha256'' = fld e ''plan_sha256''"
    by (simp_all add: fields(5) chain_keys_def)
  have same: "event_keys (event_record n p e) = event_keys e" by (simp add: event_keys_def kind)
  have dict: "is_dict (event_record n p e)" by (simp add: event_record_def)
  have "set (keys (event_record n p e)) = set (chain_keys @ event_keys e)"
    using ks by (auto simp: keys_def event_record_items chain_keys_def)
  moreover have "pyeq (fld e ''tx'') (fld identity ''tx'')"
    using assms pyeq_sym pyeq_trans unfolding event_ok_def by blast
  ultimately have "record_ok plan identity n p (event_record n p e)"
    using assms(1) dict by (simp add: record_ok_def exact_def same kind fields event_ok_def)
  moreover have "without_keys [''record_sha256''] (event_record n p e) = event_body n p e"
  proof -
    have "\<forall>kv\<in>set (items e). fst kv \<noteq> ''record_sha256''"
      using no_chain [OF ks] by (simp add: chain_keys_def)
    then have "filter (\<lambda>kv. fst kv \<noteq> ''record_sha256'') (items e) = items e" by (intro filter_all) blast
    then show ?thesis by (simp add: without_keys_def event_record_items event_body_def case_prod_unfold)
  qed
  ultimately show ?thesis using dict by (simp add: record_check_def fields rbind_Inr check_simps pyget_dict)
qed

lemma without_chain_written:
  assumes "is_dict e" "event_ok plan e"
  shows "without_keys chain_keys (event_record n p e) = e"
proof -
  have "\<forall>kv\<in>set (items e). fst kv \<notin> set chain_keys"
    using assms(2) by (intro no_chain) (simp add: event_ok_def)
  then have "filter (\<lambda>kv. fst kv \<notin> set chain_keys) (items e) = items e" by (intro filter_all) blast
  moreover have "PDict (items e) = e" using assms(1) by (cases e) simp_all
  ultimately show ?thesis by (simp add: without_keys_def event_record_items case_prod_unfold) (simp add: chain_keys_def)
qed

text \<open>The records of a list of events\<close>

fun records_from :: "nat \<Rightarrow> string \<Rightarrow> pyval list \<Rightarrow> pyval list" where
  "records_from n p [] = []"
| "records_from n p (e # es) =
     event_record n p e # records_from (n + 1) (digest (event_body n p e)) es"

fun last_hash :: "nat \<Rightarrow> string \<Rightarrow> pyval list \<Rightarrow> string" where
  "last_hash n p [] = p"
| "last_hash n p (e # es) = last_hash (n + 1) (digest (event_body n p e)) es"

lemma records_snoc: "records_from n p (es @ [e]) = records_from n p es @ [event_record (n + length es) (last_hash n p es) e]"
  by (induction es arbitrary: n p) simp_all

lemma last_hash_snoc: "last_hash n p (es @ [e]) = digest (event_body (n + length es) (last_hash n p es) e)"
  by (induction es arbitrary: n p) simp_all

lemma chain_written:
  assumes "pyeq (fld identity ''tx'') (fld plan ''tx'')" "list_all (\<lambda>e. is_dict e \<and> event_ok plan e) es"
  shows "chain_events plan identity n p (records_from n p es) = Inr es"
  using assms(2)
proof (induction es arbitrary: n p)
  case (Cons e es)
  then have e: "is_dict e" "event_ok plan e" by simp_all
  then have "fld (event_record n p e) ''record_sha256'' = PStr (digest (event_body n p e))"
    by (intro event_record_fields) (simp add: event_ok_def)
  then show ?case using Cons e by (simp add: record_check_written assms(1) without_chain_written [of e plan])
qed simp

section \<open>Writing\<close>

definition bj_session :: "bj_call backend \<Rightarrow> string \<Rightarrow> pyval \<Rightarrow> pyval \<Rightarrow> pyval list \<Rightarrow> unit bj_prog" where
  "bj_session \<beta> nonce plan coordinator events =
     andthen (bj_init \<beta> nonce plan coordinator) (foreach (persist_event \<beta>) events)"

text \<open>The records whose storage was acknowledged\<close>

definition written :: "bj_call hist \<Rightarrow> (string \<times> string) list" where
  "written h = concat (map (\<lambda>q. case q of BjPersist name raw \<Rightarrow> [(name, raw)] | _ \<Rightarrow> []) (answered h))"

lemma written_simps [simp]:
  "written [] = []" "written (h @ [(BjPersist name raw, Inr v)]) = written h @ [(name, raw)]"
  "written (h @ [(BjCreate nonce, Inr v)]) = written h"
  by (simp_all add: written_def)

definition values_of :: "pyval \<Rightarrow> string \<Rightarrow> pyval \<Rightarrow> pyval list \<Rightarrow> pyval list" where
  "values_of plan nonce coordinator events = identity_record plan nonce coordinator # records_from 1 zero_hash events"

definition files_of :: "pyval list \<Rightarrow> (string \<times> string) list" where
  "files_of vs = map (\<lambda>(n, v). (event_file n, stored_bytes v)) (enumerate 0 vs)"

lemma files_snoc: "files_of (vs @ [v]) = files_of vs @ [(event_file (length vs), stored_bytes v)]"
  by (simp add: files_of_def enumerate_append_eq)

lemma records_length [simp]: "length (records_from n p es) = length es"
  by (induction es arbitrary: n p) simp_all

lemma values_snoc:
  "files_of (values_of plan nonce c (es @ [e])) =
     files_of (values_of plan nonce c es)
     @ [(event_file (length es + 1), stored_bytes (event_record (length es + 1) (last_hash 1 zero_hash es) e))]"
  using files_snoc [of "values_of plan nonce c es" "event_record (length es + 1) (last_hash 1 zero_hash es) e"]
  by (simp add: values_of_def records_snoc add.commute)

definition journal_at :: "pyval \<Rightarrow> string \<Rightarrow> pyval \<Rightarrow> pyval list \<Rightarrow> barrier_journal \<times> bj_call hist \<Rightarrow> bool" where
  "journal_at plan nonce c es = (\<lambda>(j, h).
     bj_plan j = plan \<and> bj_events j = es \<and> bj_previous j = last_hash 1 zero_hash es
   \<and> list_all (\<lambda>e. is_dict e \<and> event_ok plan e) es \<and> written h = files_of (values_of plan nonce c es))"

lemma wp_bj_init:
  "wp (bj_init \<beta> nonce plan c) (\<lambda>_ \<tau>. journal_at plan nonce c [] \<tau> \<and> journal_arguments plan c = Inr ()) (\<lambda>_ _. True) (j, [])"
  by (auto simp: bj_init_def wp_simps journal_at_def bj_new_def values_of_def files_of_def written_def answered_def
      split: sum.splits)

lemma wp_persist_event:
  assumes "journal_at plan nonce c es \<tau>"
  shows "wp (persist_event \<beta> e) (\<lambda>_. journal_at plan nonce c (es @ [e])) (\<lambda>_ _. True) \<tau>"
proof -
  obtain j h where \<tau>: "\<tau> = (j, h)" by (cases \<tau>)
  have at: "bj_plan j = plan" "bj_events j = es" "bj_previous j = last_hash 1 zero_hash es"
    "list_all (\<lambda>e. is_dict e \<and> event_ok plan e) es" "written h = files_of (values_of plan nonce c es)"
    using assms \<tau> by (simp_all add: journal_at_def)
  have hash: "str_of (fld (event_record (length es + 1) (last_hash 1 zero_hash es) e) ''record_sha256'') = last_hash 1 zero_hash (es @ [e])"
    if "event_ok plan e"
    using that event_record_fields(4) [of e "length es + 1" "last_hash 1 zero_hash es"]
    by (simp add: event_ok_def last_hash_snoc add.commute)
  show ?thesis
    unfolding \<tau> persist_event_def Let_def
    using at hash values_snoc [of plan nonce c es e]
    by (auto simp: wp_simps journal_at_def split: sum.splits)
qed

lemma wp_session:
  "wp (bj_session \<beta> nonce plan c es) (\<lambda>_ \<tau>. journal_at plan nonce c es \<tau> \<and> journal_arguments plan c = Inr ()) (\<lambda>_ _. True) (j, [])"
proof -
  have loop: "wp (foreach (persist_event \<beta>) es) (\<lambda>_ \<tau>. journal_at plan nonce c es \<tau> \<and> journal_arguments plan c = Inr ()) (\<lambda>_ _. True) \<tau>"
    if "journal_at plan nonce c [] \<tau> \<and> journal_arguments plan c = Inr ()" for \<tau>
  proof (rule wp_foreach [where I = "\<lambda>ys \<tau>. journal_at plan nonce c ys \<tau> \<and> journal_arguments plan c = Inr ()"])
    fix ys x zs and \<upsilon> :: "barrier_journal \<times> bj_call hist"
    assume *: "journal_at plan nonce c ys \<upsilon> \<and> journal_arguments plan c = Inr ()"
    then have "journal_at plan nonce c ys \<upsilon>" by (rule conjunct1)
    from wp_persist_event [OF this]
    show "wp (persist_event \<beta> x) (\<lambda>_ \<tau>. journal_at plan nonce c (ys @ [x]) \<tau> \<and> journal_arguments plan c = Inr ()) (\<lambda>_ _. True) \<upsilon>"
      by (rule wp_mono) (use * in simp_all)
  qed (use that in simp)
  show ?thesis unfolding bj_session_def by (rule wp_andthenI [OF wp_bj_init loop])
qed

lemma identity_written:
  assumes "journal_arguments plan c = Inr ()"
  shows "identity_ok plan (identity_record plan nonce c) = Inr (hexn 32 nonce)"
proof -
  have c: "coordinator_ok c = Inr True" using assms by (auto simp: journal_arguments_def rbind_Inr)
  show ?thesis
    by (simp add: identity_ok_def identity_record_def c rand_def rbind_def)
qed

text \<open>C38: What the journal writes, the inspection accepts. For every backend, when the journal was created and a list of
  events was persisted without error, the acknowledged files are the numbered files of the identity and of one record per
  event, as canonical bytes; and the inspection of exactly these values accepts identity and hash chain
  and gets the very events back, so that only the order of the barrier's actions is left to decide.\<close>

theorem journal_roundtrip:
  "case bj_session \<beta> nonce plan coordinator events (j, []) of (x, j', h) \<Rightarrow>
     (case x of Inl e \<Rightarrow> True
      | Inr u \<Rightarrow> bj_events j' = events \<and> written h = files_of (values_of plan nonce coordinator events)
          \<and> journal_events plan (values_of plan nonce coordinator events) =
              (if hexn 32 nonce then rbind (journal_actions plan events) (\<lambda>_. Inr events)
               else Inl (Refusal ''journal identity differs from expected plan'')))"
proof -
  obtain x j' h where run: "bj_session \<beta> nonce plan coordinator events (j, []) = (x, j', h)" by (metis prod_cases3)
  show ?thesis
  proof (cases x)
    case (Inr u)
    from wp_value [OF wp_session run [unfolded Inr]]
    have at: "journal_at plan nonce coordinator events (j', h)" "journal_arguments plan coordinator = Inr ()" by simp_all
    have "chain_events plan (identity_record plan nonce coordinator) 1 zero_hash (records_from 1 zero_hash events) = Inr events"
      using at(1) by (intro chain_written) (simp_all add: journal_at_def identity_record_def)
    then show ?thesis
      using run Inr at by (simp add: journal_at_def journal_events_def values_of_def identity_written rneed_def)
  qed (use run in simp)
qed

section \<open>Inspection and the controller agree\<close>

lemma due_length: "length (b_due plan) = length (b_actions plan) * 3"
  by (simp add: b_due_def b_kinds_def length_concat comp_def sum_list_triv)

lemma concat_triples_nth:
  "p < length xs * 3 \<Longrightarrow> concat (map (\<lambda>x. map (Pair x) b_kinds) xs) ! p = (xs ! (p div 3), b_kinds ! (p mod 3))"
proof (induction xs arbitrary: p)
  case (Cons x xs)
  show ?case
  proof (cases "p < 3")
    case True
    then have "p \<in> {0, 1, 2}" by auto
    then show ?thesis by (auto simp: b_kinds_def)
  next
    case False
    then have "p - 3 < length xs * 3" using Cons.prems by simp
    note IH = Cons.IH [OF this]
    have "length (map (Pair x) b_kinds) = 3" by (simp add: b_kinds_def)
    then have "concat (map (\<lambda>x. map (Pair x) b_kinds) (x # xs)) ! p = concat (map (\<lambda>x. map (Pair x) b_kinds) xs) ! (p - 3)"
      using False by (simp add: nth_append)
    moreover have "p div 3 = Suc ((p - 3) div 3)" "p mod 3 = (p - 3) mod 3"
      using False by (simp_all add: le_div_geq le_mod_geq)
    ultimately show ?thesis using IH by simp
  qed
qed simp

lemma due_nth: "p < length (b_due plan) \<Longrightarrow> b_due plan ! p = (p div 3, b_kinds ! (p mod 3))"
  using concat_triples_nth [of p "[0..<length (b_actions plan)]"] by (simp add: due_length) (simp add: b_due_def)

lemma scan_rows:
  assumes "length rows \<le> length due"
    and "\<forall>p<length rows. b_row_check plan sha (fst (due ! p)) (snd (due ! p)) (rows ! p) = Inr ()"
  shows "b_scan plan sha due rows =
     Inr (if length rows = length due then (length (b_actions plan), None)
          else (fst (due ! length rows), Some (snd (due ! length rows))))"
  using assms
proof (induction due arbitrary: rows)
  case (Cons d due)
  show ?case
  proof (cases rows)
    case (Cons r rest)
    have first_ok: "b_row_check plan sha (fst d) (snd d) r = Inr ()" using Cons.prems(2) Cons by force
    have rest_ok: "\<forall>p<length rest. b_row_check plan sha (fst (due ! p)) (snd (due ! p)) (rest ! p) = Inr ()"
      using Cons.prems(2) Cons by (metis Suc_less_eq length_Cons nth_Cons_Suc)
    have "length rest \<le> length due" using Cons.prems(1) Cons by simp
    from Cons.IH [OF this rest_ok] first_ok show ?thesis using Cons by (cases d) simp
  qed (cases d, simp)
qed simp

lemma map_of_without: "k \<notin> S \<Longrightarrow> map_of (filter (\<lambda>(k, w). k \<notin> S) d) k = map_of d k"
  by (induction d) auto

lemma chain_facts:
  assumes "chain_events plan identity n p vs = Inr es" "e \<in> set es"
  shows "is_dict e \<and> set (keys e) = set (event_keys e) \<and> pyeq (fld e ''tx'') (fld identity ''tx'')
    \<and> pyeq (fld e ''plan_sha256'') (PStr (digest plan))"
  using assms
proof (induction vs arbitrary: n p es)
  case (Cons v vs)
  then obtain rest where rest: "record_check plan identity n p v = Inr ()"
      "chain_events plan identity (n + 1) (str_of (fld v ''record_sha256'')) vs = Inr rest" "es = without_keys chain_keys v # rest"
    by (auto simp: rbind_Inr)
  show ?case
  proof (cases "e \<in> set rest")
    case True
    then show ?thesis using Cons.IH [OF rest(2)] by blast
  next
    case False
    then have e: "e = without_keys chain_keys v" using Cons.prems(2) rest(3) by simp
    have ok: "record_ok plan identity n p v" using rest(1) by (simp add: record_check_def rbind_Inr check_simps)
    have kept: "fld e k = fld v k" if "k \<notin> set chain_keys" for k
      using that by (simp add: e without_keys_def fld_def map_of_without)
    have same: "event_keys e = event_keys v" by (simp add: event_keys_def kept chain_keys_def)
    have "set (keys e) = set (keys v) - set chain_keys" by (auto simp: e without_keys_def keys_def)
    also have "\<dots> = set (event_keys v)" using ok event_keys_no_chain [of v] by (auto simp: record_ok_def exact_def)
    finally show ?thesis using ok by (simp add: same record_ok_def kept chain_keys_def) (simp add: e without_keys_def)
  qed
qed simp

lemma row_check_event:
  assumes "is_dict e" "set (keys e) = set (event_keys e)" "pyeq (fld e ''tx'') (fld plan ''tx'')"
    and "pyeq (fld e ''plan_sha256'') (PStr (digest plan))" "action_check plan (p, e) = Inr ()"
  shows "b_row_check plan (digest plan) (p div 3) (b_kinds ! (p mod 3)) e = Inr ()"
proof -
  let ?k = "b_kinds ! (p mod 3)" and ?a = "b_actions plan ! (p div 3)"
  have act: "pyeq (fld e ''kind'') (PStr ?k)" "pyeq (fld e ''index'') (PInt (int (p div 3)))"
    "pyeq (fld e ''step'') (fld ?a ''step'')" "pyeq (fld e ''node'') (fld ?a ''node'')"
    using assms(5) by (auto simp: action_check_def action_event_ok_def rbind_Inr check_simps Let_def)
  then have kind: "fld e ''kind'' = PStr ?k" by simp
  have receipt: "action_receipt_check plan ?a (fld e ''receipt'') = Inr ()" if "?k = ''OBSERVED_COMPLETE''"
    using assms(5) that kind by (auto simp: action_check_def rbind_Inr)
  have "exact e ([''tx'', ''plan_sha256'', ''kind'', ''index'', ''step'', ''node'']
      @ (if ?k = ''OBSERVED_COMPLETE'' then [''receipt''] else []))"
    using assms(1,2) kind by (auto simp: exact_def event_keys_def)
  moreover have "rbind (b_receipt plan ?a (fld e ''receipt'') (b_final ?a)) (\<lambda>_. Inr ()) = Inr ()" if "?k = ''OBSERVED_COMPLETE''"
    using receipt [OF that] pyeq_dict_fld(1) [of "fld e ''receipt''"]
    by (auto simp: action_receipt_check_def b_receipt_def b_entry_receipt_def rbind_Inr check_simps split: if_splits)
  ultimately show ?thesis
    using assms(3,4) act by (simp add: b_row_check_def rbind_Inr check_simps Let_def)
qed

text \<open>C39: The inspection and the barrier controller read a journal alike. Events that the inspection accepts pass the
  controller's own check of its history, which finds every action completed exactly when the inspection
  reports the journal as completed, and otherwise finds the action and the kind of record that are missing.\<close>

theorem inspection_agrees:
  "case journal_events plan values of
     Inl e \<Rightarrow> True
   | Inr events \<Rightarrow> b_history plan (digest plan) (PList events) =
       Inr (if journal_state plan events = ''MODEL_COMPLETED_HISTORICAL'' then (length (b_actions plan), None)
            else (length events div 3, Some (b_kinds ! (length events mod 3))))"
proof (cases "journal_events plan values")
  case (Inr events)
  then have chain: "chain_events plan (hd values) 1 zero_hash (tl values) = Inr events"
    and actions: "journal_actions plan events = Inr ()" and identity: "identity_ok plan (hd values) = Inr True"
    by (auto simp: journal_events_def rbind_Inr)
  have tx: "pyeq (fld (hd values) ''tx'') (fld plan ''tx'')" using identity by (auto simp: identity_ok_def)
  have len: "length events \<le> length (b_due plan)"
    using actions by (auto simp: journal_actions_def rbind_Inr check_simps due_length)
  have "b_row_check plan (digest plan) (fst (b_due plan ! p)) (snd (b_due plan ! p)) (events ! p) = Inr ()"
    if p: "p < length events" for p
  proof -
    have "(p, events ! p) \<in> set (enumerate 0 events)" using p by (simp add: in_set_enumerate_eq)
    then have "action_check plan (p, events ! p) = Inr ()" using actions by (auto simp: journal_actions_def rbind_Inr check_simps)
    moreover have "is_dict (events ! p) \<and> set (keys (events ! p)) = set (event_keys (events ! p))
        \<and> pyeq (fld (events ! p) ''tx'') (fld (hd values) ''tx'') \<and> pyeq (fld (events ! p) ''plan_sha256'') (PStr (digest plan))"
      using chain_facts [OF chain] p by simp
    ultimately have "b_row_check plan (digest plan) (p div 3) (b_kinds ! (p mod 3)) (events ! p) = Inr ()"
      using pyeq_trans [OF _ tx] by (intro row_check_event) auto
    then show ?thesis using due_nth [of p plan] p len by simp
  qed
  from scan_rows [OF len, rule_format, OF this]
  have "b_scan plan (digest plan) (b_due plan) events =
      Inr (if length events = length (b_due plan) then (length (b_actions plan), None)
           else (fst (b_due plan ! length events), Some (snd (b_due plan ! length events))))" by blast
  moreover have "journal_state plan events = ''MODEL_COMPLETED_HISTORICAL'' \<longleftrightarrow> length events = length (b_due plan)"
    by (simp add: journal_state_def due_length)
  ultimately show ?thesis
    using Inr len due_nth [of "length events" plan] by (simp add: b_history_def check_simps checks_need checks.simps)
qed simp



end
