(* ===== verification/JournalInspect.thy ===== *)
theory JournalInspect
  imports BarrierJournal
begin

text \<open>
  The file-system side of the journal inspection, \<^verbatim>\<open>inspect\<close> of
  \<^verbatim>\<open>experiments/thick-generations/layout-migration-barrier-file-journal.py\<close>: it pins the directory,
  reads every record with bounds, checks that nothing changes while it reads, and decides by the
  checks of \<open>BarrierJournal\<close>. The operating system is the dependency.
\<close>

section \<open>Calls\<close>

datatype in_call =
    InOpenParent
  | InStatParent
  | InFstat pyval
  | InOpenRoot pyval string
  | InOpenRecord pyval string
  | InStatAt pyval string
  | InList pyval
  | InRead pyval nat
  | InFsync pyval
  | InClose pyval

text \<open>The descriptors that the final statements close\<close>

record inspection =
  in_root :: pyval
  in_fds :: "pyval list"

type_synonym 'a in_prog = "(inspection, in_call, 'a) prog"

definition in_call :: "in_call backend \<Rightarrow> in_call \<Rightarrow> unit in_prog" where
  "in_call \<beta> q = bnd (call \<beta> q) (\<lambda>_. ret ())"

section \<open>Decoding\<close>

fun unique_keys :: "pyval \<Rightarrow> bool" where
  "unique_keys (PList vs) = list_all unique_keys vs"
| "unique_keys (PDict d) = (list_all (\<lambda>kv. unique_keys (snd kv)) d \<and> distinct (map fst d))"
| "unique_keys v = True"

text \<open>The scanner keeps duplicate keys; a decoding error is a \<^verbatim>\<open>ValueError\<close>.\<close>

definition strict :: "(string \<Rightarrow> pyval res) \<Rightarrow> string \<Rightarrow> pyval res" where
  "strict scan raw =
     (case scan raw of
        Inl (ValueError t) \<Rightarrow> Inl (Refusal ''invalid JSON'')
      | Inl e \<Rightarrow> Inl e
      | Inr v \<Rightarrow> rbind (checks [need (unique_keys v) ''duplicate JSON key'']) (\<lambda>_. Inr v))"

section \<open>Reading one record\<close>

abbreviation max_record :: nat where "max_record \<equiv> 1048576"

text \<open>
  At most one byte more than a record may have is asked for, and every round that goes on has
  received bytes within the bound: the loop ends for every operating system.
\<close>

function read_record :: "in_call backend \<Rightarrow> pyval \<Rightarrow> string \<Rightarrow> string in_prog" where
  "read_record \<beta> fd raw \<sigma> =
     (case call \<beta> (InRead fd (min 65536 (max_record + 1 - length raw))) \<sigma> of
        (Inl e, \<tau>) \<Rightarrow> (Inl e, \<tau>)
      | (Inr (PBytes chunk), \<tau>) \<Rightarrow>
          if chunk = [] then (Inr raw, \<tau>)
          else if length raw + length chunk \<le> max_record then read_record \<beta> fd (raw @ chunk) \<tau>
          else (Inl (Refusal ''journal record too large''), \<tau>)
      | (Inr _, \<tau>) \<Rightarrow> (Inl (TypeError ''a bytes-like object is required''), \<tau>))"
  by pat_completeness auto
termination
  by (relation "measure (\<lambda>(\<beta>, fd, raw, \<sigma>). max_record + 1 - length raw)")
    (auto simp: length_greater_0_conv [symmetric] simp del: length_greater_0_conv)

declare read_record.simps [simp del]

definition record_before_ok :: "int \<Rightarrow> pyval \<Rightarrow> pyval \<Rightarrow> bool res" where
  "record_before_ok euid before named =
     rand (s_isreg (st_mode before))
       (Inr (pyeq (fld before ''st_uid'') (PInt euid) \<and> st_mode before mod 4096 = 0x180
          \<and> pyeq (fld before ''st_nlink'') (PInt 1)
          \<and> 0 < int_of (fld before ''st_size'') \<and> int_of (fld before ''st_size'') \<le> int max_record
          \<and> pyeq (dev_ino before) (dev_ino named)))"

definition read_tuple :: "pyval \<Rightarrow> pyval" where
  "read_tuple v = PTuple [fld v ''st_dev'', fld v ''st_ino'', fld v ''st_size'', fld v ''st_mtime_ns'']"

definition inspect_record :: "in_call backend \<Rightarrow> (string \<Rightarrow> pyval res) \<Rightarrow> int \<Rightarrow> string \<Rightarrow> (pyval \<times> pyval) in_prog" where
  "inspect_record \<beta> scan euid name =
     bnd (reads in_root) (\<lambda>root.
     bnd (call \<beta> (InOpenRecord root name)) (\<lambda>fd.
     andthen (writes (in_fds_update (\<lambda>fds. fds @ [fd])))
     (bnd (call \<beta> (InFstat fd)) (\<lambda>before.
     bnd (call \<beta> (InStatAt root name)) (\<lambda>named.
     andthen (lift (rneed (record_before_ok euid before named) ''journal record identity invalid''))
     (bnd (read_record \<beta> fd []) (\<lambda>raw.
     bnd (call \<beta> (InFstat fd)) (\<lambda>after.
     bnd (lift (strict scan raw)) (\<lambda>v.
     andthen (demand (pyeq (read_tuple before) (read_tuple after) \<and> raw = stored_bytes v)
        ''journal record changed or is noncanonical'')
     (andthen (in_call \<beta> (InFsync fd)) (ret (v, before))))))))))))"

section \<open>The directory\<close>

definition list_names :: "in_call backend \<Rightarrow> string list in_prog" where
  "list_names \<beta> = bnd (reads in_root) (\<lambda>root. bnd (call \<beta> (InList root)) (\<lambda>v. ret (sort (map str_of (list_of v)))))"

definition file_set_checks :: "string list \<Rightarrow> (bool \<times> exc) list" where
  "file_set_checks names =
     [need (names \<noteq> [] \<and> hd names = event_file 0 \<and> list_all record_re names) ''journal file set invalid'',
      need (names = map event_file [0..<length names]) ''journal sequence has a gap or duplicate'']"

definition root_ok :: "int \<Rightarrow> pyval \<Rightarrow> pyval \<Rightarrow> bool res" where
  "root_ok euid info named =
     rand (s_isdir (st_mode info))
       (Inr (pyeq (fld info ''st_uid'') (PInt euid) \<and> st_mode info mod 4096 = 0x1C0 \<and> pyeq (dev_ino info) (dev_ino named)))"

definition open_journal :: "in_call backend \<Rightarrow> int \<Rightarrow> pyval \<Rightarrow> string \<Rightarrow> (pyval \<times> pyval) in_prog" where
  "open_journal \<beta> euid parent name =
     bnd (call \<beta> (InFstat parent)) (\<lambda>parent_info.
     bnd (call \<beta> InStatParent) (\<lambda>parent_named.
     andthen (demand (pyeq (dev_ino parent_info) (dev_ino parent_named)) ''journal parent changed'')
     (bnd (call \<beta> (InOpenRoot parent name)) (\<lambda>root.
     andthen (writes (in_root_update (\<lambda>_. root)))
     (bnd (call \<beta> (InFstat root)) (\<lambda>info.
     bnd (call \<beta> (InStatAt parent name)) (\<lambda>named.
     andthen (lift (rneed (root_ok euid info named) ''journal root identity invalid''))
     (ret (parent_info, info)))))))))"

section \<open>Nothing changed\<close>

abbreviation stat_extra :: "string list" where "stat_extra \<equiv> [''st_nlink'', ''st_size'', ''st_mtime_ns'']"

definition recheck_record :: "in_call backend \<Rightarrow> pyval \<times> string \<times> pyval \<Rightarrow> unit in_prog" where
  "recheck_record \<beta> = (\<lambda>(fd, name, before).
     bnd (reads in_root) (\<lambda>root.
     bnd (call \<beta> (InFstat fd)) (\<lambda>opened.
     bnd (call \<beta> (InStatAt root name)) (\<lambda>current.
     lift (rneed (rand (Inr (pyeq (stat_tuple opened stat_extra) (stat_tuple before stat_extra)
         \<and> pyeq (stat_tuple current stat_extra) (stat_tuple before stat_extra))) (s_isreg (st_mode current)))
       ''journal named record changed after reading'')))))"

definition recheck_directories :: "in_call backend \<Rightarrow> pyval \<Rightarrow> string \<Rightarrow> pyval \<times> pyval \<Rightarrow> unit in_prog" where
  "recheck_directories \<beta> parent name = (\<lambda>(parent_info, info).
     bnd (reads in_root) (\<lambda>root.
     bnd (call \<beta> (InFstat root)) (\<lambda>root_after.
     bnd (call \<beta> (InStatAt parent name)) (\<lambda>root_named.
     bnd (call \<beta> (InFstat parent)) (\<lambda>parent_after.
     bnd (call \<beta> InStatParent) (\<lambda>parent_named.
     demand (pyeq (stat_tuple parent_after []) (stat_tuple parent_info []) \<and> pyeq (stat_tuple parent_named []) (stat_tuple parent_info [])
        \<and> pyeq (stat_tuple root_after []) (stat_tuple info []) \<and> pyeq (stat_tuple root_named []) (stat_tuple info []))
       ''journal root or parent changed''))))))"

definition nothing_changed ::
    "in_call backend \<Rightarrow> pyval \<Rightarrow> string \<Rightarrow> pyval \<times> pyval \<Rightarrow> string list \<Rightarrow> pyval list \<Rightarrow> unit in_prog" where
  "nothing_changed \<beta> parent name infos names befores =
     bnd (reads in_root) (\<lambda>root.
     andthen (in_call \<beta> (InFsync root))
     (bnd (list_names \<beta>) (\<lambda>again.
     andthen (demand (again = names) ''journal file set changed'')
     (bnd (reads in_fds) (\<lambda>fds.
     andthen (foreach (recheck_record \<beta>) (zip fds (zip names befores)))
     (recheck_directories \<beta> parent name infos))))))"

section \<open>The inspection\<close>

definition inspect_body :: "in_call backend \<Rightarrow> (string \<Rightarrow> pyval res) \<Rightarrow> int \<Rightarrow> pyval \<Rightarrow> pyval \<Rightarrow> string \<Rightarrow> pyval in_prog" where
  "inspect_body \<beta> scan euid plan parent name =
     bnd (open_journal \<beta> euid parent name) (\<lambda>infos.
     bnd (list_names \<beta>) (\<lambda>names.
     andthen (lift (checks (file_set_checks names)))
     (bnd (collect (inspect_record \<beta> scan euid) names) (\<lambda>records.
     bnd (lift (journal_events plan (map fst records))) (\<lambda>events.
     andthen (nothing_changed \<beta> parent name infos names (map snd records))
     (ret (journal_report plan events)))))))"

definition close_record :: "in_call backend \<Rightarrow> (string \<Rightarrow> bool) \<Rightarrow> pyval \<Rightarrow> unit in_prog" where
  "close_record \<beta> os_error fd =
     catch (in_call \<beta> (InClose fd)) (\<lambda>e. if is_os_error os_error e then ret () else raise e)"

definition close_all :: "in_call backend \<Rightarrow> (string \<Rightarrow> bool) \<Rightarrow> pyval \<Rightarrow> unit in_prog" where
  "close_all \<beta> os_error parent =
     bnd (reads (\<lambda>s. s)) (\<lambda>s.
     andthen (foreach (close_record \<beta> os_error) (rev (in_fds s)))
     (andthen (if in_root s = PNone then ret () else in_call \<beta> (InClose (in_root s)))
     (in_call \<beta> (InClose parent))))"

text \<open>The path comes split into its parent and its last component.\<close>

definition inspect ::
    "in_call backend \<Rightarrow> (string \<Rightarrow> pyval res) \<Rightarrow> (string \<Rightarrow> bool) \<Rightarrow> int \<Rightarrow> string \<times> string \<Rightarrow> pyval \<Rightarrow> pyval in_prog" where
  "inspect \<beta> scan os_error euid path plan =
     andthen (lift (rbind (pysub plan ''issued_at'') (\<lambda>issued. BarrierModel.validate_plan plan (int_of issued))))
     (andthen (demand (fst path = fb_parent) ''journal parent is not pinned'')
     (andthen (writes (\<lambda>_. \<lparr>in_root = PNone, in_fds = []\<rparr>))
     (bnd (call \<beta> InOpenParent) (\<lambda>parent.
     ensure (inspect_body \<beta> scan euid plan parent (snd path)) (close_all \<beta> os_error parent)))))"

section \<open>What a report rests on\<close>

definition chunk_of :: "in_call \<times> pyres \<Rightarrow> string" where
  "chunk_of qr = (case snd qr of Inr (PBytes s) \<Rightarrow> s | _ \<Rightarrow> [])"

definition bytes_read :: "in_call hist \<Rightarrow> string" where
  "bytes_read t = concat (map chunk_of t)"

lemma bytes_read_simps [simp]:
  "bytes_read [] = []" "bytes_read ((q, Inr (PBytes s)) # t) = s @ bytes_read t" "bytes_read (t @ u) = bytes_read t @ bytes_read u"
  by (simp_all add: bytes_read_def chunk_of_def)

lemma read_record_run:
  assumes "read_record \<beta> fd raw (s, h) = (r, s', h')"
  shows "s' = s \<and> (\<exists>t. h' = h @ t \<and> fst ` set t \<subseteq> range (InRead fd)
     \<and> (\<forall>bytes. r = Inr bytes \<longrightarrow> bytes = raw @ bytes_read t))"
  using assms
proof (induction \<beta> fd raw "(s, h)" arbitrary: h rule: read_record.induct)
  case (1 \<beta> fd raw h)
  let ?q = "InRead fd (min 65536 (max_record + 1 - length raw))"
  note unfold = "1.prems" [unfolded read_record.simps [of \<beta> fd raw "(s, h)"] call_def, simplified]
  show ?case
  proof (cases "\<beta> h ?q")
    case (Inl e)
    then show ?thesis using unfold by auto
  next
    case (Inr v)
    show ?thesis
    proof (cases "\<exists>chunk. v = PBytes chunk \<and> chunk \<noteq> [] \<and> length raw + length chunk \<le> max_record")
      case True
      then obtain chunk where v: "v = PBytes chunk" "chunk \<noteq> []" "length raw + length chunk \<le> max_record" by blast
      then have next_run: "read_record \<beta> fd (raw @ chunk) (s, h @ [(?q, Inr v)]) = (r, s', h')"
        using unfold Inr by simp
      have "call \<beta> ?q (s, h) = (Inr v, (s, h @ [(?q, Inr v)]))" using Inr by (simp add: call_def)
      from "1.hyps" [OF this [symmetric] refl v(1-3) next_run] obtain t where
        "s' = s" "h' = (h @ [(?q, Inr v)]) @ t" "fst ` set t \<subseteq> range (InRead fd)"
        "\<forall>bytes. r = Inr bytes \<longrightarrow> bytes = (raw @ chunk) @ bytes_read t" by blast
      then show ?thesis using v(1) by (intro conjI exI [of _ "(?q, Inr v) # t"]) auto
    next
      case False
      then show ?thesis using unfold Inr by (cases v) (auto split: if_splits)
    qed
  qed
qed

text \<open>The bytes between opening a record and the end of its reading\<close>

definition got :: "string \<Rightarrow> string \<Rightarrow> in_call hist \<Rightarrow> bool" where
  "got name raw h \<longleftrightarrow>
     (\<exists>root fd t1 t2 t3. h = t1 @ t2 @ t3 \<and> (InOpenRecord root name, Inr fd) \<in> set t1
        \<and> fst ` set t2 \<subseteq> range (InRead fd) \<and> bytes_read t2 = raw)"

definition record_read :: "(string \<Rightarrow> pyval res) \<Rightarrow> string \<Rightarrow> pyval \<Rightarrow> in_call hist \<Rightarrow> bool" where
  "record_read scan name v h \<longleftrightarrow> got name (stored_bytes v) h \<and> strict scan (stored_bytes v) = Inr v"

lemma lasting_got: "lasting (got name raw)"
  unfolding lasting_def got_def by (metis append.assoc)

lemma lasting_record_read: "lasting (record_read scan name v)"
  using lasting_got by (auto simp: lasting_def record_read_def)

lemma wp_read_record:
  assumes "lasting F" "afterwards (\<lambda>h. F h \<and> (InOpenRecord root name, Inr fd) \<in> set h) \<sigma>"
  shows "wp (read_record \<beta> fd []) (\<lambda>raw. afterwards (\<lambda>h. F h \<and> got name raw h)) (\<lambda>_ _. True) \<sigma>"
proof -
  obtain s h where \<sigma>: "\<sigma> = (s, h)" by (cases \<sigma>)
  obtain r s' h' where run: "read_record \<beta> fd [] (s, h) = (r, s', h')" by (metis prod_cases3)
  from read_record_run [OF this] obtain t where t: "h' = h @ t" "fst ` set t \<subseteq> range (InRead fd)"
    "\<forall>bytes. r = Inr bytes \<longrightarrow> bytes = bytes_read t" by auto
  have "got name (bytes_read t) h'"
    unfolding got_def using t assms(2) \<sigma> by (intro exI [of _ root] exI [of _ fd] exI [of _ h] exI [of _ t] exI [of _ "[]"])
      (simp add: afterwards_def)
  moreover have "F h'" using lastingD [OF assms(1)] assms(2) t(1) \<sigma> by (simp add: afterwards_def)
  ultimately show ?thesis using run t(3) \<sigma> by (cases r) (simp_all add: wp_def afterwards_def)
qed

lemma asks_in_call [asks_intros]: "asks UNIV (in_call \<beta> q)"
  unfolding in_call_def by (intro asks_intros) simp

lemma wp_inspect_record:
  assumes "lasting F" "afterwards F \<sigma>"
  shows "wp (inspect_record \<beta> scan euid name) (\<lambda>vb. afterwards (\<lambda>h. F h \<and> record_read scan name (fst vb) h)) (\<lambda>_ _. True) \<sigma>"
proof -
  have tail: "wp (bnd (call \<beta> (InFstat fd)) (\<lambda>after.
     bnd (lift (strict scan raw)) (\<lambda>v.
     andthen (demand (pyeq (read_tuple before) (read_tuple after) \<and> raw = stored_bytes v)
        ''journal record changed or is noncanonical'')
     (andthen (in_call \<beta> (InFsync fd)) (ret (v, before))))))
     (\<lambda>vb. afterwards (\<lambda>h. F h \<and> record_read scan name (fst vb) h)) (\<lambda>_ _. True) \<tau>"
    if "afterwards (\<lambda>h. F h \<and> got name raw h) \<tau>" for fd before raw \<tau>
    by (insert that, erule afterwards_answer, intro lasting_intros assms(1) lasting_got, erule afterwards_bnd_lift,
        erule afterwards_demand, erule afterwards_andthen, rule asks_in_call, intro lasting_intros assms(1) lasting_got,
        erule afterwards_ret) (auto simp: record_read_def)
  have read: "wp (bnd (read_record \<beta> fd []) f) (\<lambda>vb. afterwards (\<lambda>h. F h \<and> record_read scan name (fst vb) h)) (\<lambda>_ _. True) \<tau>"
    if "afterwards (\<lambda>h. F h \<and> (InOpenRecord root name, Inr fd) \<in> set h) \<tau>"
      and "\<And>raw \<tau>. afterwards (\<lambda>h. F h \<and> got name raw h) \<tau> \<Longrightarrow>
        wp (f raw) (\<lambda>vb. afterwards (\<lambda>h. F h \<and> record_read scan name (fst vb) h)) (\<lambda>_ _. True) \<tau>" for root fd f \<tau>
    by (rule wp_bndI [OF wp_read_record [OF assms(1) that(1)] that(2)])
  show ?thesis
    unfolding inspect_record_def
    apply (insert assms(2), erule afterwards_bnd, rule asks_reads, rule assms(1), erule afterwards_answer, rule assms(1))
    apply (erule afterwards_andthen, rule asks_writes, intro lasting_intros assms(1))
    apply (erule afterwards_bnd, intro asks_intros UNIV_I, intro lasting_intros assms(1))
    apply (erule afterwards_bnd, intro asks_intros UNIV_I, intro lasting_intros assms(1))
    apply (erule afterwards_andthen, intro asks_intros UNIV_I, intro lasting_intros assms(1))
    apply (erule read, rule tail, assumption)
    done
qed

lemma lasting_list_all2: "(\<And>x y. lasting (P x y)) \<Longrightarrow> lasting (\<lambda>h. list_all2 (\<lambda>x y. P x y h) xs ys)"
  unfolding lasting_def by (blast intro: list_all2_mono)

lemma wp_collect_facts:
  fixes f :: "'x \<Rightarrow> ('s, 'q, 'y) prog"
  assumes P: "\<And>x y. lasting (P x y)"
    and f: "\<And>x F \<sigma>. lasting F \<Longrightarrow> afterwards F \<sigma> \<Longrightarrow> wp (f x) (\<lambda>y. afterwards (\<lambda>h. F h \<and> P x y h)) (\<lambda>_ _. True) \<sigma>"
  shows "lasting F \<Longrightarrow> afterwards F \<sigma> \<Longrightarrow>
     wp (collect f xs) (\<lambda>ys. afterwards (\<lambda>h. F h \<and> list_all2 (\<lambda>x y. P x y h) xs ys)) (\<lambda>_ _. True) \<sigma>"
proof (induction xs arbitrary: F \<sigma>)
  case Nil
  then show ?case by (simp add: wp_ret afterwards_def)
next
  case (Cons x xs)
  show ?case
    unfolding collect.simps
  proof (rule wp_bndI [OF f [OF Cons.prems]])
    fix y and \<tau> :: "'s \<times> 'q hist"
    assume "afterwards (\<lambda>h. F h \<and> P x y h) \<tau>"
    from Cons.IH [OF lasting_conj [OF Cons.prems(1) P] this]
    show "wp (bnd (collect f xs) (\<lambda>ys. ret (y # ys)))
        (\<lambda>ys. afterwards (\<lambda>h. F h \<and> list_all2 (\<lambda>x y. P x y h) (x # xs) ys)) (\<lambda>_ _. True) \<tau>"
      by (rule wp_bndI) (simp add: wp_ret afterwards_def)
  qed
qed

lemma asks_inspection [asks_intros]:
  "asks UNIV (open_journal \<beta> euid parent name)" "asks UNIV (list_names \<beta>)" "asks UNIV (recheck_record \<beta> x)"
  "asks UNIV (recheck_directories \<beta> parent name infos)" "asks UNIV (close_record \<beta> os_error fd)"
proof -
  show "asks UNIV (open_journal \<beta> euid parent name)" unfolding open_journal_def by (intro asks_intros UNIV_I)
  show "asks UNIV (list_names \<beta>)" unfolding list_names_def by (intro asks_intros UNIV_I)
  show "asks UNIV (recheck_record \<beta> x)" unfolding recheck_record_def split_def by (intro asks_intros UNIV_I)
  show "asks UNIV (recheck_directories \<beta> parent name infos)" unfolding recheck_directories_def split_def by (intro asks_intros UNIV_I)
  show "asks UNIV (close_record \<beta> os_error fd)"
    unfolding close_record_def asks_def catch_def in_call_def
    by (auto simp: bnd_def call_def ret_def raise_def split: prod.splits sum.splits)
qed

lemma asks_nothing_changed [asks_intros]: "asks UNIV (nothing_changed \<beta> parent name infos names befores)"
  unfolding nothing_changed_def by (intro asks_intros UNIV_I)

lemma asks_close_all: "asks UNIV (close_all \<beta> os_error parent)"
  unfolding close_all_def by (intro asks_intros asks_if UNIV_I)

definition report_backed :: "(string \<Rightarrow> pyval res) \<Rightarrow> pyval \<Rightarrow> pyval \<Rightarrow> in_call hist \<Rightarrow> bool" where
  "report_backed scan plan v h \<longleftrightarrow>
     (\<exists>names values events.
        names = map event_file [0..<length names] \<and> list_all2 (\<lambda>name v. record_read scan name v h) names values
      \<and> journal_events plan values = Inr events \<and> v = journal_report plan events)"

lemma lasting_report: "lasting (report_backed scan plan v)"
  unfolding lasting_def
proof (intro allI impI)
  fix h t
  assume "report_backed scan plan v h"
  then obtain names vals events where r: "names = map event_file [0..<length names]"
      "list_all2 (\<lambda>name v. record_read scan name v h) names vals"
      "journal_events plan vals = Inr events" "v = journal_report plan events"
    unfolding report_backed_def by blast
  moreover have "list_all2 (\<lambda>name v. record_read scan name v (h @ t)) names vals"
    using lastingD [OF lasting_list_all2 [of "record_read scan"], OF lasting_record_read r(2)] .
  ultimately show "report_backed scan plan v (h @ t)" unfolding report_backed_def by blast
qed

lemma wp_inspect_body:
  "wp (inspect_body \<beta> scan euid plan parent name) (\<lambda>v. afterwards (report_backed scan plan v)) (\<lambda>_ _. True) \<sigma>"
proof -
  let ?T = "\<lambda>h :: in_call hist. True"
  have start: "afterwards ?T \<sigma>" by (simp add: afterwards_def)
  have collected: "wp (bnd (collect (inspect_record \<beta> scan euid) names) (\<lambda>records.
       bnd (lift (journal_events plan (map fst records))) (\<lambda>events.
       andthen (nothing_changed \<beta> parent name infos names (map snd records)) (ret (journal_report plan events)))))
       (\<lambda>v. afterwards (report_backed scan plan v)) (\<lambda>_ _. True) \<tau>"
    if "afterwards (\<lambda>h. True \<and> checks (file_set_checks names) = Inr ()) \<tau>" for names infos \<tau>
  proof (rule wp_bndI [OF wp_collect_facts [where P = "\<lambda>name vb. record_read scan name (fst vb)", OF lasting_record_read
        wp_inspect_record]], assumption, assumption, rule lasting_known [OF lasting_True], rule that)
    fix records :: "(pyval \<times> pyval) list" and \<upsilon> :: "inspection \<times> in_call hist"
    let ?F = "\<lambda>h. (True \<and> checks (file_set_checks names) = Inr ()) \<and> list_all2 (\<lambda>name vb. record_read scan name (fst vb) h) names records"
    assume now: "afterwards ?F \<upsilon>"
    have F: "lasting ?F"
      by (intro lasting_conj lasting_known [OF lasting_True] lasting_list_all2 lasting_record_read)
    show "wp (bnd (lift (journal_events plan (map fst records))) (\<lambda>events.
       andthen (nothing_changed \<beta> parent name infos names (map snd records)) (ret (journal_report plan events))))
       (\<lambda>v. afterwards (report_backed scan plan v)) (\<lambda>_ _. True) \<upsilon>"
    proof (rule afterwards_bnd_lift [OF now], erule afterwards_andthen, rule asks_nothing_changed,
        rule lasting_known [OF F], erule afterwards_ret)
      fix events h
      assume "?F h \<and> journal_events plan (map fst records) = Inr events"
      then show "report_backed scan plan (journal_report plan events) h"
        unfolding report_backed_def
        by (intro exI [of _ names] exI [of _ "map fst records"] exI [of _ events])
          (auto simp: file_set_checks_def check_simps list_all2_map2)
    qed
  qed
  show ?thesis
    unfolding inspect_body_def
    by (insert start, erule afterwards_bnd, rule asks_inspection, rule lasting_True, erule afterwards_bnd, rule asks_inspection,
        rule lasting_True, erule afterwards_lift, erule collected)
qed

text \<open>C40: An inspection that returns a report has read it from the journal. For every operating system and scanner, the
  files read are the numbered files without gap; for each the bytes received between its opening and the end of its
  reading are exactly the canonical bytes of a value, which they decode to; identity, hash chain and action
  prefix of these values are accepted; and the report consists of their events and says nothing else.\<close>

theorem inspection_backed:
  "case inspect \<beta> scan os_error euid path plan (s, []) of (x, s', h) \<Rightarrow>
     (case x of Inl e \<Rightarrow> True | Inr v \<Rightarrow> report_backed scan plan v h)"
proof -
  have "wp (close_all \<beta> os_error parent) (\<lambda>_. afterwards (report_backed scan plan v)) (\<lambda>_ _. True) \<tau>"
    if "afterwards (report_backed scan plan v) \<tau>" for parent v \<tau>
    by (rule wp_afterwards [OF asks_close_all lasting_report that])
  then have "wp (ensure (inspect_body \<beta> scan euid plan parent (snd path)) (close_all \<beta> os_error parent))
      (\<lambda>v. afterwards (report_backed scan plan v)) (\<lambda>_ _. True) \<sigma>" for parent \<sigma>
    unfolding wp_ensure by (intro wp_mono [OF wp_inspect_body]) (auto simp: wp_both wp_true)
  then have "wp (inspect \<beta> scan os_error euid path plan) (\<lambda>v. afterwards (report_backed scan plan v)) (\<lambda>_ _. True) (s, [])"
    unfolding inspect_def by (intro wp_andthenI [OF wp_true] wp_bndI [OF wp_true])
  then show ?thesis by (auto simp: wp_def afterwards_def split: prod.splits sum.splits)
qed

end
