(* ===== verification/OwnedChild.thy ===== *)
theory OwnedChild
  imports PyEffect Json
begin

text \<open>
  The owned child of \<^verbatim>\<open>experiments/thick-generations/prelive_owned_child.py\<close>: binding the
  process file descriptor of a fresh fork, observing its exit without reaping, reaping it once,
  closing the descriptor, and the capture adapter that owns these steps up to the hand-over of the
  reap. There is one lifecycle record, at most one handle made from it and at most one adapter of
  the handle, so all three are parts of one state. The operating system answers arbitrarily, and
  while one of its functions runs the caller's code may run again: \<open>sys\<close> is the boundary, a program
  that can itself perform operations on the same objects. Objects compared by \<^verbatim>\<open>is\<close>
  (authorities, consumers, bindings, threads) are numbers; an exit receipt is its index among the
  receipts made.
\<close>

section \<open>State\<close>

datatype os_call = OsIdentity | OsStarttime pyval | OsLauncher pyval | OsPidfdOpen pyval | OsProbe pyval
  | OsWaitid pyval bool | OsClose pyval

record receipt =
  r_token :: pyval
  r_pid :: pyval
  r_start :: pyval
  r_fd :: pyval
  r_code :: pyval
  r_status :: pyval
  r_class :: string

record reap_cap =
  rc_binding :: nat
  rc_receipt :: nat
  rc_leader :: pyval
  rc_thread :: nat
  rc_used :: bool

text \<open>The lifecycle dictionary with its fork origin (\<open>PObj 0\<close> in the dictionary), the handle, the adapter\<close>

record oc =
  lc :: pyval
  origin_pid :: pyval
  origin_claimed :: bool
  hd_made :: bool
  hd_pidfd :: pyval
  hd_child :: pyval
  hd_launcher :: pyval
  hd_state :: string
  hd_observation :: "nat option"
  hd_thread :: nat
  oc_receipts :: "receipt list"
  ad_made :: bool
  ad_state :: string
  ad_cached :: "nat option"
  ad_authority :: "nat option"
  ad_consumer :: "nat option"
  ad_binding :: "nat option"
  ad_descendant :: "nat option"
  ad_reap :: "reap_cap option"
  ad_completion :: "nat option"
  ad_digest :: pyval
  ad_thread :: nat

type_synonym 'a oc_prog = "(oc, os_call, 'a) prog"

type_synonym boundary = "os_call \<Rightarrow> pyval oc_prog"

abbreviation set_lc :: "string \<Rightarrow> oc \<Rightarrow> oc" where
  "set_lc st \<equiv> lc_update (pyset ''state'' (PStr st))"

text \<open>\<^verbatim>\<open>handle.state = handle.lifecycle["state"] = st\<close>\<close>

definition hd_both :: "string \<Rightarrow> oc \<Rightarrow> oc" where
  "hd_both st s = set_lc st (s\<lparr>hd_state := st\<rparr>)"

definition oc_limits :: "(string \<times> pyval) list" where
  "oc_limits =
     [(''runtime_authorized'', PBool False), (''storage_authorized'', PBool False), (''postcondition_verified'', PBool False),
      (''descendants_qualified'', PBool False), (''capture_qualified'', PBool False)]"

section \<open>Documents\<close>

definition oc_identity :: "pyval \<Rightarrow> string \<Rightarrow> unit res" where
  "oc_identity v label =
     checks
       [need (exact v [''pid'', ''starttime'', ''boot_id'']) (label @ '' schema''),
        need (integer (fld v ''pid'') 1 \<and> integer (fld v ''starttime'') 1) (label @ '' numeric identity''),
        need (matches boot_id_re (fld v ''boot_id'')) (label @ '' boot identity'')]"

definition oc_launcher :: "pyval \<Rightarrow> unit res" where
  "oc_launcher v =
     checks
       [need (exact v [''exe_dev'', ''exe_inode'', ''cmdline_sha256'', ''kind'']) ''launcher schema'',
        need (fld v ''kind'' = PStr ''UNARMED_LAUNCHER_NOT_PAYLOAD'' \<and> integer (fld v ''exe_dev'') 1
          \<and> integer (fld v ''exe_inode'') 1 \<and> matches (hexn 64) (fld v ''cmdline_sha256'')) ''launcher identity'']"

text \<open>The enrollment of a descendant before the fork, and the fork record of the parent branch\<close>

record prefork =
  pf_binding :: nat
  pf_supervisor :: pyval
  pf_used :: bool

definition prepare_descendant_fork_enrollment :: "bool \<Rightarrow> nat option \<Rightarrow> pyval \<Rightarrow> prefork res" where
  "prepare_descendant_fork_enrollment key binding supervisor =
     rbind (checks [need (key \<and> binding \<noteq> None) ''pre-fork enrollment capability''])
     (\<lambda>_. rbind (oc_identity supervisor ''pre-fork supervisor'')
     (\<lambda>_. Inr \<lparr>pf_binding = the binding, pf_supervisor = supervisor, pf_used = False\<rparr>))"

definition fork_record :: "pyval \<Rightarrow> pyval \<Rightarrow> pyval \<Rightarrow> oc" where
  "fork_record pid supervisor token =
     \<lparr>lc = PDict [(''schema'', PInt 1), (''state'', PStr ''SPAWNED_UNBOUND''), (''token'', token), (''supervisor'', supervisor),
        (''owned_child'', PDict [(''pid'', pid), (''starttime'', PNone)]), (''origin'', PObj 0)],
      origin_pid = pid, origin_claimed = False, hd_made = False, hd_pidfd = PNone, hd_child = PNone, hd_launcher = PNone,
      hd_state = [], hd_observation = None, hd_thread = 0, oc_receipts = [], ad_made = False, ad_state = [], ad_cached = None,
      ad_authority = None, ad_consumer = None, ad_binding = None, ad_descendant = None, ad_reap = None,
      ad_completion = None, ad_digest = PNone, ad_thread = 0\<rparr>"

definition record_owned_fork ::
    "bool \<Rightarrow> pyval \<Rightarrow> pyval \<Rightarrow> pyval \<Rightarrow> prefork option \<Rightarrow> (oc \<times> prefork option) res" where
  "record_owned_fork key pid supervisor token enrollment =
     rbind (checks
       [need key ''fork record construction is private'',
        need (case enrollment of None \<Rightarrow> True | Some p \<Rightarrow> \<not> pf_used p \<and> pyeq (pf_supervisor p) supervisor)
          ''foreign or reused pre-fork enrollment''])
     (\<lambda>_. Inr (fork_record pid supervisor token, map_option (pf_used_update (\<lambda>_. True)) enrollment))"

section \<open>Binding\<close>

definition lifecycle_schema :: "pyval \<Rightarrow> unit res" where
  "lifecycle_schema v =
     rbind (checks
       [need (exact v [''schema'', ''state'', ''token'', ''supervisor'', ''owned_child'', ''origin'']) ''lifecycle schema'',
        need (fld v ''schema'' = PInt 1 \<and> fld v ''state'' = PStr ''SPAWNED_UNBOUND'' \<and> matches (hexn 32) (fld v ''token''))
          ''lifecycle state''])
     (\<lambda>_. oc_identity (fld v ''supervisor'') ''supervisor'')"

definition lifecycle_fresh :: "oc \<Rightarrow> pyval \<Rightarrow> unit res" where
  "lifecycle_fresh s current =
     (let v = lc s; child = fld v ''owned_child'' in
     checks
       [need (pyeq (fld v ''supervisor'') current) ''foreign supervisor lifecycle'',
        need (exact child [''pid'', ''starttime'']) ''owned child schema'',
        need (integer (fld child ''pid'') 1 \<and> fld child ''starttime'' = PNone) ''owned child must be a fresh fork result'',
        need (\<not> pyeq (fld child ''pid'') (fld (fld v ''supervisor'') ''pid'')) ''child cannot be supervisor'',
        need (fld v ''origin'' = PObj 0 \<and> pyeq (origin_pid s) (fld child ''pid'') \<and> \<not> origin_claimed s)
          ''unowned or reused fork origin''])"

definition validate_lifecycle :: "boundary \<Rightarrow> unit oc_prog" where
  "validate_lifecycle sys =
     bnd (reads lc) (\<lambda>v.
     andthen (lift (lifecycle_schema v))
     (bnd (sys OsIdentity) (\<lambda>current.
     andthen (lift (oc_identity current ''observed supervisor''))
     (bnd (reads (\<lambda>s. s)) (\<lambda>s. lift (lifecycle_fresh s current))))))"

text \<open>The handler: \<open>start\<close> is the start time read before the failure, \<open>fd\<close> a descriptor that was opened\<close>

definition bind_failed :: "boundary \<Rightarrow> pyval \<Rightarrow> pyval option \<Rightarrow> unit oc_prog" where
  "bind_failed sys start fd =
     andthen (writes (\<lambda>s. set_lc ''UNKNOWN_CHILD_MAY_EXIST'' s))
     (andthen (writes (lc_update (\<lambda>v. pyset ''owned_child'' (pyset ''starttime'' start (fld v ''owned_child'')) v)))
     (case fd of None \<Rightarrow> ret ()
      | Some fd \<Rightarrow> catch (bnd (sys (OsClose fd)) (\<lambda>_. ret ())) (\<lambda>_. ret ())))"

definition terminal_code :: "pyval \<Rightarrow> bool" where
  "terminal_code v \<longleftrightarrow> v \<in> {PInt 1, PInt 2, PInt 3}"

definition bind_probe :: "pyval \<Rightarrow> pyval \<Rightarrow> unit res" where
  "bind_probe pid w =
     (if w = PNone then Inr ()
      else checks
        [need (integer (fld w ''si_pid'') 1 \<and> pyeq (fld w ''si_pid'') pid) ''pidfd waitability PID mismatch'',
         need (is_int (fld w ''si_code'') \<and> is_int (fld w ''si_status'') \<and> terminal_code (fld w ''si_code''))
           ''pidfd waitability receipt invalid''])"

definition bind_open :: "boundary \<Rightarrow> pyval \<Rightarrow> pyval \<Rightarrow> pyval \<Rightarrow> (pyval \<times> pyval) oc_prog" where
  "bind_open sys pid expected start =
     andthen (demand (integer start 1) ''child starttime'')
     (bnd (sys (OsLauncher pid)) (\<lambda>launcher.
     andthen (lift (oc_launcher launcher))
     (andthen (demand (pyeq launcher expected) ''unexpected unarmed launcher'')
     (bnd (sys (OsPidfdOpen pid)) (\<lambda>fd.
     andthen (demand (integer fd 0) ''invalid pidfd'') (ret (launcher, fd)))))))"

definition bind_confirm :: "boundary \<Rightarrow> pyval \<Rightarrow> pyval \<Rightarrow> pyval \<Rightarrow> pyval \<Rightarrow> unit oc_prog" where
  "bind_confirm sys pid start launcher fd =
     bnd (sys (OsProbe fd)) (\<lambda>w.
     andthen (lift (bind_probe pid w))
     (bnd (sys (OsStarttime pid)) (\<lambda>again.
     bnd (sys (OsLauncher pid)) (\<lambda>launcher'.
     andthen (demand (integer again 1) ''second child starttime'')
     (andthen (lift (oc_launcher launcher'))
     (andthen (demand (pyeq again start \<and> pyeq launcher' launcher) ''child identity changed during pidfd bind'')
     (bnd (reads lc) (\<lambda>v. demand (fld v ''state'' = PStr ''BINDING'') ''bind state changed reentrantly''))))))))"

definition make_handle :: "nat \<Rightarrow> pyval \<Rightarrow> pyval \<Rightarrow> pyval \<Rightarrow> pyval \<Rightarrow> oc \<Rightarrow> oc" where
  "make_handle t pid start launcher fd s =
     (set_lc ''PIDFD_BOUND'' (lc_update (\<lambda>v. pyset ''owned_child'' (pyset ''starttime'' start (fld v ''owned_child'')) v) s))
       \<lparr>hd_made := True, hd_pidfd := fd,
        hd_child := PDict [(''pid'', pid), (''starttime'', start), (''boot_id'', fld (fld (lc s) ''supervisor'') ''boot_id'')],
        hd_launcher := launcher, hd_state := ''BOUND'', hd_observation := None, hd_thread := t\<rparr>"

definition bind_claimed :: "boundary \<Rightarrow> nat \<Rightarrow> pyval \<Rightarrow> pyval \<Rightarrow> unit oc_prog" where
  "bind_claimed sys t expected pid =
     bnd (on_error (sys (OsStarttime pid)) (\<lambda>_. bind_failed sys PNone None)) (\<lambda>start.
     bnd (on_error (bind_open sys pid expected start) (\<lambda>_. bind_failed sys start None)) (\<lambda>(launcher, fd).
     andthen (on_error (bind_confirm sys pid start launcher fd) (\<lambda>_. bind_failed sys start (Some fd)))
     (writes (make_handle t pid start launcher fd))))"

definition bind_owned_pidfd :: "boundary \<Rightarrow> nat \<Rightarrow> pyval \<Rightarrow> unit oc_prog" where
  "bind_owned_pidfd sys t expected =
     bnd (reads (\<lambda>s. s)) (\<lambda>s.
     if is_dict (lc s) \<and> fld (lc s) ''origin'' = PObj 0 \<and> origin_claimed s
     then andthen (writes (\<lambda>s. set_lc ''UNKNOWN_REENTRANT_OR_REUSED_BIND'' s))
       (raise (Refusal ''fork origin is already being bound or was consumed''))
     else
       andthen (validate_lifecycle sys)
       (andthen (lift (oc_launcher expected))
       (andthen (writes (\<lambda>s. set_lc ''BINDING'' (s\<lparr>origin_claimed := True\<rparr>)))
       (bnd (reads (\<lambda>s. fld (fld (lc s) ''owned_child'') ''pid'')) (bind_claimed sys t expected)))))"

section \<open>The handle\<close>

definition handle_dead :: "string list" where
  "handle_dead = [''PIDFD_CLOSE_UNKNOWN_UNSETTLED'', ''CLOSED_UNSETTLED_UNKNOWN'', ''REAPED_PIDFD_CLOSE_UNKNOWN'']"

definition is_unknown :: "string \<Rightarrow> bool" where
  "is_unknown st \<longleftrightarrow> take 7 st = ''UNKNOWN''"

text \<open>The states in which a handle is refused for good\<close>

definition hd_stuck :: "string \<Rightarrow> bool" where
  "hd_stuck st \<longleftrightarrow> is_unknown st \<or> st \<in> set handle_dead"

definition owner_changed :: "oc \<Rightarrow> oc" where
  "owner_changed = hd_both ''UNKNOWN_OWNER_CHANGED''"

definition assert_handle_owner :: "boundary \<Rightarrow> nat \<Rightarrow> unit oc_prog" where
  "assert_handle_owner sys t =
     bnd (reads (\<lambda>s. s)) (\<lambda>s.
     andthen (demand (hd_made s) ''owned pidfd handle required'')
     (andthen (demand (\<not> hd_stuck (hd_state s)) ''pidfd lifecycle is permanently unknown or closed'')
     (bnd (on_error (bnd (sys OsIdentity) (\<lambda>v. andthen (lift (oc_identity v ''observed supervisor'')) (ret v)))
        (\<lambda>_. writes owner_changed)) (\<lambda>current.
     bnd (reads (\<lambda>s. s)) (\<lambda>s.
     if t \<noteq> hd_thread s \<or> \<not> pyeq current (fld (lc s) ''supervisor'')
     then andthen (writes owner_changed) (raise (Refusal ''pidfd handle owner changed''))
     else ret ())))))"

text \<open>\<open>key\<close>: the caller is the capture adapter\<close>

definition capture_violation :: "oc \<Rightarrow> oc" where
  "capture_violation = hd_both ''UNKNOWN_CAPTURE_AUTHORITY_VIOLATION''"

definition assert_consumer :: "bool \<Rightarrow> unit oc_prog" where
  "assert_consumer key =
     bnd (reads ad_made) (\<lambda>claimed.
     if claimed \<and> \<not> key
     then andthen (writes capture_violation) (raise (Refusal ''owned child lifecycle is claimed by capture adapter''))
     else ret ())"

definition hd_busy :: "string list" where
  "hd_busy = [''OBSERVING'', ''REAPING'', ''CLOSING'']"

definition not_reentrant :: "unit oc_prog" where
  "not_reentrant =
     bnd (reads hd_state) (\<lambda>st.
     if st \<in> set hd_busy
     then andthen (writes (hd_both ''UNKNOWN_REENTRANT_OPERATION'')) (raise (Refusal ''reentrant pidfd lifecycle operation''))
     else ret ())"

definition handle_entry :: "boundary \<Rightarrow> nat \<Rightarrow> bool \<Rightarrow> unit oc_prog" where
  "handle_entry sys t key = andthen (assert_handle_owner sys t) (andthen (assert_consumer key) not_reentrant)"

definition in_state :: "string list \<Rightarrow> string \<Rightarrow> unit oc_prog" where
  "in_state allowed msg = bnd (reads hd_state) (\<lambda>st. demand (st \<in> set allowed) msg)"

text \<open>The numbers of \<^verbatim>\<open>CLD_EXITED\<close>, \<^verbatim>\<open>CLD_KILLED\<close>, \<^verbatim>\<open>CLD_DUMPED\<close> are 1, 2 and 3, \<^verbatim>\<open>NSIG\<close> is 65\<close>

definition exit_class :: "pyval \<Rightarrow> pyval \<Rightarrow> string res" where
  "exit_class code status =
     (if code = PInt 1 then
        rbind (checks [need (0 \<le> int_of status \<and> int_of status \<le> 255) ''exit status range''])
        (\<lambda>_. Inr (if int_of status = 0 then ''EXITED_ZERO'' else ''EXITED_NONZERO''))
      else if code \<in> {PInt 2, PInt 3} then
        rbind (checks [need (1 \<le> int_of status \<and> int_of status < 65) ''signal status range'']) (\<lambda>_. Inr ''SIGNALED'')
      else Inl (Refusal ''wait receipt is not terminal''))"

definition decode_wait :: "oc \<Rightarrow> pyval \<Rightarrow> receipt res" where
  "decode_wait s v =
     rbind (checks
       [need (v \<noteq> PNone) ''terminal result is absent'',
        need (integer (fld v ''si_pid'') 1 \<and> pyeq (fld v ''si_pid'') (fld (hd_child s) ''pid'')) ''wait receipt PID mismatch'',
        need (is_int (fld v ''si_code'') \<and> is_int (fld v ''si_status'')) ''wait receipt types''])
     (\<lambda>_. rbind (exit_class (fld v ''si_code'') (fld v ''si_status''))
     (\<lambda>class. Inr \<lparr>r_token = fld (lc s) ''token'', r_pid = fld (hd_child s) ''pid'', r_start = fld (hd_child s) ''starttime'',
        r_fd = hd_pidfd s, r_code = fld v ''si_code'', r_status = fld v ''si_status'', r_class = class\<rparr>))"

abbreviation enter :: "string \<Rightarrow> unit oc_prog" where
  "enter st \<equiv> writes (hd_state_update (\<lambda>_. st))"

definition waitid :: "boundary \<Rightarrow> bool \<Rightarrow> pyval oc_prog" where
  "waitid sys reaping = bnd (reads hd_pidfd) (\<lambda>fd. sys (OsWaitid fd reaping))"

definition decoded :: "pyval \<Rightarrow> receipt oc_prog" where
  "decoded v = bnd (reads (\<lambda>s. s)) (\<lambda>s. lift (decode_wait s v))"

definition observe_exit_nonblocking :: "boundary \<Rightarrow> nat \<Rightarrow> bool \<Rightarrow> nat option oc_prog" where
  "observe_exit_nonblocking sys t key =
     andthen (handle_entry sys t key)
     (andthen (in_state [''BOUND''] ''owned bound handle required'')
     (andthen (enter ''OBSERVING'')
     (bnd (on_error (waitid sys False) (\<lambda>_. writes (hd_both ''UNKNOWN_OBSERVE_OUTCOME''))) (\<lambda>v.
     if v = PNone then
       andthen (in_state [''OBSERVING''] ''observation state changed reentrantly'') (andthen (enter ''BOUND'') (ret None))
     else
       bnd (on_error (decoded v) (\<lambda>_. writes (hd_both ''UNKNOWN_OBSERVE_OUTCOME''))) (\<lambda>r.
       bnd (reads (\<lambda>s. length (oc_receipts s))) (\<lambda>i.
       andthen (writes (\<lambda>s. s\<lparr>oc_receipts := oc_receipts s @ [r], hd_observation := Some i\<rparr>))
       (andthen (in_state [''OBSERVING''] ''observation state changed reentrantly'')
       (andthen (enter ''TERMINAL_OBSERVED_NOT_REAPED'') (ret (Some i))))))))))"

definition reap_observed_exit :: "boundary \<Rightarrow> nat \<Rightarrow> bool \<Rightarrow> nat \<Rightarrow> pyval oc_prog" where
  "reap_observed_exit sys t key i =
     andthen (handle_entry sys t key)
     (andthen (in_state [''TERMINAL_OBSERVED_NOT_REAPED''] ''reap state'')
     (bnd (reads (\<lambda>s. s)) (\<lambda>s.
     andthen (demand (i < length (oc_receipts s) \<and> hd_observation s = Some i) ''foreign exit receipt'')
     (andthen (enter ''REAPING'')
     (andthen (on_error
        (bnd (waitid sys True) (\<lambda>v.
         bnd (decoded v) (\<lambda>repeated.
         andthen (demand (repeated = oc_receipts s ! i) ''reap result changed after WNOWAIT'')
         (in_state [''REAPING''] ''reap state changed reentrantly''))))
        (\<lambda>_. writes (hd_both ''UNKNOWN_REAP_OUTCOME'')))
     (andthen (writes (\<lambda>s. set_lc ''OWNED_LEADER_REAPED_ONLY'' (s\<lparr>hd_state := ''REAPED''\<rparr>)))
     (ret (PDict ([(''classification'', PStr ''OWNED_LEADER_REAPED_ONLY''), (''exit'', PStr (r_class (oc_receipts s ! i))),
        (''status'', r_status (oc_receipts s ! i))] @ oc_limits)))))))))"

text \<open>Both closes take the descriptor out of the handle before the call\<close>

definition close_taken :: "boundary \<Rightarrow> (oc \<Rightarrow> oc) \<Rightarrow> string \<Rightarrow> unit oc_prog" where
  "close_taken sys failed msg =
     bnd (reads hd_pidfd) (\<lambda>fd.
     andthen (writes (\<lambda>s. s\<lparr>hd_pidfd := PNone, hd_state := ''CLOSING''\<rparr>))
     (bnd (on_error (sys (OsClose fd)) (\<lambda>_. writes failed)) (\<lambda>_.
     bnd (reads hd_state) (\<lambda>st.
     if st \<noteq> ''CLOSING'' then andthen (writes (\<lambda>s. set_lc ''UNKNOWN_REENTRANT_OPERATION'' s)) (raise (Refusal msg))
     else ret ()))))"

definition close_pidfd_without_settlement :: "boundary \<Rightarrow> nat \<Rightarrow> bool \<Rightarrow> pyval oc_prog" where
  "close_pidfd_without_settlement sys t key =
     andthen (handle_entry sys t key)
     (andthen (in_state [''BOUND'', ''TERMINAL_OBSERVED_NOT_REAPED''] ''only an unsettled owned handle may use refusal close'')
     (andthen (close_taken sys (hd_both ''PIDFD_CLOSE_UNKNOWN_UNSETTLED'') ''close state changed reentrantly'')
     (andthen (writes (hd_both ''CLOSED_UNSETTLED_UNKNOWN''))
     (ret (PDict ((''classification'', PStr ''CLOSED_UNSETTLED_UNKNOWN'') # oc_limits))))))"

definition close_reaped_pidfd :: "boundary \<Rightarrow> nat \<Rightarrow> bool \<Rightarrow> pyval oc_prog" where
  "close_reaped_pidfd sys t key =
     andthen (handle_entry sys t key)
     (bnd (reads (\<lambda>s. s)) (\<lambda>s.
     andthen (demand (hd_state s = ''REAPED'' \<and> fld (lc s) ''state'' = PStr ''OWNED_LEADER_REAPED_ONLY'')
       ''only an exactly reaped handle may use terminal close'')
     (andthen (close_taken sys (hd_state_update (\<lambda>_. ''REAPED_PIDFD_CLOSE_UNKNOWN'')) ''terminal close state changed reentrantly'')
     (andthen (enter ''REAPED_PIDFD_CLOSED'')
     (ret (PDict ((''classification'', PStr ''OWNED_LEADER_REAPED_PIDFD_CLOSED'') # oc_limits)))))))"

section \<open>The capture adapter\<close>

text \<open>What an operation reads of the capture consumer, and of a completion capability\<close>

record consumer_view =
  cw_state :: pyval
  cw_monitor :: pyval
  cw_failure :: pyval
  cw_settled :: pyval
  cw_child_self :: bool
  cw_completion :: "nat option"
  cw_handoff :: pyval
  cw_poisoned :: pyval

record completion_view =
  cp_id :: nat
  cp_exact :: bool
  cp_consumer :: "nat option"
  cp_child_self :: bool
  cp_receipt :: "nat option"
  cp_digest :: pyval
  cp_completion :: pyval
  cp_used :: pyval

definition normalized_exit :: "oc \<Rightarrow> nat \<Rightarrow> pyval res" where
  "normalized_exit s i =
     (let r = oc_receipts s ! i in
     rbind (checks
       [need (i < length (oc_receipts s) \<and> hd_observation s = Some i \<and> pyeq (r_token r) (fld (lc s) ''token'')
          \<and> is_int (r_pid r) \<and> pyeq (r_pid r) (fld (hd_child s) ''pid'')
          \<and> is_int (r_start r) \<and> pyeq (r_start r) (fld (hd_child s) ''starttime'')
          \<and> is_int (r_fd r) \<and> pyeq (r_fd r) (hd_pidfd s)) ''cached exit receipt identity''])
     (\<lambda>_. Inr (PDict [(''classification'', PStr (r_class r)), (''lifecycle_token'', r_token r), (''child_pid'', r_pid r),
        (''child_starttime'', r_start r), (''code'', r_code r), (''status'', r_status r)])))"

definition ad_poison :: "string \<Rightarrow> oc \<Rightarrow> oc" where
  "ad_poison st s = capture_violation (s\<lparr>ad_state := st\<rparr>)"

definition ad_refuse :: "string \<Rightarrow> string \<Rightarrow> 'a oc_prog" where
  "ad_refuse st msg = andthen (writes (ad_poison st)) (raise (Refusal msg))"

definition ad_busy :: "string list" where
  "ad_busy = [''CLAIMING'', ''IDENTIFYING'', ''CHECKING_PIDFD'', ''OBSERVING'', ''VALIDATING'', ''HANDING_OFF'', ''REAPING'',
     ''BINDING_NORMAL_COMPLETION'']"

abbreviation ad_enter :: "string \<Rightarrow> unit oc_prog" where
  "ad_enter st \<equiv> writes (ad_state_update (\<lambda>_. st))"

definition ad_still :: "string \<Rightarrow> string \<Rightarrow> unit oc_prog" where
  "ad_still st msg = bnd (reads ad_state) (\<lambda>now. demand (now = st) msg)"

definition ad_begin ::
    "boundary \<Rightarrow> nat \<Rightarrow> string \<Rightarrow> string list \<Rightarrow> nat option \<Rightarrow> nat option \<Rightarrow> bool \<Rightarrow> string oc_prog" where
  "ad_begin sys t operation allowed authority consumer claimed =
     bnd (reads (\<lambda>s. s)) (\<lambda>s.
     andthen (demand (\<not> is_unknown (ad_state s)) ''capture adapter is permanently unknown'')
     (if ad_state s \<in> set ad_busy then ad_refuse ''UNKNOWN_REENTRANT_OPERATION'' ''reentrant capture adapter operation''
      else if t \<noteq> ad_thread s \<or> \<not> ad_made s then ad_refuse ''UNKNOWN_OWNER_CHANGED'' ''capture adapter ownership changed''
      else if claimed \<and> (ad_authority s = None \<or> ad_consumer s = None \<or> ad_authority s \<noteq> authority \<or> ad_consumer s \<noteq> consumer)
        then ad_refuse ''UNKNOWN_CAPTURE_CONSUMER_CHANGED'' ''capture adapter consumer changed''
      else
        andthen (demand (ad_state s \<in> set allowed) ''capture adapter operation state'')
        (andthen (ad_enter operation)
        (andthen (on_error (andthen (assert_handle_owner sys t) (ad_still operation ''capture adapter state changed''))
           (\<lambda>_. writes (ad_poison ''UNKNOWN_OWNER_OR_REENTRANT'')))
        (ret (ad_state s))))))"

definition ad_phase :: "bool \<Rightarrow> string \<Rightarrow> unit oc_prog" where
  "ad_phase b msg = (if b then ret () else ad_refuse ''UNKNOWN_CAPTURE_PHASE'' msg)"

definition ad_identity :: "boundary \<Rightarrow> nat \<Rightarrow> nat option \<Rightarrow> nat option \<Rightarrow> pyval oc_prog" where
  "ad_identity sys t authority consumer =
     bnd (reads (\<lambda>s. ad_consumer s \<noteq> None)) (\<lambda>claimed.
     bnd (ad_begin sys t ''IDENTIFYING'' [''PRIMARY'', ''SETTLEMENT''] authority consumer claimed) (\<lambda>prior.
     bnd (reads (\<lambda>s. s)) (\<lambda>s.
     andthen (ad_still ''IDENTIFYING'' ''identity state changed'')
     (andthen (ad_enter prior)
     (ret (PDict [(''lifecycle_token'', fld (lc s) ''token''), (''pid'', fld (hd_child s) ''pid''),
        (''starttime'', fld (hd_child s) ''starttime''), (''boot_id'', fld (hd_child s) ''boot_id'')]))))))"

definition claim_capture :: "boundary \<Rightarrow> nat \<Rightarrow> nat option \<Rightarrow> nat option \<Rightarrow> unit oc_prog" where
  "claim_capture sys t authority consumer =
     (if authority = None \<or> consumer = None then ad_refuse ''UNKNOWN_EMPTY_CAPTURE_CLAIM'' ''capture claim capability''
      else bnd (reads ad_consumer) (\<lambda>old.
        if old \<noteq> None then ad_refuse ''UNKNOWN_DUPLICATE_CAPTURE_CLAIM'' ''capture adapter is already attached''
        else
          bnd (ad_begin sys t ''CLAIMING'' [''PRIMARY''] None None False) (\<lambda>prior.
          andthen (writes (\<lambda>s. s\<lparr>ad_authority := authority, ad_consumer := consumer\<rparr>))
          (andthen (ad_still ''CLAIMING'' ''capture claim state changed'') (ad_enter prior)))))"

definition pidfd_owned :: "boundary \<Rightarrow> nat \<Rightarrow> nat option \<Rightarrow> nat option \<Rightarrow> bool oc_prog" where
  "pidfd_owned sys t authority consumer =
     bnd (ad_begin sys t ''CHECKING_PIDFD'' [''PRIMARY'', ''SETTLEMENT''] authority consumer True) (\<lambda>prior.
     bnd (reads (\<lambda>s. integer (hd_pidfd s) 0)) (\<lambda>owned.
     andthen (ad_still ''CHECKING_PIDFD'' ''pidfd check state changed'')
     (andthen (ad_enter prior) (ret owned))))"

definition cached_exit :: "string \<Rightarrow> string \<Rightarrow> string \<Rightarrow> nat \<Rightarrow> pyval oc_prog" where
  "cached_exit operation lost changed i =
     andthen (in_state [''TERMINAL_OBSERVED_NOT_REAPED''] lost)
     (bnd (reads (\<lambda>s. s)) (\<lambda>s.
     bnd (lift (normalized_exit s i)) (\<lambda>v.
     andthen (ad_still operation changed) (ret v))))"

definition observe_or_cached :: "boundary \<Rightarrow> nat \<Rightarrow> nat option \<Rightarrow> nat option \<Rightarrow> consumer_view \<Rightarrow> pyval oc_prog" where
  "observe_or_cached sys t authority consumer cw =
     bnd (ad_begin sys t ''OBSERVING'' [''PRIMARY'', ''SETTLEMENT''] authority consumer True) (\<lambda>prior.
     andthen (ad_phase (pyeq (cw_state cw) (PStr (if prior = ''PRIMARY'' then ''BOUND'' else ''SETTLING''))) ''capture consumer phase'')
     (andthen (if prior = ''PRIMARY'' then ad_phase (is_true (cw_monitor cw)) ''primary monitor is not active'' else ret ())
     (bnd (reads ad_cached) (\<lambda>cached.
     case cached of
       Some i \<Rightarrow>
         bnd (on_error (cached_exit ''OBSERVING'' ''cached terminal lifecycle state'' ''cached state changed'' i)
           (\<lambda>_. writes (ad_poison ''UNKNOWN_CACHED_RECEIPT''))) (\<lambda>v.
         andthen (ad_enter prior) (ret v))
     | None \<Rightarrow>
         bnd (on_error
           (bnd (observe_exit_nonblocking sys t True) (\<lambda>r.
            andthen (ad_still ''OBSERVING'' ''capture adapter observe state changed'')
            (case r of None \<Rightarrow> ret r
             | Some i \<Rightarrow>
                 bnd (reads hd_observation) (\<lambda>now.
                 andthen (demand (now = Some i) ''capture adapter lost exact receipt'')
                 (andthen (writes (ad_cached_update (\<lambda>_. Some i))) (ret r))))))
           (\<lambda>_. writes (ad_poison ''UNKNOWN_OBSERVE''))) (\<lambda>r.
         andthen (ad_enter prior)
         (case r of None \<Rightarrow> ret PNone | Some i \<Rightarrow> bnd (reads (\<lambda>s. s)) (\<lambda>s. lift (normalized_exit s i))))))))"

definition validate_cached :: "boundary \<Rightarrow> nat \<Rightarrow> nat option \<Rightarrow> nat option \<Rightarrow> consumer_view \<Rightarrow> pyval oc_prog" where
  "validate_cached sys t authority consumer cw =
     bnd (ad_begin sys t ''VALIDATING'' [''PRIMARY''] authority consumer True) (\<lambda>prior.
     andthen (ad_phase (cw_state cw = PStr ''BOUND'' \<and> is_true (cw_monitor cw)) ''cached validation is outside primary monitor'')
     (bnd (on_error
       (bnd (reads ad_cached) (\<lambda>cached.
        case cached of
          None \<Rightarrow> andthen (in_state [''BOUND''] ''unobserved child lifecycle changed'')
            (andthen (ad_still ''VALIDATING'' ''cached validation state changed'') (ret PNone))
        | Some i \<Rightarrow> cached_exit ''VALIDATING'' ''cached child lifecycle changed'' ''cached validation state changed'' i))
       (\<lambda>_. writes (ad_poison ''UNKNOWN_CACHED_VALIDATION''))) (\<lambda>v.
     andthen (ad_enter prior) (ret v))))"

text \<open>\<open>lc\<close> holds a string state; a failing \<open>normalized_exit\<close> escapes without poisoning\<close>

definition assert_current_no_callback :: "nat \<Rightarrow> nat option \<Rightarrow> nat option \<Rightarrow> pyval oc_prog" where
  "assert_current_no_callback t authority consumer =
     bnd (reads (\<lambda>s. s)) (\<lambda>s.
     let valid = t = ad_thread s \<and> ad_made s \<and> ad_authority s = authority \<and> ad_consumer s = consumer \<and> ad_state s = ''PRIMARY''
       \<and> \<not> is_unknown (str_of (fld (lc s) ''state''))
     in case ad_cached s of
       None \<Rightarrow> if valid \<and> hd_state s = ''BOUND'' then ret PNone
         else ad_refuse ''UNKNOWN_INTERNAL_AUTHORITY_CHECK'' ''capture adapter internal authority changed''
     | Some i \<Rightarrow> if valid \<and> hd_state s = ''TERMINAL_OBSERVED_NOT_REAPED'' \<and> hd_observation s = Some i
         then lift (normalized_exit s i)
         else ad_refuse ''UNKNOWN_INTERNAL_AUTHORITY_CHECK'' ''capture adapter internal authority changed'')"

definition settling_failure :: "consumer_view \<Rightarrow> bool" where
  "settling_failure cw \<longleftrightarrow>
     cw_state cw = PStr ''SETTLING'' \<and> cw_failure cw \<noteq> PNone \<and> is_true (cw_settled cw) \<and> is_false (cw_monitor cw)"

definition enter_settlement :: "boundary \<Rightarrow> nat \<Rightarrow> nat option \<Rightarrow> nat option \<Rightarrow> consumer_view \<Rightarrow> unit oc_prog" where
  "enter_settlement sys t authority consumer cw =
     andthen (ad_begin sys t ''HANDING_OFF'' [''PRIMARY''] authority consumer True)
     (andthen (ad_phase (settling_failure cw) ''capture consumer is not settling a primary failure'')
     (andthen (ad_still ''HANDING_OFF'' ''capture handoff state changed'') (ad_enter ''SETTLEMENT'')))"

definition completion_bound ::
    "nat \<Rightarrow> nat option \<Rightarrow> nat option \<Rightarrow> consumer_view \<Rightarrow> completion_view \<Rightarrow> pyval \<Rightarrow> oc \<Rightarrow> bool" where
  "completion_bound t authority consumer cw cp dig s \<longleftrightarrow>
     t = ad_thread s \<and> ad_state s = ''PRIMARY'' \<and> ad_authority s = authority \<and> ad_consumer s = consumer \<and> ad_made s
   \<and> cp_exact cp \<and> cw_state cw = PStr ''BOUND'' \<and> is_true (cw_monitor cw) \<and> cw_failure cw = PNone
   \<and> cw_completion cw = Some (cp_id cp) \<and> cp_consumer cp = consumer \<and> cp_child_self cp
   \<and> ad_cached s \<noteq> None \<and> cp_receipt cp = ad_cached s \<and> hd_observation s = ad_cached s
   \<and> is_str dig \<and> length (str_of dig) = 64 \<and> cp_digest cp = dig
   \<and> json_ok (cp_completion cp) \<and> dig = PStr (digest (cp_completion cp)) \<and> ad_completion s = None"

definition bind_normal_completion ::
    "nat \<Rightarrow> nat option \<Rightarrow> nat option \<Rightarrow> consumer_view \<Rightarrow> completion_view \<Rightarrow> pyval \<Rightarrow> unit oc_prog" where
  "bind_normal_completion t authority consumer cw cp dig =
     bnd (reads (completion_bound t authority consumer cw cp dig)) (\<lambda>ok.
     if \<not> ok then ad_refuse ''UNKNOWN_NORMAL_COMPLETION_BIND'' ''exact normal completion binding''
     else writes (\<lambda>s. s\<lparr>ad_completion := Some (cp_id cp), ad_digest := dig, ad_state := ''PRIMARY''\<rparr>))"

definition settling_completed :: "nat option \<Rightarrow> consumer_view \<Rightarrow> completion_view \<Rightarrow> oc \<Rightarrow> bool" where
  "settling_completed consumer cw cp s \<longleftrightarrow>
     cw_state cw = PStr ''SETTLING'' \<and> cw_failure cw = PNone \<and> is_true (cw_settled cw) \<and> is_false (cw_monitor cw)
   \<and> cw_completion cw = Some (cp_id cp) \<and> is_true (cp_used cp) \<and> cp_consumer cp = consumer \<and> cp_child_self cp
   \<and> cp_receipt cp = ad_cached s"

definition completion_active :: "consumer_view \<Rightarrow> completion_view \<Rightarrow> oc \<Rightarrow> bool" where
  "completion_active cw cp s \<longleftrightarrow>
     ad_completion s = Some (cp_id cp) \<and> is_str (ad_digest s) \<and> cp_digest cp = ad_digest s
   \<and> is_true (cw_handoff cw) \<and> is_false (cw_poisoned cw)"

definition enter_completed_settlement ::
    "boundary \<Rightarrow> nat \<Rightarrow> nat option \<Rightarrow> nat option \<Rightarrow> consumer_view \<Rightarrow> completion_view \<Rightarrow> unit oc_prog" where
  "enter_completed_settlement sys t authority consumer cw cp =
     andthen (ad_begin sys t ''HANDING_OFF'' [''PRIMARY''] authority consumer True)
     (bnd (reads (\<lambda>s. s)) (\<lambda>s.
     andthen (ad_phase (settling_completed consumer cw cp s) ''capture consumer lacks exact normal completion'')
     (andthen (ad_phase (completion_active cw cp s) ''normal completion claim is not active'')
     (andthen (ad_still ''HANDING_OFF'' ''completed capture handoff state changed'') (ad_enter ''SETTLEMENT'')))))"

definition mint_leader_reap :: "nat \<Rightarrow> nat \<Rightarrow> oc \<Rightarrow> oc" where
  "mint_leader_reap t i s =
     (case ad_binding s of None \<Rightarrow> s
      | Some b \<Rightarrow> s\<lparr>ad_reap := Some \<lparr>rc_binding = b, rc_receipt = i,
          rc_leader = PDict [(''pid'', r_pid (oc_receipts s ! i)), (''starttime'', r_start (oc_receipts s ! i)),
            (''boot_id'', fld (hd_child s) ''boot_id'')], rc_thread = t, rc_used = False\<rparr>\<rparr>)"

definition reap_cached_once :: "boundary \<Rightarrow> nat \<Rightarrow> nat option \<Rightarrow> nat option \<Rightarrow> consumer_view \<Rightarrow> pyval oc_prog" where
  "reap_cached_once sys t authority consumer cw =
     andthen (ad_begin sys t ''REAPING'' [''SETTLEMENT''] authority consumer True)
     (andthen (ad_phase (cw_state cw = PStr ''SETTLING'' \<and> is_true (cw_settled cw)) ''capture consumer is not in settlement'')
     (bnd (reads (\<lambda>s. s)) (\<lambda>s.
     andthen (demand (ad_cached s \<noteq> None) ''settlement requires cached terminal receipt'')
     (andthen (demand (hd_observation s = ad_cached s) ''settlement exact receipt changed'')
     (bnd (on_error
        (bnd (reap_observed_exit sys t True (the (ad_cached s))) (\<lambda>v.
         andthen (ad_still ''REAPING'' ''capture adapter reap state changed'') (ret v)))
        (\<lambda>_. writes (ad_poison ''UNKNOWN_REAP''))) (\<lambda>v.
     andthen (writes (mint_leader_reap t (the (ad_cached s))))
     (andthen (ad_enter ''REAPED'')
     (bnd (reads (\<lambda>s'. oc_receipts s' ! the (ad_cached s))) (\<lambda>r.
     ret (PDict (items v @ [(''lifecycle_token'', r_token r), (''child_pid'', r_pid r), (''child_starttime'', r_start r)])))))))))))"

definition enroll_descendant :: "nat \<Rightarrow> bool \<Rightarrow> nat option \<Rightarrow> nat option \<Rightarrow> consumer_view \<Rightarrow> unit oc_prog" where
  "enroll_descendant t key binding consumer cw =
     (if \<not> key \<or> binding = None \<or> consumer = None
      then ad_refuse ''UNKNOWN_DESCENDANT_ENROLLMENT'' ''descendant enrollment capability''
      else bnd (reads (\<lambda>s. s)) (\<lambda>s.
        if t \<noteq> ad_thread s \<or> ad_state s \<noteq> ''PRIMARY'' \<or> ad_cached s \<noteq> None \<or> ad_binding s \<noteq> None \<or> ad_consumer s \<noteq> consumer
          \<or> \<not> cw_child_self cw \<or> cw_state cw \<noteq> PStr ''BOUND'' \<or> \<not> is_false (cw_monitor cw) \<or> hd_state s \<noteq> ''BOUND''
        then ad_refuse ''UNKNOWN_DESCENDANT_ENROLLMENT'' ''descendant enrollment phase''
        else writes (\<lambda>s. s\<lparr>ad_binding := binding, ad_descendant := consumer\<rparr>)))"

text \<open>The receipt is the adapter's by construction of the capability; its other objects are this state's\<close>

definition reap_handoff_ok :: "nat \<Rightarrow> nat option \<Rightarrow> nat option \<Rightarrow> consumer_view \<Rightarrow> bool \<Rightarrow> oc \<Rightarrow> bool" where
  "reap_handoff_ok t binding consumer cw used s \<longleftrightarrow>
     t = ad_thread s \<and> ad_binding s = binding \<and> ad_descendant s = consumer \<and> ad_consumer s = consumer \<and> cw_child_self cw
   \<and> (case ad_reap s of None \<Rightarrow> False
      | Some rc \<Rightarrow> rc_used rc = used \<and> Some (rc_binding rc) = binding \<and> Some (rc_receipt rc) = ad_cached s)
   \<and> hd_state s = ''REAPED'' \<and> fld (lc s) ''state'' = PStr ''OWNED_LEADER_REAPED_ONLY'' \<and> hd_observation s = ad_cached s"

definition take_exact_leader_reap :: "nat \<Rightarrow> bool \<Rightarrow> nat option \<Rightarrow> nat option \<Rightarrow> consumer_view \<Rightarrow> reap_cap oc_prog" where
  "take_exact_leader_reap t key binding consumer cw =
     bnd (reads (\<lambda>s. s)) (\<lambda>s.
     if \<not> key \<or> ad_state s \<noteq> ''REAPED'' \<or> \<not> reap_handoff_ok t binding consumer cw False s
     then ad_refuse ''UNKNOWN_DESCENDANT_HANDOFF'' ''exact leader reap handoff unavailable''
     else andthen (ad_enter ''DESCENDANT_HANDOFF'') (ret (the (ad_reap s))))"

text \<open>\<open>same\<close>: the capability handed in is the adapter's\<close>

definition validate_transferred_reap :: "nat \<Rightarrow> bool \<Rightarrow> bool \<Rightarrow> nat option \<Rightarrow> nat option \<Rightarrow> consumer_view \<Rightarrow> unit oc_prog" where
  "validate_transferred_reap t key same binding consumer cw =
     bnd (reads (\<lambda>s. s)) (\<lambda>s.
     if key \<and> ad_state s = ''DESCENDANT_HANDOFF'' \<and> same \<and> reap_handoff_ok t binding consumer cw True s
       \<and> (case ad_reap s of None \<Rightarrow> False | Some rc \<Rightarrow> rc_thread rc = ad_thread s) \<and> ad_made s
     then ret ()
     else ad_refuse ''UNKNOWN_TRANSFERRED_REAP'' ''transferred leader reap authority changed'')"

text \<open>The receiver of the capability marks it used\<close>

definition spend_leader_reap :: "unit oc_prog" where
  "spend_leader_reap = writes (ad_reap_update (map_option (rc_used_update (\<lambda>_. True))))"

definition make_adapter :: "nat \<Rightarrow> oc \<Rightarrow> oc" where
  "make_adapter t s =
     s\<lparr>ad_made := True, ad_state := ''PRIMARY'', ad_cached := None, ad_authority := None, ad_consumer := None,
       ad_binding := None, ad_descendant := None, ad_reap := None, ad_completion := None, ad_digest := PNone, ad_thread := t\<rparr>"

definition bind_capture_child_adapter :: "boundary \<Rightarrow> nat \<Rightarrow> unit oc_prog" where
  "bind_capture_child_adapter sys t =
     andthen (assert_handle_owner sys t)
     (andthen (in_state [''BOUND''] ''capture adapter requires bound child'')
     (bnd (reads ad_made) (\<lambda>claimed.
     if claimed then andthen (writes capture_violation) (raise (Refusal ''owned child already has a capture adapter''))
     else writes (make_adapter t))))"

section \<open>Callers\<close>

datatype oc_op = OpBind pyval | OpObserve bool | OpReap bool nat | OpClose bool | OpCloseReaped bool | OpAdapter
  | OpIdentity "nat option" "nat option" | OpClaim "nat option" "nat option" | OpPidfd "nat option" "nat option"
  | OpObserveCached "nat option" "nat option" consumer_view | OpValidate "nat option" "nat option" consumer_view
  | OpAssert "nat option" "nat option" | OpSettle "nat option" "nat option" consumer_view
  | OpComplete "nat option" "nat option" consumer_view completion_view pyval
  | OpSettleCompleted "nat option" "nat option" consumer_view completion_view
  | OpReapOnce "nat option" "nat option" consumer_view
  | OpEnroll bool "nat option" "nat option" consumer_view
  | OpTake bool "nat option" "nat option" consumer_view
  | OpTransferred bool bool "nat option" "nat option" consumer_view | OpSpend

definition discard :: "'a oc_prog \<Rightarrow> unit oc_prog" where
  "discard m = catch (bnd m (\<lambda>_. ret ())) (\<lambda>_. ret ())"

text \<open>The adapter's methods need an adapter; what an operation returns or raises is the caller's business\<close>

definition on_adapter :: "'a oc_prog \<Rightarrow> 'a oc_prog" where
  "on_adapter m = bnd (reads ad_made) (\<lambda>made. andthen (demand made ''exact capture adapter required'') m)"

fun perform :: "boundary \<Rightarrow> nat \<times> oc_op \<Rightarrow> unit oc_prog" where
  "perform sys (t, OpBind expected) = discard (bind_owned_pidfd sys t expected)"
| "perform sys (t, OpObserve key) = discard (observe_exit_nonblocking sys t key)"
| "perform sys (t, OpReap key i) = discard (reap_observed_exit sys t key i)"
| "perform sys (t, OpClose key) = discard (close_pidfd_without_settlement sys t key)"
| "perform sys (t, OpCloseReaped key) = discard (close_reaped_pidfd sys t key)"
| "perform sys (t, OpAdapter) = discard (bind_capture_child_adapter sys t)"
| "perform sys (t, OpIdentity a c) = discard (on_adapter (ad_identity sys t a c))"
| "perform sys (t, OpClaim a c) = discard (on_adapter (claim_capture sys t a c))"
| "perform sys (t, OpPidfd a c) = discard (on_adapter (pidfd_owned sys t a c))"
| "perform sys (t, OpObserveCached a c cw) = discard (on_adapter (observe_or_cached sys t a c cw))"
| "perform sys (t, OpValidate a c cw) = discard (on_adapter (validate_cached sys t a c cw))"
| "perform sys (t, OpAssert a c) = discard (on_adapter (assert_current_no_callback t a c))"
| "perform sys (t, OpSettle a c cw) = discard (on_adapter (enter_settlement sys t a c cw))"
| "perform sys (t, OpComplete a c cw cp d) = discard (on_adapter (bind_normal_completion t a c cw cp d))"
| "perform sys (t, OpSettleCompleted a c cw cp) = discard (on_adapter (enter_completed_settlement sys t a c cw cp))"
| "perform sys (t, OpReapOnce a c cw) = discard (on_adapter (reap_cached_once sys t a c cw))"
| "perform sys (t, OpEnroll key b c cw) = discard (on_adapter (enroll_descendant t key b c cw))"
| "perform sys (t, OpTake key b c cw) = discard (on_adapter (take_exact_leader_reap t key b c cw))"
| "perform sys (t, OpTransferred key same b c cw) = discard (on_adapter (validate_transferred_reap t key same b c cw))"
| "perform sys (t, OpSpend) = spend_leader_reap"

text \<open>
  The boundary with callbacks nested to depth \<open>d\<close>: while a call runs, the caller's code performs
  the operations \<open>\<kappa> h q\<close>, of which each may reach the boundary again, one level deeper
\<close>

type_synonym callbacks = "os_call hist \<Rightarrow> os_call \<Rightarrow> (nat \<times> oc_op) list"

primrec sys_at :: "os_call backend \<Rightarrow> callbacks \<Rightarrow> nat \<Rightarrow> boundary" where
  "sys_at \<beta> \<kappa> 0 q = call \<beta> q"
| "sys_at \<beta> \<kappa> (Suc d) q =
     bnd (\<lambda>(s, h). (Inr h, s, h)) (\<lambda>h.
     bnd (captured (call \<beta> q)) (\<lambda>r.
     andthen (foreach (perform (sys_at \<beta> \<kappa> d)) (\<kappa> h q)) (lift r)))"

definition oc_run :: "os_call backend \<Rightarrow> callbacks \<Rightarrow> nat \<Rightarrow> (nat \<times> oc_op) list \<Rightarrow> unit oc_prog" where
  "oc_run \<beta> \<kappa> d = foreach (perform (sys_at \<beta> \<kappa> d))"

section \<open>What callbacks cannot break\<close>

text \<open>
  A boundary respects a family of predicates when a call from a state that keeps one of them,
  whatever the answer, ends in a state that keeps it; and it records the answer that it gives.
\<close>

type_synonym oc_pred = "oc \<times> os_call hist \<Rightarrow> bool"

definition recorded :: "boundary \<Rightarrow> bool" where
  "recorded sys \<longleftrightarrow> (\<forall>q s h. \<exists>t. snd (snd (sys q (s, h))) = h @ (q, fst (sys q (s, h))) # t)"

definition upholds :: "oc_pred set \<Rightarrow> boundary \<Rightarrow> bool" where
  "upholds F sys \<longleftrightarrow>
     recorded sys \<and> (\<forall>I \<in> F. \<forall>q s h. (\<forall>r. I (s, h @ [(q, r)])) \<longrightarrow> I (snd (sys q (s, h))))"

lemma recorded_asks: "recorded sys \<Longrightarrow> asks UNIV (sys q)"
  unfolding recorded_def asks_def by (metis prod.collapse subset_UNIV)

lemma upholds_wp:
  assumes "upholds F sys" and "I \<in> F" and "\<And>r. I (s, h @ [(q, r)])"
  shows "wp (sys q) (\<lambda>a (s', h'). I (s', h') \<and> (\<exists>t. h' = h @ (q, Inr a) # t))
    (\<lambda>e (s', h'). I (s', h') \<and> (\<exists>t. h' = h @ (q, Inl e) # t)) (s, h)"
proof -
  have "I (snd (sys q (s, h)))" using assms by (auto simp: upholds_def)
  moreover obtain t where "snd (snd (sys q (s, h))) = h @ (q, fst (sys q (s, h))) # t"
    using assms(1) unfolding upholds_def recorded_def by blast
  ultimately show ?thesis by (cases "sys q (s, h)") (auto simp: wp_def split: sum.splits)
qed

lemma preserves_sys:
  assumes "upholds F sys" and "I \<in> F" and "\<And>s h r. I (s, h) \<Longrightarrow> I (s, h @ [(q, r)])"
  shows "preserves I (sys q)"
  using upholds_wp [OF assms(1,2)] assms(3) unfolding preserves_def
  by (fastforce elim: wp_mono)

lemma wp_discard: "wp (discard m) Q E = wp m (\<lambda>_. Q ()) (\<lambda>_. Q ())"
  by (simp add: discard_def wp_simps)

lemma preserves_discard: "preserves I m \<Longrightarrow> preserves I (discard m)"
  by (simp add: preserves_def wp_discard)

text \<open>The calls an operation makes are those of the boundary it was given\<close>

named_theorems oc_defs \<open>the operations of the handle and the adapter\<close>

lemmas [oc_defs] = bind_owned_pidfd_def validate_lifecycle_def bind_claimed_def bind_failed_def bind_open_def bind_confirm_def
  assert_handle_owner_def assert_consumer_def not_reentrant_def handle_entry_def in_state_def waitid_def decoded_def
  observe_exit_nonblocking_def reap_observed_exit_def close_taken_def close_pidfd_without_settlement_def close_reaped_pidfd_def
  bind_capture_child_adapter_def

lemmas ad_defs = ad_refuse_def ad_still_def ad_phase_def ad_identity_def claim_capture_def pidfd_owned_def cached_exit_def
  observe_or_cached_def validate_cached_def assert_current_no_callback_def enter_settlement_def bind_normal_completion_def
  enter_completed_settlement_def reap_cached_once_def enroll_descendant_def take_exact_leader_reap_def
  validate_transferred_reap_def on_adapter_def Let_def

lemma asks_perform:
  assumes "recorded sys"
  shows "asks UNIV (perform sys p)"
proof -
  note sys [asks_intros] = recorded_asks [OF assms]
  have owner: "asks UNIV (assert_handle_owner sys t)" for t unfolding assert_handle_owner_def by (intro asks_intros)
  have entry: "asks UNIV (handle_entry sys t k)" for t k
    unfolding handle_entry_def assert_consumer_def not_reentrant_def by (intro asks_intros owner)
  have adbegin: "asks UNIV (ad_begin sys t op allowed a c claimed)" for t op allowed a c claimed
    unfolding ad_begin_def ad_refuse_def ad_still_def by (intro asks_intros owner)
  have closing: "asks UNIV (close_taken sys f msg)" for f msg unfolding close_taken_def by (intro asks_intros)
  have observe: "asks UNIV (observe_exit_nonblocking sys t k)" for t k
    unfolding observe_exit_nonblocking_def in_state_def waitid_def decoded_def by (intro asks_intros entry)
  have reap: "asks UNIV (reap_observed_exit sys t k i)" for t k i
    unfolding reap_observed_exit_def in_state_def waitid_def decoded_def by (intro asks_intros entry)
  have binding: "asks UNIV (bind_owned_pidfd sys t e)" for t e
    unfolding bind_owned_pidfd_def validate_lifecycle_def bind_claimed_def bind_failed_def bind_open_def bind_confirm_def
    by (intro asks_intros)
  obtain t op where p: "p = (t, op)" by (cases p)
  show ?thesis unfolding p
    by (cases op; simp only: perform.simps discard_def;
      (unfold close_pidfd_without_settlement_def close_reaped_pidfd_def bind_capture_child_adapter_def ad_defs in_state_def
        spend_leader_reap_def)?; intro asks_intros owner entry adbegin closing observe reap binding)
qed

lemma perform_returns: "fst (perform sys p \<sigma>) = Inr ()"
  by (cases "(sys, p)" rule: perform.cases)
    (simp_all add: discard_def catch_def bnd_def ret_def spend_leader_reap_def writes_def split: prod.splits sum.splits)

lemma foreach_returns: "(\<And>x \<sigma>. fst (f x \<sigma>) = Inr ()) \<Longrightarrow> fst (foreach f xs \<sigma>) = Inr ()"
proof (induction xs arbitrary: \<sigma>)
  case (Cons x xs)
  obtain \<tau> where "f x \<sigma> = (Inr (), \<tau>)" using Cons.prems [of x \<sigma>] by (cases "f x \<sigma>") simp
  with Cons show ?case by (simp add: andthen_run)
qed (simp add: ret_def)

lemma sys_at_Suc:
  "sys_at \<beta> \<kappa> (Suc d) q (s, h) =
     (\<beta> h q, snd (foreach (perform (sys_at \<beta> \<kappa> d)) (\<kappa> h q) (s, h @ [(q, \<beta> h q)])))"
proof -
  have "fst (foreach (perform (sys_at \<beta> \<kappa> d)) ops \<sigma>) = Inr ()" for ops \<sigma> by (intro foreach_returns perform_returns)
  then obtain \<tau> where "foreach (perform (sys_at \<beta> \<kappa> d)) (\<kappa> h q) (s, h @ [(q, \<beta> h q)]) = (Inr (), \<tau>)"
    by (metis prod.collapse)
  then show ?thesis
    by (simp add: bnd_def captured_def call_def andthen_def lift_def ret_def raise_def split: sum.splits)
qed

lemma recorded_sys_at: "recorded (sys_at \<beta> \<kappa> d)"
proof (induction d)
  case 0
  show ?case by (simp add: recorded_def call_def)
next
  case (Suc d)
  have "\<exists>t. snd (snd (sys_at \<beta> \<kappa> (Suc d) q (s, h))) = h @ (q, \<beta> h q) # t" for q s h
  proof -
    have "asks UNIV (foreach (perform (sys_at \<beta> \<kappa> d)) (\<kappa> h q))" by (intro asks_foreach asks_perform Suc)
    then obtain t where "snd (snd (foreach (perform (sys_at \<beta> \<kappa> d)) (\<kappa> h q) (s, h @ [(q, \<beta> h q)]))) = (h @ [(q, \<beta> h q)]) @ t"
      by (metis asks_def snd_conv)
    then show ?thesis by (simp add: sys_at_Suc del: sys_at.simps)
  qed
  then show ?case unfolding recorded_def by (simp add: sys_at_Suc del: sys_at.simps)
qed

text \<open>A family kept by every operation over a boundary that respects it, is respected at every depth\<close>

locale reentrant =
  fixes F :: "oc_pred set"
  assumes perform_preserves: "upholds F sys \<Longrightarrow> I \<in> F \<Longrightarrow> preserves I (perform sys p)"
begin

lemma boundary: "upholds F (sys_at \<beta> \<kappa> d)"
proof (induction d)
  case 0
  show ?case unfolding upholds_def using recorded_sys_at [of \<beta> \<kappa> 0] by (simp add: call_def)
next
  case (Suc d)
  have step: "I (snd (sys_at \<beta> \<kappa> (Suc d) q (s, h)))" if "I \<in> F" "\<forall>r. I (s, h @ [(q, r)])" for I q s h
  proof -
    have "preserves I (foreach (perform (sys_at \<beta> \<kappa> d)) (\<kappa> h q))"
      by (intro preserves_foreach perform_preserves Suc that)
    with that show ?thesis by (simp add: sys_at_Suc preserves_snd del: sys_at.simps)
  qed
  show ?case unfolding upholds_def by (intro conjI recorded_sys_at ballI allI impI) (rule step)
qed

lemma run_keeps:
  assumes "I \<in> F" and "I \<sigma>"
  shows "I (snd (oc_run \<beta> \<kappa> d ops \<sigma>))"
proof -
  have "preserves I (oc_run \<beta> \<kappa> d ops)"
    unfolding oc_run_def by (rule preserves_foreach, rule perform_preserves [OF boundary assms(1)])
  then show ?thesis using assms(2) by (rule preserves_snd)
qed

end

end
