(* ===== verification/ChildSafety.thy ===== *)
theory ChildSafety
  imports OwnedChild
begin

text \<open>
  What holds of every use of an owned child, however its callers interleave and re-enter the
  operations: the descriptor discipline, the finality of a poisoned handle, the evidence behind
  receipts and the reap capability, and the closing of a descriptor whose binding failed.
\<close>

section \<open>The history of the descriptor\<close>

fun fd_call :: "os_call \<Rightarrow> bool" where
  "fd_call (OsPidfdOpen p) = True"
| "fd_call (OsProbe fd) = True"
| "fd_call (OsWaitid fd reaping) = True"
| "fd_call (OsClose fd) = True"
| "fd_call _ = False"

definition fd_calls :: "os_call hist \<Rightarrow> os_call list" where
  "fd_calls h = filter fd_call (asked h)"

definition opened :: "pyval \<Rightarrow> pyval \<Rightarrow> os_call hist \<Rightarrow> bool" where
  "opened p fd h \<longleftrightarrow> (OsPidfdOpen p, Inr fd) \<in> set h"

definition closed :: "os_call hist \<Rightarrow> bool" where
  "closed h \<longleftrightarrow> (\<exists>fd r. (OsClose fd, r) \<in> set h)"

definition reaped :: "os_call hist \<Rightarrow> bool" where
  "reaped h \<longleftrightarrow> (\<exists>fd r. (OsWaitid fd True, r) \<in> set h)"

text \<open>A terminal result for the process \<open>p\<close>\<close>

definition exit_of :: "pyval \<Rightarrow> pyval \<Rightarrow> string \<Rightarrow> bool" where
  "exit_of p v c \<longleftrightarrow> v \<noteq> PNone \<and> integer (fld v ''si_pid'') 1 \<and> pyeq (fld v ''si_pid'') p
   \<and> exit_class (fld v ''si_code'') (fld v ''si_status'') = Inr c"

text \<open>
  The process is opened once, before every other use of the descriptor; it is never used after a
  close and never waited for after a reap; a reap follows an observed exit; it is closed once.
\<close>

fun disc :: "pyval \<Rightarrow> os_call discipline" where
  "disc p h (OsPidfdOpen x) \<longleftrightarrow> x = p \<and> fd_calls h = []"
| "disc p h (OsProbe fd) \<longleftrightarrow> opened p fd h \<and> \<not> closed h \<and> \<not> reaped h"
| "disc p h (OsWaitid fd reaping) \<longleftrightarrow> opened p fd h \<and> \<not> closed h \<and> \<not> reaped h
    \<and> (reaping \<longrightarrow> (\<exists>fd v c. (OsWaitid fd False, Inr v) \<in> set h \<and> exit_of p v c))"
| "disc p h (OsClose fd) \<longleftrightarrow> opened p fd h \<and> \<not> closed h"
| "disc p h q \<longleftrightarrow> True"

definition matches_wait :: "receipt \<Rightarrow> pyval \<Rightarrow> bool" where
  "matches_wait r v \<longleftrightarrow> r_code r = fld v ''si_code'' \<and> r_status r = fld v ''si_status''"

definition backed :: "pyval \<Rightarrow> bool \<Rightarrow> os_call hist \<Rightarrow> receipt \<Rightarrow> bool" where
  "backed p reaping h r \<longleftrightarrow>
     r_pid r = p \<and> (\<exists>fd v. (OsWaitid fd reaping, Inr v) \<in> set h \<and> exit_of p v (r_class r) \<and> matches_wait r v)"

lemma snoc_facts [simp]:
  "fd_calls (h @ [(q, r)]) = fd_calls h @ (if fd_call q then [q] else [])"
  "opened p fd (h @ [(q, r)]) \<longleftrightarrow> opened p fd h \<or> (q = OsPidfdOpen p \<and> r = Inr fd)"
  "closed (h @ [(q, r)]) \<longleftrightarrow> closed h \<or> (\<exists>fd. q = OsClose fd)"
  "reaped (h @ [(q, r)]) \<longleftrightarrow> reaped h \<or> (\<exists>fd. q = OsWaitid fd True)"
  by (auto simp: fd_calls_def opened_def closed_def reaped_def)

lemma backed_append [simp]: "backed p b h r \<Longrightarrow> backed p b (h @ t) r"
  by (auto simp: backed_def)

section \<open>The predicates\<close>

definition live_states :: "string list" where
  "live_states = [''BOUND'', ''OBSERVING'', ''TERMINAL_OBSERVED_NOT_REAPED'', ''REAPING'', ''REAPED'']"

definition unreaped_states :: "string list" where
  "unreaped_states = [''BOUND'', ''OBSERVING'', ''TERMINAL_OBSERVED_NOT_REAPED'']"

definition leak_free :: "pyval \<Rightarrow> oc_pred" where
  "leak_free p \<sigma> \<longleftrightarrow> hd_made (fst \<sigma>) \<or> (\<forall>fd. opened p fd (snd \<sigma>) \<and> integer fd 0 \<longrightarrow> closed (snd \<sigma>))"

definition reap_cap_ok :: "pyval \<Rightarrow> oc_pred" where
  "reap_cap_ok p \<sigma> \<longleftrightarrow>
     (case ad_reap (fst \<sigma>) of None \<Rightarrow> True
      | Some rc \<Rightarrow> rc_receipt rc < length (oc_receipts (fst \<sigma>)) \<and> fld (rc_leader rc) ''pid'' = p
          \<and> backed p True (snd \<sigma>) (oc_receipts (fst \<sigma>) ! rc_receipt rc))"

definition handle_ok :: "pyval \<Rightarrow> oc_pred" where
  "handle_ok p \<sigma> \<longleftrightarrow>
     (hd_state (fst \<sigma>) \<in> set live_states \<longrightarrow> hd_made (fst \<sigma>) \<and> opened p (hd_pidfd (fst \<sigma>)) (snd \<sigma>) \<and> \<not> closed (snd \<sigma>))
   \<and> (hd_state (fst \<sigma>) \<in> set unreaped_states \<longrightarrow> \<not> reaped (snd \<sigma>))"

text \<open>\<open>b\<close>: no bind is in progress\<close>

definition sound :: "bool \<Rightarrow> pyval \<Rightarrow> oc_pred" where
  "sound b p \<sigma> \<longleftrightarrow>
     keeps (disc p) (snd \<sigma>) \<and> fld (fld (lc (fst \<sigma>)) ''owned_child'') ''pid'' = p
   \<and> (origin_claimed (fst \<sigma>) \<or> \<not> hd_made (fst \<sigma>) \<and> \<not> ad_made (fst \<sigma>) \<and> fd_calls (snd \<sigma>) = [])
    \<and> fld (hd_child (fst \<sigma>)) ''pid'' \<in> {PNone, p}
   \<and> handle_ok p \<sigma> \<and> list_all (backed p False (snd \<sigma>)) (oc_receipts (fst \<sigma>)) \<and> reap_cap_ok p \<sigma> \<and> (b \<longrightarrow> leak_free p \<sigma>)"

text \<open>Claimed, and no handle or a dead one: no further call on the descriptor\<close>

definition inert :: "bool \<Rightarrow> os_call list \<Rightarrow> oc_pred" where
  "inert b L \<sigma> \<longleftrightarrow>
     origin_claimed (fst \<sigma>) \<and> hd_made (fst \<sigma>) = b \<and> (if b then hd_stuck (hd_state (fst \<sigma>)) else \<not> ad_made (fst \<sigma>))
   \<and> fd_calls (snd \<sigma>) = L"

text \<open>Receipts are never lost\<close>

definition held :: "nat \<Rightarrow> receipt \<Rightarrow> oc_pred" where
  "held i r \<sigma> \<longleftrightarrow> i < length (oc_receipts (fst \<sigma>)) \<and> oc_receipts (fst \<sigma>) ! i = r"

definition child_preds :: "oc_pred set" where
  "child_preds = {sound b p |b p. True} \<union> {inert b L |b L. True} \<union> {held i r |i r. True}"

lemma child_preds [simp]: "sound b p \<in> child_preds" "inert b L \<in> child_preds" "held i r \<in> child_preds"
  by (auto simp: child_preds_def)

section \<open>Receipts\<close>

text \<open>A boundary that breaks none of the predicates\<close>

locale guarded =
  fixes sys :: boundary
  assumes upheld: "upholds child_preds sys"
begin

lemma held_sys: "preserves (held i r) (sys q)"
  by (rule preserves_sys [OF upheld]) (simp_all add: held_def)

lemma held_same: "(\<And>s. oc_receipts (f s) = oc_receipts s) \<Longrightarrow> preserves (held i r) (writes f)"
  by (rule preserves_writes) (simp add: held_def)

lemma held_more: "preserves (held i r) (writes (\<lambda>s. s\<lparr>oc_receipts := oc_receipts s @ [x], hd_observation := j\<rparr>))"
  by (rule preserves_writes) (simp add: held_def nth_append)

lemma held_perform: "preserves (held i r) (perform sys p)"
proof -
  note same = held_same held_more held_sys
  have owner: "preserves (held i r) (assert_handle_owner sys t)" for t
    unfolding assert_handle_owner_def by (intro preserves_intros same) (simp_all add: owner_changed_def hd_both_def)
  have entry: "preserves (held i r) (handle_entry sys t k)" for t k
    unfolding handle_entry_def assert_consumer_def not_reentrant_def
    by (intro preserves_intros same owner) (simp_all add: capture_violation_def hd_both_def)
  have adbegin: "preserves (held i r) (ad_begin sys t op allowed a c claimed)" for t op allowed a c claimed
    unfolding ad_begin_def ad_refuse_def ad_still_def
    by (intro preserves_intros same owner) (simp_all add: ad_poison_def capture_violation_def hd_both_def)
  have closing: "preserves (held i r) (close_taken sys f msg)" if "\<And>s. oc_receipts (f s) = oc_receipts s" for f msg
    unfolding close_taken_def by (intro preserves_intros same) (simp_all add: that)
  have observe: "preserves (held i r) (observe_exit_nonblocking sys t k)" for t k
    unfolding observe_exit_nonblocking_def in_state_def waitid_def decoded_def
    by (intro preserves_intros same entry) (simp_all add: hd_both_def)
  have reap: "preserves (held i r) (reap_observed_exit sys t k j)" for t k j
    unfolding reap_observed_exit_def in_state_def waitid_def decoded_def
    by (intro preserves_intros same entry) (simp_all add: hd_both_def)
  have binding: "preserves (held i r) (bind_owned_pidfd sys t e)" for t e
    unfolding bind_owned_pidfd_def validate_lifecycle_def bind_claimed_def bind_failed_def bind_open_def bind_confirm_def
    by (intro preserves_intros same) (simp_all add: make_handle_def)
  obtain t op where p: "p = (t, op)" by (cases p)
  show ?thesis unfolding p
    by (cases op; simp only: perform.simps discard_def;
      (unfold close_pidfd_without_settlement_def close_reaped_pidfd_def bind_capture_child_adapter_def ad_defs in_state_def
        spend_leader_reap_def)?; intro preserves_intros same owner entry adbegin closing observe reap binding;
      simp add: hd_both_def capture_violation_def ad_poison_def mint_leader_reap_def make_adapter_def split: option.split)
qed

end

section \<open>Inert states\<close>

lemma hd_stuck_states [simp]:
  "hd_stuck ''UNKNOWN_OWNER_CHANGED''" "hd_stuck ''UNKNOWN_CAPTURE_AUTHORITY_VIOLATION''" "hd_stuck ''UNKNOWN_REENTRANT_OPERATION''"
  by (simp_all add: hd_stuck_def is_unknown_def)

lemma inert_writes:
  "(\<And>s. origin_claimed (f s) = origin_claimed s \<and> hd_made (f s) = hd_made s \<and> ad_made (f s) = ad_made s
      \<and> (hd_state (f s) = hd_state s \<or> hd_stuck (hd_state (f s)))) \<Longrightarrow> preserves (inert b L) (writes f)"
proof (rule preserves_writes)
  fix s h
  assume *: "\<And>s. origin_claimed (f s) = origin_claimed s \<and> hd_made (f s) = hd_made s \<and> ad_made (f s) = ad_made s
      \<and> (hd_state (f s) = hd_state s \<or> hd_stuck (hd_state (f s)))" and "inert b L (s, h)"
  with * [of s] show "inert b L (f s, h)" unfolding inert_def fst_conv snd_conv by metis
qed

lemma inert_poison:
  "preserves (inert b L) (writes (ad_poison st))" "preserves (inert b L) (writes capture_violation)"
  by (rule inert_writes; simp add: ad_poison_def capture_violation_def hd_both_def)+

lemma inert_refuse: "aborts (inert b L) (ad_refuse st msg)"
  unfolding ad_refuse_def andthen_def by (rule aborts_second [OF inert_poison(1) aborts_raise])

lemma inert_refuse_kept: "preserves (inert b L) (ad_refuse st msg)"
  unfolding ad_refuse_def by (intro preserves_intros inert_poison)

lemma inert_owner: "aborts (inert b L) (assert_handle_owner sys t)"
  unfolding aborts_def assert_handle_owner_def by (auto simp: wp_simps inert_def split: if_splits)

lemma inert_entry: "aborts (inert b L) (handle_entry sys t k)"
  unfolding handle_entry_def by (rule aborts_andthen [OF inert_owner])

lemma inert_enter: "aborts (inert b L) m \<Longrightarrow> aborts (inert b L) (andthen (ad_enter st) m)"
  unfolding andthen_def by (rule aborts_second [OF inert_writes]) simp_all

lemma inert_begin: "aborts (inert b L) (ad_begin sys t op allowed a c claimed)"
  unfolding ad_begin_def
  by (intro aborts_reads aborts_demand aborts_if inert_refuse inert_enter inert_poison
      aborts_andthen [OF aborts_on_error [OF aborts_andthen [OF inert_owner]]])

context guarded
begin

lemma inert_identity: "preserves (inert b L) (sys OsIdentity)"
proof (rule preserves_sys [OF upheld])
  fix s h r
  assume "inert b L (s, h)"
  then show "inert b L (s, h @ [(OsIdentity, r)])"
    unfolding inert_def fst_conv snd_conv snoc_facts fd_call.simps if_False append_Nil2 .
qed simp

lemma inert_bind: "preserves (inert b L) (bind_owned_pidfd sys t e)"
proof -
  have "wp (reads (\<lambda>s. s)) (\<lambda>s. wp (lift (lifecycle_fresh s v)) (\<lambda>_ _. False) (\<lambda>_. inert b L)) (\<lambda>_. inert b L) \<sigma>"
    if "inert b L \<sigma>" for v \<sigma>
    using that by (auto simp: wp_simps lifecycle_fresh_def Let_def check_simps inert_def split: sum.splits)
  then have fresh: "aborts (inert b L) (bnd (reads (\<lambda>s. s)) (\<lambda>s. lift (lifecycle_fresh s v)))" for v
    by (auto simp: aborts_def wp_bnd)
  have "aborts (inert b L) (validate_lifecycle sys)"
    unfolding validate_lifecycle_def andthen_def
    by (rule aborts_reads, rule aborts_second [OF preserves_quiet(4)], rule aborts_second [OF inert_identity],
        rule aborts_second [OF preserves_quiet(4)], rule fresh)
  then have stop: "preserves (inert b L) (andthen (validate_lifecycle sys) m)" for m :: "unit oc_prog"
    by (rule preserves_aborts_andthen)
  have mark: "preserves (inert b L) (writes (set_lc st))" for st by (rule inert_writes) simp
  show ?thesis unfolding bind_owned_pidfd_def
    by (rule preserves_bnd [OF preserves_quiet(5)], rule preserves_if,
        rule preserves_andthen [OF mark preserves_quiet(2)], rule stop)
qed

lemma inert_perform: "preserves (inert b L) (perform sys p)"
proof -
  obtain t op where p: "p = (t, op)" by (cases p)
  show ?thesis unfolding p
    by (cases op; simp only: perform.simps observe_exit_nonblocking_def reap_observed_exit_def;
      (unfold close_pidfd_without_settlement_def close_reaped_pidfd_def bind_capture_child_adapter_def ad_defs
        spend_leader_reap_def)?;
      (rule inert_bind preserves_discard preserves_aborts_andthen [OF inert_entry] preserves_aborts_andthen [OF inert_owner]
         preserves_aborts_andthen [OF inert_begin] preserves_aborts_bnd [OF inert_begin] inert_poison preserves_intros
       | (rule inert_writes, simp; fail))+)
qed

end

section \<open>The main predicate\<close>

lemma unreaped_live: "st \<in> set unreaped_states \<Longrightarrow> st \<in> set live_states"
  by (auto simp: unreaped_states_def live_states_def)

lemma live_simps [simp]:
  "''BOUND'' \<in> set live_states" "''OBSERVING'' \<in> set live_states" "''TERMINAL_OBSERVED_NOT_REAPED'' \<in> set live_states"
  "''REAPING'' \<in> set live_states" "''REAPED'' \<in> set live_states" "''CLOSING'' \<notin> set live_states"
  "''REAPED_PIDFD_CLOSED'' \<notin> set live_states" "''REAPING'' \<notin> set unreaped_states" "''REAPED'' \<notin> set unreaped_states"
  "''BOUND'' \<in> set unreaped_states" "''OBSERVING'' \<in> set unreaped_states"
  "''TERMINAL_OBSERVED_NOT_REAPED'' \<in> set unreaped_states"
  by (simp_all add: live_states_def unreaped_states_def)

lemma stuck_not_live: "hd_stuck st \<Longrightarrow> st \<notin> set live_states"
  by (auto simp: hd_stuck_def is_unknown_def handle_dead_def live_states_def)

lemma stuck_more [simp]:
  "hd_stuck ''UNKNOWN_OBSERVE_OUTCOME''" "hd_stuck ''UNKNOWN_REAP_OUTCOME''" "hd_stuck ''PIDFD_CLOSE_UNKNOWN_UNSETTLED''"
  "hd_stuck ''CLOSED_UNSETTLED_UNKNOWN''" "hd_stuck ''REAPED_PIDFD_CLOSE_UNKNOWN''"
  by (simp_all add: hd_stuck_def is_unknown_def handle_dead_def)

lemma backed_all_append: "list_all (backed p b h) rs \<Longrightarrow> list_all (backed p b (h @ t)) rs"
  by (auto simp: list_all_iff)

lemma reap_cap_append: "reap_cap_ok p (s, h) \<Longrightarrow> reap_cap_ok p (s, h @ t)"
  by (auto simp: reap_cap_ok_def split: option.splits)

lemma sound_idle: "sound b p (s, h) \<Longrightarrow> \<not> fd_call q \<Longrightarrow> sound b p (s, h @ [(q, r)])"
  by (cases q) (auto simp: sound_def handle_ok_def leak_free_def backed_all_append reap_cap_append)

lemma opened_calls: "opened p fd h \<Longrightarrow> fd_calls h \<noteq> []"
  by (force simp: opened_def fd_calls_def asked_def filter_empty_conv)

lemma sound_live:
  "sound b p (s, h) \<Longrightarrow> hd_state s \<in> set live_states \<Longrightarrow> hd_made s \<and> opened p (hd_pidfd s) h \<and> \<not> closed h \<and> origin_claimed s"
  using opened_calls [of p "hd_pidfd s" h] by (auto simp: sound_def handle_ok_def)

lemma sound_unreaped: "sound b p (s, h) \<Longrightarrow> hd_state s \<in> set unreaped_states \<Longrightarrow> \<not> reaped h"
  by (simp add: sound_def handle_ok_def)

lemma sound_wait:
  assumes "sound b p (s, h)" and "hd_state s \<in> set unreaped_states"
  shows "sound b p (s, h @ [(OsWaitid (hd_pidfd s) False, r)])"
  using assms sound_live [OF assms(1) unreaped_live [OF assms(2)]] sound_unreaped [OF assms]
  by (simp add: sound_def handle_ok_def leak_free_def backed_all_append reap_cap_append)

lemma sound_reap:
  assumes "sound b p (s, h)" and "hd_state s = ''REAPING''" and "\<not> reaped h" and "x \<in> set (oc_receipts s)"
  shows "sound b p (s, h @ [(OsWaitid (hd_pidfd s) True, r)])"
proof -
  have "backed p False h x" using assms(1,4) by (simp add: sound_def list_all_iff)
  then have "\<exists>fd v c. (OsWaitid fd False, Inr v) \<in> set h \<and> exit_of p v c" by (auto simp: backed_def)
  then show ?thesis using assms sound_live [OF assms(1)]
    by (simp add: sound_def handle_ok_def leak_free_def backed_all_append reap_cap_append)
qed

lemma sound_close:
  "sound b p (s, h) \<Longrightarrow> origin_claimed s \<Longrightarrow> opened p fd h \<Longrightarrow> \<not> closed h \<Longrightarrow> hd_state s \<notin> set live_states
    \<Longrightarrow> sound b p (s, h @ [(OsClose fd, r)])"
  by (auto simp: sound_def handle_ok_def leak_free_def backed_all_append reap_cap_append dest: unreaped_live)

lemma decode_backed:
  assumes "decode_wait s v = Inr r" and "fld (hd_child s) ''pid'' \<in> {PNone, p}"
  shows "r_pid r = p" "exit_of p v (r_class r)" "matches_wait r v"
  using assms by (auto simp: decode_wait_def exit_of_def matches_wait_def check_simps checks_ok elim!: rbindE)

definition same_core :: "oc \<Rightarrow> oc \<Rightarrow> bool" where
  "same_core s s' \<longleftrightarrow>
     fld (fld (lc s') ''owned_child'') ''pid'' = fld (fld (lc s) ''owned_child'') ''pid''
   \<and> origin_claimed s' = origin_claimed s \<and> hd_made s' = hd_made s \<and> ad_made s' = ad_made s \<and> hd_child s' = hd_child s
   \<and> oc_receipts s' = oc_receipts s \<and> ad_reap s' = ad_reap s
   \<and> (hd_state s' = hd_state s \<and> hd_pidfd s' = hd_pidfd s \<or> hd_state s' \<notin> set live_states)"

lemma reap_cap_core:
  "reap_cap_ok p (s, h) \<Longrightarrow> ad_reap s' = ad_reap s \<Longrightarrow> oc_receipts s' = oc_receipts s \<Longrightarrow> reap_cap_ok p (s', h)"
  by (simp add: reap_cap_ok_def split: option.splits)

lemma handle_core:
  assumes "handle_ok p (s, h)" and "hd_made s' = hd_made s" and "hd_state s' = hd_state s \<and> hd_pidfd s' = hd_pidfd s \<or> hd_state s' \<notin> set live_states"
  shows "handle_ok p (s', h)"
  using assms unreaped_live [of "hd_state s'"] by (auto simp: handle_ok_def)

lemma sound_core:
  assumes "sound b p (s, h)" and "same_core s s'"
  shows "sound b p (s', h)"
proof -
  have "handle_ok p (s', h)" using assms handle_core [of p s h s'] by (simp add: sound_def same_core_def)
  moreover have "reap_cap_ok p (s', h)" using assms reap_cap_core [of p s h s'] by (simp add: sound_def same_core_def)
  ultimately show ?thesis using assms by (simp add: sound_def same_core_def leak_free_def)
qed

lemma sound_same: "(\<And>s. same_core s (f s)) \<Longrightarrow> preserves (sound b p) (writes f)"
  by (rule preserves_writes) (rule sound_core)

lemma same_core_simps [simp]:
  "hd_stuck st \<Longrightarrow> same_core s (hd_both st s)" "same_core s (capture_violation s)" "same_core s (owner_changed s)"
  "same_core s (ad_poison st' s)" "same_core s (s\<lparr>ad_state := st'\<rparr>)" "same_core s (set_lc st' s)"
  "hd_stuck st \<Longrightarrow> same_core s (s\<lparr>hd_state := st\<rparr>)"
  by (simp_all add: same_core_def hd_both_def capture_violation_def owner_changed_def ad_poison_def pyset_def stuck_not_live)

lemma sound_enter:
  assumes "sound b p (s, h)" and "hd_state s \<in> set live_states"
    and "st \<in> set unreaped_states \<Longrightarrow> hd_state s \<in> set unreaped_states"
  shows "sound b p (s\<lparr>hd_state := st\<rparr>, h)"
proof -
  have "handle_ok p (s\<lparr>hd_state := st\<rparr>, h)"
    using assms sound_live [OF assms(1,2)] sound_unreaped [OF assms(1)] by (auto simp: handle_ok_def)
  moreover have "reap_cap_ok p (s\<lparr>hd_state := st\<rparr>, h)" using assms(1) reap_cap_core [of p s h] by (simp add: sound_def)
  ultimately show ?thesis using assms(1) by (simp add: sound_def leak_free_def)
qed

context guarded
begin

lemma sound_quiet: "\<not> fd_call q \<Longrightarrow> preserves (sound b p) (sys q)"
  by (rule preserves_sys [OF upheld child_preds(1)]) (rule sound_idle)

lemma sound_owner: "preserves (sound b p) (assert_handle_owner sys t)"
  unfolding assert_handle_owner_def by (intro preserves_intros sound_same sound_quiet) simp_all

lemma sound_entry: "preserves (sound b p) (handle_entry sys t k)"
  unfolding handle_entry_def assert_consumer_def not_reentrant_def by (intro preserves_intros sound_same sound_owner) simp_all

lemma sound_begin: "preserves (sound b p) (ad_begin sys t op allowed a c claimed)"
  unfolding ad_begin_def ad_refuse_def ad_still_def by (intro preserves_intros sound_same sound_owner) simp_all

text \<open>A call that the predicate allows\<close>

lemma sound_sys:
  assumes "\<And>r. sound b p (s, h @ [(q, r)])"
  shows "wp (sys q) (\<lambda>a (s', h'). sound b p (s', h') \<and> (q, Inr a) \<in> set h') (\<lambda>_. sound b p) (s, h)"
  by (rule wp_mono [OF upholds_wp [OF upheld child_preds(1) assms]]) auto

lemma observe_sound: "preserves (sound b p) (observe_exit_nonblocking sys t k)"
proof -
  let ?rest = "\<lambda>v. if v = PNone then
       andthen (in_state [''OBSERVING''] ''observation state changed reentrantly'') (andthen (enter ''BOUND'') (ret None))
     else
       bnd (on_error (decoded v) (\<lambda>_. writes (hd_both ''UNKNOWN_OBSERVE_OUTCOME''))) (\<lambda>r.
       bnd (reads (\<lambda>s. length (oc_receipts s))) (\<lambda>i.
       andthen (writes (\<lambda>s. s\<lparr>oc_receipts := oc_receipts s @ [r], hd_observation := Some i\<rparr>))
       (andthen (in_state [''OBSERVING''] ''observation state changed reentrantly'')
       (andthen (enter ''TERMINAL_OBSERVED_NOT_REAPED'') (ret (Some i))))))"
  have again: "sound b p (s\<lparr>hd_state := st\<rparr>, h)"
    if "sound b p (s, h)" "hd_state s \<in> set unreaped_states" "st \<in> set unreaped_states" for s h st
    using that by (intro sound_enter unreaped_live)
  have more: "sound b p (s\<lparr>oc_receipts := oc_receipts s @ [r], hd_observation := i\<rparr>, h)"
    if "sound b p (s, h)" "(OsWaitid fd False, Inr v) \<in> set h" "decode_wait s v = Inr r" for s h r i v fd
    using that decode_backed [OF that(3), of p]
    by (auto simp: sound_def handle_ok_def leak_free_def reap_cap_ok_def backed_def nth_append split: option.splits)
  have rest: "wp (?rest v) (\<lambda>_. sound b p) (\<lambda>_. sound b p) (s, h)"
    if "sound b p (s, h)" "(OsWaitid fd False, Inr v) \<in> set h" for v s h fd
    using that again [of s h "''BOUND''"] more [of s h fd v]
      again [of "s\<lparr>oc_receipts := oc_receipts s @ [r], hd_observation := i\<rparr>" h "''TERMINAL_OBSERVED_NOT_REAPED''" for r i]
      sound_core [of b p s h "hd_both ''UNKNOWN_OBSERVE_OUTCOME'' s"]
    by (auto simp: wp_simps in_state_def decoded_def split: sum.splits)
  have wait: "wp (on_error (waitid sys False) (\<lambda>_. writes (hd_both ''UNKNOWN_OBSERVE_OUTCOME'')))
      (\<lambda>v. wp (?rest v) (\<lambda>_. sound b p) (\<lambda>_. sound b p)) (\<lambda>_. sound b p) (s, h)"
    if "sound b p (s, h)" "hd_state s \<in> set unreaped_states" for s h
    unfolding wp_on_error waitid_def wp_bnd wp_reads prod.case
  proof (rule wp_mono [OF sound_sys [OF sound_wait [OF that]]])
    fix v \<tau>
    assume "case \<tau> of (s', h') \<Rightarrow> sound b p (s', h') \<and> (OsWaitid (hd_pidfd s) False, Inr v) \<in> set h'"
    then show "wp (?rest v) (\<lambda>_. sound b p) (\<lambda>_. sound b p) \<tau>"
      by (cases \<tau>, simp only: prod.case, elim conjE, intro rest)
  qed (auto simp: wp_writes intro: sound_core)
  have "wp (andthen (in_state [''BOUND''] msg) (andthen (enter ''OBSERVING'')
     (bnd (on_error (waitid sys False) (\<lambda>_. writes (hd_both ''UNKNOWN_OBSERVE_OUTCOME''))) ?rest)))
     (\<lambda>_. sound b p) (\<lambda>_. sound b p) (s, h)" if "sound b p (s, h)" for s h msg
    using that wait [OF again [OF that, of "''OBSERVING''"]]
    by (simp add: wp_andthen wp_bnd in_state_def wp_reads wp_demand wp_writes)
  then show ?thesis
    unfolding observe_exit_nonblocking_def
    by (intro preserves_andthen [OF sound_entry]) (auto simp: preserves_def)
qed

end

section \<open>The reap\<close>

definition reap_report :: "pyval \<Rightarrow> nat \<Rightarrow> pyval \<Rightarrow> oc_pred" where
  "reap_report p i v \<sigma> \<longleftrightarrow>
     (\<exists>r. held i r \<sigma> \<and> backed p False (snd \<sigma>) r \<and> backed p True (snd \<sigma>) r
        \<and> fld v ''exit'' = PStr (r_class r) \<and> fld v ''status'' = r_status r)"

lemma sound_backed: "sound b p (s, h) \<Longrightarrow> held i r (s, h) \<Longrightarrow> backed p False h r"
  by (auto simp: sound_def held_def list_all_length)

lemma sound_reaped:
  assumes "sound b p (s, h)" and "hd_state s = ''REAPING''"
  shows "sound b p (set_lc ''OWNED_LEADER_REAPED_ONLY'' (s\<lparr>hd_state := ''REAPED''\<rparr>), h)"
  using assms sound_live [OF assms(1)] reap_cap_core [of p s h "set_lc ''OWNED_LEADER_REAPED_ONLY'' (s\<lparr>hd_state := ''REAPED''\<rparr>)"]
  by (simp add: sound_def handle_ok_def leak_free_def pyset_def)

lemma wp_in_stateI:
  "(hd_state s \<in> set A \<Longrightarrow> wp n Q E (s, h)) \<Longrightarrow> (hd_state s \<notin> set A \<Longrightarrow> E (Refusal msg) (s, h))
    \<Longrightarrow> wp (andthen (in_state A msg) n) Q E (s, h)"
  by (simp add: wp_andthen wp_bnd in_state_def wp_reads wp_demand)

context guarded
begin

lemma held_sys_wp: "held i r (s, h) \<Longrightarrow> wp (sys q) (\<lambda>_. held i r) (\<lambda>_. held i r) (s, h)"
  using preservesD [OF held_sys] .

lemma reap_wait:
  assumes "sound b p (s, h)" and "hd_state s = ''REAPING''" and "\<not> reaped h" and "held i r (s, h)"
  shows "wp (on_error
        (bnd (waitid sys True) (\<lambda>v. bnd (decoded v) (\<lambda>repeated.
         andthen (demand (repeated = r) msg) (in_state [''REAPING''] msg'))))
        (\<lambda>_. writes (hd_both ''UNKNOWN_REAP_OUTCOME'')))
      (\<lambda>_ (s', h'). sound b p (s', h') \<and> held i r (s', h') \<and> backed p True h' r \<and> hd_state s' = ''REAPING'') (\<lambda>_. sound b p) (s, h)"
    (is "wp _ ?Q _ _")
proof -
  from assms(4) have mem: "r \<in> set (oc_receipts s)" by (auto simp: held_def)
  have last: "wp (bnd (decoded v) (\<lambda>repeated. andthen (demand (repeated = r) msg) (in_state [''REAPING''] msg'))) ?Q
      (\<lambda>e. wp (writes (hd_both ''UNKNOWN_REAP_OUTCOME'')) (\<lambda>_. sound b p) (\<lambda>_. sound b p)) (s', h')"
    if "sound b p (s', h')" "(OsWaitid (hd_pidfd s) True, Inr v) \<in> set h'" "held i r (s', h')" for v s' h'
  proof -
    have "fld (hd_child s') ''pid'' \<in> {PNone, p}" using that(1) by (simp add: sound_def)
    then have "backed p True h' r" if "decode_wait s' v = Inr r"
      using decode_backed [OF that] \<open>_ \<in> set h'\<close> unfolding backed_def by blast
    moreover have "sound b p (hd_both ''UNKNOWN_REAP_OUTCOME'' s', h')" by (rule sound_core [OF that(1)]) simp
    ultimately show ?thesis using that(1,3) by (auto simp: wp_simps decoded_def in_state_def split: sum.split)
  qed
  show ?thesis
    unfolding wp_on_error waitid_def wp_bnd [of "bnd _ _"] wp_bnd [of "reads _"] wp_bnd [of "sys _"] wp_reads prod.case
  proof (rule wp_mono [OF wp_conj [OF sound_sys [OF sound_reap [OF assms(1-3) mem]] held_sys_wp [OF assms(4)]]])
    fix v \<tau>
    assume "(case \<tau> of (s', h') \<Rightarrow> sound b p (s', h') \<and> (OsWaitid (hd_pidfd s) True, Inr v) \<in> set h') \<and> held i r \<tau>"
    then show "wp (bnd (decoded v) (\<lambda>repeated. andthen (demand (repeated = r) msg) (in_state [''REAPING''] msg'))) ?Q
      (\<lambda>e. wp (writes (hd_both ''UNKNOWN_REAP_OUTCOME'')) (\<lambda>_. sound b p) (\<lambda>_. sound b p)) \<tau>"
      by (cases \<tau>, simp only: prod.case, elim conjE, intro last)
  qed (auto simp: wp_writes intro: sound_core)
qed

lemma reap_sound:
  assumes "sound b p \<sigma>"
  shows "wp (reap_observed_exit sys t k i) (\<lambda>v \<tau>. sound b p \<tau> \<and> reap_report p i v \<tau>) (\<lambda>_. sound b p) \<sigma>"
  unfolding reap_observed_exit_def wp_andthen [of "handle_entry sys t k"]
proof (rule wp_mono [OF preservesD [OF sound_entry assms]])
  fix \<tau> :: "oc \<times> os_call hist"
  assume snd: "sound b p \<tau>"
  obtain s h where \<tau>: "\<tau> = (s, h)" by (cases \<tau>)
  let ?s = "s\<lparr>hd_state := ''REAPING''\<rparr>"
  have core: "wp (on_error
        (bnd (waitid sys True) (\<lambda>v. bnd (decoded v) (\<lambda>repeated.
         andthen (demand (repeated = oc_receipts s ! i) ''reap result changed after WNOWAIT'')
         (in_state [''REAPING''] ''reap state changed reentrantly''))))
        (\<lambda>_. writes (hd_both ''UNKNOWN_REAP_OUTCOME'')))
      (\<lambda>_ (s', h'). sound b p (s', h') \<and> held i (oc_receipts s ! i) (s', h') \<and> backed p True h' (oc_receipts s ! i)
         \<and> hd_state s' = ''REAPING'') (\<lambda>_. sound b p) (?s, h)"
    if "hd_state s = ''TERMINAL_OBSERVED_NOT_REAPED''" "i < length (oc_receipts s)"
  proof (rule reap_wait)
    show "sound b p (?s, h)"
      using snd that(1) by (intro sound_enter) (simp_all add: \<tau>)
    show "\<not> reaped h" using snd that(1) sound_unreaped [of b p s h] by (simp add: \<tau>)
    show "held i (oc_receipts s ! i) (?s, h)" using that(2) by (simp add: held_def)
  qed simp
  have report: "reap_report p i (PDict ([(''classification'', c), (''exit'', PStr (r_class r)), (''status'', r_status r)] @ l))
      (set_lc st (s'\<lparr>hd_state := st'\<rparr>), h')" if "sound b p (s', h')" "held i r (s', h')" "backed p True h' r" for c l r st st' s' h'
  proof -
    have "held i r (set_lc st (s'\<lparr>hd_state := st'\<rparr>), h')" using that(2) by (simp add: held_def)
    then show ?thesis unfolding reap_report_def snd_conv
      using sound_backed [OF that(1,2)] that(3) by (intro exI [of _ r]) simp
  qed
  show "wp (andthen (in_state [''TERMINAL_OBSERVED_NOT_REAPED''] ''reap state'')
     (bnd (reads (\<lambda>s. s)) (\<lambda>s.
     andthen (demand (i < length (oc_receipts s) \<and> hd_observation s = Some i) ''foreign exit receipt'')
     (andthen (enter ''REAPING'')
     (andthen (on_error
        (bnd (waitid sys True) (\<lambda>v.
         bnd (decoded v) (\<lambda>repeated.
         andthen (demand (repeated = oc_receipts s ! i) ''reap result changed after WNOWAIT'')
         (in_state [''REAPING''] ''reap state changed reentrantly''))))
        (\<lambda>_. writes (hd_both ''UNKNOWN_REAP_OUTCOME'')))
     (andthen (writes (\<lambda>s. set_lc ''OWNED_LEADER_REAPED_ONLY'' (s\<lparr>hd_state := ''REAPED''\<rparr>)))
     (ret (PDict ([(''classification'', PStr ''OWNED_LEADER_REAPED_ONLY''), (''exit'', PStr (r_class (oc_receipts s ! i))),
        (''status'', r_status (oc_receipts s ! i))] @ oc_limits)))))))))
     (\<lambda>v \<tau>. sound b p \<tau> \<and> reap_report p i v \<tau>) (\<lambda>_. sound b p) \<tau>"
    unfolding \<tau>
  proof (rule wp_in_stateI, rule wp_readsI, rule wp_demandI, rule wp_writesI, rule wp_andthenI, rule core)
    fix \<upsilon> :: "oc \<times> os_call hist"
    assume "case \<upsilon> of (s', h') \<Rightarrow> sound b p (s', h') \<and> held i (oc_receipts s ! i) (s', h')
      \<and> backed p True h' (oc_receipts s ! i) \<and> hd_state s' = ''REAPING''"
    then show "wp (andthen (writes (\<lambda>s. set_lc ''OWNED_LEADER_REAPED_ONLY'' (s\<lparr>hd_state := ''REAPED''\<rparr>)))
     (ret (PDict ([(''classification'', PStr ''OWNED_LEADER_REAPED_ONLY''), (''exit'', PStr (r_class (oc_receipts s ! i))),
        (''status'', r_status (oc_receipts s ! i))] @ oc_limits))))
       (\<lambda>v \<tau>. sound b p \<tau> \<and> reap_report p i v \<tau>) (\<lambda>_. sound b p) \<upsilon>"
      by (cases \<upsilon>, simp only: prod.case wp_andthen wp_writes wp_ret, elim conjE, intro conjI sound_reaped report)
  qed (use snd in \<open>simp_all add: \<tau>\<close>)
qed

end

section \<open>Closing, and the adapter\<close>

lemma sound_reap_cap:
  assumes "sound b p (s, h)" and "reap_cap_ok p (ad_reap_update f s, h)"
  shows "sound b p (ad_reap_update f s, h)"
  using assms by (simp add: sound_def handle_ok_def leak_free_def)

lemma sound_adapter:
  assumes "sound b p (s, h)" and "origin_claimed s"
  shows "sound b p (make_adapter t s, h)"
proof -
  have "sound b p (s\<lparr>ad_reap := None, ad_made := True\<rparr>, h)"
    using assms by (simp add: sound_def handle_ok_def leak_free_def reap_cap_ok_def)
  moreover have "same_core (s\<lparr>ad_reap := None, ad_made := True\<rparr>) (make_adapter t s)" by (simp add: same_core_def make_adapter_def)
  ultimately show ?thesis by (rule sound_core)
qed

lemma sound_spend: "preserves (sound b p) spend_leader_reap"
  unfolding spend_leader_reap_def
  by (rule preserves_writes, rule sound_reap_cap) (auto simp: sound_def reap_cap_ok_def split: option.splits)

lemma sound_mint:
  assumes "sound b p (s, h)" and "held i r (s, h)" and "backed p True h r"
  shows "sound b p (mint_leader_reap t i s, h)"
proof (cases "ad_binding s")
  case (Some x)
  have "r_pid r = p" using assms(3) by (simp add: backed_def)
  then show ?thesis unfolding mint_leader_reap_def Some option.case
    using assms by (intro sound_reap_cap) (auto simp: reap_cap_ok_def held_def)
qed (simp add: mint_leader_reap_def assms(1))

context guarded
begin

lemma close_sound:
  assumes "sound b p (s, h)" and "hd_state s \<in> set live_states" and f: "\<And>s. same_core s (f s)"
  shows "wp (close_taken sys f msg) (\<lambda>_. sound b p) (\<lambda>_. sound b p) (s, h)"
proof -
  let ?s = "s\<lparr>hd_pidfd := PNone, hd_state := ''CLOSING''\<rparr>"
  have "sound b p (?s, h)" by (rule sound_core [OF assms(1)]) (simp add: same_core_def)
  then have closing: "wp (sys (OsClose (hd_pidfd s))) (\<lambda>_. sound b p) (\<lambda>_. sound b p) (?s, h)"
    using sound_live [OF assms(1,2)] by (intro wp_mono [OF sound_sys [OF sound_close]]) auto
  have tail: "preserves (sound b p) (bnd (reads hd_state) (\<lambda>st.
     if st \<noteq> ''CLOSING'' then andthen (writes (\<lambda>s. set_lc ''UNKNOWN_REENTRANT_OPERATION'' s)) (raise (Refusal msg))
     else ret ()))" by (intro preserves_intros sound_same) simp
  have failing: "preserves (sound b p) (writes f)" by (rule sound_same [OF f])
  show ?thesis unfolding close_taken_def
  proof (rule wp_readsI, rule wp_writesI, rule wp_bndI [where R = "\<lambda>_. sound b p"])
    show "wp (on_error (sys (OsClose (hd_pidfd s))) (\<lambda>_. writes f)) (\<lambda>_. sound b p) (\<lambda>_. sound b p) (?s, h)"
      unfolding wp_on_error by (rule wp_mono [OF closing]) (assumption, rule preservesD [OF failing])
  qed (rule preservesD [OF tail])
qed

lemma closes_sound:
  "preserves (sound b p) (close_pidfd_without_settlement sys t k)" "preserves (sound b p) (close_reaped_pidfd sys t k)"
proof -
  have a: "same_core s (s\<lparr>hd_state := ''REAPED_PIDFD_CLOSED''\<rparr>)" for s by (simp add: same_core_def)
  have "wp (andthen (in_state [''BOUND'', ''TERMINAL_OBSERVED_NOT_REAPED''] msg)
     (andthen (close_taken sys (hd_both ''PIDFD_CLOSE_UNKNOWN_UNSETTLED'') msg')
     (andthen (writes (hd_both ''CLOSED_UNSETTLED_UNKNOWN'')) (ret v)))) (\<lambda>_. sound b p) (\<lambda>_. sound b p) (s, h)"
    if "sound b p (s, h)" for s h msg msg' and v :: pyval
    using that
    by (intro wp_in_stateI wp_andthenI [OF close_sound] preservesD [where I = "sound b p"] preserves_andthen preserves_quiet sound_same)
      auto
  then show "preserves (sound b p) (close_pidfd_without_settlement sys t k)"
    unfolding close_pidfd_without_settlement_def by (intro preserves_andthen [OF sound_entry]) (auto simp: preserves_def)
  have "wp (bnd (reads (\<lambda>s. s)) (\<lambda>s.
     andthen (demand (hd_state s = ''REAPED'' \<and> fld (lc s) ''state'' = PStr ''OWNED_LEADER_REAPED_ONLY'') msg)
     (andthen (close_taken sys (hd_state_update (\<lambda>_. ''REAPED_PIDFD_CLOSE_UNKNOWN'')) msg')
     (andthen (enter ''REAPED_PIDFD_CLOSED'') (ret v))))) (\<lambda>_. sound b p) (\<lambda>_. sound b p) (s, h)"
    if "sound b p (s, h)" for s h msg msg' and v :: pyval
    using that
    by (intro wp_readsI wp_demandI wp_andthenI [OF close_sound] preservesD [where I = "sound b p"] preserves_andthen preserves_quiet sound_same)
      (auto simp: a)
  then show "preserves (sound b p) (close_reaped_pidfd sys t k)"
    unfolding close_reaped_pidfd_def by (intro preserves_andthen [OF sound_entry]) (auto simp: preserves_def)
qed

end

context guarded
begin

lemma reap_once_sound: "preserves (sound b p) (reap_cached_once sys t a c cw)"
proof -
  have still: "preserves (sound b p) (ad_still st msg)" for st msg unfolding ad_still_def by (intro preserves_intros)
  have reaping: "wp (on_error
        (bnd (reap_observed_exit sys t True i) (\<lambda>v. andthen (ad_still ''REAPING'' msg) (ret v)))
        (\<lambda>_. writes (ad_poison ''UNKNOWN_REAP''))) (\<lambda>v \<tau>. sound b p \<tau> \<and> reap_report p i v \<tau>) (\<lambda>_. sound b p) \<sigma>"
    if "sound b p \<sigma>" for i \<sigma> msg
  proof -
    have "wp (bnd (reap_observed_exit sys t True i) (\<lambda>v. andthen (ad_still ''REAPING'' msg) (ret v)))
        (\<lambda>v \<tau>. sound b p \<tau> \<and> reap_report p i v \<tau>) (\<lambda>_. sound b p) \<sigma>"
      by (rule wp_bndI [OF reap_sound [OF that]]) (auto simp: ad_still_def wp_simps)
    then show ?thesis unfolding wp_on_error by (rule wp_mono) (auto simp: wp_writes intro: sound_core)
  qed
  have mint: "wp (writes (mint_leader_reap t i)) (\<lambda>_. sound b p) (\<lambda>_. sound b p) \<tau>"
    if "sound b p \<tau> \<and> reap_report p i v \<tau>" for i v \<tau>
    using that sound_mint [of b p "fst \<tau>" "snd \<tau>" i _ t] by (cases \<tau>) (auto simp: wp_writes reap_report_def)
  have tail: "preserves (sound b p) (andthen (ad_enter ''REAPED'') (bnd (reads f) (\<lambda>r. ret (g r))))"
    for f :: "oc \<Rightarrow> receipt" and g :: "receipt \<Rightarrow> pyval"
    by (intro preserves_intros sound_same) simp
  have core: "preserves (sound b p) (bnd (on_error
        (bnd (reap_observed_exit sys t True i) (\<lambda>v. andthen (ad_still ''REAPING'' msg) (ret v)))
        (\<lambda>_. writes (ad_poison ''UNKNOWN_REAP''))) (\<lambda>v.
       andthen (writes (mint_leader_reap t i)) (andthen (ad_enter ''REAPED'') (bnd (reads f) (\<lambda>r. ret (g v r))))))"
    for i msg and f :: "oc \<Rightarrow> receipt" and g :: "pyval \<Rightarrow> receipt \<Rightarrow> pyval"
    unfolding preserves_def
    by (intro allI impI, rule wp_bndI [OF reaping], assumption, rule wp_andthenI [OF mint], assumption, rule preservesD [OF tail])
  have phase: "preserves (sound b p) (ad_phase x msg)" for x msg
    unfolding ad_phase_def ad_refuse_def by (intro preserves_intros sound_same) simp
  show ?thesis
    unfolding reap_cached_once_def
    by (rule preserves_andthen [OF sound_begin], rule preserves_andthen [OF phase], rule preserves_bnd [OF preserves_quiet(5)],
        rule preserves_andthen [OF preserves_quiet(3)], rule preserves_andthen [OF preserves_quiet(3)], rule core)
qed

end

section \<open>Binding\<close>

lemma closed_calls: "closed h \<longleftrightarrow> (\<exists>fd. OsClose fd \<in> set (fd_calls h))"
  by (force simp: closed_def fd_calls_def asked_def)

lemma reaped_calls: "reaped h \<longleftrightarrow> (\<exists>fd. OsWaitid fd True \<in> set (fd_calls h))"
  by (force simp: reaped_def fd_calls_def asked_def)

lemma opened_once:
  assumes "h' = h @ (q, r) # t" and "fd_calls h = []" and "length (fd_calls h') \<le> 1" and "fd_call q"
  shows "opened p fd h' \<longleftrightarrow> q = OsPidfdOpen p \<and> r = Inr fd"
proof -
  have "fd_calls t = []" using assms by (simp add: fd_calls_def asked_def filter_map)
  then have "\<not> opened p fd t" "\<not> opened p fd h" using assms(2) opened_calls by blast+
  then show ?thesis using assms(1) by (auto simp: opened_def)
qed

text \<open>In the middle of a bind: the descriptor calls made so far are exactly \<open>L\<close>\<close>

definition mid :: "pyval \<Rightarrow> os_call list \<Rightarrow> oc_pred" where
  "mid p L \<sigma> \<longleftrightarrow> sound False p \<sigma> \<and> inert False L \<sigma>"

definition unopened :: "pyval \<Rightarrow> oc_pred" where
  "unopened p \<sigma> \<longleftrightarrow> (\<exists>L. mid p L \<sigma>) \<and> (\<forall>fd. opened p fd (snd \<sigma>) \<longrightarrow> \<not> integer fd 0)"

definition open_mid :: "pyval \<Rightarrow> pyval \<Rightarrow> oc_pred" where
  "open_mid p fd \<sigma> \<longleftrightarrow> (\<exists>L. mid p L \<sigma> \<and> set L \<subseteq> {OsPidfdOpen p, OsProbe fd}) \<and> opened p fd (snd \<sigma>)"

lemma mid_nil: "mid p [] \<sigma> \<Longrightarrow> unopened p \<sigma>"
  using opened_calls by (auto simp: unopened_def mid_def inert_def)

lemma mid_writes: "mid p L (s, h) \<Longrightarrow> same_core s s' \<Longrightarrow> mid p L (s', h)"
  using sound_core [of False p s h s'] by (auto simp: mid_def inert_def same_core_def)

lemma sound_weaken: "sound True p \<sigma> \<Longrightarrow> sound b p \<sigma>"
  by (simp add: sound_def)

lemma sound_strong: "sound False p \<sigma> \<Longrightarrow> leak_free p \<sigma> \<Longrightarrow> sound True p \<sigma>"
  by (simp add: sound_def)

lemma sound_mid:
  assumes "mid p L (s, h)" and "disc p h q"
  shows "sound False p (s, h @ [(q, r)])"
  using assms
  by (auto simp: mid_def inert_def sound_def handle_ok_def backed_all_append reap_cap_append dest: unreaped_live)

context guarded
begin

lemma mid_sys:
  assumes "mid p L (s, h)" and "disc p h q" and L': "L' = L @ (if fd_call q then [q] else [])"
  shows "wp (sys q)
     (\<lambda>a (s', h'). mid p L' (s', h') \<and> (\<exists>t. h' = h @ (q, Inr a) # t)) (\<lambda>e (s', h'). mid p L' (s', h') \<and> (\<exists>t. h' = h @ (q, Inl e) # t)) (s, h)"
proof -
  have i: "inert False L' (s, h @ [(q, r)])" for r using assms(1) by (simp add: mid_def inert_def L')
  show ?thesis
    by (rule wp_mono [OF wp_conj [OF upholds_wp [OF upheld child_preds(1) sound_mid [OF assms(1,2)]] upholds_wp [OF upheld child_preds(2) i]]])
      (auto simp: mid_def)
qed

lemma bind_failed_sound:
  assumes "case fdo of None \<Rightarrow> unopened p \<sigma> | Some fd \<Rightarrow> open_mid p fd \<sigma>"
  shows "wp (bind_failed sys start fdo) (\<lambda>_. sound True p) (\<lambda>_. sound True p) \<sigma>"
proof -
  obtain s h where \<sigma>: "\<sigma> = (s, h)" by (cases \<sigma>)
  let ?t = "lc_update (\<lambda>v. pyset ''owned_child'' (pyset ''starttime'' start (fld v ''owned_child'')) v) (set_lc ''UNKNOWN_CHILD_MAY_EXIST'' s)"
  have core: "same_core s ?t" by (simp add: same_core_def pyset_def)
  show ?thesis
  proof (cases fdo)
    case None
    with assms obtain L where "mid p L (?t, h)" "\<forall>fd. opened p fd h \<longrightarrow> \<not> integer fd 0"
      using mid_writes [OF _ core] by (auto simp: \<sigma> unopened_def)
    then have "sound True p (?t, h)" by (intro sound_strong) (auto simp: mid_def leak_free_def)
    then show ?thesis by (simp add: None \<sigma> bind_failed_def wp_simps)
  next
    case (Some fd)
    with assms obtain L where L: "mid p L (?t, h)" "set L \<subseteq> {OsPidfdOpen p, OsProbe fd}" "opened p fd h"
      using mid_writes [OF _ core] by (auto simp: \<sigma> open_mid_def)
    then have "disc p h (OsClose fd)" by (auto simp: mid_def inert_def closed_calls)
    moreover have "sound True p \<tau>" if "mid p (L @ [OsClose fd]) \<tau>" for \<tau>
      using that by (auto simp: mid_def sound_def leak_free_def inert_def closed_calls)
    ultimately have "wp (sys (OsClose fd)) (\<lambda>_. sound True p) (\<lambda>_. sound True p) (?t, h)"
      by (intro wp_mono [OF mid_sys [OF L(1) _ refl]]) auto
    then show ?thesis by (simp add: Some \<sigma> bind_failed_def wp_simps)
  qed
qed

end

lemma handle_opened:
  assumes "open_mid p fd (s, h)"
  shows "sound True p (make_handle t p start launcher fd s, h)"
proof -
  obtain L where L: "sound False p (s, h)" "inert False L (s, h)" "set L \<subseteq> {OsPidfdOpen p, OsProbe fd}" and op: "opened p fd h"
    using assms by (auto simp: open_mid_def mid_def)
  then have "\<not> closed h" "\<not> reaped h" by (auto simp: closed_calls reaped_calls inert_def)
  with op have "handle_ok p (make_handle t p start launcher fd s, h)" by (simp add: handle_ok_def make_handle_def)
  moreover have "reap_cap_ok p (make_handle t p start launcher fd s, h)"
    using L(1) reap_cap_core [of p s h] by (simp add: sound_def make_handle_def)
  ultimately show ?thesis
    using L(1,2) by (simp add: sound_def make_handle_def pyset_def leak_free_def inert_def)
qed

context guarded
begin

lemma open_preserved: "q = OsProbe fd \<or> \<not> fd_call q \<Longrightarrow> preserves (open_mid p fd) (sys q)"
  unfolding preserves_def
proof (intro allI impI)
  fix \<sigma> :: "oc \<times> os_call hist"
  assume q: "q = OsProbe fd \<or> \<not> fd_call q" and mid: "open_mid p fd \<sigma>"
  obtain s h where \<sigma>: "\<sigma> = (s, h)" by (cases \<sigma>)
  obtain L where L: "mid p L (s, h)" "set L \<subseteq> {OsPidfdOpen p, OsProbe fd}" "opened p fd h"
    using mid by (auto simp: open_mid_def \<sigma>)
  then have "disc p h q" using q by (cases q) (auto simp: mid_def inert_def closed_calls reaped_calls)
  then have "wp (sys q) (\<lambda>a (s', h'). mid p (L @ (if fd_call q then [q] else [])) (s', h') \<and> (\<exists>t. h' = h @ (q, Inr a) # t))
      (\<lambda>e (s', h'). mid p (L @ (if fd_call q then [q] else [])) (s', h') \<and> (\<exists>t. h' = h @ (q, Inl e) # t)) (s, h)"
    using L(1) by (intro mid_sys) simp_all
  moreover have "open_mid p fd (s', h')" if "mid p (L @ (if fd_call q then [q] else [])) (s', h')" "h' = h @ t" for s' h' t
    using that L(2,3) q by (auto simp: open_mid_def opened_def intro!: exI [of _ "L @ (if fd_call q then [q] else [])"])
  ultimately show "wp (sys q) (\<lambda>_. open_mid p fd) (\<lambda>_. open_mid p fd) \<sigma>"
    unfolding \<sigma> by (elim wp_mono) blast+
qed

lemma confirm_opened: "preserves (open_mid p fd) (bind_confirm sys p start launcher fd)"
  unfolding bind_confirm_def by (intro preserves_intros open_preserved) simp_all

lemma open_wp:
  assumes "mid p [] \<sigma>"
  shows "wp (bind_open sys p expected start) (\<lambda>x. open_mid p (snd x)) (\<lambda>_. unopened p) \<sigma>"
proof -
  have quiet: "wp (sys (OsLauncher p)) (\<lambda>_. mid p []) (\<lambda>_. unopened p) \<tau>" if "mid p [] \<tau>" for \<tau>
  proof -
    obtain s h where \<tau>: "\<tau> = (s, h)" by (cases \<tau>)
    show ?thesis unfolding \<tau> by (rule wp_mono [OF mid_sys [of p "[]" s h _ "[]"]]) (use that in \<open>auto simp: \<tau> intro: mid_nil\<close>)
  qed
  have opens: "wp (sys (OsPidfdOpen p)) (\<lambda>fd \<upsilon>. mid p [OsPidfdOpen p] \<upsilon> \<and> (\<forall>x. opened p x (snd \<upsilon>) \<longleftrightarrow> x = fd)) (\<lambda>_. unopened p) \<tau>"
    if m: "mid p [] \<tau>" for \<tau>
  proof -
    obtain s h where \<tau>: "\<tau> = (s, h)" by (cases \<tau>)
    have nil: "fd_calls h = []" using m by (simp add: \<tau> mid_def inert_def)
    have one: "opened p x h' \<longleftrightarrow> r = Inr x" if "mid p [OsPidfdOpen p] (s', h')" "h' = h @ (OsPidfdOpen p, r) # t" for s' h' r t x
      using that opened_once [OF that(2) nil] by (simp add: mid_def inert_def)
    show ?thesis unfolding \<tau>
    proof (rule wp_mono [OF mid_sys [of p "[]" s h "OsPidfdOpen p" "[OsPidfdOpen p]"]])
      fix fd \<upsilon>
      assume "case \<upsilon> of (s', h') \<Rightarrow> mid p [OsPidfdOpen p] (s', h') \<and> (\<exists>t. h' = h @ (OsPidfdOpen p, Inr fd) # t)"
      then obtain s' h' t where u: "\<upsilon> = (s', h')" "mid p [OsPidfdOpen p] (s', h')" "h' = h @ (OsPidfdOpen p, Inr fd) # t"
        by (cases \<upsilon>) auto
      show "mid p [OsPidfdOpen p] \<upsilon> \<and> (\<forall>x. opened p x (snd \<upsilon>) \<longleftrightarrow> x = fd)"
        using u(2) one [OF u(2,3)] unfolding u(1) snd_conv by (metis sum.inject(2))
    next
      fix e \<upsilon>
      assume "case \<upsilon> of (s', h') \<Rightarrow> mid p [OsPidfdOpen p] (s', h') \<and> (\<exists>t. h' = h @ (OsPidfdOpen p, Inl e) # t)"
      then obtain s' h' t where u: "\<upsilon> = (s', h')" "mid p [OsPidfdOpen p] (s', h')" "h' = h @ (OsPidfdOpen p, Inl e) # t"
        by (cases \<upsilon>) auto
      show "unopened p \<upsilon>" using u(2) one [OF u(2,3)] unfolding unopened_def u(1) snd_conv by (metis sum.distinct(1))
    qed (use m in \<open>simp_all add: \<tau> nil\<close>)
  qed
  have checked: "wp (andthen (demand (integer fd 0) msg) (ret (launcher, fd))) (\<lambda>x. open_mid p (snd x)) (\<lambda>_. unopened p) \<upsilon>"
    if "mid p [OsPidfdOpen p] \<upsilon> \<and> (\<forall>x. opened p x (snd \<upsilon>) \<longleftrightarrow> x = fd)" for fd launcher msg \<upsilon>
    using that by (auto simp: wp_simps open_mid_def unopened_def)
  show ?thesis unfolding bind_open_def
    by (rule wp_demandI, rule wp_bndI [OF quiet], rule assms, rule wp_liftI, rule wp_demandI, rule wp_bndI [OF opens], assumption,
        rule checked, assumption) (auto intro: mid_nil assms)
qed

lemma claimed_sound:
  assumes "mid p [] \<sigma>"
  shows "wp (bind_claimed sys t expected p) (\<lambda>_. sound True p) (\<lambda>_. sound True p) \<sigma>"
proof -
  have starting: "wp (on_error (sys (OsStarttime p)) (\<lambda>_. bind_failed sys PNone None)) (\<lambda>_. mid p []) (\<lambda>_. sound True p) \<sigma>"
  proof (rule wp_on_errorI [where R = "\<lambda>_. unopened p"])
    obtain s h where \<sigma>: "\<sigma> = (s, h)" by (cases \<sigma>)
    show "wp (sys (OsStarttime p)) (\<lambda>_. mid p []) (\<lambda>_. unopened p) \<sigma>"
      unfolding \<sigma> by (rule wp_mono [OF mid_sys [of p "[]" s h _ "[]"]]) (use assms in \<open>auto simp: \<sigma> intro: mid_nil\<close>)
  qed (rule bind_failed_sound, simp)
  have opens: "wp (on_error (bind_open sys p expected start) (\<lambda>_. bind_failed sys start None))
      (\<lambda>x. open_mid p (snd x)) (\<lambda>_. sound True p) \<tau>" if "mid p [] \<tau>" for start \<tau>
    by (rule wp_on_errorI [OF open_wp [OF that]], rule bind_failed_sound, simp)
  have finishing: "wp (andthen (on_error (bind_confirm sys p start launcher fd) (\<lambda>_. bind_failed sys start (Some fd)))
     (writes (make_handle t p start launcher fd))) (\<lambda>_. sound True p) (\<lambda>_. sound True p) \<tau>"
    if "open_mid p fd \<tau>" for start launcher fd \<tau>
    by (rule wp_andthenI [OF wp_on_errorI [OF preservesD [OF confirm_opened that]]], rule bind_failed_sound)
      (auto simp: wp_writes intro: handle_opened)
  show ?thesis unfolding bind_claimed_def split_def
    by (rule wp_bndI [OF starting], rule wp_bndI [OF opens], assumption, rule finishing)
qed

end

lemma claim_mid:
  assumes "sound b p (s, h)" and "\<not> origin_claimed s"
  shows "mid p [] (set_lc ''BINDING'' (s\<lparr>origin_claimed := True\<rparr>), h)"
  using assms reap_cap_core [of p s h "set_lc ''BINDING'' (s\<lparr>origin_claimed := True\<rparr>)"]
    handle_core [of p s h "set_lc ''BINDING'' (s\<lparr>origin_claimed := True\<rparr>)"]
  by (simp add: mid_def inert_def sound_def pyset_def)

context guarded
begin

lemma validate_unclaimed:
  assumes "sound b p \<sigma>"
  shows "wp (validate_lifecycle sys) (\<lambda>_ \<tau>. sound b p \<tau> \<and> \<not> origin_claimed (fst \<tau>)) (\<lambda>_. sound b p) \<sigma>"
proof -
  have fresh: "wp (bnd (reads (\<lambda>s. s)) (\<lambda>s. lift (lifecycle_fresh s v)))
      (\<lambda>_ \<tau>. sound b p \<tau> \<and> \<not> origin_claimed (fst \<tau>)) (\<lambda>_. sound b p) \<tau>" if "sound b p \<tau>" for v \<tau>
    using that by (cases \<tau>) (auto simp: wp_simps lifecycle_fresh_def Let_def check_simps split: sum.split)
  obtain s h where \<sigma>: "\<sigma> = (s, h)" by (cases \<sigma>)
  show ?thesis unfolding validate_lifecycle_def \<sigma>
  proof (rule wp_readsI, rule wp_liftI, rule wp_bndI)
    show "wp (sys OsIdentity) (\<lambda>_. sound b p) (\<lambda>_. sound b p) (s, h)"
      using preservesD [OF sound_quiet assms] by (simp add: \<sigma>)
  qed (use assms in \<open>auto simp: \<sigma> intro!: wp_liftI fresh\<close>)
qed

lemma bind_sound: "preserves (sound b p) (bind_owned_pidfd sys t expected)"
proof -
  have rest: "wp (andthen (lift (oc_launcher expected))
       (andthen (writes (\<lambda>s. set_lc ''BINDING'' (s\<lparr>origin_claimed := True\<rparr>)))
       (bnd (reads (\<lambda>s. fld (fld (lc s) ''owned_child'') ''pid'')) (bind_claimed sys t expected))))
     (\<lambda>_. sound b p) (\<lambda>_. sound b p) \<tau>" if "sound b p \<tau> \<and> \<not> origin_claimed (fst \<tau>)" for \<tau>
  proof -
    obtain s h where \<tau>: "\<tau> = (s, h)" by (cases \<tau>)
    let ?s = "set_lc ''BINDING'' (s\<lparr>origin_claimed := True\<rparr>)"
    have mid: "mid p [] (?s, h)" using that by (intro claim_mid) (auto simp: \<tau>)
    then have pid: "fld (fld (lc ?s) ''owned_child'') ''pid'' = p" by (simp only: mid_def sound_def fst_conv)
    show ?thesis unfolding \<tau>
    proof (rule wp_liftI, rule wp_writesI, rule wp_readsI, unfold pid)
      show "wp (bind_claimed sys t expected p) (\<lambda>_. sound b p) (\<lambda>_. sound b p) (?s, h)"
        by (rule wp_mono [OF claimed_sound [OF mid]]) (rule sound_weaken, assumption)+
    qed (use that in \<open>simp add: \<tau>\<close>)
  qed
  have "preserves (sound b p) (andthen (validate_lifecycle sys)
       (andthen (lift (oc_launcher expected))
       (andthen (writes (\<lambda>s. set_lc ''BINDING'' (s\<lparr>origin_claimed := True\<rparr>)))
       (bnd (reads (\<lambda>s. fld (fld (lc s) ''owned_child'') ''pid'')) (bind_claimed sys t expected)))))"
    unfolding preserves_def by (intro allI impI, rule wp_andthenI [OF validate_unclaimed], assumption, rule rest)
  moreover have "preserves (sound b p) (writes (set_lc st))" for st by (rule sound_same) simp
  ultimately show ?thesis
    unfolding bind_owned_pidfd_def
    by (rule_tac preserves_bnd [OF preserves_quiet(5)], rule_tac preserves_if, rule_tac preserves_andthen [OF _ preserves_quiet(2)])
qed

lemma adapter_sound: "preserves (sound b p) (bind_capture_child_adapter sys t)"
proof -
  have "wp (andthen (in_state [''BOUND''] msg)
     (bnd (reads ad_made) (\<lambda>claimed.
     if claimed then andthen (writes capture_violation) (raise (Refusal msg')) else writes (make_adapter t))))
     (\<lambda>_. sound b p) (\<lambda>_. sound b p) (s, h)" if "sound b p (s, h)" for s h msg msg'
    using that sound_live [OF that] by (intro wp_in_stateI) (auto simp: wp_simps intro: sound_core sound_adapter)
  then show ?thesis
    unfolding bind_capture_child_adapter_def by (intro preserves_andthen [OF sound_owner]) (auto simp: preserves_def)
qed

lemma sound_perform: "preserves (sound b p) (perform sys x)"
proof -
  obtain t op where x: "x = (t, op)" by (cases x)
  have reap: "preserves (sound b p) (reap_observed_exit sys t k i)" for k i
    unfolding preserves_def by (blast intro: wp_mono reap_sound)
  have once: "preserves (sound b p) (on_adapter (reap_cached_once sys t a c cw))" for a c cw
    unfolding on_adapter_def by (intro preserves_intros reap_once_sound)
  show ?thesis unfolding x
    by (cases op; simp only: perform.simps; ((rule preserves_discard [OF once]) | (unfold ad_defs in_state_def)?;
      (rule preserves_discard bind_sound observe_sound reap closes_sound adapter_sound sound_begin
         sound_spend preserves_intros | (rule sound_same, ((simp; fail) | (simp add: same_core_def; fail))))+))
qed

end

section \<open>Every use\<close>

interpretation child: reentrant child_preds
proof
  fix sys I p
  assume up: "upholds child_preds sys" and mem: "I \<in> child_preds"
  from up have g: "guarded sys" by (rule guarded.intro)
  show "preserves I (perform sys p)"
    using mem guarded.held_perform [OF g] guarded.inert_perform [OF g] guarded.sound_perform [OF g]
    unfolding child_preds_def by blast
qed

interpretation child_boundary: guarded "sys_at \<beta> \<kappa> d" for \<beta> \<kappa> d
  by unfold_locales (rule child.boundary)

lemma fork_sound: "sound True pid (fork_record pid supervisor token, [])"
  by (simp add: sound_def fork_record_def handle_ok_def reap_cap_ok_def leak_free_def opened_def live_states_def
      unreaped_states_def fd_calls_def)

lemma run_sound: "sound True pid (snd (oc_run \<beta> \<kappa> d ops (fork_record pid supervisor token, [])))"
  by (rule child.run_keeps [where I = "sound True pid", OF child_preds(1) fork_sound])

text \<open>
  C10: Whatever the operating system answers, whatever operations the callers make on a recorded
  fork, on whichever threads, and however the operations are re-entered while a system function
  runs: the process is opened at most once, and only the recorded one; its descriptor is probed
  and waited for only while open and unreaped; the reaping wait happens at most once and only
  after a wait that did not reap had shown the exit; the descriptor is closed at most once, and
  never used after that.
\<close>

theorem child_descriptor_discipline:
  "keeps (disc pid) (snd (snd (oc_run \<beta> \<kappa> d ops (fork_record pid supervisor token, []))))"
  using run_sound [of pid \<beta> \<kappa> d ops supervisor token] by (simp add: sound_def)

text \<open>
  C12: A handle whose state is unknown or closed stays so for good: no later operation, re-entered
  or not and with any system, brings it back or makes a further call on the descriptor.
\<close>

theorem dead_handle_final:
  "case snd (oc_run \<beta> \<kappa> d ops (fork_record pid supervisor token, [])) of (s, h) \<Rightarrow>
     if hd_made s \<and> hd_stuck (hd_state s) then
       (case snd (oc_run \<beta>' \<kappa>' d' ops' (s, h)) of (s', h') \<Rightarrow>
          hd_made s' \<and> hd_stuck (hd_state s') \<and> fd_calls h' = fd_calls h)
     else True"
proof -
  let ?\<sigma> = "snd (oc_run \<beta> \<kappa> d ops (fork_record pid supervisor token, []))"
  have "inert True (fd_calls (snd ?\<sigma>)) (snd (oc_run \<beta>' \<kappa>' d' ops' ?\<sigma>))"
    if "hd_made (fst ?\<sigma>)" "hd_stuck (hd_state (fst ?\<sigma>))"
  proof (rule child.run_keeps)
    show "inert True (fd_calls (snd ?\<sigma>)) ?\<sigma>"
      using that run_sound [of pid \<beta> \<kappa> d ops supervisor token] by (auto simp: inert_def sound_def)
  qed simp
  then show ?thesis by (auto simp: inert_def split: prod.splits)
qed

definition handed_out :: "os_call \<times> pyval res \<Rightarrow> bool" where
  "handed_out qr = (case qr of (OsPidfdOpen x, Inr fd) \<Rightarrow> integer fd 0 | _ \<Rightarrow> False)"

text \<open>
  C13: No binding leaks its descriptor: after any use of a recorded fork there is a handle, or every
  descriptor that the system handed out for the process has been closed.
\<close>

theorem child_descriptor_not_leaked:
  "case snd (oc_run \<beta> \<kappa> d ops (fork_record pid supervisor token, [])) of (s, h) \<Rightarrow>
     hd_made s \<or> closed h \<or> list_all (Not \<circ> handed_out) h"
proof -
  obtain s h where \<sigma>: "snd (oc_run \<beta> \<kappa> d ops (fork_record pid supervisor token, [])) = (s, h)" by fastforce
  have snd: "sound True pid (s, h)" using run_sound [of pid \<beta> \<kappa> d ops supervisor token] by (simp add: \<sigma>)
  have "closed h" if made: "\<not> hd_made s" and mem: "(q, r) \<in> set h" "handed_out (q, r)" for q r
  proof -
    obtain x fd where q: "q = OsPidfdOpen x" "r = Inr fd" "integer fd 0"
      using mem(2) by (auto simp: handed_out_def split: os_call.splits sum.splits)
    obtain h1 h2 where "h = h1 @ (q, r) # h2" using mem(1) by (meson split_list)
    with snd have "disc pid h1 q" by (metis keepsD snd_conv sound_def)
    with q mem(1) have "opened pid fd h" by (simp add: opened_def)
    with q(3) made snd show ?thesis by (auto simp: sound_def leak_free_def)
  qed
  then show ?thesis unfolding \<sigma> prod.case list_all_iff by fastforce
qed

text \<open>
  C11: A reap that returns reports the truth. In every reachable state and under any re-entrancy,
  its report carries the class and the status of a receipt that two answers of the system agree on,
  one of a wait that left the process waitable and one of the reaping wait, both a terminal result
  for the recorded process; and the capability that hands the reap over to a descendant rests on
  such a pair as well.
\<close>

theorem child_reap_reported:
  "case snd (oc_run \<beta> \<kappa> d ops (fork_record pid supervisor token, [])) of (s, h) \<Rightarrow>
     (case ad_reap s of None \<Rightarrow> True
      | Some rc \<Rightarrow> backed pid False h (oc_receipts s ! rc_receipt rc) \<and> backed pid True h (oc_receipts s ! rc_receipt rc)
          \<and> fld (rc_leader rc) ''pid'' = pid)
   \<and> (case reap_observed_exit (sys_at \<beta> \<kappa> d) t key i (s, h) of
        (Inl e, _) \<Rightarrow> True
      | (Inr v, s', h') \<Rightarrow> \<exists>r. backed pid False h' r \<and> backed pid True h' r
          \<and> fld v ''exit'' = PStr (r_class r) \<and> fld v ''status'' = r_status r)"
proof -
  let ?\<sigma> = "snd (oc_run \<beta> \<kappa> d ops (fork_record pid supervisor token, []))"
  obtain s h where \<sigma>: "?\<sigma> = (s, h)" by (cases ?\<sigma>)
  have snd: "sound True pid (s, h)" using run_sound [of pid \<beta> \<kappa> d ops supervisor token] by (simp add: \<sigma>)
  then have "backed pid False h (oc_receipts s ! j)" if "j < length (oc_receipts s)" for j
    using that by (simp add: sound_def list_all_length)
  with snd have "case ad_reap s of None \<Rightarrow> True
      | Some rc \<Rightarrow> backed pid False h (oc_receipts s ! rc_receipt rc) \<and> backed pid True h (oc_receipts s ! rc_receipt rc)
          \<and> fld (rc_leader rc) ''pid'' = pid"
    by (auto simp: sound_def reap_cap_ok_def split: option.splits)
  moreover have "case reap_observed_exit (sys_at \<beta> \<kappa> d) t key i (s, h) of
        (Inl e, _) \<Rightarrow> True
      | (Inr v, s', h') \<Rightarrow> \<exists>r. backed pid False h' r \<and> backed pid True h' r
          \<and> fld v ''exit'' = PStr (r_class r) \<and> fld v ''status'' = r_status r"
    using child_boundary.reap_sound [OF snd, of \<beta> \<kappa> d t key i]
    by (auto simp: wp_def reap_report_def split: prod.splits sum.splits)
  ultimately show ?thesis by (simp add: \<sigma>)
qed

section \<open>An ordinary life\<close>

definition oc_boot :: pyval where "oc_boot = PStr ''00000000-0000-0000-0000-000000000000''"

definition oc_supervisor :: pyval where
  "oc_supervisor = PDict [(''pid'', PInt 4), (''starttime'', PInt 3), (''boot_id'', oc_boot)]"

definition oc_unarmed :: pyval where
  "oc_unarmed = PDict [(''exe_dev'', PInt 1), (''exe_inode'', PInt 2), (''cmdline_sha256'', PStr (replicate 64 CHR ''a'')),
     (''kind'', PStr ''UNARMED_LAUNCHER_NOT_PAYLOAD'')]"

text \<open>A system whose child has exited with status 3 since the second observation\<close>

fun oc_system :: "os_call backend" where
  "oc_system h OsIdentity = Inr oc_supervisor"
| "oc_system h (OsStarttime p) = Inr (PInt 8)"
| "oc_system h (OsLauncher p) = Inr oc_unarmed"
| "oc_system h (OsPidfdOpen p) = Inr (PInt 5)"
| "oc_system h (OsProbe fd) = Inr PNone"
| "oc_system h (OsWaitid fd reaping) =
     (if list_ex (\<lambda>(q, r). q = OsWaitid fd False) h
      then Inr (PDict [(''si_pid'', PInt 9), (''si_code'', PInt 1), (''si_status'', PInt 3)]) else Inr PNone)"
| "oc_system h (OsClose fd) = Inr PNone"

definition oc_bound :: "pyval \<Rightarrow> consumer_view" where
  "oc_bound monitor = \<lparr>cw_state = PStr ''BOUND'', cw_monitor = monitor, cw_failure = PNone, cw_settled = PBool False,
     cw_child_self = True, cw_completion = None, cw_handoff = PBool False, cw_poisoned = PBool False\<rparr>"

definition oc_settling :: consumer_view where
  "oc_settling = \<lparr>cw_state = PStr ''SETTLING'', cw_monitor = PBool False, cw_failure = PStr ''lost'', cw_settled = PBool True,
     cw_child_self = True, cw_completion = None, cw_handoff = PBool False, cw_poisoned = PBool False\<rparr>"

definition oc_life :: "(nat \<times> oc_op) list" where
  "oc_life = map (Pair 0)
     [OpBind oc_unarmed, OpAdapter, OpClaim (Some 1) (Some 2), OpEnroll True (Some 7) (Some 2) (oc_bound (PBool False)),
      OpObserveCached (Some 1) (Some 2) (oc_bound (PBool True)), OpObserveCached (Some 1) (Some 2) (oc_bound (PBool True)),
      OpSettle (Some 1) (Some 2) oc_settling, OpReapOnce (Some 1) (Some 2) oc_settling,
      OpTake True (Some 7) (Some 2) oc_settling, OpSpend, OpTransferred True True (Some 7) (Some 2) oc_settling, OpCloseReaped True]"

definition oc_born :: oc where
  "oc_born = fork_record (PInt 9) oc_supervisor (PStr (replicate 32 CHR ''b''))"

text \<open>
  The whole life of a child, through the adapter to the hand-over; and the same with a caller that
  closes the descriptor from inside the first wait, which poisons the handle instead.
\<close>

lemma child_ordinary_life:
  "case snd (oc_run oc_system (\<lambda>_ _. []) 0 oc_life (oc_born, [])) of (s, h) \<Rightarrow>
     hd_state s = ''REAPED_PIDFD_CLOSED'' \<and> ad_state s = ''DESCENDANT_HANDOFF'' \<and> map_option rc_used (ad_reap s) = Some True
   \<and> fd_calls h = [OsPidfdOpen (PInt 9), OsProbe (PInt 5), OsWaitid (PInt 5) False, OsWaitid (PInt 5) False, OsWaitid (PInt 5) True,
       OsClose (PInt 5)]"
  by code_simp

lemma child_reentrant_close:
  "case snd (oc_run oc_system (\<lambda>_ q. if q = OsWaitid (PInt 5) False then [(0, OpClose False)] else []) 1
       [(0, OpBind oc_unarmed), (0, OpObserve False), (0, OpObserve False)] (oc_born, [])) of (s, h) \<Rightarrow>
     hd_state s = ''UNKNOWN_REENTRANT_OPERATION'' \<and> hd_pidfd s = PInt 5
   \<and> fd_calls h = [OsPidfdOpen (PInt 9), OsProbe (PInt 5), OsWaitid (PInt 5) False]"
  by code_simp

end
