(* ===== verification/Spec2Isabelle.thy ===== *)
theory Spec2Isabelle
  imports ConfigCas BarrierModel UpdatePolicy LazyZeroGuard ProcessLifetime AuthorityContinuity
    RegistrationPlan LazyGraph LazyAudit ExecutorFence PveInventory Supervisor LauncherIdentity
    LauncherRequest IntentFile NoGrantAbort RegistrationService LvmSync FileBackend ExactRestore
    GuestShutdown JournalInspect ChildSafety
begin

text \<open>
  A model of the decision core of pve-sharedlvmthin, the shared-LVM thin-provisioning plugin for
  Proxmox VE, and its correctness properties.

  \<^bold>\<open>The program.\<close> The plugin serves virtual disks from a volume group that several nodes share.
  Around the storage plugin stands Python code which decides when an operation that could harm
  data may proceed: it gathers evidence, checks it against closed schemas, and runs small state
  machines that refuse on every doubt. This development models these deciders, in two groups.

  Installed, under \<^verbatim>\<open>usr/libexec/pve-sharedlvmthin/\<close>:
  \<^item> \<open>UpdatePolicy\<close> (\<^verbatim>\<open>sharedlvmthin_update_policy.py\<close>): the APT hook that allows or blocks a
    package transaction by the catalogue of qualified transitions.
  \<^item> \<open>RegistrationPlan\<close> (\<^verbatim>\<open>sharedlvmthin-registration-plan.py\<close>): from evidence of all nodes to the
    commands of a storage registration.
  \<^item> \<open>LazyGraph\<close>, \<open>LazyAudit\<close> (\<^verbatim>\<open>sharedlvmthin_lazy_package_proof.py\<close>): the dm graph of lazy volumes,
    and the audits that prove them active and exact here, or absent there.
  \<^item> \<open>ExecutorFence\<close> (\<^verbatim>\<open>sharedlvmthin_package_executor_fence.py\<close>): the locks a package operation holds.
  \<^item> \<open>PveInventory\<close> (\<^verbatim>\<open>sharedlvmthin_pve_inventory.py\<close>): which guest uses which volume, in which role.
  \<^item> \<open>RegistrationService\<close> (\<^verbatim>\<open>sharedlvmthin_registration_service.py\<close>): the client that reads the
    inventory of the cluster for a registration.

  Reviewed models, under \<^verbatim>\<open>experiments/thick-generations/\<close>, which fix the protocols:
  \<^item> \<open>BarrierModel\<close> (\<^verbatim>\<open>layout-migration-barrier-model.py\<close>): the package-maintenance barrier over four nodes.
  \<^item> \<open>ConfigCas\<close> (\<^verbatim>\<open>layout-migration-config-cas-model.py\<close>): one compare-and-swap of the storage configuration.
  \<^item> \<open>LazyZeroGuard\<close> (\<^verbatim>\<open>lazy_zero_guard_model.py\<close>): guard epochs and publication of lazily zeroed blocks.
  \<^item> \<open>ProcessLifetime\<close>, \<open>AuthorityContinuity\<close> (\<^verbatim>\<open>process-lifetime-authority-model.py\<close>,
    \<^verbatim>\<open>authority-continuity-model.py\<close>): who may act while a process lives, and after its authority moved.
  \<^item> \<open>Supervisor\<close> (\<^verbatim>\<open>prelive_supervisor_model.py\<close>): the one-shot supervisor of an external command.
  \<^item> \<open>LauncherIdentity\<close>, \<open>LauncherRequest\<close>, \<open>IntentFile\<close>, \<open>NoGrantAbort\<close>
    (\<^verbatim>\<open>prelive_launcher_identity_model.py\<close>, \<^verbatim>\<open>prelive_launcher_identity_consumer.py\<close>,
    \<^verbatim>\<open>prelive_v2_intent_file_bridge.py\<close>, \<^verbatim>\<open>prelive_no_grant_abort_model.py\<close>): the launch of a child:
    who the launcher is, what it asks, how the intent to fork is made durable, and the run that
    forks a child only to abort it.
  \<^item> \<open>FileBackend\<close> (\<^verbatim>\<open>prelive_exact_journal_file_backend.py\<close>): the create-only record store on a file
    system, to which \<open>IntentFile\<close> writes.
  \<^item> \<open>ExactRestore\<close> (\<^verbatim>\<open>layout-migration-exact-restore-model.py\<close>): the restoration of exactly the services that
    ran before the barrier.
  \<^item> \<open>GuestShutdown\<close> (\<^verbatim>\<open>layout-migration-guest-shutdown-model.py\<close>): the supervised shutdown of a list of guests.
  \<^item> \<open>BarrierJournal\<close>, \<open>JournalInspect\<close> (\<^verbatim>\<open>layout-migration-barrier-file-journal.py\<close>): the durable, hash-chained
    journal of the barrier controller, and its inspection.
  \<^item> \<open>OwnedChild\<close>, \<open>ChildSafety\<close> (\<^verbatim>\<open>prelive_owned_child.py\<close>): the process descriptor of a forked child, from
    binding to the hand-over of its reap, with callbacks that re-enter the operations to any depth.
  \<^item> \<open>OwnedChild\<close>, \<open>ChildSafety\<close> (\<^verbatim>\<open>prelive_owned_child.py\<close>): the process descriptor of a forked child, from
    binding to the hand-over of its reap, with callbacks that re-enter the operations to any depth.
  \<^item> \<open>LvmSync\<close> (\<^verbatim>\<open>lvm-sync-io-ab.py\<close>): the controller of a pair of LVM probes.

  \<^bold>\<open>How the parts interact.\<close> The launch chain is built in layers, as the imports are: the request
  of \<open>LauncherRequest\<close> contains a request of \<open>Supervisor\<close> and a descriptor of \<open>LauncherIdentity\<close>;
  \<open>IntentFile\<close> stores the first event over that request; \<open>NoGrantAbort\<close> is constructed from the
  request, its owner and these bytes. \<open>FileBackend\<close> provides the store that \<open>IntentFile\<close> calls, and its
  acknowledgements are shown to meet the contract of that client. \<open>LazyAudit\<close> runs over the graph that \<open>LazyGraph\<close> derives, and
  \<open>ExecutorFence\<close> repeats such a proof under its locks. The other parts are handed evidence by
  their callers. \<open>BarrierJournal\<close> keeps the events that \<open>BarrierModel\<close> persists: the inspection accepts what the
  journal writes, and reads it as the controller reads its own history.

  \<^bold>\<open>Shared theories.\<close> \<open>Prelude\<close>: exceptions as a datatype, results as \<open>exc + 'a\<close>, chains of
  \<^verbatim>\<open>require\<close>. \<open>PyValue\<close>: Python values, with equality by value and \<^verbatim>\<open>type(x) is T\<close> as separate
  notions. \<open>PyText\<close>: string and path operations, patterns as matchers. \<open>Sha256\<close>, \<open>Json\<close>: the
  digest on \<open>32 word\<close>, and canonical serialisation, both executable; what is digested is the same
  bytes as in the code. \<open>Machine\<close>: state machines as step functions, reachability and invariants, as
  a locale. \<open>PyEffect\<close>: programs over a dependency. A dependency is a function from the history of
  calls and the next call to an answer or an exception, so a statement for every such function
  covers every behaviour the dependency can show; weakest preconditions, call scripts (\<open>emits\<close>),
  allowed calls (\<open>asks\<close>) and invariants (\<open>preserves\<close>) are its proof rules.

  \<^bold>\<open>Correspondence.\<close> A dictionary that the code validates is a \<open>pyval\<close>; a class is a record whose
  fields are the attributes, with a prefix; a method is a definition that passes the record and, where it
  calls a dependency, the history. Each \<^verbatim>\<open>raise\<close> is an \<open>Inl\<close> with the exception class and text.
  \<^verbatim>\<open>try/except/raise\<close> is \<open>on_error\<close>, \<^verbatim>\<open>finally\<close> is \<open>at_end\<close> or \<open>ensure\<close>. Predicates follow the order of the
  conditions of the source where an earlier one protects a later one from raising.

  \<^bold>\<open>The lemma groups.\<close> For each state machine: every operation preserves the invariant, reachable
  states satisfy it, absorbing states stay. For each program over a dependency: the calls of a run
  are a prefix of a fixed script for every backend, what a returned result rests on, and how a
  failure leaves the object. For each validator: what an accepted value contains, and that accepted values are
  accepted again unchanged where the code relies on it. For pure functions: exact results on both branches.

  \<^bold>\<open>Bounds and fuel.\<close> The read loop of \<open>IntentFile\<close> takes a measure of the bytes it may still read
  (at most 65537 calls), the receive loop of \<open>RegistrationService\<close> one of the bytes it may still
  receive (at most 1048577 calls), the write loop of \<open>FileBackend\<close> one of the bytes still to be written,
  and that of \<open>JournalInspect\<close> one of the bytes a record may still have. The parsers of \<open>PveInventory\<close>, \<open>LazyGraph\<close> and \<open>UpdatePolicy\<close> recurse on
  the text. No definition uses fuel; every definition is total.

  \<^bold>\<open>Not modelled.\<close> Values are trees: no aliasing between, or cycles in, the containers that callers
  pass (the code deep-copies at its boundaries); dictionary keys are strings; characters are code
  points below 256, so that non-ASCII text beyond Latin-1 does not occur; floats and instances of other
  classes are opaque objects. Object identity (\<^verbatim>\<open>is\<close> on backends, handles, threads) is equality of
  numbers. The texts of built-in exceptions and exception notes are not modelled, nor are
  integer strings beyond Python's conversion limit. The JSON scanner, UTF-8 decoding, catalogue globs,
  Debian version comparison and file access are parameters, or calls of a dependency. The Perl plugin, the shell
  scripts, the web service, the command-line tools without the suffix \<^verbatim>\<open>.py\<close>, and the larger compositions
  of the launch chain are outside this development; the manifest lists them.
\<close>

end
